(* ===== verification/MW_Prelude.thy ===== *)
theory MW_Prelude
  imports Complex_Main "HOL-Library.Word"
begin

text \<open>
  Shared vocabulary of the development: the fact collections the components add to, generic
  lemmas on lists, options and real arithmetic, and the error values of the C code that the
  components share (a call of \<open>mw_fail\<close>/\<open>mw_panic\<close> that ends the process is the
  value \<open>None\<close> of an option).
\<close>

named_theorems vec_defs \<open>definitions of the vector operations\<close>
named_theorems mw_eval \<open>evaluation rules for the modelled C library functions\<close>
named_theorems frame_simps \<open>what an operation leaves unchanged\<close>

section \<open>Options and lists\<close>

lemma obind_SomeE:
  assumes "Option.bind m f = Some y"
  obtains x where "m = Some x" "f x = Some y"
  using assms by (cases m) auto

lemma option_all_upt_Suc:
  "(\<forall>i < Suc n. P i) \<longleftrightarrow> (\<forall>i < n. P i) \<and> P n"
  using less_Suc_eq by auto

lemma nth_list_update_if:
  "i < length xs \<Longrightarrow> xs[i := x] ! j = (if i = j then x else xs ! j)"
  by (cases "j < length xs") auto

lemma map_list_update_same:
  "i < length xs \<Longrightarrow> f x = f (xs ! i) \<Longrightarrow> map f (xs[i := x]) = map f xs"
  by (metis list_update_id map_update)

text \<open>The present elements of an array of nullable pointers, in index order.\<close>

definition live :: "'a option list \<Rightarrow> 'a list" where
  "live xs = map the (filter (\<lambda>x. x \<noteq> None) xs)"

lemma live_Nil [simp]: "live [] = []"
  and live_None [simp]: "live (None # xs) = live xs"
  and live_Some [simp]: "live (Some x # xs) = x # live xs"
  by (simp_all add: live_def)

lemma set_live: "set (live xs) = {x. Some x \<in> set xs}"
  by (induction xs) (auto simp: live_def split: option.splits)

lemma live_map_option [simp]: "live (map (map_option f) xs) = map f (live xs)"
proof (induction xs)
  case (Cons x xs)
  then show ?case by (cases x) simp_all
qed simp

lemma live_append [simp]: "live (xs @ ys) = live xs @ live ys"
  by (simp add: live_def)

lemma live_replicate_None [simp]: "live (replicate n None) = []"
  by (induction n) auto

lemma sum_list_live_map:
  fixes f :: "'a \<Rightarrow> 'b::comm_monoid_add"
  shows "sum_list (map f (live xs)) = sum_list (map (\<lambda>z. case z of None \<Rightarrow> 0 | Some x \<Rightarrow> f x) xs)"
proof (induction xs)
  case (Cons x xs)
  then show ?case by (cases x) simp_all
qed simp

text \<open>A loop that writes the first elements of an array.\<close>

lemma fold_update_prefix:
  "m \<le> length as \<Longrightarrow> fold (\<lambda>i as. as[i := f i]) [0..<m] as = map f [0..<m] @ drop m as"
proof (induction m)
  case (Suc m)
  then have "drop m as = as ! m # drop (Suc m) as" by (simp add: Cons_nth_drop_Suc)
  then show ?case using Suc by (simp add: list_update_append)
qed simp

lemma fold_update_all: "length as = n \<Longrightarrow> fold (\<lambda>i as. as[i := f i]) [0..<n] as = map f [0..<n]"
  by (simp add: fold_update_prefix)

lemma count_tenths: "length (filter (\<lambda>j. j mod 10 = 0) [0..<Suc n]) = n div 10 + (1::nat)"
  by (induction n) (auto simp: div_Suc)

section \<open>Real arithmetic\<close>

lemma weighted_mean_bounds:
  fixes xs :: "(real \<times> real) list"
  assumes pos: "\<And>m x. (m, x) \<in> set xs \<Longrightarrow> 0 \<le> m \<and> lo \<le> x \<and> x \<le> hi"
    and tot: "0 < sum_list (map fst xs)"
  shows "lo \<le> sum_list (map (\<lambda>(m, x). m * x) xs) / sum_list (map fst xs)
       \<and> sum_list (map (\<lambda>(m, x). m * x) xs) / sum_list (map fst xs) \<le> hi"
proof -
  have "lo * sum_list (map fst xs) \<le> sum_list (map (\<lambda>(m, x). m * x) xs)
      \<and> sum_list (map (\<lambda>(m, x). m * x) xs) \<le> hi * sum_list (map fst xs)"
    using pos
  proof (induction xs)
    case (Cons p xs)
    obtain m x where p: "p = (m, x)" by (cases p)
    have mx: "0 \<le> m" "lo \<le> x" "x \<le> hi" using Cons.prems p by auto
    then have "lo * m \<le> m * x" "m * x \<le> hi * m"
      using mult_left_mono[of lo x m] mult_left_mono[of x hi m] by (simp_all add: mult.commute)
    moreover have "lo * sum_list (map fst xs) \<le> sum_list (map (\<lambda>(m, x). m * x) xs)
        \<and> sum_list (map (\<lambda>(m, x). m * x) xs) \<le> hi * sum_list (map fst xs)"
      using Cons by auto
    ultimately show ?case by (simp add: p algebra_simps)
  qed simp
  then show ?thesis using tot by (simp add: field_simps)
qed

lemma sum_list_nonneg_real: "(\<And>x. x \<in> set xs \<Longrightarrow> 0 \<le> (x::real)) \<Longrightarrow> 0 \<le> sum_list xs"
  by (induction xs) auto

lemma sum_list_map_pos:
  fixes f :: "'a \<Rightarrow> real"
  assumes "\<And>x. x \<in> set xs \<Longrightarrow> 0 < f x" "xs \<noteq> []"
  shows "0 < sum_list (map f xs)"
proof -
  obtain y ys where "xs = y # ys" using assms(2) by (cases xs) auto
  moreover have "0 \<le> sum_list (map f ys)"
    using assms(1) calculation by (intro sum_list_nonneg_real) (auto intro: less_imp_le)
  ultimately show ?thesis using assms(1)[of y] by simp
qed

end
