(* ===== verification/MW_Vectors.thy ===== *)
theory MW_Vectors
  imports MW_Prelude
begin

text \<open>
  The arithmetic layer: \<open>milkyway_math_supplemental.h\<close> and \<open>milkyway_vectors.h\<close>.
  The C type \<open>real\<close> (an IEEE double) is read as the HOL type \<open>real\<close>: rounding is not
  modelled, and every statement about these functions is a statement about exact arithmetic.
  Where the code asks for NaN or infinity, the theory MW_Float is used instead.
  The fourth component \<open>w\<close> of \<open>mwvector\<close> is padding that the operations leave
  uninitialised, so it is not a field here.
\<close>

section \<open>Scalar helpers\<close>

abbreviation sqr :: "'a::times \<Rightarrow> 'a" where "sqr x \<equiv> x * x"
abbreviation cube :: "'a::times \<Rightarrow> 'a" where "cube x \<equiv> x * x * x"

definition mw_inv :: "real \<Rightarrow> real" where
  "mw_inv x = 1 / x"

definition fifth :: "real \<Rightarrow> real" where
  "fifth x = x * x * x * x * x"

definition fivehalves :: "real \<Rightarrow> real" where
  "fivehalves x = sqrt (fifth x)"

definition minusfivehalves :: "real \<Rightarrow> real" where
  "minusfivehalves x = mw_inv (fivehalves x)"

text \<open>
  \<open>pow\<close> of the C library: exact for an integer exponent and any base, \<open>powr\<close> otherwise
  (a negative base with a fractional exponent is NaN in C and is outside every statement here).
\<close>

definition mw_pow :: "real \<Rightarrow> real \<Rightarrow> real" where
  "mw_pow x y = (if y = of_int \<lfloor>y\<rfloor> then power_int x \<lfloor>y\<rfloor> else x powr y)"

lemma mw_pow_numeral [simp]: "mw_pow x (numeral n) = x ^ numeral n"
  by (simp add: mw_pow_def power_int_numeral)

lemma mw_pow_1 [simp]: "mw_pow x 1 = x" and mw_pow_0 [simp]: "mw_pow x 0 = 1"
  by (simp_all add: mw_pow_def)

lemma mw_pow_neg_numeral [simp]: "mw_pow x (- numeral n) = inverse (x ^ numeral n)"
  by (simp add: mw_pow_def power_int_minus power_int_numeral)

lemma not_int_half: "(1/2::real) \<noteq> of_int n"
proof
  assume "(1/2::real) = of_int n"
  then have "(1::real) = of_int (2 * n)" by simp
  then have "1 = 2 * n" by (metis of_int_1 of_int_eq_iff)
  then show False by presburger
qed

lemma mw_pow_half [simp]: "0 \<le> x \<Longrightarrow> mw_pow x (1/2) = sqrt x"
  using not_int_half by (simp add: mw_pow_def powr_half_sqrt)

lemma mw_pow_three_halves: "0 \<le> x \<Longrightarrow> mw_pow x (3/2) = x * sqrt x"
proof -
  assume x: "0 \<le> x"
  have "(3/2::real) \<noteq> of_int n" for n
    using not_int_half[of "n - 1"] by simp
  then have "mw_pow x (3/2) = x powr (3/2)" by (simp add: mw_pow_def)
  also have "\<dots> = x powr (1 + 1/2)" by simp
  also have "\<dots> = x powr 1 * x powr (1/2)" by (rule powr_add)
  finally show ?thesis using x by (cases "x = 0") (simp_all add: powr_half_sqrt)
qed

text \<open>\<open>atan2\<close> of the C library, on finite arguments without signed zeros.\<close>

definition mw_atan2 :: "real \<Rightarrow> real \<Rightarrow> real" where
  "mw_atan2 y x =
     (if 0 < x then arctan (y / x)
      else if x < 0 then (if 0 \<le> y then arctan (y / x) + pi else arctan (y / x) - pi)
      else if 0 < y then pi / 2 else if y < 0 then - (pi / 2) else 0)"

text \<open>\<open>fmax\<close> and \<open>round\<close> (half away from zero) of the C library on finite arguments.\<close>

definition mw_fmax :: "real \<Rightarrow> real \<Rightarrow> real" where
  "mw_fmax a b = (if b \<le> a then a else b)"

definition mw_round :: "real \<Rightarrow> int" where
  "mw_round x = (if 0 \<le> x then \<lfloor>x + 1/2\<rfloor> else \<lceil>x - 1/2\<rceil>)"

text \<open>The literal \<open>M_PI\<close> is the double nearest to pi; it is read as pi.\<close>

definition d2r :: "real \<Rightarrow> real" where
  "d2r x = x * pi / 180"

definition r2d :: "real \<Rightarrow> real" where
  "r2d x = x * 180 / pi"

lemma d2r_r2d [simp]: "d2r (r2d x) = x" and r2d_d2r [simp]: "r2d (d2r x) = x"
  by (simp_all add: d2r_def r2d_def)

lemma mw_fmax_max: "mw_fmax a b = max a b"
  by (simp add: mw_fmax_def max_def)

section \<open>atan2\<close>

lemma atan2_polar:
  fixes x y :: real
  defines "r \<equiv> sqrt (x\<^sup>2 + y\<^sup>2)"
  shows "x = r * cos (mw_atan2 y x)" "y = r * sin (mw_atan2 y x)"
proof -
  have half: "\<bar>x\<bar> * sqrt (1 + (y/x)\<^sup>2) = r" if "x \<noteq> 0"
  proof -
    have "\<bar>x\<bar> * sqrt (1 + (y/x)\<^sup>2) = sqrt (x\<^sup>2 * (1 + (y/x)\<^sup>2))"
      by (simp add: real_sqrt_mult)
    also have "x\<^sup>2 * (1 + (y/x)\<^sup>2) = x\<^sup>2 + y\<^sup>2"
      using that by (simp add: field_simps power2_eq_square)
    finally show ?thesis by (simp add: r_def)
  qed
  have sp: "sqrt (1 + (y/x)\<^sup>2) \<noteq> 0"
    by (smt (verit) real_sqrt_eq_zero_cancel_iff zero_le_power2)
  have "x = r * cos (mw_atan2 y x) \<and> y = r * sin (mw_atan2 y x)"
  proof (cases "x = 0")
    case True
    then show ?thesis
      by (simp add: mw_atan2_def r_def)
  next
    case False
    then have "x > 0 \<or> x < 0" by auto
    then show ?thesis
    proof
      assume x: "x > 0"
      then have r: "r = x * sqrt (1 + (y/x)\<^sup>2)" using half by simp
      show ?thesis using x sp by (simp add: mw_atan2_def cos_arctan sin_arctan r)
    next
      assume x: "x < 0"
      then have r: "r = - x * sqrt (1 + (y/x)\<^sup>2)" using half by simp
      show ?thesis using x sp by (simp add: mw_atan2_def cos_arctan sin_arctan r)
    qed
  qed
  then show "x = r * cos (mw_atan2 y x)" "y = r * sin (mw_atan2 y x)" by auto
qed

lemma atan2_scale: "0 < k \<Longrightarrow> mw_atan2 (k * y) (k * x) = mw_atan2 y x"
  by (auto simp: mw_atan2_def zero_less_mult_iff mult_less_0_iff zero_le_mult_iff)

lemma atan2_range: "- pi < mw_atan2 y x \<and> mw_atan2 y x \<le> pi"
proof -
  have b: "- (pi / 2) < arctan (y / x)" "arctan (y / x) < pi / 2"
    by (rule arctan_lbound, rule arctan_ubound)
  have n: "0 \<le> y \<Longrightarrow> x < 0 \<Longrightarrow> arctan (y / x) \<le> 0"
    by (simp add: divide_nonneg_neg)
  have p: "y < 0 \<Longrightarrow> x < 0 \<Longrightarrow> 0 < arctan (y / x)"
    by (simp add: divide_neg_neg)
  have p0: "0 < pi" by simp
  show ?thesis
    using b n p p0 by (auto simp: mw_atan2_def)
qed

section \<open>Vectors\<close>

record mwvector =
  X :: real
  Y :: real
  Z :: real

definition mw_vec :: "real \<Rightarrow> real \<Rightarrow> real \<Rightarrow> mwvector" where
  "mw_vec x y z = \<lparr>X = x, Y = y, Z = z\<rparr>"

definition ZERO_VECTOR :: mwvector where
  [vec_defs]: "ZERO_VECTOR = \<lparr>X = 0, Y = 0, Z = 0\<rparr>"

definition mw_addv :: "mwvector \<Rightarrow> mwvector \<Rightarrow> mwvector" where
  [vec_defs]: "mw_addv a b = \<lparr>X = X a + X b, Y = Y a + Y b, Z = Z a + Z b\<rparr>"

definition mw_subv :: "mwvector \<Rightarrow> mwvector \<Rightarrow> mwvector" where
  [vec_defs]: "mw_subv a b = \<lparr>X = X a - X b, Y = Y a - Y b, Z = Z a - Z b\<rparr>"

definition mw_dotv :: "mwvector \<Rightarrow> mwvector \<Rightarrow> real" where
  [vec_defs]: "mw_dotv a b = Z a * Z b + (Y a * Y b + X a * X b)"

definition mw_crossv :: "mwvector \<Rightarrow> mwvector \<Rightarrow> mwvector" where
  [vec_defs]: "mw_crossv a b =
     \<lparr>X = Z b * Y a - Y b * Z a, Y = X b * Z a - Z b * X a, Z = Y b * X a - X b * Y a\<rparr>"

definition mw_length :: "mwvector \<Rightarrow> real" where
  [vec_defs]: "mw_length a = sqrt (sqr (X a) + sqr (Y a) + sqr (Z a))"

definition mw_sqrv :: "mwvector \<Rightarrow> real" where
  [vec_defs]: "mw_sqrv a = Z a * Z a + (Y a * Y a + X a * X a)"

definition mw_absv :: "mwvector \<Rightarrow> real" where
  [vec_defs]: "mw_absv a = sqrt (mw_sqrv a)"

definition mw_mulvs :: "mwvector \<Rightarrow> real \<Rightarrow> mwvector" where
  [vec_defs]: "mw_mulvs a s = \<lparr>X = s * X a, Y = s * Y a, Z = s * Z a\<rparr>"

definition mw_divvs :: "mwvector \<Rightarrow> real \<Rightarrow> mwvector" where
  [vec_defs]: "mw_divvs a s = \<lparr>X = X a / s, Y = Y a / s, Z = Z a / s\<rparr>"

definition mw_negv :: "mwvector \<Rightarrow> mwvector" where
  [vec_defs]: "mw_negv a = \<lparr>X = - X a, Y = - Y a, Z = - Z a\<rparr>"

definition mw_distv :: "mwvector \<Rightarrow> mwvector \<Rightarrow> real" where
  [vec_defs]: "mw_distv u v = sqrt (sqr (X u - X v) + sqr (Y u - Y v) + sqr (Z u - Z v))"

text \<open>The in-place macros return the updated vector.\<close>

definition mw_incaddv :: "mwvector \<Rightarrow> mwvector \<Rightarrow> mwvector" where
  [vec_defs]: "mw_incaddv v1 v2 = v1\<lparr>X := X v1 + X v2, Y := Y v1 + Y v2, Z := Z v1 + Z v2\<rparr>"

definition mw_incnegv :: "mwvector \<Rightarrow> mwvector" where
  [vec_defs]: "mw_incnegv v1 = v1\<lparr>X := - X v1, Y := - Y v1, Z := - Z v1\<rparr>"

definition mw_incaddv_s :: "mwvector \<Rightarrow> mwvector \<Rightarrow> real \<Rightarrow> mwvector" where
  [vec_defs]: "mw_incaddv_s v1 v2 s =
     v1\<lparr>X := X v1 + s * X v2, Y := Y v1 + s * Y v2, Z := Z v1 + s * Z v2\<rparr>"

definition mw_incdivs :: "mwvector \<Rightarrow> real \<Rightarrow> mwvector" where
  [vec_defs]: "mw_incdivs v s = v\<lparr>X := X v / s, Y := Y v / s, Z := Z v / s\<rparr>"

definition mw_incmulvs :: "mwvector \<Rightarrow> real \<Rightarrow> mwvector" where
  [vec_defs]: "mw_incmulvs v s = v\<lparr>X := X v * s, Y := Y v * s, Z := Z v * s\<rparr>"

lemma mwvector_eqI: "X a = X b \<Longrightarrow> Y a = Y b \<Longrightarrow> Z a = Z b \<Longrightarrow> a = (b::mwvector)"
  by simp

lemma mw_incaddv_eq [simp]: "mw_incaddv = mw_addv"
  and mw_incnegv_eq [simp]: "mw_incnegv = mw_negv"
  by (auto simp: vec_defs fun_eq_iff)

lemma mw_incaddv_s_eq: "mw_incaddv_s v a s = mw_addv v (mw_mulvs a s)"
  and mw_incmulvs_eq: "mw_incmulvs v s = mw_mulvs v s"
  by (simp_all add: vec_defs)

lemma mw_addv_assoc: "mw_addv (mw_addv a b) c = mw_addv a (mw_addv b c)"
  and mw_addv_commute: "mw_addv a b = mw_addv b a"
  and mw_addv_zero [simp]: "mw_addv a ZERO_VECTOR = a" "mw_addv ZERO_VECTOR a = a"
  by (simp_all add: vec_defs)

lemma mw_negv_negv [simp]: "mw_negv (mw_negv v) = v"
  by (simp add: vec_defs)

lemma mw_sqrv_nonneg: "0 \<le> mw_sqrv a"
  by (simp add: vec_defs)

lemma mw_sqrv_dot: "mw_sqrv a = mw_dotv a a"
  by (simp add: vec_defs)

lemma mw_distv_subv: "mw_distv u v = mw_absv (mw_subv u v)"
  by (simp add: vec_defs add.commute add.left_commute)

lemma mw_absv_mulvs: "mw_absv (mw_mulvs a s) = \<bar>s\<bar> * mw_absv a"
proof -
  have "mw_sqrv (mw_mulvs a s) = s\<^sup>2 * mw_sqrv a"
    by (simp add: vec_defs power2_eq_square algebra_simps)
  then show ?thesis by (simp add: mw_absv_def real_sqrt_mult)
qed

section \<open>Compensated sums\<close>

text \<open>
  \<open>KAHAN_ADD\<close> and \<open>KAHAN_REDUCTION\<close>. In exact arithmetic the correction stays 0 and
  the sum is the plain sum; the two macros disagree on the sign of the correction, which only
  rounding can show.
\<close>

record Kahan =
  ksum :: real
  correction :: real

definition ZERO_KAHAN :: Kahan where
  "ZERO_KAHAN = \<lparr>ksum = 0, correction = 0\<rparr>"

definition KAHAN_ADD :: "Kahan \<Rightarrow> real \<Rightarrow> Kahan" where
  "KAHAN_ADD k item =
     (let y = item - correction k; t = ksum k + y
      in k\<lparr>correction := (t - ksum k) - y, ksum := t\<rparr>)"

definition KAHAN_REDUCTION :: "Kahan \<Rightarrow> Kahan \<Rightarrow> Kahan" where
  "KAHAN_REDUCTION inOut in1 =
     (let correctedNextTerm = ksum in1 + (correction in1 + correction inOut);
          newSum = ksum inOut + correctedNextTerm
      in inOut\<lparr>correction := correctedNextTerm - (newSum - ksum inOut), ksum := newSum\<rparr>)"

lemma kahan_add_exact:
  "correction k = 0 \<Longrightarrow> KAHAN_ADD k x = \<lparr>ksum = ksum k + x, correction = 0\<rparr>"
  by (simp add: KAHAN_ADD_def Let_def)

lemma kahan_fold_exact:
  "correction k = 0 \<Longrightarrow>
   fold (\<lambda>x k. KAHAN_ADD k x) xs k = \<lparr>ksum = ksum k + sum_list xs, correction = 0\<rparr>"
  by (induction xs arbitrary: k) (simp_all add: kahan_add_exact)

end
