(* ===== verification/MW_Float.thy ===== *)
theory MW_Float
  imports MW_Prelude
begin

text \<open>
  Doubles with their special values. Components whose behaviour depends on NaN or infinity
  (comparison of contexts, validation of parameters, likelihoods) use \<open>dbl\<close> instead of
  \<open>real\<close>. Arithmetic follows the IEEE 754 rules for the special values; rounding, overflow
  of finite results and the sign of zero are not modelled.
\<close>

datatype dbl = Fin real | PInf | NInf | NaN

primrec isfinite :: "dbl \<Rightarrow> bool" where
  "isfinite (Fin _) = True"
| "isfinite PInf = False"
| "isfinite NInf = False"
| "isfinite NaN = False"

definition isnan :: "dbl \<Rightarrow> bool" where
  "isnan x \<longleftrightarrow> x = NaN"

primrec dval :: "dbl \<Rightarrow> real" where
  "dval (Fin x) = x"
| "dval PInf = 0"
| "dval NInf = 0"
| "dval NaN = 0"

lemma isnan_simps [simp]: "\<not> isnan (Fin x)" "\<not> isnan PInf" "\<not> isnan NInf" "isnan NaN"
  by (simp_all add: isnan_def)

lemma isfinite_Fin_dval: "isfinite x \<longleftrightarrow> x = Fin (dval x)"
  by (cases x) auto

text \<open>Division by a finite zero takes the sign of the dividend.\<close>

fun ddiv :: "dbl \<Rightarrow> dbl \<Rightarrow> dbl" where
  "ddiv NaN _ = NaN"
| "ddiv _ NaN = NaN"
| "ddiv (Fin a) (Fin b) =
     (if b \<noteq> 0 then Fin (a / b) else if 0 < a then PInf else if a < 0 then NInf else NaN)"
| "ddiv (Fin _) _ = Fin 0"
| "ddiv PInf (Fin b) = (if b < 0 then NInf else PInf)"
| "ddiv NInf (Fin b) = (if b < 0 then PInf else NInf)"
| "ddiv _ _ = NaN"

instantiation dbl :: "{zero, plus, minus, uminus, times, inverse, ord, abs}"
begin

definition zero_dbl where "0 = Fin 0"

fun plus_dbl :: "dbl \<Rightarrow> dbl \<Rightarrow> dbl" where
  "NaN + _ = NaN"
| "_ + NaN = NaN"
| "Fin a + Fin b = Fin (a + b)"
| "Fin _ + y = y"
| "x + Fin _ = x"
| "PInf + PInf = PInf"
| "NInf + NInf = NInf"
| "PInf + NInf = NaN"
| "NInf + PInf = NaN"

fun uminus_dbl :: "dbl \<Rightarrow> dbl" where
  "- Fin a = Fin (- a)"
| "- PInf = NInf"
| "- NInf = PInf"
| "- NaN = NaN"

definition minus_dbl where
  "x - y = x + - (y::dbl)"

fun times_dbl :: "dbl \<Rightarrow> dbl \<Rightarrow> dbl" where
  "NaN * _ = NaN"
| "_ * NaN = NaN"
| "Fin a * Fin b = Fin (a * b)"
| "Fin a * PInf = (if 0 < a then PInf else if a < 0 then NInf else NaN)"
| "Fin a * NInf = (if 0 < a then NInf else if a < 0 then PInf else NaN)"
| "PInf * Fin b = (if 0 < b then PInf else if b < 0 then NInf else NaN)"
| "NInf * Fin b = (if 0 < b then NInf else if b < 0 then PInf else NaN)"
| "PInf * PInf = PInf"
| "NInf * NInf = PInf"
| "PInf * NInf = NInf"
| "NInf * PInf = NInf"

definition divide_dbl where
  "divide (x::dbl) y = ddiv x y"

definition inverse_dbl where
  "inverse (x::dbl) = ddiv (Fin 1) x"

fun less_dbl :: "dbl \<Rightarrow> dbl \<Rightarrow> bool" where
  "Fin a < Fin b \<longleftrightarrow> a < b"
| "Fin _ < PInf \<longleftrightarrow> True"
| "NInf < Fin _ \<longleftrightarrow> True"
| "NInf < PInf \<longleftrightarrow> True"
| "(_::dbl) < _ \<longleftrightarrow> False"

fun less_eq_dbl :: "dbl \<Rightarrow> dbl \<Rightarrow> bool" where
  "Fin a \<le> Fin b \<longleftrightarrow> a \<le> b"
| "Fin _ \<le> PInf \<longleftrightarrow> True"
| "NInf \<le> Fin _ \<longleftrightarrow> True"
| "NInf \<le> PInf \<longleftrightarrow> True"
| "PInf \<le> PInf \<longleftrightarrow> True"
| "NInf \<le> NInf \<longleftrightarrow> True"
| "(_::dbl) \<le> _ \<longleftrightarrow> False"

primrec abs_dbl :: "dbl \<Rightarrow> dbl" where
  "abs_dbl (Fin a) = Fin \<bar>a\<bar>"
| "abs_dbl PInf = PInf"
| "abs_dbl NInf = PInf"
| "abs_dbl NaN = NaN"

instance ..

end

text \<open>The C operator \<open>==\<close> on doubles, and \<open>sqrt\<close> and \<open>log\<close>.\<close>

definition feq :: "dbl \<Rightarrow> dbl \<Rightarrow> bool" where
  "feq a b \<longleftrightarrow> a = b \<and> a \<noteq> NaN"

fun dsqrt :: "dbl \<Rightarrow> dbl" where
  "dsqrt (Fin a) = (if a < 0 then NaN else Fin (sqrt a))"
| "dsqrt PInf = PInf"
| "dsqrt _ = NaN"

fun dlog :: "dbl \<Rightarrow> dbl" where
  "dlog (Fin a) = (if a < 0 then NaN else if a = 0 then NInf else Fin (ln a))"
| "dlog PInf = PInf"
| "dlog _ = NaN"

lemmas divide_dbl_simps [simp] = divide_dbl_def

lemma minus_dbl_simps [simp]:
  "Fin a - Fin b = Fin (a - b)" "x - NaN = NaN" "NaN - x = NaN"
  by (simp_all add: minus_dbl_def) (cases x; simp)+

lemma plus_NaN [simp]: "x + NaN = NaN" and times_NaN [simp]: "x * NaN = NaN"
  by (cases x; simp)+

lemma divide_NaN [simp]: "x / NaN = (NaN::dbl)"
  by (cases x) simp_all

lemma less_NaN [simp]: "\<not> (x::dbl) < NaN" "\<not> NaN < (x::dbl)"
  and le_NaN [simp]: "\<not> (x::dbl) \<le> NaN" "\<not> NaN \<le> (x::dbl)"
  by (cases x; simp)+

lemma plus_Fin_iff: "x + y = Fin c \<longleftrightarrow> (\<exists>a b. x = Fin a \<and> y = Fin b \<and> c = a + b)"
  by (cases x; cases y) auto

lemma dbl_add_comm: "(x::dbl) + y = y + x"
  by (cases x; cases y) auto

lemma dbl_add_assoc: "(x::dbl) + y + z = x + (y + z)"
  by (cases x; cases y; cases z) auto

end
