(* ===== verification/NBody_Types.thy ===== *)
theory NBody_Types
  imports MW_Vectors MW_Float
begin

text \<open>
  The data of the N-body program: \<open>nbody_types.h\<close>, \<open>nbody_potential_types.h\<close> and
  \<open>nbody_defaults.h\<close>. Parameter structures are polymorphic in the type of their floating point
  fields, so that the same record serves the components that handle NaN (\<open>dbl\<close>) and the ones
  that compute with finite values (\<open>real\<close>).
  A pointer to an array is a list, with the empty list for NULL. A pointer to a tree node is a
  \<open>node_ref option\<close>: a body is named by its index in \<open>bodytab\<close>, a cell by its address.
\<close>

unbundle bit_operations_syntax

section \<open>Potentials\<close>

datatype spherical_t = InvalidSpherical | NoSpherical | HernquistSpherical | PlummerSpherical

datatype disk_t = InvalidDisk | NoDisk | MiyamotoNagaiDisk | FreemanDisk
  | DoubleExponentialDisk | Sech2ExponentialDisk | OrbitingBar

datatype halo_t = InvalidHalo | NoHalo | LogarithmicHalo | NFWHalo | TriaxialHalo | CausticHalo
  | AllenSantillanHalo | WilkinsonEvansHalo | NFWMassHalo | PlummerHalo | HernquistHalo
  | NinkovicHalo

datatype dwarf_t = InvalidDwarf | Plummer | NFW | General_Hernquist | Einasto

record 'r Spherical =
  s_type :: spherical_t
  s_mass :: 'r
  s_scale :: 'r

record 'r Disk =
  d_type :: disk_t
  d_mass :: 'r
  d_scaleLength :: 'r
  d_scaleHeight :: 'r
  d_patternSpeed :: 'r
  d_startAngle :: 'r

record 'r Halo =
  h_type :: halo_t
  h_vhalo :: 'r
  h_scaleLength :: 'r
  h_flattenZ :: 'r
  h_flattenY :: 'r
  h_flattenX :: 'r
  h_triaxAngle :: 'r
  h_c1 :: 'r
  h_c2 :: 'r
  h_c3 :: 'r
  h_mass :: 'r
  h_gamma :: 'r
  h_lambda :: 'r
  h_rho0 :: 'r

record 'r Dwarf =
  dw_type :: dwarf_t
  dw_mass :: 'r
  dw_scaleLength :: 'r
  dw_n :: 'r
  dw_p0 :: 'r
  dw_r200 :: 'r

record 'r Potential =
  p_sphere :: "'r Spherical"
  p_disk :: "'r Disk"
  p_disk2 :: "'r Disk"
  p_halo :: "'r Halo"

definition EMPTY_POTENTIAL :: "('r::zero) Potential" where
  "EMPTY_POTENTIAL =
     \<lparr>p_sphere = \<lparr>s_type = InvalidSpherical, s_mass = 0, s_scale = 0\<rparr>,
      p_disk = \<lparr>d_type = InvalidDisk, d_mass = 0, d_scaleLength = 0, d_scaleHeight = 0,
                d_patternSpeed = 0, d_startAngle = 0\<rparr>,
      p_disk2 = \<lparr>d_type = InvalidDisk, d_mass = 0, d_scaleLength = 0, d_scaleHeight = 0,
                d_patternSpeed = 0, d_startAngle = 0\<rparr>,
      p_halo = \<lparr>h_type = InvalidHalo, h_vhalo = 0, h_scaleLength = 0, h_flattenZ = 0,
                h_flattenY = 0, h_flattenX = 0, h_triaxAngle = 0, h_c1 = 0, h_c2 = 0, h_c3 = 0,
                h_mass = 0, h_gamma = 0, h_lambda = 0, h_rho0 = 0\<rparr>\<rparr>"

section \<open>The context\<close>

datatype criterion_t = InvalidCriterion | TreeCode | SW93 | BH86 | Exact

datatype ExternalPotentialType =
  EXTERNAL_POTENTIAL_DEFAULT | EXTERNAL_POTENTIAL_NONE | EXTERNAL_POTENTIAL_CUSTOM_LUA

record 'r NBodyCtx =
  eps2 :: 'r
  theta :: 'r
  timestep :: 'r
  timeEvolve :: 'r
  timeBack :: 'r
  treeRSize :: 'r
  sunGCDist :: 'r
  ctx_b :: 'r
  ctx_r :: 'r
  ctx_vx :: 'r
  ctx_vy :: 'r
  ctx_vz :: 'r
  criterion :: criterion_t
  potentialType :: ExternalPotentialType
  Nstep_control :: bool
  useBestLike :: bool
  useVelDisp :: bool
  useBetaDisp :: bool
  useBetaComp :: bool
  useVlos :: bool
  useDist :: bool
  MultiOutput :: bool
  OutputLB :: bool
  useQuad :: bool
  allowIncest :: bool
  quietErrors :: bool
  BestLikeStart :: 'r
  OutputFreq :: 'r
  BetaSigma :: 'r
  VelSigma :: 'r
  DistSigma :: 'r
  IterMax :: 'r
  BetaCorrect :: 'r
  VelCorrect :: 'r
  DistCorrect :: 'r
  LMC :: bool
  LMCmass :: 'r
  LMCscale :: 'r
  LMCDynaFric :: bool
  coulomb_log :: 'r
  calibrationRuns :: nat
  Ntsteps :: 'r
  checkpointT :: int
  nStep :: nat
  pot :: "'r Potential"

record 'r HistogramParams =
  hp_phi :: 'r
  hp_theta :: 'r
  hp_psi :: 'r
  lambdaStart :: 'r
  lambdaEnd :: 'r
  lambdaBins :: nat
  betaStart :: 'r
  betaEnd :: 'r
  betaBins :: nat

section \<open>Status codes\<close>

type_synonym NBodyStatus = "32 word"

definition NBODY_SUCCESS :: NBodyStatus where "NBODY_SUCCESS = push_bit 0 0"
definition NBODY_ERROR :: NBodyStatus where "NBODY_ERROR = push_bit 1 1"
definition NBODY_TREE_STRUCTURE_ERROR :: NBodyStatus where
  "NBODY_TREE_STRUCTURE_ERROR = push_bit 3 1"
definition NBODY_TREE_INCEST_FATAL :: NBodyStatus where "NBODY_TREE_INCEST_FATAL = push_bit 4 1"
definition NBODY_CHECKPOINT_ERROR :: NBodyStatus where "NBODY_CHECKPOINT_ERROR = push_bit 6 1"
definition NBODY_USER_ERROR :: NBodyStatus where "NBODY_USER_ERROR = push_bit 12 1"
definition NBODY_PARAM_FILE_ERROR :: NBodyStatus where "NBODY_PARAM_FILE_ERROR = push_bit 13 1"
definition NBODY_LUA_POTENTIAL_ERROR :: NBodyStatus where
  "NBODY_LUA_POTENTIAL_ERROR = push_bit 14 1"
definition NBODY_LIKELIHOOD_ERROR :: NBodyStatus where "NBODY_LIKELIHOOD_ERROR = push_bit 15 1"
definition NBODY_TREE_INCEST_NONFATAL :: NBodyStatus where
  "NBODY_TREE_INCEST_NONFATAL = push_bit 24 1"

definition NBODY_STATUS_ALL_WARNINGS :: NBodyStatus where
  "NBODY_STATUS_ALL_WARNINGS =
     NBODY_TREE_INCEST_NONFATAL OR push_bit 25 1 OR push_bit 26 1 OR push_bit 27 1
     OR push_bit 28 1 OR push_bit 29 1 OR push_bit 30 1 OR push_bit 31 1"

definition nbStatusIsFatal :: "NBodyStatus \<Rightarrow> bool" where
  "nbStatusIsFatal x \<longleftrightarrow> x AND NOT NBODY_STATUS_ALL_WARNINGS \<noteq> 0"

definition nbStatusIsWarning :: "NBodyStatus \<Rightarrow> bool" where
  "nbStatusIsWarning x \<longleftrightarrow> x AND NBODY_STATUS_ALL_WARNINGS \<noteq> 0"

lemmas status_defs = NBODY_SUCCESS_def NBODY_ERROR_def NBODY_TREE_STRUCTURE_ERROR_def
  NBODY_TREE_INCEST_FATAL_def NBODY_CHECKPOINT_ERROR_def NBODY_USER_ERROR_def
  NBODY_PARAM_FILE_ERROR_def NBODY_LUA_POTENTIAL_ERROR_def NBODY_LIKELIHOOD_ERROR_def
  NBODY_TREE_INCEST_NONFATAL_def NBODY_STATUS_ALL_WARNINGS_def

lemma warnings_mask: "NBODY_STATUS_ALL_WARNINGS = 0xFF000000"
  by (simp add: status_defs)

text \<open>Combining statuses with \<open>|=\<close> is fatal exactly when one of them is.\<close>

lemma fatal_or: "nbStatusIsFatal (a OR b) \<longleftrightarrow> nbStatusIsFatal a \<or> nbStatusIsFatal b"
  by (auto simp: nbStatusIsFatal_def bit.conj_disj_distrib2 or_eq_0_iff)

lemma warning_or: "nbStatusIsWarning (a OR b) \<longleftrightarrow> nbStatusIsWarning a \<or> nbStatusIsWarning b"
  by (auto simp: nbStatusIsWarning_def bit.conj_disj_distrib2 or_eq_0_iff)

lemma fatal_codes [simp]:
  "\<not> nbStatusIsFatal NBODY_SUCCESS" "nbStatusIsFatal NBODY_ERROR"
  "nbStatusIsFatal NBODY_TREE_STRUCTURE_ERROR" "nbStatusIsFatal NBODY_TREE_INCEST_FATAL"
  "nbStatusIsFatal NBODY_CHECKPOINT_ERROR" "nbStatusIsFatal NBODY_USER_ERROR"
  "nbStatusIsFatal NBODY_PARAM_FILE_ERROR" "nbStatusIsFatal NBODY_LUA_POTENTIAL_ERROR"
  "nbStatusIsFatal NBODY_LIKELIHOOD_ERROR" "\<not> nbStatusIsFatal NBODY_TREE_INCEST_NONFATAL"
  by (simp_all add: nbStatusIsFatal_def warnings_mask) (simp_all add: status_defs)

section \<open>Bodies, cells and the tree\<close>

datatype node_ref = Bd nat | Cl nat

text \<open>
  The common node of \<open>NBodyNode\<close> is inlined in \<open>Body\<close> and \<open>NBodyCell\<close>. The type code of
  a cell is 0 and that of a body is not, which is what the constructor of a \<open>node_ref\<close> says;
  \<open>b_type\<close> keeps the code of a body, negative when the likelihood ignores it.
\<close>

record Body =
  b_pos :: mwvector
  b_vel :: mwvector
  b_mass :: real
  b_type :: int
  b_id :: nat
  b_next :: "node_ref option"

definition BODY :: "bool \<Rightarrow> int" where
  "BODY x = (if x then -1 else 1)"

definition ignoreBody :: "Body \<Rightarrow> bool" where
  "ignoreBody b \<longleftrightarrow> b_type b < 0"

record NBodyQuadMatrix =
  xx :: real
  xy :: real
  xz :: real
  yy :: real
  yz :: real
  zz :: real

text \<open>
  The union \<open>stuff\<close> of a cell: the storage holds either the array of sub-cell pointers or
  the quadrupole matrix.
\<close>

datatype stuff = Subp "node_ref option list" | Quad NBodyQuadMatrix

definition NSUB :: nat where
  "NSUB = 2 ^ 3"

record NBodyCell =
  c_pos :: mwvector
  c_next :: "node_ref option"
  c_mass :: real
  c_rcrit2 :: real
  c_more :: "node_ref option"
  c_stuff :: stuff

record NBodyTree =
  root :: "nat option"
  rsize :: real
  cellUsed :: nat
  maxDepth :: nat
  structureError :: bool

definition EMPTY_TREE :: NBodyTree where
  "EMPTY_TREE = \<lparr>root = None, rsize = 0, cellUsed = 0, maxDepth = 0, structureError = False\<rparr>"

text \<open>
  The part of \<open>NBodyState\<close> that the tree code touches. The heap of cells is a function from
  addresses with the first unallocated address beside it.
\<close>

record tstate =
  bodytab :: "Body list"
  cells :: "nat \<Rightarrow> NBodyCell"
  nalloc :: nat
  tree :: NBodyTree
  freeCell :: "node_ref option"
  treeIncest :: bool

text \<open>The rest of \<open>NBodyState\<close>, less the OpenCL and Lua handles.\<close>

record NBodyState = tstate +
  checkpointResolved :: "string option"
  bestLikelihoodBodyTab :: "Body list"
  acctab :: "mwvector list"
  orbitTrace :: "mwvector list"
  shiftByLMC :: "mwvector list"
  LMCpos :: mwvector
  LMCvel :: mwvector
  nOrbitTrace :: nat
  nShiftLMC :: nat
  lastCheckpoint :: int
  step :: nat
  nbody :: nat
  effNBody :: nat
  potentialEvalError :: bool
  bestLikelihood :: dbl
  bestLikelihood_EMD :: dbl
  bestLikelihood_Mass :: dbl
  bestLikelihood_Beta :: dbl
  bestLikelihood_Vel :: dbl
  bestLikelihood_BetaAvg :: dbl
  bestLikelihood_VelAvg :: dbl
  bestLikelihood_Dist :: dbl
  bestLikelihood_time :: real
  bestLikelihood_count :: nat
  st_useVelDisp :: bool
  st_useBetaDisp :: bool
  st_useBetaComp :: bool
  st_useVlos :: bool
  st_useDist :: bool
  ignoreResponsive :: bool
  usesExact :: bool
  usesQuad :: bool
  dirty :: bool
  usesCL :: bool
  reportProgress :: bool
  previousForwardTime :: real

section \<open>Default values\<close>

definition DEFAULT_WORST_CASE :: real where "DEFAULT_WORST_CASE = 99999999 / 10"
definition DEFAULT_BEST_CASE :: real where "DEFAULT_BEST_CASE = 1 / 10 ^ 9"
definition DEFAULT_NOT_USE :: real where "DEFAULT_NOT_USE = -1"

text \<open>
  \<open>defaultNBodyCtx\<close> is a positional initialiser: the n-th value goes to the n-th member of
  the struct, whatever the comment beside it says. The last five values are
  \<open>0, 900, 0, 0, EMPTY_POTENTIAL\<close> and the last five members are \<open>calibrationRuns, Ntsteps,
  checkpointT, nStep, pot\<close>.
\<close>

definition NOBOINC_DEFAULT_CHECKPOINT_PERIOD :: int where
  "NOBOINC_DEFAULT_CHECKPOINT_PERIOD = 900"

definition defaultNBodyCtx :: "real NBodyCtx" where
  "defaultNBodyCtx =
     \<lparr>eps2 = 0, theta = -1, timestep = 0, timeEvolve = 0, timeBack = 0, treeRSize = 4,
      sunGCDist = 8, ctx_b = 53.5, ctx_r = 28.6, ctx_vx = -156, ctx_vy = 79, ctx_vz = 107,
      criterion = TreeCode, potentialType = EXTERNAL_POTENTIAL_DEFAULT,
      Nstep_control = False, useBestLike = False, useVelDisp = False, useBetaDisp = True,
      useBetaComp = False, useVlos = False, useDist = False, MultiOutput = False,
      OutputLB = False, useQuad = True, allowIncest = False, quietErrors = False,
      BestLikeStart = 0.95, OutputFreq = 1000, BetaSigma = 2.5, VelSigma = 2.5,
      DistSigma = 2.5, IterMax = 6, BetaCorrect = 1.111, VelCorrect = 1.111,
      DistCorrect = 1.111, LMC = False, LMCmass = 0, LMCscale = 0, LMCDynaFric = False,
      coulomb_log = 0, calibrationRuns = 0,
      Ntsteps = of_int NOBOINC_DEFAULT_CHECKPOINT_PERIOD, checkpointT = 0, nStep = 0,
      pot = EMPTY_POTENTIAL\<rparr>"

definition defaultHistogramParams :: "real HistogramParams" where
  "defaultHistogramParams =
     \<lparr>hp_phi = 128.79, hp_theta = 54.39, hp_psi = 90.70, lambdaStart = -50, lambdaEnd = 50,
      lambdaBins = 34, betaStart = -25, betaEnd = 25, betaBins = 10\<rparr>"

end
