(* ===== verification/NBody_Params.thy ===== *)
theory NBody_Params
  imports NBody_Types
begin

text \<open>
  \<open>nbody_check_params.c\<close> and the number checks of \<open>milkyway_util.c\<close>: validation of the
  potential and of the context. A result \<open>True\<close> means an invalid parameter, as in the code; the
  messages the code prints are left out.
\<close>

section \<open>Number checks\<close>

definition REAL_EPSILON :: real where
  "REAL_EPSILON = 1 / 2 ^ 52"

definition mwCheckNormalPosNumEps :: "dbl \<Rightarrow> bool" where
  "mwCheckNormalPosNumEps n \<longleftrightarrow> \<not> isfinite n \<or> n \<le> Fin REAL_EPSILON"

definition mwCheckNormalPosNum :: "dbl \<Rightarrow> bool" where
  "mwCheckNormalPosNum n \<longleftrightarrow> \<not> isfinite n \<or> n \<le> Fin 0"

definition mwCheckNormalNum :: "dbl \<Rightarrow> bool" where
  "mwCheckNormalNum n \<longleftrightarrow> \<not> isfinite n"

section \<open>Potentials\<close>

fun checkSphericalConstants :: "dbl Spherical \<Rightarrow> bool" where
  "checkSphericalConstants s =
     (case s_type s of
        HernquistSpherical \<Rightarrow> mwCheckNormalPosNum (s_mass s) \<or> mwCheckNormalPosNum (s_scale s)
      | PlummerSpherical \<Rightarrow> mwCheckNormalPosNum (s_mass s) \<or> mwCheckNormalPosNum (s_scale s)
      | NoSpherical \<Rightarrow> False
      | InvalidSpherical \<Rightarrow> True)"

fun checkDiskConstants :: "dbl Disk \<Rightarrow> bool" where
  "checkDiskConstants d =
     (let badDisk = mwCheckNormalPosNum (d_mass d)
      in case d_type d of
           MiyamotoNagaiDisk \<Rightarrow>
             badDisk \<or> mwCheckNormalPosNum (d_scaleLength d) \<or> mwCheckNormalPosNum (d_scaleHeight d)
         | DoubleExponentialDisk \<Rightarrow>
             badDisk \<or> mwCheckNormalPosNum (d_scaleLength d) \<or> mwCheckNormalPosNum (d_scaleHeight d)
         | Sech2ExponentialDisk \<Rightarrow>
             badDisk \<or> mwCheckNormalPosNum (d_scaleLength d) \<or> mwCheckNormalPosNum (d_scaleHeight d)
         | FreemanDisk \<Rightarrow> badDisk \<or> mwCheckNormalPosNum (d_scaleLength d)
         | OrbitingBar \<Rightarrow>
             badDisk \<or> mwCheckNormalPosNum (d_scaleLength d) \<or> mwCheckNormalPosNum (d_scaleHeight d)
             \<or> mwCheckNormalNum (d_patternSpeed d) \<or> mwCheckNormalNum (d_startAngle d)
         | NoDisk \<Rightarrow> badDisk
         | InvalidDisk \<Rightarrow> True)"

definition dcos :: "dbl \<Rightarrow> dbl" where
  "dcos x = (case x of Fin a \<Rightarrow> Fin (cos a) | _ \<Rightarrow> NaN)"

definition dsin :: "dbl \<Rightarrow> dbl" where
  "dsin x = (case x of Fin a \<Rightarrow> Fin (sin a) | _ \<Rightarrow> NaN)"

text \<open>The constants the triaxial branch stores into the halo; its warning has no effect.\<close>

definition triaxial_constants :: "dbl Halo \<Rightarrow> dbl Halo" where
  "triaxial_constants h =
     (let phi = h_triaxAngle h * Fin pi / Fin 180;
          cp = dcos phi; cps = sqr cp;
          sp = dsin phi; sps = sqr sp;
          qxs = sqr (h_flattenX h);
          qys = sqr (h_flattenY h)
      in h\<lparr>h_c1 := (cps / qxs) + (sps / qys),
           h_c2 := (cps / qys) + (sps / qxs),
           h_c3 := dsin (Fin 2 * phi) * ((qys - qxs) / (qxs * qys))\<rparr>)"

fun checkHaloConstants :: "dbl Halo \<Rightarrow> bool \<times> dbl Halo" where
  "checkHaloConstants h =
     (case h_type h of
        LogarithmicHalo \<Rightarrow>
          (if \<not> isfinite (h_flattenZ h) \<or> \<not> isfinite (h_vhalo h) \<or> \<not> isfinite (h_scaleLength h)
           then (True, h)
           else if h_flattenZ h < Fin (2 powr (- 1 / 2)) then (True, h)
           else (False, h))
      | NFWHalo \<Rightarrow>
          (if \<not> isfinite (h_vhalo h) \<or> \<not> isfinite (h_scaleLength h) then (True, h) else (False, h))
      | TriaxialHalo \<Rightarrow>
          (if \<not> isfinite (h_triaxAngle h) \<or> \<not> isfinite (h_flattenX h) \<or> \<not> isfinite (h_flattenY h)
              \<or> \<not> isfinite (h_flattenZ h) \<or> \<not> isfinite (h_vhalo h) \<or> \<not> isfinite (h_scaleLength h)
           then (True, h)
           else (False, triaxial_constants h))
      | CausticHalo \<Rightarrow> (False, h)
      | AllenSantillanHalo \<Rightarrow>
          (if \<not> isfinite (h_gamma h) \<or> \<not> isfinite (h_lambda h) \<or> \<not> isfinite (h_mass h)
              \<or> \<not> isfinite (h_scaleLength h)
           then (True, h) else (False, h))
      | WilkinsonEvansHalo \<Rightarrow>
          (if \<not> isfinite (h_mass h) \<or> \<not> isfinite (h_scaleLength h) then (True, h) else (False, h))
      | NFWMassHalo \<Rightarrow>
          (if \<not> isfinite (h_mass h) \<or> \<not> isfinite (h_scaleLength h) then (True, h) else (False, h))
      | PlummerHalo \<Rightarrow>
          (if \<not> isfinite (h_mass h) \<or> \<not> isfinite (h_scaleLength h) then (True, h) else (False, h))
      | HernquistHalo \<Rightarrow>
          (if \<not> isfinite (h_mass h) \<or> \<not> isfinite (h_scaleLength h) then (True, h) else (False, h))
      | NinkovicHalo \<Rightarrow>
          (if \<not> isfinite (h_rho0 h) \<or> \<not> isfinite (h_lambda h) \<or> \<not> isfinite (h_scaleLength h)
           then (True, h) else (False, h))
      | NoHalo \<Rightarrow> (False, h)
      | InvalidHalo \<Rightarrow> (True, h))"

text \<open>The disjunction is evaluated left to right: the halo is only touched when the bulge and
  the primary disk are fine.\<close>

definition checkPotentialConstants :: "dbl Potential \<Rightarrow> bool \<times> dbl Potential" where
  "checkPotentialConstants p =
     (if checkSphericalConstants (p_sphere p) then (True, p)
      else if checkDiskConstants (p_disk p) then (True, p)
      else (case checkHaloConstants (p_halo p) of (bad, h) \<Rightarrow> (bad, p\<lparr>p_halo := h\<rparr>)))"

section \<open>The context\<close>

definition hasAcceptableTheta :: "dbl NBodyCtx \<Rightarrow> bool" where
  "hasAcceptableTheta ctx \<longleftrightarrow>
     (theta ctx < Fin 0 \<or> Fin 1 < theta ctx) \<and> criterion ctx \<noteq> Exact"

definition hasAcceptableEps2 :: "dbl NBodyCtx \<Rightarrow> bool" where
  "hasAcceptableEps2 ctx = mwCheckNormalPosNumEps (eps2 ctx)"

definition hasAcceptableTimes :: "dbl NBodyCtx \<Rightarrow> bool" where
  "hasAcceptableTimes ctx = mwCheckNormalPosNumEps (timeEvolve ctx)"

definition hasAcceptableSteps :: "dbl NBodyCtx \<Rightarrow> bool" where
  "hasAcceptableSteps ctx = mwCheckNormalPosNumEps (timestep ctx)"

definition checkNBodyCtxConstants :: "dbl NBodyCtx \<Rightarrow> bool" where
  "checkNBodyCtxConstants ctx \<longleftrightarrow>
     hasAcceptableTimes ctx \<or> hasAcceptableSteps ctx \<or> hasAcceptableEps2 ctx
     \<or> hasAcceptableTheta ctx"

section \<open>What the checks guarantee\<close>

lemma posNum_iff: "\<not> mwCheckNormalPosNum n \<longleftrightarrow> (\<exists>x. n = Fin x \<and> 0 < x)"
  by (cases n) (auto simp: mwCheckNormalPosNum_def)

lemma posNumEps_iff: "\<not> mwCheckNormalPosNumEps n \<longleftrightarrow> (\<exists>x. n = Fin x \<and> REAL_EPSILON < x)"
  by (cases n) (auto simp: mwCheckNormalPosNumEps_def)

lemma finNum_iff: "\<not> mwCheckNormalNum n \<longleftrightarrow> (\<exists>x. n = Fin x)"
  by (cases n) (auto simp: mwCheckNormalNum_def)

lemmas num_iffs = posNum_iff posNumEps_iff finNum_iff

lemma REAL_EPSILON_pos: "0 < REAL_EPSILON"
  by (simp add: REAL_EPSILON_def)

text \<open>A context is accepted exactly when evolution time, time step and softening are finite
  and above the machine epsilon and the opening angle is not outside [0, 1] (a NaN angle is not);
  the angle is only looked at when the criterion is not Exact.\<close>

theorem checkNBodyCtxConstants_accepts:
  "\<not> checkNBodyCtxConstants ctx \<longleftrightarrow>
     (\<exists>T dt e. timeEvolve ctx = Fin T \<and> timestep ctx = Fin dt \<and> eps2 ctx = Fin e
        \<and> REAL_EPSILON < T \<and> REAL_EPSILON < dt \<and> REAL_EPSILON < e)
     \<and> (criterion ctx = Exact \<or> theta ctx = NaN \<or> (\<exists>t. theta ctx = Fin t \<and> 0 \<le> t \<and> t \<le> 1))"
proof -
  have th: "\<not> hasAcceptableTheta ctx \<longleftrightarrow>
      criterion ctx = Exact \<or> theta ctx = NaN \<or> (\<exists>t. theta ctx = Fin t \<and> 0 \<le> t \<and> t \<le> 1)"
    by (cases "theta ctx") (auto simp: hasAcceptableTheta_def)
  show ?thesis
    unfolding checkNBodyCtxConstants_def de_Morgan_disj th hasAcceptableTimes_def
      hasAcceptableSteps_def hasAcceptableEps2_def posNumEps_iff
    by auto
qed

text \<open>The fields an accepted component of each kind has.\<close>

definition good_spherical :: "dbl Spherical \<Rightarrow> bool" where
  "good_spherical s \<longleftrightarrow> s_type s = NoSpherical \<or>
     s_type s \<in> {HernquistSpherical, PlummerSpherical}
     \<and> (\<exists>m a. s_mass s = Fin m \<and> s_scale s = Fin a \<and> 0 < m \<and> 0 < a)"

definition good_disk :: "dbl Disk \<Rightarrow> bool" where
  "good_disk d \<longleftrightarrow> (\<exists>m. d_mass d = Fin m \<and> 0 < m)
     \<and> (d_type d = NoDisk
        \<or> d_type d = FreemanDisk \<and> (\<exists>a. d_scaleLength d = Fin a \<and> 0 < a)
        \<or> d_type d \<in> {MiyamotoNagaiDisk, DoubleExponentialDisk, Sech2ExponentialDisk, OrbitingBar}
          \<and> (\<exists>a b. d_scaleLength d = Fin a \<and> d_scaleHeight d = Fin b \<and> 0 < a \<and> 0 < b)
          \<and> (d_type d = OrbitingBar \<longrightarrow>
               isfinite (d_patternSpeed d) \<and> isfinite (d_startAngle d)))"

lemma checkSpherical_iff: "\<not> checkSphericalConstants s \<longleftrightarrow> good_spherical s"
  by (cases "s_type s") (auto simp: good_spherical_def num_iffs)

lemma checkDisk_iff: "\<not> checkDiskConstants d \<longleftrightarrow> good_disk d"
  by (cases "d_type d")
    (auto simp: good_disk_def Let_def num_iffs mwCheckNormalNum_def)

definition good_halo :: "dbl Halo \<Rightarrow> bool" where
  "good_halo h \<longleftrightarrow>
     (case h_type h of
        InvalidHalo \<Rightarrow> False | NoHalo \<Rightarrow> True | CausticHalo \<Rightarrow> True
      | LogarithmicHalo \<Rightarrow> isfinite (h_vhalo h) \<and> isfinite (h_scaleLength h)
          \<and> (\<exists>q. h_flattenZ h = Fin q \<and> 1 / sqrt 2 \<le> q)
      | NFWHalo \<Rightarrow> isfinite (h_vhalo h) \<and> isfinite (h_scaleLength h)
      | TriaxialHalo \<Rightarrow> isfinite (h_triaxAngle h) \<and> isfinite (h_flattenX h)
          \<and> isfinite (h_flattenY h) \<and> isfinite (h_flattenZ h) \<and> isfinite (h_vhalo h)
          \<and> isfinite (h_scaleLength h)
      | AllenSantillanHalo \<Rightarrow> isfinite (h_gamma h) \<and> isfinite (h_lambda h) \<and> isfinite (h_mass h)
          \<and> isfinite (h_scaleLength h)
      | NinkovicHalo \<Rightarrow> isfinite (h_rho0 h) \<and> isfinite (h_lambda h) \<and> isfinite (h_scaleLength h)
      | _ \<Rightarrow> isfinite (h_mass h) \<and> isfinite (h_scaleLength h))"

lemma inv_sqrt2: "(2::real) powr - (1 / 2) = 1 / sqrt 2"
proof -
  have "(2::real) powr - (1 / 2) = inverse (2 powr (1 / 2))"
    by (simp flip: powr_minus)
  then show ?thesis by (simp add: powr_half_sqrt inverse_eq_divide)
qed

lemma checkHalo_iff: "\<not> fst (checkHaloConstants h) \<longleftrightarrow> good_halo h"
proof (cases "h_type h")
  case LogarithmicHalo
  then show ?thesis
    by (cases "h_flattenZ h") (auto simp: good_halo_def inv_sqrt2 not_less)
qed (auto simp: good_halo_def)

text \<open>\<open>checkPotentialConstants\<close> accepts a potential exactly when its bulge, its primary disk
  and its halo are good in the sense of the definitions above. The secondary disk is not looked at,
  whatever it holds, and an orbiting bar is accepted as primary disk.\<close>

theorem checkPotentialConstants_accepts:
  "\<not> fst (checkPotentialConstants p) \<longleftrightarrow>
     good_spherical (p_sphere p) \<and> good_disk (p_disk p) \<and> good_halo (p_halo p)"
  unfolding checkHalo_iff[symmetric] checkSpherical_iff[symmetric] checkDisk_iff[symmetric]
  by (simp only: checkPotentialConstants_def split: prod.splits if_splits) auto

text \<open>For finite parameters with non-zero flattenings the three constants computed for a
  triaxial halo are those of the quadratic form of an ellipse with half axes \<open>flattenX\<close> and
  \<open>flattenY\<close> turned by \<open>triaxAngle\<close> degrees.\<close>

theorem triaxial_constants_rotated_ellipse:
  assumes h: "h_flattenX h = Fin qx" "h_flattenY h = Fin qy" "h_triaxAngle h = Fin a"
    and q: "qx \<noteq> 0" "qy \<noteq> 0"
  shows "\<exists>c1 c2 c3. h_c1 (triaxial_constants h) = Fin c1 \<and> h_c2 (triaxial_constants h) = Fin c2
     \<and> h_c3 (triaxial_constants h) = Fin c3
     \<and> (\<forall>x y. c1 * x\<^sup>2 + c3 * x * y + c2 * y\<^sup>2 =
          ((x * cos (a * pi / 180) + y * sin (a * pi / 180)) / qx)\<^sup>2
          + ((y * cos (a * pi / 180) - x * sin (a * pi / 180)) / qy)\<^sup>2)"
proof -
  let ?p = "a * pi / 180"
  have c: "h_c1 (triaxial_constants h) = Fin ((cos ?p)\<^sup>2 / qx\<^sup>2 + (sin ?p)\<^sup>2 / qy\<^sup>2)"
    "h_c2 (triaxial_constants h) = Fin ((cos ?p)\<^sup>2 / qy\<^sup>2 + (sin ?p)\<^sup>2 / qx\<^sup>2)"
    "h_c3 (triaxial_constants h) = Fin (2 * sin ?p * cos ?p * ((qy\<^sup>2 - qx\<^sup>2) / (qx\<^sup>2 * qy\<^sup>2)))"
    using h q sin_double[of ?p]
    by (simp_all add: triaxial_constants_def Let_def dcos_def dsin_def power2_eq_square)
  have "((cos ?p)\<^sup>2 / qx\<^sup>2 + (sin ?p)\<^sup>2 / qy\<^sup>2) * x\<^sup>2
      + (2 * sin ?p * cos ?p * ((qy\<^sup>2 - qx\<^sup>2) / (qx\<^sup>2 * qy\<^sup>2))) * x * y
      + ((cos ?p)\<^sup>2 / qy\<^sup>2 + (sin ?p)\<^sup>2 / qx\<^sup>2) * y\<^sup>2
      = ((x * cos ?p + y * sin ?p) / qx)\<^sup>2 + ((y * cos ?p - x * sin ?p) / qy)\<^sup>2" for x y
    using q by (simp add: field_simps power2_eq_square)
  with c show ?thesis by blast
qed

definition sample_halo :: "dbl Halo" where
  "sample_halo = (p_halo EMPTY_POTENTIAL)
     \<lparr>h_type := TriaxialHalo, h_flattenX := Fin 1, h_flattenY := Fin 2, h_triaxAngle := Fin 90\<rparr>"

theorem triaxial_constants_rotated_ellipse_witness:
  "\<exists>c1. h_c1 (triaxial_constants sample_halo) = Fin c1"
  using triaxial_constants_rotated_ellipse[of sample_halo 1 2 90]
  by (auto simp: sample_halo_def)

end
