(* ===== verification/NBody_Tree.thy ===== *)
theory NBody_Tree
  imports NBody_Types NBody_Params
begin

text \<open>
  \<open>nbody_tree.c\<close>: construction of the octree, on an explicit heap of cells. The mutable state
  is the part \<open>tstate\<close> of \<open>NBodyState\<close>; every function takes and returns it.
  Loops that stop for a reason in their own arguments are \<open>function\<close>s with a termination proof
  (\<open>nbLoadBody\<close>) or \<open>partial_function\<close>s (\<open>expandBox\<close>, \<open>nbNewTree\<close>). The recursive
  descents of the finished tree take fuel, because only a heap without cycles makes them stop;
  \<open>None\<close> is running out of it or a call of \<open>mw_fail\<close>. NBody_TreeInv shows that the fuel
  \<open>nbMakeTree\<close> gives them is enough.
\<close>

section \<open>Access to nodes\<close>

text \<open>Reading the pointers of a union that holds a matrix has no specified value.\<close>

fun subp_of :: "stuff \<Rightarrow> node_ref option list" where
  "subp_of (Subp ps) = ps"

fun cell_addr :: "node_ref \<Rightarrow> nat" where
  "cell_addr (Cl a) = a"

definition subps :: "'z tstate_scheme \<Rightarrow> nat \<Rightarrow> node_ref option list" where
  "subps st a = subp_of (c_stuff (cells st a))"

fun Pos :: "'z tstate_scheme \<Rightarrow> node_ref \<Rightarrow> mwvector" where
  "Pos st (Bd i) = b_pos (bodytab st ! i)"
| "Pos st (Cl a) = c_pos (cells st a)"

fun Mass :: "'z tstate_scheme \<Rightarrow> node_ref \<Rightarrow> real" where
  "Mass st (Bd i) = b_mass (bodytab st ! i)"
| "Mass st (Cl a) = c_mass (cells st a)"

fun Next :: "'z tstate_scheme \<Rightarrow> node_ref \<Rightarrow> node_ref option" where
  "Next st (Bd i) = b_next (bodytab st ! i)"
| "Next st (Cl a) = c_next (cells st a)"

definition upd_cell :: "nat \<Rightarrow> (NBodyCell \<Rightarrow> NBodyCell) \<Rightarrow> 'z tstate_scheme \<Rightarrow> 'z tstate_scheme" where
  "upd_cell a f st = st\<lparr>cells := (cells st)(a := f (cells st a))\<rparr>"

fun set_Next :: "'z tstate_scheme \<Rightarrow> node_ref \<Rightarrow> node_ref option \<Rightarrow> 'z tstate_scheme" where
  "set_Next st (Bd i) n = st\<lparr>bodytab := (bodytab st)[i := (bodytab st ! i)\<lparr>b_next := n\<rparr>]\<rparr>"
| "set_Next st (Cl a) n = upd_cell a (c_next_update (\<lambda>_. n)) st"

definition set_subp :: "nat \<Rightarrow> nat \<Rightarrow> node_ref \<Rightarrow> 'z tstate_scheme \<Rightarrow> 'z tstate_scheme" where
  "set_subp a i r st = upd_cell a (c_stuff_update (\<lambda>u. Subp ((subp_of u)[i := Some r]))) st"

definition set_structureError :: "'z tstate_scheme \<Rightarrow> 'z tstate_scheme" where
  "set_structureError st = st\<lparr>tree := (tree st)\<lparr>structureError := True\<rparr>\<rparr>"

section \<open>Building the tree\<close>

definition nbSubIndex :: "mwvector \<Rightarrow> mwvector \<Rightarrow> nat" where
  "nbSubIndex p q =
     (let ind = 0;
          ind = (if X q \<le> X p then ind + NSUB div 2 ^ (0 + 1) else ind);
          ind = (if Y q \<le> Y p then ind + NSUB div 2 ^ (1 + 1) else ind);
          ind = (if Z q \<le> Z p then ind + NSUB div 2 ^ (2 + 1) else ind)
      in ind)"

text \<open>\<open>expandBox\<close>: the largest coordinate distance from the root, then doubling.\<close>

definition box_extent :: "mwvector \<Rightarrow> Body list \<Rightarrow> real" where
  "box_extent rpos bs =
     fold (\<lambda>p m. mw_fmax (mw_fmax (mw_fmax m \<bar>X (b_pos p) - X rpos\<bar>) \<bar>Y (b_pos p) - Y rpos\<bar>)
                        \<bar>Z (b_pos p) - Z rpos\<bar>) bs 0"

partial_function (option) grow_box :: "real \<Rightarrow> real \<Rightarrow> real option" where
  "grow_box rs xyzmax = (if rs < 2 * xyzmax then grow_box (rs * 2) xyzmax else Some rs)"

definition expandBox :: "'z tstate_scheme \<Rightarrow> 'z tstate_scheme option" where
  "expandBox st =
     (let xyzmax = box_extent (c_pos (cells st (the (root (tree st))))) (bodytab st)
      in map_option (\<lambda>rs. st\<lparr>tree := (tree st)\<lparr>rsize := rs\<rparr>\<rparr>) (grow_box (rsize (tree st)) xyzmax))"

text \<open>
  \<open>nbMakeCell\<close>: a cell from the free list or a new one, with its sub-cells cleared. The fields
  \<open>pos\<close>, \<open>mass\<close>, \<open>next\<close> keep what the memory held.
\<close>

definition nbMakeCell :: "'z tstate_scheme \<Rightarrow> nat \<times> 'z tstate_scheme" where
  "nbMakeCell st =
     (let (c, st1) =
        (case freeCell st of
           None \<Rightarrow> (nalloc st, st\<lparr>nalloc := Suc (nalloc st)\<rparr>)
         | Some r \<Rightarrow> (cell_addr r, st\<lparr>freeCell := Next st r\<rparr>));
          st2 = upd_cell c (\<lambda>cl. cl\<lparr>c_more := None, c_stuff := Subp (replicate NSUB None)\<rparr>) st1
      in (c, st2\<lparr>tree := (tree st2)\<lparr>cellUsed := Suc (cellUsed (tree st2))\<rparr>\<rparr>))"

text \<open>The reclaiming loop of \<open>nbNewTree\<close> walks the threaded tree and pushes its cells on the
  free list.\<close>

partial_function (option) reclaim_cells ::
    "'z tstate_scheme \<Rightarrow> node_ref option \<Rightarrow> 'z tstate_scheme option" where
  "reclaim_cells st p =
     (case p of
        None \<Rightarrow> Some st
      | Some r \<Rightarrow>
          (case r of
             Cl a \<Rightarrow>
               (let st1 = (set_Next st r (freeCell st))\<lparr>freeCell := Some r\<rparr>
                in reclaim_cells st1 (c_more (cells st1 a)))
           | Bd i \<Rightarrow> reclaim_cells st (Next st r)))"

definition nbNewTree :: "'z tstate_scheme \<Rightarrow> 'z tstate_scheme option" where
  "nbNewTree st =
     map_option (\<lambda>st.
        let st = st\<lparr>tree := (tree st)\<lparr>cellUsed := 0, maxDepth := 0\<rparr>\<rparr>;
            (c, st) = nbMakeCell st;
            st = st\<lparr>tree := (tree st)\<lparr>root := Some c\<rparr>\<rparr>
        in upd_cell c (\<lambda>cl. cl\<lparr>c_pos := ZERO_VECTOR\<rparr>) st)
       (reclaim_cells st (map_option Cl (root (tree st))))"

definition calcOffset :: "real \<Rightarrow> real \<Rightarrow> real \<Rightarrow> real" where
  "calcOffset pPos qPos qsize = qPos + 0.25 * (if pPos < qPos then - qsize else qsize)"

definition nbInitMidpoint :: "mwvector \<Rightarrow> mwvector \<Rightarrow> real \<Rightarrow> mwvector" where
  "nbInitMidpoint p q qsize =
     \<lparr>X = calcOffset (X p) (X q) qsize, Y = calcOffset (Y p) (Y q) qsize,
      Z = calcOffset (Z p) (Z q) qsize\<rparr>"

text \<open>Splitting a leaf of \<open>q\<close>: the body \<open>r\<close> found at \<open>qind\<close> moves into a new cell there.\<close>

definition split_leaf ::
    "'z tstate_scheme \<Rightarrow> nat \<Rightarrow> nat \<Rightarrow> nat \<Rightarrow> real \<Rightarrow> node_ref \<Rightarrow> 'z tstate_scheme" where
  "split_leaf st p q qind qsize r =
     (let (c, st) = nbMakeCell st;
          mid = nbInitMidpoint (b_pos (bodytab st ! p)) (c_pos (cells st q)) qsize;
          st = upd_cell c (\<lambda>cl. cl\<lparr>c_pos := mid\<rparr>) st;
          st = set_subp c (nbSubIndex (Pos st r) (c_pos (cells st c))) r st
      in set_subp q qind (Cl c) st)"

lemma half_ceiling_less:
  assumes "e < (s::real)" "0 < e"
  shows "nat \<lceil>s * 0.5 / e\<rceil> < nat \<lceil>s / e\<rceil>"
proof -
  have half: "\<lceil>y / 2\<rceil> < \<lceil>y\<rceil>" if y: "1 < y" for y :: real
  proof (cases "y \<le> 2")
    case True
    then have "\<lceil>y / 2\<rceil> \<le> 1" by (simp add: ceiling_le_iff)
    moreover have "1 < \<lceil>y\<rceil>" using y by (simp add: less_ceiling_iff)
    ultimately show ?thesis by linarith
  next
    case False
    then have "y / 2 + 1 < y" by simp
    then show ?thesis by linarith
  qed
  have y: "1 < s / e" using assms by simp
  have "s * 0.5 / e = s / e / 2" by simp
  moreover have "0 < \<lceil>s / e\<rceil>" using y by (simp add: less_ceiling_iff)
  ultimately show ?thesis using half[OF y] by (metis nat_mono_iff)
qed

text \<open>The descending loop of \<open>nbLoadBody\<close>. The cell size halves in every round, and a size not
  above the machine epsilon ends the loop with the structure error.\<close>

function load_loop ::
    "'z tstate_scheme \<Rightarrow> nat \<Rightarrow> nat \<Rightarrow> nat \<Rightarrow> real \<Rightarrow> nat \<Rightarrow> 'z tstate_scheme" where
  "load_loop st p q qind qsize lev =
     (case subps st q ! qind of
        None \<Rightarrow>
          (let st = set_subp q qind (Bd p) st
           in st\<lparr>tree := (tree st)\<lparr>maxDepth := max (maxDepth (tree st)) lev\<rparr>\<rparr>)
      | Some r \<Rightarrow>
          if qsize \<le> REAL_EPSILON then set_structureError st
          else
            let st = (case r of Bd _ \<Rightarrow> split_leaf st p q qind qsize r | Cl _ \<Rightarrow> st);
                q = cell_addr (the (subps st q ! qind));
                qind = nbSubIndex (b_pos (bodytab st ! p)) (c_pos (cells st q))
            in load_loop st p q qind (qsize * 0.5) (Suc lev))"
  by pat_completeness auto

termination
  by (relation "measure (\<lambda>(st, p, q, qind, qsize, lev). nat \<lceil>qsize / REAL_EPSILON\<rceil>)")
    (simp, use half_ceiling_less[OF _ REAL_EPSILON_pos] in \<open>force simp: not_le\<close>)

declare load_loop.simps [simp del]

definition nbLoadBody :: "'z tstate_scheme \<Rightarrow> nat \<Rightarrow> 'z tstate_scheme" where
  "nbLoadBody st p =
     (let q = the (root (tree st))
      in load_loop st p q (nbSubIndex (b_pos (bodytab st ! p)) (c_pos (cells st q)))
           (rsize (tree st)) 0)"

section \<open>Centres of mass and critical radii\<close>

definition bmax2Inc :: "real \<Rightarrow> real \<Rightarrow> real \<Rightarrow> real" where
  "bmax2Inc cmPos pPos psize =
     (let dmin = cmPos - (pPos - 0.5 * psize) in sqr (mw_fmax dmin (psize - dmin)))"

definition calcSW93MaxDist2 :: "mwvector \<Rightarrow> mwvector \<Rightarrow> real \<Rightarrow> real" where
  "calcSW93MaxDist2 pPos cmpos psize =
     bmax2Inc (X cmpos) (X pPos) psize + bmax2Inc (Y cmpos) (Y pPos) psize
     + bmax2Inc (Z cmpos) (Z pPos) psize"

text \<open>\<open>None\<close> is \<open>mw_fail\<close> on a criterion that has no radius.\<close>

definition findRCrit ::
    "real NBodyCtx \<Rightarrow> mwvector \<Rightarrow> real \<Rightarrow> mwvector \<Rightarrow> real \<Rightarrow> real option" where
  "findRCrit ctx pPos rootSize cmpos psize =
     (if theta ctx = 0 then (let rc = 2 * rootSize in Some (sqr rc))
      else case criterion ctx of
        TreeCode \<Rightarrow> (let rc = psize / theta ctx + mw_distv cmpos pPos in Some (sqr rc))
      | SW93 \<Rightarrow> Some (calcSW93MaxDist2 pPos cmpos psize / sqr (theta ctx))
      | BH86 \<Rightarrow> (let rc = psize / theta ctx in Some (sqr rc))
      | InvalidCriterion \<Rightarrow> None
      | Exact \<Rightarrow> None)"

definition nbCheckTreeDim ::
    "'z tstate_scheme \<Rightarrow> real \<Rightarrow> real \<Rightarrow> real \<Rightarrow> 'z tstate_scheme" where
  "nbCheckTreeDim st pPos cmPos halfPsize =
     (if cmPos < pPos - halfPsize \<or> cmPos > pPos + halfPsize then set_structureError st else st)"

definition nbCheckTreeStructure ::
    "'z tstate_scheme \<Rightarrow> mwvector \<Rightarrow> mwvector \<Rightarrow> real \<Rightarrow> 'z tstate_scheme" where
  "nbCheckTreeStructure st pPos cmPos psize =
     (let halfPsize = 0.5 * psize;
          st = nbCheckTreeDim st (X pPos) (X cmPos) halfPsize;
          st = nbCheckTreeDim st (Y pPos) (Y cmPos) halfPsize
      in nbCheckTreeDim st (Z pPos) (Z cmPos) halfPsize)"

text \<open>
  \<open>hackCofM\<close>: \<open>cofm_loop\<close> is its loop over the sub-cells, with the weighted sum of positions
  as second result. The loop reads the sub-cell pointers from the heap in every round.
\<close>

fun hackCofM :: "nat \<Rightarrow> real NBodyCtx \<Rightarrow> 'z tstate_scheme \<Rightarrow> nat \<Rightarrow> real \<Rightarrow> 'z tstate_scheme option"
and cofm_loop :: "nat \<Rightarrow> real NBodyCtx \<Rightarrow> 'z tstate_scheme \<Rightarrow> nat \<Rightarrow> real \<Rightarrow> nat list \<Rightarrow> mwvector
    \<Rightarrow> ('z tstate_scheme \<times> mwvector) option" where
  "hackCofM 0 ctx st p psize = None"
| "hackCofM (Suc n) ctx st p psize =
     (let st = upd_cell p (c_mass_update (\<lambda>_. 0)) st
      in case cofm_loop n ctx st p psize [0..<NSUB] ZERO_VECTOR of
           None \<Rightarrow> None
         | Some (st, cmpos) \<Rightarrow>
             let cmpos = (if c_mass (cells st p) > 0 then mw_incdivs cmpos (c_mass (cells st p))
                          else c_pos (cells st p));
                 st = nbCheckTreeStructure st (c_pos (cells st p)) cmpos psize
             in map_option (\<lambda>rc. upd_cell p (\<lambda>cl. cl\<lparr>c_rcrit2 := rc, c_pos := cmpos\<rparr>) st)
                  (findRCrit ctx (c_pos (cells st p)) (rsize (tree st)) cmpos psize))"
| "cofm_loop n ctx st p psize [] cmpos = Some (st, cmpos)"
| "cofm_loop n ctx st p psize (i # is) cmpos =
     (case subps st p ! i of
        None \<Rightarrow> cofm_loop n ctx st p psize is cmpos
      | Some q \<Rightarrow>
          (case (case q of Cl a \<Rightarrow> hackCofM n ctx st a (0.5 * psize) | Bd _ \<Rightarrow> Some st) of
             None \<Rightarrow> None
           | Some st \<Rightarrow>
               let st' = upd_cell p (c_mass_update (\<lambda>m. m + Mass st q)) st
               in cofm_loop n ctx st' p psize is (mw_incaddv_s cmpos (Pos st' q) (Mass st' q))))"

section \<open>Threading\<close>

text \<open>
  \<open>threadTree\<close>: \<open>thread_loop\<close> is its loop over the table \<open>desc\<close> of present sub-nodes, whose
  last entry is the next stop. A cell without sub-nodes reads an uninitialised \<open>desc[0]\<close>: that
  element of an empty list has no specified value here either.
\<close>

fun threadTree :: "nat \<Rightarrow> 'z tstate_scheme \<Rightarrow> node_ref \<Rightarrow> node_ref option \<Rightarrow> 'z tstate_scheme option"
and thread_loop :: "nat \<Rightarrow> 'z tstate_scheme \<Rightarrow> node_ref list \<Rightarrow> node_ref option
    \<Rightarrow> 'z tstate_scheme option" where
  "threadTree 0 st p n = None"
| "threadTree (Suc k) st p n =
     (let st = set_Next st p n
      in case p of
           Bd _ \<Rightarrow> Some st
         | Cl a \<Rightarrow>
             let desc = live (subps st a);
                 st = upd_cell a (c_more_update (\<lambda>_. map Some desc ! 0)) st
             in thread_loop k st desc n)"
| "thread_loop k st [] n = Some st"
| "thread_loop k st (d # ds) n =
     (case threadTree k st d (case ds of [] \<Rightarrow> n | e # _ \<Rightarrow> Some e) of
        None \<Rightarrow> None
      | Some st \<Rightarrow> thread_loop k st ds n)"

section \<open>Quadrupole moments\<close>

definition zero_quad :: NBodyQuadMatrix where
  "zero_quad = \<lparr>xx = 0, xy = 0, xz = 0, yy = 0, yz = 0, zz = 0\<rparr>"

definition nbIncAddNBodyQuadMatrix :: "NBodyQuadMatrix \<Rightarrow> NBodyQuadMatrix \<Rightarrow> NBodyQuadMatrix" where
  "nbIncAddNBodyQuadMatrix a b =
     \<lparr>xx = xx a + xx b, xy = xy a + xy b, xz = xz a + xz b,
      yy = yy a + yy b, yz = yz a + yz b, zz = zz a + zz b\<rparr>"

text \<open>
  Reading the matrix of a union that still holds the pointer array reinterprets the bits of the
  pointers; what that gives depends on the machine and is the parameter \<open>reint\<close>.
\<close>

fun quad_of :: "(node_ref option list \<Rightarrow> NBodyQuadMatrix) \<Rightarrow> stuff \<Rightarrow> NBodyQuadMatrix" where
  "quad_of reint (Quad q) = q"
| "quad_of reint (Subp ps) = reint ps"

definition quad_term :: "real \<Rightarrow> mwvector \<Rightarrow> NBodyQuadMatrix" where
  "quad_term m dr =
     (let drsq = mw_sqrv dr
      in \<lparr>xx = m * (3 * (X dr * X dr) - drsq), xy = m * (3 * (X dr * Y dr)),
          xz = m * (3 * (X dr * Z dr)),
          yy = m * (3 * (Y dr * Y dr) - drsq), yz = m * (3 * (Y dr * Z dr)),
          zz = m * (3 * (Z dr * Z dr) - drsq)\<rparr>)"

fun hackQuad :: "(node_ref option list \<Rightarrow> NBodyQuadMatrix) \<Rightarrow> nat \<Rightarrow> 'z tstate_scheme \<Rightarrow> nat
    \<Rightarrow> 'z tstate_scheme option"
and quad_loop :: "(node_ref option list \<Rightarrow> NBodyQuadMatrix) \<Rightarrow> nat \<Rightarrow> 'z tstate_scheme \<Rightarrow> nat
    \<Rightarrow> node_ref list \<Rightarrow> 'z tstate_scheme option" where
  "hackQuad reint 0 st p = None"
| "hackQuad reint (Suc n) st p =
     (let desc = live (subps st p) in quad_loop reint n st p desc)"
| "quad_loop reint n st p [] = Some st"
| "quad_loop reint n st p (q # qs) =
     (case (case q of Cl a \<Rightarrow> hackQuad reint n st a | Bd _ \<Rightarrow> Some st) of
        None \<Rightarrow> None
      | Some st \<Rightarrow>
          let dr = mw_subv (Pos st q) (c_pos (cells st p));
              quad = quad_term (Mass st q) dr;
              quad = (case q of
                        Cl a \<Rightarrow> nbIncAddNBodyQuadMatrix quad (quad_of reint (c_stuff (cells st a)))
                      | Bd _ \<Rightarrow> quad);
              st = upd_cell p (c_stuff_update
                     (\<lambda>u. Quad (nbIncAddNBodyQuadMatrix (quad_of reint u) quad))) st
          in quad_loop reint n st p qs)"

section \<open>The whole construction\<close>

definition load_bodies :: "'z tstate_scheme \<Rightarrow> nat list \<Rightarrow> 'z tstate_scheme" where
  "load_bodies st is =
     fold (\<lambda>i st. if b_mass (bodytab st ! i) \<noteq> 0 then nbLoadBody st i else st) is st"

text \<open>
  \<open>nbMakeTree\<close>. The recursive passes get one unit of fuel more than there are allocated cells.
\<close>

definition nbMakeTree :: "(node_ref option list \<Rightarrow> NBodyQuadMatrix) \<Rightarrow> real NBodyCtx
    \<Rightarrow> 'z tstate_scheme \<Rightarrow> (NBodyStatus \<times> 'z tstate_scheme) option" where
  "nbMakeTree reint ctx st =
     Option.bind (nbNewTree st) (\<lambda>st.
     Option.bind (expandBox st) (\<lambda>st.
       let st = load_bodies st [0..<length (bodytab st)];
           t = the (root (tree st)); fuel = Suc (nalloc st)
       in if structureError (tree st) then Some (NBODY_TREE_STRUCTURE_ERROR, st)
          else Option.bind (hackCofM fuel ctx st t (rsize (tree st))) (\<lambda>st.
            if structureError (tree st) then Some (NBODY_TREE_STRUCTURE_ERROR, st)
            else Option.bind (threadTree fuel st (Cl t) None) (\<lambda>st.
              if useQuad ctx
              then map_option (\<lambda>st. (NBODY_SUCCESS, st)) (hackQuad reint fuel st t)
              else Some (NBODY_SUCCESS, st)))))"

end
