(* ===== verification/NBody_Octree.thy ===== *)
theory NBody_Octree
  imports NBody_Tree "HOL-Library.Multiset"
begin

text \<open>
  The octree as an inductive tree, its geometry, and the representation of such a tree by the
  heap of cells with the free list beside it. \<open>evolves\<close> is the frame of an operation on a
  sub-tree; \<open>evolves_child\<close> carries it to the tree around the sub-tree.
\<close>

section \<open>Abstract octrees\<close>

datatype otree = Leaf nat | Node nat "otree option list"

primrec ref_of :: "otree \<Rightarrow> node_ref" where
  "ref_of (Leaf i) = Bd i"
| "ref_of (Node a ts) = Cl a"

fun cells_of :: "otree \<Rightarrow> nat list" where
  "cells_of (Leaf i) = []"
| "cells_of (Node a ts) =
     a # concat (map (\<lambda>o'. case o' of None \<Rightarrow> [] | Some t \<Rightarrow> cells_of t) ts)"

fun bodies_of :: "otree \<Rightarrow> nat list" where
  "bodies_of (Leaf i) = [i]"
| "bodies_of (Node a ts) =
     concat (map (\<lambda>o'. case o' of None \<Rightarrow> [] | Some t \<Rightarrow> bodies_of t) ts)"

fun height :: "otree \<Rightarrow> nat" where
  "height (Leaf i) = 0"
| "height (Node a ts) =
     Suc (fold max (map (\<lambda>o'. case o' of None \<Rightarrow> 0 | Some t \<Rightarrow> height t) ts) 0)"

text \<open>The heap's unions represent the tree: every cell holds the pointers to its sub-trees.\<close>

fun rep :: "(nat \<Rightarrow> stuff) \<Rightarrow> otree \<Rightarrow> bool" where
  "rep u (Leaf i) \<longleftrightarrow> True"
| "rep u (Node a ts) \<longleftrightarrow>
     u a = Subp (map (map_option ref_of) ts) \<and> length ts = NSUB
     \<and> (\<forall>o' \<in> set ts. case o' of None \<Rightarrow> True | Some t \<Rightarrow> rep u t)"

text \<open>Every cell below the root of an octree has a sub-node.\<close>

fun full :: "otree \<Rightarrow> bool" where
  "full (Leaf i) \<longleftrightarrow> True"
| "full (Node a ts) \<longleftrightarrow> live ts \<noteq> []
     \<and> (\<forall>o' \<in> set ts. case o' of None \<Rightarrow> True | Some t \<Rightarrow> full t)"

lemma concat_live: "concat (map (\<lambda>o'. case o' of None \<Rightarrow> [] | Some t \<Rightarrow> f t) ts) = concat (map f (live ts))"
proof (induction ts)
  case (Cons x ts)
  then show ?case by (cases x) simp_all
qed simp

lemma ball_live: "(\<forall>o' \<in> set ts. case o' of None \<Rightarrow> True | Some t \<Rightarrow> P t) \<longleftrightarrow> (\<forall>t \<in> set (live ts). P t)"
  by (auto simp: set_live split: option.splits)

lemma cells_of_Node: "cells_of (Node a ts) = a # concat (map cells_of (live ts))"
  and bodies_of_Node: "bodies_of (Node a ts) = concat (map bodies_of (live ts))"
  by (simp_all add: concat_live)

lemma rep_Node: "rep u (Node a ts) \<longleftrightarrow> u a = Subp (map (map_option ref_of) ts) \<and> length ts = NSUB
    \<and> (\<forall>t \<in> set (live ts). rep u t)"
  and full_Node: "full (Node a ts) \<longleftrightarrow> live ts \<noteq> [] \<and> (\<forall>t \<in> set (live ts). full t)"
  by (simp_all add: ball_live)

lemmas otree_Node = cells_of_Node bodies_of_Node rep_Node full_Node

declare cells_of.simps(2) [simp del] bodies_of.simps(2) [simp del] rep.simps(2) [simp del]
  full.simps(2) [simp del]

lemma otree_live_induct [case_names Leaf Node]:
  assumes "\<And>i. P (Leaf i)"
    and "\<And>a ts. (\<And>t. t \<in> set (live ts) \<Longrightarrow> P t) \<Longrightarrow> P (Node a ts)"
  shows "P t"
proof (induction t)
  case (Leaf i)
  show ?case by (rule assms(1))
next
  case (Node a ts)
  show ?case
  proof (rule assms(2))
    fix t assume "t \<in> set (live ts)"
    then have "Some t \<in> set ts" by (simp add: set_live)
    then show "P t" by (rule Node) simp
  qed
qed

lemma cells_of_childD: "t \<in> set (live ts) \<Longrightarrow> c \<in> set (cells_of t) \<Longrightarrow> c \<in> set (cells_of (Node a ts))"
  by (auto simp: cells_of_Node)

lemma rep_cong: "(\<And>a. a \<in> set (cells_of t) \<Longrightarrow> u a = v a) \<Longrightarrow> rep u t \<longleftrightarrow> rep v t"
proof (induction t rule: otree_live_induct)
  case (Node a ts)
  have "u a = v a" using Node.prems by (simp add: cells_of_Node)
  moreover have "rep u t \<longleftrightarrow> rep v t" if t: "t \<in> set (live ts)" for t
    using Node.IH[OF t] Node.prems cells_of_childD[OF t] by blast
  ultimately show ?case by (simp add: rep_Node)
qed simp

lemma live_nth: "k < length ts \<Longrightarrow> ts ! k = Some t \<Longrightarrow> t \<in> set (live ts)"
  unfolding set_live using nth_mem by force

text \<open>Splitting the list of sub-trees at an index.\<close>

lemma live_split:
  assumes "k < length ts"
  obtains as bs where "\<And>x. live (ts[k := x]) = as @ live [x] @ bs"
proof
  fix x
  show "live (ts[k := x]) = live (take k ts) @ live [x] @ live (drop (Suc k) ts)"
    by (cases x) (simp_all add: upd_conv_take_nth_drop[OF assms])
qed

section \<open>Octant geometry\<close>

text \<open>
  \<open>ogeo bp cp t s\<close>: in the tree \<open>t\<close> whose root cell has size \<open>s\<close>, every body lies in the octant
  \<open>nbSubIndex\<close> names and every sub-cell has the centre \<open>nbInitMidpoint\<close> computes from any of
  its bodies. \<open>bp\<close> and \<open>cp\<close> are the positions of bodies and cells.
\<close>

definition child_ok :: "(nat \<Rightarrow> mwvector) \<Rightarrow> (nat \<Rightarrow> mwvector) \<Rightarrow> nat \<Rightarrow> real \<Rightarrow> nat \<Rightarrow> otree \<Rightarrow> bool" where
  "child_ok bp cp a s k t \<longleftrightarrow>
     (\<forall>i \<in> set (bodies_of t). nbSubIndex (bp i) (cp a) = k
        \<and> (\<forall>c us. t = Node c us \<longrightarrow> cp c = nbInitMidpoint (bp i) (cp a) s))"

inductive ogeo :: "(nat \<Rightarrow> mwvector) \<Rightarrow> (nat \<Rightarrow> mwvector) \<Rightarrow> otree \<Rightarrow> real \<Rightarrow> bool" for bp cp where
  Leaf: "ogeo bp cp (Leaf i) s"
| Node: "(\<And>k t. k < List.length ts \<Longrightarrow> ts ! k = Some t \<Longrightarrow>
           ogeo bp cp t (s / 2) \<and> child_ok bp cp a s k t) \<Longrightarrow> ogeo bp cp (Node a ts) s"

inductive_simps ogeo_Leaf [simp]: "ogeo bp cp (Leaf i) s"
inductive_simps ogeo_Node: "ogeo bp cp (Node a ts) s"

lemma ogeo_cong:
  "(\<And>a. a \<in> set (cells_of t) \<Longrightarrow> cp a = cp' a) \<Longrightarrow> (\<And>i. i \<in> set (bodies_of t) \<Longrightarrow> bp i = bp' i)
   \<Longrightarrow> ogeo bp cp t s \<Longrightarrow> ogeo bp' cp' t s"
proof (induction t arbitrary: s rule: otree_live_induct)
  case (Node a ts)
  show ?case unfolding ogeo_Node
  proof (intro allI impI)
    fix k t assume k: "k < List.length ts" "ts ! k = Some t"
    have t: "t \<in> set (live ts)" using k by (rule live_nth)
    have bs: "bp i = bp' i" if "i \<in> set (bodies_of t)" for i
      using Node.prems(2) t that by (force simp: bodies_of_Node)
    have cs: "cp c = cp' c" if "c \<in> set (cells_of t)" for c
      using Node.prems(1) cells_of_childD[OF t that] by simp
    have root: "cp a = cp' a" using Node.prems(1) by (simp add: cells_of_Node)
    have "ogeo bp cp t (s / 2) \<and> child_ok bp cp a s k t"
      using Node.prems(3) k by (simp add: ogeo_Node)
    moreover have "child_ok bp cp a s k t = child_ok bp' cp' a s k t"
      unfolding child_ok_def using bs cs root by (cases t) (auto simp: cells_of_Node)
    ultimately show "ogeo bp' cp' t (s / 2) \<and> child_ok bp' cp' a s k t"
      using Node.IH[OF t] cs bs by blast
  qed
qed simp

definition inbox :: "mwvector \<Rightarrow> real \<Rightarrow> mwvector \<Rightarrow> bool" where
  "inbox c s x \<longleftrightarrow> \<bar>X x - X c\<bar> \<le> s / 2 \<and> \<bar>Y x - Y c\<bar> \<le> s / 2 \<and> \<bar>Z x - Z c\<bar> \<le> s / 2"

lemma calcOffset_dist: "\<bar>p - q\<bar> \<le> s / 2 \<Longrightarrow> \<bar>p - calcOffset p q s\<bar> \<le> s / 2 / 2"
  unfolding calcOffset_def by (auto simp: abs_if split: if_splits)

lemma inbox_child: "inbox c s x \<Longrightarrow> inbox (nbInitMidpoint x c s) (s / 2) x"
  unfolding inbox_def nbInitMidpoint_def mwvector.simps by (intro conjI calcOffset_dist) blast+

lemma nbSubIndex_less: "nbSubIndex p q < NSUB"
  by (simp add: nbSubIndex_def NSUB_def)

text \<open>The index determines the side of the centre in every coordinate.\<close>

lemma nbSubIndex_eq_iff:
  "nbSubIndex p q = nbSubIndex p' q \<longleftrightarrow>
     (X q \<le> X p \<longleftrightarrow> X q \<le> X p') \<and> (Y q \<le> Y p \<longleftrightarrow> Y q \<le> Y p') \<and> (Z q \<le> Z p \<longleftrightarrow> Z q \<le> Z p')"
  by (auto simp: nbSubIndex_def NSUB_def)

lemma nbInitMidpoint_same_octant:
  "nbSubIndex p q = nbSubIndex p' q \<Longrightarrow> nbInitMidpoint p q s = nbInitMidpoint p' q s"
  unfolding nbSubIndex_eq_iff by (auto simp: nbInitMidpoint_def calcOffset_def not_less)

section \<open>The heap\<close>

primrec flist :: "(nat \<Rightarrow> NBodyCell) \<Rightarrow> node_ref option \<Rightarrow> nat list \<Rightarrow> bool" where
  "flist cs r [] \<longleftrightarrow> r = None"
| "flist cs r (a # F) \<longleftrightarrow> r = Some (Cl a) \<and> flist cs (c_next (cs a)) F"

lemma flist_cong: "(\<And>a. a \<in> set F \<Longrightarrow> c_next (cs a) = c_next (cs' a)) \<Longrightarrow> flist cs r F = flist cs' r F"
  by (induction F arbitrary: r) auto

definition stuffs :: "'z tstate_scheme \<Rightarrow> nat \<Rightarrow> stuff" where
  "stuffs st a = c_stuff (cells st a)"

text \<open>The tree \<open>t\<close> and the free list \<open>F\<close> occupy disjoint allocated cells.\<close>

definition heap_ok :: "'z tstate_scheme \<Rightarrow> otree \<Rightarrow> nat list \<Rightarrow> bool" where
  "heap_ok st t F \<longleftrightarrow> rep (stuffs st) t \<and> distinct (cells_of t @ F)
     \<and> (\<forall>a \<in> set (cells_of t @ F). a < nalloc st) \<and> flist (cells st) (freeCell st) F"

text \<open>What an insertion into the sub-tree \<open>t\<close> may do to the rest of the state.\<close>

definition evolves :: "'z tstate_scheme \<Rightarrow> otree \<Rightarrow> nat list \<Rightarrow> 'z tstate_scheme \<Rightarrow> otree \<Rightarrow> nat list \<Rightarrow> bool" where
  "evolves st t F st' t' F' \<longleftrightarrow> ref_of t' = ref_of t \<and> bodytab st' = bodytab st
     \<and> root (tree st') = root (tree st) \<and> rsize (tree st') = rsize (tree st)
     \<and> treeIncest st' = treeIncest st
     \<and> nalloc st \<le> nalloc st' \<and> set F' \<subseteq> set F
     \<and> set (cells_of t) \<subseteq> set (cells_of t')
     \<and> set (cells_of t') \<subseteq> set (cells_of t) \<union> set F \<union> {nalloc st..}
     \<and> (\<forall>a. a < nalloc st \<longrightarrow> a \<notin> set (cells_of t) \<union> set F \<longrightarrow> cells st' a = cells st a)
     \<and> (\<forall>a \<in> set (cells_of t). c_pos (cells st' a) = c_pos (cells st a))"

lemma evolvesD:
  assumes "evolves st t F st' t' F'"
  shows "nalloc st \<le> nalloc st'" "set F' \<subseteq> set F" "set (cells_of t) \<subseteq> set (cells_of t')"
    "set (cells_of t') \<subseteq> set (cells_of t) \<union> set F \<union> {nalloc st..}"
    "\<And>a. a < nalloc st \<Longrightarrow> a \<notin> set (cells_of t) \<union> set F \<Longrightarrow> cells st' a = cells st a"
    "\<And>a. a \<in> set (cells_of t) \<Longrightarrow> c_pos (cells st' a) = c_pos (cells st a)"
    "ref_of t' = ref_of t" "bodytab st' = bodytab st" "root (tree st') = root (tree st)"
    "rsize (tree st') = rsize (tree st)" "treeIncest st' = treeIncest st"
  using assms by (simp_all add: evolves_def)

lemma evolves_trans:
  assumes 1: "evolves st t F st1 t1 F1" and 2: "evolves st1 t1 F1 st2 t2 F2"
  shows "evolves st t F st2 t2 F2"
proof -
  note e1 = evolvesD[OF 1] and e2 = evolvesD[OF 2]
  have "set (cells_of t2) \<subseteq> set (cells_of t) \<union> set F \<union> {nalloc st..}"
    using e1(1,2,4) e2(4) by fastforce
  moreover have "cells st2 a = cells st a" if a: "a < nalloc st" "a \<notin> set (cells_of t) \<union> set F" for a
  proof -
    have "a \<notin> set (cells_of t1) \<union> set F1" using a e1(2,4) by fastforce
    then show ?thesis using e1(1) e1(5)[of a] e2(5)[of a] a by simp
  qed
  moreover have "c_pos (cells st2 a) = c_pos (cells st a)" if "a \<in> set (cells_of t)" for a
    using that e1(3,6) e2(6) by (metis subsetD)
  moreover have "set (cells_of t) \<subseteq> set (cells_of t2)" "set F2 \<subseteq> set F"
    using e1(2,3) e2(2,3) by simp_all
  ultimately show ?thesis using e1 e2 unfolding evolves_def by simp
qed

lemma evolves_refl: "evolves st t F st t F"
  by (auto simp: evolves_def)

text \<open>From a sub-tree to the tree around it.\<close>

lemma evolves_child:
  assumes h: "heap_ok st (Node q ts) F" and k: "k < List.length ts" "ts ! k = Some t"
    and ev: "evolves st t F st' t' F'" and h': "heap_ok st' t' F'"
  shows "heap_ok st' (Node q (ts[k := Some t'])) F'"
    and "evolves st (Node q ts) F st' (Node q (ts[k := Some t'])) F'"
proof -
  obtain as bs where split: "\<And>x. live (ts[k := x]) = as @ live [x] @ bs"
    using live_split[OF k(1)] by blast
  have lts: "live ts = as @ t # bs" using split[of "Some t"] k by (metis append_Cons append_Nil list_update_id live_Some live_Nil)
  let ?A = "concat (map cells_of as)" and ?B = "concat (map cells_of bs)"
  have cells: "cells_of (Node q ts) = q # ?A @ cells_of t @ ?B"
    "cells_of (Node q (ts[k := Some t'])) = q # ?A @ cells_of t' @ ?B"
    by (simp_all add: cells_of_Node lts split)
  note le = evolvesD(1)[OF ev] and F = evolvesD(2)[OF ev] and up = evolvesD(3)[OF ev]
    and lo = evolvesD(4)[OF ev] and fr = evolvesD(5)[OF ev] and pos = evolvesD(6)[OF ev]
    and ref = evolvesD(7)[OF ev]
  have dist: "distinct (q # ?A @ cells_of t @ ?B @ F)"
    and bnd: "\<forall>a \<in> set (q # ?A @ cells_of t @ ?B @ F). a < nalloc st"
    using h unfolding heap_ok_def cells by simp_all
  have same: "cells st' a = cells st a" if "a \<in> set (q # ?A @ ?B)" for a
    using that dist bnd by (intro fr) auto
  have d': "distinct (cells_of t' @ F')" and b': "\<forall>a \<in> set (cells_of t' @ F'). a < nalloc st'"
    and r': "rep (stuffs st') t'" and f': "flist (cells st') (freeCell st') F'"
    using h' by (simp_all add: heap_ok_def)
  have disj: "a \<notin> set (cells_of t') \<union> set F'" if a: "a \<in> set (q # ?A @ ?B)" for a
  proof -
    have "a \<notin> set (cells_of t)" "a \<notin> set F" "a < nalloc st" using a dist bnd by auto
    then show ?thesis using lo F by fastforce
  qed
  have b2: "a < nalloc st'" if a: "a \<in> set (q # ?A @ ?B)" for a
  proof -
    have "a < nalloc st" using a bnd by auto
    then show ?thesis using le by simp
  qed
  have "distinct (cells_of (Node q (ts[k := Some t'])) @ F')"
    using d' dist disj unfolding cells by auto
  moreover have "\<forall>a \<in> set (cells_of (Node q (ts[k := Some t'])) @ F'). a < nalloc st'"
    using b' b2 unfolding cells by auto
  moreover have "rep (stuffs st') (Node q (ts[k := Some t']))"
  proof -
    have "rep (stuffs st') u" if u: "u \<in> set (as @ bs)" for u
    proof -
      have "rep (stuffs st) u" using h u lts by (auto simp: heap_ok_def rep_Node)
      moreover have "stuffs st a = stuffs st' a" if a: "a \<in> set (cells_of u)" for a
      proof -
        have "a \<in> set (q # ?A @ ?B)" using u a by auto
        then show ?thesis using same by (simp add: stuffs_def)
      qed
      ultimately show ?thesis using rep_cong by blast
    qed
    moreover have "stuffs st' q = Subp (map (map_option ref_of) ts)" "List.length ts = NSUB"
      using h same[of q] by (simp_all add: heap_ok_def rep_Node stuffs_def)
    moreover have "map (map_option ref_of) (ts[k := Some t']) = map (map_option ref_of) ts"
      using k ref by (intro map_list_update_same) simp_all
    ultimately show ?thesis using r' by (auto simp: rep_Node split)
  qed
  ultimately show "heap_ok st' (Node q (ts[k := Some t'])) F'" using f' by (simp add: heap_ok_def)
  have "set (cells_of (Node q (ts[k := Some t']))) \<subseteq> set (cells_of (Node q ts)) \<union> set F \<union> {nalloc st..}"
    using lo unfolding cells by auto
  moreover have "set (cells_of (Node q ts)) \<subseteq> set (cells_of (Node q (ts[k := Some t'])))"
    using up unfolding cells by auto
  moreover have "c_pos (cells st' a) = c_pos (cells st a)" if a: "a \<in> set (cells_of (Node q ts))" for a
  proof -
    have "a \<in> set (cells_of t) \<or> a \<in> set (q # ?A @ ?B)" using a unfolding cells by auto
    then show ?thesis by (elim disjE) (simp_all only: pos same)
  qed
  moreover have "cells st' a = cells st a"
    if "a < nalloc st" "a \<notin> set (cells_of (Node q ts)) \<union> set F" for a
    using that fr[of a] unfolding cells by simp
  ultimately show "evolves st (Node q ts) F st' (Node q (ts[k := Some t'])) F'"
    using evolvesD[OF ev] unfolding evolves_def by simp
qed

end
