(* ===== verification/NBody_TreeInv.thy ===== *)
theory NBody_TreeInv
  imports NBody_Octree
begin

text \<open>
  The insertion of a body: \<open>load_loop\<close> keeps the representation and the geometry, and adds the
  body unless it reports the structure error, which it does only next to another body.
\<close>

section \<open>New cells\<close>

lemma upd_cell_simps [simp]:
  "cells (upd_cell a f st) = (cells st)(a := f (cells st a))"
  "bodytab (upd_cell a f st) = bodytab st" "nalloc (upd_cell a f st) = nalloc st"
  "tree (upd_cell a f st) = tree st" "freeCell (upd_cell a f st) = freeCell st"
  "treeIncest (upd_cell a f st) = treeIncest st"
  by (simp_all add: upd_cell_def)

lemma nbMakeCell_spec:
  assumes h: "heap_ok st t F" and m: "nbMakeCell st = (c, st')"
  obtains F' where "flist (cells st') (freeCell st') F'" "distinct F'" "set F' \<subseteq> set F"
    "c \<notin> set F'" "c \<notin> set (cells_of t)" "c \<in> set F \<union> {nalloc st..}" "c < nalloc st'"
    "nalloc st \<le> nalloc st'" "bodytab st' = bodytab st" "treeIncest st' = treeIncest st"
    "root (tree st') = root (tree st)" "rsize (tree st') = rsize (tree st)"
    "structureError (tree st') = structureError (tree st)"
    "\<And>a. a \<noteq> c \<Longrightarrow> cells st' a = cells st a"
    "c_stuff (cells st' c) = Subp (replicate NSUB None)"
proof (cases F)
  case Nil
  then have f: "freeCell st = None" using h by (simp add: heap_ok_def)
  have c: "c = nalloc st" and st': "nalloc st' = Suc (nalloc st)" "freeCell st' = None"
    using m f by (auto simp: nbMakeCell_def Let_def)
  show ?thesis
  proof (rule that[of "[]"])
    show "c \<notin> set (cells_of t)" using h c by (auto simp: heap_ok_def)
  qed (use m f c in \<open>auto simp: nbMakeCell_def Let_def\<close>)
next
  case (Cons a F')
  then have f: "freeCell st = Some (Cl a)" "flist (cells st) (c_next (cells st a)) F'"
    and d: "a \<notin> set F'" "distinct F'" "a \<notin> set (cells_of t)" "a < nalloc st"
    using h by (auto simp: heap_ok_def)
  have c: "c = a" using m f by (auto simp: nbMakeCell_def Let_def)
  have "flist (cells st') (freeCell st') F' = flist (cells st) (freeCell st') F'"
    using m f d by (intro flist_cong) (auto simp: nbMakeCell_def Let_def)
  moreover have "freeCell st' = c_next (cells st a)" using m f by (auto simp: nbMakeCell_def Let_def)
  ultimately have "flist (cells st') (freeCell st') F'" using f by simp
  then show ?thesis
    by (rule that[of F']) (use m f c d Cons in \<open>auto simp: nbMakeCell_def Let_def\<close>)
qed

section \<open>Splitting a leaf\<close>

lemma single_leaf:
  assumes "k < NSUB"
  shows "live ((replicate NSUB None)[k := Some t]) = [t]"
proof -
  have "k < List.length (replicate NSUB (None :: 'a option))" using assms by simp
  then obtain as bs where "\<And>x. live ((replicate NSUB None)[k := x]) = as @ live [x] @ (bs :: 'a list)"
    by (rule live_split) blast
  from this[of None] this[of "Some t"] show ?thesis
    by (simp add: list_update_same_conv) (metis append_is_Nil_conv append_Nil2 assms list_update_id live_replicate_None nth_replicate append_Nil)
qed

lemma split_leaf_spec:
  fixes st :: "'z tstate_scheme"
  assumes h: "heap_ok st (Node q ts) F" and k: "k < NSUB" "ts ! k = Some (Leaf b)"
    and st': "st' = split_leaf st p q k s (Bd b)"
  obtains c us F' where
    "heap_ok st' (Node q (ts[k := Some (Node c us)])) F'"
    "evolves st (Node q ts) F st' (Node q (ts[k := Some (Node c us)])) F'"
    "live us = [Leaf b]"
    "us = (replicate NSUB None)[nbSubIndex (b_pos (bodytab st ! b)) (c_pos (cells st' c)) := Some (Leaf b)]"
    "c_pos (cells st' c) = nbInitMidpoint (b_pos (bodytab st ! p)) (c_pos (cells st q)) s"
    "structureError (tree st') = structureError (tree st)"
proof -
  obtain c st1 where m: "nbMakeCell st = (c, st1)" by fastforce
  obtain F' where F': "flist (cells st1) (freeCell st1) F'" "distinct F'" "set F' \<subseteq> set F"
    "c \<notin> set F'" "c \<notin> set (cells_of (Node q ts))" "c \<in> set F \<union> {nalloc st..}" "c < nalloc st1"
    "nalloc st \<le> nalloc st1" "bodytab st1 = bodytab st" "treeIncest st1 = treeIncest st"
    "root (tree st1) = root (tree st)" "rsize (tree st1) = rsize (tree st)"
    "structureError (tree st1) = structureError (tree st)"
    "\<And>a. a \<noteq> c \<Longrightarrow> cells st1 a = cells st a"
    "c_stuff (cells st1 c) = Subp (replicate NSUB None)"
    using nbMakeCell_spec[OF h m] by metis
  have qc: "q \<noteq> c" using F'(5) by (auto simp: cells_of_Node)
  let ?mid = "nbInitMidpoint (b_pos (bodytab st ! p)) (c_pos (cells st q)) s"
  let ?j = "nbSubIndex (b_pos (bodytab st ! b)) ?mid"
  let ?us = "(replicate NSUB None)[?j := Some (Leaf b)]"
  have len: "List.length ts = NSUB" and stuff: "c_stuff (cells st q) = Subp (map (map_option ref_of) ts)"
    using h by (simp_all add: heap_ok_def rep_Node stuffs_def)
  have pos: "c_pos (cells st' c) = ?mid" and stc: "c_stuff (cells st' c) = Subp (map (map_option ref_of) ?us)"
    and stq: "c_stuff (cells st' q) = Subp (map (map_option ref_of) (ts[k := Some (Node c ?us)]))"
    and cq: "c_pos (cells st' q) = c_pos (cells st q)" "c_next (cells st' q) = c_next (cells st q)"
    and oth: "\<And>a. a \<noteq> c \<Longrightarrow> a \<noteq> q \<Longrightarrow> cells st' a = cells st a"
    and nxt: "c_next (cells st' c) = c_next (cells st1 c)"
    and rest: "freeCell st' = freeCell st1" "bodytab st' = bodytab st" "nalloc st' = nalloc st1"
      "treeIncest st' = treeIncest st" "tree st' = tree st1"
    using F' qc stuff by (simp_all add: st' split_leaf_def m set_subp_def Let_def map_update)
  have us: "live ?us = [Leaf b]" by (rule single_leaf) (rule nbSubIndex_less)
  obtain as bs where sp: "\<And>x. live (ts[k := x]) = as @ live [x] @ bs"
    using live_split[of k ts] k len by metis
  have lts: "live ts = as @ Leaf b # bs" using sp[of "Some (Leaf b)"] k
    by (metis append_Cons append_Nil list_update_id live_Some live_Nil)
  have cells: "set (cells_of (Node q (ts[k := Some (Node c ?us)]))) = insert c (set (cells_of (Node q ts)))"
    by (auto simp: cells_of_Node lts sp us)
  show ?thesis
  proof (rule that[of c ?us F'])
    have "distinct (cells_of (Node q (ts[k := Some (Node c ?us)])) @ F')"
      using h F'(2,3,4,5) by (auto simp: heap_ok_def cells_of_Node lts sp us)
    moreover have "\<forall>a \<in> set (cells_of (Node q (ts[k := Some (Node c ?us)])) @ F'). a < nalloc st'"
    proof
      fix a assume a: "a \<in> set (cells_of (Node q (ts[k := Some (Node c ?us)])) @ F')"
      have "a = c \<or> a < nalloc st"
        using a h F'(3) unfolding set_append cells by (auto simp: heap_ok_def)
      then show "a < nalloc st'" using F'(7,8) rest(3) by auto
    qed
    moreover have "flist (cells st') (freeCell st') F'"
    proof -
      have "flist (cells st1) (freeCell st1) F' = flist (cells st') (freeCell st1) F'"
        using h F'(3,4,14) qc oth cq(2) nxt by (intro flist_cong) (metis)
      then show ?thesis using F'(1) rest by simp
    qed
    moreover have "rep (stuffs st') (Node q (ts[k := Some (Node c ?us)]))"
    proof -
      have "rep (stuffs st') u" if u: "u \<in> set (as @ bs)" for u
      proof -
        have r: "rep (stuffs st) u" using h u lts by (auto simp: heap_ok_def rep_Node)
        have "stuffs st a = stuffs st' a" if a: "a \<in> set (cells_of u)" for a
        proof -
          have "a \<noteq> q" using h u lts a by (auto simp: heap_ok_def cells_of_Node)
          moreover have "a \<noteq> c" using F'(5) u lts a by (auto simp: cells_of_Node)
          ultimately show ?thesis by (simp add: stuffs_def oth)
        qed
        then show ?thesis using r rep_cong by blast
      qed
      then show ?thesis using stq stc len by (auto simp: rep_Node sp us stuffs_def)
    qed
    ultimately show "heap_ok st' (Node q (ts[k := Some (Node c ?us)])) F'"
      by (simp add: heap_ok_def)
    show "evolves st (Node q ts) F st' (Node q (ts[k := Some (Node c ?us)])) F'"
      unfolding evolves_def cells
    proof (intro conjI)
      show "\<forall>a < nalloc st. a \<notin> set (cells_of (Node q ts)) \<union> set F \<longrightarrow> cells st' a = cells st a"
      proof (intro allI impI)
        fix a assume a: "a < nalloc st" "a \<notin> set (cells_of (Node q ts)) \<union> set F"
        have "a \<noteq> c" "a \<noteq> q" using a F'(6) by (auto simp: cells_of_Node)
        then show "cells st' a = cells st a" by (rule oth)
      qed
      show "\<forall>a \<in> set (cells_of (Node q ts)). c_pos (cells st' a) = c_pos (cells st a)"
        using oth F'(5) cq(1) by metis
      show "insert c (set (cells_of (Node q ts))) \<subseteq> set (cells_of (Node q ts)) \<union> set F \<union> {nalloc st..}"
        using F'(6) by auto
    qed (simp_all add: F' rest subset_insertI)
  qed (simp_all add: us pos rest F')
qed

section \<open>Insertion\<close>

definition bpos :: "'z tstate_scheme \<Rightarrow> nat \<Rightarrow> mwvector" where
  "bpos st i = b_pos (bodytab st ! i)"

definition cpos :: "'z tstate_scheme \<Rightarrow> nat \<Rightarrow> mwvector" where
  "cpos st a = c_pos (cells st a)"

text \<open>The state of a tree under construction, seen from the cell \<open>q\<close> of size \<open>s\<close>.\<close>

definition sub_ok :: "'z tstate_scheme \<Rightarrow> nat \<Rightarrow> otree option list \<Rightarrow> real \<Rightarrow> nat list \<Rightarrow> bool" where
  "sub_ok st q ts s F \<longleftrightarrow> heap_ok st (Node q ts) F \<and> ogeo (bpos st) (cpos st) (Node q ts) s
     \<and> (\<forall>u \<in> set (live ts). full u)
     \<and> (\<forall>i \<in> set (bodies_of (Node q ts)). inbox (cpos st q) s (bpos st i))"

text \<open>Two bodies too close for the smallest cell.\<close>

definition too_close :: "mwvector \<Rightarrow> mwvector \<Rightarrow> bool" where
  "too_close x y \<longleftrightarrow> \<bar>X x - X y\<bar> \<le> REAL_EPSILON \<and> \<bar>Y x - Y y\<bar> \<le> REAL_EPSILON
     \<and> \<bar>Z x - Z y\<bar> \<le> REAL_EPSILON"

definition inserted :: "'z tstate_scheme \<Rightarrow> nat \<Rightarrow> otree \<Rightarrow> 'z tstate_scheme \<Rightarrow> otree \<Rightarrow> bool" where
  "inserted st p t st' t' \<longleftrightarrow>
     mset (bodies_of t') = add_mset p (mset (bodies_of t))
       \<and> structureError (tree st') = structureError (tree st)
     \<or> mset (bodies_of t') = mset (bodies_of t) \<and> structureError (tree st')
       \<and> (\<exists>i \<in> set (bodies_of t). too_close (bpos st p) (bpos st i))"

definition ins_ok :: "'z tstate_scheme \<Rightarrow> nat \<Rightarrow> nat \<Rightarrow> otree option list \<Rightarrow> real \<Rightarrow> nat list
    \<Rightarrow> 'z tstate_scheme \<Rightarrow> otree option list \<Rightarrow> nat list \<Rightarrow> bool" where
  "ins_ok st p q ts s F st' ts' F' \<longleftrightarrow> sub_ok st' q ts' s F' \<and> live ts' \<noteq> []
     \<and> evolves st (Node q ts) F st' (Node q ts') F' \<and> inserted st p (Node q ts) st' (Node q ts')"

lemma full_bodies: "full t \<Longrightarrow> bodies_of t \<noteq> []"
proof (induction t rule: otree_live_induct)
  case (Node a ts)
  then show ?case by (cases "live ts") (auto simp: full_Node bodies_of_Node)
qed simp

lemma inbox_too_close: "inbox c s x \<Longrightarrow> inbox c s y \<Longrightarrow> s \<le> REAL_EPSILON \<Longrightarrow> too_close x y"
  unfolding inbox_def too_close_def by (intro conjI) linarith+

lemma ogeo_update:
  assumes "ogeo bp cp (Node q ts) s" "ogeo bp cp t (s / 2)" "child_ok bp cp q s k t"
  shows "ogeo bp cp (Node q (ts[k := Some t])) s"
  unfolding ogeo_Node
proof (intro allI impI)
  fix j u assume j: "j < List.length (ts[k := Some t])" "ts[k := Some t] ! j = Some u"
  then show "ogeo bp cp u (s / 2) \<and> child_ok bp cp q s j u"
    using assms by (cases "j = k") (auto simp: ogeo_Node)
qed

lemma live_cases:
  assumes "k < List.length ts"
  obtains as bs where "\<And>x. live (ts[k := x]) = as @ live [x] @ bs" "live ts = as @ live [ts ! k] @ bs"
proof -
  obtain as bs where sp: "\<And>x. live (ts[k := x]) = as @ live [x] @ bs"
    using live_split[OF assms] by blast
  then have "live ts = as @ live [ts ! k] @ bs" by (metis list_update_id)
  then show ?thesis using sp that by blast
qed

text \<open>The empty slot.\<close>

lemma insert_empty:
  fixes st :: "'z tstate_scheme"
  assumes ok: "sub_ok st q ts s F" and k: "k = nbSubIndex (bpos st p) (cpos st q)" "ts ! k = None"
    and p: "inbox (cpos st q) s (bpos st p)"
    and st': "st' = (let st1 = set_subp q k (Bd p) st
                     in st1\<lparr>tree := (tree st1)\<lparr>maxDepth := m\<rparr>\<rparr>)"
  shows "ins_ok st p q ts s F st' (ts[k := Some (Leaf p)]) F"
proof -
  have h: "heap_ok st (Node q ts) F" using ok by (simp add: sub_ok_def)
  have len: "List.length ts = NSUB" and stuff: "c_stuff (cells st q) = Subp (map (map_option ref_of) ts)"
    using h by (simp_all add: heap_ok_def rep_Node stuffs_def)
  have kl: "k < List.length ts" using k nbSubIndex_less len by simp
  obtain as bs where sp: "\<And>x. live (ts[k := x]) = as @ live [x] @ bs" "live ts = as @ live [ts ! k] @ bs"
    by (rule live_cases[OF kl]) blast
  then have lts: "live ts = as @ bs" using k by simp
  let ?t = "Node q (ts[k := Some (Leaf p)])"
  have cells: "cells_of ?t = cells_of (Node q ts)" and bodies: "mset (bodies_of ?t) = add_mset p (mset (bodies_of (Node q ts)))"
    by (simp_all add: cells_of_Node bodies_of_Node sp(1) lts)
  have stq: "c_stuff (cells st' q) = Subp (map (map_option ref_of) (ts[k := Some (Leaf p)]))"
    "c_pos (cells st' q) = c_pos (cells st q)" "c_next (cells st' q) = c_next (cells st q)"
    and oth: "\<And>a. a \<noteq> q \<Longrightarrow> cells st' a = cells st a"
    and rest: "bodytab st' = bodytab st" "nalloc st' = nalloc st" "freeCell st' = freeCell st"
      "treeIncest st' = treeIncest st" "root (tree st') = root (tree st)"
      "rsize (tree st') = rsize (tree st)" "structureError (tree st') = structureError (tree st)"
    using stuff by (simp_all add: st' set_subp_def map_update Let_def)
  have cp: "c_pos (cells st' a) = c_pos (cells st a)" for a
    by (cases "a = q") (simp_all add: stq oth)
  have pos: "bpos st' = bpos st" "cpos st' = cpos st"
    by (simp_all add: bpos_def cpos_def fun_eq_iff rest cp)
  have "rep (stuffs st') u" if u: "u \<in> set (live ts)" for u
  proof -
    have "rep (stuffs st) u" using h u by (simp add: heap_ok_def rep_Node)
    moreover have "stuffs st a = stuffs st' a" if a: "a \<in> set (cells_of u)" for a
    proof -
      have "a \<noteq> q" using h u a by (auto simp: heap_ok_def cells_of_Node)
      then show ?thesis using oth by (simp add: stuffs_def)
    qed
    ultimately show ?thesis using rep_cong by blast
  qed
  then have "rep (stuffs st') ?t"
    using stq len lts by (auto simp: rep_Node sp(1) stuffs_def)
  moreover have "flist (cells st') (freeCell st) F = flist (cells st) (freeCell st) F"
    using stq oth by (intro flist_cong) metis
  ultimately have "heap_ok st' ?t F" using h rest by (simp add: heap_ok_def cells)
  moreover have "ogeo (bpos st) (cpos st) ?t s"
    using ok k by (intro ogeo_update) (auto simp: sub_ok_def child_ok_def)
  moreover have "evolves st (Node q ts) F st' ?t F"
    unfolding evolves_def cells using oth rest by (simp add: cp cells_of_Node subset_iff)
  moreover have "set (bodies_of ?t) = insert p (set (bodies_of (Node q ts)))"
    using arg_cong[OF bodies, of set_mset] by simp
  ultimately show ?thesis
    using ok p bodies rest lts unfolding ins_ok_def sub_ok_def inserted_def pos by (auto simp: sp(1))
qed

lemma pos_kept: "evolves st t F st' t' F' \<Longrightarrow> bpos st' = bpos st"
  by (simp add: evolvesD(8) bpos_def fun_eq_iff)

lemma sub_ok_child:
  assumes ok: "sub_ok st q ts s F" and k: "k < List.length ts" "ts ! k = Some (Node c us)"
    and i: "i \<in> set (bodies_of (Node c us))"
  shows "nbSubIndex (bpos st i) (cpos st q) = k"
    and "cpos st c = nbInitMidpoint (bpos st i) (cpos st q) s"
    and "inbox (cpos st q) s (bpos st i)"
    and "inbox (cpos st c) (s / 2) (bpos st i)"
proof -
  have "child_ok (bpos st) (cpos st) q s k (Node c us)"
    using ok k by (simp add: sub_ok_def ogeo_Node)
  then show 1: "nbSubIndex (bpos st i) (cpos st q) = k"
    and 2: "cpos st c = nbInitMidpoint (bpos st i) (cpos st q) s"
    using i by (simp_all add: child_ok_def)
  have "i \<in> set (bodies_of (Node q ts))"
    using i live_nth[OF k] by (auto simp: bodies_of_Node[of q ts] simp del: bodies_of.simps)
  then show 3: "inbox (cpos st q) s (bpos st i)" using ok by (simp add: sub_ok_def)
  then show "inbox (cpos st c) (s / 2) (bpos st i)" unfolding 2 by (rule inbox_child)
qed

lemma child_sub_ok:
  assumes ok: "sub_ok st q ts s F" and k: "k < List.length ts" "ts ! k = Some (Node c us)"
  shows "sub_ok st c us (s / 2) F"
proof -
  obtain as bs where sp: "live ts = as @ live [ts ! k] @ bs"
    by (rule live_cases[OF k(1)]) blast
  have u: "Node c us \<in> set (live ts)" using live_nth[OF k] .
  have "heap_ok st (Node c us) F"
    using ok u unfolding sub_ok_def heap_ok_def
    by (auto simp: rep_Node cells_of_Node[of q] sp k)
  moreover have "ogeo (bpos st) (cpos st) (Node c us) (s / 2)"
    using ok k by (simp add: sub_ok_def ogeo_Node[of _ _ q])
  moreover have "\<forall>t \<in> set (live us). full t"
    using ok u by (auto simp: sub_ok_def full_Node)
  ultimately show ?thesis using sub_ok_child(4)[OF ok k] by (simp add: sub_ok_def)
qed

text \<open>The occupied slot of a cell: the insertion goes into the sub-cell.\<close>

lemma insert_child:
  assumes ok: "sub_ok st q ts s F" and k: "k = nbSubIndex (bpos st p) (cpos st q)"
    and c: "ts ! k = Some (Node c us)" and p: "inbox (cpos st q) s (bpos st p)"
    and ins: "ins_ok st p c us (s / 2) F st' us' F'"
  shows "ins_ok st p q ts s F st' (ts[k := Some (Node c us')]) F'"
proof -
  let ?t = "Node q (ts[k := Some (Node c us')])"
  have h: "heap_ok st (Node q ts) F" using ok by (simp add: sub_ok_def)
  have kl: "k < List.length ts"
    using h k nbSubIndex_less by (simp add: heap_ok_def rep_Node)
  have ev: "evolves st (Node c us) F st' (Node c us') F'" and h': "heap_ok st' (Node c us') F'"
    and so': "sub_ok st' c us' (s / 2) F'" and ne: "live us' \<noteq> []"
    and inc: "inserted st p (Node c us) st' (Node c us')"
    using ins by (simp_all add: ins_ok_def sub_ok_def)
  note evq = evolves_child[OF h kl c ev h']
  obtain as bs where sp: "\<And>x. live (ts[k := x]) = as @ live [x] @ bs" "live ts = as @ live [ts ! k] @ bs"
    by (rule live_cases[OF kl]) blast
  have u: "Node c us \<in> set (live ts)" using live_nth[OF kl c] .
  have fullc: "full (Node c us)" using ok u by (simp add: sub_ok_def)
  have bp: "bpos st' = bpos st" using pos_kept[OF ev] .
  have cq: "cpos st' q = cpos st q" "cpos st' c = cpos st c"
    using evolvesD(6)[OF evq(2), of q] evolvesD(6)[OF ev, of c] by (simp_all add: cpos_def cells_of_Node)
  have bodies: "set (bodies_of (Node c us')) \<subseteq> insert p (set (bodies_of (Node c us)))"
    using inc unfolding inserted_def by (auto dest!: arg_cong[where f = set_mset])
  obtain i0 where i0: "i0 \<in> set (bodies_of (Node c us))"
    using full_bodies[OF fullc] by (meson list.set_sel(1))
  have mid: "cpos st c = nbInitMidpoint (bpos st p) (cpos st q) s"
    using sub_ok_child(1,2)[OF ok kl c i0] k nbInitMidpoint_same_octant by metis
  have "child_ok (bpos st) (cpos st') q s k (Node c us')"
    unfolding child_ok_def
  proof (intro ballI conjI allI impI)
    fix i assume "i \<in> set (bodies_of (Node c us'))"
    then have i: "i = p \<or> i \<in> set (bodies_of (Node c us))" using bodies by auto
    then show "nbSubIndex (bpos st i) (cpos st' q) = k"
      using sub_ok_child(1)[OF ok kl c] k cq by auto
    fix d vs assume "Node c us' = Node d vs"
    then show "cpos st' d = nbInitMidpoint (bpos st i) (cpos st' q) s"
      using i sub_ok_child(2)[OF ok kl c] mid cq by auto
  qed
  moreover have "ogeo (bpos st) (cpos st') (Node q ts) s"
  proof (rule ogeo_cong)
    show "ogeo (bpos st) (cpos st) (Node q ts) s" using ok by (simp add: sub_ok_def)
    show "cpos st a = cpos st' a" if "a \<in> set (cells_of (Node q ts))" for a
      using evolvesD(6)[OF evq(2) that] by (simp add: cpos_def)
  qed simp
  ultimately have geo: "ogeo (bpos st) (cpos st') ?t s"
    using so' bp by (intro ogeo_update) (simp_all add: sub_ok_def)
  have box: "inbox (cpos st q) s (bpos st i)" if "i \<in> set (bodies_of ?t)" for i
  proof -
    have "i = p \<or> i \<in> set (bodies_of (Node q ts))"
      using that bodies by (auto simp: bodies_of_Node[of q] sp c)
    then show ?thesis using ok p by (auto simp: sub_ok_def)
  qed
  have "sub_ok st' q (ts[k := Some (Node c us')]) s F'"
    using evq(1) geo box ok so' ne unfolding sub_ok_def bp cq by (auto simp: sp full_Node)
  moreover have "inserted st p (Node q ts) st' ?t"
    using inc unfolding inserted_def by (auto simp: bodies_of_Node[of q] sp c)
  ultimately show ?thesis using evq(2) by (simp add: ins_ok_def sp(1))
qed

text \<open>Splitting a leaf leaves a tree of the same bodies whose slot holds a cell.\<close>

lemma split_sub_ok:
  fixes st :: "'z tstate_scheme"
  assumes ok: "sub_ok st q ts s F" and k: "k = nbSubIndex (bpos st p) (cpos st q)"
    and b: "ts ! k = Some (Leaf b)" and st': "st' = split_leaf st p q k s (Bd b)"
  obtains c us F' where "sub_ok st' q (ts[k := Some (Node c us)]) s F'"
    "evolves st (Node q ts) F st' (Node q (ts[k := Some (Node c us)])) F'"
    "bodies_of (Node q (ts[k := Some (Node c us)])) = bodies_of (Node q ts)"
    "structureError (tree st') = structureError (tree st)"
proof -
  have h: "heap_ok st (Node q ts) F" using ok by (simp add: sub_ok_def)
  have kn: "k < NSUB" using k nbSubIndex_less by simp
  have kl: "k < List.length ts" using h kn by (simp add: heap_ok_def rep_Node)
  obtain c us F' where
    h': "heap_ok st' (Node q (ts[k := Some (Node c us)])) F'"
    and ev: "evolves st (Node q ts) F st' (Node q (ts[k := Some (Node c us)])) F'"
    and us: "live us = [Leaf b]"
      "us = (replicate NSUB None)[nbSubIndex (b_pos (bodytab st ! b)) (c_pos (cells st' c)) := Some (Leaf b)]"
    and pos: "c_pos (cells st' c) = nbInitMidpoint (b_pos (bodytab st ! p)) (c_pos (cells st q)) s"
    and err: "structureError (tree st') = structureError (tree st)"
    by (rule split_leaf_spec[OF h kn b st']) blast
  obtain as bs where sp: "\<And>x. live (ts[k := x]) = as @ live [x] @ bs" "live ts = as @ live [ts ! k] @ bs"
    by (rule live_cases[OF kl]) blast
  let ?t = "Node q (ts[k := Some (Node c us)])"
  have bp: "bpos st' = bpos st" using pos_kept[OF ev] .
  have cq: "cpos st' q = cpos st q" using evolvesD(6)[OF ev, of q] by (simp add: cpos_def cells_of_Node)
  have bodies: "bodies_of ?t = bodies_of (Node q ts)"
    by (simp add: bodies_of_Node us(1) sp b)
  have kb: "nbSubIndex (bpos st b) (cpos st q) = k"
    using ok b kl by (simp add: sub_ok_def ogeo_Node child_ok_def)
  then have mid: "cpos st' c = nbInitMidpoint (bpos st b) (cpos st q) s"
    using nbInitMidpoint_same_octant k pos unfolding bpos_def cpos_def by metis
  have "ogeo (bpos st) (cpos st') (Node q ts) s"
  proof (rule ogeo_cong)
    show "ogeo (bpos st) (cpos st) (Node q ts) s" using ok by (simp add: sub_ok_def)
    show "cpos st a = cpos st' a" if "a \<in> set (cells_of (Node q ts))" for a
      using evolvesD(6)[OF ev that] by (simp add: cpos_def)
  qed simp
  moreover have "child_ok (bpos st) (cpos st') q s k (Node c us)"
    using kb mid cq by (simp add: child_ok_def bodies_of_Node us(1))
  moreover have "ogeo (bpos st) (cpos st') (Node c us) (s / 2)"
    unfolding ogeo_Node
  proof (intro allI impI)
    fix j u assume j: "j < List.length us" "us ! j = Some u"
    then have "u = Leaf b" using us(1) live_nth[OF j] by simp
    moreover have "j = nbSubIndex (bpos st b) (cpos st' c)"
      using j unfolding us(2) bpos_def cpos_def
      by (metis length_list_update length_replicate nth_list_update_neq nth_replicate option.distinct(1))
    ultimately show "ogeo (bpos st) (cpos st') u (s / 2 / 2) \<and> child_ok (bpos st) (cpos st') c (s / 2) j u"
      by (simp add: child_ok_def)
  qed
  ultimately have geo: "ogeo (bpos st) (cpos st') ?t s" by (intro ogeo_update)
  have "sub_ok st' q (ts[k := Some (Node c us)]) s F'"
    using ok h' geo unfolding sub_ok_def bp cq bodies by (auto simp: sp full_Node us(1))
  then show ?thesis using ev bodies err by (rule that)
qed

lemma ins_ok_trans:
  assumes ok: "sub_ok st q ts s F" and ev: "evolves st (Node q ts) F st1 (Node q ts1) F1"
    and same: "bodies_of (Node q ts1) = bodies_of (Node q ts)"
    "structureError (tree st1) = structureError (tree st)"
    and ins: "ins_ok st1 p q ts1 s F1 st' ts' F'"
  shows "ins_ok st p q ts s F st' ts' F'"
  using ins evolves_trans[OF ev] same pos_kept[OF ev]
  unfolding ins_ok_def inserted_def by auto

lemma load_loop_inserts:
  fixes st :: "'z tstate_scheme"
  assumes "sub_ok st q ts s F" "k = nbSubIndex (bpos st p) (cpos st q)"
    and "inbox (cpos st q) s (bpos st p)"
  shows "\<exists>ts' F'. ins_ok st p q ts s F (load_loop st p q k s lev) ts' F'"
  using assms
proof (induction st p q k s lev arbitrary: ts F rule: load_loop.induct)
  case (1 st p q k s lev)
  note ok = 1(2) and k = 1(3) and box = 1(4)
  have h: "heap_ok st (Node q ts) F" using ok by (simp add: sub_ok_def)
  have len: "List.length ts = NSUB" and stuff: "subps st q = map (map_option ref_of) ts"
    using h by (simp_all add: heap_ok_def rep_Node stuffs_def subps_def)
  have kl: "k < List.length ts" using k nbSubIndex_less len by simp
  have slot: "subps st q ! k = map_option ref_of (ts ! k)" using stuff kl by simp
  show ?case
  proof (cases "ts ! k")
    case None
    then show ?thesis
      using insert_empty[OF ok k None box refl] slot by (subst load_loop.simps) (auto simp: Let_def)
  next
    case (Some u)
    then have u: "u \<in> set (live ts)" using kl by (rule live_nth[rotated])
    show ?thesis
    proof (cases "s \<le> REAL_EPSILON")
      case True
      have "full u" using ok u by (simp add: sub_ok_def)
      then obtain i where "i \<in> set (bodies_of u)" using full_bodies by (meson list.set_sel(1))
      then have i: "i \<in> set (bodies_of (Node q ts))" using u by (auto simp: bodies_of_Node[of q ts])
      then have "too_close (bpos st p) (bpos st i)"
        using inbox_too_close[OF box _ True] ok by (simp add: sub_ok_def)
      moreover have "live ts \<noteq> []" using u by auto
      moreover have "sub_ok (set_structureError st) q ts s F"
        using ok by (simp add: sub_ok_def heap_ok_def set_structureError_def bpos_def[abs_def]
            cpos_def[abs_def] stuffs_def[abs_def])
      ultimately have "ins_ok st p q ts s F (set_structureError st) ts F"
        using i by (auto simp: ins_ok_def inserted_def evolves_def set_structureError_def)
      then show ?thesis using True Some slot by (subst load_loop.simps) auto
    next
      case False
      define st1 where "st1 = (case ref_of u of Bd _ \<Rightarrow> split_leaf st p q k s (ref_of u) | Cl _ \<Rightarrow> st)"
      have "\<exists>c us F1. sub_ok st1 q (ts[k := Some (Node c us)]) s F1
          \<and> evolves st (Node q ts) F st1 (Node q (ts[k := Some (Node c us)])) F1
          \<and> bodies_of (Node q (ts[k := Some (Node c us)])) = bodies_of (Node q ts)
          \<and> structureError (tree st1) = structureError (tree st)"
      proof (cases u)
        case (Leaf b)
        have "st1 = split_leaf st p q k s (Bd b)" by (simp add: st1_def Leaf)
        from split_sub_ok[OF ok k Some[unfolded Leaf] this] show ?thesis by blast
      next
        case (Node c us)
        have "ts[k := Some (Node c us)] = ts" using Some Node by (metis list_update_id)
        then show ?thesis using ok evolves_refl by (intro exI[of _ c] exI[of _ us] exI[of _ F]) (simp add: st1_def Node)
      qed
      then obtain c us F1 where ok1: "sub_ok st1 q (ts[k := Some (Node c us)]) s F1"
          and ev: "evolves st (Node q ts) F st1 (Node q (ts[k := Some (Node c us)])) F1"
          and same: "bodies_of (Node q (ts[k := Some (Node c us)])) = bodies_of (Node q ts)"
          "structureError (tree st1) = structureError (tree st)" by blast
      let ?ts1 = "ts[k := Some (Node c us)]"
      have bp: "bpos st1 = bpos st" using pos_kept[OF ev] .
      have cq: "cpos st1 q = cpos st q" using evolvesD(6)[OF ev, of q] by (simp add: cpos_def cells_of_Node)
      have k1: "?ts1 ! k = Some (Node c us)" and kl1: "k < List.length ?ts1" using kl by simp_all
      have slot1: "subps st1 q ! k = Some (Cl c)"
        using ok1 kl by (simp add: sub_ok_def heap_ok_def rep_Node stuffs_def subps_def)
      have okc: "sub_ok st1 c us (s / 2) F1" using child_sub_ok[OF ok1 kl1 k1] .
      have "full (Node c us)" using ok1 live_nth[OF kl1 k1] by (simp add: sub_ok_def)
      then obtain i where i: "i \<in> set (bodies_of (Node c us))" using full_bodies by (meson list.set_sel(1))
      have mid: "cpos st1 c = nbInitMidpoint (bpos st1 p) (cpos st1 q) s"
        using sub_ok_child(1,2)[OF ok1 kl1 k1 i] k bp cq nbInitMidpoint_same_octant by metis
      have boxc: "inbox (cpos st1 c) (s / 2) (bpos st1 p)"
        using inbox_child[OF box] mid bp cq by simp
      let ?st' = "load_loop st1 p c (nbSubIndex (bpos st1 p) (cpos st1 c)) (s * 0.5) (Suc lev)"
      have half: "s * 0.5 = s / 2" by simp
      have "\<exists>us' F'. ins_ok st1 p c us (s / 2) F1 ?st' us' F'"
        using 1(1)[of "ref_of u" st1 c "nbSubIndex (bpos st1 p) (cpos st1 c)" us F1]
          False Some slot slot1 okc boxc st1_def half by (simp add: bpos_def cpos_def)
      then obtain us' F' where ins: "ins_ok st1 p c us (s / 2) F1 ?st' us' F'" by blast
      have "ins_ok st1 p q ?ts1 s F1 ?st' (?ts1[k := Some (Node c us')]) F'"
        using insert_child[OF ok1 _ k1 _ ins] k box bp cq by simp
      then have "ins_ok st p q ts s F ?st' (?ts1[k := Some (Node c us')]) F'"
        using ins_ok_trans[OF ok ev same] by blast
      moreover have "load_loop st p q k s lev = ?st'"
        using False Some slot slot1 st1_def
        by (subst load_loop.simps) (simp add: Let_def bpos_def cpos_def)
      ultimately show ?thesis by metis
    qed
  qed
qed

end
