(* ===== verification/NBody_TreeBuild.thy ===== *)
theory NBody_TreeBuild
  imports NBody_TreeInv
begin

text \<open>
  The first half of \<open>nbMakeTree\<close>: reclaiming the cells of the last tree, fitting the root box
  around the bodies, and loading them one by one.
\<close>

section \<open>The threaded tree\<close>

text \<open>
  \<open>thr bn cn cm t n\<close>: following \<open>More\<close> into cells and \<open>Next\<close> past nodes walks the tree \<open>t\<close> in
  preorder and stops at \<open>n\<close>; \<open>thrs\<close> is the same for a list of sibling trees. \<open>bn\<close>, \<open>cn\<close>, \<open>cm\<close>
  are the \<open>Next\<close> of bodies, the \<open>Next\<close> and the \<open>More\<close> of cells.
\<close>

definition first :: "otree list \<Rightarrow> node_ref option \<Rightarrow> node_ref option" where
  "first us n = (case us of [] \<Rightarrow> n | u # _ \<Rightarrow> Some (ref_of u))"

lemma first_simps [simp]: "first [] n = n" "first (u # us) n = Some (ref_of u)"
  by (simp_all add: first_def)

inductive thr :: "(nat \<Rightarrow> node_ref option) \<Rightarrow> (nat \<Rightarrow> node_ref option) \<Rightarrow> (nat \<Rightarrow> node_ref option)
    \<Rightarrow> otree \<Rightarrow> node_ref option \<Rightarrow> bool"
  and thrs :: "(nat \<Rightarrow> node_ref option) \<Rightarrow> (nat \<Rightarrow> node_ref option) \<Rightarrow> (nat \<Rightarrow> node_ref option)
    \<Rightarrow> otree list \<Rightarrow> node_ref option \<Rightarrow> bool" for bn cn cm where
  thr_Leaf: "bn i = n \<Longrightarrow> thr bn cn cm (Leaf i) n"
| thr_Node: "cn a = n \<Longrightarrow> live ts \<noteq> [] \<Longrightarrow> cm a = first (live ts) n \<Longrightarrow> thrs bn cn cm (live ts) n
    \<Longrightarrow> thr bn cn cm (Node a ts) n"
| thrs_Nil: "thrs bn cn cm [] n"
| thrs_Cons: "thr bn cn cm u (first us n) \<Longrightarrow> thrs bn cn cm us n \<Longrightarrow> thrs bn cn cm (u # us) n"

inductive_simps thr_Leaf_iff: "thr bn cn cm (Leaf i) n"
inductive_simps thr_Node_iff: "thr bn cn cm (Node a ts) n"
inductive_simps thrs_Cons_iff: "thrs bn cn cm (u # us) n"

definition bnext :: "'z tstate_scheme \<Rightarrow> nat \<Rightarrow> node_ref option" where
  "bnext st i = b_next (bodytab st ! i)"
definition cnext :: "'z tstate_scheme \<Rightarrow> nat \<Rightarrow> node_ref option" where
  "cnext st a = c_next (cells st a)"
definition cmore :: "'z tstate_scheme \<Rightarrow> nat \<Rightarrow> node_ref option" where
  "cmore st a = c_more (cells st a)"

section \<open>Reclaiming cells\<close>

text \<open>What the reclaiming walk keeps.\<close>

definition reclaims :: "'z tstate_scheme \<Rightarrow> nat list \<Rightarrow> 'z tstate_scheme \<Rightarrow> bool" where
  "reclaims st as st' \<longleftrightarrow> bodytab st' = bodytab st \<and> nalloc st' = nalloc st \<and> tree st' = tree st
     \<and> treeIncest st' = treeIncest st \<and> cmore st' = cmore st
     \<and> (\<forall>F. flist (cells st) (freeCell st) F \<longrightarrow> distinct (as @ F)
          \<longrightarrow> flist (cells st') (freeCell st') (rev as @ F))"

lemma reclaims_refl: "reclaims st [] st"
  by (simp add: reclaims_def)

lemma reclaims_trans:
  assumes 1: "reclaims st as st1" and 2: "reclaims st1 bs st2"
  shows "reclaims st (as @ bs) st2"
proof -
  have "flist (cells st2) (freeCell st2) (rev (as @ bs) @ F)"
    if F: "flist (cells st) (freeCell st) F" "distinct ((as @ bs) @ F)" for F
  proof -
    have "distinct (as @ F)" using F(2) by auto
    then have "flist (cells st1) (freeCell st1) (rev as @ F)"
      using 1 F(1) unfolding reclaims_def by blast
    moreover have "distinct (bs @ rev as @ F)" using F(2) by auto
    ultimately have "flist (cells st2) (freeCell st2) (rev bs @ rev as @ F)"
      using 2 unfolding reclaims_def by blast
    then show ?thesis by simp
  qed
  then show ?thesis using 1 2 unfolding reclaims_def by simp
qed

lemma reclaim_walk:
  "thr bn cn cm t n \<Longrightarrow> bn = bnext st \<Longrightarrow> cm = cmore st \<Longrightarrow>
     \<exists>st'. reclaims st (cells_of t) st' \<and> reclaim_cells st (Some (ref_of t)) = reclaim_cells st' n"
  "thrs bn cn cm us n \<Longrightarrow> bn = bnext st \<Longrightarrow> cm = cmore st \<Longrightarrow>
     \<exists>st'. reclaims st (concat (map cells_of us)) st'
       \<and> reclaim_cells st (first us n) = reclaim_cells st' n"
proof (induction arbitrary: st and st rule: thr_thrs.inducts)
  case (thr_Leaf i n)
  then show ?case using reclaims_refl
    by (intro exI[of _ st]) (simp add: reclaim_cells.simps[of st "Some (Bd i)"] bnext_def)
next
  case (thr_Node a n ts)
  define st1 where "st1 = (set_Next st (Cl a) (freeCell st))\<lparr>freeCell := Some (Cl a)\<rparr>"
  have s1: "bnext st1 = bnext st" "cmore st1 = cmore st"
    by (simp_all add: st1_def bnext_def cmore_def fun_eq_iff)
  have r1: "reclaims st [a] st1"
  proof -
    have "flist (cells st1) (freeCell st) F" if "flist (cells st) (freeCell st) F" "a \<notin> set F" for F
    proof -
      have "flist (cells st) (freeCell st) F = flist (cells st1) (freeCell st) F"
        using that(2) by (intro flist_cong) (auto simp: st1_def)
      then show ?thesis using that(1) by simp
    qed
    then show ?thesis by (auto simp: reclaims_def s1) (auto simp: st1_def)
  qed
  obtain st' where "reclaims st1 (concat (map cells_of (live ts))) st'"
    "reclaim_cells st1 (first (live ts) n) = reclaim_cells st' n"
    using thr_Node.IH(4)[of st1] thr_Node.prems s1 by auto
  moreover have "reclaim_cells st (Some (ref_of (Node a ts))) = reclaim_cells st1 (first (live ts) n)"
    using thr_Node.IH(2) thr_Node.prems s1(2)
    by (simp add: reclaim_cells.simps[of st "Some (Cl a)"] st1_def Let_def cmore_def fun_eq_iff)
  ultimately show ?case using reclaims_trans[OF r1] by (auto simp: cells_of_Node)
next
  case (thrs_Nil n)
  then show ?case using reclaims_refl by auto
next
  case (thrs_Cons u us n)
  obtain st1 where 1: "reclaims st (cells_of u) st1"
    "reclaim_cells st (Some (ref_of u)) = reclaim_cells st1 (first us n)"
    using thrs_Cons.IH(2)[of st] thrs_Cons.prems by blast
  then have "bnext st1 = bnext st" "cmore st1 = cmore st"
    by (simp_all add: reclaims_def bnext_def[abs_def])
  then obtain st' where "reclaims st1 (concat (map cells_of us)) st'"
    "reclaim_cells st1 (first us n) = reclaim_cells st' n"
    using thrs_Cons.IH(4)[of st1] thrs_Cons.prems by auto
  then show ?case using 1 reclaims_trans[OF 1(1)] by auto
qed

section \<open>A new tree\<close>

definition free_ok :: "'z tstate_scheme \<Rightarrow> nat list \<Rightarrow> nat list \<Rightarrow> bool" where
  "free_ok st as F \<longleftrightarrow> flist (cells st) (freeCell st) F \<and> distinct (as @ F)
     \<and> (\<forall>a \<in> set (as @ F). a < nalloc st)"

text \<open>
  A state between two constructions: the cells of the threaded tree and the free list are
  disjoint allocated cells.
\<close>

definition settled :: "'z tstate_scheme \<Rightarrow> bool" where
  "settled st \<longleftrightarrow> (case root (tree st) of
      None \<Rightarrow> \<exists>F. free_ok st [] F
    | Some a \<Rightarrow> \<exists>ts F. thr (bnext st) (cnext st) (cmore st) (Node a ts) None
        \<and> free_ok st (cells_of (Node a ts)) F)"

lemma settled_reclaim:
  assumes "settled st"
  obtains st1 F where "reclaim_cells st (map_option Cl (root (tree st))) = Some st1"
    "free_ok st1 [] F" "bodytab st1 = bodytab st" "tree st1 = tree st" "treeIncest st1 = treeIncest st"
proof (cases "root (tree st)")
  case None
  then show ?thesis using assms that[of st] by (auto simp: settled_def reclaim_cells.simps)
next
  case (Some a)
  then obtain ts F where t: "thr (bnext st) (cnext st) (cmore st) (Node a ts) None"
    and F: "free_ok st (cells_of (Node a ts)) F" using assms by (auto simp: settled_def)
  obtain st1 where r: "reclaims st (cells_of (Node a ts)) st1"
    and eq: "reclaim_cells st (Some (Cl a)) = reclaim_cells st1 None"
    using reclaim_walk(1)[OF t] by auto
  have "free_ok st1 [] (rev (cells_of (Node a ts)) @ F)"
    using r F unfolding reclaims_def free_ok_def by auto
  moreover have "reclaim_cells st1 None = Some st1" by (simp add: reclaim_cells.simps)
  ultimately show ?thesis using that[of st1] eq Some r by (simp add: reclaims_def)
qed

lemma nbNewTree_spec:
  fixes st :: "'z tstate_scheme"
  assumes "settled st"
  obtains st' c F where "nbNewTree st = Some st'" "root (tree st') = Some c"
    "\<And>s. sub_ok st' c (replicate NSUB None) s F" "cpos st' c = ZERO_VECTOR"
    "bodytab st' = bodytab st" "treeIncest st' = treeIncest st"
    "rsize (tree st') = rsize (tree st)"
    "structureError (tree st') = structureError (tree st)"
proof -
  obtain st1 F where 1: "reclaim_cells st (map_option Cl (root (tree st))) = Some st1"
    "free_ok st1 [] F" "bodytab st1 = bodytab st" "tree st1 = tree st" "treeIncest st1 = treeIncest st"
    by (rule settled_reclaim[OF assms]) blast
  define st2 where "st2 = st1\<lparr>tree := (tree st1)\<lparr>cellUsed := 0, maxDepth := 0\<rparr>\<rparr>"
  have h2: "heap_ok st2 (Leaf 0) F"
    using 1(2) by (simp add: free_ok_def heap_ok_def st2_def)
  obtain c st3 where m: "nbMakeCell st2 = (c, st3)" by fastforce
  obtain F' where F': "flist (cells st3) (freeCell st3) F'" "distinct F'" "set F' \<subseteq> set F"
    "c \<notin> set F'" "c < nalloc st3" "nalloc st2 \<le> nalloc st3" "bodytab st3 = bodytab st2"
    "treeIncest st3 = treeIncest st2" "rsize (tree st3) = rsize (tree st2)"
    "structureError (tree st3) = structureError (tree st2)"
    "c_stuff (cells st3 c) = Subp (replicate NSUB None)"
    using nbMakeCell_spec[OF h2 m] by metis
  define st4 where "st4 = upd_cell c (\<lambda>cl. cl\<lparr>c_pos := ZERO_VECTOR\<rparr>) (st3\<lparr>tree := (tree st3)\<lparr>root := Some c\<rparr>\<rparr>)"
  have new: "nbNewTree st = Some st4"
    using 1(1) m by (simp add: nbNewTree_def st4_def st2_def Let_def)
  have "flist (cells st4) (freeCell st4) F'"
  proof -
    have "flist (cells st3) (freeCell st3) F' = flist (cells st4) (freeCell st3) F'"
      using F'(4) by (intro flist_cong) (auto simp: st4_def)
    then show ?thesis using F'(1) by (simp add: st4_def)
  qed
  moreover have "\<forall>a \<in> set F'. a < nalloc st4"
  proof
    fix a assume "a \<in> set F'"
    then have "a < nalloc st2" using h2 F'(3) by (auto simp: heap_ok_def)
    then show "a < nalloc st4" using F'(6) by (simp add: st4_def)
  qed
  ultimately have "heap_ok st4 (Node c (replicate NSUB None)) F'"
    using F' by (simp add: heap_ok_def rep_Node cells_of_Node st4_def stuffs_def)
  then have sub: "sub_ok st4 c (replicate NSUB None) s F'" for s
    by (simp add: sub_ok_def ogeo_Node bodies_of_Node)
  show ?thesis
    by (rule that[OF new _ sub]) (use F' 1 in \<open>simp_all add: st4_def st2_def cpos_def\<close>)
qed

section \<open>The root box\<close>

lemma box_extent_fold:
  "m \<le> fold (\<lambda>p m. mw_fmax (mw_fmax (mw_fmax m \<bar>X (b_pos p) - X c\<bar>) \<bar>Y (b_pos p) - Y c\<bar>)
                        \<bar>Z (b_pos p) - Z c\<bar>) bs m \<and>
   (\<forall>b \<in> set bs. inbox c (2 * fold (\<lambda>p m. mw_fmax (mw_fmax (mw_fmax m \<bar>X (b_pos p) - X c\<bar>)
                        \<bar>Y (b_pos p) - Y c\<bar>) \<bar>Z (b_pos p) - Z c\<bar>) bs m) (b_pos b))"
proof (induction bs arbitrary: m)
  case (Cons b bs)
  let ?m = "mw_fmax (mw_fmax (mw_fmax m \<bar>X (b_pos b) - X c\<bar>) \<bar>Y (b_pos b) - Y c\<bar>) \<bar>Z (b_pos b) - Z c\<bar>"
  show ?case using Cons.IH[of ?m] by (auto simp: mw_fmax_max inbox_def)
qed simp

lemma box_extent_inbox: "b \<in> set bs \<Longrightarrow> 2 * box_extent c bs \<le> s \<Longrightarrow> inbox c s (b_pos b)"
  using box_extent_fold[of 0 c bs] by (fastforce simp: box_extent_def inbox_def)

lemma grow_box_steps: "2 * x \<le> rs * 2 ^ n \<Longrightarrow> 0 < rs \<Longrightarrow>
    \<exists>rs'. grow_box rs x = Some rs' \<and> rs \<le> rs' \<and> 2 * x \<le> rs'"
proof (induction n arbitrary: rs)
  case 0
  then show ?case by (simp add: grow_box.simps)
next
  case (Suc n)
  show ?case
  proof (cases "rs < 2 * x")
    case True
    have "2 * x \<le> (rs * 2) * 2 ^ n" using Suc.prems by (simp add: mult.assoc)
    then obtain rs' where "grow_box (rs * 2) x = Some rs'" "rs * 2 \<le> rs'" "2 * x \<le> rs'"
      using Suc.IH[of "rs * 2"] Suc.prems by auto
    then show ?thesis using True Suc.prems by (auto simp: grow_box.simps[of rs])
  qed (simp add: grow_box.simps)
qed

lemma expandBox_spec:
  assumes "0 < rsize (tree st)" "root (tree st) = Some c"
  obtains rs where "expandBox st = Some (st\<lparr>tree := (tree st)\<lparr>rsize := rs\<rparr>\<rparr>)"
    "rsize (tree st) \<le> rs" "\<And>b. b \<in> set (bodytab st) \<Longrightarrow> inbox (cpos st c) rs (b_pos b)"
proof -
  let ?x = "box_extent (c_pos (cells st c)) (bodytab st)"
  obtain n where "2 * ?x / rsize (tree st) < 2 ^ n" using real_arch_pow[of 2] by fastforce
  then have "2 * ?x \<le> rsize (tree st) * 2 ^ n"
    using assms(1) by (simp add: divide_less_eq mult.commute)
  then obtain rs where "grow_box (rsize (tree st)) ?x = Some rs" "rsize (tree st) \<le> rs" "2 * ?x \<le> rs"
    using grow_box_steps assms(1) by blast
  then show ?thesis
    using that[of rs] box_extent_inbox[of _ "bodytab st" "c_pos (cells st c)" rs] assms(2)
    by (simp add: expandBox_def cpos_def)
qed

section \<open>Loading the bodies\<close>

text \<open>The tree of a root cell \<open>c\<close> of the tree's size holds exactly the bodies \<open>B\<close>.\<close>

definition tree_ok :: "'z tstate_scheme \<Rightarrow> nat \<Rightarrow> otree option list \<Rightarrow> nat list \<Rightarrow> nat multiset \<Rightarrow> bool" where
  "tree_ok st c ts F B \<longleftrightarrow> root (tree st) = Some c \<and> sub_ok st c ts (rsize (tree st)) F
     \<and> mset (bodies_of (Node c ts)) = B"

lemma nbLoadBody_inserts:
  assumes ok: "tree_ok st c ts F B" and p: "inbox (cpos st c) (rsize (tree st)) (bpos st p)"
    and st': "st' = nbLoadBody st p"
  obtains ts' F' where "tree_ok st' c ts' F' (add_mset p B)" "live ts' \<noteq> []"
      "structureError (tree st') = structureError (tree st)"
      "bodytab st' = bodytab st" "cpos st' c = cpos st c" "rsize (tree st') = rsize (tree st)"
      "treeIncest st' = treeIncest st"
  | i ts' F' where "tree_ok st' c ts' F' B" "live ts' \<noteq> []" "structureError (tree st')" "i \<in># B"
      "too_close (bpos st p) (bpos st i)"
      "bodytab st' = bodytab st" "cpos st' c = cpos st c" "rsize (tree st') = rsize (tree st)"
      "treeIncest st' = treeIncest st"
proof -
  have so: "sub_ok st c ts (rsize (tree st)) F" and r: "root (tree st) = Some c"
    and B: "mset (bodies_of (Node c ts)) = B" using ok by (auto simp: tree_ok_def)
  have "st' = load_loop st p c (nbSubIndex (bpos st p) (cpos st c)) (rsize (tree st)) 0"
    by (simp add: st' nbLoadBody_def r bpos_def cpos_def)
  then obtain ts' F' where ins: "ins_ok st p c ts (rsize (tree st)) F st' ts' F'"
    using load_loop_inserts[OF so refl p] by blast
  then have ev: "evolves st (Node c ts) F st' (Node c ts') F'"
    and so': "sub_ok st' c ts' (rsize (tree st)) F'" "live ts' \<noteq> []"
    and inc: "inserted st p (Node c ts) st' (Node c ts')" by (simp_all add: ins_ok_def)
  note e = evolvesD[OF ev]
  have cc: "cpos st' c = cpos st c" using e(6)[of c] by (simp add: cpos_def cells_of_Node)
  from inc show ?thesis
    unfolding inserted_def
  proof (elim disjE conjE bexE)
    assume "mset (bodies_of (Node c ts')) = add_mset p (mset (bodies_of (Node c ts)))"
      "structureError (tree st') = structureError (tree st)"
    then show ?thesis using that(1)[of ts' F'] so' e(8-11) cc r B by (simp add: tree_ok_def)
  next
    fix i assume "mset (bodies_of (Node c ts')) = mset (bodies_of (Node c ts))"
      "structureError (tree st')" "i \<in> set (bodies_of (Node c ts))" "too_close (bpos st p) (bpos st i)"
    then show ?thesis using that(2)[of ts' F' i] so' e(8-11) cc r B
      by (simp add: tree_ok_def flip: set_mset_mset)
  qed
qed

text \<open>Bodies that the tree cannot hold apart.\<close>

definition clash :: "'z tstate_scheme \<Rightarrow> bool" where
  "clash st \<longleftrightarrow> (\<exists>i < List.length (bodytab st). \<exists>j < List.length (bodytab st). i \<noteq> j
     \<and> b_mass (bodytab st ! i) \<noteq> 0 \<and> b_mass (bodytab st ! j) \<noteq> 0
     \<and> too_close (bpos st i) (bpos st j))"

definition massive :: "'z tstate_scheme \<Rightarrow> nat list \<Rightarrow> nat list" where
  "massive st is = filter (\<lambda>i. b_mass (bodytab st ! i) \<noteq> 0) is"

lemma load_bodies_Cons: "load_bodies st (i # is) =
    load_bodies (if b_mass (bodytab st ! i) \<noteq> 0 then nbLoadBody st i else st) is"
  by (simp add: load_bodies_def)

lemma load_bodies_spec:
  assumes "tree_ok st c ts F B" "distinct is" "set_mset B \<inter> set is = {}"
    and "\<forall>i \<in> set is. i < List.length (bodytab st)"
    and "\<forall>i \<in># B. i < List.length (bodytab st) \<and> b_mass (bodytab st ! i) \<noteq> 0"
    and "\<forall>i < List.length (bodytab st). inbox (cpos st c) (rsize (tree st)) (bpos st i)"
  shows "\<exists>ts' F'. let st' = load_bodies st is in bodytab st' = bodytab st
      \<and> rsize (tree st') = rsize (tree st) \<and> treeIncest st' = treeIncest st \<and> cpos st' c = cpos st c
      \<and> (tree_ok st' c ts' F' (B + mset (massive st is)) \<and> structureError (tree st') = structureError (tree st)
         \<or> structureError (tree st') \<and> clash st)"
  using assms
proof (induction "is" arbitrary: st ts F B)
  case Nil
  then show ?case by (auto simp: load_bodies_def massive_def Let_def)
next
  case (Cons p "is")
  show ?case
  proof (cases "b_mass (bodytab st ! p) = 0")
    case True
    then show ?thesis
      using Cons.IH[OF Cons.prems(1)] Cons.prems by (simp add: load_bodies_Cons massive_def)
  next
    case False
    define st1 where "st1 = nbLoadBody st p"
    have eq: "load_bodies st (p # is) = load_bodies st1 is"
      using False by (simp add: load_bodies_Cons st1_def)
    have box: "inbox (cpos st c) (rsize (tree st)) (bpos st p)" using Cons.prems by simp
    have keep: "b = bodytab st \<Longrightarrow> bodytab s1 = b \<Longrightarrow> massive s1 js = massive st js \<and> clash s1 = clash st
        \<and> bpos s1 = bpos st" for b s1 js
      by (simp add: massive_def clash_def bpos_def fun_eq_iff)
    show ?thesis
    proof (rule nbLoadBody_inserts[OF Cons.prems(1) box st1_def])
      fix ts' F' assume 1: "tree_ok st1 c ts' F' (add_mset p B)"
        "structureError (tree st1) = structureError (tree st)" "bodytab st1 = bodytab st"
        "cpos st1 c = cpos st c" "rsize (tree st1) = rsize (tree st)" "treeIncest st1 = treeIncest st"
      then show ?thesis
        using Cons.IH[OF 1(1)] Cons.prems False keep[OF refl 1(3)] unfolding eq
        by (auto simp: massive_def)
    next
      fix i ts' F' assume 1: "tree_ok st1 c ts' F' B" "structureError (tree st1)" "i \<in># B"
        "too_close (bpos st p) (bpos st i)" "bodytab st1 = bodytab st"
        "cpos st1 c = cpos st c" "rsize (tree st1) = rsize (tree st)" "treeIncest st1 = treeIncest st"
      have "clash st" using 1(3,4) Cons.prems(3,4,5) False unfolding clash_def
        by (intro exI[of _ p] exI[of _ i]) auto
      then show ?thesis
        using Cons.IH[OF 1(1)] Cons.prems 1 keep[OF refl 1(5)] unfolding eq
        by (auto simp: massive_def Let_def)
    qed
  qed
qed

end
