(* ===== verification/NBody_TreeMass.thy ===== *)
theory NBody_TreeMass
  imports NBody_TreeBuild
begin

text \<open>
  \<open>hackCofM\<close> on the representation of an octree: it returns, leaves the structure alone, raises
  no structure error, and gives every cell the total mass, the centre of mass and the critical
  radius of the bodies below it.
\<close>

definition bmass :: "'z tstate_scheme \<Rightarrow> nat \<Rightarrow> real" where
  "bmass st i = b_mass (bodytab st ! i)"

definition tmass :: "(nat \<Rightarrow> real) \<Rightarrow> otree \<Rightarrow> real" where
  "tmass bm t = sum_list (map bm (bodies_of t))"

text \<open>The sum of the positions weighted with the masses.\<close>

definition wsum :: "(nat \<Rightarrow> real) \<Rightarrow> (nat \<Rightarrow> mwvector) \<Rightarrow> nat list \<Rightarrow> mwvector" where
  "wsum bm bp is = \<lparr>X = \<Sum>i\<leftarrow>is. bm i * X (bp i), Y = \<Sum>i\<leftarrow>is. bm i * Y (bp i), Z = \<Sum>i\<leftarrow>is. bm i * Z (bp i)\<rparr>"

definition tcom :: "(nat \<Rightarrow> real) \<Rightarrow> (nat \<Rightarrow> mwvector) \<Rightarrow> otree \<Rightarrow> mwvector" where
  "tcom bm bp t = mw_divvs (wsum bm bp (bodies_of t)) (tmass bm t)"

fun nodes_of :: "otree \<Rightarrow> (nat \<times> otree option list) list" where
  "nodes_of (Leaf i) = []"
| "nodes_of (Node a ts) =
     (a, ts) # concat (map (\<lambda>o'. case o' of None \<Rightarrow> [] | Some t \<Rightarrow> nodes_of t) ts)"

lemma nodes_of_Node: "nodes_of (Node a ts) = (a, ts) # concat (map nodes_of (live ts))"
  by (simp add: concat_live)

declare nodes_of.simps(2) [simp del]

lemma nodes_of_cells: "map fst (nodes_of t) = cells_of t"
proof (induction t rule: otree_live_induct)
  case (Node a ts)
  then show ?case by (simp add: nodes_of_Node cells_of_Node map_concat comp_def cong: map_cong)
qed simp

text \<open>A finished cell: its mass, its centre of mass, and a radius of the criterion (of which centre and size,
  says \<open>framed\<close> below).\<close>

definition node_ok :: "real NBodyCtx \<Rightarrow> 'z tstate_scheme \<Rightarrow> (nat \<times> otree option list) \<Rightarrow> bool" where
  "node_ok ctx st n = (case n of (a, ts) \<Rightarrow>
     c_mass (cells st a) = tmass (bmass st) (Node a ts)
     \<and> c_pos (cells st a) = tcom (bmass st) (bpos st) (Node a ts)
     \<and> (\<exists>p s. findRCrit ctx p (rsize (tree st)) (c_pos (cells st a)) s = Some (c_rcrit2 (cells st a))))"

text \<open>What \<open>hackCofM\<close> may change: mass, position and critical radius of the cells \<open>A\<close>.\<close>

definition cofm_frame :: "'z tstate_scheme \<Rightarrow> nat set \<Rightarrow> 'z tstate_scheme \<Rightarrow> bool" where
  "cofm_frame st A st' \<longleftrightarrow> bodytab st' = bodytab st \<and> nalloc st' = nalloc st \<and> tree st' = tree st
     \<and> freeCell st' = freeCell st \<and> treeIncest st' = treeIncest st
     \<and> stuffs st' = stuffs st \<and> cnext st' = cnext st \<and> cmore st' = cmore st
     \<and> (\<forall>a. a \<notin> A \<longrightarrow> cells st' a = cells st a)"

lemma cofm_frame_refl: "cofm_frame st A st"
  by (simp add: cofm_frame_def)

lemma cofm_frame_trans:
  assumes 1: "cofm_frame st A st1" and 2: "cofm_frame st1 B st2" and sub: "A \<subseteq> C" "B \<subseteq> C"
  shows "cofm_frame st C st2"
proof -
  have "cells st2 a = cells st a" if "a \<notin> C" for a
    using 1 2 sub that unfolding cofm_frame_def by (metis subsetD)
  then show ?thesis using 1 2 by (simp add: cofm_frame_def)
qed

lemma node_ok_cong:
  "bodytab st' = bodytab st \<Longrightarrow> cells st' a = cells st a \<Longrightarrow> rsize (tree st') = rsize (tree st)
   \<Longrightarrow> node_ok ctx st' (a, ts) = node_ok ctx st (a, ts)"
  by (simp add: node_ok_def bmass_def[abs_def] bpos_def[abs_def])

text \<open>
  The geometry of the finished cells, whose centres have given way to centres of mass: \<open>framed ctx st t c s\<close>
  says that \<open>t\<close> is a cell with the geometric centre \<open>c\<close> and the size \<open>s\<close>. All its bodies lie in this cube,
  its critical radius is that of the criterion for exactly this centre and size, and the \<open>k\<close>th sub-node has
  the bodies of the \<open>k\<close>th octant, whose centre and size are \<open>octant c s k\<close> and half of \<open>s\<close>.
\<close>

definition octant :: "mwvector \<Rightarrow> real \<Rightarrow> nat \<Rightarrow> mwvector" where
  "octant c s k = \<lparr>X = X c + (if k div 4 mod 2 = 1 then s / 4 else - (s / 4)),
     Y = Y c + (if k div 2 mod 2 = 1 then s / 4 else - (s / 4)),
     Z = Z c + (if k mod 2 = 1 then s / 4 else - (s / 4))\<rparr>"

lemma nbInitMidpoint_octant: "nbInitMidpoint p q s = octant q s (nbSubIndex p q)"
  by (simp add: nbInitMidpoint_def octant_def calcOffset_def nbSubIndex_def NSUB_def Let_def not_less)

inductive framed :: "real NBodyCtx \<Rightarrow> 'z tstate_scheme \<Rightarrow> otree \<Rightarrow> mwvector \<Rightarrow> real \<Rightarrow> bool" for ctx st where
  Leaf: "framed ctx st (Leaf i) c s"
| Node: "findRCrit ctx c (rsize (tree st)) (c_pos (cells st a)) s = Some (c_rcrit2 (cells st a)) \<Longrightarrow>
         \<forall>i \<in> set (bodies_of (Node a ts)). inbox c s (bpos st i) \<Longrightarrow>
         (\<And>k t. k < List.length ts \<Longrightarrow> ts ! k = Some t \<Longrightarrow>
            framed ctx st t (octant c s k) (s / 2) \<and> (\<forall>i \<in> set (bodies_of t). nbSubIndex (bpos st i) c = k)) \<Longrightarrow>
         framed ctx st (Node a ts) c s"

inductive_simps framed_Leaf [simp]: "framed ctx st (Leaf i) c s"
inductive_simps framed_Node: "framed ctx st (Node a ts) c s"

lemma framed_cong:
  "(\<And>a. a \<in> set (cells_of t) \<Longrightarrow> c_pos (cells st' a) = c_pos (cells st a) \<and> c_rcrit2 (cells st' a) = c_rcrit2 (cells st a))
   \<Longrightarrow> rsize (tree st') = rsize (tree st) \<Longrightarrow> bpos st' = bpos st \<Longrightarrow> framed ctx st t c s \<Longrightarrow> framed ctx st' t c s"
proof (induction t arbitrary: c s rule: otree_live_induct)
  case (Node a ts)
  show ?case unfolding framed_Node
  proof (intro conjI allI impI)
    fix k t assume k: "k < List.length ts" "ts ! k = Some t"
    have t: "t \<in> set (live ts)" using k by (rule live_nth)
    show "framed ctx st' t (octant c s k) (s / 2)" "\<forall>i \<in> set (bodies_of t). nbSubIndex (bpos st' i) c = k"
      using Node.IH[OF t] Node.prems k cells_of_childD[OF t] by (auto simp: framed_Node)
  qed (use Node.prems in \<open>auto simp: framed_Node cells_of_Node\<close>)
qed simp

text \<open>The geometric centre, before \<open>hackCofM\<close>.\<close>

fun gcentre :: "'z tstate_scheme \<Rightarrow> otree \<Rightarrow> mwvector" where
  "gcentre st (Node a ts) = cpos st a"
| "gcentre st (Leaf i) = bpos st i"

lemma height_child: "u \<in> set (live ts) \<Longrightarrow> height u < height (Node a ts)"
proof -
  have f: "m \<le> fold max xs m \<and> (\<forall>x \<in> set xs. x \<le> fold max xs m)" for xs :: "nat list" and m
    by (simp flip: Max.set_eq_fold)
  assume "u \<in> set (live ts)"
  then have "height u \<in> set (map (\<lambda>o'. case o' of None \<Rightarrow> 0 | Some t \<Rightarrow> height t) ts)"
    by (force simp: set_live)
  then show ?thesis using f[of 0] by (simp add: less_Suc_eq_le)
qed

lemma sum_list_length_le: "x \<in> set xs \<Longrightarrow> x \<le> sum_list (xs :: nat list)"
  by (induction xs) auto

lemma height_cells: "height t \<le> List.length (cells_of t)"
proof (induction t rule: otree_live_induct)
  case (Node a ts)
  have "x \<le> m \<Longrightarrow> (\<forall>x \<in> set xs. x \<le> m) \<Longrightarrow> fold max xs x \<le> m" for x m :: nat and xs
    by (simp flip: Max.set_eq_fold)
  moreover have "\<forall>x \<in> set (map (\<lambda>o'. case o' of None \<Rightarrow> 0 | Some t \<Rightarrow> height t) ts).
      x \<le> List.length (concat (map cells_of (live ts)))"
  proof
    fix x assume "x \<in> set (map (\<lambda>o'. case o' of None \<Rightarrow> 0 | Some t \<Rightarrow> height t) ts)"
    then have "x = 0 \<or> (\<exists>t \<in> set (live ts). x = height t)"
      by (force simp: set_live split: option.splits)
    moreover have "List.length (cells_of t) \<le> List.length (concat (map cells_of (live ts)))"
      if "t \<in> set (live ts)" for t
      using that sum_list_length_le[of "List.length (cells_of t)" "map (List.length \<circ> cells_of) (live ts)"]
      by (auto simp: length_concat comp_def)
    ultimately show "x \<le> List.length (concat (map cells_of (live ts)))"
      using Node.IH by (metis le0 order_trans)
  qed
  ultimately show ?case by (simp add: cells_of_Node)
qed simp

section \<open>Centres of mass\<close>

lemma wsum_append: "wsum bm bp (is @ js) = mw_addv (wsum bm bp is) (wsum bm bp js)"
  by (simp add: wsum_def mw_addv_def)

lemma wsum_tcom:
  assumes "\<forall>i \<in> set (bodies_of t). 0 < bm i" "bodies_of t \<noteq> []"
  shows "0 < tmass bm t" and "mw_mulvs (tcom bm bp t) (tmass bm t) = wsum bm bp (bodies_of t)"
proof -
  show "0 < tmass bm t"
    using assms by (simp add: tmass_def sum_list_map_pos)
  then show "mw_mulvs (tcom bm bp t) (tmass bm t) = wsum bm bp (bodies_of t)"
    by (simp add: tcom_def vec_defs wsum_def)
qed

lemma mean_in_interval:
  assumes "\<forall>i \<in> set is. 0 < bm i \<and> \<bar>x i - c\<bar> \<le> h" "is \<noteq> []"
  shows "\<bar>(\<Sum>i\<leftarrow>is. bm i * x i) / sum_list (map bm is) - c\<bar> \<le> (h::real)"
proof -
  let ?xs = "map (\<lambda>i. (bm i, x i)) is"
  have s: "map fst ?xs = map bm is" by (simp add: comp_def)
  have "0 < sum_list (map bm is)"
    using assms by (simp add: sum_list_map_pos)
  then have A: "c - h \<le> (\<Sum>(m, x)\<leftarrow>?xs. m * x) / sum_list (map fst ?xs)
      \<and> (\<Sum>(m, x)\<leftarrow>?xs. m * x) / sum_list (map fst ?xs) \<le> c + h"
    using assms unfolding s[symmetric] by (intro weighted_mean_bounds) (auto simp: abs_le_iff)
  have B: "(\<Sum>(m, x)\<leftarrow>?xs. m * x) = (\<Sum>i\<leftarrow>is. bm i * x i)" by (simp add: comp_def)
  show ?thesis using A unfolding s B abs_le_iff by (intro conjI) linarith+
qed

text \<open>The centre of mass of bodies in a box lies in the box.\<close>

lemma tcom_inbox:
  assumes "\<forall>i \<in> set (bodies_of t). 0 < bm i \<and> inbox c s (bp i)" "bodies_of t \<noteq> []"
  shows "inbox c s (tcom bm bp t)"
  using mean_in_interval[of "bodies_of t" bm "\<lambda>i. X (bp i)" "X c" "s / 2"]
    mean_in_interval[of "bodies_of t" bm "\<lambda>i. Y (bp i)" "Y c" "s / 2"]
    mean_in_interval[of "bodies_of t" bm "\<lambda>i. Z (bp i)" "Z c" "s / 2"] assms
  by (simp add: inbox_def tcom_def mw_divvs_def wsum_def tmass_def)

lemma nbCheckTreeDim_inbox: "\<bar>m - c\<bar> \<le> s / 2 \<Longrightarrow> nbCheckTreeDim st c m (0.5 * s) = st"
  by (auto simp: nbCheckTreeDim_def abs_if split: if_splits)

lemma nbCheckTreeStructure_inbox: "inbox c s m \<Longrightarrow> nbCheckTreeStructure st c m s = st"
  unfolding nbCheckTreeStructure_def inbox_def Let_def by (simp only: nbCheckTreeDim_inbox)

section \<open>The recursion\<close>

text \<open>A criterion with a critical radius.\<close>

definition crit_ok :: "real NBodyCtx \<Rightarrow> bool" where
  "crit_ok ctx \<longleftrightarrow> theta ctx = 0 \<or> criterion ctx \<in> {TreeCode, SW93, BH86}"

lemma findRCrit_Some: "crit_ok ctx \<Longrightarrow> \<exists>r. findRCrit ctx p rs m s = Some r"
  by (cases "criterion ctx") (auto simp: crit_ok_def findRCrit_def Let_def)

definition cofm_pre :: "'z tstate_scheme \<Rightarrow> otree \<Rightarrow> real \<Rightarrow> bool" where
  "cofm_pre st t s \<longleftrightarrow> rep (stuffs st) t \<and> distinct (cells_of t) \<and> full t
     \<and> ogeo (bpos st) (cpos st) t s \<and> (\<forall>i \<in> set (bodies_of t). 0 < bmass st i)
     \<and> (\<forall>a ts. t = Node a ts \<longrightarrow> (\<forall>i \<in> set (bodies_of t). inbox (cpos st a) s (bpos st i)))"

definition cofm_done :: "nat \<Rightarrow> real NBodyCtx \<Rightarrow> 'z tstate_scheme \<Rightarrow> otree \<Rightarrow> real \<Rightarrow> 'z tstate_scheme \<Rightarrow> bool" where
  "cofm_done n ctx st t s st' \<longleftrightarrow>
     (case ref_of t of Cl a \<Rightarrow> hackCofM n ctx st a s | Bd _ \<Rightarrow> Some st) = Some st'
     \<and> cofm_frame st (set (cells_of t)) st' \<and> (\<forall>v \<in> set (nodes_of t). node_ok ctx st' v)
     \<and> framed ctx st' t (gcentre st t) s"

lemma gcentre_frame:
  assumes "cofm_frame st A st'" "A \<inter> set (cells_of u) = {}"
  shows "gcentre st' u = gcentre st u"
proof (cases u)
  case (Node a ts)
  then have "a \<notin> A" using assms(2) by (auto simp: cells_of_Node)
  then show ?thesis using assms(1) by (simp add: Node cofm_frame_def cpos_def)
qed (use assms(1) in \<open>simp add: cofm_frame_def bpos_def\<close>)

lemma cofm_pre_frame:
  assumes "cofm_pre st u s" "cofm_frame st A st'" "A \<inter> set (cells_of u) = {}"
  shows "cofm_pre st' u s"
proof -
  have same: "bpos st' = bpos st" "bmass st' = bmass st" "stuffs st' = stuffs st"
    using assms(2) by (simp_all add: cofm_frame_def bpos_def[abs_def] bmass_def[abs_def])
  have c: "cpos st' a = cpos st a" if "a \<in> set (cells_of u)" for a
    using assms(2,3) that unfolding cofm_frame_def cpos_def by (metis disjoint_iff)
  have "ogeo (bpos st) (cpos st') u s"
    using assms(1) c by (intro ogeo_cong[of u "cpos st" "cpos st'" "bpos st" "bpos st" s]) (simp_all add: cofm_pre_def)
  then show ?thesis using assms(1) c unfolding cofm_pre_def same by (auto simp: cells_of_Node)
qed

text \<open>After a sub-node is finished, its mass and position are the sums of its bodies.\<close>

lemma cofm_done_values:
  assumes "cofm_done n ctx st u s st'" "cofm_pre st u s0"
  shows "Mass st' (ref_of u) = tmass (bmass st) u"
    and "mw_mulvs (Pos st' (ref_of u)) (Mass st' (ref_of u)) = wsum (bmass st) (bpos st) (bodies_of u)"
proof -
  have f: "bodytab st' = bodytab st" using assms(1) by (simp add: cofm_done_def cofm_frame_def)
  have "Mass st' (ref_of u) = tmass (bmass st) u \<and> mw_mulvs (Pos st' (ref_of u)) (Mass st' (ref_of u))
      = wsum (bmass st) (bpos st) (bodies_of u)"
  proof (cases u)
    case (Leaf i)
    then show ?thesis
      by (simp add: tmass_def wsum_def bmass_def bpos_def f mw_mulvs_def mult.commute)
  next
    case (Node a ts)
    have "node_ok ctx st' (a, ts)" using assms(1) by (simp add: Node cofm_done_def nodes_of_Node)
    moreover have "bmass st' = bmass st" "bpos st' = bpos st" by (simp_all add: bmass_def bpos_def f fun_eq_iff)
    moreover have "bodies_of u \<noteq> []" using assms(2) by (intro full_bodies) (simp add: cofm_pre_def)
    ultimately show ?thesis
      using wsum_tcom(2)[of u "bmass st" "bpos st"] assms(2) by (simp add: Node node_ok_def cofm_pre_def)
  qed
  then show "Mass st' (ref_of u) = tmass (bmass st) u"
    "mw_mulvs (Pos st' (ref_of u)) (Mass st' (ref_of u)) = wsum (bmass st) (bpos st) (bodies_of u)"
    by blast+
qed

text \<open>
  The loop over the sub-cells \<open>is\<close> of \<open>p\<close>, when the recursion works for every sub-cell: mass and
  weighted position accumulate the bodies below the sub-cells.
\<close>

definition kids :: "otree option list \<Rightarrow> nat list \<Rightarrow> otree list" where
  "kids ts is = live (map (\<lambda>i. ts ! i) is)"

lemma kids_simps [simp]: "kids ts [] = []"
  "ts ! i = None \<Longrightarrow> kids ts (i # is) = kids ts is"
  "ts ! i = Some u \<Longrightarrow> kids ts (i # is) = u # kids ts is"
  by (simp_all add: kids_def)

lemma kids_all: "List.length ts = n \<Longrightarrow> kids ts [0..<n] = live ts"
  using map_nth[of ts] by (simp add: kids_def)

definition mass_plus :: "nat \<Rightarrow> real \<Rightarrow> 'z tstate_scheme \<Rightarrow> 'z tstate_scheme" where
  "mass_plus p m st = upd_cell p (c_mass_update (\<lambda>x. x + m)) st"

lemma mass_plus_frame: "p \<in> A \<Longrightarrow> cofm_frame st A (mass_plus p m st)"
  by (simp add: cofm_frame_def mass_plus_def stuffs_def cnext_def cmore_def fun_eq_iff)

lemma mass_plus_fields [simp]: "cpos (mass_plus p m st) = cpos st"
  "c_mass (cells (mass_plus p m st) p) = c_mass (cells st p) + m"
  by (simp_all add: mass_plus_def cpos_def fun_eq_iff)

lemma cofm_loop_spec:
  fixes st :: "'z tstate_scheme"
  assumes "stuffs st p = Subp (map (map_option ref_of) ts)" "List.length ts = NSUB"
    and "set is \<subseteq> {..<NSUB}"
    and "\<And>u (st :: 'z tstate_scheme). u \<in> set (kids ts is) \<Longrightarrow> cofm_pre st u (0.5 * s) \<Longrightarrow> \<exists>st'. cofm_done n ctx st u (0.5 * s) st'"
    and "\<forall>u \<in> set (kids ts is). cofm_pre st u (0.5 * s)"
    and "distinct (p # concat (map cells_of (kids ts is)))"
  shows "\<exists>st'. cofm_loop n ctx st p s is cm
           = Some (st', mw_addv cm (wsum (bmass st) (bpos st) (concat (map bodies_of (kids ts is)))))
      \<and> cofm_frame st (insert p (set (concat (map cells_of (kids ts is))))) st'
      \<and> (\<forall>v \<in> set (concat (map nodes_of (kids ts is))). node_ok ctx st' v)
      \<and> (\<forall>u \<in> set (kids ts is). framed ctx st' u (gcentre st u) (0.5 * s))
      \<and> c_mass (cells st' p) = c_mass (cells st p) + (\<Sum>u\<leftarrow>kids ts is. tmass (bmass st) u)
      \<and> cpos st' p = cpos st p"
  using assms
proof (induction "is" arbitrary: st cm)
  case Nil
  then show ?case by (simp add: cofm_frame_refl wsum_def mw_addv_def)
next
  case (Cons i "is")
  have subi: "subps st p ! i = map_option ref_of (ts ! i)"
    using Cons.prems(1,2,3) by (simp add: subps_def stuffs_def)
  show ?case
  proof (cases "ts ! i")
    case None
    then show ?thesis using Cons subi by simp
  next
    case (Some u)
    let ?A = "set (cells_of u)" and ?K = "set (concat (map cells_of (kids ts is)))"
    have pre: "cofm_pre st u (0.5 * s)" using Cons.prems(5) Some by simp
    obtain st1 where d: "cofm_done n ctx st u (0.5 * s) st1"
      using Cons.prems(4)[OF _ pre] Some by auto
    then have f1: "cofm_frame st ?A st1" and ok1: "\<forall>v \<in> set (nodes_of u). node_ok ctx st1 v"
      and fr1: "framed ctx st1 u (gcentre st u) (0.5 * s)"
      by (simp_all add: cofm_done_def)
    define st2 where "st2 = mass_plus p (Mass st1 (ref_of u)) st1"
    have f2: "cofm_frame st (insert p ?A) st2"
      unfolding st2_def by (rule cofm_frame_trans[OF f1 mass_plus_frame[of p "{p}"]]) auto
    have disj: "p \<notin> ?A" "p \<notin> ?K" "?A \<inter> ?K = {}" "distinct (concat (map cells_of (kids ts is)))"
      using Cons.prems(6) Some by auto
    have same: "bmass st2 = bmass st" "bpos st2 = bpos st" "stuffs st2 = stuffs st"
      using f2 by (simp_all add: cofm_frame_def bmass_def[abs_def] bpos_def[abs_def])
    have p1: "cells st1 p = cells st p" using f1 disj by (simp add: cofm_frame_def)
    have pos2: "Pos st2 (ref_of u) = Pos st1 (ref_of u)" "Mass st2 (ref_of u) = Mass st1 (ref_of u)"
    proof -
      have "Pos st2 (ref_of u) = Pos st1 (ref_of u) \<and> Mass st2 (ref_of u) = Mass st1 (ref_of u)"
        using disj(1) by (cases u) (auto simp: st2_def mass_plus_def cells_of_Node)
      then show "Pos st2 (ref_of u) = Pos st1 (ref_of u)" "Mass st2 (ref_of u) = Mass st1 (ref_of u)"
        by blast+
    qed
    have val: "Mass st1 (ref_of u) = tmass (bmass st) u"
      "mw_incaddv_s cm (Pos st1 (ref_of u)) (Mass st1 (ref_of u))
       = mw_addv cm (wsum (bmass st) (bpos st) (bodies_of u))"
      using cofm_done_values[OF d pre] by (simp_all only: mw_incaddv_s_eq)
    have pre2: "\<forall>v \<in> set (kids ts is). cofm_pre st2 v (0.5 * s)"
    proof
      fix v assume v: "v \<in> set (kids ts is)"
      have "insert p ?A \<inter> set (cells_of v) = {}" using disj v by auto
      then show "cofm_pre st2 v (0.5 * s)" using cofm_pre_frame[OF _ f2] Cons.prems(5) Some v by simp
    qed
    have kids: "kids ts (i # is) = u # kids ts is" using Some by simp
    have prems: "stuffs st2 p = Subp (map (map_option ref_of) ts)" "set is \<subseteq> {..<NSUB}"
      "distinct (p # concat (map cells_of (kids ts is)))"
      using Cons.prems(1,3) same(3) disj by auto
    have rec: "v \<in> set (kids ts is) \<Longrightarrow> cofm_pre st v (0.5 * s) \<Longrightarrow> \<exists>st'. cofm_done n ctx st v (0.5 * s) st'"
      for v and st :: "'z tstate_scheme"
      using Cons.prems(4)[of v st] unfolding kids by simp
    define cm' where "cm' = mw_addv cm (wsum (bmass st) (bpos st) (bodies_of u))"
    obtain st' where IH: "cofm_loop n ctx st2 p s is cm' = Some (st', mw_addv cm'
               (wsum (bmass st) (bpos st) (concat (map bodies_of (kids ts is)))))"
      "cofm_frame st2 (insert p ?K) st'"
      "\<forall>v \<in> set (concat (map nodes_of (kids ts is))). node_ok ctx st' v"
      "\<forall>u \<in> set (kids ts is). framed ctx st' u (gcentre st2 u) (0.5 * s)"
      "c_mass (cells st' p) = c_mass (cells st2 p) + (\<Sum>u\<leftarrow>kids ts is. tmass (bmass st) u)"
      "cpos st' p = cpos st2 p"
      using Cons.IH[OF prems(1) Cons.prems(2) prems(2) rec pre2 prems(3), of cm'] unfolding same
      by blast
    have f': "cofm_frame st (insert p (set (concat (map cells_of (kids ts (i # is)))))) st'"
      by (rule cofm_frame_trans[OF f2 IH(2)]) (use Some in auto)
    have oku: "node_ok ctx st' (a, us)" if v: "(a, us) \<in> set (nodes_of u)" for a us
    proof -
      have "a \<in> ?A" using v nodes_of_cells[of u] by (metis fst_conv image_eqI list.set_map)
      then have a: "a \<noteq> p" "a \<notin> insert p ?K" using disj(1,3) by auto
      then have "cells st' a = cells st2 a" using IH(2) unfolding cofm_frame_def by blast
      then have "cells st' a = cells st1 a" using a by (simp add: st2_def mass_plus_def)
      then show ?thesis using ok1 v f1 f' node_ok_cong[of st' st1 a ctx us] by (auto simp: cofm_frame_def)
    qed
    have cells1: "cells st' a = cells st1 a" if "a \<in> ?A" for a
    proof -
      have a: "a \<noteq> p" "a \<notin> insert p ?K" using disj(1,3) that by auto
      then have "cells st' a = cells st2 a" using IH(2) unfolding cofm_frame_def by blast
      then show ?thesis using a by (simp add: st2_def mass_plus_def)
    qed
    have fru: "framed ctx st' u (gcentre st u) (0.5 * s)"
      by (rule framed_cong[OF _ _ _ fr1]) (use cells1 f1 f' in \<open>auto simp: cofm_frame_def bpos_def[abs_def]\<close>)
    have frs: "\<forall>v \<in> set (kids ts is). framed ctx st' v (gcentre st v) (0.5 * s)"
    proof
      fix v assume v: "v \<in> set (kids ts is)"
      have d: "insert p ?A \<inter> set (cells_of v) = {}" using v disj by auto
      have "framed ctx st' v (gcentre st2 v) (0.5 * s)" using IH(4) v by (rule bspec)
      then show "framed ctx st' v (gcentre st v) (0.5 * s)" unfolding gcentre_frame[OF f2 d] .
    qed
    have loop: "cofm_loop n ctx st p s (i # is) cm = cofm_loop n ctx st2 p s is cm'"
    proof -
      have "(case ref_of u of Cl a \<Rightarrow> hackCofM n ctx st a (0.5 * s) | Bd _ \<Rightarrow> Some st) = Some st1"
        using d unfolding cofm_done_def by blast
      then show ?thesis
        using Some subi val pos2
        by (simp add: st2_def[unfolded val(1), symmetric] mass_plus_def[symmetric] cm'_def Let_def)
    qed
    show ?thesis unfolding loop
      using IH(1-3,5,6) f' oku fru frs val p1 unfolding kids
      by (intro exI[of _ st']) (auto simp: wsum_append mw_addv_assoc st2_def cpos_def cm'_def)
  qed
qed

lemma cofm_pre_child:
  assumes pre: "cofm_pre st (Node a ts) s" and u: "u \<in> set (live ts)"
  shows "cofm_pre st u (0.5 * s)"
proof -
  have "Some u \<in> set ts" using u by (simp add: set_live)
  then obtain k where k: "k < List.length ts" "ts ! k = Some u" by (auto simp: in_set_conv_nth)
  have g: "ogeo (bpos st) (cpos st) u (s / 2)" "child_ok (bpos st) (cpos st) a s k u"
    using pre k by (simp_all add: cofm_pre_def ogeo_Node[of _ _ a])
  have sub: "set (bodies_of u) \<subseteq> set (bodies_of (Node a ts))" using u by (auto simp: bodies_of_Node[of a ts])
  have "inbox (cpos st c) (s / 2) (bpos st i)" if "u = Node c us" "i \<in> set (bodies_of u)" for c us i
  proof -
    have "inbox (cpos st a) s (bpos st i)" using pre sub that(2) unfolding cofm_pre_def by blast
    moreover have "cpos st c = nbInitMidpoint (bpos st i) (cpos st a) s"
      using g(2) that by (simp add: child_ok_def)
    ultimately show ?thesis using inbox_child by metis
  qed
  moreover have "distinct (cells_of u)" "rep (stuffs st) u" "full u"
    using pre u unfolding cofm_pre_def
    by (auto simp: cells_of_Node[of a ts] rep_Node[of _ a ts] full_Node[of a ts] distinct_concat_iff)
  ultimately show ?thesis using pre g(1) sub unfolding cofm_pre_def by auto
qed

lemma tmass_Node: "tmass bm (Node a ts) = (\<Sum>u\<leftarrow>live ts. tmass bm u)"
proof -
  have "sum_list (map bm (concat (map bodies_of us))) = (\<Sum>u\<leftarrow>us. tmass bm u)" for us
    by (induction us) (simp_all add: tmass_def)
  then show ?thesis by (simp add: tmass_def bodies_of_Node)
qed

lemma hackCofM_spec:
  fixes st :: "'z tstate_scheme"
  assumes "cofm_pre st t s" "height t \<le> n" "crit_ok ctx"
  shows "\<exists>st'. cofm_done n ctx st t s st'"
  using assms
proof (induction t arbitrary: st s n rule: otree_live_induct)
  case (Leaf i)
  then show ?case by (auto simp: cofm_done_def cofm_frame_refl)
next
  case (Node a ts)
  note pre = Node.prems(1)
  obtain m where n: "n = Suc m" using Node.prems(2) by (cases n) auto
  define st0 where "st0 = upd_cell a (c_mass_update (\<lambda>_. 0)) st"
  have f0: "cofm_frame st {a} st0"
    by (simp add: cofm_frame_def st0_def stuffs_def cnext_def cmore_def fun_eq_iff)
  have same0: "bmass st0 = bmass st" "bpos st0 = bpos st" "stuffs st0 = stuffs st" "cpos st0 a = cpos st a"
    using f0 by (simp_all add: cofm_frame_def bmass_def[abs_def] bpos_def[abs_def] st0_def cpos_def)
  have st: "stuffs st a = Subp (map (map_option ref_of) ts)" and len: "List.length ts = NSUB"
    and dist: "distinct (a # concat (map cells_of (live ts)))" and ne: "live ts \<noteq> []"
    using pre by (simp_all add: cofm_pre_def rep_Node cells_of_Node full_Node)
  have k: "kids ts [0..<NSUB] = live ts" using len by (rule kids_all)
  have rec: "\<exists>st'. cofm_done m ctx st u (0.5 * s) st'"
    if "u \<in> set (kids ts [0..<NSUB])" "cofm_pre st u (0.5 * s)" for u and st :: "'z tstate_scheme"
    using that Node.IH[of u st "0.5 * s" m] Node.prems(2,3) height_child[of u ts a] n unfolding k by simp
  have pre0: "\<forall>u \<in> set (kids ts [0..<NSUB]). cofm_pre st0 u (0.5 * s)"
    using cofm_pre_frame[OF cofm_pre_child[OF pre] f0] dist unfolding k by auto
  have sub8: "set [0..<NSUB] \<subseteq> {..<NSUB}" by auto
  obtain st1 where l: "cofm_loop m ctx st0 a s [0..<NSUB] ZERO_VECTOR = Some (st1,
       mw_addv ZERO_VECTOR (wsum (bmass st) (bpos st) (bodies_of (Node a ts))))"
     "cofm_frame st0 (set (cells_of (Node a ts))) st1"
     "\<forall>v \<in> set (concat (map nodes_of (live ts))). node_ok ctx st1 v"
     "\<forall>u \<in> set (live ts). framed ctx st1 u (gcentre st0 u) (0.5 * s)"
     "c_mass (cells st1 a) = tmass (bmass st) (Node a ts)" "cpos st1 a = cpos st a"
    using cofm_loop_spec[of st0 a ts "[0..<NSUB]" s m ctx ZERO_VECTOR, OF _ len sub8 rec pre0] st dist
    unfolding k same0 by (auto simp: st0_def tmass_Node cells_of_Node bodies_of_Node)
  let ?cm = "tcom (bmass st) (bpos st) (Node a ts)"
  have bods: "\<forall>i \<in> set (bodies_of (Node a ts)). 0 < bmass st i \<and> inbox (cpos st a) s (bpos st i)"
    "bodies_of (Node a ts) \<noteq> []" using pre full_bodies[of "Node a ts"] by (simp_all add: cofm_pre_def)
  have pos: "0 < tmass (bmass st) (Node a ts)" using wsum_tcom(1) bods by blast
  have cm: "mw_incdivs (mw_addv ZERO_VECTOR (wsum (bmass st) (bpos st) (bodies_of (Node a ts))))
      (tmass (bmass st) (Node a ts)) = ?cm"
    by (simp add: tcom_def vec_defs wsum_def)
  have chk: "nbCheckTreeStructure st1 (cpos st a) ?cm s = st1"
    using nbCheckTreeStructure_inbox[OF tcom_inbox[OF bods]] .
  obtain rc where rc: "findRCrit ctx (cpos st a) (rsize (tree st1)) ?cm s = Some rc"
    using findRCrit_Some[OF Node.prems(3)] by blast
  define st2 where "st2 = upd_cell a (\<lambda>cl. cl\<lparr>c_rcrit2 := rc, c_pos := ?cm\<rparr>) st1"
  have hack: "hackCofM n ctx st a s = Some st2"
    using l pos cm chk rc unfolding n by (simp add: st0_def[symmetric] Let_def cpos_def st2_def)
  have f2: "cofm_frame st1 {a} st2"
    by (simp add: cofm_frame_def st2_def stuffs_def cnext_def cmore_def fun_eq_iff)
  have f02: "cofm_frame st (set (cells_of (Node a ts))) st2"
    by (rule cofm_frame_trans[OF cofm_frame_trans[OF f0 l(2) _ order_refl] f2]) (auto simp: cells_of_Node)
  have b: "bodytab st1 = bodytab st" "bodytab st2 = bodytab st" "tree st1 = tree st" "tree st2 = tree st"
    using f0 l(2) f2 by (simp_all add: cofm_frame_def)
  have "node_ok ctx st2 (a, ts)"
    using l(5) rc b by (auto simp: node_ok_def st2_def bmass_def[abs_def] bpos_def[abs_def])
  moreover have "node_ok ctx st2 (c, us)" if v: "(c, us) \<in> set (concat (map nodes_of (live ts)))" for c us
  proof -
    have "c \<in> set (concat (map cells_of (live ts)))"
      using v nodes_of_cells by (force simp flip: nodes_of_cells)
    then have "c \<noteq> a" using dist by auto
    then show ?thesis using l(3) v node_ok_cong[of st2 st1 c ctx us] b by (auto simp: st2_def)
  qed
  moreover have "framed ctx st2 (Node a ts) (cpos st a) s"
    unfolding framed_Node
  proof (intro conjI allI impI)
    fix k t assume kt: "k < List.length ts" "ts ! k = Some t"
    have t: "t \<in> set (live ts)" using kt by (rule live_nth)
    have g: "child_ok (bpos st) (cpos st) a s k t"
      using pre kt by (simp add: cofm_pre_def ogeo_Node[of _ _ a])
    have at: "a \<notin> set (cells_of t)" using dist t by auto
    have bp: "bpos st2 = bpos st" using b by (simp add: bpos_def[abs_def])
    show "\<forall>i \<in> set (bodies_of t). nbSubIndex (bpos st2 i) (cpos st a) = k" using g by (simp add: child_ok_def bp)
    have "framed ctx st2 t (gcentre st0 t) (0.5 * s)"
      by (rule framed_cong[OF _ _ _ l(4)[rule_format, OF t]]) (use at b in \<open>auto simp: st2_def bpos_def[abs_def]\<close>)
    moreover have "gcentre st0 t = octant (cpos st a) s k" if "t = Node c us" for c us
    proof -
      have "full t" using pre t by (simp add: cofm_pre_def full_Node)
      then obtain i where "i \<in> set (bodies_of t)" using full_bodies[of t] by (cases "bodies_of t") auto
      then show ?thesis using g that gcentre_frame[OF f0, of t] at nbInitMidpoint_octant by (auto simp: child_ok_def)
    qed
    ultimately show "framed ctx st2 t (octant (cpos st a) s k) (s / 2)" by (cases t) auto
  next
    show "findRCrit ctx (cpos st a) (rsize (tree st2)) (c_pos (cells st2 a)) s = Some (c_rcrit2 (cells st2 a))"
      using rc b by (simp add: st2_def)
    show "\<forall>i \<in> set (bodies_of (Node a ts)). inbox (cpos st a) s (bpos st2 i)"
      using bods(1) b by (simp add: bpos_def[abs_def])
  qed
  ultimately have "cofm_done n ctx st (Node a ts) s st2"
    using hack f02 by (auto simp: cofm_done_def nodes_of_Node)
  then show ?case by blast
qed

end
