(* ===== verification/NBody_TreeThread.thy ===== *)
theory NBody_TreeThread
  imports NBody_TreeMass
begin

text \<open>
  \<open>threadTree\<close> threads the represented tree in preorder and \<open>hackQuad\<close> returns, both with no
  more fuel than the height of the tree and without touching masses and positions.
\<close>

section \<open>Threading\<close>

lemma thr_cong:
  "thr bn cn cm t n \<Longrightarrow> \<forall>i \<in> set (bodies_of t). bn i = bn' i
    \<Longrightarrow> \<forall>a \<in> set (cells_of t). cn a = cn' a \<and> cm a = cm' a \<Longrightarrow> thr bn' cn' cm' t n"
  "thrs bn cn cm us n \<Longrightarrow> \<forall>i \<in> set (concat (map bodies_of us)). bn i = bn' i
    \<Longrightarrow> \<forall>a \<in> set (concat (map cells_of us)). cn a = cn' a \<and> cm a = cm' a \<Longrightarrow> thrs bn' cn' cm' us n"
proof (induction rule: thr_thrs.inducts)
  case (thr_Leaf i n)
  then show ?case by (simp add: thr_Leaf_iff)
next
  case (thr_Node a n ts)
  then show ?case by (simp add: thr_Node_iff cells_of_Node bodies_of_Node)
next
  case (thrs_Nil n)
  show ?case by (rule thr_thrs.thrs_Nil)
next
  case (thrs_Cons u us n)
  then show ?case by (simp add: thrs_Cons_iff)
qed

definition unthreaded :: "Body \<Rightarrow> Body" where
  "unthreaded b = b\<lparr>b_next := None\<rparr>"

text \<open>What threading may change: the links of the cells \<open>C\<close> and of the bodies \<open>B\<close>.\<close>

definition thread_frame :: "'z tstate_scheme \<Rightarrow> nat set \<Rightarrow> nat set \<Rightarrow> 'z tstate_scheme \<Rightarrow> bool" where
  "thread_frame st C B st' \<longleftrightarrow> map unthreaded (bodytab st') = map unthreaded (bodytab st)
     \<and> nalloc st' = nalloc st \<and> tree st' = tree st
     \<and> freeCell st' = freeCell st \<and> treeIncest st' = treeIncest st
     \<and> stuffs st' = stuffs st
     \<and> (\<forall>a. c_mass (cells st' a) = c_mass (cells st a) \<and> c_pos (cells st' a) = c_pos (cells st a)
          \<and> c_rcrit2 (cells st' a) = c_rcrit2 (cells st a))
     \<and> (\<forall>a. a \<notin> C \<longrightarrow> cells st' a = cells st a) \<and> (\<forall>i. i \<notin> B \<longrightarrow> bodytab st' ! i = bodytab st ! i)"

lemma thread_frame_refl: "thread_frame st C B st"
  by (simp add: thread_frame_def)

lemma thread_frame_trans:
  assumes 1: "thread_frame st C B st1" and 2: "thread_frame st1 C' B' st2"
    and sub: "C \<subseteq> D" "C' \<subseteq> D" "B \<subseteq> E" "B' \<subseteq> E"
  shows "thread_frame st D E st2"
proof -
  have "cells st2 a = cells st a" if "a \<notin> D" for a
    using 1 2 sub that unfolding thread_frame_def by (metis subsetD)
  moreover have "bodytab st2 ! i = bodytab st ! i" if "i \<notin> E" for i
    using 1 2 sub that unfolding thread_frame_def by (metis subsetD)
  ultimately show ?thesis using 1 2 by (simp add: thread_frame_def)
qed

lemma thread_frame_length: "thread_frame st C B st' \<Longrightarrow> List.length (bodytab st') = List.length (bodytab st)"
  unfolding thread_frame_def by (metis length_map)

lemma thread_frame_set_Next:
  "thread_frame st {a} {} (set_Next st (Cl a) n)"
  "thread_frame st {} {i} (set_Next st (Bd i) n)"
proof -
  show "thread_frame st {a} {} (set_Next st (Cl a) n)"
    by (simp add: thread_frame_def stuffs_def fun_eq_iff)
  have "map unthreaded ((bodytab st)[i := (bodytab st ! i)\<lparr>b_next := n\<rparr>]) = map unthreaded (bodytab st)"
    by (cases "i < List.length (bodytab st)")
      (simp_all add: map_update unthreaded_def list_update_same_conv list_update_beyond)
  then show "thread_frame st {} {i} (set_Next st (Bd i) n)"
    by (auto simp: thread_frame_def stuffs_def fun_eq_iff)
qed

definition thread_pre :: "'z tstate_scheme \<Rightarrow> otree list \<Rightarrow> bool" where
  "thread_pre st us \<longleftrightarrow> (\<forall>u \<in> set us. rep (stuffs st) u \<and> full u)
     \<and> distinct (concat (map cells_of us)) \<and> distinct (concat (map bodies_of us))
     \<and> (\<forall>i \<in> set (concat (map bodies_of us)). i < List.length (bodytab st))"

lemma thread_pre_frame:
  "thread_frame st C B st' \<Longrightarrow> thread_pre st us \<Longrightarrow> thread_pre st' us"
  using thread_frame_length[of st C B st'] by (simp add: thread_pre_def thread_frame_def)

lemma thread_loop_spec:
  fixes st :: "'z tstate_scheme"
  assumes "\<And>u (st :: 'z tstate_scheme) n. u \<in> set us \<Longrightarrow> thread_pre st [u] \<Longrightarrow>
      \<exists>st'. threadTree k st (ref_of u) n = Some st'
        \<and> thread_frame st (set (cells_of u)) (set (bodies_of u)) st'
        \<and> thr (bnext st') (cnext st') (cmore st') u n"
    and "thread_pre st us"
  shows "\<exists>st'. thread_loop k st (map ref_of us) n = Some st'
      \<and> thread_frame st (set (concat (map cells_of us))) (set (concat (map bodies_of us))) st'
      \<and> thrs (bnext st') (cnext st') (cmore st') us n"
  using assms
proof (induction us arbitrary: st)
  case Nil
  then show ?case by (simp add: thread_frame_refl thrs_Nil)
next
  case (Cons u us)
  have pu: "thread_pre st [u]" and pus: "thread_pre st us"
    using Cons.prems(2) by (auto simp: thread_pre_def)
  let ?C = "set (concat (map cells_of us))" and ?B = "set (concat (map bodies_of us))"
  obtain st1 where 1: "threadTree k st (ref_of u) (first us n) = Some st1"
    "thread_frame st (set (cells_of u)) (set (bodies_of u)) st1"
    "thr (bnext st1) (cnext st1) (cmore st1) u (first us n)"
    using Cons.prems(1)[OF _ pu] by (meson list.set_intros(1))
  obtain st2 where 2: "thread_loop k st1 (map ref_of us) n = Some st2"
    "thread_frame st1 ?C ?B st2" "thrs (bnext st2) (cnext st2) (cmore st2) us n"
    using Cons.IH[OF _ thread_pre_frame[OF 1(2) pus]] Cons.prems(1) by (metis list.set_intros(2))
  have "set (cells_of u) \<inter> ?C = {}" "set (bodies_of u) \<inter> ?B = {}"
    using Cons.prems(2) by (auto simp: thread_pre_def)
  then have "\<forall>i \<in> set (bodies_of u). bnext st1 i = bnext st2 i"
    "\<forall>a \<in> set (cells_of u). cnext st1 a = cnext st2 a \<and> cmore st1 a = cmore st2 a"
    using 2(2) unfolding thread_frame_def bnext_def cnext_def cmore_def by (simp_all add: disjoint_iff)
  then have "thr (bnext st2) (cnext st2) (cmore st2) u (first us n)"
    using thr_cong(1)[OF 1(3)] by blast
  then have "thrs (bnext st2) (cnext st2) (cmore st2) (u # us) n"
    using 2(3) by (simp add: thrs_Cons_iff)
  moreover have "thread_loop k st (map ref_of (u # us)) n = Some st2"
    using 1(1) 2(1) by (cases us) (simp_all add: first_def)
  ultimately show ?case using thread_frame_trans[OF 1(2) 2(2)] by auto
qed

lemma threadTree_spec:
  fixes st :: "'z tstate_scheme"
  assumes "thread_pre st [t]" "height t < k"
  shows "\<exists>st'. threadTree k st (ref_of t) n = Some st'
        \<and> thread_frame st (set (cells_of t)) (set (bodies_of t)) st'
        \<and> thr (bnext st') (cnext st') (cmore st') t n"
  using assms
proof (induction t arbitrary: st k n rule: otree_live_induct)
  case (Leaf i)
  then obtain m where "k = Suc m" by (cases k) auto
  then show ?case using Leaf thread_frame_set_Next(2)[of st i n]
    by (auto simp: thr_Leaf_iff bnext_def thread_pre_def)
next
  case (Node a ts)
  obtain m where k: "k = Suc m" "height (Node a ts) \<le> m" using Node.prems(2) by (cases k) auto
  let ?us = "live ts"
  define st1 where "st1 = set_Next st (Cl a) n"
  define st2 where "st2 = upd_cell a (c_more_update (\<lambda>_. first ?us n)) st1"
  have f2: "thread_frame st {a} {} st2"
    by (auto simp: st2_def st1_def thread_frame_def stuffs_def fun_eq_iff)
  have pre: "thread_pre st ?us" and ne: "?us \<noteq> []" and a: "a \<notin> set (concat (map cells_of ?us))"
    and st: "stuffs st a = Subp (map (map_option ref_of) ts)"
    using Node.prems(1) by (auto simp: thread_pre_def rep_Node full_Node cells_of_Node bodies_of_Node)
  have desc: "live (subps st1 a) = map ref_of ?us"
    using st by (simp add: subps_def st1_def stuffs_def)
  have more: "map Some (map ref_of ?us) ! 0 = first ?us n" using ne by (cases ?us) simp_all
  have rec: "\<exists>st'. threadTree m st (ref_of u) n = Some st'
        \<and> thread_frame st (set (cells_of u)) (set (bodies_of u)) st'
        \<and> thr (bnext st') (cnext st') (cmore st') u n"
    if "u \<in> set ?us" "thread_pre st [u]" for u n and st :: "'z tstate_scheme"
    using Node.IH[OF that] height_child[OF that(1), of a] k by simp
  obtain st3 where 3: "thread_loop m st2 (map ref_of ?us) n = Some st3"
    "thread_frame st2 (set (concat (map cells_of ?us))) (set (concat (map bodies_of ?us))) st3"
    "thrs (bnext st3) (cnext st3) (cmore st3) ?us n"
    using thread_loop_spec[OF rec thread_pre_frame[OF f2 pre]] by blast
  have "cells st3 a = cells st2 a" using 3(2) a by (simp add: thread_frame_def)
  then have "thr (bnext st3) (cnext st3) (cmore st3) (Node a ts) n"
    using 3(3) ne by (simp add: thr_Node_iff cnext_def cmore_def st2_def st1_def)
  moreover have "threadTree k st (ref_of (Node a ts)) n = Some st3"
    using 3(1) more desc by (simp add: k st1_def[symmetric] st2_def Let_def del: set_Next.simps)
  moreover have "thread_frame st (set (cells_of (Node a ts))) (set (bodies_of (Node a ts))) st3"
    by (rule thread_frame_trans[OF f2 3(2)]) (auto simp: cells_of_Node bodies_of_Node)
  ultimately show ?case by blast
qed

section \<open>Quadrupole moments\<close>

text \<open>What \<open>hackQuad\<close> may change: the unions of the cells \<open>C\<close>.\<close>

definition quad_frame :: "'z tstate_scheme \<Rightarrow> nat set \<Rightarrow> 'z tstate_scheme \<Rightarrow> bool" where
  "quad_frame st C st' \<longleftrightarrow> bodytab st' = bodytab st \<and> nalloc st' = nalloc st \<and> tree st' = tree st
     \<and> freeCell st' = freeCell st \<and> treeIncest st' = treeIncest st
     \<and> (\<forall>a. c_stuff_update (\<lambda>_. Subp []) (cells st' a) = c_stuff_update (\<lambda>_. Subp []) (cells st a))
     \<and> (\<forall>a. a \<notin> C \<longrightarrow> cells st' a = cells st a)"

lemma quad_frame_refl: "quad_frame st C st"
  by (simp add: quad_frame_def)

lemma quad_frame_trans:
  assumes 1: "quad_frame st C st1" and 2: "quad_frame st1 C' st2" and sub: "C \<subseteq> D" "C' \<subseteq> D"
  shows "quad_frame st D st2"
proof -
  have "cells st2 a = cells st a" if "a \<notin> D" for a
    using 1 2 sub that unfolding quad_frame_def by (metis subsetD)
  then show ?thesis using 1 2 by (simp add: quad_frame_def)
qed

lemma quad_frame_fields:
  assumes "quad_frame st C st'"
  shows "cnext st' = cnext st" "cmore st' = cmore st" "cpos st' = cpos st"
    "c_mass (cells st' a) = c_mass (cells st a)" "c_rcrit2 (cells st' a) = c_rcrit2 (cells st a)"
proof -
  have *: "c_stuff_update (\<lambda>_. Subp []) (cells st' a) = c_stuff_update (\<lambda>_. Subp []) (cells st a)" for a
    using assms by (simp add: quad_frame_def)
  show "cnext st' = cnext st" "cmore st' = cmore st" "cpos st' = cpos st"
    "c_mass (cells st' a) = c_mass (cells st a)" "c_rcrit2 (cells st' a) = c_rcrit2 (cells st a)"
    using arg_cong[OF *, of c_next] arg_cong[OF *, of c_more] arg_cong[OF *, of c_pos]
      arg_cong[OF *, of c_mass] arg_cong[OF *, of c_rcrit2]
    by (simp_all add: cnext_def cmore_def cpos_def fun_eq_iff)
qed

lemma quad_loop_spec:
  fixes st :: "'z tstate_scheme"
  assumes "\<And>u (st :: 'z tstate_scheme). u \<in> set us \<Longrightarrow> rep (stuffs st) u \<Longrightarrow>
      \<exists>st'. (case ref_of u of Cl a \<Rightarrow> hackQuad reint n st a | Bd _ \<Rightarrow> Some st) = Some st'
        \<and> quad_frame st (set (cells_of u)) st'"
    and "\<forall>u \<in> set us. rep (stuffs st) u" "distinct (p # concat (map cells_of us))"
  shows "\<exists>st'. quad_loop reint n st p (map ref_of us) = Some st'
      \<and> quad_frame st (insert p (set (concat (map cells_of us)))) st'"
  using assms
proof (induction us arbitrary: st)
  case Nil
  then show ?case by (simp add: quad_frame_refl)
next
  case (Cons u us)
  obtain st1 where 1: "(case ref_of u of Cl a \<Rightarrow> hackQuad reint n st a | Bd _ \<Rightarrow> Some st) = Some st1"
    "quad_frame st (set (cells_of u)) st1"
    using Cons.prems(1,2) by (metis list.set_intros(1))
  obtain quad where q: "quad_loop reint n st p (map ref_of (u # us)) = quad_loop reint n
      (upd_cell p (c_stuff_update (\<lambda>v. Quad (nbIncAddNBodyQuadMatrix (quad_of reint v) quad))) st1)
      p (map ref_of us)"
    using 1(1) by (simp add: Let_def)
  define st2 where "st2 = upd_cell p (c_stuff_update (\<lambda>v. Quad (nbIncAddNBodyQuadMatrix (quad_of reint v) quad))) st1"
  have f2: "quad_frame st (insert p (set (cells_of u))) st2"
    by (rule quad_frame_trans[OF 1(2), of "{p}"]) (auto simp: quad_frame_def st2_def)
  have "rep (stuffs st2) v" if v: "v \<in> set us" for v
  proof -
    have "stuffs st a = stuffs st2 a" if "a \<in> set (cells_of v)" for a
    proof -
      have "a \<notin> insert p (set (cells_of u))" using Cons.prems(3) v that by auto
      then show ?thesis using f2 by (simp add: quad_frame_def stuffs_def)
    qed
    then show ?thesis using Cons.prems(2) v rep_cong by (metis list.set_intros(2))
  qed
  then obtain st3 where "quad_loop reint n st2 p (map ref_of us) = Some st3"
    "quad_frame st2 (insert p (set (concat (map cells_of us)))) st3"
    using Cons.IH[of st2] Cons.prems(1,3) by fastforce
  then show ?case
    using q quad_frame_trans[OF f2, of _ st3 "insert p (set (concat (map cells_of (u # us))))"]
    unfolding st2_def by auto
qed

lemma hackQuad_spec:
  fixes st :: "'z tstate_scheme"
  assumes "rep (stuffs st) t" "distinct (cells_of t)" "height t \<le> n"
  shows "\<exists>st'. (case ref_of t of Cl a \<Rightarrow> hackQuad reint n st a | Bd _ \<Rightarrow> Some st) = Some st'
      \<and> quad_frame st (set (cells_of t)) st'"
  using assms
proof (induction t arbitrary: st n rule: otree_live_induct)
  case (Leaf i)
  then show ?case by (simp add: quad_frame_refl)
next
  case (Node a ts)
  obtain m where n: "n = Suc m" using Node.prems(3) by (cases n) auto
  have d: "live (subps st a) = map ref_of (live ts)"
    using Node.prems(1) by (simp add: rep_Node subps_def stuffs_def)
  have rec: "\<exists>st'. (case ref_of u of Cl a \<Rightarrow> hackQuad reint m st a | Bd _ \<Rightarrow> Some st) = Some st'
      \<and> quad_frame st (set (cells_of u)) st'"
    if "u \<in> set (live ts)" "rep (stuffs st) u" for u and st :: "'z tstate_scheme"
  proof -
    have "distinct (cells_of u)" using Node.prems(2) that(1) by (auto simp: cells_of_Node distinct_concat_iff)
    then show ?thesis using Node.IH[OF that] height_child[OF that(1), of a] Node.prems(3) n by simp
  qed
  show ?case
    using quad_loop_spec[of "live ts" reint m st a, OF rec] Node.prems d
    by (simp add: n rep_Node cells_of_Node)
qed

end
