(* ===== verification/NBody_State.thy ===== *)
theory NBody_State
  imports NBody_Types
begin

text \<open>
  \<open>nbody_types.c\<close>: comparison, initialisation and cloning of the simulation's structures.
  Freeing memory and the OpenCL start-up are not modelled.
\<close>

section \<open>Comparing parameters\<close>

text \<open>\<open>feqWithNan\<close>: the C comparison, with NaN equal to itself.\<close>

definition feqWithNan :: "dbl \<Rightarrow> dbl \<Rightarrow> bool" where
  "feqWithNan a b = (if isnan a \<and> isnan b then True else feq a b)"

definition equalDisk :: "dbl Disk \<Rightarrow> dbl Disk \<Rightarrow> bool" where
  "equalDisk d1 d2 \<longleftrightarrow>
     d_type d1 = d_type d2
     \<and> feqWithNan (d_mass d1) (d_mass d2)
     \<and> feqWithNan (d_scaleLength d1) (d_scaleLength d1)
     \<and> feqWithNan (d_scaleHeight d1) (d_scaleHeight d1)"

definition equalHalo :: "dbl Halo \<Rightarrow> dbl Halo \<Rightarrow> bool" where
  "equalHalo h1 h2 \<longleftrightarrow>
     h_type h1 = h_type h2
     \<and> feqWithNan (h_vhalo h1) (h_vhalo h2)
     \<and> feqWithNan (h_mass h1) (h_mass h2)
     \<and> feqWithNan (h_scaleLength h1) (h_scaleLength h2)
     \<and> feqWithNan (h_flattenZ h1) (h_flattenZ h2)
     \<and> feqWithNan (h_flattenY h1) (h_flattenY h2)
     \<and> feqWithNan (h_flattenX h1) (h_flattenX h2)
     \<and> feqWithNan (h_triaxAngle h1) (h_triaxAngle h2)
     \<and> feqWithNan (h_c1 h1) (h_c1 h2)
     \<and> feqWithNan (h_c2 h1) (h_c2 h2)
     \<and> feqWithNan (h_c3 h1) (h_c3 h2)
     \<and> feqWithNan (h_rho0 h1) (h_rho0 h2)"

definition equalSpherical :: "dbl Spherical \<Rightarrow> dbl Spherical \<Rightarrow> bool" where
  "equalSpherical s1 s2 \<longleftrightarrow>
     s_type s1 = s_type s2
     \<and> feqWithNan (s_mass s1) (s_mass s2)
     \<and> feqWithNan (s_scale s1) (s_scale s2)"

definition equalPotential :: "dbl Potential \<Rightarrow> dbl Potential \<Rightarrow> bool" where
  "equalPotential p1 p2 \<longleftrightarrow>
     equalSpherical (p_sphere p1) (p_sphere p2)
     \<and> equalDisk (p_disk p1) (p_disk p2)
     \<and> equalDisk (p_disk2 p1) (p_disk2 p2)
     \<and> equalHalo (p_halo p1) (p_halo p2)"

text \<open>The \<open>unsigned int\<close> counts are converted to doubles, which is exact below \<open>2^53\<close>.\<close>

definition equalHistogramParams :: "dbl HistogramParams \<Rightarrow> dbl HistogramParams \<Rightarrow> bool" where
  "equalHistogramParams hp1 hp2 \<longleftrightarrow>
     feqWithNan (hp_phi hp1) (hp_phi hp2)
     \<and> feqWithNan (hp_theta hp1) (hp_theta hp2)
     \<and> feqWithNan (hp_psi hp1) (hp_psi hp2)
     \<and> feqWithNan (lambdaStart hp1) (lambdaStart hp2)
     \<and> feqWithNan (lambdaEnd hp1) (lambdaEnd hp2)
     \<and> lambdaBins hp1 = lambdaBins hp2
     \<and> feqWithNan (betaStart hp1) (betaStart hp2)
     \<and> feqWithNan (betaEnd hp1) (betaEnd hp2)
     \<and> betaBins hp1 = betaBins hp2"

definition equalNBodyCtx :: "dbl NBodyCtx \<Rightarrow> dbl NBodyCtx \<Rightarrow> bool" where
  "equalNBodyCtx ctx1 ctx2 \<longleftrightarrow>
     feqWithNan (eps2 ctx1) (eps2 ctx2)
     \<and> feqWithNan (theta ctx1) (theta ctx2)
     \<and> feqWithNan (timestep ctx1) (timestep ctx2)
     \<and> feqWithNan (timeEvolve ctx1) (timeEvolve ctx2)
     \<and> feqWithNan (timeBack ctx1) (timeBack ctx2)
     \<and> feqWithNan (treeRSize ctx1) (treeRSize ctx2)
     \<and> feqWithNan (sunGCDist ctx1) (sunGCDist ctx2)
     \<and> criterion ctx1 = criterion ctx2
     \<and> potentialType ctx1 = potentialType ctx2
     \<and> OutputLB ctx1 = OutputLB ctx2
     \<and> useQuad ctx1 = useQuad ctx2
     \<and> allowIncest ctx1 = allowIncest ctx2
     \<and> useBestLike ctx1 = useBestLike ctx2
     \<and> useVelDisp ctx1 = useVelDisp ctx2
     \<and> useBetaDisp ctx1 = useBetaDisp ctx2
     \<and> useBetaComp ctx1 = useBetaComp ctx2
     \<and> useVlos ctx1 = useVlos ctx2
     \<and> useDist ctx1 = useDist ctx2
     \<and> feqWithNan (BestLikeStart ctx1) (BestLikeStart ctx2)
     \<and> Nstep_control ctx1 = Nstep_control ctx2
     \<and> feqWithNan (Ntsteps ctx1) (Ntsteps ctx2)
     \<and> MultiOutput ctx1 = MultiOutput ctx2
     \<and> feqWithNan (OutputFreq ctx1) (OutputFreq ctx2)
     \<and> feqWithNan (BetaSigma ctx1) (BetaSigma ctx2)
     \<and> feqWithNan (VelSigma ctx1) (VelSigma ctx2)
     \<and> feqWithNan (DistSigma ctx1) (DistSigma ctx2)
     \<and> feqWithNan (IterMax ctx1) (IterMax ctx2)
     \<and> feqWithNan (BetaCorrect ctx1) (BetaCorrect ctx2)
     \<and> feqWithNan (VelCorrect ctx1) (VelCorrect ctx2)
     \<and> feqWithNan (DistCorrect ctx1) (DistCorrect ctx2)
     \<and> quietErrors ctx1 = quietErrors ctx2
     \<and> checkpointT ctx1 = checkpointT ctx2
     \<and> nStep ctx1 = nStep ctx2
     \<and> equalPotential (pot ctx1) (pot ctx2)
     \<and> LMC ctx1 = LMC ctx2
     \<and> feqWithNan (LMCmass ctx1) (LMCmass ctx2)
     \<and> feqWithNan (LMCscale ctx1) (LMCscale ctx2)
     \<and> LMCDynaFric ctx1 = LMCDynaFric ctx2
     \<and> feqWithNan (coulomb_log ctx1) (coulomb_log ctx2)
     \<and> calibrationRuns ctx1 = calibrationRuns ctx2"

lemma feqWithNan_eq [simp]: "feqWithNan a b \<longleftrightarrow> a = b"
  by (cases a; cases b) (simp_all add: feqWithNan_def feq_def)

section \<open>Comparing states\<close>

definition equalVector :: "mwvector \<Rightarrow> mwvector \<Rightarrow> bool" where
  "equalVector a b \<longleftrightarrow> X a = X b \<and> Y a = Y b \<and> Z a = Z b"

definition equalBody :: "Body \<Rightarrow> Body \<Rightarrow> bool" where
  "equalBody a b =
     (if b_mass a \<noteq> b_mass b then False
      else if b_type a \<noteq> b_type b then False
      else if \<not> equalVector (b_pos a) (b_pos b) then False
      else if \<not> equalVector (b_vel a) (b_vel b) then False
      else True)"

definition equalVectorArray :: "mwvector list \<Rightarrow> mwvector list \<Rightarrow> nat \<Rightarrow> bool" where
  "equalVectorArray a b n =
     (if a = [] \<and> b = [] then True
      else if a = [] \<or> b = [] then False
      else list_all (\<lambda>i. equalVector (a ! i) (b ! i)) [0..<n])"

definition equalBodyArray :: "Body list \<Rightarrow> Body list \<Rightarrow> nat \<Rightarrow> bool" where
  "equalBodyArray a b n =
     (if a = [] \<and> b = [] then True
      else if a = [] \<or> b = [] then False
      else list_all (\<lambda>i. equalBody (a ! i) (b ! i)) [0..<n])"

definition equalNBodyState :: "NBodyState \<Rightarrow> NBodyState \<Rightarrow> bool" where
  "equalNBodyState st1 st2 =
     (if step st1 \<noteq> step st2 \<or> lastCheckpoint st1 \<noteq> lastCheckpoint st2
         \<or> nbody st1 \<noteq> nbody st2 then False
      else if (shiftByLMC st1 \<noteq> [] \<or> shiftByLMC st2 \<noteq> [])
          \<and> ((shiftByLMC st1 = [] \<or> shiftByLMC st2 = [])
             \<or> nShiftLMC st1 \<noteq> nShiftLMC st2
             \<or> \<not> equalVectorArray (shiftByLMC st1) (shiftByLMC st2) (nShiftLMC st1)) then False
      else if \<not> equalVector (LMCpos st1) (LMCpos st2) then False
      else if \<not> equalVector (LMCvel st1) (LMCvel st2) then False
      else if (orbitTrace st1 \<noteq> [] \<or> orbitTrace st2 \<noteq> [])
          \<and> ((orbitTrace st1 = [] \<or> orbitTrace st2 = [])
             \<or> nOrbitTrace st1 \<noteq> nOrbitTrace st2
             \<or> \<not> equalVectorArray (orbitTrace st1) (orbitTrace st2) (nOrbitTrace st1)) then False
      else if \<not> equalBodyArray (bodytab st1) (bodytab st2) (nbody st1) then False
      else if \<not> equalBodyArray (bestLikelihoodBodyTab st1) (bestLikelihoodBodyTab st2) (nbody st1)
        then False
      else if \<not> equalVectorArray (acctab st1) (acctab st2) (nbody st1) then False
      else True)"

section \<open>Initialising and cloning\<close>

text \<open>
  \<open>memcpy\<close> of \<open>n\<close> elements from an array of at least \<open>n\<close> is \<open>take n\<close>; \<open>calloc\<close>ed
  vectors are zero vectors. The static \<open>EMPTY_NBODYSTATE\<close> is the all-zero state.
\<close>

definition uninit_cell :: NBodyCell where
  "uninit_cell = \<lparr>c_pos = ZERO_VECTOR, c_next = None, c_mass = 0, c_rcrit2 = 0, c_more = None,
                  c_stuff = Subp (replicate NSUB None)\<rparr>"

definition EMPTY_NBODYSTATE :: NBodyState where
  "EMPTY_NBODYSTATE =
     \<lparr>bodytab = [], cells = (\<lambda>_. uninit_cell), nalloc = 0, tree = EMPTY_TREE, freeCell = None,
      treeIncest = False, checkpointResolved = None, bestLikelihoodBodyTab = [], acctab = [],
      orbitTrace = [], shiftByLMC = [], LMCpos = ZERO_VECTOR, LMCvel = ZERO_VECTOR,
      nOrbitTrace = 0, nShiftLMC = 0, lastCheckpoint = 0, step = 0, nbody = 0, effNBody = 0,
      potentialEvalError = False, bestLikelihood = Fin 0, bestLikelihood_EMD = Fin 0,
      bestLikelihood_Mass = Fin 0, bestLikelihood_Beta = Fin 0, bestLikelihood_Vel = Fin 0,
      bestLikelihood_BetaAvg = Fin 0, bestLikelihood_VelAvg = Fin 0, bestLikelihood_Dist = Fin 0,
      bestLikelihood_time = 0, bestLikelihood_count = 0, st_useVelDisp = False,
      st_useBetaDisp = False, st_useBetaComp = False, st_useVlos = False, st_useDist = False,
      ignoreResponsive = False, usesExact = False, usesQuad = False, dirty = False,
      usesCL = False, reportProgress = False, previousForwardTime = 0\<rparr>"

definition setInitialNBodyState ::
    "NBodyState \<Rightarrow> real NBodyCtx \<Rightarrow> Body list \<Rightarrow> nat \<Rightarrow> NBodyState" where
  "setInitialNBodyState st ctx bodies n =
     st\<lparr>tree := EMPTY_TREE\<lparr>rsize := treeRSize ctx\<rparr>,
        freeCell := None,
        usesQuad := useQuad ctx,
        usesExact := (criterion ctx = Exact),
        step := 0,
        nbody := n,
        bodytab := bodies,
        bestLikelihoodBodyTab := take n bodies,
        bestLikelihood := Fin DEFAULT_WORST_CASE,
        bestLikelihood_EMD := Fin DEFAULT_WORST_CASE,
        bestLikelihood_Mass := Fin DEFAULT_WORST_CASE,
        bestLikelihood_Beta := Fin DEFAULT_WORST_CASE,
        bestLikelihood_Vel := Fin DEFAULT_WORST_CASE,
        bestLikelihood_BetaAvg := Fin DEFAULT_WORST_CASE,
        bestLikelihood_VelAvg := Fin DEFAULT_WORST_CASE,
        bestLikelihood_Dist := Fin DEFAULT_WORST_CASE,
        bestLikelihood_time := 0,
        bestLikelihood_count := 0,
        nOrbitTrace := nStep ctx + 1,
        orbitTrace := replicate (nStep ctx + 1) ZERO_VECTOR,
        acctab := replicate n ZERO_VECTOR\<rparr>"

definition setLMCShiftArray :: "NBodyState \<Rightarrow> mwvector list \<Rightarrow> nat \<Rightarrow> NBodyState" where
  "setLMCShiftArray st shiftArray shiftSize =
     st\<lparr>shiftByLMC := shiftArray, nShiftLMC := shiftSize\<rparr>"

definition setLMCPosVel :: "NBodyState \<Rightarrow> mwvector \<Rightarrow> mwvector \<Rightarrow> NBodyState" where
  "setLMCPosVel st P V = st\<lparr>LMCpos := P, LMCvel := V\<rparr>"

definition clonePartialNBodyState :: "NBodyState \<Rightarrow> NBodyState \<Rightarrow> NBodyState" where
  "clonePartialNBodyState st oldSt =
     st\<lparr>tree := EMPTY_TREE\<lparr>rsize := rsize (tree oldSt),
                          structureError := structureError (tree oldSt)\<rparr>,
        freeCell := None,
        lastCheckpoint := lastCheckpoint oldSt,
        step := step oldSt,
        nbody := nbody oldSt,
        effNBody := effNBody oldSt,
        bestLikelihood := bestLikelihood oldSt,
        bestLikelihood_count := bestLikelihood_count oldSt,
        ignoreResponsive := ignoreResponsive oldSt,
        usesExact := usesExact oldSt,
        usesQuad := usesQuad oldSt,
        dirty := dirty oldSt,
        usesCL := usesCL oldSt,
        reportProgress := reportProgress oldSt,
        treeIncest := treeIncest oldSt\<rparr>"

text \<open>The common first part of \<open>cloneNBodyState\<close> is the same list of assignments.\<close>

definition cloneNBodyState :: "NBodyState \<Rightarrow> NBodyState \<Rightarrow> NBodyState" where
  "cloneNBodyState st oldSt =
     (let n = nbody oldSt;
          st = (clonePartialNBodyState st oldSt)
                 \<lparr>bodytab := take n (bodytab oldSt),
                  bestLikelihoodBodyTab := take n (bestLikelihoodBodyTab oldSt),
                  acctab := take n (acctab oldSt),
                  previousForwardTime := previousForwardTime oldSt\<rparr>;
          st = (if orbitTrace oldSt \<noteq> []
                then st\<lparr>orbitTrace := take (nOrbitTrace oldSt) (orbitTrace oldSt),
                        nOrbitTrace := nOrbitTrace oldSt\<rparr> else st);
          st = (if shiftByLMC oldSt \<noteq> []
                then st\<lparr>shiftByLMC := take (nShiftLMC oldSt) (shiftByLMC oldSt),
                        nShiftLMC := nShiftLMC oldSt\<rparr> else st)
      in st\<lparr>LMCpos := LMCpos oldSt, LMCvel := LMCvel oldSt\<rparr>)"

section \<open>Ordering bodies\<close>

definition compareComponents :: "real \<Rightarrow> real \<Rightarrow> int" where
  "compareComponents a b = (if a > b then 1 else if a < b then -1 else 0)"

definition compareVectors :: "mwvector \<Rightarrow> mwvector \<Rightarrow> int" where
  "compareVectors a b =
     (let ar = mw_absv a; br = mw_absv b
      in if ar > br then 1
         else if ar < br then -1
         else if compareComponents (X a) (X b) \<noteq> 0 then compareComponents (X a) (X b)
         else if compareComponents (Y a) (Y b) \<noteq> 0 then compareComponents (Y a) (Y b)
         else if compareComponents (Z a) (Z b) \<noteq> 0 then compareComponents (Z a) (Z b)
         else 0)"

text \<open>\<open>None\<close> is the call of \<open>mw_panic\<close> for two bodies of equal mass and position.\<close>

definition compareBodies :: "Body \<Rightarrow> Body \<Rightarrow> int option" where
  "compareBodies a b =
     (let rc = compareComponents (b_mass a) (b_mass b)
      in if rc \<noteq> 0 then Some rc
         else let rc = compareVectors (b_pos a) (b_pos b)
              in if rc = 0 then None else Some rc)"

section \<open>What the comparisons decide\<close>

text \<open>
  A state whose arrays have the lengths the counters say, which is what
  \<open>setInitialNBodyState\<close> establishes and what every array access of the code relies on.
\<close>

definition wf_state :: "NBodyState \<Rightarrow> bool" where
  "wf_state st \<longleftrightarrow>
     length (bodytab st) = nbody st \<and> length (bestLikelihoodBodyTab st) = nbody st
     \<and> length (acctab st) = nbody st
     \<and> (orbitTrace st \<noteq> [] \<longrightarrow> length (orbitTrace st) = nOrbitTrace st)
     \<and> (shiftByLMC st \<noteq> [] \<longrightarrow> length (shiftByLMC st) = nShiftLMC st)"

lemma equalVector_iff [simp]: "equalVector a b \<longleftrightarrow> a = b"
  by (auto simp: equalVector_def)

lemma equalVectorArray_iff:
  assumes "length a = n" "length b = n"
  shows "equalVectorArray a b n \<longleftrightarrow> a = b"
proof -
  have "list_all (\<lambda>i. equalVector (a ! i) (b ! i)) [0..<n] \<longleftrightarrow> a = b"
    using assms by (auto simp: list_all_iff intro: nth_equalityI)
  then show ?thesis using assms by (auto simp: equalVectorArray_def)
qed

text \<open>The fields of a body that \<open>equalBody\<close> looks at.\<close>

definition same_body :: "Body \<Rightarrow> Body \<Rightarrow> bool" where
  "same_body a b \<longleftrightarrow>
     b_mass a = b_mass b \<and> b_type a = b_type b \<and> b_pos a = b_pos b \<and> b_vel a = b_vel b"

lemma equalBody_iff [simp]: "equalBody = same_body"
  by (auto simp: equalBody_def same_body_def fun_eq_iff)

lemma same_body_refl [simp]: "same_body a a"
  by (simp add: same_body_def)

lemma equalBodyArray_iff:
  assumes "length a = n" "length b = n"
  shows "equalBodyArray a b n \<longleftrightarrow> list_all2 same_body a b"
  using assms by (auto simp: equalBodyArray_def list_all_iff list_all2_conv_all_nth)

lemmas equal_array_iffs = equalVectorArray_iff equalBodyArray_iff

lemma orbit_check_iff:
  assumes "xs \<noteq> [] \<longrightarrow> length xs = n" "ys \<noteq> [] \<longrightarrow> length ys = m"
  shows "\<not> ((xs \<noteq> [] \<or> ys \<noteq> []) \<and> ((xs = [] \<or> ys = []) \<or> n \<noteq> m \<or> \<not> equalVectorArray xs ys n))
         \<longleftrightarrow> xs = ys"
proof (cases "xs = [] \<or> ys = []")
  case False
  with assms have l: "length xs = n" "length ys = m" by auto
  show ?thesis
  proof (cases "n = m")
    case True
    with l show ?thesis using False equalVectorArray_iff[of xs n ys] by auto
  next
    case ne: False
    with l have "xs \<noteq> ys" by auto
    with ne False show ?thesis by auto
  qed
qed auto

lemma return_false_conj: "(if c then False else x) \<longleftrightarrow> \<not> c \<and> x"
  by simp

lemma wf_state_lens:
  assumes "wf_state st"
  shows "length (bodytab st) = nbody st" "length (bestLikelihoodBodyTab st) = nbody st"
    "length (acctab st) = nbody st"
    "orbitTrace st \<noteq> [] \<longrightarrow> length (orbitTrace st) = nOrbitTrace st"
    "shiftByLMC st \<noteq> [] \<longrightarrow> length (shiftByLMC st) = nShiftLMC st"
  using assms by (simp_all add: wf_state_def)

text \<open>On well-formed states \<open>equalNBodyState\<close> answers TRUE exactly when step, checkpoint
  time, body count, LMC data, orbit trace and accelerations coincide and the two body tables agree
  body by body in mass, type, position and velocity.\<close>

theorem equalNBodyState_iff:
  assumes "wf_state st1" "wf_state st2"
  shows "equalNBodyState st1 st2 \<longleftrightarrow>
     step st1 = step st2 \<and> lastCheckpoint st1 = lastCheckpoint st2 \<and> nbody st1 = nbody st2
     \<and> shiftByLMC st1 = shiftByLMC st2 \<and> LMCpos st1 = LMCpos st2 \<and> LMCvel st1 = LMCvel st2
     \<and> orbitTrace st1 = orbitTrace st2
     \<and> list_all2 same_body (bodytab st1) (bodytab st2)
     \<and> list_all2 same_body (bestLikelihoodBodyTab st1) (bestLikelihoodBodyTab st2)
     \<and> acctab st1 = acctab st2"
proof (cases "nbody st1 = nbody st2")
  case False
  then show ?thesis by (simp add: equalNBodyState_def)
next
  case True
  note w1 = wf_state_lens[OF assms(1)] and w2 = wf_state_lens[OF assms(2)]
  note w2' = w2(1-3)[folded True]
  note sh = orbit_check_iff[OF w1(5) w2(5)] and orb = orbit_check_iff[OF w1(4) w2(4)]
  note arr = equalBodyArray_iff[OF w1(1) w2'(1)] equalBodyArray_iff[OF w1(2) w2'(2)]
    equalVectorArray_iff[OF w1(3) w2'(3)]
  show ?thesis
    unfolding equalNBodyState_def return_false_conj sh orb arr equalVector_iff
    using True by blast
qed

text \<open>\<open>setInitialNBodyState\<close> establishes the invariant; the C code relies on the caller
  passing as many bodies as it says.\<close>

lemma wf_setInitialNBodyState:
  "length bodies = n \<Longrightarrow> shiftByLMC st = [] \<Longrightarrow> wf_state (setInitialNBodyState st ctx bodies n)"
  by (simp add: wf_state_def setInitialNBodyState_def)

lemma take_all_eq: "length xs = n \<Longrightarrow> take n xs = xs"
  by simp

lemma clone_arrays:
  assumes "wf_state old"
  defines "st \<equiv> cloneNBodyState EMPTY_NBODYSTATE old"
  shows "bodytab st = bodytab old" "bestLikelihoodBodyTab st = bestLikelihoodBodyTab old"
    "acctab st = acctab old" "orbitTrace st = orbitTrace old" "shiftByLMC st = shiftByLMC old"
    "nbody st = nbody old" "step st = step old" "lastCheckpoint st = lastCheckpoint old"
    "LMCpos st = LMCpos old" "LMCvel st = LMCvel old"
    "orbitTrace old \<noteq> [] \<longrightarrow> nOrbitTrace st = nOrbitTrace old"
    "shiftByLMC old \<noteq> [] \<longrightarrow> nShiftLMC st = nShiftLMC old"
  using wf_state_lens[OF assms(1)]
  by (simp_all add: st_def cloneNBodyState_def clonePartialNBodyState_def EMPTY_NBODYSTATE_def Let_def)

lemma wf_clone:
  assumes "wf_state old"
  shows "wf_state (cloneNBodyState EMPTY_NBODYSTATE old)"
  using clone_arrays[OF assms] wf_state_lens[OF assms] by (simp add: wf_state_def)

text \<open>A clone of a well-formed state, made into an empty state as \<open>nbMain\<close> does between
  calibration runs, is well formed and \<open>equalNBodyState\<close> accepts it as equal to the original.\<close>

theorem clone_equal:
  assumes "wf_state old"
  shows "wf_state (cloneNBodyState EMPTY_NBODYSTATE old)
       \<and> equalNBodyState (cloneNBodyState EMPTY_NBODYSTATE old) old"
proof
  show wf: "wf_state (cloneNBodyState EMPTY_NBODYSTATE old)" by (rule wf_clone[OF assms])
  note arr = orbit_check_iff[OF wf_state_lens(5)[OF wf] wf_state_lens(5)[OF assms]]
    orbit_check_iff[OF wf_state_lens(4)[OF wf] wf_state_lens(4)[OF assms]]
  show "equalNBodyState (cloneNBodyState EMPTY_NBODYSTATE old) old"
    unfolding equalNBodyState_def return_false_conj arr equalVector_iff
    using clone_arrays[OF assms] wf_state_lens[OF assms]
    by (simp add: equalBodyArray_iff equalVectorArray_iff list_all2_same)
qed

definition sample_body :: Body where
  "sample_body = \<lparr>b_pos = \<lparr>X = 1, Y = 2, Z = 3\<rparr>, b_vel = ZERO_VECTOR, b_mass = 5,
                  b_type = BODY False, b_id = 0, b_next = None\<rparr>"

definition sample_state :: NBodyState where
  "sample_state = setInitialNBodyState EMPTY_NBODYSTATE defaultNBodyCtx [sample_body] 1"

lemma wf_sample_state: "wf_state sample_state"
  unfolding sample_state_def
  by (rule wf_setInitialNBodyState) (simp_all add: EMPTY_NBODYSTATE_def)

theorem equalNBodyState_iff_witness:
  "equalNBodyState sample_state sample_state"
  by (subst equalNBodyState_iff[OF wf_sample_state wf_sample_state]) (simp add: list_all2_same)

theorem clone_equal_witness:
  "equalNBodyState (cloneNBodyState EMPTY_NBODYSTATE sample_state) sample_state"
  using clone_equal[OF wf_sample_state] by simp

section \<open>Findings about the comparisons\<close>

text \<open>\<open>equalDisk\<close> compares each scale of the first disk with itself.\<close>

lemma equalDisk_iff: "equalDisk d1 d2 \<longleftrightarrow> d_type d1 = d_type d2 \<and> d_mass d1 = d_mass d2"
  by (simp add: equalDisk_def)

text \<open>What \<open>equalPotential\<close> decides. Bulges are compared in full, of the two disks only type
  and mass, and of the halo everything but \<open>gamma\<close> and \<open>lambda\<close>: potentials whose disks have
  different scales, or whose truncated halos have different edges, are reported equal.\<close>

theorem equalPotential_iff:
  "equalPotential p q \<longleftrightarrow>
     p_sphere p = p_sphere q
     \<and> d_type (p_disk p) = d_type (p_disk q) \<and> d_mass (p_disk p) = d_mass (p_disk q)
     \<and> d_type (p_disk2 p) = d_type (p_disk2 q) \<and> d_mass (p_disk2 p) = d_mass (p_disk2 q)
     \<and> (p_halo p)\<lparr>h_gamma := h_gamma (p_halo q), h_lambda := h_lambda (p_halo q)\<rparr> = p_halo q"
  by (cases "p_sphere p"; cases "p_sphere q"; cases "p_halo p"; cases "p_halo q")
    (simp add: equalPotential_def equalDisk_iff equalHalo_def equalSpherical_def conj_ac)

text \<open>The positional initialiser of \<open>defaultNBodyCtx\<close> puts the checkpoint period of 900
  seconds into \<open>Ntsteps\<close> and leaves \<open>checkpointT\<close> 0.\<close>

lemma default_checkpoint_period:
  "checkpointT defaultNBodyCtx = 0 \<and> Ntsteps defaultNBodyCtx = 900"
  by (simp add: defaultNBodyCtx_def NOBOINC_DEFAULT_CHECKPOINT_PERIOD_def)

section \<open>The comparator of sortBodies\<close>

text \<open>
  The contract \<open>qsort\<close> needs from a three-way comparison: antisymmetric, transitive, and 0 only
  on equal keys.
\<close>

locale three_way =
  fixes cmp :: "'a \<Rightarrow> 'a \<Rightarrow> int"
  assumes anti: "cmp b a = - cmp a b"
    and zero: "cmp a b = 0 \<Longrightarrow> a = b"
    and trans: "0 < cmp a b \<Longrightarrow> 0 < cmp b c \<Longrightarrow> 0 < cmp a c"
begin

lemma self: "cmp a a = 0"
  using anti[of a a] by simp

lemma eq_iff: "cmp a b = 0 \<longleftrightarrow> a = b"
  using zero self by auto

lemma total: "a \<noteq> b \<Longrightarrow> 0 < cmp a b \<or> 0 < cmp b a"
  using zero[of a b] anti[of b a] by linarith

lemma asym: "0 < cmp a b \<Longrightarrow> \<not> 0 < cmp b a"
  using anti[of a b] by simp

lemma sorted_unique:
  assumes "sorted_wrt (\<lambda>a b. 0 < cmp b a) xs" "sorted_wrt (\<lambda>a b. 0 < cmp b a) ys"
    "set xs = set ys"
  shows "xs = ys"
  using assms
proof (induction xs arbitrary: ys)
  case Nil
  then show ?case by simp
next
  case (Cons x xs)
  then obtain y ys' where ys: "ys = y # ys'" by (cases ys) auto
  have xmin: "\<And>z. z \<in> set xs \<Longrightarrow> 0 < cmp z x" and ymin: "\<And>z. z \<in> set ys' \<Longrightarrow> 0 < cmp z y"
    using Cons.prems ys by auto
  have "x = y"
    using Cons.prems(3) ys xmin ymin asym[of x y] by (metis list.set_intros(1) set_ConsD)
  moreover have "x \<notin> set xs" "y \<notin> set ys'" using xmin ymin self by fastforce+
  ultimately have "set xs = set ys'" using Cons.prems(3) ys by auto
  then show ?case using Cons ys \<open>x = y\<close> by auto
qed

end

lemma compareComponents_pos: "0 < compareComponents a b \<longleftrightarrow> b < a"
  and compareComponents_zero: "compareComponents a b = 0 \<longleftrightarrow> a = b"
  and compareComponents_anti: "compareComponents b a = - compareComponents a b"
  by (auto simp: compareComponents_def)

interpretation cc: three_way compareComponents
  by unfold_locales (rule compareComponents_anti, simp add: compareComponents_zero,
    simp add: compareComponents_pos)

lemma compareVectors_pos:
  "0 < compareVectors a b \<longleftrightarrow>
     mw_absv b < mw_absv a
     \<or> mw_absv a = mw_absv b \<and> (X b < X a \<or> X a = X b \<and> (Y b < Y a \<or> Y a = Y b \<and> Z b < Z a))"
  unfolding compareVectors_def Let_def compareComponents_zero
  by (auto simp: compareComponents_pos)

interpretation cv: three_way compareVectors
proof
  show "compareVectors b a = - compareVectors a b" for a b
    by (auto simp: compareVectors_def Let_def compareComponents_def)
  show "compareVectors a b = 0 \<Longrightarrow> a = b" for a b
    by (auto simp: compareVectors_def Let_def compareComponents_def split: if_splits)
  show "0 < compareVectors a b \<Longrightarrow> 0 < compareVectors b c \<Longrightarrow> 0 < compareVectors a c" for a b c
    unfolding compareVectors_pos by auto
qed

text \<open>The key \<open>compareBodies\<close> orders by: mass first, then position.\<close>

definition body_key :: "Body \<Rightarrow> real \<times> mwvector" where
  "body_key b = (b_mass b, b_pos b)"

definition key_cmp :: "real \<times> mwvector \<Rightarrow> real \<times> mwvector \<Rightarrow> int" where
  "key_cmp a b = (if compareComponents (fst a) (fst b) \<noteq> 0 then compareComponents (fst a) (fst b)
                  else compareVectors (snd a) (snd b))"

lemma key_cmp_pos:
  "0 < key_cmp a b \<longleftrightarrow> fst b < fst a \<or> fst a = fst b \<and> 0 < compareVectors (snd a) (snd b)"
  by (auto simp: key_cmp_def compareComponents_zero compareComponents_pos)

interpretation kc: three_way key_cmp
proof
  show "key_cmp b a = - key_cmp a b" for a b
    by (simp add: key_cmp_def cc.anti[of "fst a"] cv.anti[of "snd a"])
  show "key_cmp a b = 0 \<Longrightarrow> a = b" for a b
    by (auto simp: key_cmp_def cc.eq_iff cv.eq_iff prod_eq_iff split: if_splits)
  show "0 < key_cmp a b \<Longrightarrow> 0 < key_cmp b c \<Longrightarrow> 0 < key_cmp a c" for a b c
    using cv.trans[of "snd a" "snd b" "snd c"] unfolding key_cmp_pos by auto
qed

lemma compareBodies_key:
  "compareBodies a b = (if body_key a = body_key b then None else Some (key_cmp (body_key a) (body_key b)))"
  by (auto simp: compareBodies_def key_cmp_def body_key_def Let_def compareComponents_zero cv.eq_iff)

text \<open>\<open>compareBodies\<close> is a strict order by mass and then position, so any two arrangements
  of the same bodies that are sorted by it (what \<open>qsort\<close> returns when no comparison panics) list the
  same (mass, position) pairs in the same order: the hash of the sorted bodies does not depend on
  the order the bodies come in.\<close>

theorem sorted_bodies_unique:
  assumes "sorted_wrt (\<lambda>a b. \<exists>r < 0. compareBodies a b = Some r) xs"
    and "sorted_wrt (\<lambda>a b. \<exists>r < 0. compareBodies a b = Some r) ys"
    and "set xs = set ys"
  shows "map body_key xs = map body_key ys"
proof -
  have key: "sorted_wrt (\<lambda>a b. 0 < key_cmp b a) (map body_key zs)"
    if "sorted_wrt (\<lambda>a b. \<exists>r < 0. compareBodies a b = Some r) zs" for zs
    using that unfolding sorted_wrt_map
  proof (rule sorted_wrt_mono_rel[rotated])
    fix a b
    assume "\<exists>r<0. compareBodies a b = Some r"
    then show "0 < key_cmp (body_key b) (body_key a)"
      using kc.anti[of "body_key a" "body_key b"] by (auto simp: compareBodies_key split: if_splits)
  qed
  show ?thesis
    by (rule kc.sorted_unique[OF key[OF assms(1)] key[OF assms(2)]]) (simp add: assms(3))
qed

definition sample_body2 :: Body where
  "sample_body2 = sample_body\<lparr>b_mass := 7\<rparr>"

lemma sample_order: "compareBodies sample_body sample_body2 = Some (-1)"
  by (simp add: compareBodies_def Let_def compareComponents_def sample_body_def sample_body2_def)

theorem sorted_bodies_unique_witness:
  "map body_key [sample_body, sample_body2] = map body_key [sample_body, sample_body2]"
  by (rule sorted_bodies_unique) (simp_all add: sample_order)

end
