(* ===== verification/NBody_MakeTree.thy ===== *)
theory NBody_MakeTree
  imports NBody_TreeThread NBody_State
begin

text \<open>
  The whole of \<open>nbMakeTree\<close>. \<open>built ctx st t\<close> says that the heap holds the threaded octree \<open>t\<close>
  ready for the force calculation, with the masses, the centres of mass and, by \<open>framed\<close>, the critical radii of
  its cells; \<open>nbMakeTree_correct\<close> is the contract of the construction, and
  \<open>settled\<close> is the invariant that carries it from one time step to the next.
\<close>

definition built :: "real NBodyCtx \<Rightarrow> 'z tstate_scheme \<Rightarrow> otree \<Rightarrow> bool" where
  "built ctx st t \<longleftrightarrow> map_option Cl (root (tree st)) = Some (ref_of t)
     \<and> thr (bnext st) (cnext st) (cmore st) t None
     \<and> mset (bodies_of t) = mset (massive st [0..<List.length (bodytab st)])
     \<and> (\<forall>v \<in> set (nodes_of t). node_ok ctx st v)
     \<and> framed ctx st t ZERO_VECTOR (rsize (tree st))
     \<and> (\<exists>c. \<forall>i < List.length (bodytab st). inbox c (rsize (tree st)) (bpos st i))"

text \<open>What a pass that keeps bodies (but for their links), masses, positions and radii keeps.\<close>

lemma massive_cong: "bmass st' = bmass st \<Longrightarrow> massive st' is = massive st is"
  by (simp add: massive_def flip: bmass_def)

lemma unthreaded_fields:
  assumes "map unthreaded xs = map unthreaded ys"
  shows "i < List.length xs \<Longrightarrow> b_mass (xs ! i) = b_mass (ys ! i)"
    and "i < List.length xs \<Longrightarrow> b_pos (xs ! i) = b_pos (ys ! i)"
proof -
  assume i: "i < List.length xs"
  have l: "List.length ys = List.length xs" using assms by (metis length_map)
  have "unthreaded (xs ! i) = unthreaded (ys ! i)" using assms i l by (metis nth_map)
  from arg_cong[OF this, of b_mass] arg_cong[OF this, of b_pos]
  show "b_mass (xs ! i) = b_mass (ys ! i)" "b_pos (xs ! i) = b_pos (ys ! i)"
    by (simp_all add: unthreaded_def)
qed

lemma thread_frame_fields:
  assumes "thread_frame st C B st'" "B \<subseteq> {..<List.length (bodytab st)}"
  shows "bmass st' = bmass st" "bpos st' = bpos st"
proof -
  have "bmass st' i = bmass st i \<and> bpos st' i = bpos st i" for i
  proof (cases "i \<in> B")
    case True
    then have "i < List.length (bodytab st')" using assms thread_frame_length[OF assms(1)] by auto
    then show ?thesis
      using unthreaded_fields[of "bodytab st'" "bodytab st" i] assms(1)
      by (simp add: thread_frame_def bmass_def bpos_def)
  next
    case False
    then show ?thesis using assms(1) by (simp add: thread_frame_def bmass_def bpos_def)
  qed
  then show "bmass st' = bmass st" "bpos st' = bpos st" by auto
qed

lemma node_ok_fields:
  assumes "bmass st' = bmass st" "bpos st' = bpos st" "tree st' = tree st"
    and "\<And>a. c_mass (cells st' a) = c_mass (cells st a)" "\<And>a. c_pos (cells st' a) = c_pos (cells st a)"
    and "\<And>a. c_rcrit2 (cells st' a) = c_rcrit2 (cells st a)"
  shows "node_ok ctx st' v = node_ok ctx st v"
  by (cases v) (simp add: node_ok_def assms)

text \<open>The passes after loading.\<close>

lemma finish_tree:
  fixes st :: "'z tstate_scheme"
  assumes ok: "tree_ok st c ts F (mset (massive st [0..<List.length (bodytab st)]))"
    and pos: "\<forall>b \<in> set (bodytab st). 0 \<le> b_mass b" and ex: "\<exists>b \<in> set (bodytab st). b_mass b \<noteq> 0"
    and err: "\<not> structureError (tree st)" and crit: "crit_ok ctx"
    and box: "\<forall>i < List.length (bodytab st). inbox m (rsize (tree st)) (bpos st i)"
    and centre: "cpos st c = ZERO_VECTOR" and fuel: "fuel = Suc (nalloc st)"
  shows "\<exists>st' t. Option.bind (hackCofM fuel ctx st c (rsize (tree st))) (\<lambda>st.
            if structureError (tree st) then Some (NBODY_TREE_STRUCTURE_ERROR, st)
            else Option.bind (threadTree fuel st (Cl c) None) (\<lambda>st.
              if useQuad ctx
              then map_option (\<lambda>st. (NBODY_SUCCESS, st)) (hackQuad reint fuel st c)
              else Some (NBODY_SUCCESS, st))) = Some (NBODY_SUCCESS, st')
     \<and> built ctx st' t \<and> settled st' \<and> \<not> structureError (tree st')
     \<and> rsize (tree st') = rsize (tree st) \<and> treeIncest st' = treeIncest st
     \<and> map unthreaded (bodytab st') = map unthreaded (bodytab st)"
proof -
  let ?t = "Node c ts"
  have so: "sub_ok st c ts (rsize (tree st)) F" and r: "root (tree st) = Some c"
    and B: "mset (bodies_of ?t) = mset (massive st [0..<List.length (bodytab st)])"
    using ok by (simp_all add: tree_ok_def)
  have h: "heap_ok st ?t F" using so by (simp add: sub_ok_def)
  have B': "set (bodies_of ?t) = set (massive st [0..<List.length (bodytab st)])"
    using B by (metis set_mset_mset)
  have bods: "i < List.length (bodytab st) \<and> 0 < bmass st i" if "i \<in> set (bodies_of ?t)" for i
    using that pos unfolding B' massive_def bmass_def by (auto simp: less_le)
  obtain j where "j < List.length (bodytab st)" "b_mass (bodytab st ! j) \<noteq> 0"
    using ex by (metis in_set_conv_nth)
  then have "j \<in> set (bodies_of ?t)" unfolding B' by (simp add: massive_def)
  then have "live ts \<noteq> []" by (auto simp: bodies_of_Node)
  then have full: "full ?t" using so by (simp add: sub_ok_def full_Node)
  have pre: "cofm_pre st ?t (rsize (tree st))"
    using so h full bods by (simp add: cofm_pre_def sub_ok_def heap_ok_def)
  have "card (set (cells_of ?t)) \<le> nalloc st"
    using h card_mono[of "{..<nalloc st}" "set (cells_of ?t)"] by (auto simp: heap_ok_def)
  then have ht: "height ?t \<le> nalloc st"
    using h height_cells[of ?t] by (simp add: heap_ok_def distinct_card)
  obtain st1 where d: "cofm_done fuel ctx st ?t (rsize (tree st)) st1"
    using hackCofM_spec[OF pre _ crit, of fuel] ht fuel by auto
  then have c1: "hackCofM fuel ctx st c (rsize (tree st)) = Some st1"
    and f1: "cofm_frame st (set (cells_of ?t)) st1" and ok1: "\<forall>v \<in> set (nodes_of ?t). node_ok ctx st1 v"
    and fr1: "framed ctx st1 ?t ZERO_VECTOR (rsize (tree st))"
    using centre by (simp_all add: cofm_done_def)
  have b1: "bodytab st1 = bodytab st" "tree st1 = tree st" "nalloc st1 = nalloc st"
      "freeCell st1 = freeCell st" "treeIncest st1 = treeIncest st" "stuffs st1 = stuffs st"
      "cnext st1 = cnext st"
    using f1 by (simp_all add: cofm_frame_def)
  have dist: "distinct (bodies_of ?t)"
    using B mset_eq_imp_distinct_iff[OF B] by (simp add: massive_def)
  have tp: "thread_pre st1 [?t]"
    using h full bods dist by (simp add: thread_pre_def heap_ok_def b1)
  obtain st2 where c2: "threadTree fuel st1 (Cl c) None = Some st2"
    and f2: "thread_frame st1 (set (cells_of ?t)) (set (bodies_of ?t)) st2"
    and thr: "thr (bnext st2) (cnext st2) (cmore st2) ?t None"
    using threadTree_spec[OF tp, of fuel None] ht fuel by (auto simp: less_Suc_eq_le)
  have bsub: "set (bodies_of ?t) \<subseteq> {..<List.length (bodytab st1)}" using bods b1 by auto
  note v2 = thread_frame_fields[OF f2 bsub]
  have rep2: "rep (stuffs st2) ?t" "distinct (cells_of ?t)"
    using h f2 b1 by (simp_all add: heap_ok_def thread_frame_def)
  obtain st3 where c3: "hackQuad reint fuel st2 c = Some st3" and f3: "quad_frame st2 (set (cells_of ?t)) st3"
    using hackQuad_spec[OF rep2, of fuel reint] ht fuel by auto
  have good: "built ctx s ?t \<and> settled s \<and> \<not> structureError (tree s)
     \<and> rsize (tree s) = rsize (tree st) \<and> treeIncest s = treeIncest st
     \<and> map unthreaded (bodytab s) = map unthreaded (bodytab st)"
    if s: "s = st2 \<or> s = st3" for s
  proof -
    have q: "quad_frame st2 (set (cells_of ?t)) s" using s f3 quad_frame_refl by auto
    have b: "bodytab s = bodytab st2" "tree s = tree st" "nalloc s = nalloc st" "freeCell s = freeCell st"
      "treeIncest s = treeIncest st" "map unthreaded (bodytab st2) = map unthreaded (bodytab st)"
      using q f2 b1 by (simp_all add: quad_frame_def thread_frame_def)
    have v: "bmass s = bmass st" "bpos s = bpos st"
      using v2 b1 b(1) by (simp_all add: bmass_def[abs_def] bpos_def[abs_def])
    have len: "List.length (bodytab s) = List.length (bodytab st)"
      using thread_frame_length[OF f2] b b1 by simp
    have "thr (bnext s) (cnext s) (cmore s) ?t None"
      using thr quad_frame_fields[OF q] b(1) by (simp add: bnext_def[abs_def])
    moreover have same: "bmass s = bmass st1" "bpos s = bpos st1" "tree s = tree st1"
      using v b1 b by (simp_all add: bmass_def[abs_def] bpos_def[abs_def])
    moreover have cell: "c_pos (cells s a) = c_pos (cells st1 a)" "c_mass (cells s a) = c_mass (cells st1 a)"
      "c_rcrit2 (cells s a) = c_rcrit2 (cells st1 a)" for a
      using quad_frame_fields[OF q] f2 by (simp_all add: cpos_def fun_eq_iff thread_frame_def)
    moreover have "\<forall>v \<in> set (nodes_of ?t). node_ok ctx s v"
      using ok1 node_ok_fields[OF same cell(2,1,3)] by blast
    moreover have "framed ctx s ?t ZERO_VECTOR (rsize (tree s))"
      using fr1 framed_cong[of ?t s st1 ctx] cell same b(2) by simp
    moreover have "free_ok s (cells_of ?t) F"
    proof -
      have same: "c_next (cells st a) = c_next (cells s a)" if "a \<in> set F" for a
      proof -
        have "a \<notin> set (cells_of ?t)" using h that by (auto simp: heap_ok_def)
        then have "cells s a = cells st a" using q f2 f1
          unfolding quad_frame_def thread_frame_def cofm_frame_def by simp
        then show ?thesis by simp
      qed
      have "flist (cells s) (freeCell st) F" using h flist_cong[of F "cells st" "cells s" "freeCell st"] same by (simp add: heap_ok_def)
      then show ?thesis using h b by (simp add: free_ok_def heap_ok_def)
    qed
    ultimately show ?thesis
      using r B box err b v len massive_cong[of s st "[0..<List.length (bodytab st)]"]
      by (auto simp: built_def settled_def)
  qed
  show ?thesis
    using good[of st2] good[of st3] c1 c2 c3 err b1(2)
    by (cases "useQuad ctx") auto
qed

section \<open>The contract of the construction\<close>

lemma make_tree:
  fixes st :: "'z tstate_scheme"
  assumes "settled st" "0 < rsize (tree st)" "\<not> structureError (tree st)" "crit_ok ctx"
    and pos: "\<forall>b \<in> set (bodytab st). 0 \<le> b_mass b" and ex: "\<exists>b \<in> set (bodytab st). b_mass b \<noteq> 0"
  obtains (clash) st' where "nbMakeTree reint ctx st = Some (NBODY_TREE_STRUCTURE_ERROR, st')" "clash st"
    | (built) st' t where "nbMakeTree reint ctx st = Some (NBODY_SUCCESS, st')" "built ctx st' t"
        "settled st'" "\<not> structureError (tree st')" "rsize (tree st) \<le> rsize (tree st')"
        "treeIncest st' = treeIncest st" "map unthreaded (bodytab st') = map unthreaded (bodytab st)"
proof -
  obtain st1 c F where n: "nbNewTree st = Some st1" "root (tree st1) = Some c"
    "\<And>s. sub_ok st1 c (replicate NSUB None) s F" "cpos st1 c = ZERO_VECTOR"
    "bodytab st1 = bodytab st" "treeIncest st1 = treeIncest st"
    "rsize (tree st1) = rsize (tree st)" "structureError (tree st1) = structureError (tree st)"
    by (rule nbNewTree_spec[OF assms(1)]) blast
  have rs: "0 < rsize (tree st1)" using n(7) assms(2) by simp
  obtain rs where e: "expandBox st1 = Some (st1\<lparr>tree := (tree st1)\<lparr>rsize := rs\<rparr>\<rparr>)"
    "rsize (tree st1) \<le> rs" "\<And>b. b \<in> set (bodytab st1) \<Longrightarrow> inbox (cpos st1 c) rs (b_pos b)"
    by (rule expandBox_spec[OF rs n(2)]) blast
  define st2 where "st2 = st1\<lparr>tree := (tree st1)\<lparr>rsize := rs\<rparr>\<rparr>"
  let ?is = "[0..<List.length (bodytab st)]"
  have b2: "bodytab st2 = bodytab st" "treeIncest st2 = treeIncest st" "rsize (tree st2) = rs"
    "root (tree st2) = Some c" "structureError (tree st2) = structureError (tree st)" "cpos st2 c = cpos st1 c"
    using n by (simp_all add: st2_def cpos_def)
  have "sub_ok st2 c (replicate NSUB None) rs F"
    using n(3)[of rs] by (simp add: sub_ok_def heap_ok_def st2_def stuffs_def[abs_def] ogeo_Node bodies_of_Node)
  then have t2: "tree_ok st2 c (replicate NSUB None) F {#}" using b2 by (simp add: tree_ok_def bodies_of_Node)
  have box: "\<forall>i < List.length (bodytab st). inbox (cpos st2 c) rs (bpos st i)"
    using e(3) n(5) b2(6) by (simp add: bpos_def)
  have bpos2: "bpos st2 = bpos st" by (simp add: bpos_def b2 fun_eq_iff)
  define st3 where "st3 = load_bodies st2 ?is"
  have "\<exists>ts' F'. bodytab st3 = bodytab st2
      \<and> rsize (tree st3) = rsize (tree st2) \<and> treeIncest st3 = treeIncest st2 \<and> cpos st3 c = cpos st2 c
      \<and> (tree_ok st3 c ts' F' ({#} + mset (massive st2 ?is)) \<and> structureError (tree st3) = structureError (tree st2)
         \<or> structureError (tree st3) \<and> clash st2)"
    using load_bodies_spec[OF t2, of ?is] box b2 bpos2 by (simp add: st3_def Let_def)
  then obtain ts F' where l: "bodytab st3 = bodytab st" "rsize (tree st3) = rs" "treeIncest st3 = treeIncest st"
      "cpos st3 c = ZERO_VECTOR"
      "tree_ok st3 c ts F' (mset (massive st2 ?is)) \<and> structureError (tree st3) = structureError (tree st)
         \<or> structureError (tree st3) \<and> clash st2"
    using b2 n(4) by auto
  have root3: "\<not> structureError (tree st3) \<Longrightarrow> root (tree st3) = Some c"
    using l(5) by (auto simp: tree_ok_def)
  have mk: "nbMakeTree reint ctx st = (let fuel = Suc (nalloc st3); t = the (root (tree st3)) in
       if structureError (tree st3) then Some (NBODY_TREE_STRUCTURE_ERROR, st3)
       else Option.bind (hackCofM fuel ctx st3 t (rsize (tree st3))) (\<lambda>st.
            if structureError (tree st) then Some (NBODY_TREE_STRUCTURE_ERROR, st)
            else Option.bind (threadTree fuel st (Cl t) None) (\<lambda>st.
              if useQuad ctx
              then map_option (\<lambda>st. (NBODY_SUCCESS, st)) (hackQuad reint fuel st t)
              else Some (NBODY_SUCCESS, st))))"
    unfolding nbMakeTree_def n(1) Option.bind.bind_lunit e(1) Let_def
    unfolding st2_def[symmetric] b2(1) st3_def[symmetric] by (rule refl)
  have cl: "clash st2 = clash st" by (simp add: clash_def b2 bpos2)
  show ?thesis
  proof (cases "structureError (tree st3)")
    case True
    then show ?thesis using clash[of st3] l(5) assms(3) cl mk by (auto simp: Let_def)
  next
    case False
    have ms: "massive st2 ?is = massive st3 [0..<List.length (bodytab st3)]"
      by (simp add: massive_def b2 l)
    have t3: "tree_ok st3 c ts F' (mset (massive st3 [0..<List.length (bodytab st3)]))"
      using l(5) False ms by auto
    have box3: "\<forall>i < List.length (bodytab st3). inbox (cpos st2 c) (rsize (tree st3)) (bpos st3 i)"
      using box l by (simp add: bpos_def)
    have pos3: "\<forall>b \<in> set (bodytab st3). 0 \<le> b_mass b" "\<exists>b \<in> set (bodytab st3). b_mass b \<noteq> 0"
      using pos ex l(1) by simp_all
    show ?thesis
      using finish_tree[OF t3 pos3 False assms(4) box3 l(4) refl, of reint] built mk root3[OF False] False l e(2) n(7)
      by (auto simp: Let_def)
  qed
qed

text \<open>The tree state \<open>setInitialNBodyState\<close> sets up is settled.\<close>

lemma settled_initial: "settled (setInitialNBodyState st ctx bodies n)"
  by (auto simp: settled_def free_ok_def setInitialNBodyState_def EMPTY_TREE_def intro!: exI[of _ "[]"])

lemma initial_fields:
  "rsize (tree (setInitialNBodyState st ctx bodies n)) = treeRSize ctx"
  "\<not> structureError (tree (setInitialNBodyState st ctx bodies n))"
  "bodytab (setInitialNBodyState st ctx bodies n) = bodies"
  by (simp_all add: setInitialNBodyState_def EMPTY_TREE_def)

section \<open>Properties\<close>

text \<open>C1: \<open>nbMakeTree\<close> from a settled state with a positive size of the tree and no structure error, for a
  criterion that has a critical radius (or the opening angle 0) and masses that are not negative and not
  all 0: it returns. Unless two bodies are closer than the machine epsilon in every coordinate, in which
  case it may report the structure error, it succeeds: the threaded octree holds exactly the bodies of
  nonzero mass, and every cell has the total mass and the centre of mass of the bodies below it. The
  critical radius of a cell is the one that \<open>findRCrit\<close> gives for its geometric centre and its size: the root
  has the centre of the coordinates and the size of the tree, and a sub-cell has half the size and the
  centre of the octant in which its bodies lie (\<open>framed\<close>). Bodies change in nothing but their links, and the
  state is again one that the next call can start from.\<close>

theorem nbMakeTree_correct:
  assumes "settled st" "0 < rsize (tree st)" "\<not> structureError (tree st)" "crit_ok ctx"
    and "\<forall>b \<in> set (bodytab st). 0 \<le> b_mass b" "\<exists>b \<in> set (bodytab st). b_mass b \<noteq> 0"
  shows "\<exists>st'. nbMakeTree reint ctx st = Some (NBODY_TREE_STRUCTURE_ERROR, st') \<and> clash st
    \<or> nbMakeTree reint ctx st = Some (NBODY_SUCCESS, st') \<and> (\<exists>t. built ctx st' t) \<and> settled st'
      \<and> rsize (tree st) \<le> rsize (tree st') \<and> \<not> structureError (tree st')
      \<and> map unthreaded (bodytab st') = map unthreaded (bodytab st)"
  by (cases rule: make_tree[OF assms, of reint, case_names clash built]) blast+

definition body_at :: "real \<Rightarrow> real \<Rightarrow> real \<Rightarrow> real \<Rightarrow> Body" where
  "body_at x y z m = \<lparr>b_pos = \<lparr>X = x, Y = y, Z = z\<rparr>, b_vel = ZERO_VECTOR, b_mass = m,
                      b_type = BODY False, b_id = 0, b_next = None\<rparr>"

definition pair_state :: NBodyState where
  "pair_state = setInitialNBodyState EMPTY_NBODYSTATE defaultNBodyCtx
     [body_at 1 2 3 5, body_at (-1) 7 0 4] 2"

definition exact_ctx :: "real NBodyCtx" where
  "exact_ctx = defaultNBodyCtx\<lparr>theta := 0, eps2 := 1/4\<rparr>"

lemma pair_state_simps:
  "settled pair_state" "rsize (tree pair_state) = 4" "\<not> structureError (tree pair_state)"
  "bodytab pair_state = [body_at 1 2 3 5, body_at (-1) 7 0 4]" "nbody pair_state = 2"
  using settled_initial
  by (simp_all add: pair_state_def initial_fields) (simp_all add: defaultNBodyCtx_def setInitialNBodyState_def)

lemma pair_state_masses: "\<forall>b \<in> set (bodytab pair_state). 0 \<le> b_mass b"
  "\<exists>b \<in> set (bodytab pair_state). b_mass b \<noteq> 0"
  by (simp_all add: pair_state_simps body_at_def)

lemma pair_state_apart: "\<not> clash pair_state"
proof
  assume "clash pair_state"
  then obtain i j where "i < 2" "j < 2" "i \<noteq> j" "too_close (bpos pair_state i) (bpos pair_state j)"
    unfolding clash_def by (auto simp: pair_state_simps numeral_2_eq_2)
  then have "i = 0 \<and> j = 1 \<or> i = 1 \<and> j = 0" by linarith
  then show False using \<open>too_close _ _\<close>
    by (auto simp: too_close_def bpos_def pair_state_simps body_at_def REAL_EPSILON_def)
qed

lemma exact_crit: "crit_ok exact_ctx" "theta exact_ctx = 0" "0 < eps2 exact_ctx"
  by (simp_all add: crit_ok_def exact_ctx_def)

theorem nbMakeTree_correct_witness:
  "\<exists>st' t. nbMakeTree (\<lambda>_. zero_quad) exact_ctx pair_state = Some (NBODY_SUCCESS, st') \<and> built exact_ctx st' t
     \<and> settled st'"
  using nbMakeTree_correct[OF pair_state_simps(1) _ pair_state_simps(3) exact_crit(1) pair_state_masses]
    pair_state_apart pair_state_simps(2) by fastforce

lemma sum_over_built:
  assumes "mset is = mset (massive st [0..<n])" "\<And>i. b_mass (bodytab st ! i) = 0 \<Longrightarrow> f i = (0::real)"
  shows "(\<Sum>i\<leftarrow>is. f i) = (\<Sum>i<n. f i)"
proof -
  have "(\<Sum>i\<leftarrow>is. f i) = sum_mset (image_mset f (mset is))" by (simp flip: mset_map sum_mset_sum_list)
  also have "\<dots> = (\<Sum>i\<leftarrow>massive st [0..<n]. f i)" by (simp add: assms(1) flip: mset_map sum_mset_sum_list)
  also have "\<dots> = (\<Sum>i\<leftarrow>[0..<n]. f i)"
  proof -
    have "(\<Sum>i\<leftarrow>massive st js. f i) = (\<Sum>i\<leftarrow>js. f i)" for js
      by (induction js) (simp_all add: massive_def assms(2))
    then show ?thesis .
  qed
  also have "\<dots> = (\<Sum>i<n. f i)" by (simp add: sum.distinct_set_conv_list[symmetric] atLeast0LessThan)
  finally show ?thesis .
qed

text \<open>Bodies that are pairwise apart always give a tree, and the root cell of the tree has
  the total mass and the centre of mass of all bodies.\<close>

theorem nbMakeTree_root_cm:
  assumes "settled st" "0 < rsize (tree st)" "\<not> structureError (tree st)" "crit_ok ctx"
    and "\<forall>b \<in> set (bodytab st). 0 \<le> b_mass b" "\<exists>b \<in> set (bodytab st). b_mass b \<noteq> 0"
    and "\<not> clash st"
  defines "n \<equiv> List.length (bodytab st)" and "M \<equiv> \<Sum>i < List.length (bodytab st). bmass st i"
  shows "\<exists>st' r. nbMakeTree reint ctx st = Some (NBODY_SUCCESS, st') \<and> root (tree st') = Some r
    \<and> c_mass (cells st' r) = M
    \<and> X (c_pos (cells st' r)) = (\<Sum>i<n. bmass st i * X (bpos st i)) / M
    \<and> Y (c_pos (cells st' r)) = (\<Sum>i<n. bmass st i * Y (bpos st i)) / M
    \<and> Z (c_pos (cells st' r)) = (\<Sum>i<n. bmass st i * Z (bpos st i)) / M"
proof (rule make_tree[OF assms(1-6), of reint])
  fix st' t assume mk: "nbMakeTree reint ctx st = Some (NBODY_SUCCESS, st')" "built ctx st' t"
    "map unthreaded (bodytab st') = map unthreaded (bodytab st)"
  have len: "List.length (bodytab st') = n" unfolding n_def using mk(3) by (metis length_map)
  have eq: "bmass st' i = bmass st i" "bpos st' i = bpos st i" if "i < n" for i
    using unthreaded_fields[OF mk(3), of i] that len by (simp_all add: bmass_def bpos_def)
  have B: "mset (bodies_of t) = mset (massive st' [0..<n])" using mk(2) len by (simp add: built_def)
  obtain a ts where t: "t = Node a ts" "root (tree st') = Some a"
    using mk(2) by (cases t) (auto simp: built_def)
  have ok: "node_ok ctx st' (a, ts)" using mk(2) by (simp add: built_def t nodes_of_Node)
  have S: "(\<Sum>i\<leftarrow>bodies_of t. bmass st' i) = M"
    "(\<Sum>i\<leftarrow>bodies_of t. bmass st' i * g (bpos st' i)) = (\<Sum>i<n. bmass st i * g (bpos st i))" for g
    unfolding M_def n_def[symmetric]
    using sum_over_built[OF B, of "bmass st'"] sum_over_built[OF B, of "\<lambda>i. bmass st' i * g (bpos st' i)"]
    by (simp_all add: bmass_def[of st'] eq[unfolded bmass_def[of st']] eq(2))
  show ?thesis
    using ok mk(1) t S(1) S(2)[of X] S(2)[of Y] S(2)[of Z]
    by (intro exI[of _ st'] exI[of _ a]) (simp add: node_ok_def tmass_def tcom_def wsum_def mw_divvs_def)
qed (use assms(7) in blast)

theorem nbMakeTree_root_cm_witness:
  "\<exists>st' r. nbMakeTree (\<lambda>_. zero_quad) exact_ctx pair_state = Some (NBODY_SUCCESS, st')
     \<and> root (tree st') = Some r \<and> c_mass (cells st' r) = 9 \<and> X (c_pos (cells st' r)) = 1 / 9"
  using nbMakeTree_root_cm[OF pair_state_simps(1) _ pair_state_simps(3) exact_crit(1) pair_state_masses
      pair_state_apart, of "\<lambda>_. zero_quad"]
  by (auto simp: pair_state_simps bmass_def bpos_def body_at_def lessThan_Suc numeral_2_eq_2)

end
