(* ===== verification/NBody_More.thy ===== *)
theory NBody_More
  imports NBody_Tree
begin

text \<open>
  The tree code touches no field of \<open>NBodyState\<close> outside \<open>tstate\<close>, and no body but for its link.
\<close>

lemma upd_cell_more [frame_simps]: "tstate.more (upd_cell a f st) = tstate.more st"
  by (simp add: upd_cell_def)

lemma set_Next_more [frame_simps]: "tstate.more (set_Next st r n) = tstate.more st"
  by (cases r) (simp_all add: frame_simps)

lemma set_subp_more [frame_simps]: "tstate.more (set_subp a i r st) = tstate.more st"
  by (simp add: set_subp_def frame_simps)

lemma nbMakeCell_more: "nbMakeCell st = (c, st') \<Longrightarrow> tstate.more st' = tstate.more st"
  by (auto simp: nbMakeCell_def Let_def frame_simps split: option.splits)

lemma split_leaf_more [frame_simps]: "tstate.more (split_leaf st p q i s r) = tstate.more st"
  by (simp add: split_leaf_def Let_def frame_simps nbMakeCell_more split: prod.splits)

lemma set_structureError_more [frame_simps]: "tstate.more (set_structureError st) = tstate.more st"
  by (simp add: set_structureError_def)

lemma load_loop_more [frame_simps]: "tstate.more (load_loop st p q i s l) = tstate.more st"
proof (induction st p q i s l rule: load_loop.induct)
  case (1 st p q i s l)
  show ?case
  proof (cases "subps st q ! i")
    case None
    then show ?thesis by (subst load_loop.simps) (simp add: Let_def frame_simps)
  next
    case (Some r)
    have "tstate.more (case r of Bd _ \<Rightarrow> split_leaf st p q i s r | Cl _ \<Rightarrow> st) = tstate.more st"
      by (cases r) (simp_all add: frame_simps)
    then show ?thesis using Some 1[OF Some _ refl refl refl]
      by (subst load_loop.simps) (simp add: Let_def frame_simps)
  qed
qed

lemma load_bodies_more: "tstate.more (load_bodies st is) = tstate.more st"
  by (induction "is" arbitrary: st) (simp_all add: load_bodies_def nbLoadBody_def Let_def frame_simps)

lemma reclaim_cells_more:
  assumes "reclaim_cells st p = Some st'"
  shows "tstate.more st' = tstate.more st"
  using assms
proof (induction rule: reclaim_cells.raw_induct[rotated, consumes 1, case_names 1])
  case (1 rec st p st')
  show ?case
  proof (cases p)
    case None
    then show ?thesis using 1(2) by simp
  next
    case (Some r)
    show ?thesis
    proof (cases r)
      case (Bd i)
      then show ?thesis using 1(2) Some 1(1)[of st "Next st r" st'] by simp
    next
      case (Cl a)
      let ?st1 = "(set_Next st r (freeCell st))\<lparr>freeCell := Some r\<rparr>"
      show ?thesis using 1(2) Some Cl 1(1)[of ?st1 "c_more (cells ?st1 a)" st']
        by (simp add: Let_def frame_simps)
    qed
  qed
qed

lemma nbCheckTreeStructure_more [frame_simps]:
  "tstate.more (nbCheckTreeStructure st c m s) = tstate.more st"
  by (simp add: nbCheckTreeStructure_def nbCheckTreeDim_def Let_def frame_simps)

lemma hackCofM_more:
  "hackCofM n ctx st p s = Some st' \<Longrightarrow> tstate.more st' = tstate.more st"
  "cofm_loop n ctx st p s is cm = Some (st', cm') \<Longrightarrow> tstate.more st' = tstate.more st"
proof (induction n ctx st p s and n ctx st p s "is" cm arbitrary: st' and st' cm' rule: hackCofM_cofm_loop.induct)
  case (2 n ctx st p psize)
  obtain st1 cm where 1: "cofm_loop n ctx (upd_cell p (c_mass_update (\<lambda>_. 0)) st) p psize [0..<NSUB] ZERO_VECTOR = Some (st1, cm)"
    using 2(2) by (auto simp: Let_def split: option.splits)
  have "tstate.more st1 = tstate.more st" using 2(1)[OF refl 1] by (simp add: frame_simps)
  then show ?case using 2(2) 1 by (auto simp: Let_def frame_simps)
next
  case (4 n ctx st p psize i "is" cmpos)
  show ?case
  proof (cases "subps st p ! i")
    case None
    then show ?thesis using 4 by simp
  next
    case (Some q)
    let ?c = "case q of Cl a \<Rightarrow> hackCofM n ctx st a (0.5 * psize) | Bd _ \<Rightarrow> Some st"
    obtain st1 where 1: "?c = Some st1" using 4(4) Some by (auto split: option.splits)
    have m1: "tstate.more st1 = tstate.more st"
      using 1 4(2)[OF Some] by (cases q) auto
    have "cofm_loop n ctx (upd_cell p (c_mass_update (\<lambda>m. m + Mass st1 q)) st1) p psize is
        (mw_incaddv_s cmpos (Pos (upd_cell p (c_mass_update (\<lambda>m. m + Mass st1 q)) st1) q)
           (Mass (upd_cell p (c_mass_update (\<lambda>m. m + Mass st1 q)) st1) q)) = Some (st', cm')"
      using 4(4) Some 1 by (simp add: Let_def)
    from 4(3)[OF Some 1 refl this] show ?thesis using m1 by (simp add: frame_simps)
  qed
qed simp_all

lemma threadTree_more:
  "threadTree k st p n = Some st' \<Longrightarrow> tstate.more st' = tstate.more st"
  "thread_loop k st ds n = Some st' \<Longrightarrow> tstate.more st' = tstate.more st"
proof (induction k st p n and k st ds n arbitrary: st' and st' rule: threadTree_thread_loop.induct)
  case (2 k st p n)
  show ?case
  proof (cases p)
    case (Bd i)
    then show ?thesis using 2(2) by auto
  next
    case (Cl a)
    have "tstate.more st' = tstate.more (upd_cell a (c_more_update (\<lambda>_. map Some (live (subps (set_Next st p n) a)) ! 0)) (set_Next st p n))"
      using 2(1)[OF refl Cl refl refl] 2(2) Cl by (simp add: Let_def)
    then show ?thesis by (simp only: frame_simps)
  qed
next
  case (4 k st d ds n)
  obtain st1 where 1: "threadTree k st d (case ds of [] \<Rightarrow> n | e # _ \<Rightarrow> Some e) = Some st1"
    using 4(3) by (auto split: option.splits)
  then show ?case using 4(1)[OF 1] 4(2)[OF 1] 4(3) by simp
qed simp_all

lemma hackQuad_more:
  "hackQuad reint k st p = Some st' \<Longrightarrow> tstate.more st' = tstate.more st"
  "quad_loop reint k st p ds = Some st' \<Longrightarrow> tstate.more st' = tstate.more st"
proof (induction reint k st p and reint k st p ds arbitrary: st' and st' rule: hackQuad_quad_loop.induct)
  case (2 reint n st p)
  then show ?case by simp
next
  case (4 reint n st p q qs)
  let ?c = "case q of Cl a \<Rightarrow> hackQuad reint n st a | Bd _ \<Rightarrow> Some st"
  obtain st1 where 1: "?c = Some st1" using 4(3) by (auto split: option.splits)
  have m: "tstate.more st1 = tstate.more st" using 1 4(1) by (cases q) auto
  then show ?case
    using 4(3) 4(2)[OF 1 refl refl refl refl]
    by (simp only: quad_loop.simps(2) 1 option.case Let_def frame_simps)
qed simp_all

lemma nbNewTree_more:
  assumes "nbNewTree st = Some st'"
  shows "tstate.more st' = tstate.more st"
proof -
  obtain st1 where 1: "reclaim_cells st (map_option Cl (root (tree st))) = Some st1"
    using assms by (auto simp: nbNewTree_def)
  obtain c st2 where 2: "nbMakeCell (st1\<lparr>tree := (tree st1)\<lparr>cellUsed := 0, maxDepth := 0\<rparr>\<rparr>) = (c, st2)"
    by fastforce
  show ?thesis
    using assms 1 2 nbMakeCell_more[OF 2] reclaim_cells_more[OF 1]
    by (auto simp: nbNewTree_def Let_def frame_simps)
qed

lemma expandBox_more: "expandBox st = Some st' \<Longrightarrow> tstate.more st' = tstate.more st"
  by (auto simp: expandBox_def)

lemma nbMakeTree_more:
  assumes "nbMakeTree reint ctx st = Some (rc, st')"
  shows "tstate.more st' = tstate.more st"
proof -
  obtain st1 where 1: "nbNewTree st = Some st1" using assms by (auto simp: nbMakeTree_def elim: obind_SomeE)
  obtain st2 where 2: "expandBox st1 = Some st2" using assms 1 by (auto simp: nbMakeTree_def elim: obind_SomeE)
  define st3 where "st3 = load_bodies st2 [0..<List.length (bodytab st2)]"
  have m: "tstate.more st3 = tstate.more st"
    using nbNewTree_more[OF 1] expandBox_more[OF 2] by (simp add: st3_def load_bodies_more)
  define f t where "f = Suc (nalloc st3)" and "t = the (root (tree st3))"
  have "tstate.more st' = tstate.more st3"
  proof (cases "structureError (tree st3)")
    case True
    then show ?thesis using assms 1 2 by (simp add: nbMakeTree_def Let_def st3_def)
  next
    case False
    then have r: "Option.bind (hackCofM f ctx st3 t (rsize (tree st3))) (\<lambda>st.
            if structureError (tree st) then Some (NBODY_TREE_STRUCTURE_ERROR, st)
            else Option.bind (threadTree f st (Cl t) None) (\<lambda>st.
              if useQuad ctx
              then map_option (\<lambda>st. (NBODY_SUCCESS, st)) (hackQuad reint f st t)
              else Some (NBODY_SUCCESS, st))) = Some (rc, st')"
      using assms 1 2 unfolding nbMakeTree_def f_def t_def st3_def by (simp add: Let_def)
    obtain st4 where 4: "hackCofM f ctx st3 t (rsize (tree st3)) = Some st4"
      using r by (auto elim: obind_SomeE)
    note m4 = hackCofM_more(1)[OF 4]
    show ?thesis
    proof (cases "structureError (tree st4)")
      case True
      then show ?thesis using r 4 m4 by simp
    next
      case False
      obtain st5 where 5: "threadTree f st4 (Cl t) None = Some st5"
        using r 4 False by (auto elim: obind_SomeE)
      show ?thesis using r 4 5 False m4 threadTree_more(1)[OF 5] hackQuad_more(1)[of reint f st5 t]
        by (auto split: if_splits)
    qed
  qed
  then show ?thesis using m by simp
qed

end
