(* ===== verification/NBody_Grav.thy ===== *)
theory NBody_Grav
  imports NBody_MakeTree NBody_More
begin

text \<open>
  \<open>nbody_grav.c\<close>: the walk over the threaded tree, the exact pairwise sum, and the status of
  tree incest. The walk is a \<open>partial_function\<close>, since it stops only on a heap whose links lead
  out of the tree; \<open>grav_walk_tree\<close> shows that it does so on every built tree and computes
  what the recursive descent of the octree computes.
\<close>

section \<open>The walk\<close>

text \<open>The acceleration towards a mass \<open>m\<close> at the separation \<open>dr\<close>, softened by \<open>eps2\<close>.\<close>

definition pair_accel :: "real \<Rightarrow> mwvector \<Rightarrow> real \<Rightarrow> mwvector" where
  "pair_accel e2 dr m =
     (let drSq = mw_sqrv dr + e2; drab = sqrt drSq; phii = m / drab; mor3 = phii / drSq
      in mw_mulvs dr mor3)"

definition quad_accel :: "real \<Rightarrow> NBodyQuadMatrix \<Rightarrow> mwvector \<Rightarrow> mwvector" where
  "quad_accel e2 Q dr =
     (let drSq = mw_sqrv dr + e2; drab = sqrt drSq;
          Qdr = \<lparr>X = xx Q * X dr + xy Q * Y dr + xz Q * Z dr,
                 Y = xy Q * X dr + yy Q * Y dr + yz Q * Z dr,
                 Z = xz Q * X dr + yz Q * Y dr + zz Q * Z dr\<rparr>;
          drQdr = X Qdr * X dr + Y Qdr * Y dr + Z Qdr * Z dr;
          dr5inv = 1 / (sqr drSq * drab);
          phiQ = 2.5 * (dr5inv * drQdr) / drSq
      in mw_subv (mw_mulvs dr phiQ) (mw_mulvs Qdr dr5inv))"

definition node_accel :: "(node_ref option list \<Rightarrow> NBodyQuadMatrix) \<Rightarrow> real NBodyCtx
    \<Rightarrow> 'z tstate_scheme \<Rightarrow> nat \<Rightarrow> node_ref \<Rightarrow> mwvector \<Rightarrow> mwvector" where
  "node_accel reint ctx st p q acc0 =
     (let dr = mw_subv (Pos st q) (Pos st (Bd p));
          acc0 = mw_addv acc0 (pair_accel (eps2 ctx) dr (Mass st q))
      in case q of
           Cl a \<Rightarrow> if useQuad ctx
                    then mw_addv acc0 (quad_accel (eps2 ctx) (quad_of reint (c_stuff (cells st a))) dr)
                    else acc0
         | Bd _ \<Rightarrow> acc0)"

fun use_node :: "'z tstate_scheme \<Rightarrow> nat \<Rightarrow> node_ref \<Rightarrow> bool" where
  "use_node st p (Bd i) \<longleftrightarrow> True"
| "use_node st p (Cl a) \<longleftrightarrow>
     mw_sqrv (mw_subv (Pos st (Cl a)) (Pos st (Bd p))) \<ge> c_rcrit2 (cells st a)"

partial_function (option) grav_walk :: "(node_ref option list \<Rightarrow> NBodyQuadMatrix) \<Rightarrow> real NBodyCtx
    \<Rightarrow> 'z tstate_scheme \<Rightarrow> nat \<Rightarrow> node_ref option \<Rightarrow> mwvector \<Rightarrow> bool \<Rightarrow> (mwvector \<times> bool) option" where
  "grav_walk reint ctx st p qo acc0 skipSelf =
     (case qo of
        None \<Rightarrow> Some (acc0, skipSelf)
      | Some q \<Rightarrow>
          if use_node st p q then
            if q \<noteq> Bd p
            then grav_walk reint ctx st p (Next st q) (node_accel reint ctx st p q acc0) skipSelf
            else grav_walk reint ctx st p (Next st q) acc0 True
          else grav_walk reint ctx st p (c_more (cells st (cell_addr q))) acc0 skipSelf)"

definition nbReportTreeIncest :: "real NBodyCtx \<Rightarrow> 'z tstate_scheme \<Rightarrow> 'z tstate_scheme" where
  "nbReportTreeIncest ctx st = (if \<not> treeIncest st then st\<lparr>treeIncest := True\<rparr> else st)"

definition nbGravity :: "(node_ref option list \<Rightarrow> NBodyQuadMatrix) \<Rightarrow> real NBodyCtx
    \<Rightarrow> 'z tstate_scheme \<Rightarrow> nat \<Rightarrow> (mwvector \<times> 'z tstate_scheme) option" where
  "nbGravity reint ctx st p =
     map_option (\<lambda>(acc0, skipSelf). (acc0, if \<not> skipSelf then nbReportTreeIncest ctx st else st))
       (grav_walk reint ctx st p (map_option Cl (root (tree st))) ZERO_VECTOR False)"

text \<open>The sum over all bodies has the term of the body itself, which is the zero vector for a positive softening.
  Without softening it is 0/0, not a number, in the code; \<open>hasAcceptableEps2\<close> refuses such a context, and what is
  proved of exact forces assumes \<open>0 < eps2 ctx\<close>.\<close>

definition nbGravity_Exact :: "real NBodyCtx \<Rightarrow> 'z NBodyState_scheme \<Rightarrow> nat \<Rightarrow> mwvector" where
  "nbGravity_Exact ctx st p =
     fold (\<lambda>i a. let b = bodytab st ! i; dr = mw_subv (b_pos b) (b_pos (bodytab st ! p));
                     drSq = mw_sqrv dr + eps2 ctx; drab = sqrt drSq;
                     phii = b_mass b / drab; mor3 = phii / drSq
                 in mw_incaddv a (mw_mulvs dr mor3)) [0..<nbody st] ZERO_VECTOR"

definition nbIncestStatusCheck :: "real NBodyCtx \<Rightarrow> 'z tstate_scheme \<Rightarrow> NBodyStatus" where
  "nbIncestStatusCheck ctx st =
     (if treeIncest st
      then if allowIncest ctx then NBODY_TREE_INCEST_NONFATAL else NBODY_TREE_INCEST_FATAL
      else NBODY_SUCCESS)"

section \<open>The walk is the descent of the octree\<close>

definition visit :: "(node_ref option list \<Rightarrow> NBodyQuadMatrix) \<Rightarrow> real NBodyCtx
    \<Rightarrow> 'z tstate_scheme \<Rightarrow> nat \<Rightarrow> node_ref \<Rightarrow> mwvector \<times> bool \<Rightarrow> mwvector \<times> bool" where
  "visit reint ctx st p q s = (if q \<noteq> Bd p then (node_accel reint ctx st p q (fst s), snd s) else (fst s, True))"

fun tree_walk :: "(node_ref option list \<Rightarrow> NBodyQuadMatrix) \<Rightarrow> real NBodyCtx
    \<Rightarrow> 'z tstate_scheme \<Rightarrow> nat \<Rightarrow> otree \<Rightarrow> mwvector \<times> bool \<Rightarrow> mwvector \<times> bool" where
  "tree_walk reint ctx st p (Leaf i) s = visit reint ctx st p (Bd i) s"
| "tree_walk reint ctx st p (Node a ts) s =
     (if use_node st p (Cl a) then visit reint ctx st p (Cl a) s
      else fold (\<lambda>t s. case t of None \<Rightarrow> s | Some u \<Rightarrow> tree_walk reint ctx st p u s) ts s)"

lemma fold_live: "fold (\<lambda>t s. case t of None \<Rightarrow> s | Some u \<Rightarrow> f u s) ts = fold f (live ts)"
proof (induction ts)
  case (Cons x xs)
  then show ?case by (cases x) (simp_all add: fun_eq_iff)
qed simp

lemma grav_walk_visit:
  assumes "use_node st p q"
  shows "grav_walk reint ctx st p (Some q) acc sk
    = (let (acc', sk') = visit reint ctx st p q (acc, sk) in grav_walk reint ctx st p (Next st q) acc' sk')"
  using assms by (subst grav_walk.simps) (simp add: visit_def)

lemma grav_walk_tree:
  "thr bn cn cm t n \<Longrightarrow> bn = bnext st \<Longrightarrow> cn = cnext st \<Longrightarrow> cm = cmore st \<Longrightarrow>
     grav_walk reint ctx st p (Some (ref_of t)) acc sk
     = (let (acc', sk') = tree_walk reint ctx st p t (acc, sk) in grav_walk reint ctx st p n acc' sk')"
  "thrs bn cn cm us n \<Longrightarrow> bn = bnext st \<Longrightarrow> cn = cnext st \<Longrightarrow> cm = cmore st \<Longrightarrow>
     grav_walk reint ctx st p (first us n) acc sk
     = (let (acc', sk') = fold (tree_walk reint ctx st p) us (acc, sk) in grav_walk reint ctx st p n acc' sk')"
proof (induction arbitrary: acc sk and acc sk rule: thr_thrs.inducts)
  case (thr_Leaf i n)
  then show ?case by (simp add: grav_walk_visit bnext_def)
next
  case (thr_Node a n ts)
  show ?case
  proof (cases "use_node st p (Cl a)")
    case True
    then show ?thesis using thr_Node(1,6,7,8) by (simp add: grav_walk_visit cnext_def)
  next
    case False
    have "grav_walk reint ctx st p (Some (Cl a)) acc sk
        = grav_walk reint ctx st p (c_more (cells st a)) acc sk"
      using False by (subst grav_walk.simps) simp
    also have "c_more (cells st a) = first (live ts) n"
      using thr_Node by (simp add: cmore_def)
    finally show ?thesis using thr_Node False by (simp add: fold_live)
  qed
next
  case (thrs_Nil n)
  show ?case by simp
next
  case (thrs_Cons u us n)
  then show ?case by (simp add: split_beta Let_def)
qed

section \<open>Opening every cell\<close>

lemma tree_walk_open:
  "\<forall>(a, ts) \<in> set (nodes_of t). \<not> use_node st p (Cl a) \<Longrightarrow>
     tree_walk reint ctx st p t s = fold (\<lambda>i. visit reint ctx st p (Bd i)) (bodies_of t) s"
proof (induction t arbitrary: s rule: otree_live_induct)
  case (Node a ts)
  have "fold (tree_walk reint ctx st p) us s
      = fold (\<lambda>i. visit reint ctx st p (Bd i)) (concat (map bodies_of us)) s"
    if "set us \<subseteq> set (live ts)" for us s
    using that
  proof (induction us arbitrary: s)
    case (Cons u us)
    have "\<forall>(a, ts) \<in> set (nodes_of u). \<not> use_node st p (Cl a)"
      using Node.prems Cons.prems by (auto simp: nodes_of_Node)
    then show ?case using Node.IH[of u] Cons by simp
  qed simp
  from this[of "live ts" s] show ?case
    using Node.prems by (simp add: fold_live bodies_of_Node nodes_of_Node)
qed simp

lemma fold_visit:
  "fold (\<lambda>i. visit reint ctx st p (Bd i)) is (acc, sk)
   = (fold (\<lambda>i a. mw_addv a (pair_accel (eps2 ctx) (mw_subv (bpos st i) (bpos st p)) (bmass st i)))
        (filter (\<lambda>i. i \<noteq> p) is) acc, sk \<or> p \<in> set is)"
  by (induction "is" arbitrary: acc sk)
    (auto simp: visit_def node_accel_def bpos_def bmass_def Let_def)

lemma fold_addv_sum:
  "fold (\<lambda>i a. mw_addv a (f i)) is a
   = \<lparr>X = X a + (\<Sum>i\<leftarrow>is. X (f i)), Y = Y a + (\<Sum>i\<leftarrow>is. Y (f i)), Z = Z a + (\<Sum>i\<leftarrow>is. Z (f i))\<rparr>"
  by (induction "is" arbitrary: a) (simp_all add: mw_addv_def)

definition vsum :: "(nat \<Rightarrow> mwvector) \<Rightarrow> nat set \<Rightarrow> mwvector" where
  "vsum f A = \<lparr>X = \<Sum>i\<in>A. X (f i), Y = \<Sum>i\<in>A. Y (f i), Z = \<Sum>i\<in>A. Z (f i)\<rparr>"

lemma fold_addv_vsum:
  "distinct is \<Longrightarrow> fold (\<lambda>i a. mw_addv a (f i)) is ZERO_VECTOR = vsum f (set is)"
  by (simp add: fold_addv_sum vsum_def ZERO_VECTOR_def sum.distinct_set_conv_list mwvector.defs)

lemma vsum_cong_zero:
  assumes "finite B" "A \<subseteq> B" "\<And>i. i \<in> B - A \<Longrightarrow> f i = ZERO_VECTOR"
  shows "vsum f A = vsum f B"
proof -
  have "sum (\<lambda>i. g (f i)) A = sum (\<lambda>i. g (f i)) B" if "g ZERO_VECTOR = 0" for g :: "mwvector \<Rightarrow> real"
    using assms that by (intro sum.mono_neutral_left) auto
  then show ?thesis by (simp add: vsum_def ZERO_VECTOR_def mwvector.defs)
qed

lemma built_bodies:
  assumes "built ctx st t"
  shows "distinct (bodies_of t)" "set (bodies_of t) = {i. i < List.length (bodytab st) \<and> bmass st i \<noteq> 0}"
proof -
  have B: "mset (bodies_of t) = mset (massive st [0..<List.length (bodytab st)])"
    using assms by (simp add: built_def)
  show "distinct (bodies_of t)" using mset_eq_imp_distinct_iff[OF B] by (simp add: massive_def)
  have "set (bodies_of t) = set (massive st [0..<List.length (bodytab st)])" using B by (metis set_mset_mset)
  then show "set (bodies_of t) = {i. i < List.length (bodytab st) \<and> bmass st i \<noteq> 0}"
    by (auto simp: massive_def bmass_def)
qed

text \<open>A node's bodies are bodies of the tree.\<close>

lemma nodes_of_bodies:
  "(a, ts) \<in> set (nodes_of t) \<Longrightarrow> set (bodies_of (Node a ts)) \<subseteq> set (bodies_of t)"
proof (induction t rule: otree_live_induct)
  case (Node b us)
  show ?case
  proof (cases "(a, ts) = (b, us)")
    case False
    then obtain u where "u \<in> set (live us)" "(a, ts) \<in> set (nodes_of u)"
      using Node.prems by (auto simp: nodes_of_Node)
    then show ?thesis using Node.IH by (auto simp: bodies_of_Node[of b])
  qed simp
qed simp

lemma inbox_sqrv:
  assumes "inbox c s x" "inbox c s y" "0 < s"
  shows "mw_sqrv (mw_subv x y) < (2 * s)\<^sup>2"
proof -
  have b: "\<bar>X x - X y\<bar> \<le> s" "\<bar>Y x - Y y\<bar> \<le> s" "\<bar>Z x - Z y\<bar> \<le> s"
    using assms(1,2) unfolding inbox_def by linarith+
  have sq: "d * d \<le> s * s" if "\<bar>d\<bar> \<le> s" for d
    using that mult_mono[of "\<bar>d\<bar>" s "\<bar>d\<bar>" s] by simp
  have "mw_sqrv (mw_subv x y) \<le> 3 * (s * s)"
    using sq[OF b(1)] sq[OF b(2)] sq[OF b(3)] by (simp add: mw_sqrv_def mw_subv_def)
  also have "\<dots> < (2 * s)\<^sup>2" using assms(3) by (simp add: power2_eq_square)
  finally show ?thesis .
qed

text \<open>With an opening angle of zero no cell of a built tree is far enough away.\<close>

lemma theta_zero_opens:
  assumes b: "built ctx st t" and th: "theta ctx = 0" and p: "p < List.length (bodytab st)"
    and rs: "0 < rsize (tree st)" and pos: "\<forall>b \<in> set (bodytab st). 0 \<le> b_mass b"
    and v: "(a, ts) \<in> set (nodes_of t)" and ne: "bodies_of (Node a ts) \<noteq> []"
  shows "\<not> use_node st p (Cl a)"
proof -
  obtain c where box: "\<forall>i < List.length (bodytab st). inbox c (rsize (tree st)) (bpos st i)"
    using b by (auto simp: built_def)
  have ok: "node_ok ctx st (a, ts)" using b v by (auto simp: built_def)
  then have rc: "c_rcrit2 (cells st a) = (2 * rsize (tree st))\<^sup>2"
    and com: "c_pos (cells st a) = tcom (bmass st) (bpos st) (Node a ts)"
    using th by (auto simp: node_ok_def findRCrit_def power2_eq_square)
  have "\<forall>i \<in> set (bodies_of (Node a ts)). 0 < bmass st i \<and> inbox c (rsize (tree st)) (bpos st i)"
    using nodes_of_bodies[OF v] built_bodies(2)[OF b] pos box
    by (force simp: bmass_def less_le)
  then have "inbox c (rsize (tree st)) (c_pos (cells st a))"
    unfolding com using ne by (intro tcom_inbox) auto
  then have "mw_sqrv (mw_subv (c_pos (cells st a)) (bpos st p)) < (2 * rsize (tree st))\<^sup>2"
    using box p rs by (intro inbox_sqrv) auto
  then show ?thesis by (simp add: rc bpos_def)
qed

lemma grav_root:
  assumes "built ctx st t"
  shows "nbGravity reint ctx st p = Some (let (acc, sk) = tree_walk reint ctx st p t (ZERO_VECTOR, False)
     in (acc, if \<not> sk then nbReportTreeIncest ctx st else st))"
proof -
  have r: "map_option Cl (root (tree st)) = Some (ref_of t)"
    and t: "thr (bnext st) (cnext st) (cmore st) t None"
    using assms by (simp_all add: built_def)
  have "grav_walk reint ctx st p (Some (ref_of t)) acc sk = Some (tree_walk reint ctx st p t (acc, sk))" for acc sk
    using grav_walk_tree(1)[OF t refl refl refl]
    by (simp add: split_beta Let_def grav_walk.simps[of _ _ _ _ None])
  then show ?thesis unfolding nbGravity_def r by (simp add: split_beta Let_def)
qed

lemma thr_full:
  "thr bn cn cm t n \<Longrightarrow> full t"
  "thrs bn cn cm us n \<Longrightarrow> \<forall>u \<in> set us. full u"
  by (induction rule: thr_thrs.inducts) (auto simp: full_Node)

lemma nodes_of_full: "(a, ts) \<in> set (nodes_of t) \<Longrightarrow> full t \<Longrightarrow> full (Node a ts)"
proof (induction t rule: otree_live_induct)
  case (Node b us)
  then show ?case by (auto simp: nodes_of_Node full_Node)
qed simp

text \<open>The sum over the other bodies, each body of mass zero giving nothing.\<close>

definition others :: "real NBodyCtx \<Rightarrow> 'z tstate_scheme \<Rightarrow> nat \<Rightarrow> mwvector" where
  "others ctx st p = vsum (\<lambda>i. pair_accel (eps2 ctx) (mw_subv (bpos st i) (bpos st p)) (bmass st i))
     ({..<List.length (bodytab st)} - {p})"

lemma gravity_theta_zero:
  assumes b: "built ctx st t" and th: "theta ctx = 0" and p: "p < List.length (bodytab st)"
    and rs: "0 < rsize (tree st)" and pos: "\<forall>b \<in> set (bodytab st). 0 \<le> b_mass b"
  shows "nbGravity reint ctx st p = Some (others ctx st p,
      if bmass st p = 0 then nbReportTreeIncest ctx st else st)"
proof -
  have "full t" using b thr_full(1) by (auto simp: built_def)
  then have "\<forall>(a, ts) \<in> set (nodes_of t). \<not> use_node st p (Cl a)"
    using theta_zero_opens[OF b th p rs pos] nodes_of_full full_bodies by blast
  then have w: "tree_walk reint ctx st p t (ZERO_VECTOR, False)
      = (fold (\<lambda>i a. mw_addv a (pair_accel (eps2 ctx) (mw_subv (bpos st i) (bpos st p)) (bmass st i)))
          (filter (\<lambda>i. i \<noteq> p) (bodies_of t)) ZERO_VECTOR, p \<in> set (bodies_of t))"
    by (simp add: tree_walk_open fold_visit)
  have "fold (\<lambda>i a. mw_addv a (pair_accel (eps2 ctx) (mw_subv (bpos st i) (bpos st p)) (bmass st i)))
          (filter (\<lambda>i. i \<noteq> p) (bodies_of t)) ZERO_VECTOR
      = vsum (\<lambda>i. pair_accel (eps2 ctx) (mw_subv (bpos st i) (bpos st p)) (bmass st i))
          (set (filter (\<lambda>i. i \<noteq> p) (bodies_of t)))"
    using built_bodies(1)[OF b] by (intro fold_addv_vsum) simp
  also have "\<dots> = others ctx st p"
    unfolding others_def
    by (rule vsum_cong_zero)
      (auto simp: built_bodies(2)[OF b] pair_accel_def mw_mulvs_def ZERO_VECTOR_def Let_def)
  finally show ?thesis using p by (simp add: grav_root[OF b] w built_bodies(2)[OF b])
qed

lemma exact_others:
  assumes "p < List.length (bodytab st)" "nbody st = List.length (bodytab st)" 
  shows "nbGravity_Exact ctx st p = others ctx st p"
proof -
  let ?f = "\<lambda>i. pair_accel (eps2 ctx) (mw_subv (bpos st i) (bpos st p)) (bmass st i)"
  have "nbGravity_Exact ctx st p = fold (\<lambda>i a. mw_addv a (?f i)) [0..<List.length (bodytab st)] ZERO_VECTOR"
    using assms(2) by (simp add: nbGravity_Exact_def pair_accel_def bpos_def bmass_def Let_def)
  also have "\<dots> = vsum ?f {..<List.length (bodytab st)}"
    by (subst fold_addv_vsum) (simp_all add: atLeast0LessThan)
  also have "\<dots> = others ctx st p"
    unfolding others_def
    by (rule vsum_cong_zero[symmetric])
      (auto simp: pair_accel_def mw_mulvs_def mw_subv_def ZERO_VECTOR_def Let_def)
  finally show ?thesis .
qed

section \<open>Properties\<close>

text \<open>C3: on a tree that \<open>nbMakeTree\<close> built, the pointer-chasing walk of \<open>nbGravity\<close> ends, and
  its acceleration is that of the recursive descent of the octree, whatever the opening angle; the
  state changes only by the report of tree incest when the walk did not meet the body itself.\<close>

theorem nbGravity_is_descent:
  assumes "built ctx st t"
  shows "nbGravity reint ctx st p = Some (let (acc, sk) = tree_walk reint ctx st p t (ZERO_VECTOR, False)
     in (acc, if \<not> sk then nbReportTreeIncest ctx st else st))"
  by (rule grav_root[OF assms])

lemma pair_state_built:
  obtains st' t where "nbMakeTree reint exact_ctx pair_state = Some (NBODY_SUCCESS, st')"
    "built exact_ctx st' t" "4 \<le> rsize (tree st')" "\<not> structureError (tree st')" "settled st'"
    "map unthreaded (bodytab st') = map unthreaded (bodytab pair_state)"
  by (rule make_tree[OF pair_state_simps(1) _ pair_state_simps(3) exact_crit(1) pair_state_masses,
        of reint]) (use pair_state_apart pair_state_simps(2) in auto)

theorem nbGravity_is_descent_witness:
  "\<exists>(st :: NBodyState) t. built exact_ctx st t \<and> nbGravity (\<lambda>_. zero_quad) exact_ctx st 0 \<noteq> None"
proof (rule pair_state_built[of "\<lambda>_. zero_quad"])
  fix st' :: NBodyState and t assume b: "built exact_ctx st' t"
  show ?thesis using nbGravity_is_descent[OF b, of "\<lambda>_. zero_quad" 0] b
    by (intro exI[of _ st'] exI[of _ t]) simp
qed

lemma built_after:
  assumes "settled st" "0 < rsize (tree st)" "\<not> structureError (tree st)" "theta ctx = 0"
    and "\<forall>b \<in> set (bodytab st). 0 \<le> b_mass b" "\<exists>b \<in> set (bodytab st). b_mass b \<noteq> 0"
    and mk: "nbMakeTree reint ctx st = Some (NBODY_SUCCESS, st')"
  obtains t where "built ctx st' t" "0 < rsize (tree st')" "\<forall>b \<in> set (bodytab st'). 0 \<le> b_mass b"
    "List.length (bodytab st') = List.length (bodytab st)"
    "\<And>i. i < List.length (bodytab st) \<Longrightarrow> bmass st' i = bmass st i \<and> bpos st' i = bpos st i"
proof (rule make_tree[OF assms(1-3) _ assms(5,6), of ctx reint])
  show "crit_ok ctx" using assms(4) by (simp add: crit_ok_def)
  fix st1 assume "nbMakeTree reint ctx st = Some (NBODY_TREE_STRUCTURE_ERROR, st1)"
  then show thesis using mk fatal_codes(1,3) by (metis option.inject prod.inject)
next
  fix st1 t assume b: "nbMakeTree reint ctx st = Some (NBODY_SUCCESS, st1)" "built ctx st1 t"
    "rsize (tree st) \<le> rsize (tree st1)" "map unthreaded (bodytab st1) = map unthreaded (bodytab st)"
  have eq: "st1 = st'" using b(1) mk by simp
  have len: "List.length (bodytab st') = List.length (bodytab st)" using b(4) eq by (metis length_map)
  have same: "bmass st' i = bmass st i \<and> bpos st' i = bpos st i" if "i < List.length (bodytab st)" for i
    using unthreaded_fields[OF b(4), of i] that len eq by (simp add: bmass_def bpos_def)
  have "0 \<le> b_mass b" if bm: "b \<in> set (bodytab st')" for b
  proof -
    obtain i where i: "i < List.length (bodytab st')" "b = bodytab st' ! i" using bm by (auto simp: in_set_conv_nth)
    have il: "i < List.length (bodytab st)" using i(1) unfolding len .
    have "b_mass b = b_mass (bodytab st ! i)" using same[OF il] i(2) unfolding bmass_def by blast
    then show ?thesis using assms(5) nth_mem[OF il] by simp
  qed
  then show thesis by (intro that[of t]) (use b eq assms(2) len same in auto)
qed

text \<open>C2: with the opening angle zero the tree code is the exact code: after \<open>nbMakeTree\<close> the walk
  gives every body of nonzero mass the pairwise sum of \<open>nbGravity_Exact\<close> and reports no incest.\<close>

theorem nbGravity_theta_zero_exact:
  assumes "settled st" "0 < rsize (tree st)" "\<not> structureError (tree st)" "theta ctx = 0"
    and "\<forall>b \<in> set (bodytab st). 0 \<le> b_mass b" and "0 < eps2 ctx"
    and "nbody st = List.length (bodytab st)"
    and "p < nbody st" "b_mass (bodytab st ! p) \<noteq> 0"
    and mk: "nbMakeTree reint ctx st = Some (NBODY_SUCCESS, st')"
  shows "nbGravity reint ctx st' p = Some (nbGravity_Exact ctx st' p, st')"
proof -
  have "\<exists>b \<in> set (bodytab st). b_mass b \<noteq> 0" using assms(7-9) by (metis nth_mem)
  then obtain t where t: "built ctx st' t" "0 < rsize (tree st')" "\<forall>b \<in> set (bodytab st'). 0 \<le> b_mass b"
    "List.length (bodytab st') = List.length (bodytab st)" "bmass st' p = bmass st p"
    using built_after[OF assms(1-5) _ mk] assms(7,8) by metis
  have "nbody st' = nbody st"
    using nbMakeTree_more[OF mk] by (cases st; cases st') simp
  then have "nbGravity_Exact ctx st' p = others ctx st' p"
    using assms(7,8) t(4) by (intro exact_others) simp_all
  moreover have "bmass st' p \<noteq> 0" using t(5) assms(9) by (simp add: bmass_def)
  ultimately show ?thesis
    using gravity_theta_zero[OF t(1) assms(4) _ t(2,3), of p reint] assms(7,8) t(4) by simp
qed

theorem nbGravity_theta_zero_exact_witness:
  "\<exists>st'. nbMakeTree (\<lambda>_. zero_quad) exact_ctx pair_state = Some (NBODY_SUCCESS, st')
     \<and> nbGravity (\<lambda>_. zero_quad) exact_ctx st' 0 = Some (nbGravity_Exact exact_ctx st' 0, st')"
proof (rule pair_state_built[of "\<lambda>_. zero_quad"])
  fix st' assume mk: "nbMakeTree (\<lambda>_. zero_quad) exact_ctx pair_state = Some (NBODY_SUCCESS, st')"
  have "0 < nbody pair_state" "b_mass (bodytab pair_state ! 0) \<noteq> 0"
    by (simp_all add: pair_state_simps body_at_def)
  then show ?thesis
    using nbGravity_theta_zero_exact[OF pair_state_simps(1) _ pair_state_simps(3) exact_crit(2)
        pair_state_masses(1) exact_crit(3) _ _ _ mk, of 0] mk pair_state_simps(2,4,5) by fastforce
qed

lemma visit_self: "snd (visit reint ctx st p q s) \<longleftrightarrow> snd s \<or> q = Bd p"
  by (simp add: visit_def)

lemma tree_walk_self: "p \<notin> set (bodies_of t) \<Longrightarrow> snd (tree_walk reint ctx st p t s) = snd s"
proof (induction t arbitrary: s rule: otree_live_induct)
  case (Leaf i)
  then show ?case by (simp add: visit_self)
next
  case (Node a ts)
  have "snd (fold (tree_walk reint ctx st p) us s) = snd s" if "set us \<subseteq> set (live ts)" for us s
    using that
  proof (induction us arbitrary: s)
    case (Cons u us)
    have "p \<notin> set (bodies_of u)" using Node.prems Cons.prems by (auto simp: bodies_of_Node)
    then show ?case using Node.IH[of u] Cons by simp
  qed simp
  from this[of "live ts" s] show ?case by (simp add: fold_live visit_self)
qed

text \<open>A body of mass zero is not in the tree, so its force calculation always ends in the
  report of tree incest, whatever the geometry, and with incest not allowed the step is fatal.\<close>

theorem nbGravity_massless_incest:
  assumes "built ctx st t" "b_mass (bodytab st ! p) = 0"
  shows "\<exists>acc st'. nbGravity reint ctx st p = Some (acc, st') \<and> treeIncest st'
    \<and> (\<not> allowIncest ctx \<longrightarrow> nbStatusIsFatal (nbIncestStatusCheck ctx st'))"
proof -
  have "p \<notin> set (bodies_of t)" using built_bodies(2)[OF assms(1)] assms(2) by (simp add: bmass_def)
  then have "\<not> snd (tree_walk reint ctx st p t (ZERO_VECTOR, False))" by (simp add: tree_walk_self)
  then show ?thesis
    by (auto simp: grav_root[OF assms(1)] split_beta nbReportTreeIncest_def nbIncestStatusCheck_def fatal_codes)
qed

definition ghost_state :: NBodyState where
  "ghost_state = setInitialNBodyState EMPTY_NBODYSTATE defaultNBodyCtx
     [body_at 1 2 3 5, body_at 6 1 1 0] 2"

lemma ghost_state_simps:
  "settled ghost_state" "rsize (tree ghost_state) = 4" "\<not> structureError (tree ghost_state)"
  "bodytab ghost_state = [body_at 1 2 3 5, body_at 6 1 1 0]"
  using settled_initial
  by (simp_all add: ghost_state_def initial_fields) (simp_all add: defaultNBodyCtx_def)

lemma ghost_state_apart: "\<not> clash ghost_state"
proof
  assume "clash ghost_state"
  then obtain i j where "i < 2" "j < 2" "i \<noteq> j" "too_close (bpos ghost_state i) (bpos ghost_state j)"
    unfolding clash_def by (auto simp: ghost_state_simps numeral_2_eq_2)
  then have "i = 0 \<and> j = 1 \<or> i = 1 \<and> j = 0" by linarith
  then show False using \<open>too_close _ _\<close>
    by (auto simp: too_close_def bpos_def ghost_state_simps body_at_def REAL_EPSILON_def)
qed

lemma ghost_state_built:
  obtains st' :: NBodyState and t where "built exact_ctx st' t" "map unthreaded (bodytab st') = map unthreaded (bodytab ghost_state)"
proof -
  have m: "\<forall>b \<in> set (bodytab ghost_state). 0 \<le> b_mass b" "\<exists>b \<in> set (bodytab ghost_state). b_mass b \<noteq> 0"
    by (simp_all add: ghost_state_simps body_at_def)
  have r: "0 < rsize (tree ghost_state)" by (simp add: ghost_state_simps)
  show thesis
  proof (cases rule: make_tree[OF ghost_state_simps(1) r ghost_state_simps(3) exact_crit(1) m,
        of "\<lambda>_. zero_quad", case_names clash built])
    case (clash st')
    then show thesis using ghost_state_apart by simp
  next
    case (built st' t)
    then show thesis using that[of st' t] by blast
  qed
qed

theorem nbGravity_massless_incest_witness:
  "\<exists>(st :: NBodyState) acc st'. nbGravity (\<lambda>_. zero_quad) exact_ctx st 1 = Some (acc, st') \<and> treeIncest st'"
proof (rule ghost_state_built)
  fix st' :: NBodyState and t
  assume b: "built exact_ctx st' t" "map unthreaded (bodytab st') = map unthreaded (bodytab ghost_state)"
  have l: "List.length (bodytab st') = 2" using arg_cong[OF b(2), of List.length] by (simp add: ghost_state_simps)
  have "b_mass (bodytab st' ! 1) = b_mass (bodytab ghost_state ! 1)"
    using unthreaded_fields[OF b(2), of 1] l by simp
  then have "b_mass (bodytab st' ! 1) = 0" by (simp add: ghost_state_simps body_at_def)
  then show ?thesis using nbGravity_massless_incest[OF b(1), of 1 "\<lambda>_. zero_quad"] by blast
qed

end
