(* ===== verification/NBody_Bessel.thy ===== *)
theory NBody_Bessel
  imports MW_Vectors
begin

text \<open>
  \<open>nbody_bessel.c\<close>: rational approximations of the Bessel functions, the tables of the zeros
  of J0 and J1, and the integrals \<open>aExp\<close> and \<open>bExp\<close> of the exponential disks. The coefficient
  tables and the tables of zeros are transcribed; the two tables of 510 times 510 precomputed
  logarithms that \<open>aExp\<close> and \<open>bExp\<close> interpolate are the parameter \<open>tab\<close> (row, column).
\<close>

section \<open>Coefficients\<close>

definition i0p :: "real list" where
  "i0p =
     [0.9999999999999997, 0.2466405579426905, 0.01478980363444585, 0.0003826993559940360,
      0.000005395676869878828, 0.00000004700912200921704, 0.0000000002733894920915608,
      0.000000000001115830108455192, 0.000000000000003301093025084127,
      0.000000000000000007209167098020555, 0.00000000000000000001166898488777214,
      0.00000000000000000000001378948246502109, 0.00000000000000000000000001124884061857506,
      0.000000000000000000000000000005498556929587117]"

definition i0q :: "real list" where
  "i0q =
     [0.4463598170691436, 0.001702205745042606, 0.000002792125684538934,
      0.000000002369902034785866, 0.0000000000008965900179621208]"

definition i0pp :: "real list" where
  "i0pp =
     [0.1192273748120670, 0.1947452015979746, 0.07629241821600588, 0.008474903580801549,
      0.0002023821945835647]"

definition i0qq :: "real list" where
  "i0qq =
     [0.2962898424533095, 0.4866115913196384, 0.1938352806477617, 0.02261671093400046,
      0.0006450448095075585, 0.000001529835782400450]"

definition i1p :: "real list" where
  "i1p =
     [0.5000000000000000, 0.06090824836578078, 0.002407288574545340, 0.00004622311145544158,
      0.0000005161743818147913, 0.000000003712362374847555, 0.00000000001833983433811517,
      0.00000000000006493125133990706, 0.0000000000000001693074927497696,
      0.0000000000000000003299609473102338, 0.0000000000000000000004813071975603122,
      0.0000000000000000000000005164275442089090,
      0.0000000000000000000000000003846870021788629,
      0.0000000000000000000000000000001712948291408736]"

definition i1q :: "real list" where
  "i1q =
     [0.4665973211630446, 0.001677754477613006, 0.000002583049634689725,
      0.000000002045930934253556, 0.0000000000007166133240195285]"

definition i1pp :: "real list" where
  "i1pp =
     [0.1286515211317124, 0.1930915272916783, 0.06965689298161343, 0.007345978783504595,
      0.0001963602129240502]"

definition i1qq :: "real list" where
  "i1qq =
     [0.3309385098860755, 0.4878218424097628, 0.1663088501568696, 0.01473541892809522,
      0.0001964131438571051, - 0.000001034524660214173]"

definition k0pi :: "real list" where
  "k0pi =
     [1.0, 0.2346487949187396, 0.01187082088663404, 0.0002150707366040937,
      0.000001425433617130587]"

definition k0qi :: "real list" where
  "k0qi =
     [0.9847324170755358, 0.01518396076767770, 0.00008362215678646257]"

definition k0p :: "real list" where
  "k0p =
     [0.1159315156584126, 0.2770731240515333, 0.02066458134619875, 0.0004574734709978264,
      0.000003454715527986737]"

definition k0q :: "real list" where
  "k0q =
     [0.9836249671709183, 0.01627693622304549, 0.00009809660603621949]"

definition k0pp :: "real list" where
  "k0pp =
     [1.253314137315499, 14.75731032429900, 61.23767403223466, 112.1012633939949,
      92.85288485892228, 31.98289277679660, 3.595376024148513, 0.06160228690102976]"

definition k0qq :: "real list" where
  "k0qq =
     [1.0, 11.89963006673403, 50.27773590829784, 94.96513373427093, 83.18077493230258,
      31.81399777449301, 4.443672926432041, 0.1408295601966600]"

definition k1pi :: "real list" where
  "k1pi =
     [0.5, 0.05598072040178741, 0.001818666382168295, 0.00002397509908859959,
      0.0000001239567816344855]"

definition k1qi :: "real list" where
  "k1qi =
     [0.9870202601341150, 0.01292092053534579, 0.00005881933053917096]"

definition k1p :: "real list" where
  "k1p =
     [- 0.3079657578292062, - 0.08109417631822442, - 0.003477550948593604,
      - 0.00005385594871975406, - 0.0000003110372465429008]"

definition k1q :: "real list" where
  "k1q =
     [0.9861813171751389, 0.01375094061153160, 0.00006774221332947002]"

definition k1pp :: "real list" where
  "k1pp =
     [1.253314137315502, 14.57171340220454, 60.63161173098803, 114.7386690867892,
      104.0442011439181, 43.56596656837691, 7.265230396353690, 0.3144418558991021]"

definition k1qq :: "real list" where
  "k1qq =
     [1.0, 11.25154514806458, 44.27488496597630, 76.16113213117645, 58.63377227890893,
      18.50303673841586, 1.857244676566022, 0.02538540887654872]"

definition j0r :: "real list" where
  "j0r =
     [0.0001682397144220462, 0.00002058861258868952, 0.0000005288947320067750,
      0.000000005557173907680151, 0.00000000002865540042042604,
      0.00000000000007398972674152181, 0.00000000000000007925088479679688]"

definition j0s :: "real list" where
  "j0s =
     [1.0, 0.01019685405805929, 0.00005130296867064666, 0.0000001659702063950243,
      0.0000000003728997574317067, 0.0000000000005709292619977798,
      0.0000000000000004932979170744996]"

definition j0pn :: "real list" where
  "j0pn =
     [0.9999999999999999, 1.039698629715637, 0.2576910172633398, 0.01504152485749669,
      0.0001052598413585270]"

definition j0pd :: "real list" where
  "j0pd =
     [1.0, 1.040797262528109, 0.2588070904043728, 0.01529954477721284, 0.0001168931211650012]"

definition j0qn :: "real list" where
  "j0qn =
     [- 0.01562499999999992, - 0.01920039317065641, - 0.005827951791963418,
      - 0.0004372674978482726, - 0.000003895839560412374]"

definition j0qd :: "real list" where
  "j0qd =
     [1.0, 1.237980436358390, 0.3838793938147116, 0.03100323481550864, 0.0004165515825072393]"

definition j1r :: "real list" where
  "j1r =
     [0.00007309637831891357, 0.000003551248884746503, 0.00000005820673901730427,
      0.0000000004500650342170622, 0.000000000001831596352149641,
      0.000000000000003891583573305035, 0.000000000000000003524978592527982]"

definition j1s :: "real list" where
  "j1s =
     [1.0, 0.009398354768446072, 0.00004328946737100230, 0.0000001271526296341915,
      0.0000000002566305357932989, 0.0000000000003477378203574266,
      0.0000000000000002593535427519985]"

definition j1pn :: "real list" where
  "j1pn =
     [1.0, 1.014039111045313, 0.2426762348629863, 0.01350308200342000, 0.00009516522033988099]"

definition j1pd :: "real list" where
  "j1pd =
     [1.0, 1.012208056357845, 0.2408580305488938, 0.01309511056184273, 0.00007746422941504713]"

definition j1qn :: "real list" where
  "j1qn =
     [0.04687499999999991, 0.05652407388406023, 0.01676531273460512, 0.001231216817715814,
      0.00001178364381441801]"

definition j1qd :: "real list" where
  "j1qd =
     [1.0, 1.210119370463693, 0.3626494789275638, 0.02761695824829316, 0.0003240517192670181]"

definition xj00 :: real where "xj00 = 5.783185962946785"

definition xj10 :: real where "xj10 = 30.47126234366209"

definition xj01 :: real where "xj01 = 14.68197064212389"

definition xj11 :: real where "xj11 = 49.21845632169460"

definition twoopi :: real where "twoopi = 0.6366197723675813"

definition pio4 :: real where "pio4 = 0.7853981633974483"


section \<open>Zeros of J0 and J1\<close>

definition J0_zeros :: "real list" where
  "J0_zeros =
     [2.404825557695773, 5.520078110286311, 8.653727912911013, 11.791534439014281,
      14.930917708487787, 18.071063967910924, 21.21163662987926, 24.352471530749302,
      27.493479132040257, 30.634606468431976, 33.77582021357357, 36.917098353664045,
      40.05842576462824, 43.19979171317673, 46.341188371661815, 49.482609897397815,
      52.624051841115, 55.76551075501998, 58.90698392608094, 62.04846919022717,
      65.18996480020687, 68.3314693298568, 71.47298160359374, 74.61450064370185,
      77.75602563038805, 80.89755587113763, 84.0390907769382, 87.18062984364116,
      90.32217263721049, 93.46371878194478, 96.60526795099626, 99.7468198586806,
      102.8883742541948, 106.02993091645162, 109.17148964980538, 112.3130502804949,
      115.45461265366694, 118.59617663087253, 121.73774208795096, 124.87930891323295,
      128.02087700600833, 131.1624462752139, 134.30401663830546, 137.44558802028428,
      140.58716035285428, 143.72873357368974, 146.87030762579664, 150.01188245695477,
      153.15345801922788, 156.29503426853353, 159.43661116426316, 162.57818866894667,
      165.71976674795502, 168.86134536923583, 172.0029245030782, 175.14450412190274,
      178.28608420007376, 181.42766471373105, 184.5692456406387, 187.71082696004936,
      190.85240865258152, 193.99399070010912, 197.1355730856614, 200.2771557933324,
      203.41873880819864, 206.56032211624446, 209.70190570429406, 212.8434895599495,
      215.98507367153402, 219.12665802804057, 222.2682426190843, 225.40982743485932,
      228.5514124660988, 231.69299770403853, 234.83458314038324, 237.97616876727565,
      241.11775457726802, 244.2593405632957, 247.40092671865284, 250.54251303696995,
      253.6840995121931, 256.82568613856444, 259.9672729106045, 263.1088598230955,
      266.2504468710659, 269.39203404977604, 272.5336213547049, 275.67520878153744,
      278.8167963261531, 281.9583839846149, 285.09997175315954, 288.2415596281877,
      291.3831476062552, 294.524735684065, 297.66632385845895, 300.80791212641117,
      303.9495004850206, 307.09108893150506, 310.232677463195, 313.37426607752786,
      316.5158547720429, 319.6574435443762, 322.7990323922556, 325.9406213134967,
      329.08221030599856, 332.2237993677397, 335.3653884967742, 338.50697769122854,
      341.64856694929813, 344.79015626924405, 347.9317456493902, 351.0733350881206,
      354.21492458387644, 357.35651413515376, 360.4981037405011, 363.63969339851707,
      366.7812831078483, 369.9228728671875, 373.0644626752713, 376.2060525308785,
      379.3476424328285, 382.48923237997934, 385.63082237122643, 388.77241240550063,
      391.9140024817674, 395.05559259902486, 398.1971827563029, 401.3387729526616,
      404.48036318719045, 407.6219534590069, 410.7635437672554, 413.90513411110635,
      417.0467244897553, 420.18831490242167, 423.3299053483481, 426.47149582679964,
      429.6130863370627, 432.75467687844457, 435.8962674502724, 439.0378580518925,
      442.17944868267, 445.3210393419878, 448.46263002924604, 451.6042207438617,
      454.7458114852678, 457.8874022529128, 461.02899304626044, 464.1705838647888,
      467.31217470799004, 470.45376557536986, 473.59535646644713, 476.73694738075335,
      479.87853831783235, 483.02012927723973, 486.1617202585427, 489.30331126131944,
      492.444902285159, 495.58649332966087, 498.7280843944346, 501.8696754790994,
      505.0112665832841, 508.1528577066267, 511.29444884877404, 514.4360400093816,
      517.5776311881133, 520.719222384641, 523.8608135986445, 527.0024048298114,
      530.1439960778366, 533.2855873424221, 536.4271786232769, 539.5687699201169,
      542.7103612326644, 545.8519525606483, 548.9935439038036, 552.1351352618711,
      555.276726634598, 558.4183180217369, 561.5599094230456, 564.7015008382879,
      567.8430922672325, 570.984683709653, 574.1262751653285, 577.2678666340423,
      580.409458115583, 583.5510496097431, 586.6926411163201, 589.8342326351157,
      592.9758241659354, 596.1174157085892, 599.2590072628911, 602.4005988286588,
      605.5421904057138, 608.6837819938813, 611.8253735929902, 614.9669652028729,
      618.1085568233649, 621.2501484543054, 624.3917400955368, 627.5333317469042,
      630.6749234082564, 633.8165150794449, 636.9581067603241, 640.0996984507512,
      643.2412901505867, 646.3828818596929, 649.5244735779357, 652.666065305183,
      655.8076570413053, 658.9492487861759, 662.09084053967, 665.2324323016657,
      668.3740240720429, 671.515615850684, 674.6572076374736, 677.7987994322984,
      680.9403912350472, 684.0819830456107, 687.223574863882, 690.3651666897557,
      693.5067585231285, 696.6483503638989, 699.7899422119673, 702.9315340672358,
      706.0731259296084, 709.2147177989907, 712.3563096752899, 715.4979015584149,
      718.6394934482762, 721.7810853447858, 724.9226772478572, 728.0642691574056,
      731.2058610733475, 734.3474529956007, 737.4890449240847, 740.6306368587202,
      743.7722287994292, 746.9138207461351, 750.0554126987624, 753.1970046572372,
      756.3385966214867, 759.4801885914388, 762.6217805670236, 765.7633725481713,
      768.9049645348141, 772.0465565268846, 775.188148524317, 778.3297405270463,
      781.4713325350085, 784.612924548141, 787.7545165663819, 790.8961085896701,
      794.0377006179459, 797.1792926511503, 800.3208846892252, 803.4624767321134,
      806.6040687797588, 809.7456608321061, 812.8872528891005, 816.0288449506886,
      819.1704370168175, 822.312029087435, 825.45362116249, 828.595213241932,
      831.7368053257112, 834.8783974137788, 838.0199895060864, 841.1615816025867,
      844.3031737032326, 847.4447658079782, 850.5863579167782, 853.7279500295875,
      856.8695421463623, 860.011134267059, 863.1527263916347, 866.2943185200475,
      869.4359106522554, 872.5775027882177, 875.7190949278939, 878.8606870712442,
      882.0022792182293, 885.1438713688106, 888.2854635229497, 891.4270556806093,
      894.5686478417521, 897.7102400063416, 900.8518321743418, 903.9934243457169,
      907.1350165204321, 910.2766086984528, 913.4182008797447, 916.5597930642743,
      919.7013852520085, 922.8429774429144, 925.9845696369598, 929.1261618341128,
      932.2677540343421, 935.4093462376167, 938.5509384439058, 941.6925306531795,
      944.8341228654078, 947.9757150805616, 951.1173072986116, 954.2588995195295,
      957.4004917432868, 960.5420839698558, 963.6836761992089, 966.825268431319,
      969.9668606661594, 973.1084529037036, 976.2500451439255, 979.3916373867992,
      982.5332296322995, 985.674821880401, 988.8164141310792, 991.9580063843094,
      995.0995986400676, 998.2411908983298, 1001.3827831590725, 1004.5243754222724,
      1007.6659676879066, 1010.8075599559522, 1013.949152226387, 1017.0907444991888,
      1020.2323367743356, 1023.373929051806, 1026.5155213315786, 1029.6571136136324,
      1032.7987058979463, 1035.9402981845, 1039.081890473273, 1042.2234827642455,
      1045.3650750573975, 1048.5066673527094, 1051.648259650162, 1054.7898519497357,
      1057.9314442514121, 1061.0730365551724, 1064.2146288609981, 1067.3562211688711,
      1070.497813478773, 1073.6394057906864, 1076.7809981045934, 1079.922590420477,
      1083.0641827383195, 1086.205775058104, 1089.3473673798142, 1092.488959703433,
      1095.630552028944, 1098.7721443563312, 1101.9137366855782, 1105.0553290166697,
      1108.1969213495895, 1111.3385136843222, 1114.4801060208526, 1117.6216983591655,
      1120.763290699246, 1123.9048830410788, 1127.04647538465, 1130.1880677299446,
      1133.3296600769484, 1136.4712524256472, 1139.612844776027, 1142.754437128074,
      1145.8960294817741, 1149.0376218371143, 1152.1792141940812, 1155.3208065526608,
      1158.4623989128409, 1161.6039912746078, 1164.7455836379488, 1167.8871760028514,
      1171.0287683693032, 1174.1703607372913, 1177.3119531068037, 1180.4535454778281,
      1183.5951378503526, 1186.7367302243651, 1189.878322599854, 1193.0199149768075,
      1196.1615073552143, 1199.3030997350625, 1202.4446921163412, 1205.5862844990393,
      1208.7278768831452, 1211.8694692686486, 1215.011061655538, 1218.1526540438033,
      1221.2942464334335, 1224.4358388244184, 1227.5774312167473, 1230.71902361041,
      1233.8606160053962, 1237.002208401696, 1240.1438007992995, 1243.2853931981965,
      1246.4269855983775, 1249.5685779998325, 1252.7101704025524, 1255.8517628065274,
      1258.9933552117482, 1262.1349476182052, 1265.2765400258895, 1268.418132434792,
      1271.5597248449035, 1274.7013172562151, 1277.842909668718, 1280.9845020824034,
      1284.1260944972628, 1287.2676869132874, 1290.4092793304685, 1293.5508717487983,
      1296.6924641682679, 1299.834056588869, 1302.9756490105938, 1306.117241433434,
      1309.2588338573814, 1312.4004262824285, 1315.542018708567, 1318.6836111357893,
      1321.8252035640876, 1324.9667959934543, 1328.1083884238817, 1331.2499808553623,
      1334.3915732878888, 1337.5331657214538, 1340.67475815605, 1343.81635059167,
      1346.957943028307, 1350.0995354659535, 1353.2411279046028, 1356.3827203442474,
      1359.5243127848812, 1362.6659052264968, 1365.8074976690873, 1368.9490901126464,
      1372.0906825571674, 1375.2322750026435, 1378.3738674490683, 1381.5154598964352,
      1384.657052344738, 1387.7986447939702, 1390.9402372441255, 1394.0818296951977,
      1397.2234221471806, 1400.365014600068, 1403.506607053854, 1406.6481995085326,
      1409.7897919640975, 1412.931384420543, 1416.0729768778633, 1419.2145693360526,
      1422.356161795105, 1425.4977542550148, 1428.6393467157764, 1431.7809391773842,
      1434.9225316398329, 1438.0641241031165, 1441.2057165672297, 1444.3473090321675,
      1447.4889014979237, 1450.6304939644938, 1453.7720864318721, 1456.9136789000536,
      1460.0552713690329, 1463.1968638388048, 1466.3384563093646, 1469.4800487807067,
      1472.6216412528267, 1475.7632337257191, 1478.9048261993794, 1482.0464186738025,
      1485.1880111489834, 1488.3296036249176, 1491.4711961016, 1494.6127885790263,
      1497.7543810571917, 1500.8959735360913, 1504.0375660157208, 1507.1791584960754,
      1510.3207509771507, 1513.4623434589423, 1516.6039359414456, 1519.7455284246562,
      1522.8871209085696, 1526.028713393182, 1529.1703058784883, 1532.311898364485,
      1535.4534908511673, 1538.5950833385311, 1541.7366758265725, 1544.8782683152872,
      1548.0198608046712, 1551.16145329472, 1554.3030457854304, 1557.4446382767976,
      1560.5862307688178, 1563.7278232614874, 1566.8694157548023, 1570.0110082487586,
      1573.1526007433524, 1576.29419323858, 1579.4357857344376, 1582.5773782309216,
      1585.718970728028, 1588.860563225753, 1592.0021557240932, 1595.1437482230451,
      1598.2853407226048, 1601.4269332227689, 1604.5685257235339, 1607.710118224896,
      1610.851710726852, 1613.993303229398, 1617.134895732531, 1620.2764882362476,
      1623.4180807405442, 1626.5596732454173, 1629.701265750864, 1632.8428582568808,
      1635.984450763464, 1639.1260432706113, 1642.2676357783184, 1645.4092282865827,
      1648.550820795401, 1651.6924133047698, 1654.8340058146864, 1657.9755983251473,
      1661.1171908361498, 1664.2587833476905, 1667.4003758597664, 1670.5419683723746,
      1673.6835608855122, 1676.8251533991759, 1679.966745913363, 1683.1083384280705,
      1686.2499309432956, 1689.3915234590352, 1692.5331159752864, 1695.6747084920466,
      1698.816301009313, 1701.9578935270827, 1705.0994860453527, 1708.2410785641205,
      1711.3826710833832, 1714.5242636031383, 1717.6658561233828, 1720.8074486441144,
      1723.94904116533, 1727.0906336870273, 1730.2322262092036, 1733.3738187318563,
      1736.5154112549826, 1739.6570037785802, 1742.7985963026465, 1745.9401888271789,
      1749.0817813521746, 1752.2233738776317, 1755.3649664035474, 1758.5065589299195,
      1761.648151456745, 1764.789743984022, 1767.9313365117478, 1771.0729290399202,
      1774.2145215685368, 1777.356114097595, 1780.4977066270928, 1783.6392991570278,
      1786.7808916873976, 1789.9224842181998, 1793.0640767494324, 1796.205669281093,
      1799.3472618131793, 1802.4888543456893, 1805.6304468786204, 1808.7720394119708,
      1811.9136319457382, 1815.0552244799203, 1818.1968170145149, 1821.3384095495203,
      1824.4800020849339, 1827.6215946207537, 1830.763187156978, 1833.904779693604,
      1837.0463722306301, 1840.1879647680544, 1843.3295573058747, 1846.4711498440888,
      1849.612742382695, 1852.754334921691, 1855.895927461075, 1859.0375200008448,
      1862.1791125409989, 1865.320705081535, 1868.4622976224514, 1871.6038901637457,
      1874.7454827054166, 1877.887075247462, 1881.02866778988, 1884.1702603326687,
      1887.3118528758262, 1890.4534454193508, 1893.5950379632407, 1896.7366305074938,
      1899.8782230521088, 1903.0198155970832, 1906.161408142416, 1909.3030006881047,
      1912.4445932341482, 1915.5861857805442, 1918.7277783272914, 1921.8693708743879,
      1925.0109634218318, 1928.1525559696217, 1931.294148517756, 1934.4357410662326,
      1937.57733361505, 1940.7189261642068, 1943.8605187137011, 1947.0021112635313,
      1950.143703813696, 1953.285296364193, 1956.4268889150214, 1959.5684814661793,
      1962.710074017665, 1965.851666569477, 1968.9932591216138, 1972.1348516740738,
      1975.2764442268556, 1978.4180367799574, 1981.559629333378, 1984.7012218871157,
      1987.842814441169, 1990.9844069955363, 1994.1259995502164, 1997.2675921052075,
      2000.4091846605083, 2003.5507772161175, 2006.6923697720333, 2009.8339623282545,
      2012.9755548847797, 2016.1171474416074, 2019.2587399987362, 2022.4003325561646,
      2025.5419251138912, 2028.683517671915, 2031.825110230234, 2034.9667027888474,
      2038.1082953477535, 2041.249887906951, 2044.3914804664387, 2047.533073026215,
      2050.674665586279, 2053.816258146629, 2056.957850707264, 2060.0994432681823,
      2063.241035829383, 2066.3826283908643, 2069.524220952625, 2072.6658135146645,
      2075.8074060769814, 2078.948998639574, 2082.0905912024405, 2085.232183765581,
      2088.3737763289937, 2091.515368892677, 2094.65696145663, 2097.798554020852,
      2100.9401465853407, 2104.0817391500955, 2107.2233317151154, 2110.364924280399,
      2113.506516845945, 2116.648109411752, 2119.7897019778197, 2122.9312945441466,
      2126.072887110731, 2129.2144796775724, 2132.356072244669, 2135.4976648120205,
      2138.639257379625, 2141.7808499474822, 2144.9224425155903, 2148.0640350839485,
      2151.2056276525554, 2154.34722022141, 2157.488812790512, 2160.6304053598597,
      2163.7719979294516, 2166.9135904992872, 2170.0551830693653, 2173.196775639685,
      2176.338368210245, 2179.479960781044, 2182.6215533520817, 2185.7631459233567,
      2188.9047384948676, 2192.046331066614, 2195.187923638595, 2198.329516210809,
      2201.471108783255, 2204.6127013559326, 2207.7542939288405, 2210.8958865019777,
      2214.037479075343, 2217.179071648936, 2220.320664222755, 2223.4622567967995,
      2226.6038493710685, 2229.745441945561, 2232.8870345202763, 2236.028627095213,
      2239.1702196703704, 2242.3118122457477, 2245.4534048213436, 2248.5949973971574,
      2251.7365899731885, 2254.8781825494357, 2258.019775125898, 2261.161367702575,
      2264.302960279465, 2267.4445528565675, 2270.586145433882, 2273.727738011407,
      2276.8693305891416, 2280.010923167086, 2283.152515745238, 2286.2941083235974,
      2289.4357009021633, 2292.577293480935, 2295.7188860599113, 2298.8604786390915,
      2302.002071218475, 2305.1436637980605, 2308.285256377848, 2311.4268489578353,
      2314.568441538023, 2317.7100341184096, 2320.851626698994, 2323.9932192797764,
      2327.134811860755, 2330.276404441929, 2333.4179970232985, 2336.559589604862,
      2339.7011821866195, 2342.842774768569, 2345.9843673507107, 2349.1259599330433,
      2352.2675525155664, 2355.4091450982787, 2358.55073768118, 2361.69233026427,
      2364.8339228475465, 2367.9755154310096, 2371.117108014659, 2374.2587005984933,
      2377.4002931825116, 2380.541885766714, 2383.683478351099, 2386.8250709356666,
      2389.9666635204153, 2393.108256105345, 2396.249848690454, 2399.391441275743,
      2402.5330338612107, 2405.674626446856, 2408.816219032679, 2411.957811618678,
      2415.099404204853, 2418.240996791203, 2421.382589377728, 2424.524181964426,
      2427.665774551298, 2430.8073671383418, 2433.948959725558, 2437.0905523129445,
      2440.232144900502, 2443.3737374882294, 2446.515330076126, 2449.6569226641905,
      2452.7985152524234, 2455.940107840823, 2459.08170042939, 2462.223293018122,
      2465.36488560702, 2468.5064781960823, 2471.6480707853084, 2474.7896633746986,
      2477.9312559642512, 2481.0728485539657, 2484.214441143842, 2487.3560337338795,
      2490.497626324077, 2493.6392189144344, 2496.7808115049506, 2499.922404095626,
      2503.0639966864587, 2506.2055892774492, 2509.347181868596, 2512.488774459899,
      2515.630367051358, 2518.7719596429715, 2521.9135522347397, 2525.0551448266615,
      2528.196737418737, 2531.338330010965, 2534.4799226033447, 2537.6215151958763,
      2540.763107788559, 2543.904700381392, 2547.046292974375, 2550.1878855675072,
      2553.3294781607883, 2556.471070754217, 2559.6126633477943, 2562.7542559415183,
      2565.8958485353887, 2569.0374411294056, 2572.179033723568, 2575.320626317875,
      2578.4622189123265, 2581.6038115069223, 2584.7454041016613, 2587.886996696543,
      2591.028589291567, 2594.170181886733, 2597.3117744820406, 2600.453367077489,
      2603.5949596730775, 2606.736552268806, 2609.8781448646737, 2613.01973746068,
      2616.1613300568247, 2619.3029226531075, 2622.4445152495273, 2625.586107846084,
      2628.727700442777, 2631.8692930396055, 2635.0108856365696, 2638.1524782336687,
      2641.2940708309025, 2644.4356634282694, 2647.57725602577, 2650.718848623404,
      2653.8604412211703, 2657.0020338190684, 2660.143626417098, 2663.285219015259,
      2666.4268116135504, 2669.568404211972, 2672.709996810523, 2675.8515894092034,
      2678.993182008013, 2682.1347746069505, 2685.276367206016, 2688.4179598052087,
      2691.559552404529, 2694.701145003975, 2697.842737603548, 2700.984330203246,
      2704.1259228030694, 2707.2675154030176, 2710.40910800309, 2713.5507006032867,
      2716.6922932036064, 2719.8338858040493, 2722.975478404615, 2726.117071005303,
      2729.258663606113, 2732.4002562070436, 2735.5418488080954, 2738.683441409268,
      2741.8250340105606, 2744.966626611973, 2748.1082192135045, 2751.249811815155,
      2754.391404416924, 2757.5329970188113, 2760.674589620816, 2763.816182222938,
      2766.957774825177, 2770.0993674275323, 2773.240960030004, 2776.382552632591,
      2779.5241452352934, 2782.6657378381105, 2785.8073304410423, 2788.9489230440886,
      2792.090515647248, 2795.232108250521, 2798.373700853907, 2801.5152934574057,
      2804.656886061017, 2807.7984786647394, 2810.9400712685733, 2814.0816638725187,
      2817.2232564765745, 2820.364849080741, 2823.5064416850173, 2826.6480342894033,
      2829.7896268938985, 2832.9312194985023, 2836.0728121032153, 2839.214404708036,
      2842.3559973129645, 2845.4975899180004, 2848.6391825231435, 2851.7807751283935,
      2854.9223677337495, 2858.063960339212, 2861.20555294478, 2864.347145550453,
      2867.488738156231, 2870.630330762114, 2873.7719233681014, 2876.9135159741927,
      2880.0551085803877, 2883.196701186686, 2886.338293793087, 2889.4798863995907,
      2892.6214790061963, 2895.7630716129042, 2898.9046642197136, 2902.046256826625,
      2905.1878494336365, 2908.3294420407487, 2911.4710346479615, 2914.612627255274,
      2917.7542198626866, 2920.895812470198, 2924.0374050778087, 2927.178997685518,
      2930.320590293326, 2933.4621829012317, 2936.603775509235, 2939.745368117336,
      2942.886960725534, 2946.028553333829, 2949.1701459422206, 2952.311738550708,
      2955.4533311592913, 2958.5949237679706, 2961.736516376745, 2964.8781089856143,
      2968.0197015945782, 2971.1612942036363, 2974.302886812789, 2977.4444794220353,
      2980.586072031375, 2983.7276646408077, 2986.8692572503332, 2990.0108498599516,
      2993.152442469662, 2996.294035079465, 2999.4356276893595, 3002.5772202993453,
      3005.718812909422, 3008.86040551959, 3012.0019981298483, 3015.143590740197,
      3018.285183350636, 3021.4267759611644, 3024.5683685717822, 3027.709961182489,
      3030.8515537932853, 3033.99314640417, 3037.1347390151427, 3040.276331626204,
      3043.417924237353, 3046.5595168485893, 3049.701109459913, 3052.8427020713234,
      3055.9842946828207, 3059.1258872944045, 3062.2674799060746, 3065.4090725178303,
      3068.550665129672, 3071.692257741599, 3074.833850353611, 3077.975442965708,
      3081.1170355778895, 3084.2586281901554, 3087.4002208025054, 3090.5418134149395,
      3093.683406027457, 3096.824998640058, 3099.9665912527416, 3103.108183865508,
      3106.2497764783575, 3109.391369091289, 3112.532961704303, 3115.6745543173984,
      3118.8161469305755, 3121.9577395438337, 3125.099332157173, 3128.2409247705937,
      3131.3825173840946, 3134.524109997676, 3137.6657026113376, 3140.8072952250786]"

definition J1_zeros :: "real list" where
  "J1_zeros =
     [3.8317059702075125, 7.015586669815619, 10.173468135062722, 13.323691936314223,
      16.470630050877634, 19.615858510468243, 22.760084380592772, 25.903672087618382,
      29.046828534916855, 32.189679910974405, 35.33230755008387, 38.474766234771614,
      41.61709421281445, 44.75931899765282, 47.90146088718544, 51.04353518357151,
      54.18555364106132, 57.32752543790101, 60.46945784534749, 63.61135669848123,
      66.75322673409849, 69.89507183749578, 73.03689522557384, 76.17869958464146,
      79.3204871754763, 82.46225991437356, 85.60401943635023, 88.7457671449263,
      91.88750425169499, 95.0292318080447, 98.17095073079078, 101.31266182303874,
      104.45436579128275, 107.59606325950917, 110.73775478089922, 113.87944084759499,
      117.02112189889243, 120.16279832814901, 123.30447048863572, 126.44613869851659,
      129.587803245104, 132.72946438850963, 135.871122364789, 139.0127773886597,
      142.15442965585902, 145.2960793451959, 148.43772662034223, 151.57937163140144,
      154.72101451628595, 157.86265540193028, 161.004294405362, 164.14593163464963,
      167.2875671897441, 170.42920116322662, 173.57083364097593, 176.71246470276375,
      179.8540944227884, 182.99572287015297, 186.1373501092955, 189.278976200376,
      192.4206011996257, 195.56222515966257, 198.70384812977704, 201.84547015619088,
      204.98709128229234, 208.12871154885005, 211.27033099420777, 214.41194965446198,
      217.5535675636242, 220.69518475376935, 223.83680125517174, 226.97841709642947,
      230.1200323045791, 233.26164690520062, 236.4032609225143, 239.54487437946986,
      242.6864872978287, 245.8280996982398, 248.96971160030992, 252.11132302266859,
      255.25293398302813, 258.3945444982395, 261.53615458434405, 264.6777642566215,
      267.81937352963456, 270.9609824172707, 274.1025909327807, 277.2441990888146,
      280.3858068974556, 283.5274143702514, 286.6690215182434, 289.8106283519944,
      292.9522348816139, 296.09384111678247, 299.23544706677416, 302.37705274047755,
      305.5186581464156, 308.6602632927644, 311.8018681873705, 314.94347283776716,
      318.0850772511904, 321.2266814345928, 324.36828539465785, 327.5098891378125,
      330.6514926702394, 333.7930959978886, 336.934699126488, 340.0763020615541,
      343.2179048084013, 346.35950737215103, 349.50110975774095, 352.6427119699324,
      355.7843140133188, 358.9259158923327, 362.06751761125264, 365.2091191742101,
      368.3507205851957, 371.4923218480648, 374.6339229665437, 377.77552394423464,
      380.91712478462097, 384.05872549107215, 387.2003260668482, 390.3419265151044,
      393.483526838895, 396.62512704117756, 399.7667271248168, 402.90832709258797,
      406.04992694718044, 409.191526691201, 412.333126327177, 415.4747258575594,
      418.6163252847255, 421.7579246109819, 424.8995238385667, 428.04112296965263,
      431.1827220063489, 434.3243209507038, 437.46591980470663, 440.60751857029015,
      443.74911724933224, 446.89071584365803, 450.03231435504165, 453.17391278520813,
      456.3155111358349, 459.45710940855355, 462.59870760495136, 465.74030572657267,
      468.88190377492066, 472.02350175145824, 475.1650996576098, 478.3066974947622,
      481.4482952642663, 484.5898929674376, 487.73149060555806, 490.8730881798765,
      494.0146856916103, 497.1562831419457, 500.29788053203947, 503.4394778630194,
      506.5810751359852, 509.72267235200957, 512.8642695121389, 516.0058666173942,
      519.1474636687715, 522.2890606672431, 525.4306576137582, 528.5722545092428,
      531.7138513546017, 534.8554481507182, 537.9970448984548, 541.1386415986541,
      544.2802382521394, 547.4218348597149, 550.5634314221664, 553.7050279402622,
      556.8466244147527, 559.9882208463721, 563.1298172358377, 566.2714135838512,
      569.4130098910987, 572.5546061582512, 575.6962023859651, 578.8377985748825,
      581.9793947256318, 585.1209908388278, 588.2625869150719, 591.4041829549533,
      594.5457789590482, 597.687374927921, 600.8289708621243, 603.9705667621989,
      607.1121626286748, 610.2537584620707, 613.395354262895, 616.5369500316457,
      619.6785457688104, 622.8201414748671, 625.9617371502844, 629.103332795521,
      632.2449284110271, 635.3865239972436, 638.5281195546027, 641.6697150835282,
      644.811310584436, 647.9529060577335, 651.0945015038202, 654.2360969230882,
      657.3776923159221, 660.5192876826989, 663.6608830237888, 666.8024783395548,
      669.944073630353, 673.0856688965334, 676.2272641384387, 679.368859356406,
      682.5104545507655, 685.652049721842, 688.793644869954, 691.9352399954142,
      695.07683509853, 698.2184301796026, 701.3600252389285, 704.5016202767986,
      707.6432152934987, 710.7848102893093, 713.9264052645063, 717.0680002193608,
      720.2095951541387, 723.3511900691018, 726.492784964507, 729.634379840607,
      732.7759746976502, 735.9175695358806, 739.0591643555381, 742.2007591568585,
      745.3423539400735, 748.4839487054115, 751.6255434530964, 754.7671381833486,
      757.908732896385, 761.0503275924187, 764.1919222716595, 767.3335169343136,
      770.4751115805839, 773.6167062106699, 776.7583008247682, 779.8998954230718,
      783.0414900057709, 786.1830845730526, 789.3246791251008, 792.4662736620969,
      795.6078681842192, 798.749462691643, 801.8910571845412, 805.0326516630838,
      808.1742461274383, 811.3158405777694, 814.4574350142394, 817.5990294370082,
      820.740623846233, 823.8822182420688, 827.0238126246683, 830.1654069941815,
      833.3070013507565, 836.4485956945391, 839.5901900256731, 842.7317843442996,
      845.8733786505583, 849.0149729445862, 852.1565672265189, 855.2981614964893,
      858.439755754629, 861.5813500010673, 864.7229442359318, 867.8645384593482,
      871.0061326714402, 874.1477268723302, 877.2893210621382, 880.4309152409832,
      883.5725094089818, 886.7141035662494, 889.8556977128998, 892.9972918490449,
      896.1388859747952, 899.2804800902596, 902.4220741955457, 905.5636682907593,
      908.705262376005, 911.8468564513855, 914.9884505170028, 918.1300445729568,
      921.2716386193466, 924.4132326562697, 927.5548266838221, 930.6964207020987,
      933.8380147111934, 936.9796087111984, 940.1212027022048, 943.2627966843023,
      946.40439065758, 949.5459846221253, 952.6875785780245, 955.829172525363,
      958.9707664642248, 962.1123603946929, 965.2539543168494, 968.3955482307753,
      971.5371421365501, 974.6787360342528, 977.8203299239613, 980.9619238057522,
      984.1035176797016, 987.245111545884, 990.3867054043736, 993.5282992552433,
      996.669893098565, 999.8114869344101, 1002.9530807628488, 1006.0946745839503,
      1009.2362683977834, 1012.3778622044155, 1015.5194560039135, 1018.6610497963436,
      1021.8026435817708, 1024.9442373602594, 1028.0858311318732, 1031.227424896675,
      1034.369018654727, 1037.51061240609, 1040.6522061508254, 1043.7937998889922,
      1046.93539362065, 1050.076987345857, 1053.2185810646715, 1056.3601747771497,
      1059.5017684833485, 1062.6433621833235, 1065.7849558771295, 1068.9265495648212,
      1072.0681432464523, 1075.2097369220758, 1078.3513305917443, 1081.4929242555095,
      1084.634517913423, 1087.7761115655353, 1090.9177052118964, 1094.0592988525561,
      1097.2008924875636, 1100.3424861169667, 1103.4840797408137, 1106.6256733591517,
      1109.7672669720275, 1112.9088605794875, 1116.0504541815776, 1119.1920477783424,
      1122.3336413698273, 1125.475234956076, 1128.6168285371327, 1131.7584221130403,
      1134.9000156838415, 1138.0416092495789, 1141.183202810294, 1144.3247963660283,
      1147.466389916823, 1150.607983462718, 1153.7495770037538, 1156.8911705399696,
      1160.032764071405, 1163.1743575980981, 1166.315951120088, 1169.457544637412,
      1172.599138150108, 1175.7407316582128, 1178.8823251617632, 1182.0239186607957,
      1185.1655121553458, 1188.3071056454496, 1191.448699131142, 1194.5902926124575,
      1197.731886089431, 1200.8734795620965, 1204.0150730304874, 1207.1566664946374,
      1210.2982599545796, 1213.4398534103464, 1216.58144686197, 1219.7230403094832,
      1222.8646337529167, 1226.0062271923025, 1229.1478206276715, 1232.2894140590543,
      1235.4310074864813, 1238.5726009099828, 1241.7141943295885, 1244.855787745328,
      1247.99738115723, 1251.138974565324, 1254.2805679696385, 1257.4221613702014,
      1260.5637547670412, 1263.7053481601856, 1266.8469415496622, 1269.988534935498,
      1273.1301283177197, 1276.2717216963545, 1279.4133150714285, 1282.554908442968,
      1285.696501810999, 1288.838095175547, 1291.9796885366375, 1295.1212818942956,
      1298.2628752485462, 1301.404468599414, 1304.5460619469234, 1307.6876552910987,
      1310.8292486319638, 1313.9708419695426, 1317.1124353038583, 1320.2540286349345,
      1323.395621962794, 1326.53721528746, 1329.6788086089548, 1332.820401927301,
      1335.9619952425207, 1339.1035885546362, 1342.245181863669, 1345.3867751696405,
      1348.5283684725725, 1351.6699617724862, 1354.8115550694024, 1357.953148363342,
      1361.0947416543254, 1364.2363349423733, 1367.377928227506, 1370.519521509743,
      1373.6611147891049, 1376.802708065611, 1379.9443013392804, 1383.0858946101332,
      1386.2274878781882, 1389.3690811434644, 1392.5106744059806, 1395.6522676657553,
      1398.7938609228072, 1401.9354541771545, 1405.0770474288154, 1408.2186406778076,
      1411.3602339241493, 1414.501827167858, 1417.6434204089512, 1420.7850136474465,
      1423.9266068833606, 1427.0682001167108, 1430.209793347514, 1433.351386575787,
      1436.4929798015464, 1439.6345730248088, 1442.77616624559, 1445.9177594639066,
      1449.0593526797745, 1452.2009458932096, 1455.3425391042276, 1458.4841323128444,
      1461.625725519075, 1464.7673187229352, 1467.9089119244402, 1471.0505051236046,
      1474.1920983204438, 1477.3336915149725, 1480.4752847072057, 1483.6168778971576,
      1486.7584710848425, 1489.9000642702754, 1493.04165745347, 1496.1832506344404,
      1499.324843813201, 1502.466436989765, 1505.6080301641468, 1508.7496233363597,
      1511.8912165064173, 1515.0328096743328, 1518.17440284012, 1521.3159960037917,
      1524.457589165361, 1527.5991823248407, 1530.7407754822443, 1533.8823686375838,
      1537.0239617908724, 1540.1655549421225, 1543.3071480913463, 1546.4487412385565,
      1549.5903343837651, 1552.7319275269845, 1555.8735206682265, 1559.0151138075032,
      1562.1567069448263, 1565.2983000802078, 1568.4398932136592, 1571.581486345192,
      1574.723079474818, 1577.8646726025481, 1581.006265728394, 1584.147858852367,
      1587.289451974478, 1590.4310450947378, 1593.5726382131577, 1596.7142313297486,
      1599.855824444521, 1602.9974175574857, 1606.1390106686533, 1609.2806037780344,
      1612.4221968856396, 1615.5637899914789, 1618.7053830955626, 1621.8469761979013,
      1624.9885692985047, 1628.1301623973832, 1631.2717554945464, 1634.4133485900043,
      1637.5549416837669, 1640.696534775844, 1643.8381278662448, 1646.9797209549793,
      1650.1213140420568, 1653.2629071274869, 1656.404500211279, 1659.5460932934423,
      1662.687686373986, 1665.8292794529193, 1668.9708725302512, 1672.112465605991,
      1675.2540586801474, 1678.3956517527295, 1681.537244823746, 1684.6788378932056,
      1687.820430961117, 1690.962024027489, 1694.1036170923298, 1697.2452101556485,
      1700.386803217453, 1703.5283962777519, 1706.6699893365535, 1709.811582393866,
      1712.9531754496977, 1716.0947685040564, 1719.236361556951, 1722.3779546083883,
      1725.5195476583772, 1728.6611407069254, 1731.8027337540404, 1734.9443267997306,
      1738.085919844003, 1741.2275128868657, 1744.3691059283265, 1747.5106989683925,
      1750.6522920070713, 1753.7938850443707, 1756.9354780802978, 1760.0770711148598,
      1763.2186641480646, 1766.3602571799188, 1769.50185021043, 1772.643443239605,
      1775.7850362674512, 1778.9266292939756, 1782.068222319185, 1785.2098153430863,
      1788.351408365687, 1791.493001386993, 1794.634594407012, 1797.77618742575,
      1800.9177804432143, 1804.059373459411, 1807.2009664743473, 1810.3425594880293,
      1813.4841525004638, 1816.6257455116572, 1819.7673385216158, 1822.908931530346,
      1826.0505245378542, 1829.1921175441469, 1832.33371054923, 1835.47530355311,
      1838.616896555793, 1841.7584895572847, 1844.9000825575918, 1848.04167555672,
      1851.1832685546756, 1854.3248615514642, 1857.4664545470919, 1860.6080475415645,
      1863.749640534888, 1866.891233527068, 1870.0328265181104, 1873.174419508021,
      1876.3160124968051, 1879.4576054844688, 1882.5991984710174, 1885.7407914564567,
      1888.882384440792, 1892.0239774240292, 1895.1655704061734, 1898.30716338723,
      1901.4487563672046, 1904.5903493461024, 1907.731942323929, 1910.8735353006891,
      1914.0151282763886, 1917.1567212510324, 1920.2983142246258, 1923.4399071971736,
      1926.5815001686813, 1929.723093139154, 1932.8646861085965, 1936.006279077014,
      1939.147872044411, 1942.2894650107933, 1945.4310579761652, 1948.5726509405317,
      1951.714243903898, 1954.8558368662684, 1957.997429827648, 1961.1390227880413,
      1964.2806157474533, 1967.4222087058888, 1970.5638016633523, 1973.7053946198482,
      1976.8469875753815, 1979.9885805299566, 1983.1301734835781, 1986.2717664362506,
      1989.4133593879783, 1992.554952338766, 1995.696545288618, 1998.8381382375387,
      2001.9797311855325, 2005.1213241326038, 2008.2629170787568, 2011.404510023996,
      2014.5461029683256, 2017.6876959117496, 2020.8292888542726, 2023.9708817958988,
      2027.112474736632, 2030.2540676764766, 2033.3956606154368, 2036.5372535535164,
      2039.6788464907197, 2042.8204394270506, 2045.9620323625134, 2049.1036252971116,
      2052.2452182308493, 2055.386811163731, 2058.5284040957604, 2061.6699970269406,
      2064.8115899572767, 2067.9531828867716, 2071.09477581543, 2074.2363687432544,
      2077.3779616702495, 2080.5195545964193, 2083.661147521767, 2086.8027404462964,
      2089.9443333700115, 2093.0859262929152, 2096.227519215012, 2099.3691121363054,
      2102.5107050567985, 2105.652297976495, 2108.793890895399, 2111.9354838135137,
      2115.0770767308422, 2118.2186696473887, 2121.360262563156, 2124.501855478148,
      2127.6434483923686, 2130.78504130582, 2133.9266342185065, 2137.0682271304313,
      2140.2098200415976, 2143.351412952009, 2146.4930058616683, 2149.6345987705795,
      2152.7761916787454, 2155.917784586169, 2159.0593774928543, 2162.200970398804,
      2165.3425633040215, 2168.48415620851, 2171.6257491122724, 2174.767342015312,
      2177.908934917632, 2181.0505278192354, 2184.1921207201253, 2187.3337136203054,
      2190.4753065197774, 2193.6168994185455, 2196.7584923166123, 2199.9000852139807,
      2203.041678110654, 2206.183271006635, 2209.3248639019266, 2212.466456796532,
      2215.6080496904533, 2218.7496425836944, 2221.891235476258, 2225.0328283681465,
      2228.174421259363, 2231.3160141499106, 2234.4576070397916, 2237.5991999290095,
      2240.740792817566, 2243.8823857054654, 2247.023978592709, 2250.1655714793005,
      2253.3071643652424, 2256.448757250537, 2259.5903501351872, 2262.731943019196,
      2265.873535902566, 2269.0151287852996, 2272.1567216673993, 2275.2983145488683,
      2278.4399074297085, 2281.5815003099233, 2284.7230931895147, 2287.8646860684853,
      2291.006278946838, 2294.147871824575, 2297.2894647016988, 2300.4310575782124,
      2303.5726504541176, 2306.7142433294175, 2309.8558362041144, 2312.9974290782106,
      2316.1390219517084, 2319.2806148246104, 2322.4222076969195, 2325.5638005686374,
      2328.705393439767, 2331.84698631031, 2334.9885791802694, 2338.130172049647,
      2341.271764918446, 2344.4133577866683, 2347.5549506543157, 2350.696543521391,
      2353.8381363878966, 2356.9797292538346, 2360.1213221192074, 2363.2629149840172,
      2366.404507848266, 2369.546100711956, 2372.68769357509, 2375.82928643767,
      2378.9708792996976, 2382.1124721611754, 2385.254065022106, 2388.3956578824905,
      2391.537250742332, 2394.6788436016323, 2397.820436460394, 2400.962029318618,
      2404.103622176308, 2407.245215033465, 2410.386807890091, 2413.5284007461887,
      2416.66999360176, 2419.8115864568063, 2422.9531793113306, 2426.0947721653347,
      2429.23636501882, 2432.3779578717895, 2435.5195507242443, 2438.6611435761865,
      2441.8027364276186, 2444.944329278542, 2448.0859221289593, 2451.227514978872,
      2454.369107828282, 2457.5107006771914, 2460.652293525602, 2463.7938863735158,
      2466.9354792209347, 2470.0770720678606, 2473.218664914295, 2476.3602577602405,
      2479.5018506056986, 2482.6434434506705, 2485.7850362951594, 2488.926629139166,
      2492.0682219826926, 2495.209814825741, 2498.3514076683127, 2501.4930005104097,
      2504.634593352034, 2507.776186193187, 2510.917779033871, 2514.059371874087,
      2517.2009647138375, 2520.3425575531237, 2523.4841503919474, 2526.625743230311,
      2529.767336068215, 2532.9089289056624, 2536.050521742654, 2539.1921145791916,
      2542.3337074152773, 2545.4753002509124, 2548.6168930860986, 2551.7584859208378,
      2554.9000787551317, 2558.0416715889814, 2561.183264422389, 2564.324857255356,
      2567.4664500878844, 2570.608042919975, 2573.7496357516297, 2576.8912285828505,
      2580.032821413639, 2583.174414243996, 2586.3160070739236, 2589.4575999034237,
      2592.599192732497, 2595.740785561146, 2598.8823783893713, 2602.023971217175,
      2605.165564044559, 2608.307156871524, 2611.448749698072, 2614.590342524204,
      2617.731935349922, 2620.8735281752274, 2624.015121000122, 2627.1567138246064,
      2630.2983066486827, 2633.4398994723524, 2636.5814922956165, 2639.723085118477,
      2642.864677940935, 2646.006270762992, 2649.1478635846493, 2652.2894564059084,
      2655.431049226771, 2658.5726420472383, 2661.7142348673115, 2664.855827686992,
      2667.9974205062817, 2671.1390133251816, 2674.280606143693, 2677.4221989618172,
      2680.563791779556, 2683.705384596911, 2686.846977413882, 2689.988570230472,
      2693.1301630466814, 2696.2717558625122, 2699.413348677965, 2702.5549414930415,
      2705.696534307743, 2708.838127122071, 2711.979719936027, 2715.121312749611,
      2718.262905562826, 2721.4044983756717, 2724.5460911881505, 2727.6876840002633,
      2730.8292768120114, 2733.970869623396, 2737.1124624344184, 2740.2540552450796,
      2743.3956480553816, 2746.5372408653247, 2749.6788336749105, 2752.82042648414,
      2755.962019293015, 2759.1036121015363, 2762.2452049097055, 2765.386797717523,
      2768.5283905249908, 2771.6699833321095, 2774.811576138881, 2777.9531689453056,
      2781.0947617513852, 2784.23635455712, 2787.3779473625127, 2790.5195401675633,
      2793.661132972273, 2796.8027257766435, 2799.944318580676, 2803.0859113843703,
      2806.227504187729, 2809.369096990753, 2812.510689793443, 2815.6522825958004,
      2818.793875397826, 2821.935468199521, 2825.0770610008867, 2828.218653801924,
      2831.3602466026346, 2834.5018394030185, 2837.6434322030777, 2840.7850250028127,
      2843.926617802225, 2847.068210601315, 2850.209803400085, 2853.351396198535,
      2856.492988996666, 2859.63458179448, 2862.776174591977, 2865.917767389159,
      2869.059360186026, 2872.20095298258, 2875.342545778821, 2878.4841385747513,
      2881.625731370371, 2884.767324165681, 2887.908916960683, 2891.050509755378,
      2894.1921025497663, 2897.3336953438493, 2900.475288137628, 2903.616880931103,
      2906.758473724276, 2909.9000665171475, 2913.0416593097184, 2916.18325210199,
      2919.3248448939635, 2922.466437685639, 2925.608030477018, 2928.7496232681015,
      2931.89121605889, 2935.032808849385, 2938.174401639588, 2941.315994429498,
      2944.4575872191176, 2947.5991800084475, 2950.7407727974883, 2953.8823655862407,
      2957.0239583747057, 2960.165551162885, 2963.3071439507785, 2966.4487367383877,
      2969.590329525713, 2972.731922312756, 2975.8735150995176, 2979.0151078859976,
      2982.156700672198, 2985.298293458119, 2988.439886243762, 2991.581479029128,
      2994.723071814217, 2997.86466459903, 3001.0062573835694, 3004.147850167834,
      3007.289442951826, 3010.4310357355457, 3013.572628518994, 3016.714221302172,
      3019.8558140850805, 3022.9974068677197, 3026.1389996500916, 3029.280592432196,
      3032.422185214034, 3035.563777995607, 3038.705370776915, 3041.846963557959,
      3044.9885563387406, 3048.13014911926, 3051.2717418995176, 3054.4133346795147,
      3057.5549274592518, 3060.6965202387305, 3063.8381130179505, 3066.9797057969135,
      3070.1212985756197, 3073.2628913540702, 3076.4044841322657, 3079.546076910207,
      3082.687669687895, 3085.82926246533, 3088.970855242513, 3092.1124480194453,
      3095.254040796127, 3098.3956335725593, 3101.5372263487425, 3104.6788191246774,
      3107.8204119003653, 3110.9620046758064, 3114.103597451002, 3117.2451902259522,
      3120.386783000658, 3123.52837577512, 3126.6699685493395, 3129.8115613233167,
      3132.9531540970524, 3136.094746870547, 3139.2363396438022, 3142.377932416818]"
section \<open>Bessel functions\<close>

definition poly :: "real list \<Rightarrow> nat \<Rightarrow> real \<Rightarrow> real" where
  "poly cof n x = fold (\<lambda>i ans. ans * x + cof ! i) (rev [0..<n]) (cof ! n)"

text \<open>The Horner loops of J0 and J1 run side by side in the code; each is a call of \<open>poly\<close> here.\<close>

definition besselJ0 :: "real \<Rightarrow> real" where
  "besselJ0 x =
     (let ax = \<bar>x\<bar> in
      if ax < 8 then
        (let y = x * x; z = 64 - y; nump = poly j0r 6 z; denp = poly j0s 6 y
         in nump * (y - xj00) * (y - xj10) / denp)
      else
        (let fac = 1; z = 8 / ax; y = z * z; xx = ax - fac * pio4;
             nump = poly j0pn 4 y; denp = poly j0pd 4 y; numq = poly j0qn 4 y; denq = poly j0qd 4 y
         in sqrt (twoopi / ax) * (cos xx * nump / denp - z * sin xx * numq / denq)))"

definition besselJ1 :: "real \<Rightarrow> real" where
  "besselJ1 x =
     (let ax = \<bar>x\<bar> in
      if ax < 8 then
        (let y = x * x; z = 64 - y; nump = poly j1r 6 z; denp = poly j1s 6 y
         in x * nump * (y - xj01) * (y - xj11) / denp)
      else
        (let fac = 3; z = 8 / ax; y = z * z; xx = ax - fac * pio4;
             nump = poly j1pn 4 y; denp = poly j1pd 4 y; numq = poly j1qn 4 y; denq = poly j1qd 4 y;
             ans = sqrt (twoopi / ax) * (cos xx * nump / denp - z * sin xx * numq / denq)
         in if x > 0 then ans else - ans))"

definition besselJ2 :: "real \<Rightarrow> real" where
  "besselJ2 x = 2 * besselJ1 x / x - besselJ0 x"

definition besselI0 :: "real \<Rightarrow> real" where
  "besselI0 x =
     (let ax = \<bar>x\<bar> in
      if ax < 15 then (let y = x * x in poly i0p 13 y / poly i0q 4 (225 - y))
      else (let z = 1 - 15 / ax in exp ax * poly i0pp 4 z / (poly i0qq 5 z * sqrt ax)))"

definition besselI1 :: "real \<Rightarrow> real" where
  "besselI1 x =
     (let ax = \<bar>x\<bar> in
      if ax < 15 then (let y = x * x in x * poly i1p 13 y / poly i1q 4 (225 - y))
      else (let z = 1 - 15 / ax; ans = exp ax * poly i1pp 4 z / (poly i1qq 5 z * sqrt ax) in ans))"

definition besselK0 :: "real \<Rightarrow> real" where
  "besselK0 x =
     (if x \<le> 1 then
        (let z = x * x; term' = poly k0pi 4 z * ln x / poly k0qi 2 (1 - z)
         in poly k0p 4 z / poly k0q 2 (1 - z) - term')
      else (let z = 1 / x in exp (- x) * poly k0pp 7 z / (poly k0qq 7 z * sqrt x)))"

definition besselK1 :: "real \<Rightarrow> real" where
  "besselK1 x =
     (if x \<le> 1 then
        (let z = x * x; term' = poly k1pi 4 z * ln x / poly k1qi 2 (1 - z)
         in x * (poly k1p 4 z / poly k1q 2 (1 - z) + term') + 1 / x)
      else (let z = 1 / x in exp (- x) * poly k1pp 7 z / (poly k1qq 7 z * sqrt x)))"

definition besselK2 :: "real \<Rightarrow> real" where
  "besselK2 x = 2 * besselK1 x / x + besselK0 x"

definition besselJ0_zero :: "nat \<Rightarrow> real" where "besselJ0_zero n = J0_zeros ! n"

definition besselJ1_zero :: "nat \<Rightarrow> real" where "besselJ1_zero n = J1_zeros ! n"

section \<open>The disk integrals\<close>

text \<open>Index and bilinear interpolation in a table with rows for \<open>lim\<close> and columns for \<open>kRd\<close>.\<close>

definition table_index :: "real \<Rightarrow> int" where
  "table_index v = \<lfloor>10 * v - 0.1\<rfloor>"

definition interpolate :: "(int \<Rightarrow> int \<Rightarrow> real) \<Rightarrow> real \<Rightarrow> real \<Rightarrow> real" where
  "interpolate tab lm kRd =
     (let lim_index = table_index lm; kRd_index = table_index kRd;
          x1 = of_int lim_index * 0.1 + 0.01; x2 = of_int (lim_index + 1) * 0.1 + 0.01;
          y1 = of_int kRd_index * 0.1 + 0.01; y2 = of_int (kRd_index + 1) * 0.1 + 0.01;
          a11 = tab lim_index kRd_index; a12 = tab lim_index (kRd_index + 1);
          a21 = tab (lim_index + 1) kRd_index; a22 = tab (lim_index + 1) (kRd_index + 1)
      in 100 * (a11 * (x2 - lm) * (y2 - kRd) + a21 * (lm - x1) * (y2 - kRd)
           + a12 * (x2 - lm) * (kRd - y1) + a22 * (lm - x1) * (kRd - y1)))"

text \<open>Three-point Gaussian quadrature over \<open>n\<close> subintervals of \<open>[a, b]\<close>, as both functions do it.\<close>

definition gauss3 :: "nat \<Rightarrow> real \<Rightarrow> real \<Rightarrow> (real \<Rightarrow> real) \<Rightarrow> real" where
  "gauss3 n a b f =
     (let h = (b - a) / real n in
      fold (\<lambda>i integral. integral +
        fold (\<lambda>(weight, point) piece.
            (let x_val = h * point / 2 + a + (real i + 0.5) * h
             in piece + h * weight * f x_val / 9 / 2))
          [(5, -0.774596669), (8, 0), (5, 0.774596669)] 0) [0..<n] 0)"

definition aExp :: "(int \<Rightarrow> int \<Rightarrow> real) \<Rightarrow> real \<Rightarrow> real \<Rightarrow> real \<Rightarrow> real" where
  "aExp aExp_table k R Rd =
     (let lm = R / Rd; kRd = k * Rd in
      if lm < 50 \<and> lm > 0.4 \<and> kRd < 50 \<and> kRd > 0.4 then exp (interpolate aExp_table lm kRd)
      else gauss3 5 0 lm (\<lambda>x. x * exp (- x) * besselI0 (kRd * x)))"

definition bExp :: "(int \<Rightarrow> int \<Rightarrow> real) \<Rightarrow> real \<Rightarrow> real \<Rightarrow> real \<Rightarrow> real" where
  "bExp bExp_table k R Rd =
     (let lm = R / Rd; kRd = k * Rd in
      if lm < 50 \<and> lm > 0.04 \<and> kRd < 50 \<and> kRd > 0.04 then exp (interpolate bExp_table lm kRd)
      else gauss3 8 lm (20 * lm) (\<lambda>x. x * exp (- x) * besselK0 (kRd * x)))"

section \<open>Properties\<close>

lemma table_index_bounds:
  assumes "0.04 < v" "v < 50"
  shows "0 \<le> table_index v" "table_index v + 1 < 510"
    "of_int (table_index v) * 0.1 + 0.01 \<le> v" "v < of_int (table_index v + 1) * 0.1 + 0.01"
proof -
  have f: "of_int (table_index v) \<le> 10 * v - 0.1" "10 * v - 0.1 < of_int (table_index v) + 1"
    unfolding table_index_def by linarith+
  have lo: "1 / 25 < v" using assms(1) by simp
  show "0 \<le> table_index v" using f lo by linarith
  show "table_index v + 1 < 510" using f assms by linarith
  show "of_int (table_index v) * 0.1 + 0.01 \<le> v" "v < of_int (table_index v + 1) * 0.1 + 0.01"
    using f by (simp_all add: field_simps)
qed

lemma weighted4:
  fixes a b c d :: real
  assumes "0 \<le> u" "u \<le> 1" "0 \<le> w" "w \<le> 1" "l \<le> a" "l \<le> b" "l \<le> c" "l \<le> d"
  shows "l \<le> a * (1 - u) * (1 - w) + b * u * (1 - w) + c * (1 - u) * w + d * u * w"
proof -
  have "l * ((1 - u) * (1 - w)) \<le> a * ((1 - u) * (1 - w))" "l * (u * (1 - w)) \<le> b * (u * (1 - w))"
    "l * ((1 - u) * w) \<le> c * ((1 - u) * w)" "l * (u * w) \<le> d * (u * w)"
    using assms by (simp_all add: mult_right_mono)
  moreover have "l = l * ((1 - u) * (1 - w)) + l * (u * (1 - w)) + l * ((1 - u) * w) + l * (u * w)"
    by (simp add: algebra_simps)
  ultimately show ?thesis by (simp add: mult.assoc)
qed

text \<open>The interpolation in the precomputed tables stays inside them: under the guards of
  \<open>aExp\<close> and \<open>bExp\<close> every index it reads is between 0 and 509, and the value lies between the
  smallest and the largest of the four entries read.\<close>

theorem interpolate_in_table:
  assumes "0.04 < lm" "lm < 50" "0.04 < kRd" "kRd < 50"
    and "\<And>i j. 0 \<le> i \<Longrightarrow> i < 510 \<Longrightarrow> 0 \<le> j \<Longrightarrow> j < 510 \<Longrightarrow> lo \<le> tab i j \<and> tab i j \<le> hi"
  shows "lo \<le> interpolate tab lm kRd \<and> interpolate tab lm kRd \<le> hi"
proof -
  define i j where "i = table_index lm" and "j = table_index kRd"
  note bi = table_index_bounds[OF assms(1,2), folded i_def]
    and bj = table_index_bounds[OF assms(3,4), folded j_def]
  define u w where "u = 10 * (lm - (of_int i * 0.1 + 0.01))" and "w = 10 * (kRd - (of_int j * 0.1 + 0.01))"
  have uw: "0 \<le> u" "u \<le> 1" "0 \<le> w" "w \<le> 1" using bi bj by (simp_all add: u_def w_def field_simps)
  have e: "interpolate t lm kRd = t i j * (1 - u) * (1 - w) + t (i + 1) j * u * (1 - w)
      + t i (j + 1) * (1 - u) * w + t (i + 1) (j + 1) * u * w" for t
    by (simp add: interpolate_def Let_def u_def w_def i_def[symmetric] j_def[symmetric] field_simps)
  have t: "lo \<le> tab i j \<and> tab i j \<le> hi" "lo \<le> tab (i + 1) j \<and> tab (i + 1) j \<le> hi"
    "lo \<le> tab i (j + 1) \<and> tab i (j + 1) \<le> hi" "lo \<le> tab (i + 1) (j + 1) \<and> tab (i + 1) (j + 1) \<le> hi"
    using bi bj by (simp_all add: assms(5))
  have "lo \<le> interpolate tab lm kRd" unfolding e by (intro weighted4) (use uw t in auto)
  moreover have "- hi \<le> interpolate (\<lambda>i j. - tab i j) lm kRd"
    unfolding e by (intro weighted4) (use uw t in auto)
  moreover have "interpolate (\<lambda>i j. - tab i j) lm kRd = - interpolate tab lm kRd"
    unfolding e by (simp add: algebra_simps)
  ultimately show ?thesis by simp
qed

theorem interpolate_in_table_witness:
  "(-743::real) \<le> interpolate (\<lambda>i j. - 743 + of_int (i + j)) 1 2
     \<and> interpolate (\<lambda>i j. - 743 + of_int (i + j)) 1 2 \<le> (300::real)"
  by (rule interpolate_in_table) simp_all

end
