(* ===== verification/NBody_Caustic.thy ===== *)
theory NBody_Caustic
  imports NBody_Types "HOL-Library.Multiset"
begin

text \<open>
  \<open>nbody_caustic.c\<close>: the field of the caustic ring halo. The C complex functions \<open>csqrt\<close>,
  \<open>cpow\<close>, \<open>creal\<close>, \<open>cimag\<close>, \<open>cabs\<close> are the principal branches of HOL; a \<open>sqrt\<close> of a
  negative real, which is NaN in C, and a division by zero are outside every statement here.
\<close>

section \<open>Tables\<close>

definition a_n :: "real list" where
  "a_n = [1.0, 40.1, 20.1, 13.6, 10.4, 8.4, 7.0, 6.1, 5.3, 4.8, 4.3, 4.0, 3.7, 3.4, 3.2, 3.0, 2.8,
          2.7, 2.5, 2.4, 2.3]"

definition V_n :: "real list" where
  "V_n = [1.0, 517, 523, 523, 523, 522, 521, 521, 520, 517, 515, 512, 510, 507, 505, 503, 501, 499,
          497, 496, 494]"

definition rate_n :: "real list" where
  "rate_n = [1.0, 53, 23, 14, 10, 7.8, 6.3, 5.3, 4.5, 3.9, 3.4, 3.1, 2.8, 2.5, 2.3, 2.1, 2.0, 1.8,
             1.7, 1.6, 1.5]"

definition p_n :: "real list" where
  "p_n = [1.0, 0.3, 0.3, 1.0, 0.3, 0.15, 0.12, 0.6, 0.23, 0.41, 0.25, 0.19, 0.17, 0.11, 0.09, 0.09,
          0.09, 0.09, 0.09, 0.09, 0.09]"

definition G_caustic :: real where "G_caustic = 1"
definition ONE_THIRD :: real where "ONE_THIRD = 1 / 3"
definition TOLERANCE :: real where "TOLERANCE = 0.00001"
definition TOLERANCE2 :: real where "TOLERANCE2 = 0.001"

definition cpow :: "complex \<Rightarrow> real \<Rightarrow> complex" where
  "cpow z p = (if z = 0 then (if p = 0 then 1 else 0) else rcis (cmod z powr p) (p * Arg z))"

definition hypot :: "real \<Rightarrow> real \<Rightarrow> real" where
  "hypot x y = sqrt (x\<^sup>2 + y\<^sup>2)"

section \<open>The field of one flow\<close>

text \<open>The accumulators \<open>rfield\<close>, \<open>zfield\<close> of the code are the pair \<open>fld\<close>.\<close>

definition gfield_far :: "real \<Rightarrow> real \<Rightarrow> nat \<Rightarrow> real \<times> real \<Rightarrow> real \<times> real" where
  "gfield_far rho z n fld =
     (let r_squared = rho * rho + z * z;
          shift = a_n ! n + p_n ! n / 4;
          A_n = (8 * pi * G_caustic * rate_n ! n * 4498.6589) / (V_n ! n * 1.0226831);
          s = hypot (r_squared - shift * shift) (2 * shift * z);
          factor = (- A_n) / (s * (2 * shift * shift + s))
      in (fst fld + factor * (r_squared * rho - shift * shift * rho),
          snd fld + factor * (r_squared * z + shift * shift * z)))"

definition f1 :: "complex \<Rightarrow> complex" where
  "f1 x = (2 + 4 * x) / 3"

definition f2 :: "complex \<Rightarrow> complex \<Rightarrow> complex" where
  "f2 x z = 4 * ((1 - x) * (1 - x) - 3 * z * z)"

definition f3 :: "complex \<Rightarrow> complex \<Rightarrow> complex" where
  "f3 x z = -128 * cpow (x - 1) 3 - 1728 * z * z - 1152 * (x - 1) * z * z"

definition f4 :: "complex \<Rightarrow> complex \<Rightarrow> complex" where
  "f4 x z = cpow ((f3 x z + csqrt (-256 * f2 x z * f2 x z * f2 x z + f3 x z * f3 x z)) / 2) ONE_THIRD"

definition near_cusp :: "complex \<Rightarrow> complex \<Rightarrow> bool" where
  "near_cusp x z \<longleftrightarrow> Re x \<ge> -0.125 \<and> cmod (f4 x z) < TOLERANCE2"

definition cusp_temp :: "complex \<Rightarrow> complex" where
  "cusp_temp x = cpow (-1 - 6 * x + 15 * x * x - 8 * x * x * x) ONE_THIRD / 3"

definition root_temp :: "complex \<Rightarrow> complex \<Rightarrow> complex" where
  "root_temp x z = csqrt (f1 x / 2 + f2 x z / (3 * f4 x z) + f4 x z / 12)"

definition T1 :: "complex \<Rightarrow> complex \<Rightarrow> complex" where
  "T1 x z =
     (if near_cusp x z then
        (let temp = cusp_temp x
         in 0.5 * (1 - csqrt (f1 x / 2 + temp) - csqrt (f1 x - temp - 2 * x / csqrt (f1 x / 2 + temp))))
      else
        (let temp = root_temp x z
         in 0.5 * (1 - temp - csqrt (f1 x - f2 x z / (3 * f4 x z) - f4 x z / 12 - 2 * x / temp))))"

text \<open>\<open>T2\<close> calls the real \<open>sqrt\<close> on a complex argument, so the imaginary part is dropped.\<close>

definition T2 :: "complex \<Rightarrow> complex \<Rightarrow> complex" where
  "T2 x z =
     (if near_cusp x z then
        (let temp = cusp_temp x
         in 0.5 * (1 - csqrt (f1 x / 2 + temp)
                     + csqrt (f1 x - temp - 2 * x / complex_of_real (sqrt (Re (f1 x / 2 + temp))))))
      else
        (let temp = root_temp x z
         in 0.5 * (1 - temp + csqrt (f1 x - f2 x z / (3 * f4 x z) - f4 x z / 12 - 2 * x / temp))))"

definition T3 :: "complex \<Rightarrow> complex \<Rightarrow> complex" where
  "T3 x z =
     (if near_cusp x z then
        (let temp = cusp_temp x
         in 0.5 * (1 + csqrt (f1 x / 2 + temp) - csqrt (f1 x - temp + 2 * x / csqrt (f1 x / 2 + temp))))
      else
        (let temp = root_temp x z
         in 0.5 * (1 + temp - csqrt (f1 x - f2 x z / (3 * f4 x z) - f4 x z / 12 + 2 * x / temp))))"

definition T4 :: "complex \<Rightarrow> complex \<Rightarrow> complex" where
  "T4 x z =
     (if near_cusp x z then
        (let temp = cusp_temp x
         in 0.5 * (1 + csqrt (f1 x / 2 + temp) + csqrt (f1 x - temp + 2 * x / csqrt (f1 x / 2 + temp))))
      else
        (let temp = root_temp x z
         in 0.5 * (1 + temp + csqrt (f1 x - f2 x z / (3 * f4 x z) - f4 x z / 12 + 2 * x / temp))))"

definition f5 :: "complex \<Rightarrow> complex \<Rightarrow> complex \<Rightarrow> complex" where
  "f5 x z T = csqrt (2 * T - 1 + x - \<i> * z) / 2"

text \<open>The exchange sort that \<open>gfield_close\<close> writes out twice.\<close>

definition exchange :: "nat \<times> nat \<Rightarrow> real list \<Rightarrow> real list" where
  "exchange ij re = (case ij of (i, j) \<Rightarrow>
     if re ! i > re ! j then re[i := re ! j, j := re ! i] else re)"

definition exchange_sort :: "nat \<Rightarrow> real list \<Rightarrow> real list" where
  "exchange_sort n re = fold exchange (concat (map (\<lambda>i. map (\<lambda>j. (i, j)) [i + 1..<n]) [0..<n])) re"

definition gfield_close :: "real \<Rightarrow> real \<Rightarrow> nat \<Rightarrow> real \<times> real \<Rightarrow> real \<times> real" where
  "gfield_close rho z n fld =
     (let z = complex_of_real (z / p_n ! n);
          x = (complex_of_real rho - complex_of_real (a_n ! n)) / complex_of_real (p_n ! n);
          roots = [T1 x z, T2 x z, T3 x z, T4 x z];
          im = map (\<lambda>T. \<bar>Im T\<bar>) roots;
          re = map Re roots;
          count = List.length (filter (\<lambda>m. m < TOLERANCE) im);
          re = (if count = 4 then exchange_sort 4 re else re);
          re2 = (if count = 2
                 then exchange_sort 2 (map fst (filter (\<lambda>(r, m). m < TOLERANCE) (zip re im)))
                 else [0, 0]);
          factor = -8 * pi * G_caustic * rate_n ! n * 4498.6589 / (rho * V_n ! n * 1.0226831);
          F = (\<lambda>t. f5 x z (complex_of_real t))
      in if count = 2
         then (fst fld + factor * (Re (F (re2 ! 1)) - Re (F (re2 ! 0)) - 0.5),
               snd fld + factor * (Im (F (re2 ! 1)) - Im (F (re2 ! 0))))
         else (fst fld + factor * (Re (F (re ! 3)) - Re (F (re ! 2)) + Re (F (re ! 1)) - Re (F (re ! 0)) - 0.5),
               snd fld + factor * (Im (F (re ! 3)) - Im (F (re ! 2)) + Im (F (re ! 1)) - Im (F (re ! 0)))))"

definition in_tricusp :: "real \<Rightarrow> real \<Rightarrow> nat \<Rightarrow> bool" where
  "in_tricusp rho zpos n =
     (let R = (3 - sqrt (1 + (8 / p_n ! n) * (rho - a_n ! n))) / 4;
          l = (3 + sqrt (1 + (8 / p_n ! n) * (rho - a_n ! n))) / 4;
          tr = 2 * p_n ! n * sqrt (cube R * (1 - R));
          tl = 2 * p_n ! n * sqrt (cube l * (1 - l))
      in zpos \<le> tr \<and> zpos \<ge> 0 \<and> rho \<ge> a_n ! n \<and> rho \<le> a_n ! n + p_n ! n
         \<or> zpos \<ge> tl \<and> zpos \<le> tr \<and> rho \<ge> a_n ! n - p_n ! n / 8 \<and> rho \<le> a_n ! n
         \<or> zpos \<ge> - tr \<and> zpos \<le> 0 \<and> rho \<ge> a_n ! n \<and> rho \<le> a_n ! n + p_n ! n
         \<or> zpos \<le> - tl \<and> zpos \<ge> - tr \<and> rho \<ge> a_n ! n - p_n ! n / 8 \<and> rho \<le> a_n ! n)"

definition causticHaloAccel :: "mwvector \<Rightarrow> mwvector" where
  "causticHaloAccel pos =
     (let rho = sqrt (sqr (X pos) + sqr (Y pos));
          (rfield, zfield) =
            fold (\<lambda>n fld. if in_tricusp rho (Z pos) n then gfield_close rho (Z pos) n fld
                          else gfield_far rho (Z pos) n fld) [1..<21] (0, 0)
      in if rho < 0.000001 then \<lparr>X = 0, Y = 0, Z = zfield\<rparr>
         else \<lparr>X = (rfield * X pos) / rho, Y = (rfield * Y pos) / rho, Z = zfield\<rparr>)"

section \<open>Properties\<close>

lemma exchange_mset:
  assumes "i < List.length xs" "j < List.length xs"
  shows "List.length (exchange (i, j) xs) = List.length xs" "mset (exchange (i, j) xs) = mset xs"
  using assms mset_swap[of j xs i] by (auto simp: exchange_def list_update_swap)

text \<open>One round of the inner loop brings the least of the entries from \<open>i\<close> on to position \<open>i\<close>.\<close>

lemma exchange_round:
  assumes "i < List.length xs" "m \<le> List.length xs" "i < m"
  defines "ys \<equiv> fold (\<lambda>j. exchange (i, j)) [i + 1..<m] xs"
  shows "List.length ys = List.length xs \<and> mset ys = mset xs \<and> (\<forall>k<i. ys ! k = xs ! k)
     \<and> (\<forall>j. i < j \<longrightarrow> j < m \<longrightarrow> ys ! i \<le> ys ! j)"
  using assms(2,3) unfolding ys_def
proof (induction m)
  case (Suc m)
  show ?case
  proof (cases "m = i")
    case False
    define zs where "zs = fold (\<lambda>j. exchange (i, j)) [i + 1..<m] xs"
    have IH: "List.length zs = List.length xs" "mset zs = mset xs" "\<forall>k<i. zs ! k = xs ! k"
      "\<forall>j. i < j \<longrightarrow> j < m \<longrightarrow> zs ! i \<le> zs ! j"
      using Suc False by (simp_all add: zs_def)
    have im: "i < List.length zs" "m < List.length zs" "i < m" using Suc.prems assms(1) False IH(1) by auto
    have eq: "fold (\<lambda>j. exchange (i, j)) [i + 1..<Suc m] xs = exchange (i, m) zs"
      using im by (simp add: zs_def)
    have "\<forall>j. i < j \<longrightarrow> j < Suc m \<longrightarrow> exchange (i, m) zs ! i \<le> exchange (i, m) zs ! j"
      using IH(4) im by (auto simp: exchange_def nth_list_update less_Suc_eq intro: order_trans less_imp_le)
    moreover have "\<forall>k<i. exchange (i, m) zs ! k = xs ! k"
      using IH(3) im by (auto simp: exchange_def)
    ultimately show ?thesis unfolding eq using exchange_mset[OF im(1,2)] IH by simp
  qed simp
qed simp

lemma exchange_sort_rounds:
  "exchange_sort n xs = fold (\<lambda>i. fold (\<lambda>j. exchange (i, j)) [i + 1..<n]) [0..<n] xs"
proof -
  have "fold exchange (concat (map (\<lambda>i. map (\<lambda>j. (i, j)) [i + 1..<n]) is)) ys
      = fold (\<lambda>i. fold (\<lambda>j. exchange (i, j)) [i + 1..<n]) is ys" for "is" ys
    by (induction "is" arbitrary: ys) (simp_all add: fold_map comp_def)
  then show ?thesis by (simp add: exchange_sort_def)
qed

lemma exchange_sort_prefix:
  assumes "m \<le> List.length xs"
  defines "ys \<equiv> fold (\<lambda>i. fold (\<lambda>j. exchange (i, j)) [i + 1..<List.length xs]) [0..<m] xs"
  shows "List.length ys = List.length xs \<and> mset ys = mset xs
     \<and> (\<forall>k j. k < m \<longrightarrow> k < j \<longrightarrow> j < List.length xs \<longrightarrow> ys ! k \<le> ys ! j)"
  using assms(1) unfolding ys_def
proof (induction m)
  case (Suc m)
  define zs where "zs = fold (\<lambda>i. fold (\<lambda>j. exchange (i, j)) [i + 1..<List.length xs]) [0..<m] xs"
  have IH: "List.length zs = List.length xs" "mset zs = mset xs"
    "\<forall>k j. k < m \<longrightarrow> k < j \<longrightarrow> j < List.length xs \<longrightarrow> zs ! k \<le> zs ! j"
    using Suc by (simp_all add: zs_def)
  define ys where "ys = fold (\<lambda>j. exchange (m, j)) [m + 1..<List.length zs] zs"
  have r: "List.length ys = List.length zs" "mset ys = mset zs" "\<forall>k<m. ys ! k = zs ! k"
    "\<forall>j. m < j \<longrightarrow> j < List.length zs \<longrightarrow> ys ! m \<le> ys ! j"
    using exchange_round[of m zs "List.length zs"] Suc.prems IH(1) by (simp_all add: ys_def)
  have "take m ys = take m zs" using r(1,3) by (intro nth_take_lemma) (use Suc.prems IH(1) in auto)
  moreover have "mset (take m ys) + mset (drop m ys) = mset (take m zs) + mset (drop m zs)"
    using r(2) by (simp flip: mset_append)
  ultimately have d: "set (drop m ys) = set (drop m zs)" by (metis add_left_cancel set_mset_mset)
  have le: "ys ! k \<le> ys ! j" if kj: "k < Suc m" "k < j" "j < List.length xs" for k j
  proof (cases "k = m")
    case False
    then have k: "k < m" using kj by simp
    show ?thesis
    proof (cases "j < m")
      case True
      then show ?thesis using IH(3) k kj r(3) by simp
    next
      case False
      then have "ys ! j \<in> set (drop m ys)" using kj r(1) IH(1)
        by (auto simp: in_set_conv_nth intro!: exI[of _ "j - m"])
      then obtain i where "i < List.length zs - m" "ys ! j = zs ! (m + i)"
        unfolding d by (auto simp: in_set_conv_nth)
      then have "m \<le> m + i" "m + i < List.length zs" "ys ! j = zs ! (m + i)" by simp_all
      then show ?thesis using IH(1,3) k r(3) by auto
    qed
  qed (use r(4) kj IH(1) in auto)
  moreover have "fold (\<lambda>i. fold (\<lambda>j. exchange (i, j)) [i + 1..<List.length xs]) [0..<Suc m] xs = ys"
    by (simp add: ys_def IH(1)) (simp add: zs_def)
  ultimately show ?case using r IH by simp
qed simp

text \<open>The exchange loops with which \<open>gfield_close\<close> orders the limits of integration sort
  every array of their length: the result is ascending and a permutation of the input.\<close>

theorem exchange_sort_sorts:
  "sorted (exchange_sort (List.length xs) xs) \<and> mset (exchange_sort (List.length xs) xs) = mset xs"
  using exchange_sort_prefix[of "List.length xs" xs]
  by (auto simp: exchange_sort_rounds sorted_iff_nth_mono_less)

end
