(* ===== verification/NBody_Potential.thy ===== *)
theory NBody_Potential
  imports NBody_Types NBody_Bessel NBody_Caustic
begin

text \<open>
  \<open>nbody_potential.c\<close>: the accelerations of the disks, halos and bulges and their sum
  \<open>nbExtAcceleration\<close>, with \<open>None\<close> for a call of \<open>mw_fail\<close> on a type it does not know.
  \<open>tabs\<close> holds the two precomputed tables of \<open>nbody_bessel.c\<close>. A division by zero, which gives
  infinity or NaN in C and 0 in HOL, is excluded by hypothesis wherever it could matter.
\<close>

text \<open>The file-local literal \<open>pi\<close> of the potential, density and friction files.\<close>

definition code_pi :: real where
  "code_pi = 3.1415926535"

record disk_tables =
  aExp_tab :: "int \<Rightarrow> int \<Rightarrow> real"
  bExp_tab :: "int \<Rightarrow> int \<Rightarrow> real"

section \<open>Special functions\<close>

definition lnfact :: "nat \<Rightarrow> real" where
  "lnfact n = fold (\<lambda>counter result. result + ln (real counter)) (rev [1..<Suc n]) 0"

definition binom :: "nat \<Rightarrow> nat \<Rightarrow> real" where
  "binom n k = exp (lnfact n - lnfact k - lnfact (n - k))"

definition leg_pol :: "real \<Rightarrow> nat \<Rightarrow> real" where
  "leg_pol x l =
     (let sum = fold (\<lambda>m sum. sum + mw_pow (-1) (real m) * mw_pow x (real (l - 2 * m)) / mw_pow 2 (real l)
                        * binom l m * binom (2 * (l - m)) l) [0..<l div 2 + 1] 0
      in if x = 0 then
           (if even l then mw_pow (-1) (real (l div 2)) * exp (lnfact l - 2 * lnfact (l div 2) - real l * ln 2)
            else 0)
         else sum)"

text \<open>For \<open>l = 0\<close> the C loop bound \<open>floor ((l - 1) / 2) + 1\<close> is 1 and the only term has the factor
  \<open>l - 2 m = 0\<close>; the sum is 0. The caller asks for \<open>l > 0\<close> only.\<close>

definition leg_pol_derv :: "real \<Rightarrow> nat \<Rightarrow> real" where
  "leg_pol_derv x l =
     fold (\<lambda>m sum. sum + mw_pow (-1) (real m) * mw_pow x (real l - 2 * real m - 1) / mw_pow 2 (real l)
              * binom l m * binom (2 * (l - m)) l * (real l - 2 * real m)) [0..<(l - 1) div 2 + 1] 0"

definition lower_gamma :: "nat \<Rightarrow> real \<Rightarrow> real" where
  "lower_gamma n x =
     (let sum = fold (\<lambda>k sum. sum + mw_pow x (real k) / exp (lnfact k)) [0..<n] 0
      in exp (lnfact (n - 1)) * (1 - exp (- x) * sum))"

text \<open>The continued fraction of \<open>GenExpIntegral\<close>, from its innermost level outwards. Both operands of the
  innermost division, \<open>(n + 9) / 11\<close>, are of type \<open>int\<close>: its quotient is cut off.\<close>

fun exp_cf :: "nat \<Rightarrow> real \<Rightarrow> nat \<Rightarrow> nat \<Rightarrow> real" where
  "exp_cf n x k 0 = real ((n + k) div 11)"
| "exp_cf n x k (Suc d) = real (n + k) / (1 + real (Suc k) / (x + exp_cf n x (Suc k) d))"

definition GenExpIntegral :: "nat \<Rightarrow> real \<Rightarrow> real" where
  "GenExpIntegral n x = exp (- x) / (x + exp_cf n x 0 9)"

definition RSechIntegrand :: "disk_tables \<Rightarrow> real \<Rightarrow> real \<Rightarrow> real \<Rightarrow> real \<Rightarrow> real \<Rightarrow> real" where
  "RSechIntegrand tabs k R Rd z zd =
     sqr k * zd / sinh (code_pi * k * zd / 2) * cos (k * z)
     * (aExp (aExp_tab tabs) k R Rd * besselK1 (k * R) - bExp (bExp_tab tabs) k R Rd * besselI1 (k * R))"

definition ZSechIntegrand :: "disk_tables \<Rightarrow> real \<Rightarrow> real \<Rightarrow> real \<Rightarrow> real \<Rightarrow> real \<Rightarrow> real" where
  "ZSechIntegrand tabs k R Rd z zd =
     sqr k * zd / sinh (code_pi * k * zd / 2) * sin (k * z)
     * (aExp (aExp_tab tabs) k R Rd * besselK0 (k * R) + bExp (bExp_tab tabs) k R Rd * besselI0 (k * R))"

section \<open>Point sources\<close>

definition pointAccel :: "mwvector \<Rightarrow> mwvector \<Rightarrow> real \<Rightarrow> mwvector" where
  "pointAccel pos pos1 mass =
     (let v = mw_subv pos1 pos; dist = mw_distv pos pos1; tmp = mass / mw_pow dist 3
      in mw_incmulvs v tmp)"

definition plummerAccel :: "mwvector \<Rightarrow> mwvector \<Rightarrow> real \<Rightarrow> real \<Rightarrow> mwvector" where
  "plummerAccel pos pos1 mass scale =
     (let v = mw_subv pos1 pos; dist = mw_distv pos pos1;
          tmp = sqrt (mw_pow scale 2 + mw_pow dist 2)
      in mw_incmulvs v (mass / mw_pow tmp 3))"

section \<open>Bulges\<close>

definition hernquistSphericalAccel :: "real Spherical \<Rightarrow> mwvector \<Rightarrow> real \<Rightarrow> mwvector" where
  "hernquistSphericalAccel sph pos r =
     (let tmp = s_scale sph + r in mw_mulvs pos (- s_mass sph / (r * sqr tmp)))"

definition plummerSphericalAccel :: "real Spherical \<Rightarrow> mwvector \<Rightarrow> real \<Rightarrow> mwvector" where
  "plummerSphericalAccel sph pos r =
     (let tmp = sqrt (sqr (s_scale sph) + sqr r) in mw_mulvs pos (- s_mass sph / mw_pow tmp 3))"

section \<open>Disks\<close>

definition miyamotoNagaiDiskAccel :: "real Disk \<Rightarrow> mwvector \<Rightarrow> mwvector" where
  "miyamotoNagaiDiskAccel disk pos =
     (let a = d_scaleLength disk; b = d_scaleHeight disk;
          zp = mw_pow (mw_pow (Z pos) 2 + mw_pow b 2) 0.5;
          azp = a + zp;
          rp = mw_pow (X pos) 2 + mw_pow (Y pos) 2 + mw_pow azp 2;
          rth = mw_pow rp 1.5
      in \<lparr>X = - d_mass disk * X pos / rth,
          Y = - d_mass disk * Y pos / rth,
          Z = - d_mass disk * Z pos * azp / (zp * rth)\<rparr>)"

definition freemanDiskAccel :: "real Disk \<Rightarrow> mwvector \<Rightarrow> real \<Rightarrow> mwvector" where
  "freemanDiskAccel disk pos r =
     (let r_hat = mw_mulvs pos (1 / r);
          r_proj = sqrt (sqr (X pos) + sqr (Y pos));
          theta_hat = \<lparr>X = X pos * Z pos / r / r_proj, Y = Y pos * Z pos / r / r_proj, Z = - r_proj / r\<rparr>;
          scl = d_scaleLength disk; M = d_mass disk;
          costheta = Z pos / r; sintheta = r_proj / r;
          (r_f, theta_f) =
            fold (\<lambda>l (r_f, theta_f).
                let a_r = (if l > 0 then GenExpIntegral (2 * l) (r / scl) else 0);
                    b_r = mw_pow (scl / r) (real (2 * l + 2)) * lower_gamma (2 * l + 2) (r / scl);
                    p0 = leg_pol 0 (2 * l);
                    pcos = leg_pol costheta (2 * l);
                    r_f = r_f + p0 * pcos * (2 * real l * a_r - (2 * real l + 1) * b_r);
                    theta_f = (if l > 0
                               then theta_f - p0 * (a_r + b_r) * sintheta * leg_pol_derv costheta (2 * l)
                               else theta_f)
                in (r_f, theta_f)) [0..<5] (0, 0);
          r_comp = mw_mulvs r_hat (r_f * M / sqr scl);
          theta_comp = mw_mulvs theta_hat (theta_f * M / sqr scl)
      in mw_addv r_comp theta_comp)"

text \<open>The loop of \<open>doubleExponentialDiskAccel\<close>: one term of each sum.\<close>

definition ogata_terms :: "real Disk \<Rightarrow> real \<Rightarrow> real \<Rightarrow> nat \<Rightarrow> real \<times> real" where
  "ogata_terms disk R z n =
     (let Rd = d_scaleLength disk; zd = d_scaleHeight disk; h = 0.001; a = 1 / Rd; b = 1 / zd;
          j0_zero = besselJ0_zero n / code_pi;
          j1_zero = besselJ1_zero n / code_pi;
          psi_in_0 = h * j0_zero;
          psi_in_1 = h * j1_zero;
          psi_0 = psi_in_0 * sinh (code_pi / 2 * sinh psi_in_0) / cosh (code_pi / 2 * sinh psi_in_0);
          psi_1 = psi_in_1 * sinh (code_pi / 2 * sinh psi_in_1) / cosh (code_pi / 2 * sinh psi_in_1);
          psi_prime_0 = (sinh (code_pi * sinh psi_in_0) + code_pi * psi_in_0 * cosh psi_in_0)
                          / (cosh (code_pi * sinh psi_in_0) + 1);
          psi_prime_1 = (sinh (code_pi * sinh psi_in_1) + code_pi * psi_in_1 * cosh psi_in_1)
                          / (cosh (code_pi * sinh psi_in_1) + 1);
          j0_x = code_pi / h * psi_0;
          j1_x = code_pi / h * psi_1;
          j0_w = 2 / (code_pi * j0_zero * mw_pow (besselJ1 (code_pi * j0_zero)) 2) * besselJ0 j0_x * psi_prime_0;
          j1_w = 2 / (code_pi * j1_zero * mw_pow (besselJ2 (code_pi * j1_zero)) 2) * besselJ1 j1_x * psi_prime_1;
          fun_1 = j1_x * mw_pow (mw_pow a 2 + mw_pow (j1_x / R) 2) (-1.5)
                    * (b * exp (- j1_x / R * \<bar>z\<bar>) - j1_x / R * exp (- b * \<bar>z\<bar>))
                    / (mw_pow b 2 - mw_pow (j1_x / R) 2);
          fun_0 = mw_pow (mw_pow a 2 + mw_pow (j0_x / R) 2) (-1.5) * j0_x / R
                    * (exp (- j0_x / R * \<bar>z\<bar>) - exp (- b * \<bar>z\<bar>)) / (mw_pow b 2 - mw_pow (j0_x / R) 2);
          z_pieceAdd = (4 * code_pi * a * b / R) * fun_0 * j0_w;
          R_pieceAdd = (4 * code_pi * a / mw_pow R 2) * fun_1 * j1_w
      in (R_pieceAdd, z_pieceAdd))"

definition doubleExponentialDiskAccel :: "real Disk \<Rightarrow> mwvector \<Rightarrow> mwvector" where
  "doubleExponentialDiskAccel disk pos =
     (let R = sqrt (sqr (X pos) + sqr (Y pos));
          R_hat = \<lparr>X = X pos / R, Y = Y pos / R, Z = 0\<rparr>;
          Z_hat = \<lparr>X = 0, Y = 0, Z = Z pos / \<bar>Z pos\<bar>\<rparr>;
          M = d_mass disk; a = 1 / d_scaleLength disk; b = 1 / d_scaleHeight disk;
          (R_piece, z_piece) =
            fold (\<lambda>n (R_piece, z_piece). case ogata_terms disk R (Z pos) n of
                (dR, dz) \<Rightarrow> (R_piece + dR, z_piece + dz)) [0..<150] (0, 0);
          R_comp = mw_mulvs R_hat (- M * mw_pow a 2 * b / 4 / code_pi * R_piece);
          Z_comp = mw_mulvs Z_hat (- M * mw_pow a 2 * b / 4 / code_pi * z_piece)
      in mw_addv R_comp Z_comp)"

definition sech2ExponentialDiskAccel :: "disk_tables \<Rightarrow> real Disk \<Rightarrow> mwvector \<Rightarrow> mwvector" where
  "sech2ExponentialDiskAccel tabs disk pos =
     (let R = sqrt (sqr (X pos) + sqr (Y pos));
          R_hat = \<lparr>X = X pos / R, Y = Y pos / R, Z = 0\<rparr>;
          Z_hat = \<lparr>X = 0, Y = 0, Z = 1\<rparr>;
          Rd = d_scaleLength disk; zd = d_scaleHeight disk; M = d_mass disk; z = Z pos;
          n = 15; a = 0; b = 60 / R; h = (b - a) / real n;
          quad = [(0.236927, -0.90618), (0.478629, -0.538469), (0.568889, 0), (0.478629, 0.538469),
                  (0.236927, 0.90618)];
          (integralR, integralZ) =
            fold (\<lambda>k (integralR, integralZ).
                let (Rpiece, Zpiece) =
                      fold (\<lambda>(weight, point) (Rpiece, Zpiece).
                          let k_val = h * point / 2 + a + (real k + 0.5) * h
                          in (Rpiece + h * weight * RSechIntegrand tabs k_val R Rd z zd / 2,
                              Zpiece + h * weight * ZSechIntegrand tabs k_val R Rd z zd / 2)) quad (0, 0)
                in (integralR + Rpiece, integralZ + Zpiece)) [0..<n] (0, 0);
          R_comp = mw_mulvs R_hat (-1 * M * integralR);
          Z_comp = mw_mulvs Z_hat (-1 * M * integralZ)
      in mw_addv R_comp Z_comp)"

text \<open>The position in the frame of the bar, which the density of the bar computes the same way.\<close>

definition bar_frame :: "real Disk \<Rightarrow> mwvector \<Rightarrow> real \<Rightarrow> real \<times> mwvector" where
  "bar_frame disk pos time =
     (let curAngle = (d_patternSpeed disk * time * -1) + d_startAngle disk;
          Radi = sqrt (X pos * X pos + Y pos * Y pos);
          Phi = arctan (Y pos / X pos) - curAngle;
          Radi = (if X pos < 0 then Radi * -1 else Radi)
      in (curAngle, \<lparr>X = Radi * cos Phi, Y = Radi * sin Phi, Z = Z pos\<rparr>))"

definition orbitingBarAccel :: "real Disk \<Rightarrow> mwvector \<Rightarrow> real \<Rightarrow> mwvector" where
  "orbitingBarAccel disk pos time =
     (let amp = d_mass disk; a = d_scaleLength disk; b = 1.4; c = 1;
          (curAngle, q) = bar_frame disk pos time;
          x = X q; y = Y q; z = Z q;
          secondpart = mw_pow y 2 + mw_pow (b + sqrt (mw_pow c 2 + mw_pow z 2)) 2;
          Tp = sqrt (mw_pow (a + x) 2 + secondpart);
          Tm = sqrt (mw_pow (a - x) 2 + secondpart);
          fx = -2 * x / Tp / Tm / (Tp + Tm);
          fy = - y / 2 / Tp / Tm * (Tp + Tm - 4 * mw_pow x 2 / (Tp + Tm))
                 / (mw_pow y 2 + mw_pow (b + sqrt (mw_pow z 2 + mw_pow c 2)) 2);
          fz = fy * z / y * (b + sqrt (mw_pow z 2 + mw_pow c 2)) / sqrt (mw_pow z 2 + mw_pow c 2);
          cp = cos curAngle; sp = sin curAngle
      in \<lparr>X = (cp * fx - sp * fy) * amp, Y = (sp * fx + cp * fy) * amp, Z = fz * amp\<rparr>)"

section \<open>Halos\<close>

definition logHaloAccel :: "real Halo \<Rightarrow> mwvector \<Rightarrow> mwvector" where
  "logHaloAccel halo pos =
     (let v0 = h_vhalo halo; q = h_flattenZ halo; d = h_scaleLength halo;
          denom = mw_pow d 2 + mw_pow (X pos) 2 + mw_pow (Y pos) 2 + mw_pow (Z pos / q) 2;
          k = -2 * v0 * v0 / denom
      in \<lparr>X = k * X pos, Y = k * Y pos, Z = k * Z pos / (q * q)\<rparr>)"

definition nfwHaloAccel :: "real Halo \<Rightarrow> mwvector \<Rightarrow> real \<Rightarrow> mwvector" where
  "nfwHaloAccel h pos r =
     (let a = h_scaleLength h; M = sqr (h_vhalo h) * a / 0.2162165954; ar = a + r;
          c = (- M / sqr r) * (ln (ar / a) / r - 1 / ar)
      in mw_mulvs pos c)"

definition triaxialHaloAccel :: "real Halo \<Rightarrow> mwvector \<Rightarrow> mwvector" where
  "triaxialHaloAccel h pos =
     (let qzs = sqr (h_flattenZ h); rhalosqr = sqr (h_scaleLength h); mvsqr = - sqr (h_vhalo h);
          xsqr = sqr (X pos); ysqr = sqr (Y pos); zsqr = sqr (Z pos);
          arst = rhalosqr + (h_c1 h * xsqr) + (h_c3 h * X pos * Y pos) + (h_c2 h * ysqr);
          arst2 = (zsqr / qzs) + arst
      in \<lparr>X = mvsqr * (((2 * h_c1 h) * X pos) + (h_c3 h * Y pos)) / arst2,
          Y = mvsqr * (((2 * h_c2 h) * Y pos) + (h_c3 h * X pos)) / arst2,
          Z = (2 * mvsqr * Z pos) / ((qzs * arst) + zsqr)\<rparr>)"

definition ASHaloAccel :: "real Halo \<Rightarrow> mwvector \<Rightarrow> real \<Rightarrow> mwvector" where
  "ASHaloAccel h pos r =
     (let gam = h_gamma h; lam = h_lambda h; M = h_mass h; a = h_scaleLength h;
          scaleR = r / a; scaleL = lam / a;
          c = (if r < lam
               then - (M / (a * r)) * mw_pow scaleR (gam - 1) / (1 + mw_pow scaleR (gam - 1))
               else - (M / mw_pow r 2) * mw_pow scaleL gam / (1 + mw_pow scaleL (gam - 1)))
      in mw_mulvs pos (c / r))"

definition WEHaloAccel :: "real Halo \<Rightarrow> mwvector \<Rightarrow> real \<Rightarrow> mwvector" where
  "WEHaloAccel h pos r =
     (let a = h_scaleLength h; M = h_mass h; sum2 = sqr a + sqr r;
          c = (- M / r) * (a + sqrt sum2) / (sum2 + a * sqrt sum2)
      in mw_mulvs pos (c / r))"

definition NFWMHaloAccel :: "real Halo \<Rightarrow> mwvector \<Rightarrow> real \<Rightarrow> mwvector" where
  "NFWMHaloAccel h pos r =
     (let a = h_scaleLength h; M = h_mass h; ar = a + r;
          c = (- M / sqr r) * (ln (ar / a) / r - 1 / ar)
      in mw_mulvs pos c)"

definition plummerHaloAccel :: "real Halo \<Rightarrow> mwvector \<Rightarrow> real \<Rightarrow> mwvector" where
  "plummerHaloAccel h pos r =
     (let tmp = sqrt (sqr (h_scaleLength h) + sqr r) in mw_mulvs pos (- h_mass h / cube tmp))"

definition hernquistHaloAccel :: "real Halo \<Rightarrow> mwvector \<Rightarrow> real \<Rightarrow> mwvector" where
  "hernquistHaloAccel h pos r =
     (let tmp = h_scaleLength h + r in mw_mulvs pos (- h_mass h / (r * sqr tmp)))"

definition ninkovicHaloAccel :: "real Halo \<Rightarrow> mwvector \<Rightarrow> real \<Rightarrow> mwvector" where
  "ninkovicHaloAccel h pos r =
     (let rho0 = h_rho0 h; a = h_scaleLength h; lambda = h_lambda h;
          z = r / a; zl = lambda / a; f = 4 * code_pi / 3 * rho0 * cube a;
          mass_enc = (if r > lambda then f * (ln (1 + cube zl) - cube zl / (1 + cube zl))
                      else f * (ln (1 + cube z) - cube z / (1 + cube zl)))
      in mw_mulvs pos (- mass_enc / cube r))"

section \<open>The sum\<close>

text \<open>The distance, no less than \<open>2 ^ -8\<close>, in the branch-free form of the code.\<close>

definition clipped_r :: "mwvector \<Rightarrow> real" where
  "clipped_r pos =
     (let limit = mw_pow 2 (-8)
      in of_bool (mw_absv pos \<le> limit) * limit + of_bool (mw_absv pos > limit) * mw_absv pos)"

fun disk1Accel :: "disk_tables \<Rightarrow> real Disk \<Rightarrow> mwvector \<Rightarrow> real \<Rightarrow> mwvector option" where
  "disk1Accel tabs disk pos r =
     (case d_type disk of
        FreemanDisk \<Rightarrow> Some (freemanDiskAccel disk pos r)
      | MiyamotoNagaiDisk \<Rightarrow> Some (miyamotoNagaiDiskAccel disk pos)
      | DoubleExponentialDisk \<Rightarrow> Some (doubleExponentialDiskAccel disk pos)
      | Sech2ExponentialDisk \<Rightarrow> Some (sech2ExponentialDiskAccel tabs disk pos)
      | NoDisk \<Rightarrow> Some ZERO_VECTOR
      | _ \<Rightarrow> None)"

fun disk2Accel :: "disk_tables \<Rightarrow> real Disk \<Rightarrow> mwvector \<Rightarrow> real \<Rightarrow> real \<Rightarrow> mwvector option" where
  "disk2Accel tabs disk pos r time =
     (case d_type disk of
        FreemanDisk \<Rightarrow> Some (freemanDiskAccel disk pos r)
      | MiyamotoNagaiDisk \<Rightarrow> Some (miyamotoNagaiDiskAccel disk pos)
      | DoubleExponentialDisk \<Rightarrow> Some (doubleExponentialDiskAccel disk pos)
      | Sech2ExponentialDisk \<Rightarrow> Some (sech2ExponentialDiskAccel tabs disk pos)
      | OrbitingBar \<Rightarrow> Some (orbitingBarAccel disk pos time)
      | NoDisk \<Rightarrow> Some ZERO_VECTOR
      | InvalidDisk \<Rightarrow> None)"

fun haloAccel :: "real Halo \<Rightarrow> mwvector \<Rightarrow> real \<Rightarrow> mwvector option" where
  "haloAccel halo pos r =
     (case h_type halo of
        LogarithmicHalo \<Rightarrow> Some (logHaloAccel halo pos)
      | NFWHalo \<Rightarrow> Some (nfwHaloAccel halo pos r)
      | TriaxialHalo \<Rightarrow> Some (triaxialHaloAccel halo pos)
      | CausticHalo \<Rightarrow> Some (causticHaloAccel pos)
      | AllenSantillanHalo \<Rightarrow> Some (ASHaloAccel halo pos r)
      | WilkinsonEvansHalo \<Rightarrow> Some (WEHaloAccel halo pos r)
      | NFWMassHalo \<Rightarrow> Some (NFWMHaloAccel halo pos r)
      | PlummerHalo \<Rightarrow> Some (plummerHaloAccel halo pos r)
      | HernquistHalo \<Rightarrow> Some (hernquistHaloAccel halo pos r)
      | NinkovicHalo \<Rightarrow> Some (ninkovicHaloAccel halo pos r)
      | NoHalo \<Rightarrow> Some ZERO_VECTOR
      | InvalidHalo \<Rightarrow> None)"

fun sphereAccel :: "real Spherical \<Rightarrow> mwvector \<Rightarrow> real \<Rightarrow> mwvector option" where
  "sphereAccel sph pos r =
     (case s_type sph of
        HernquistSpherical \<Rightarrow> Some (hernquistSphericalAccel sph pos r)
      | PlummerSpherical \<Rightarrow> Some (plummerSphericalAccel sph pos r)
      | NoSpherical \<Rightarrow> Some ZERO_VECTOR
      | InvalidSpherical \<Rightarrow> None)"

definition nbExtAcceleration :: "disk_tables \<Rightarrow> real Potential \<Rightarrow> mwvector \<Rightarrow> real \<Rightarrow> mwvector option" where
  "nbExtAcceleration tabs p pos time =
     (let r = clipped_r pos in
      Option.bind (disk1Accel tabs (p_disk p) pos r) (\<lambda>acc.
      Option.bind (disk2Accel tabs (p_disk2 p) pos r time) (\<lambda>acctmp.
      let acc = mw_incaddv acc acctmp in
      Option.bind (haloAccel (p_halo p) pos r) (\<lambda>acctmp.
      let acc = mw_incaddv acc acctmp in
      Option.bind (sphereAccel (p_sphere p) pos r) (\<lambda>acctmp.
      Some (mw_incaddv acc acctmp))))))"

section \<open>Where the sum is defined\<close>

text \<open>The component types for which no switch falls into \<open>mw_fail\<close>.\<close>

definition accel_types_ok :: "real Potential \<Rightarrow> bool" where
  "accel_types_ok p \<longleftrightarrow>
     d_type (p_disk p) \<notin> {InvalidDisk, OrbitingBar} \<and> d_type (p_disk2 p) \<noteq> InvalidDisk
     \<and> h_type (p_halo p) \<noteq> InvalidHalo \<and> s_type (p_sphere p) \<noteq> InvalidSpherical"

lemma component_defined:
  "disk1Accel tabs d pos r = None \<longleftrightarrow> d_type d \<in> {InvalidDisk, OrbitingBar}"
  "disk2Accel tabs d pos r time = None \<longleftrightarrow> d_type d = InvalidDisk"
  "haloAccel h pos r = None \<longleftrightarrow> h_type h = InvalidHalo"
  "sphereAccel s pos r = None \<longleftrightarrow> s_type s = InvalidSpherical"
  by (simp_all split: disk_t.split halo_t.split spherical_t.split)

lemma nbExtAcceleration_None_iff: "nbExtAcceleration tabs p pos time = None \<longleftrightarrow> \<not> accel_types_ok p"
proof -
  note d = component_defined
  let ?r = "clipped_r pos"
  show ?thesis
    using d(1)[of tabs "p_disk p" pos ?r] d(2)[of tabs "p_disk2 p" pos ?r time]
      d(3)[of "p_halo p" pos ?r] d(4)[of "p_sphere p" pos ?r]
    unfolding nbExtAcceleration_def accel_types_ok_def Let_def
    by (cases "disk1Accel tabs (p_disk p) pos ?r"; cases "disk2Accel tabs (p_disk2 p) pos ?r time";
        cases "haloAccel (p_halo p) pos ?r"; cases "sphereAccel (p_sphere p) pos ?r")
      (simp_all del: disk1Accel.simps disk2Accel.simps haloAccel.simps sphereAccel.simps)
qed

lemma nbExtAcceleration_static:
  assumes "d_type (p_disk2 p) \<noteq> OrbitingBar"
  shows "nbExtAcceleration tabs p pos time = nbExtAcceleration tabs p pos time'"
proof -
  have "disk2Accel tabs (p_disk2 p) pos r time = disk2Accel tabs (p_disk2 p) pos r time'" for r
    using assms by (simp split: disk_t.split)
  then show ?thesis unfolding nbExtAcceleration_def by metis
qed

text \<open>\<open>nbExtAcceleration\<close> ends the program exactly when a component has an invalid type or the
  primary disk is an orbiting bar, which only the secondary disk may be; otherwise it returns at
  every position and time. The time matters only to an orbiting bar.\<close>

theorem nbExtAcceleration_defined:
  "(nbExtAcceleration tabs p pos time \<noteq> None \<longleftrightarrow> accel_types_ok p)
   \<and> (d_type (p_disk2 p) \<noteq> OrbitingBar \<longrightarrow>
        nbExtAcceleration tabs p pos time = nbExtAcceleration tabs p pos time')"
  using nbExtAcceleration_None_iff nbExtAcceleration_static by metis

definition halo_only :: "real Potential" where
  "halo_only =
     \<lparr>p_sphere = (p_sphere EMPTY_POTENTIAL)\<lparr>s_type := NoSpherical\<rparr>,
      p_disk = (p_disk EMPTY_POTENTIAL)\<lparr>d_type := NoDisk\<rparr>,
      p_disk2 = (p_disk EMPTY_POTENTIAL)\<lparr>d_type := NoDisk\<rparr>,
      p_halo = (p_halo EMPTY_POTENTIAL)\<lparr>h_type := LogarithmicHalo, h_vhalo := 73, h_scaleLength := 12,
        h_flattenZ := 1\<rparr>\<rparr>"

lemma halo_only_ok: "accel_types_ok halo_only" "d_type (p_disk2 halo_only) \<noteq> OrbitingBar"
  by (simp_all add: accel_types_ok_def halo_only_def)

theorem nbExtAcceleration_defined_witness:
  "nbExtAcceleration (\<lparr>aExp_tab = (\<lambda>_ _. 0), bExp_tab = (\<lambda>_ _. 0)\<rparr>) halo_only \<lparr>X = 8, Y = 0, Z = 1\<rparr> 5
   = nbExtAcceleration (\<lparr>aExp_tab = (\<lambda>_ _. 0), bExp_tab = (\<lambda>_ _. 0)\<rparr>) halo_only \<lparr>X = 8, Y = 0, Z = 1\<rparr> 9
   \<and> nbExtAcceleration (\<lparr>aExp_tab = (\<lambda>_ _. 0), bExp_tab = (\<lambda>_ _. 0)\<rparr>) halo_only \<lparr>X = 8, Y = 0, Z = 1\<rparr> 5 \<noteq> None"
  using nbExtAcceleration_defined[of "\<lparr>aExp_tab = (\<lambda>_ _. 0), bExp_tab = (\<lambda>_ _. 0)\<rparr>" halo_only
      "\<lparr>X = 8, Y = 0, Z = 1\<rparr>" 5 9] halo_only_ok by blast

end
