(* ===== verification/NBody_Density.thy ===== *)
theory NBody_Density
  imports NBody_Potential
begin

text \<open>
  \<open>nbody_density.c\<close>: the densities of the components and their sum \<open>nbExtDensity\<close>, with
  \<open>None\<close> for a call of \<open>mw_fail\<close>. The theorem at the end ties this file to
  \<open>nbody_potential.c\<close>: the spherical densities are the ones that source the accelerations.
\<close>

section \<open>Bulges\<close>

definition hernquistSphericalDensity :: "real Spherical \<Rightarrow> real \<Rightarrow> real" where
  "hernquistSphericalDensity sph r =
     (let a = s_scale sph in
      if r * mw_pow (r + a) 3 = 0 then 0
      else (s_mass sph / (2 * code_pi * mw_pow a 3)) * mw_pow a 4 / (r * mw_pow (r + a) 3))"

definition plummerSphericalDensity :: "real Spherical \<Rightarrow> real \<Rightarrow> real" where
  "plummerSphericalDensity sph r =
     (let a = s_scale sph; M = s_mass sph in
      if a = 0 then 0
      else (let r_a = r / a; rho_peak = 3 * M / (4 * code_pi * mw_pow a 3)
            in rho_peak * mw_pow (1 + mw_pow r_a 2) (-2.5)))"

section \<open>Disks\<close>

definition miyamotoNagaiDiskDensity :: "real Disk \<Rightarrow> mwvector \<Rightarrow> real" where
  "miyamotoNagaiDiskDensity disk pos =
     (let a = d_scaleLength disk; b = d_scaleHeight disk; M = d_mass disk;
          R = mw_pow (mw_pow (X pos) 2 + mw_pow (Y pos) 2) 0.5;
          zp = mw_pow (mw_pow (Z pos) 2 + mw_pow b 2) 0.5;
          azp = a + zp;
          numer = M * b * b * (a * R * R + (a + 3 * zp) * mw_pow azp 2);
          denom = 4 * code_pi * mw_pow (R * R + azp * azp) 2.5 * mw_pow zp 3
      in if denom = 0 then 0 else numer / denom)"

definition doubleExponentialDiskDensity :: "real Disk \<Rightarrow> mwvector \<Rightarrow> real" where
  "doubleExponentialDiskDensity disk pos =
     (let M = d_mass disk; d_r = d_scaleLength disk; d_z = d_scaleHeight disk;
          R = sqrt (mw_pow (X pos) 2 + mw_pow (Y pos) 2)
      in M / (4 * code_pi * d_z * mw_pow d_r 2) * exp (- R / d_r) * exp (- \<bar>Z pos\<bar> / d_z))"

definition sech2ExponentialDiskDensity :: "real Disk \<Rightarrow> mwvector \<Rightarrow> real" where
  "sech2ExponentialDiskDensity disk pos =
     (let M = d_mass disk; d_r = d_scaleLength disk; d_z = d_scaleHeight disk;
          R = sqrt (mw_pow (X pos) 2 + mw_pow (Y pos) 2)
      in M / (4 * code_pi * d_z * d_r * d_r) * exp (- R / d_r) / mw_pow (cosh (Z pos / d_z)) 2)"

definition orbitingBarDensity :: "real Disk \<Rightarrow> mwvector \<Rightarrow> real \<Rightarrow> real" where
  "orbitingBarDensity disk pos time =
     (let a = d_scaleLength disk; b = 1.4; c = 1;
          (curAngle, q) = bar_frame disk pos time;
          x = X q; y = Y q; z = Z q;
          zc = sqrt (mw_pow z 2 + mw_pow c 2);
          bzc2 = mw_pow (b + zc) 2;
          bigA = b * mw_pow y 2 + (b + 3 * zc) * bzc2;
          bigC = mw_pow y 2 + bzc2;
          unscaledDens = mw_pow c 2 / 24 / code_pi / a / mw_pow bigC 2 / mw_pow zc 3
            * ((x + a) * (3 * bigA * bigC + (2 * bigA + b * bigC) * mw_pow (x + a) 2)
                 / mw_pow (bigC + mw_pow (x + a) 2) 1.5
               - (x - a) * (3 * bigA * bigC + (2 * bigA + b * bigC) * mw_pow (x - a) 2)
                 / mw_pow (bigC + mw_pow (x - a) 2) 1.5)
      in unscaledDens * d_mass disk)"

section \<open>Halos\<close>

definition logarithmicHaloDensity :: "real Halo \<Rightarrow> mwvector \<Rightarrow> real" where
  "logarithmicHaloDensity h pos =
     (let v = h_vhalo h; q = h_flattenZ h; a = h_scaleLength h;
          R2 = mw_pow (X pos) 2 + mw_pow (Y pos) 2;
          numer = (2 * q * q + 1) * a * a + R2 + mw_pow (Z pos) 2 * (2 - 1 / q / q);
          denom = q * q * mw_pow (R2 + a * a + mw_pow (Z pos / q) 2) 2
      in v * v * numer / 2 / code_pi / denom)"

definition NFWHaloDensity :: "real Halo \<Rightarrow> real \<Rightarrow> real" where
  "NFWHaloDensity h r =
     (let a = h_scaleLength h; v = h_vhalo h;
          rho = v * v / 4 / code_pi / a / a / 0.2162165954
      in if r = 0 then 0 else rho / (r / a) / mw_pow (1 + (r / a)) 2)"

definition triaxialHaloDensity :: "real Halo \<Rightarrow> mwvector \<Rightarrow> real" where
  "triaxialHaloDensity h pos =
     (let v = h_vhalo h; q = h_flattenZ h; a = h_scaleLength h;
          D = a * a + h_c1 h * mw_pow (X pos) 2 + h_c2 h * mw_pow (Y pos) 2 + h_c3 h * X pos * Y pos
                + mw_pow (Z pos) 2 / q / q;
          num = 2 * h_c1 h * D + 2 * h_c2 h * D + 2 * D / q / q
                - mw_pow (2 * h_c1 h * X pos + h_c3 h * Y pos) 2
                - mw_pow (2 * h_c2 h * Y pos + h_c3 h * X pos) 2 - mw_pow (2 * Z pos / q / q) 2
      in v * v * num / 4 / code_pi / D / D)"

definition hernquistHaloDensity :: "real Halo \<Rightarrow> real \<Rightarrow> real" where
  "hernquistHaloDensity h r =
     (let a = h_scaleLength h in
      if r * mw_pow (r + a) 3 = 0 \<or> 2 * code_pi * mw_pow a 3 = 0 then 0
      else (h_mass h / (2 * code_pi * mw_pow a 3)) * mw_pow a 4 / (r * mw_pow (r + a) 3))"

definition plummerHaloDensity :: "real Halo \<Rightarrow> real \<Rightarrow> real" where
  "plummerHaloDensity h r =
     (let a = h_scaleLength h; M = h_mass h in
      if a = 0 then 0
      else (let r_a = r / a; rho_peak = 3 * M / (4 * code_pi * mw_pow a 3)
            in rho_peak * mw_pow (1 + mw_pow r_a 2) (-2.5)))"

definition NFWMHaloDensity :: "real Halo \<Rightarrow> real \<Rightarrow> real" where
  "NFWMHaloDensity h r =
     (let a = h_scaleLength h; M = h_mass h
      in if r = 0 then 0 else M / (r * (a + r) * (a + r) * 4 * code_pi))"

definition allenSantillanHaloDensity :: "real Halo \<Rightarrow> real \<Rightarrow> real" where
  "allenSantillanHaloDensity h r =
     (let a = h_scaleLength h; M = h_mass h; lam = h_lambda h; gam = h_gamma h;
          b = gam - 1;
          numer = mw_pow (r / a) b * (mw_pow (r / a) b + b + 1);
          denom = r * r * mw_pow (1 + mw_pow (r / a) b) 2
      in if r = 0 then 0 else if r > lam then 0 else M * numer / a / denom / 4 / code_pi)"

definition wilkinsonEvansHaloDensity :: "real Halo \<Rightarrow> real \<Rightarrow> real" where
  "wilkinsonEvansHaloDensity h r =
     (let a = h_scaleLength h; M = h_mass h
      in if r = 0 then 0 else (1 / (4 * code_pi)) * M * a * a / (r * r * mw_pow (r * r + a * a) 1.5))"

definition ninkovicHaloDensity :: "real Halo \<Rightarrow> real \<Rightarrow> real" where
  "ninkovicHaloDensity h r =
     (let a = h_scaleLength h; rho = h_rho0 h; lam = h_lambda h;
          density = rho * (1 / (1 + mw_pow (r / a) 3) - 1 / (1 + mw_pow (lam / a) 3))
      in if density < 0 then 0 else density)"

section \<open>The sum\<close>

fun sphereDensity :: "real Spherical \<Rightarrow> real \<Rightarrow> real option" where
  "sphereDensity sph r =
     (case s_type sph of
        HernquistSpherical \<Rightarrow> Some (hernquistSphericalDensity sph r)
      | PlummerSpherical \<Rightarrow> Some (plummerSphericalDensity sph r)
      | NoSpherical \<Rightarrow> Some 0
      | InvalidSpherical \<Rightarrow> None)"

text \<open>Both disks; the case of the bar falls through to the one that adds zero.\<close>

fun diskDensity :: "real Disk \<Rightarrow> mwvector \<Rightarrow> real \<Rightarrow> real option" where
  "diskDensity disk pos time =
     (case d_type disk of
        FreemanDisk \<Rightarrow> Some 0
      | MiyamotoNagaiDisk \<Rightarrow> Some (miyamotoNagaiDiskDensity disk pos)
      | DoubleExponentialDisk \<Rightarrow> Some (doubleExponentialDiskDensity disk pos)
      | Sech2ExponentialDisk \<Rightarrow> Some (sech2ExponentialDiskDensity disk pos)
      | OrbitingBar \<Rightarrow> Some (orbitingBarDensity disk pos time)
      | NoDisk \<Rightarrow> Some 0
      | InvalidDisk \<Rightarrow> None)"

fun haloDensity :: "real Halo \<Rightarrow> mwvector \<Rightarrow> real \<Rightarrow> real option" where
  "haloDensity halo pos r =
     (case h_type halo of
        LogarithmicHalo \<Rightarrow> Some (logarithmicHaloDensity halo pos)
      | NFWHalo \<Rightarrow> Some (NFWHaloDensity halo r)
      | TriaxialHalo \<Rightarrow> Some (triaxialHaloDensity halo pos)
      | CausticHalo \<Rightarrow> Some 0
      | AllenSantillanHalo \<Rightarrow> Some (allenSantillanHaloDensity halo r)
      | WilkinsonEvansHalo \<Rightarrow> Some (wilkinsonEvansHaloDensity halo r)
      | NFWMassHalo \<Rightarrow> Some (NFWMHaloDensity halo r)
      | PlummerHalo \<Rightarrow> Some (plummerHaloDensity halo r)
      | HernquistHalo \<Rightarrow> Some (hernquistHaloDensity halo r)
      | NinkovicHalo \<Rightarrow> Some (ninkovicHaloDensity halo r)
      | NoHalo \<Rightarrow> Some 0
      | InvalidHalo \<Rightarrow> None)"

definition nbExtDensity :: "real Potential \<Rightarrow> mwvector \<Rightarrow> real \<Rightarrow> real option" where
  "nbExtDensity p pos time =
     (let r = clipped_r pos; density = 0 in
      Option.bind (sphereDensity (p_sphere p) r) (\<lambda>d. let density = density + d in
      Option.bind (diskDensity (p_disk p) pos time) (\<lambda>d. let density = density + d in
      Option.bind (diskDensity (p_disk2 p) pos time) (\<lambda>d. let density = density + d in
      Option.bind (haloDensity (p_halo p) pos r) (\<lambda>d. let density = density + d in
      if density < 0 then None else Some density)))))"

section \<open>Density and acceleration agree\<close>

text \<open>
  The mass inside the radius \<open>r\<close> that an acceleration implies: \<open>r\<close> squared times the inward
  pull at \<open>r\<close> on the first axis.
\<close>

definition enclosed :: "(mwvector \<Rightarrow> real \<Rightarrow> mwvector) \<Rightarrow> real \<Rightarrow> real" where
  "enclosed acc r = - (r\<^sup>2 * X (acc \<lparr>X = r, Y = 0, Z = 0\<rparr> r))"

lemma code_pi_pos [simp]: "0 < code_pi" "code_pi \<noteq> 0"
  by (simp_all add: code_pi_def)

lemma enclosed_mulvs: "enclosed (\<lambda>pos r. mw_mulvs pos (f r)) r = - (r ^ 3 * f r)"
  by (simp add: enclosed_def mw_mulvs_def power2_eq_square power3_eq_cube mult.assoc)

lemma mw_pow_five_halves: "0 < x \<Longrightarrow> mw_pow x (-5/2) = 1 / (x\<^sup>2 * sqrt x)"
  and mw_pow_three_halves': "0 < x \<Longrightarrow> mw_pow x (3/2) = x * sqrt x"
proof -
  assume x: "0 < x"
  have "(-5/2::real) \<noteq> of_int n" for n
    using not_int_half[of "n + 3"] by (auto simp: algebra_simps)
  then have "mw_pow x (-5/2) = x powr (-5/2)" by (simp add: mw_pow_def)
  also have "\<dots> = x powr (-(2 + 1/2))" by simp
  also have "\<dots> = 1 / (x powr 2 * x powr (1/2))"
    by (simp only: powr_minus_divide powr_add)
  finally show "mw_pow x (-5/2) = 1 / (x\<^sup>2 * sqrt x)" using x by (simp add: powr_half_sqrt)
  show "mw_pow x (3/2) = x * sqrt x" using x by (simp add: mw_pow_three_halves)
qed

lemma mw_pow_powr: "0 < x \<Longrightarrow> mw_pow x y = x powr y"
  by (metis mw_pow_def powr_real_of_int' less_eq_real_def less_irrefl)

text \<open>One derivative per profile: the enclosed mass, and \<open>4 code_pi r\<^sup>2\<close> times the density.\<close>

lemma hernquist_mass:
  assumes "0 < a" "0 < r"
  shows "((\<lambda>r. r ^ 3 * (m / (r * (a + r)\<^sup>2))) has_real_derivative 2 * m * a * r / (a + r) ^ 3) (at r)"
proof -
  have ne: "r * (a + r)\<^sup>2 \<noteq> 0" "a + r \<noteq> 0" using assms by simp_all
  show ?thesis
    by (rule derivative_eq_intros refl ne)+ (use assms ne in \<open>simp add: field_simps; algebra?\<close>)
qed

lemma sqrt_sum_deriv:
  fixes a r :: real
  assumes "0 < a"
  shows "((\<lambda>r. sqrt (a * a + r * r)) has_real_derivative r / sqrt (a * a + r * r)) (at r)"
proof -
  have p: "0 < a * a + r * r" using assms by (simp add: add_pos_nonneg)
  have "((\<lambda>r. a * a + r * r) has_real_derivative 2 * r) (at r)"
    by (rule derivative_eq_intros refl)+ simp
  from DERIV_chain2[OF DERIV_real_sqrt[OF p] this] show ?thesis by (simp add: field_simps)
qed

lemma sqrt_sum:
  fixes a r :: real
  assumes "0 < a"
  shows "0 < sqrt (a * a + r * r)" "sqrt (a * a + r * r) * sqrt (a * a + r * r) = a * a + r * r"
proof -
  have p: "0 < a * a + r * r" using assms by (simp add: add_pos_nonneg)
  show "0 < sqrt (a * a + r * r)" using p by (rule real_sqrt_gt_zero)
  show "sqrt (a * a + r * r) * sqrt (a * a + r * r) = a * a + r * r"
    using p by (intro real_sqrt_mult_self[THEN trans] abs_of_pos)
qed

lemma plummer_mass:
  assumes "0 < a"
  shows "((\<lambda>r. r ^ 3 * (m / cube (sqrt (a * a + r * r)))) has_real_derivative
           3 * m * a\<^sup>2 * r\<^sup>2 / sqrt (a * a + r * r) ^ 5) (at r)"
proof -
  define q where "q = sqrt (a * a + r * r)"
  have q: "0 < q" "q * q = a * a + r * r" using sqrt_sum[OF assms] by (simp_all only: q_def)
  have ne: "sqrt (a * a + r * r) * sqrt (a * a + r * r) * sqrt (a * a + r * r) \<noteq> 0"
    using q(1) unfolding q_def[symmetric] by simp
  have "((\<lambda>r. r ^ 3 * (m / cube (sqrt (a * a + r * r)))) has_real_derivative
      3 * r\<^sup>2 * (m / cube q) - r ^ 3 * (m * (3 * (q * q) * (r / q)) / (cube q * cube q))) (at r)"
    by (rule derivative_eq_intros refl ne sqrt_sum_deriv assms)+
      (simp add: q_def[symmetric] algebra_simps)
  moreover have "3 * r\<^sup>2 * (m / cube q) - r ^ 3 * (m * (3 * (q * q) * (r / q)) / (cube q * cube q))
      = 3 * m * a\<^sup>2 * r\<^sup>2 / q ^ 5"
  proof -
    have "3 * r\<^sup>2 * (m / cube q) - r ^ 3 * (m * (3 * (q * q) * (r / q)) / (cube q * cube q))
      = 3 * m * r\<^sup>2 * (q * q - r * r) / q ^ 5"
      using q(1) by (simp add: field_simps power2_eq_square eval_nat_numeral)
    then show ?thesis unfolding q(2) by (simp add: power2_eq_square)
  qed
  ultimately show ?thesis by (simp add: q_def)
qed

lemma nfw_mass:
  assumes "0 < a" "0 < r"
  shows "((\<lambda>r. r ^ 3 * (m / (r * r) * (ln ((a + r) / a) / r - 1 / (a + r)))) has_real_derivative
           m * r / (a + r)\<^sup>2) (at r)"
proof -
  have eq: "r ^ 3 * (m / (r * r) * (ln ((a + r) / a) / r - 1 / (a + r)))
      = m * (ln ((a + r) / a) - r / (a + r))" if "0 < r" for r
  proof -
    have "r ^ 3 * (m / (r * r) * (L / r - 1 / (a + r))) = m * (L - r / (a + r))" for L
      using that assms(1) by (simp add: divide_simps power3_eq_cube)
    then show ?thesis .
  qed
  have ne: "0 < (a + r) / a" "a + r \<noteq> 0" "a \<noteq> 0" using assms by simp_all
  have "((\<lambda>r. m * (ln ((a + r) / a) - r / (a + r))) has_real_derivative m * r / (a + r)\<^sup>2) (at r)"
    by (rule derivative_eq_intros refl ne)+
      (use assms in \<open>simp add: divide_simps power2_eq_square; simp add: algebra_simps\<close>)
  then show ?thesis
    by (rule has_field_derivative_transform_within_open[where S = "{0<..}"]) (use assms eq in auto)
qed

lemma wilkinson_mass:
  assumes "0 < a" "0 < r"
  shows "((\<lambda>r. r ^ 3 * ((m / r) * (a + sqrt (a * a + r * r)) / ((a * a + r * r) + a * sqrt (a * a + r * r)) / r))
     has_real_derivative m * a\<^sup>2 / sqrt (a * a + r * r) ^ 3) (at r)"
proof -
  define q where "q = sqrt (a * a + r * r)"
  have q: "0 < q" "q * q = a * a + r * r" using sqrt_sum[OF assms(1)] by (simp_all only: q_def)
  have eq: "r ^ 3 * ((m / r) * (a + sqrt (a * a + r * r)) / ((a * a + r * r) + a * sqrt (a * a + r * r)) / r)
      = m * r / sqrt (a * a + r * r)" if "0 < r" for r
  proof -
    define s where "s = sqrt (a * a + r * r)"
    have s: "0 < s" "a * a + r * r = s * s" using sqrt_sum[OF assms(1)] by (simp_all only: s_def)
    have "s * s + a * s = s * (a + s)" "0 < a + s" using assms s by (simp_all add: algebra_simps)
    then show ?thesis using that s unfolding s_def[symmetric] s(2)
      by (simp add: power3_eq_cube)
  qed
  have ne: "sqrt (a * a + r * r) \<noteq> 0" using q(1) unfolding q_def by (rule less_imp_neq[symmetric])
  have "((\<lambda>r. m * r / sqrt (a * a + r * r)) has_real_derivative (m * q - m * r * (r / q)) / (q * q)) (at r)"
    by (rule derivative_eq_intros refl ne sqrt_sum_deriv assms)+ (simp add: q_def[symmetric])
  moreover have "(m * q - m * r * (r / q)) / (q * q) = m * a\<^sup>2 / q ^ 3"
  proof -
    have "(m * q - m * r * (r / q)) / (q * q) = m * (q * q - r * r) / q ^ 3"
      using q(1) by (simp add: field_simps power3_eq_cube)
    then show ?thesis unfolding q(2) by (simp add: power2_eq_square)
  qed
  ultimately have "((\<lambda>r. m * r / sqrt (a * a + r * r)) has_real_derivative m * a\<^sup>2 / q ^ 3) (at r)" by simp
  then show ?thesis unfolding q_def
    by (rule has_field_derivative_transform_within_open[where S = "{0<..}"]) (use assms eq in auto)
qed

lemma allen_santillan_mass:
  assumes "0 < a" "0 < r"
  shows "((\<lambda>r. r ^ 3 * ((m / (a * r)) * mw_pow (r / a) (g - 1) / (1 + mw_pow (r / a) (g - 1)) / r))
     has_real_derivative m / a * mw_pow (r / a) (g - 1) * (mw_pow (r / a) (g - 1) + (g - 1) + 1)
       / (1 + mw_pow (r / a) (g - 1))\<^sup>2) (at r)"
proof -
  define b where "b = g - 1"
  have pw: "mw_pow (r / a) (g - 1) = (r / a) powr b" if "0 < r" for r
    using that assms(1) by (simp add: mw_pow_powr b_def)
  have eq: "r ^ 3 * ((m / (a * r)) * mw_pow (r / a) (g - 1) / (1 + mw_pow (r / a) (g - 1)) / r)
      = (m / a) * (r * (r / a) powr b / (1 + (r / a) powr b))" if "0 < r" for r
    unfolding pw[OF that] using that assms(1) by (simp add: power3_eq_cube)
  have pos: "0 < r / a" "0 < (r / a) powr b" "1 + (r / a) powr b \<noteq> 0"
    using assms by (simp_all add: add_pos_pos less_imp_neq[symmetric])
  have d: "((\<lambda>r. (r / a) powr b) has_real_derivative b * (r / a) powr (b - 1) * (1 / a)) (at r)"
    using DERIV_fun_powr[OF DERIV_cdivide[OF DERIV_ident] pos(1), of b] by simp
  have "(r / a) powr (b - 1) * (1 / a) = (r / a) powr b / r"
    using assms by (simp add: powr_diff)
  then have d': "((\<lambda>r. (r / a) powr b) has_real_derivative b * ((r / a) powr b / r)) (at r)"
    using d unfolding mult.assoc by simp
  define w where "w = (r / a) powr b"
  have "((\<lambda>r. (m / a) * (r * (r / a) powr b / (1 + (r / a) powr b))) has_real_derivative
      (m / a) * (((1 * w + b * (w / r) * r) * (1 + w) - r * w * (b * (w / r))) / ((1 + w) * (1 + w)))) (at r)"
    unfolding w_def
    by (rule DERIV_cmult DERIV_divide DERIV_mult' DERIV_add d' pos derivative_eq_intros refl | simp add: algebra_simps)+
  moreover have "(m / a) * (((1 * w + b * (w / r) * r) * (1 + w) - r * w * (b * (w / r))) / ((1 + w) * (1 + w)))
      = m / a * w * (w + b + 1) / (1 + w)\<^sup>2"
  proof -
    have "(1 * w + b * (w / r) * r) * (1 + w) - r * w * (b * (w / r)) = w * (w + b + 1)"
      using assms(2) by (simp add: algebra_simps)
    then show ?thesis by (simp add: power2_eq_square)
  qed
  ultimately have "((\<lambda>r. (m / a) * (r * (r / a) powr b / (1 + (r / a) powr b))) has_real_derivative
      m / a * w * (w + b + 1) / (1 + w)\<^sup>2) (at r)" by simp
  then show ?thesis unfolding pw[OF assms(2)] unfolding w_def[symmetric] b_def[symmetric]
    by (rule has_field_derivative_transform_within_open[where S = "{0<..}"]) (use assms eq b_def in auto)
qed

lemma ninkovic_mass:
  assumes "0 < a" "0 < r" "0 < 1 + cube zl"
  shows "((\<lambda>r. r ^ 3 * (f * (ln (1 + cube (r / a)) - cube (r / a) / (1 + cube zl)) / cube r))
     has_real_derivative f * (3 * r\<^sup>2 / a ^ 3) * (1 / (1 + cube (r / a)) - 1 / (1 + cube zl))) (at r)"
proof -
  have eq: "r ^ 3 * (f * (ln (1 + cube (r / a)) - cube (r / a) / (1 + cube zl)) / cube r)
      = f * (ln (1 + cube (r / a)) - cube (r / a) / (1 + cube zl))" if "0 < r" for r
    using that by (simp add: power3_eq_cube)
  have p: "0 < 1 + cube (r / a)" using assms by (simp add: add_pos_pos)
  have c: "((\<lambda>r. cube (r / a)) has_real_derivative 3 * r\<^sup>2 / a ^ 3) (at r)"
    by (rule derivative_eq_intros refl | simp add: assms(1)[THEN less_imp_neq, symmetric])+
      (use assms in \<open>simp add: field_simps power2_eq_square power3_eq_cube\<close>)
  have "((\<lambda>r. ln (1 + cube (r / a))) has_real_derivative (3 * r\<^sup>2 / a ^ 3) / (1 + cube (r / a))) (at r)"
    using DERIV_chain2[where f = ln and g = "\<lambda>r. 1 + cube (r / a)", OF DERIV_ln_divide[OF p]
        DERIV_add[OF DERIV_const c]] by (simp add: mult.commute)
  from DERIV_cmult[OF DERIV_diff[OF this DERIV_cdivide[OF c]], of f "1 + cube zl"]
  have "((\<lambda>r. f * (ln (1 + cube (r / a)) - cube (r / a) / (1 + cube zl))) has_real_derivative
      f * (3 * r\<^sup>2 / a ^ 3 / (1 + cube (r / a)) - 3 * r\<^sup>2 / a ^ 3 / (1 + cube zl))) (at r)" .
  moreover have "f * (3 * r\<^sup>2 / a ^ 3 / (1 + cube (r / a)) - 3 * r\<^sup>2 / a ^ 3 / (1 + cube zl))
      = f * (3 * r\<^sup>2 / a ^ 3) * (1 / (1 + cube (r / a)) - 1 / (1 + cube zl))"
    by (simp add: algebra_simps)
  ultimately have "((\<lambda>r. f * (ln (1 + cube (r / a)) - cube (r / a) / (1 + cube zl))) has_real_derivative
      f * (3 * r\<^sup>2 / a ^ 3) * (1 / (1 + cube (r / a)) - 1 / (1 + cube zl))) (at r)" by simp
  then show ?thesis
    by (rule has_field_derivative_transform_within_open[where S = "{0<..}"]) (use assms eq in auto)
qed

definition halo_enclosed :: "real Halo \<Rightarrow> real \<Rightarrow> real" where
  "halo_enclosed h = enclosed (\<lambda>pos r. the (haloAccel h pos r))"

text \<open>The halos with a spherical density profile, away from the outer edge of the truncated ones.\<close>

definition spherical_halo :: "real Halo \<Rightarrow> real \<Rightarrow> bool" where
  "spherical_halo h r \<longleftrightarrow>
     h_type h \<in> {NFWHalo, WilkinsonEvansHalo, NFWMassHalo, PlummerHalo, HernquistHalo}
     \<or> h_type h \<in> {AllenSantillanHalo, NinkovicHalo} \<and> 0 < h_lambda h \<and> r \<noteq> h_lambda h \<and> 0 \<le> h_rho0 h"

lemma enclosed_plain:
  assumes "\<And>pos r. the (haloAccel h pos r) = mw_mulvs pos (f r)"
  shows "halo_enclosed h = (\<lambda>r. - (r ^ 3 * f r))"
  unfolding halo_enclosed_def assms by (simp add: enclosed_mulvs fun_eq_iff)

lemma enclosed_simple:
  assumes "spherical_halo h r" "h_type h \<notin> {AllenSantillanHalo, NinkovicHalo}"
    and a: "0 < h_scaleLength h" and r: "0 < r"
  shows "(halo_enclosed h has_real_derivative 4 * code_pi * r\<^sup>2 * the (haloDensity h pos r)) (at r)"
proof -
  let ?a = "h_scaleLength h"
  have q: "0 < sqrt (?a * ?a + r * r)" "sqrt (?a * ?a + r * r) * sqrt (?a * ?a + r * r) = ?a * ?a + r * r"
    using sqrt_sum[OF a] by blast+
  have s: "0 < ?a * ?a + r * r" using a by (simp add: add_pos_nonneg)
  consider "h_type h = HernquistHalo" | "h_type h = PlummerHalo" | "h_type h = NFWMassHalo"
    | "h_type h = NFWHalo" | "h_type h = WilkinsonEvansHalo"
    using assms(1,2) by (auto simp: spherical_halo_def)
  then show ?thesis
  proof cases
    case 1
    have f: "halo_enclosed h = (\<lambda>r. r ^ 3 * (h_mass h / (r * (?a + r)\<^sup>2)))"
      by (subst enclosed_plain[of h "\<lambda>r. - h_mass h / (r * sqr (?a + r))"])
        (simp_all add: 1 hernquistHaloAccel_def Let_def power2_eq_square fun_eq_iff)
    define t where "t = ?a + r"
    have t: "t \<noteq> 0" "r + ?a = t" using a r by (simp_all add: t_def)
    have "hernquistHaloDensity h r = (h_mass h / (2 * code_pi * ?a ^ 3)) * ?a ^ 4 / (r * t ^ 3)"
      using a r t(1) by (simp add: hernquistHaloDensity_def Let_def t(2))
    then have "4 * code_pi * r\<^sup>2 * hernquistHaloDensity h r = 2 * h_mass h * ?a * r / t ^ 3"
      using a r t(1) by (simp add: field_simps eval_nat_numeral)
    then show ?thesis unfolding f
      by (intro DERIV_cong[OF hernquist_mass[OF a r]]) (simp add: 1 t_def)
  next
    case 2
    have f: "halo_enclosed h = (\<lambda>r. r ^ 3 * (h_mass h / cube (sqrt (?a * ?a + r * r))))"
      by (subst enclosed_plain[of h "\<lambda>r. - h_mass h / cube (sqrt (?a * ?a + r * r))"])
        (simp_all add: 2 plummerHaloAccel_def Let_def fun_eq_iff)
    define w where "w = sqrt (?a * ?a + r * r)"
    have w: "0 < w" "?a * ?a + r * r = w * w" using q by (simp_all only: w_def)
    have y: "1 + (r / ?a)\<^sup>2 = (w / ?a)\<^sup>2"
      using a by (simp add: power_divide power2_eq_square w(2)[symmetric] add_divide_distrib)
    have sq: "sqrt ((w / ?a)\<^sup>2) = w / ?a" "0 < (w / ?a)\<^sup>2" using a w(1) by simp_all
    have "mw_pow (1 + mw_pow (r / ?a) 2) (-5/2) = 1 / (((w / ?a)\<^sup>2)\<^sup>2 * (w / ?a))"
      unfolding mw_pow_numeral y mw_pow_five_halves[OF sq(2)] sq(1) by (rule refl)
    then have "mw_pow (1 + mw_pow (r / ?a) 2) (-5/2) = ?a ^ 5 / w ^ 5"
      using a w(1) by (simp add: field_simps eval_nat_numeral)
    then have "4 * code_pi * r\<^sup>2 * plummerHaloDensity h r = 3 * h_mass h * ?a\<^sup>2 * r\<^sup>2 / w ^ 5"
      using a by (simp add: plummerHaloDensity_def Let_def field_simps eval_nat_numeral)
    then show ?thesis unfolding f
      by (intro DERIV_cong[OF plummer_mass[OF a]]) (simp add: 2 w_def)
  next
    case 3
    have f: "halo_enclosed h = (\<lambda>r. r ^ 3 * (h_mass h / (r * r) * (ln ((?a + r) / ?a) / r - 1 / (?a + r))))"
      by (subst enclosed_plain[of h "\<lambda>r. (- h_mass h / sqr r) * (ln ((?a + r) / ?a) / r - 1 / (?a + r))"])
        (simp_all add: 3 NFWMHaloAccel_def Let_def fun_eq_iff)
    define t where "t = ?a + r"
    have t: "t \<noteq> 0" using a r by (simp add: t_def)
    have "NFWMHaloDensity h r = h_mass h / (r * t * t * 4 * code_pi)"
      using r by (simp add: NFWMHaloDensity_def Let_def t_def)
    then have "4 * code_pi * r\<^sup>2 * NFWMHaloDensity h r = h_mass h * r / t\<^sup>2"
      using r t by (simp add: field_simps power2_eq_square)
    then show ?thesis unfolding f
      by (intro DERIV_cong[OF nfw_mass[OF a r]]) (simp add: 3 t_def)
  next
    case 4
    let ?m = "sqr (h_vhalo h) * ?a / 0.2162165954"
    have f: "halo_enclosed h = (\<lambda>r. r ^ 3 * (?m / (r * r) * (ln ((?a + r) / ?a) / r - 1 / (?a + r))))"
      by (subst enclosed_plain[of h "\<lambda>r. (- ?m / sqr r) * (ln ((?a + r) / ?a) / r - 1 / (?a + r))"])
        (simp_all add: 4 nfwHaloAccel_def Let_def fun_eq_iff)
    define t where "t = ?a + r"
    have t: "t \<noteq> 0" "1 + r / ?a = t / ?a" using a r by (simp_all add: t_def field_simps)
    have "NFWHaloDensity h r = sqr (h_vhalo h) / 4 / code_pi / ?a / ?a / 0.2162165954 / (r / ?a) / (t / ?a)\<^sup>2"
      using r by (simp add: NFWHaloDensity_def Let_def t(2))
    then have "4 * code_pi * r\<^sup>2 * NFWHaloDensity h r = ?m * r / t\<^sup>2"
      using a r t(1) by (simp add: field_simps power2_eq_square)
    then show ?thesis unfolding f
      by (intro DERIV_cong[OF nfw_mass[OF a r]]) (simp add: 4 t_def)
  next
    case 5
    let ?c = "\<lambda>r. (h_mass h / r) * (?a + sqrt (?a * ?a + r * r)) / ((?a * ?a + r * r) + ?a * sqrt (?a * ?a + r * r)) / r"
    have f: "halo_enclosed h = (\<lambda>r. r ^ 3 * ?c r)"
      by (subst enclosed_plain[of h "\<lambda>r. - ?c r"])
        (simp_all add: 5 WEHaloAccel_def Let_def fun_eq_iff)
    define w where "w = sqrt (?a * ?a + r * r)"
    have w: "0 < w" "r * r + ?a * ?a = w * w" using q by (simp_all only: w_def add.commute[of "r * r"])
    have "mw_pow (w * w) (3/2) = w ^ 3" using w(1) by (simp add: mw_pow_three_halves power3_eq_cube)
    then have "4 * code_pi * r\<^sup>2 * wilkinsonEvansHaloDensity h r = h_mass h * ?a\<^sup>2 / w ^ 3"
      using r by (simp add: wilkinsonEvansHaloDensity_def Let_def w(2) field_simps power2_eq_square)
    then show ?thesis unfolding f
      by (intro DERIV_cong[OF wilkinson_mass[OF a r]]) (simp add: 5 w_def)
  qed
qed

lemma code_enclosed_local:
  assumes "((\<lambda>r. r ^ 3 * f r) has_real_derivative d) (at r)" "open S" "r \<in> S"
    and "\<And>pos x. x \<in> S \<Longrightarrow> the (haloAccel h pos x) = mw_mulvs pos (- f x)"
  shows "(halo_enclosed h has_real_derivative d) (at r)"
proof (rule has_field_derivative_transform_within_open[OF assms(1-3)])
  fix x assume "x \<in> S"
  then have "the (haloAccel h \<lparr>X = x, Y = 0, Z = 0\<rparr> x) = mw_mulvs \<lparr>X = x, Y = 0, Z = 0\<rparr> (- f x)"
    by (rule assms(4))
  then show "x ^ 3 * f x = halo_enclosed h x"
    by (simp add: halo_enclosed_def enclosed_def mw_mulvs_def power2_eq_square power3_eq_cube mult.assoc
        del: haloAccel.simps)
qed

lemma enclosed_truncated:
  assumes "h_type h \<in> {AllenSantillanHalo, NinkovicHalo}" "r \<noteq> h_lambda h" "0 < h_lambda h"
    and rho: "0 \<le> h_rho0 h" and a: "0 < h_scaleLength h" and r: "0 < r"
  shows "(halo_enclosed h has_real_derivative 4 * code_pi * r\<^sup>2 * the (haloDensity h pos r)) (at r)"
proof -
  let ?a = "h_scaleLength h" and ?l = "h_lambda h" and ?g = "h_gamma h" and ?m = "h_mass h"
  have const: "((\<lambda>r. r ^ 3 * (k / r ^ 3)) has_real_derivative 0) (at r)" for k
    by (rule has_field_derivative_transform_within_open[OF DERIV_const[of k], where S = "{0<..}"])
      (use r in auto)
  consider (as) "h_type h = AllenSantillanHalo" | (nk) "h_type h = NinkovicHalo" using assms(1) by auto
  then show ?thesis
  proof cases
    case as
    show ?thesis
    proof (cases "r < ?l")
      case True
      let ?f = "\<lambda>r. (?m / (?a * r)) * mw_pow (r / ?a) (?g - 1) / (1 + mw_pow (r / ?a) (?g - 1)) / r"
      have "4 * code_pi * r\<^sup>2 * allenSantillanHaloDensity h r
          = ?m / ?a * mw_pow (r / ?a) (?g - 1) * (mw_pow (r / ?a) (?g - 1) + (?g - 1) + 1)
            / (1 + mw_pow (r / ?a) (?g - 1))\<^sup>2"
        using True r by (simp add: allenSantillanHaloDensity_def Let_def power2_eq_square)
      then show ?thesis
        using allen_santillan_mass[OF a r, of ?m ?g] True
        by (intro code_enclosed_local[of ?f _ r "{..<?l}"])
          (simp_all add: as ASHaloAccel_def Let_def add.assoc)
    next
      case False
      let ?k = "?m * (mw_pow (?l / ?a) ?g / (1 + mw_pow (?l / ?a) (?g - 1)))"
      have "the (haloDensity h pos r) = 0"
        using False assms(2) r by (simp add: as allenSantillanHaloDensity_def Let_def)
      then show ?thesis
        using const[of ?k] False assms(2,3) r
        by (intro code_enclosed_local[of "\<lambda>r. ?k / r ^ 3" _ r "{?l<..}"])
          (auto simp: as ASHaloAccel_def Let_def power2_eq_square power3_eq_cube ac_simps)
    qed
  next
    case nk
    let ?F = "4 * code_pi / 3 * h_rho0 h * cube ?a"
    have c: "0 < 1 + cube (?l / ?a)" "0 < cube (r / ?a)" "0 < cube (?l / ?a)"
      using a r assms(3) by (simp_all add: add_pos_pos)
    show ?thesis
    proof (cases "r < ?l")
      case True
      let ?f = "\<lambda>r. ?F * (ln (1 + cube (r / ?a)) - cube (r / ?a) / (1 + cube (?l / ?a))) / cube r"
      have "r / ?a \<le> ?l / ?a" using True a by (simp add: divide_right_mono)
      then have "cube (r / ?a) \<le> cube (?l / ?a)" using a r assms(3) by (intro mult_mono) auto
      then have d: "1 / (1 + cube (?l / ?a)) \<le> 1 / (1 + cube (r / ?a))"
        using c by (intro divide_left_mono) auto
      have e: "ninkovicHaloDensity h r = h_rho0 h * (1 / (1 + cube (r / ?a)) - 1 / (1 + cube (?l / ?a)))"
      proof -
        have "0 \<le> h_rho0 h * (1 / (1 + cube (r / ?a)) - 1 / (1 + cube (?l / ?a)))"
          using rho d by (intro mult_nonneg_nonneg) simp_all
        then show ?thesis by (simp only: ninkovicHaloDensity_def Let_def mw_pow_numeral power3_eq_cube not_less[symmetric] if_False)
      qed
      have "4 * code_pi * r\<^sup>2 * ninkovicHaloDensity h r
          = ?F * (3 * r\<^sup>2 / ?a ^ 3) * (1 / (1 + cube (r / ?a)) - 1 / (1 + cube (?l / ?a)))"
        unfolding e using a by (simp add: power3_eq_cube)
      then show ?thesis
        using ninkovic_mass[OF a r c(1), of ?F] True
        by (intro code_enclosed_local[of ?f _ r "{..<?l}"]) (simp_all add: nk ninkovicHaloAccel_def Let_def)
    next
      case False
      let ?k = "?F * (ln (1 + cube (?l / ?a)) - cube (?l / ?a) / (1 + cube (?l / ?a)))"
      have "?l / ?a \<le> r / ?a" using False a by (simp add: divide_right_mono)
      then have "cube (?l / ?a) \<le> cube (r / ?a)" using a r assms(3) by (intro mult_mono) auto
      then have d: "1 / (1 + cube (r / ?a)) \<le> 1 / (1 + cube (?l / ?a))"
        using c by (intro divide_left_mono) auto
      then have "h_rho0 h * (1 / (1 + cube (r / ?a)) - 1 / (1 + cube (?l / ?a))) \<le> 0"
        using rho by (intro mult_nonneg_nonpos) simp_all
      then have "ninkovicHaloDensity h r = 0"
        unfolding ninkovicHaloDensity_def Let_def mw_pow_numeral power3_eq_cube by auto
      then show ?thesis
        using const[of ?k] False assms(2)
        by (intro code_enclosed_local[of "\<lambda>r. ?k / r ^ 3" _ r "{?l<..}"])
          (auto simp: nk ninkovicHaloAccel_def Let_def power3_eq_cube)
    qed
  qed
qed

text \<open>C29: the density file and the acceleration file describe the same halos. For every halo with
  a spherical density profile, the mass that the acceleration implies inside a radius grows at the
  rate \<open>4 pi r\<^sup>2\<close> times the density (with the literal both files use for pi), inside and outside the
  edge of the truncated profiles.\<close>

theorem halo_density_sources_acceleration:
  assumes "spherical_halo h r" "0 < h_scaleLength h" "0 < r"
  shows "(halo_enclosed h has_real_derivative 4 * code_pi * r\<^sup>2 * the (haloDensity h pos r)) (at r)"
proof (cases "h_type h \<in> {AllenSantillanHalo, NinkovicHalo}")
  case True
  then show ?thesis using assms by (intro enclosed_truncated) (auto simp: spherical_halo_def)
qed (use assms enclosed_simple in blast)

definition sample_plummer_halo :: "halo_t \<Rightarrow> real Halo" where
  "sample_plummer_halo t = (p_halo EMPTY_POTENTIAL)\<lparr>h_type := t, h_scaleLength := 12, h_mass := 5, h_gamma := 2,
     h_lambda := 200, h_rho0 := 3\<rparr>"

theorem halo_density_sources_acceleration_witness:
  "(halo_enclosed (sample_plummer_halo AllenSantillanHalo) has_real_derivative
      4 * code_pi * 7\<^sup>2 * the (haloDensity (sample_plummer_halo AllenSantillanHalo) ZERO_VECTOR 7)) (at 7)"
  by (rule halo_density_sources_acceleration) (simp_all add: spherical_halo_def sample_plummer_halo_def)

end
