(* ===== verification/NBody_Friction.thy ===== *)
theory NBody_Friction
  imports NBody_Density
begin

text \<open>
  \<open>nbody_friction.c\<close>: the velocity dispersion of the galaxy by Gaussian quadrature of the radial
  Jeans integral, and the dynamical friction of the LMC after Chandrasekhar. \<open>None\<close> is a call of
  \<open>mw_fail\<close> in the density or the acceleration.
\<close>

text \<open>\<open>erf\<close> of the C library, by its power series.\<close>

definition mw_erf :: "real \<Rightarrow> real" where
  "mw_erf x = 2 / sqrt pi * (\<Sum>n. (-1) ^ n * x ^ (2 * n + 1) / (fact n * (2 * real n + 1)))"

definition dispIntegrand :: "disk_tables \<Rightarrow> real Potential \<Rightarrow> mwvector \<Rightarrow> real \<Rightarrow> real option" where
  "dispIntegrand tabs p pos time =
     Option.bind (nbExtAcceleration tabs p pos time) (\<lambda>acc.
       let mag = mw_pow (mw_dotv pos pos) 0.5;
           unit_v = mw_mulvs pos (1 / mag);
           a_r = \<bar>mw_dotv acc unit_v\<bar>
       in map_option (\<lambda>rho. rho * a_r) (nbExtDensity p pos time))"

definition gauss5 :: "(real \<times> real) list" where
  "gauss5 = [(0.2369268850561891, -0.9061798459386640), (0.4786286704993665, -0.5384693101056831),
             (0.5688888888888889, 0), (0.4786286704993665, 0.5384693101056831),
             (0.2369268850561891, 0.9061798459386640)]"

text \<open>The double loop of \<open>velDispersion\<close>: the \<open>nDivs\<close> subintervals and the five points of each.\<close>

fun disp_points :: "disk_tables \<Rightarrow> real Potential \<Rightarrow> mwvector \<Rightarrow> real \<Rightarrow> real \<Rightarrow> real \<Rightarrow> real \<Rightarrow> real
    \<Rightarrow> (real \<times> real) list \<Rightarrow> real \<Rightarrow> real option" where
  "disp_points tabs p pos time dst width a b [] integral = Some integral"
| "disp_points tabs p pos time dst width a b ((weight, point) # ps) integral =
     (let r = width * point / 2 + (a + b) / 2;
          input_vec = mw_mulvs pos (r / dst)
      in Option.bind (dispIntegrand tabs p input_vec time) (\<lambda>f.
           disp_points tabs p pos time dst width a b ps (integral + weight * f * width / 2)))"

fun disp_divs :: "disk_tables \<Rightarrow> real Potential \<Rightarrow> mwvector \<Rightarrow> real \<Rightarrow> real \<Rightarrow> real \<Rightarrow> nat list \<Rightarrow> real
    \<Rightarrow> real option" where
  "disp_divs tabs p pos time dst width [] integral = Some integral"
| "disp_divs tabs p pos time dst width (i # is) integral =
     (let a = dst + real i * width; b = dst + (real i + 1) * width
      in Option.bind (disp_points tabs p pos time dst width a b gauss5 integral) (\<lambda>integral.
           disp_divs tabs p pos time dst width is integral))"

definition velDispersion :: "disk_tables \<Rightarrow> real Potential \<Rightarrow> mwvector \<Rightarrow> real \<Rightarrow> real \<Rightarrow> real option" where
  "velDispersion tabs p pos upperlimit time =
     (let dst = mw_pow (mw_dotv pos pos) 0.5;
          nDivs = 10;
          width = (upperlimit - dst) / real nDivs
      in Option.bind (nbExtDensity p pos time) (\<lambda>rho0.
           if width \<le> 0 \<or> rho0 = 0 then Some (-1)
           else map_option (\<lambda>integral. integral / rho0)
                  (disp_divs tabs p pos time dst width [0..<nDivs] 0)))"

definition getHaloScaleLength :: "real Halo \<Rightarrow> real" where
  "getHaloScaleLength halo = (let scale = h_scaleLength halo in if scale = 0 then 1 else scale)"

definition dynamicalFriction_LMC :: "disk_tables \<Rightarrow> real Potential \<Rightarrow> mwvector \<Rightarrow> mwvector \<Rightarrow> real \<Rightarrow> real
    \<Rightarrow> bool \<Rightarrow> real \<Rightarrow> real \<Rightarrow> mwvector option" where
  "dynamicalFriction_LMC tabs p pos vel mass_LMC scaleLength_LMC dynaFric time coulomb =
     (if \<not> dynaFric then Some (mw_vec 0 0 0)
      else
        let G_CONST = 1; thresh = mw_pow 2 (-8);
            objectVel = mw_absv vel;
            objectVel = of_bool (objectVel \<ge> thresh) * objectVel + of_bool (objectVel < thresh) * thresh;
            scaleLength_halo = getHaloScaleLength (p_halo p);
            ln_lambda = coulomb
        in Option.bind (nbExtDensity p pos time) (\<lambda>density.
           Option.bind (velDispersion tabs p pos (50 * scaleLength_halo) time) (\<lambda>sigma2.
             let x = (if sigma2 \<le> 0 then 0 else objectVel / mw_pow (2 * sigma2) 0.5);
                 acc = (-4 * code_pi * mw_pow G_CONST 2 * mass_LMC * ln_lambda * density / mw_pow objectVel 2)
                         * (mw_erf x - 2 * x / mw_pow code_pi 0.5 * exp (-1 * mw_pow x 2))
             in Some \<lparr>X = acc * X vel / objectVel, Y = acc * Y vel / objectVel, Z = acc * Z vel / objectVel\<rparr>)))"

section \<open>Properties\<close>

lemma nbExtDensity_nonneg: "nbExtDensity p pos time = Some d \<Longrightarrow> 0 \<le> d"
  by (auto simp: nbExtDensity_def Let_def elim!: obind_SomeE split: if_splits
      simp del: sphereDensity.simps diskDensity.simps haloDensity.simps)

lemma dispIntegrand_nonneg: "dispIntegrand tabs p pos time = Some f \<Longrightarrow> 0 \<le> f"
  by (auto simp: dispIntegrand_def Let_def dest: nbExtDensity_nonneg elim!: obind_SomeE)

lemma disp_points_mono:
  "disp_points tabs p pos time dst width a b ps integral = Some y \<Longrightarrow> 0 \<le> width
   \<Longrightarrow> \<forall>(weight, point) \<in> set ps. 0 \<le> weight \<Longrightarrow> integral \<le> y"
proof (induction ps arbitrary: integral)
  case (Cons wp ps)
  obtain weight point where wp: "wp = (weight, point)" by (cases wp)
  then obtain f where f: "0 \<le> f"
    "disp_points tabs p pos time dst width a b ps (integral + weight * f * width / 2) = Some y"
    using Cons.prems(1) by (auto simp: Let_def dest: dispIntegrand_nonneg elim!: obind_SomeE)
  have "integral + weight * f * width / 2 \<le> y"
    by (rule Cons.IH[OF f(2) Cons.prems(2)]) (use Cons.prems(3) in auto)
  moreover have "0 \<le> weight * f * width / 2" using Cons.prems(2,3) f(1) wp by simp
  ultimately show ?case by simp
qed simp

lemma disp_divs_mono:
  "disp_divs tabs p pos time dst width is integral = Some y \<Longrightarrow> 0 \<le> width \<Longrightarrow> integral \<le> y"
proof (induction "is" arbitrary: integral)
  case (Cons i "is")
  then obtain z where z: "disp_points tabs p pos time dst width (dst + real i * width)
      (dst + (real i + 1) * width) gauss5 integral = Some z" "disp_divs tabs p pos time dst width is z = Some y"
    by (auto simp: Let_def elim!: obind_SomeE)
  have "integral \<le> z" by (rule disp_points_mono[OF z(1) Cons.prems(2)]) (simp add: gauss5_def)
  then show ?case using Cons.IH[OF z(2) Cons.prems(2)] by simp
qed simp

text \<open>A computed squared velocity dispersion is never negative; the only other value is the
  sentinel -1, returned exactly when the density vanishes or the point lies outside the integration
  range, and \<open>dynamicalFriction_LMC\<close> reads it as no dispersion. The sentinel cannot be mistaken for
  a result.\<close>

theorem velDispersion_range:
  assumes "velDispersion tabs p pos upperlimit time = Some sigma2"
  shows "if upperlimit \<le> mw_pow (mw_dotv pos pos) 0.5 \<or> nbExtDensity p pos time = Some 0
         then sigma2 = -1 else 0 \<le> sigma2"
proof -
  let ?w = "(upperlimit - mw_pow (mw_dotv pos pos) 0.5) / real 10"
  obtain rho0 where rho: "nbExtDensity p pos time = Some rho0" "0 \<le> rho0"
    using assms nbExtDensity_nonneg by (auto simp: velDispersion_def Let_def elim!: obind_SomeE)
  have w: "?w \<le> 0 \<longleftrightarrow> upperlimit \<le> mw_pow (mw_dotv pos pos) 0.5" by (simp add: divide_le_0_iff)
  show ?thesis
  proof (cases "?w \<le> 0 \<or> rho0 = 0")
    case True
    then show ?thesis using assms rho w by (auto simp: velDispersion_def Let_def)
  next
    case False
    then obtain y where "disp_divs tabs p pos time (mw_pow (mw_dotv pos pos) 0.5) ?w [0..<10] 0 = Some y"
      "sigma2 = y / rho0" using assms rho by (auto simp: velDispersion_def Let_def)
    then have "0 \<le> sigma2" using disp_divs_mono False rho(2) by (metis divide_nonneg_nonneg linorder_le_cases)
    then show ?thesis using False rho w by auto
  qed
qed

definition bulge_only :: "real Potential" where
  "bulge_only = \<lparr>p_sphere = \<lparr>s_type = HernquistSpherical, s_mass = 4, s_scale = 1\<rparr>,
     p_disk = (p_disk EMPTY_POTENTIAL)\<lparr>d_type := NoDisk\<rparr>,
     p_disk2 = (p_disk EMPTY_POTENTIAL)\<lparr>d_type := NoDisk\<rparr>,
     p_halo = (p_halo EMPTY_POTENTIAL)\<lparr>h_type := NoHalo\<rparr>\<rparr>"

lemma bulge_only_acc: "\<exists>acc. nbExtAcceleration tabs bulge_only pos t = Some acc"
  by (simp add: nbExtAcceleration_def bulge_only_def Let_def)

lemma clipped_r_pos: "0 < clipped_r pos"
  by (auto simp: clipped_r_def Let_def of_bool_def not_le intro: less_trans)

lemma bulge_only_density: "\<exists>d. nbExtDensity bulge_only pos t = Some d"
proof -
  have c: "0 < clipped_r pos" by (rule clipped_r_pos)
  have "0 < code_pi * (clipped_r pos * (clipped_r pos + 1) ^ 3)"
    using c by (intro mult_pos_pos zero_less_power add_pos_pos) simp_all
  then have "\<not> code_pi * (clipped_r pos * (clipped_r pos + 1) ^ 3) < 0" by linarith
  then show ?thesis using c
    by (auto simp: nbExtDensity_def bulge_only_def hernquistSphericalDensity_def Let_def)
qed

lemma bulge_only_disp: "\<exists>f. dispIntegrand tabs bulge_only pos t = Some f"
  using bulge_only_acc[of tabs pos t] bulge_only_density[of pos t] by (auto simp: dispIntegrand_def Let_def)

lemma bulge_only_points: "\<exists>y. disp_points tabs bulge_only pos t d w a b ps s = Some y"
proof (induction ps arbitrary: s)
  case (Cons wp ps)
  obtain f where "dispIntegrand tabs bulge_only (mw_mulvs pos ((w * snd wp / 2 + (a + b) / 2) / d)) t = Some f"
    using bulge_only_disp by blast
  then show ?case using Cons by (cases wp) (simp add: Let_def)
qed simp

lemma bulge_only_divs: "\<exists>y. disp_divs tabs bulge_only pos t d w is s = Some y"
proof (induction "is" arbitrary: s)
  case (Cons i "is")
  then show ?case using bulge_only_points[of tabs pos t d w _ _ gauss5 s]
    by (auto simp: Let_def) (metis (no_types, lifting) Option.bind.bind_lunit)
qed simp

lemma bulge_only_velDispersion: "\<exists>s. velDispersion tabs bulge_only pos u t = Some s"
proof -
  obtain d where "nbExtDensity bulge_only pos t = Some d" using bulge_only_density by blast
  then show ?thesis
    using bulge_only_divs[of tabs pos t _ _ "[0..<10]" 0] by (auto simp: velDispersion_def Let_def)
qed

theorem velDispersion_range_witness:
  "\<exists>s. velDispersion (\<lparr>aExp_tab = \<lambda>_ _. 0, bExp_tab = \<lambda>_ _. 0\<rparr>) bulge_only \<lparr>X = 3, Y = 0, Z = 4\<rparr> 2 0 = Some s
     \<and> s = -1"
proof -
  obtain s where s: "velDispersion (\<lparr>aExp_tab = \<lambda>_ _. 0, bExp_tab = \<lambda>_ _. 0\<rparr>) bulge_only \<lparr>X = 3, Y = 0, Z = 4\<rparr> 2 0 = Some s"
    using bulge_only_velDispersion by blast
  have "(2::real) \<le> sqrt 25" by (rule real_le_rsqrt) simp
  then show ?thesis using velDispersion_range[OF s] s by (simp add: mw_dotv_def)
qed

end
