(* ===== verification/NBody_Force.thy ===== *)
theory NBody_Force
  imports NBody_Grav NBody_Friction
begin

text \<open>
  The force map of \<open>nbody_grav.c\<close>: \<open>nbMapForceBody\<close>, \<open>nbMapForceBody_Exact\<close>, \<open>nbGravMap\<close>, and
  \<open>nbEvalPotentialClosure\<close> of \<open>nbody_lua.c\<close>. The loops over the bodies are sequential here; the
  parallel loop of the code writes every element of \<open>acctab\<close> once and reads none.
\<close>

section \<open>The environment\<close>

text \<open>
  What the forces use and the source does not define: how the machine reads pointers as doubles,
  the two big tables of \<open>nbody_bessel.c\<close>, and the user's Lua closure, which at a position gives
  three numbers or fails.
\<close>

record force_env =
  env_reint :: "node_ref option list \<Rightarrow> NBodyQuadMatrix"
  env_tabs :: disk_tables
  env_closure :: "mwvector \<Rightarrow> mwvector option"

definition REAL_MAX :: real where
  "REAL_MAX = (2 - 1 / 2 ^ 52) * 2 ^ 1023"

definition nbEvalPotentialClosure :: "force_env \<Rightarrow> NBodyState \<Rightarrow> mwvector \<Rightarrow> mwvector \<times> NBodyState" where
  "nbEvalPotentialClosure env st p =
     (case env_closure env p of
        None \<Rightarrow> (mw_vec REAL_MAX REAL_MAX REAL_MAX, st\<lparr>potentialEvalError := True\<rparr>)
      | Some a \<Rightarrow> (a, st))"

section \<open>The force on one body\<close>

text \<open>The pull of the LMC on a body: none of it, by a mass of zero, when there is no LMC.\<close>

definition lmc_pull :: "real NBodyCtx \<Rightarrow> NBodyState \<Rightarrow> mwvector \<Rightarrow> mwvector" where
  "lmc_pull ctx st p =
     (let (LMCx, lmcmass, lmcscale) =
        (if LMC ctx then (LMCpos st, LMCmass ctx, LMCscale ctx) else (mw_vec 0 0 0, 0, 1))
      in plummerAccel p LMCx lmcmass lmcscale)"

definition barTime :: "real NBodyCtx \<Rightarrow> NBodyState \<Rightarrow> real" where
  "barTime ctx st = real (step st) * timestep ctx - previousForwardTime st"

text \<open>The switch over the potential type, with the gravity \<open>a\<close> of the other bodies.\<close>

definition add_external :: "force_env \<Rightarrow> real NBodyCtx \<Rightarrow> NBodyState \<Rightarrow> mwvector \<Rightarrow> mwvector
    \<Rightarrow> (mwvector \<times> NBodyState) option" where
  "add_external env ctx st p a =
     (case potentialType ctx of
        EXTERNAL_POTENTIAL_DEFAULT \<Rightarrow>
          Option.bind (nbExtAcceleration (env_tabs env) (pot ctx) p (barTime ctx st)) (\<lambda>e.
            let externAcc = mw_addv e (lmc_pull ctx st p) in Some (mw_incaddv a externAcc, st))
      | EXTERNAL_POTENTIAL_NONE \<Rightarrow> Some (a, st)
      | EXTERNAL_POTENTIAL_CUSTOM_LUA \<Rightarrow>
          (let (externAcc, st') = nbEvalPotentialClosure env st p;
               externAcc = mw_incaddv externAcc (lmc_pull ctx st p)
           in Some (mw_incaddv a externAcc, st')))"

definition set_acc :: "nat \<Rightarrow> mwvector \<Rightarrow> NBodyState \<Rightarrow> NBodyState" where
  "set_acc i a st = st\<lparr>acctab := (acctab st)[i := a]\<rparr>"

section \<open>The loops over the bodies\<close>

definition nbMapForceBody :: "force_env \<Rightarrow> real NBodyCtx \<Rightarrow> NBodyState \<Rightarrow> NBodyState option" where
  "nbMapForceBody env ctx st =
     fold (\<lambda>i so. Option.bind so (\<lambda>st.
             Option.bind (nbGravity (env_reint env) ctx st i) (\<lambda>(a, st).
             Option.bind (add_external env ctx st (b_pos (bodytab st ! i)) a) (\<lambda>(a, st).
             Some (set_acc i a st)))))
       [0..<nbody st] (Some st)"

definition nbMapForceBody_Exact :: "force_env \<Rightarrow> real NBodyCtx \<Rightarrow> NBodyState \<Rightarrow> NBodyState option" where
  "nbMapForceBody_Exact env ctx st =
     fold (\<lambda>i so. Option.bind so (\<lambda>st.
             Option.bind (add_external env ctx st (b_pos (bodytab st ! i)) (nbGravity_Exact ctx st i))
               (\<lambda>(a, st). Some (set_acc i a st))))
       [0..<nbody st] (Some st)"

definition force_status :: "real NBodyCtx \<Rightarrow> NBodyState \<Rightarrow> NBodyStatus" where
  "force_status ctx st =
     (if potentialEvalError st then NBODY_LUA_POTENTIAL_ERROR else nbIncestStatusCheck ctx st)"

definition nbGravMap :: "force_env \<Rightarrow> real NBodyCtx \<Rightarrow> NBodyState \<Rightarrow> (NBodyStatus \<times> NBodyState) option" where
  "nbGravMap env ctx st =
     (if criterion ctx \<noteq> Exact then
        Option.bind (nbMakeTree (env_reint env) ctx st) (\<lambda>(rc, st).
          if nbStatusIsFatal rc then Some (rc, st)
          else map_option (\<lambda>st. (force_status ctx st, st)) (nbMapForceBody env ctx st))
      else map_option (\<lambda>st. (force_status ctx st, st)) (nbMapForceBody_Exact env ctx st))"

section \<open>Forces that keep the state\<close>

text \<open>
  Without a Lua closure the force on a body leaves the state alone. \<open>ext_acc\<close> is then what the
  environment adds to the gravity of the bodies, \<open>None\<close> when a potential has no valid type.
\<close>

definition ext_acc :: "force_env \<Rightarrow> real NBodyCtx \<Rightarrow> NBodyState \<Rightarrow> mwvector \<Rightarrow> mwvector option" where
  "ext_acc env ctx st p =
     (if potentialType ctx = EXTERNAL_POTENTIAL_NONE then Some ZERO_VECTOR
      else map_option (\<lambda>e. mw_addv e (lmc_pull ctx st p))
             (nbExtAcceleration (env_tabs env) (pot ctx) p (barTime ctx st)))"

lemma add_external_pure:
  "potentialType ctx \<noteq> EXTERNAL_POTENTIAL_CUSTOM_LUA \<Longrightarrow>
     add_external env ctx st p a = map_option (\<lambda>e. (mw_addv a e, st)) (ext_acc env ctx st p)"
  by (cases "potentialType ctx"; cases "nbExtAcceleration (env_tabs env) (pot ctx) p (barTime ctx st)")
    (simp_all add: add_external_def ext_acc_def)

definition exact_force :: "force_env \<Rightarrow> real NBodyCtx \<Rightarrow> NBodyState \<Rightarrow> nat \<Rightarrow> mwvector option" where
  "exact_force env ctx st i =
     map_option (mw_addv (nbGravity_Exact ctx st i)) (ext_acc env ctx st (b_pos (bodytab st ! i)))"

text \<open>The force depends on no acceleration.\<close>

lemma force_acctab [simp]:
  "ext_acc env ctx (st\<lparr>acctab := as\<rparr>) = ext_acc env ctx st"
  "nbGravity_Exact ctx (st\<lparr>acctab := as\<rparr>) = nbGravity_Exact ctx st"
  "exact_force env ctx (st\<lparr>acctab := as\<rparr>) = exact_force env ctx st"
  by (simp_all add: exact_force_def ext_acc_def lmc_pull_def barTime_def nbGravity_Exact_def fun_eq_iff)

lemma exact_loop:
  assumes "potentialType ctx \<noteq> EXTERNAL_POTENTIAL_CUSTOM_LUA"
    and "\<And>i. i \<in> set js \<Longrightarrow> exact_force env ctx st i \<noteq> None"
  shows "fold (\<lambda>i so. Option.bind so (\<lambda>st.
             Option.bind (add_external env ctx st (b_pos (bodytab st ! i)) (nbGravity_Exact ctx st i))
               (\<lambda>(a, st). Some (set_acc i a st)))) js (Some (st\<lparr>acctab := as\<rparr>))
     = Some (st\<lparr>acctab := fold (\<lambda>i as. as[i := the (exact_force env ctx st i)]) js as\<rparr>)"
  using assms(2)
proof (induction js arbitrary: as)
  case (Cons i js)
  obtain e where e: "ext_acc env ctx st (b_pos (bodytab st ! i)) = Some e"
    "the (exact_force env ctx st i) = mw_addv (nbGravity_Exact ctx st i) e"
    using Cons.prems[of i] by (auto simp: exact_force_def)
  show ?case using Cons.IH[of "as[i := the (exact_force env ctx st i)]"] Cons.prems e
    by (simp add: add_external_pure[OF assms(1)] set_acc_def)
qed simp

text \<open>The exact force map fills \<open>acctab\<close> with the force on every body.\<close>

lemma nbMapForceBody_Exact_eq:
  assumes "potentialType ctx \<noteq> EXTERNAL_POTENTIAL_CUSTOM_LUA" "length (acctab st) = nbody st"
    and "\<And>i. i < nbody st \<Longrightarrow> exact_force env ctx st i \<noteq> None"
  shows "nbMapForceBody_Exact env ctx st
    = Some (st\<lparr>acctab := map (\<lambda>i. the (exact_force env ctx st i)) [0..<nbody st]\<rparr>)"
  using exact_loop[OF assms(1), where st = st and js = "[0..<nbody st]" and env = env and as = "acctab st"] assms(3)
  by (simp add: nbMapForceBody_Exact_def fold_update_all[OF assms(2)])

lemma nbGravMap_Exact_eq:
  assumes "criterion ctx = Exact" "potentialType ctx \<noteq> EXTERNAL_POTENTIAL_CUSTOM_LUA"
    and "length (acctab st) = nbody st" "\<And>i. i < nbody st \<Longrightarrow> exact_force env ctx st i \<noteq> None"
  shows "nbGravMap env ctx st = Some (force_status ctx st,
      st\<lparr>acctab := map (\<lambda>i. the (exact_force env ctx st i)) [0..<nbody st]\<rparr>)"
  using assms(1) nbMapForceBody_Exact_eq[OF assms(2-4)]
  by (simp add: nbGravMap_def force_status_def nbIncestStatusCheck_def)

end
