(* ===== verification/NBody_Leapfrog.thy ===== *)
theory NBody_Leapfrog
  imports NBody_Grav
begin

text \<open>
  The abstract integrator that the stepping code implements: kick by half a step, drift by a step,
  recompute the forces, kick by half a step, on a list of positions and velocities under a force
  field. The locale \<open>force_field\<close> is the interface between integrator and forces (the field of
  n positions has n entries) and gives time reversal; \<open>balanced_field\<close> adds Newton's third law and
  gives the conservation laws. Both are interpreted on the field of \<open>nbGravity_Exact\<close>.
\<close>

section \<open>Sums of vectors\<close>

lemma vsum_addv: "vsum (\<lambda>i. mw_addv (f i) (g i)) A = mw_addv (vsum f A) (vsum g A)"
  by (simp add: vsum_def mw_addv_def sum.distrib)

lemma vsum_mulvs: "vsum (\<lambda>i. mw_mulvs (f i) c) A = mw_mulvs (vsum f A) c"
  by (simp add: vsum_def mw_mulvs_def sum_distrib_left)

lemma vsum_cong: "A = B \<Longrightarrow> (\<And>i. i \<in> B \<Longrightarrow> f i = g i) \<Longrightarrow> vsum f A = vsum g B"
  by (simp add: vsum_def)

lemma vsum_zero [simp]: "vsum (\<lambda>i. ZERO_VECTOR) A = ZERO_VECTOR"
  by (simp add: vsum_def ZERO_VECTOR_def)

lemma vsum_sum:
  "X (vsum f A) = (\<Sum>i\<in>A. X (f i))" "Y (vsum f A) = (\<Sum>i\<in>A. Y (f i))" "Z (vsum f A) = (\<Sum>i\<in>A. Z (f i))"
  by (simp_all add: vsum_def)

lemma antisym_sum:
  fixes F :: "nat \<Rightarrow> nat \<Rightarrow> real"
  assumes "\<And>i j. F j i = - F i j"
  shows "(\<Sum>i<n. \<Sum>j<n. F i j) = 0"
proof -
  have "(\<Sum>i<n. \<Sum>j<n. F i j) = (\<Sum>i<n. \<Sum>j<n. F j i)" by (rule sum.swap)
  also have "\<dots> = (\<Sum>i<n. \<Sum>j<n. - F i j)" by (intro sum.cong refl assms)
  also have "\<dots> = - (\<Sum>i<n. \<Sum>j<n. F i j)" by (simp add: sum_negf)
  finally show ?thesis by simp
qed

lemma antisym_vsum:
  assumes "\<And>i j. F j i = mw_negv (F i j)"
  shows "vsum (\<lambda>i. vsum (F i) {..<n}) {..<n} = ZERO_VECTOR"
proof -
  have a: "X (F j i) = - X (F i j)" "Y (F j i) = - Y (F i j)" "Z (F j i) = - Z (F i j)" for i j
    using assms[of i j] by (simp_all add: mw_negv_def)
  show ?thesis
    using antisym_sum[where n = n, OF a(1)] antisym_sum[where n = n, OF a(2)] antisym_sum[where n = n, OF a(3)]
    by (intro mwvector_eqI) (simp_all add: vsum_sum ZERO_VECTOR_def)
qed

section \<open>The integrator\<close>

type_synonym phase = "(mwvector \<times> mwvector) list"

definition kick :: "real \<Rightarrow> mwvector list \<Rightarrow> phase \<Rightarrow> phase" where
  "kick h as ps = map2 (\<lambda>(x, v) a. (x, mw_addv v (mw_mulvs a h))) ps as"

definition drift :: "real \<Rightarrow> phase \<Rightarrow> phase" where
  "drift dt ps = map (\<lambda>(x, v). (mw_addv x (mw_mulvs v dt), v)) ps"

definition reversed :: "phase \<Rightarrow> phase" where
  "reversed ps = map (\<lambda>(x, v). (x, mw_negv v)) ps"

definition leap :: "(mwvector list \<Rightarrow> mwvector list) \<Rightarrow> real \<Rightarrow> phase \<Rightarrow> phase" where
  "leap force dt ps =
     (let ps = drift dt (kick (0.5 * dt) (force (map fst ps)) ps)
      in kick (0.5 * dt) (force (map fst ps)) ps)"

definition momentum :: "(nat \<Rightarrow> real) \<Rightarrow> phase \<Rightarrow> mwvector" where
  "momentum m ps = vsum (\<lambda>i. mw_mulvs (snd (ps ! i)) (m i)) {..<length ps}"

definition mass_moment :: "(nat \<Rightarrow> real) \<Rightarrow> phase \<Rightarrow> mwvector" where
  "mass_moment m ps = vsum (\<lambda>i. mw_mulvs (fst (ps ! i)) (m i)) {..<length ps}"

definition angular_momentum :: "(nat \<Rightarrow> real) \<Rightarrow> phase \<Rightarrow> mwvector" where
  "angular_momentum m ps =
     vsum (\<lambda>i. mw_mulvs (mw_crossv (fst (ps ! i)) (snd (ps ! i))) (m i)) {..<length ps}"

lemma drift_simps [simp]: "length (drift dt ps) = length ps" "map snd (drift dt ps) = map snd ps"
  by (auto simp: drift_def)

lemma kick_simps [simp]: "length as = length ps \<Longrightarrow> length (kick h as ps) = length ps"
  "length as = length ps \<Longrightarrow> map fst (kick h as ps) = map fst ps"
  by (auto simp: kick_def intro: nth_equalityI split: prod.splits)

lemma kick_nth: "length as = length ps \<Longrightarrow> i < length ps \<Longrightarrow>
    kick h as ps ! i = (fst (ps ! i), mw_addv (snd (ps ! i)) (mw_mulvs (as ! i) h))"
  by (simp add: kick_def split_beta)

lemma drift_nth: "i < length ps \<Longrightarrow>
    drift h ps ! i = (mw_addv (fst (ps ! i)) (mw_mulvs (snd (ps ! i)) h), snd (ps ! i))"
  by (simp add: drift_def split_beta)

lemma reversed_nth: "i < length ps \<Longrightarrow> reversed ps ! i = (fst (ps ! i), mw_negv (snd (ps ! i)))"
  by (simp add: reversed_def split_beta)

lemma reversed_simps [simp]: "length (reversed ps) = length ps" "map fst (reversed ps) = map fst ps"
  "reversed (reversed ps) = ps"
  by (auto simp: reversed_def comp_def split_beta)

text \<open>A kick, and a drift, undo themselves under reversal.\<close>

lemma kick_reversed:
  "length as = length ps \<Longrightarrow> kick h as (reversed (kick h as ps)) = reversed ps"
  by (auto intro!: nth_equalityI simp: kick_nth reversed_nth vec_defs)

lemma drift_reversed: "drift dt (reversed (drift dt ps)) = reversed ps"
  by (auto intro!: nth_equalityI simp: drift_nth reversed_nth vec_defs)

section \<open>Time reversal\<close>

locale force_field =
  fixes force :: "mwvector list \<Rightarrow> mwvector list"
  assumes force_length: "length (force xs) = length xs"
begin

lemma leap_length [simp]: "length (leap force dt ps) = length ps"
  by (simp add: leap_def Let_def force_length)

lemma leap_reversed: "leap force dt (reversed (leap force dt ps)) = reversed ps"
proof -
  define f where "f = force (map fst ps)"
  define h where "h = 0.5 * dt"
  define qs where "qs = drift dt (kick h f ps)"
  define g where "g = force (map fst qs)"
  have lf: "length f = length ps" by (simp add: f_def force_length)
  have lg: "length g = length qs" by (simp add: g_def force_length)
  have l: "leap force dt ps = kick h g qs"
    by (simp only: leap_def Let_def f_def[symmetric] g_def[symmetric] qs_def[symmetric] h_def[symmetric])
  have x: "map fst (reversed (kick h g qs)) = map fst qs" by (simp add: lg)
  have undo: "drift dt (reversed qs) = reversed (kick h f ps)"
    by (simp add: qs_def drift_reversed)
  have "leap force dt (reversed (kick h g qs))
      = (let rs = drift dt (reversed qs) in kick h (force (map fst rs)) rs)"
    by (simp only: leap_def x g_def[symmetric] kick_reversed[OF lg] h_def[symmetric])
  also have "\<dots> = reversed ps" by (simp add: undo lf f_def[symmetric] kick_reversed)
  finally show ?thesis by (simp only: l)
qed

lemma leaps_reversed: "(leap force dt ^^ n) (reversed ((leap force dt ^^ n) ps)) = reversed ps"
proof (induction n arbitrary: ps)
  case (Suc n)
  have "(leap force dt ^^ Suc n) (reversed ((leap force dt ^^ Suc n) ps))
      = (leap force dt ^^ n) (leap force dt (reversed (leap force dt ((leap force dt ^^ n) ps))))"
    by (simp add: funpow_swap1)
  then show ?case by (simp add: leap_reversed Suc)
qed simp

end

section \<open>Conservation laws\<close>

locale balanced_field = force_field force for force +
  fixes m :: "nat \<Rightarrow> real" and n :: nat
  assumes balance: "length xs = n \<Longrightarrow> vsum (\<lambda>i. mw_mulvs (force xs ! i) (m i)) {..<n} = ZERO_VECTOR"
    and no_torque: "length xs = n \<Longrightarrow>
      vsum (\<lambda>i. mw_mulvs (mw_crossv (xs ! i) (force xs ! i)) (m i)) {..<n} = ZERO_VECTOR"
begin

lemma kick_momentum:
  assumes "length ps = n"
  shows "momentum m (kick h (force (map fst ps)) ps) = momentum m ps"
proof -
  let ?f = "force (map fst ps)"
  have l: "length ?f = length ps" by (simp add: force_length)
  have "momentum m (kick h ?f ps)
      = vsum (\<lambda>i. mw_addv (mw_mulvs (snd (ps ! i)) (m i)) (mw_mulvs (mw_mulvs (?f ! i) (m i)) h)) {..<n}"
    unfolding momentum_def using assms l
    by (intro vsum_cong) (auto simp: kick_nth vec_defs algebra_simps)
  then show ?thesis using balance[of "map fst ps"] assms
    by (simp add: vsum_addv vsum_mulvs momentum_def mw_mulvs_def[of ZERO_VECTOR] ZERO_VECTOR_def[symmetric])
      (simp add: ZERO_VECTOR_def mw_addv_def)
qed

lemma kick_angular:
  assumes "length ps = n"
  shows "angular_momentum m (kick h (force (map fst ps)) ps) = angular_momentum m ps"
proof -
  let ?f = "force (map fst ps)"
  have l: "length ?f = length ps" by (simp add: force_length)
  have "angular_momentum m (kick h ?f ps)
      = vsum (\<lambda>i. mw_addv (mw_mulvs (mw_crossv (fst (ps ! i)) (snd (ps ! i))) (m i))
                          (mw_mulvs (mw_mulvs (mw_crossv (map fst ps ! i) (?f ! i)) (m i)) h)) {..<n}"
    unfolding angular_momentum_def using assms l
    by (intro vsum_cong) (auto simp: kick_nth vec_defs algebra_simps)
  then show ?thesis using no_torque[of "map fst ps"] assms
    by (simp add: vsum_addv vsum_mulvs angular_momentum_def)
      (simp add: ZERO_VECTOR_def mw_addv_def mw_mulvs_def)
qed

lemma drift_momentum: "momentum m (drift dt ps) = momentum m ps"
  unfolding momentum_def by (rule vsum_cong) (auto simp: drift_nth)

lemma drift_angular: "angular_momentum m (drift dt ps) = angular_momentum m ps"
  unfolding angular_momentum_def by (rule vsum_cong) (auto simp: drift_nth vec_defs algebra_simps)

lemma leap_conserves:
  assumes "length ps = n"
  shows "momentum m (leap force dt ps) = momentum m ps"
    "angular_momentum m (leap force dt ps) = angular_momentum m ps"
proof -
  let ?q = "drift dt (kick (0.5 * dt) (force (map fst ps)) ps)"
  have "length ?q = n" using assms by (simp add: force_length)
  then show "momentum m (leap force dt ps) = momentum m ps"
    "angular_momentum m (leap force dt ps) = angular_momentum m ps"
    using assms
    by (simp_all add: leap_def Let_def kick_momentum kick_angular drift_momentum drift_angular)
qed

lemma leap_mass_moment:
  assumes "length ps = n"
  shows "mass_moment m (leap force dt ps) = mw_addv (mass_moment m ps) (mw_mulvs (momentum m ps) dt)"
proof -
  let ?k = "kick (0.5 * dt) (force (map fst ps)) ps"
  let ?q = "drift dt ?k"
  have l: "length (force (map fst ps)) = length ps" "length ?k = n" "length ?q = n"
    using assms by (simp_all add: force_length)
  have lq: "length (force (map fst ?q)) = length ?q" by (simp add: force_length)
  have "mass_moment m (leap force dt ps) = mass_moment m ?q"
    unfolding mass_moment_def leap_def Let_def
    using lq by (intro vsum_cong) (auto simp: kick_nth)
  also have "\<dots> = vsum (\<lambda>i. mw_addv (mw_mulvs (fst (ps ! i)) (m i)) (mw_mulvs (mw_mulvs (snd (?k ! i)) (m i)) dt)) {..<n}"
    unfolding mass_moment_def using l assms
    by (intro vsum_cong) (auto simp: drift_nth kick_nth[OF l(1)] vec_defs algebra_simps)
  also have "\<dots> = mw_addv (mass_moment m ps) (mw_mulvs (momentum m ?k) dt)"
    using assms l by (simp add: vsum_addv vsum_mulvs mass_moment_def momentum_def)
  finally show ?thesis by (simp add: kick_momentum[OF assms])
qed

lemma leaps_conserve:
  assumes "length ps = n"
  shows "momentum m ((leap force dt ^^ k) ps) = momentum m ps
    \<and> angular_momentum m ((leap force dt ^^ k) ps) = angular_momentum m ps
    \<and> length ((leap force dt ^^ k) ps) = n"
  by (induction k) (use assms leap_conserves in auto)

end

end
