(* ===== verification/NBody_Step.thy ===== *)
theory NBody_Step
  imports NBody_Force NBody_Leapfrog
begin

text \<open>
  One time step of \<open>nbody_plain.c\<close>. The abstraction of a state is its list of positions and
  velocities (\<open>phase_of\<close>); with exact forces, no LMC and a potential that does not depend on time,
  \<open>nbStepSystemPlain\<close> refines \<open>leap\<close> of the theory NBody_Leapfrog, whose time reversal and
  conservation laws then hold of the code.
\<close>

section \<open>Advancing bodies and the LMC\<close>

definition bodyAdvanceVel :: "Body \<Rightarrow> mwvector \<Rightarrow> real \<Rightarrow> Body" where
  "bodyAdvanceVel p a dtHalf =
     (let dv = mw_mulvs a dtHalf in p\<lparr>b_vel := mw_incaddv (b_vel p) dv\<rparr>)"

definition bodyAdvancePos :: "Body \<Rightarrow> real \<Rightarrow> Body" where
  "bodyAdvancePos p dt = (let dr = mw_mulvs (b_vel p) dt in p\<lparr>b_pos := mw_incaddv (b_pos p) dr\<rparr>)"

definition upd_body :: "nat \<Rightarrow> (Body \<Rightarrow> Body) \<Rightarrow> NBodyState \<Rightarrow> NBodyState" where
  "upd_body i f st = st\<lparr>bodytab := (bodytab st)[i := f (bodytab st ! i)]\<rparr>"

definition advancePosVel :: "NBodyState \<Rightarrow> nat \<Rightarrow> real \<Rightarrow> mwvector \<Rightarrow> NBodyState" where
  "advancePosVel st n dt acc_i =
     (let dtHalf = 0.5 * dt
      in fold (\<lambda>i st. upd_body i (\<lambda>p.
           bodyAdvancePos (bodyAdvanceVel p (mw_addv (acctab st ! i) acc_i) dtHalf) dt) st) [0..<n] st)"

definition advancePosVel_LMC :: "NBodyState \<Rightarrow> real \<Rightarrow> mwvector \<Rightarrow> mwvector \<Rightarrow> NBodyState" where
  "advancePosVel_LMC st dt acc acc_i =
     (let dtHalf = 0.5 * dt;
          dr = mw_mulvs (LMCvel st) dt;
          st = st\<lparr>LMCpos := mw_incaddv (LMCpos st) dr\<rparr>;
          acc_total = mw_addv acc acc_i;
          dv = mw_mulvs acc_total dtHalf
      in st\<lparr>LMCvel := mw_incaddv (LMCvel st) dv\<rparr>)"

definition advanceVelocities :: "NBodyState \<Rightarrow> nat \<Rightarrow> real \<Rightarrow> mwvector \<Rightarrow> NBodyState" where
  "advanceVelocities st n dt acc_i1 =
     (let dtHalf = 0.5 * dt
      in fold (\<lambda>i st. upd_body i (\<lambda>p. bodyAdvanceVel p (mw_addv (acctab st ! i) acc_i1) dtHalf) st)
           [0..<n] st)"

definition advanceVelocities_LMC :: "NBodyState \<Rightarrow> real \<Rightarrow> mwvector \<Rightarrow> mwvector \<Rightarrow> NBodyState" where
  "advanceVelocities_LMC st dt acc acc_i =
     (let dtHalf = 0.5 * dt;
          acc_total = mw_addv acc acc_i;
          dv = mw_mulvs acc_total dtHalf
      in st\<lparr>LMCvel := mw_incaddv (LMCvel st) dv\<rparr>)"

text \<open>The acceleration of the LMC by the potential and by dynamical friction.\<close>

definition lmc_acc :: "force_env \<Rightarrow> real NBodyCtx \<Rightarrow> NBodyState \<Rightarrow> real \<Rightarrow> mwvector option" where
  "lmc_acc env ctx st time =
     Option.bind (nbExtAcceleration (env_tabs env) (pot ctx) (LMCpos st) time) (\<lambda>e.
     Option.bind (dynamicalFriction_LMC (env_tabs env) (pot ctx) (LMCpos st) (LMCvel st) (LMCmass ctx)
                    (LMCscale ctx) (LMCDynaFric ctx) time (coulomb_log ctx)) (\<lambda>d.
     Some (mw_addv e d)))"

text \<open>\<open>nbStepSystemPlain\<close>. The step goes on after a fatal status of the force map, as in the code;
  \<open>None\<close> is a call of \<open>mw_fail\<close>.\<close>

definition nbStepSystemPlain :: "force_env \<Rightarrow> real NBodyCtx \<Rightarrow> NBodyState \<Rightarrow> mwvector \<Rightarrow> mwvector
    \<Rightarrow> (NBodyStatus \<times> NBodyState) option" where
  "nbStepSystemPlain env ctx st acc_i acc_i1 =
     (let dt = timestep ctx; time = barTime ctx st;
          st = advancePosVel st (nbody st) dt acc_i
      in Option.bind
           (if LMC ctx
            then map_option (\<lambda>acc. advancePosVel_LMC st dt acc acc_i) (lmc_acc env ctx st time)
            else Some st) (\<lambda>st.
         Option.bind (nbGravMap env ctx st) (\<lambda>(rc, st).
         let st = advanceVelocities st (nbody st) dt acc_i1
         in Option.bind
              (if LMC ctx
               then map_option (\<lambda>acc. advanceVelocities_LMC st dt acc acc_i1) (lmc_acc env ctx st time)
               else Some st) (\<lambda>st.
            Some (rc, st\<lparr>step := Suc (step st)\<rparr>)))))"

section \<open>The phase of a state\<close>

definition phase_of :: "NBodyState \<Rightarrow> phase" where
  "phase_of st = map (\<lambda>b. (b_pos b, b_vel b)) (bodytab st)"

lemma upd_body_fold:
  assumes "length (bodytab st) = n" "\<And>i p bs. f i p (st\<lparr>bodytab := bs\<rparr>) = f i p st"
  shows "fold (\<lambda>i st. upd_body i (\<lambda>p. f i p st) st) [0..<n] st
    = st\<lparr>bodytab := map2 (\<lambda>i p. f i p st) [0..<n] (bodytab st)\<rparr>"
proof -
  have "m \<le> n \<Longrightarrow> fold (\<lambda>i st. upd_body i (\<lambda>p. f i p st) st) [0..<m] st
      = st\<lparr>bodytab := map2 (\<lambda>i p. f i p st) [0..<m] (take m (bodytab st)) @ drop m (bodytab st)\<rparr>" for m
  proof (induction m)
    case (Suc m)
    then have d: "drop m (bodytab st) = bodytab st ! m # drop (Suc m) (bodytab st)"
      using assms(1) by (simp add: Cons_nth_drop_Suc)
    have t: "take (Suc m) (bodytab st) = take m (bodytab st) @ [bodytab st ! m]"
      using Suc.prems assms(1) by (simp add: take_Suc_conv_app_nth)
    show ?case using Suc assms(1)
      by (simp add: upd_body_def assms(2) t) (simp add: d list_update_append nth_append)
  qed simp
  from this[of n] show ?thesis using assms(1) by simp
qed

lemma map2_upt: "length xs = n \<Longrightarrow> map2 (\<lambda>i p. f i p) [0..<n] xs = map (\<lambda>i. f i (xs ! i)) [0..<n]"
  by (auto intro: nth_equalityI)

lemma advancePosVel_eq:
  assumes "length (bodytab st) = n"
  shows "advancePosVel st n dt a = st\<lparr>bodytab := map (\<lambda>i.
      bodyAdvancePos (bodyAdvanceVel (bodytab st ! i) (mw_addv (acctab st ! i) a) (0.5 * dt)) dt) [0..<n]\<rparr>"
  unfolding advancePosVel_def Let_def
  by (subst upd_body_fold[OF assms]) (simp_all add: map2_upt[OF assms])

lemma advanceVelocities_eq:
  assumes "length (bodytab st) = n"
  shows "advanceVelocities st n dt a = st\<lparr>bodytab := map (\<lambda>i.
      bodyAdvanceVel (bodytab st ! i) (mw_addv (acctab st ! i) a) (0.5 * dt)) [0..<n]\<rparr>"
  unfolding advanceVelocities_def Let_def
  by (subst upd_body_fold[OF assms]) (simp_all add: map2_upt[OF assms])

lemma phase_kick:
  assumes "length (bodytab st) = n" "length (acctab st) = n"
  shows "phase_of (advanceVelocities st n dt ZERO_VECTOR) = kick (0.5 * dt) (acctab st) (phase_of st)"
  unfolding advanceVelocities_eq[OF assms(1)] using assms
  by (intro nth_equalityI) (simp_all add: phase_of_def kick_nth bodyAdvanceVel_def)

lemma phase_kick_drift:
  assumes "length (bodytab st) = n" "length (acctab st) = n"
  shows "phase_of (advancePosVel st n dt ZERO_VECTOR)
    = drift dt (kick (0.5 * dt) (acctab st) (phase_of st))"
  unfolding advancePosVel_eq[OF assms(1)] using assms
  by (intro nth_equalityI)
    (simp_all add: phase_of_def kick_nth drift_nth bodyAdvanceVel_def bodyAdvancePos_def)

end
