(* ===== verification/NBody_Conserve.thy ===== *)
theory NBody_Conserve
  imports NBody_Step
begin

text \<open>
  What a step of \<open>nbStepSystemPlain\<close> does to positions and velocities. The field of
  \<open>nbGravity_Exact\<close> interprets \<open>balanced_field\<close>, the field with an external potential interprets
  \<open>force_field\<close>; the step refines \<open>leap\<close> of that field.
\<close>

section \<open>The exact field\<close>

definition grav_field :: "real \<Rightarrow> real list \<Rightarrow> mwvector list \<Rightarrow> mwvector list" where
  "grav_field e2 ms xs =
     map (\<lambda>i. vsum (\<lambda>j. pair_accel e2 (mw_subv (xs ! j) (xs ! i)) (ms ! j)) {..<length xs}) [0..<length xs]"

lemma sqrv_neg: "mw_sqrv (mw_subv a b) = mw_sqrv (mw_subv b a)"
  by (simp add: vec_defs algebra_simps)

lemma pair_accel_kernel:
  "pair_accel e2 dr m = mw_mulvs dr (m * (1 / (sqrt (mw_sqrv dr + e2) * (mw_sqrv dr + e2))))"
  by (simp add: pair_accel_def Let_def)

text \<open>Newton's third law, and its torque.\<close>

lemma pair_accel_swap:
  "mw_mulvs (pair_accel e2 (mw_subv a b) m) m' = mw_negv (mw_mulvs (pair_accel e2 (mw_subv b a) m') m)"
proof -
  define k where "k = 1 / (sqrt (mw_sqrv (mw_subv b a) + e2) * (mw_sqrv (mw_subv b a) + e2))"
  show ?thesis unfolding pair_accel_kernel sqrv_neg[of a b] k_def[symmetric]
    by (simp add: mw_mulvs_def mw_negv_def mw_subv_def algebra_simps)
qed

lemma pair_torque_swap:
  "mw_mulvs (mw_crossv b (pair_accel e2 (mw_subv a b) m)) m'
   = mw_negv (mw_mulvs (mw_crossv a (pair_accel e2 (mw_subv b a) m')) m)"
proof -
  define k where "k = 1 / (sqrt (mw_sqrv (mw_subv b a) + e2) * (mw_sqrv (mw_subv b a) + e2))"
  show ?thesis unfolding pair_accel_kernel sqrv_neg[of a b] k_def[symmetric]
    by (simp add: mw_mulvs_def mw_negv_def mw_subv_def mw_crossv_def algebra_simps)
qed

lemma vsum_crossv: "mw_crossv a (vsum f A) = vsum (\<lambda>i. mw_crossv a (f i)) A"
  by (simp add: vsum_def mw_crossv_def sum_distrib_left sum_distrib_right sum_subtractf)

interpretation gf: balanced_field "grav_field e2 ms" "\<lambda>i. ms ! i" n for e2 ms n
proof
  fix xs :: "mwvector list"
  show "length (grav_field e2 ms xs) = length xs" by (simp add: grav_field_def)
  assume n: "length xs = n"
  have f: "grav_field e2 ms xs ! i
      = vsum (\<lambda>j. pair_accel e2 (mw_subv (xs ! j) (xs ! i)) (ms ! j)) {..<n}" if "i < n" for i
    using that n by (simp add: grav_field_def)
  have "vsum (\<lambda>i. mw_mulvs (grav_field e2 ms xs ! i) (ms ! i)) {..<n}
      = vsum (\<lambda>i. vsum (\<lambda>j. mw_mulvs (pair_accel e2 (mw_subv (xs ! j) (xs ! i)) (ms ! j)) (ms ! i)) {..<n}) {..<n}"
    by (intro vsum_cong) (simp_all add: f vsum_mulvs)
  also have "\<dots> = ZERO_VECTOR" by (rule antisym_vsum) (rule pair_accel_swap)
  finally show "vsum (\<lambda>i. mw_mulvs (grav_field e2 ms xs ! i) (ms ! i)) {..<n} = ZERO_VECTOR" .
  have "vsum (\<lambda>i. mw_mulvs (mw_crossv (xs ! i) (grav_field e2 ms xs ! i)) (ms ! i)) {..<n}
      = vsum (\<lambda>i. vsum (\<lambda>j. mw_mulvs (mw_crossv (xs ! i)
          (pair_accel e2 (mw_subv (xs ! j) (xs ! i)) (ms ! j))) (ms ! i)) {..<n}) {..<n}"
    by (intro vsum_cong) (simp_all add: f vsum_mulvs vsum_crossv)
  also have "\<dots> = ZERO_VECTOR" by (rule antisym_vsum) (rule pair_torque_swap)
  finally show "vsum (\<lambda>i. mw_mulvs (mw_crossv (xs ! i) (grav_field e2 ms xs ! i)) (ms ! i)) {..<n} = ZERO_VECTOR" .
qed

section \<open>With an external potential\<close>

text \<open>
  The contexts for which the force on a body depends on nothing but positions and masses: exact
  forces with a positive softening (as the validation of the parameters asks for: without it the term of
  a body with itself is 0/0), no LMC, and no external potential or a valid one without an orbiting bar.
\<close>

definition static_ctx :: "real NBodyCtx \<Rightarrow> bool" where
  "static_ctx ctx \<longleftrightarrow> criterion ctx = Exact \<and> 0 < eps2 ctx \<and> \<not> LMC ctx
     \<and> (potentialType ctx = EXTERNAL_POTENTIAL_NONE
        \<or> potentialType ctx = EXTERNAL_POTENTIAL_DEFAULT \<and> accel_types_ok (pot ctx)
          \<and> d_type (p_disk2 (pot ctx)) \<noteq> OrbitingBar)"

definition ext_field :: "force_env \<Rightarrow> real NBodyCtx \<Rightarrow> mwvector \<Rightarrow> mwvector" where
  "ext_field env ctx p =
     (if potentialType ctx = EXTERNAL_POTENTIAL_NONE then ZERO_VECTOR
      else the (nbExtAcceleration (env_tabs env) (pot ctx) p 0))"

definition total_field :: "force_env \<Rightarrow> real NBodyCtx \<Rightarrow> real list \<Rightarrow> mwvector list \<Rightarrow> mwvector list" where
  "total_field env ctx ms xs = map2 (\<lambda>g x. mw_addv g (ext_field env ctx x)) (grav_field (eps2 ctx) ms xs) xs"

interpretation tf: force_field "total_field env ctx ms" for env ctx ms
  by unfold_locales (simp add: total_field_def gf.force_length)

lemma total_field_isolated:
  assumes "potentialType ctx = EXTERNAL_POTENTIAL_NONE"
  shows "total_field env ctx ms xs = grav_field (eps2 ctx) ms xs"
  using assms by (intro nth_equalityI) (simp_all add: total_field_def ext_field_def gf.force_length)

lemma static_ext_acc:
  assumes "static_ctx ctx"
  shows "ext_acc env ctx st p = Some (ext_field env ctx p)"
proof (cases "potentialType ctx = EXTERNAL_POTENTIAL_NONE")
  case False
  then have ok: "accel_types_ok (pot ctx)" "d_type (p_disk2 (pot ctx)) \<noteq> OrbitingBar" "\<not> LMC ctx"
    using assms by (auto simp: static_ctx_def)
  obtain e where e: "nbExtAcceleration (env_tabs env) (pot ctx) p 0 = Some e"
    using ok(1) nbExtAcceleration_None_iff[of "env_tabs env" "pot ctx" p 0] by auto
  have "nbExtAcceleration (env_tabs env) (pot ctx) p (barTime ctx st) = Some e"
    using nbExtAcceleration_static[OF ok(2)] e by metis
  moreover have "lmc_pull ctx st p = ZERO_VECTOR"
    using ok(3) by (simp add: lmc_pull_def plummerAccel_def Let_def vec_defs)
  ultimately show ?thesis using False e by (simp add: ext_acc_def ext_field_def)
qed (simp add: ext_acc_def ext_field_def)

lemma nbGravity_Exact_vsum:
  "nbGravity_Exact ctx st p
   = vsum (\<lambda>i. pair_accel (eps2 ctx) (mw_subv (b_pos (bodytab st ! i)) (b_pos (bodytab st ! p)))
              (b_mass (bodytab st ! i))) {..<nbody st}"
proof -
  have "nbGravity_Exact ctx st p = fold (\<lambda>i a. mw_addv a (pair_accel (eps2 ctx)
      (mw_subv (b_pos (bodytab st ! i)) (b_pos (bodytab st ! p))) (b_mass (bodytab st ! i)))) [0..<nbody st] ZERO_VECTOR"
    by (simp add: nbGravity_Exact_def pair_accel_def Let_def)
  then show ?thesis by (subst (asm) fold_addv_vsum) (simp_all add: atLeast0LessThan)
qed

definition masses :: "NBodyState \<Rightarrow> real list" where
  "masses st = map b_mass (bodytab st)"

definition positions :: "NBodyState \<Rightarrow> mwvector list" where
  "positions st = map b_pos (bodytab st)"

lemma positions_phase: "positions st = map fst (phase_of st)"
  by (simp add: positions_def phase_of_def)

text \<open>The accelerations in \<open>acctab\<close> are those of the present positions.\<close>

definition forces_current :: "force_env \<Rightarrow> real NBodyCtx \<Rightarrow> NBodyState \<Rightarrow> bool" where
  "forces_current env ctx st \<longleftrightarrow> acctab st = total_field env ctx (masses st) (positions st)"

lemma static_force:
  assumes "static_ctx ctx" "length (bodytab st) = nbody st" "i < nbody st"
  shows "exact_force env ctx st i = Some (total_field env ctx (masses st) (positions st) ! i)"
  using assms(2,3)
  by (simp add: exact_force_def static_ext_acc[OF assms(1)] total_field_def gf.force_length
      nbGravity_Exact_vsum grav_field_def positions_def masses_def)
    (intro arg_cong2[where f = mw_addv] vsum_cong, auto)

lemma static_nbGravMap:
  assumes "static_ctx ctx" "length (bodytab st) = nbody st" "length (acctab st) = nbody st"
  shows "nbGravMap env ctx st = Some (force_status ctx st,
      st\<lparr>acctab := total_field env ctx (masses st) (positions st)\<rparr>)"
proof -
  have c: "criterion ctx = Exact" "potentialType ctx \<noteq> EXTERNAL_POTENTIAL_CUSTOM_LUA"
    using assms(1) by (auto simp: static_ctx_def)
  have "map (\<lambda>i. the (exact_force env ctx st i)) [0..<nbody st] = total_field env ctx (masses st) (positions st)"
    using assms static_force[OF assms(1,2)]
    by (intro nth_equalityI) (simp_all add: tf.force_length positions_def)
  then show ?thesis
    using nbGravMap_Exact_eq[OF c assms(3), of env] static_force[OF assms(1,2)] by simp
qed

section \<open>The step refines the leapfrog\<close>

definition ready :: "force_env \<Rightarrow> real NBodyCtx \<Rightarrow> NBodyState \<Rightarrow> bool" where
  "ready env ctx st \<longleftrightarrow> length (bodytab st) = nbody st \<and> length (acctab st) = nbody st
     \<and> forces_current env ctx st"

lemma static_step:
  assumes s: "static_ctx ctx" and r: "ready env ctx st"
  shows "\<exists>bs as. nbStepSystemPlain env ctx st ZERO_VECTOR ZERO_VECTOR
           = Some (force_status ctx st, st\<lparr>bodytab := bs, acctab := as, step := Suc (step st)\<rparr>)
     \<and> ready env ctx (st\<lparr>bodytab := bs, acctab := as, step := Suc (step st)\<rparr>)
     \<and> map b_mass bs = masses st
     \<and> map (\<lambda>b. (b_pos b, b_vel b)) bs = leap (total_field env ctx (masses st)) (timestep ctx) (phase_of st)"
proof -
  let ?dt = "timestep ctx" and ?n = "nbody st"
  define s1 where "s1 = advancePosVel st ?n ?dt ZERO_VECTOR"
  define as where "as = total_field env ctx (masses s1) (positions s1)"
  define s2 where "s2 = s1\<lparr>acctab := as\<rparr>"
  define s3 where "s3 = advanceVelocities s2 ?n ?dt ZERO_VECTOR"
  have l: "length (bodytab st) = ?n" "length (acctab st) = ?n" and fc: "forces_current env ctx st"
    using r by (simp_all add: ready_def)
  note e1 = advancePosVel_eq[OF l(1), of ?dt ZERO_VECTOR, folded s1_def]
  have l1: "length (bodytab s1) = ?n" "nbody s1 = ?n" "length (acctab s1) = ?n" "LMC ctx = False"
    using s l by (simp_all add: e1 static_ctx_def)
  have las: "length as = ?n" using l1 by (simp add: as_def tf.force_length positions_def)
  have l2: "length (bodytab s2) = ?n" "length (acctab s2) = ?n" using l1 las by (simp_all add: s2_def)
  note e3 = advanceVelocities_eq[OF l2(1), of ?dt ZERO_VECTOR, folded s3_def]
  have m1: "masses s1 = masses st"
    unfolding e1 using l by (auto simp: masses_def bodyAdvancePos_def bodyAdvanceVel_def intro: nth_equalityI)
  have m3: "masses s3 = masses st"
    unfolding m1[symmetric] e3 using l2
    by (auto simp: masses_def bodyAdvanceVel_def s2_def intro: nth_equalityI)
  have p3: "positions s3 = positions s1"
    unfolding e3 using l2 by (auto simp: positions_def bodyAdvanceVel_def s2_def intro: nth_equalityI)
  have g: "nbGravMap env ctx s1 = Some (force_status ctx s1, s2)"
    unfolding s2_def as_def by (rule static_nbGravMap[OF s]) (use l1 in auto)
  have fs: "force_status ctx s1 = force_status ctx st"
    by (simp add: e1 force_status_def nbIncestStatusCheck_def)
  have eq: "s3 = st\<lparr>bodytab := bodytab s3, acctab := as\<rparr>"
    unfolding e3 by (simp add: s2_def e1)
  have step: "nbStepSystemPlain env ctx st ZERO_VECTOR ZERO_VECTOR
      = Some (force_status ctx st, s3\<lparr>step := Suc (step s3)\<rparr>)"
    using l1 by (simp add: nbStepSystemPlain_def Let_def s1_def[symmetric] g fs s3_def s2_def)
  have ph: "phase_of s3 = leap (total_field env ctx (masses st)) ?dt (phase_of st)"
  proof -
    have ph1: "phase_of s1 = drift ?dt (kick (0.5 * ?dt) (acctab st) (phase_of st))"
      unfolding s1_def by (rule phase_kick_drift[OF l])
    have "phase_of s3 = kick (0.5 * ?dt) as (phase_of s1)"
      unfolding s3_def using phase_kick[OF l2] by (simp add: s2_def phase_of_def)
    then show ?thesis
      using ph1 fc unfolding leap_def Let_def
      by (simp add: as_def m1 forces_current_def positions_phase)
  qed
  have rd: "ready env ctx (st\<lparr>bodytab := bodytab s3, acctab := as, step := Suc (step st)\<rparr>)"
    using las m3 p3 m1 l2 e3
    by (simp add: ready_def forces_current_def masses_def positions_def as_def)
  have "s3\<lparr>step := Suc (step s3)\<rparr> = st\<lparr>bodytab := bodytab s3, acctab := as, step := Suc (step st)\<rparr>"
    by (subst eq, subst (2) eq) simp
  then show ?thesis
    using step rd m3 ph by (intro exI[of _ "bodytab s3"] exI[of _ as]) (simp add: masses_def phase_of_def)
qed

end
