(* ===== verification/NBody_Dynamics.thy ===== *)
theory NBody_Dynamics
  imports NBody_Conserve
begin

text \<open>
  Consequences of the refinement of NBody_Conserve for runs of many steps of
  \<open>nbStepSystemPlain\<close>: conservation of momentum and angular momentum, uniform motion of the centre
  of mass, and time reversal; and the order in which a step moves the LMC.
\<close>

section \<open>Runs of steps\<close>

text \<open>The first \<open>n\<close> steps of a run without LMC, the steps' statuses left out.\<close>

fun step_many :: "force_env \<Rightarrow> real NBodyCtx \<Rightarrow> nat \<Rightarrow> NBodyState \<Rightarrow> NBodyState option" where
  "step_many env ctx 0 st = Some st"
| "step_many env ctx (Suc n) st =
     Option.bind (nbStepSystemPlain env ctx st ZERO_VECTOR ZERO_VECTOR) (\<lambda>(rc, st). step_many env ctx n st)"

lemma static_steps:
  assumes "static_ctx ctx" "ready env ctx st"
  obtains st' where "step_many env ctx n st = Some st'" "ready env ctx st'" "masses st' = masses st"
    "step st' = step st + n" "nbody st' = nbody st"
    "phase_of st' = (leap (total_field env ctx (masses st)) (timestep ctx) ^^ n) (phase_of st)"
  using assms(2)
proof (induction n arbitrary: st thesis)
  case 0
  then show ?case by simp
next
  case (Suc n)
  obtain bs as where s: "nbStepSystemPlain env ctx st ZERO_VECTOR ZERO_VECTOR
        = Some (force_status ctx st, st\<lparr>bodytab := bs, acctab := as, step := Suc (step st)\<rparr>)"
      "ready env ctx (st\<lparr>bodytab := bs, acctab := as, step := Suc (step st)\<rparr>)"
      "map b_mass bs = masses st"
      "map (\<lambda>b. (b_pos b, b_vel b)) bs = leap (total_field env ctx (masses st)) (timestep ctx) (phase_of st)"
    using static_step[OF assms(1) Suc.prems(2)] by blast
  let ?st = "st\<lparr>bodytab := bs, acctab := as, step := Suc (step st)\<rparr>"
  obtain st' where i: "step_many env ctx n ?st = Some st'" "ready env ctx st'" "masses st' = masses ?st"
    "step st' = step ?st + n" "nbody st' = nbody ?st"
    "phase_of st' = (leap (total_field env ctx (masses ?st)) (timestep ctx) ^^ n) (phase_of ?st)"
    by (rule Suc.IH[OF _ s(2)])
  have m: "masses ?st = masses st" using s(3) by (simp add: masses_def)
  show ?case
  proof (rule Suc.prems(1))
    show "phase_of st' = (leap (total_field env ctx (masses st)) (timestep ctx) ^^ Suc n) (phase_of st)"
      using i(6) s(4) unfolding m by (simp add: phase_of_def funpow_swap1)
  qed (use i s m in simp_all)
qed

text \<open>C4: one step refines the leapfrog. With exact forces, no LMC and a potential that does not
  change with time, and with the accelerations of the present positions in \<open>acctab\<close>,
  \<open>nbStepSystemPlain\<close> returns; on positions and velocities it is the abstract kick-drift-kick step in
  the field of the bodies and the potential, it keeps masses, counts the step, and leaves the
  accelerations of the new positions for the next step. Bodies change in nothing else.\<close>

theorem nbStepSystemPlain_is_leapfrog:
  assumes "static_ctx ctx" "ready env ctx st"
  shows "\<exists>bs as. nbStepSystemPlain env ctx st ZERO_VECTOR ZERO_VECTOR
           = Some (force_status ctx st, st\<lparr>bodytab := bs, acctab := as, step := Suc (step st)\<rparr>)
     \<and> ready env ctx (st\<lparr>bodytab := bs, acctab := as, step := Suc (step st)\<rparr>)
     \<and> map b_mass bs = masses st
     \<and> map (\<lambda>b. (b_pos b, b_vel b)) bs = leap (total_field env ctx (masses st)) (timestep ctx) (phase_of st)"
  by (rule static_step[OF assms])

section \<open>Conservation\<close>

text \<open>C8: conservation laws of an isolated system. With exact forces and a positive softening, no external
  potential and no LMC, any number of steps returns, keeps total momentum and total angular momentum exactly, and
  moves the centre of mass with constant velocity.\<close>

theorem isolated_system_conserves:
  assumes "criterion ctx = Exact" "potentialType ctx = EXTERNAL_POTENTIAL_NONE" "\<not> LMC ctx"
    and "0 < eps2 ctx" "ready env ctx st"
  defines "m \<equiv> \<lambda>i. b_mass (bodytab st ! i)"
  shows "\<exists>st'. step_many env ctx n st = Some st'
    \<and> momentum m (phase_of st') = momentum m (phase_of st)
    \<and> angular_momentum m (phase_of st') = angular_momentum m (phase_of st)
    \<and> mass_moment m (phase_of st')
        = mw_addv (mass_moment m (phase_of st)) (mw_mulvs (momentum m (phase_of st)) (real n * timestep ctx))"
proof -
  have s: "static_ctx ctx" using assms by (simp add: static_ctx_def)
  obtain st' where st': "step_many env ctx n st = Some st'"
    "phase_of st' = (leap (grav_field (eps2 ctx) (masses st)) (timestep ctx) ^^ n) (phase_of st)"
    by (rule static_steps[OF s assms(5)]) (simp add: total_field_isolated[OF assms(2), abs_def])
  define N where "N = length (phase_of st)"
  define m' where "m' = (\<lambda>i. masses st ! i)"
  have l: "length (phase_of st) = N" by (simp add: N_def)
  let ?L = "leap (grav_field (eps2 ctx) (masses st)) (timestep ctx)"
  note c = gf.leaps_conserve[OF l, where ms = "masses st", folded m'_def]
  have mm: "mass_moment m' ((?L ^^ k) (phase_of st))
      = mw_addv (mass_moment m' (phase_of st)) (mw_mulvs (momentum m' (phase_of st)) (real k * timestep ctx))" for k
  proof (induction k)
    case (Suc k)
    have "mass_moment m' ((?L ^^ Suc k) (phase_of st)) = mw_addv (mass_moment m' ((?L ^^ k) (phase_of st)))
        (mw_mulvs (momentum m' ((?L ^^ k) (phase_of st))) (timestep ctx))"
      using gf.leap_mass_moment[of "(?L ^^ k) (phase_of st)" N "masses st"] c by (simp add: m'_def)
    then show ?case using c by (simp add: Suc.IH vec_defs algebra_simps)
  qed (simp add: vec_defs)
  have nth: "m' i = m i" if "i < N" for i
    using that by (simp add: m'_def m_def masses_def N_def phase_of_def)
  have len': "length (phase_of st') = N" using st'(2) c by simp
  have eq: "momentum m' ps = momentum m ps" "angular_momentum m' ps = angular_momentum m ps"
    "mass_moment m' ps = mass_moment m ps" if "length ps = N" for ps
    unfolding momentum_def angular_momentum_def mass_moment_def
    by (rule vsum_cong; simp add: nth that)+
  show ?thesis
    using st' c[of n] mm[of n] eq[OF l] eq[OF len'] by (intro exI[of _ st']) simp
qed

section \<open>Time reversal\<close>

definition reverse_velocities :: "NBodyState \<Rightarrow> NBodyState" where
  "reverse_velocities st = st\<lparr>bodytab := map (\<lambda>b. b\<lparr>b_vel := mw_negv (b_vel b)\<rparr>) (bodytab st)\<rparr>"

lemma reverse_velocities_simps:
  "phase_of (reverse_velocities st) = reversed (phase_of st)"
  "masses (reverse_velocities st) = masses st"
  "ready env ctx (reverse_velocities st) = ready env ctx st"
  by (auto simp: reverse_velocities_def phase_of_def reversed_def masses_def ready_def
      forces_current_def positions_def comp_def)

text \<open>C9: the integrator is reversible. With exact forces (and a positive softening), no LMC and a static
  potential, without an orbiting bar, and from a state with current accelerations, running
  \<open>n\<close> steps, turning all velocities round, running \<open>n\<close> steps and turning them round again gives
  the initial positions and velocities back exactly.\<close>

theorem steps_reversible:
  assumes "static_ctx ctx" "ready env ctx st"
  shows "\<exists>st1 st2. step_many env ctx n st = Some st1
    \<and> step_many env ctx n (reverse_velocities st1) = Some st2
    \<and> phase_of (reverse_velocities st2) = phase_of st \<and> masses st2 = masses st"
proof -
  obtain st1 where st1: "step_many env ctx n st = Some st1" "ready env ctx st1" "masses st1 = masses st"
    "phase_of st1 = (leap (total_field env ctx (masses st)) (timestep ctx) ^^ n) (phase_of st)"
    by (rule static_steps[OF assms])
  have "ready env ctx (reverse_velocities st1)" using st1(2) by (simp add: reverse_velocities_simps)
  from static_steps[OF assms(1) this, of n] obtain st2 where
    st2: "step_many env ctx n (reverse_velocities st1) = Some st2"
      "masses st2 = masses (reverse_velocities st1)"
      "phase_of st2 = (leap (total_field env ctx (masses (reverse_velocities st1))) (timestep ctx) ^^ n)
         (phase_of (reverse_velocities st1))"
    by blast
  have "phase_of st2 = reversed (phase_of st)"
    unfolding st2(3) reverse_velocities_simps(1,2) st1(3,4) by (rule tf.leaps_reversed)
  then show ?thesis using st1(1,3) st2(1,2)
    by (intro exI[of _ st1] exI[of _ st2]) (simp add: reverse_velocities_simps)
qed

section \<open>A sample run\<close>

definition sample_env :: force_env where
  "sample_env = \<lparr>env_reint = (\<lambda>_. zero_quad), env_tabs = \<lparr>aExp_tab = (\<lambda>_ _. 0), bExp_tab = (\<lambda>_ _. 0)\<rparr>,
     env_closure = (\<lambda>_. None)\<rparr>"

definition isolated_ctx :: "real NBodyCtx" where
  "isolated_ctx = exact_ctx\<lparr>criterion := Exact, potentialType := EXTERNAL_POTENTIAL_NONE, timestep := 1/8\<rparr>"

definition halo_ctx :: "real NBodyCtx" where
  "halo_ctx = exact_ctx\<lparr>criterion := Exact, pot := halo_only, timestep := 1/8\<rparr>"

definition ready_pair :: "real NBodyCtx \<Rightarrow> NBodyState" where
  "ready_pair ctx = pair_state\<lparr>acctab := total_field sample_env ctx (masses pair_state) (positions pair_state)\<rparr>"

lemma ready_pair: "ready sample_env ctx (ready_pair ctx)"
  by (simp add: ready_pair_def ready_def forces_current_def masses_def positions_def tf.force_length
      pair_state_simps)

lemma sample_ctxs: "criterion isolated_ctx = Exact" "potentialType isolated_ctx = EXTERNAL_POTENTIAL_NONE"
  "\<not> LMC isolated_ctx" "static_ctx halo_ctx" "0 < eps2 isolated_ctx"
  using halo_only_ok
  by (simp_all add: isolated_ctx_def halo_ctx_def static_ctx_def exact_ctx_def defaultNBodyCtx_def)

theorem nbStepSystemPlain_is_leapfrog_witness:
  "\<exists>st'. nbStepSystemPlain sample_env halo_ctx (ready_pair halo_ctx) ZERO_VECTOR ZERO_VECTOR
      = Some (force_status halo_ctx (ready_pair halo_ctx), st') \<and> ready sample_env halo_ctx st'"
  using nbStepSystemPlain_is_leapfrog[OF sample_ctxs(4) ready_pair] by blast

theorem isolated_system_conserves_witness:
  "\<exists>st'. step_many sample_env isolated_ctx 1000 (ready_pair isolated_ctx) = Some st'
     \<and> momentum (\<lambda>i. b_mass (bodytab (ready_pair isolated_ctx) ! i)) (phase_of st')
       = momentum (\<lambda>i. b_mass (bodytab (ready_pair isolated_ctx) ! i)) (phase_of (ready_pair isolated_ctx))"
  using isolated_system_conserves[OF sample_ctxs(1-3,5) ready_pair, of 1000] by blast

theorem steps_reversible_witness:
  "\<exists>st1 st2. step_many sample_env halo_ctx 1000 (ready_pair halo_ctx) = Some st1
    \<and> step_many sample_env halo_ctx 1000 (reverse_velocities st1) = Some st2
    \<and> phase_of (reverse_velocities st2) = phase_of (ready_pair halo_ctx)"
  using steps_reversible[OF sample_ctxs(4) ready_pair, of 1000] by blast

section \<open>The LMC\<close>

text \<open>The LMC is not integrated like the bodies. In the first half of a step a body is kicked
  before it drifts; \<open>advancePosVel_LMC\<close> drifts with the old velocity and kicks afterwards. A body
  with the position, the velocity and the acceleration of the LMC gets the same velocity, but ends
  half the acceleration times the square of the time step away from it.\<close>

theorem lmc_drifts_before_kick:
  assumes "length (bodytab st) = n" "i < n" "b_pos (bodytab st ! i) = LMCpos st"
    and "b_vel (bodytab st ! i) = LMCvel st"
  shows "b_vel (bodytab (advancePosVel st n dt a) ! i)
         = LMCvel (advancePosVel_LMC st dt (acctab st ! i) a)
    \<and> b_pos (bodytab (advancePosVel st n dt a) ! i)
      = mw_addv (LMCpos (advancePosVel_LMC st dt (acctab st ! i) a))
                (mw_mulvs (mw_addv (acctab st ! i) a) (dt\<^sup>2 / 2))"
  using assms
  by (simp add: advancePosVel_eq advancePosVel_LMC_def Let_def bodyAdvancePos_def bodyAdvanceVel_def
      vec_defs power2_eq_square algebra_simps)

theorem lmc_drifts_before_kick_witness:
  "X (b_pos (bodytab (advancePosVel (pair_state\<lparr>acctab := [\<lparr>X = 2, Y = 0, Z = 0\<rparr>, ZERO_VECTOR],
        LMCpos := \<lparr>X = 1, Y = 2, Z = 3\<rparr>, LMCvel := ZERO_VECTOR\<rparr>) 2 1 ZERO_VECTOR) ! 0)) = 2"
proof -
  let ?st = "pair_state\<lparr>acctab := [\<lparr>X = 2, Y = 0, Z = 0\<rparr>, ZERO_VECTOR],
        LMCpos := \<lparr>X = 1, Y = 2, Z = 3\<rparr>, LMCvel := ZERO_VECTOR\<rparr>"
  have p: "length (bodytab ?st) = 2" "b_pos (bodytab ?st ! 0) = LMCpos ?st"
    "b_vel (bodytab ?st ! 0) = LMCvel ?st"
    by (simp_all add: pair_state_simps body_at_def)
  show ?thesis
    using lmc_drifts_before_kick[of ?st 2 0 1 ZERO_VECTOR, OF p(1) _ p(2,3)]
    by (simp add: advancePosVel_LMC_def Let_def vec_defs)
qed

end
