(* ===== verification/NBody_Coordinates.thy ===== *)
theory NBody_Coordinates
  imports NBody_Types
begin

text \<open>
  \<open>nbody_coordinates.c\<close>: galactocentric Cartesian, heliocentric (l, b, r) and stream (lambda,
  beta, r) coordinates. The accessors L, B, R of the C code are the fields X, Y, Z. The
  composition \<open>lbrToCartesian o cartesianToLbr\<close> is the identity off the vertical through the Sun,
  and the two transformations to stream coordinates give the same longitude.
\<close>

section \<open>Heliocentric coordinates\<close>

definition cartesianToLbr_rad :: "mwvector \<Rightarrow> real \<Rightarrow> mwvector" where
  "cartesianToLbr_rad r sunGC =
     (let xp = X r + sunGC;
          l = mw_atan2 (Y r) xp;
          b = mw_atan2 (Z r) (sqrt (sqr xp + sqr (Y r)));
          rr = sqrt (sqr xp + sqr (Y r) + sqr (Z r));
          l = (if l < 0 then l + 2 * pi else l)
      in \<lparr>X = l, Y = b, Z = rr\<rparr>)"

definition cartesianToLbr :: "mwvector \<Rightarrow> real \<Rightarrow> mwvector" where
  "cartesianToLbr r sunGC =
     (let lbR = cartesianToLbr_rad r sunGC; lbR = lbR\<lparr>X := r2d (X lbR)\<rparr>
      in lbR\<lparr>Y := r2d (Y lbR)\<rparr>)"

definition lbrToCartesian_aux :: "real \<Rightarrow> real \<Rightarrow> real \<Rightarrow> real \<Rightarrow> mwvector" where
  "lbrToCartesian_aux l b r sun =
     \<lparr>X = r * cos l * cos b - sun, Y = r * sin l * cos b, Z = r * sin b\<rparr>"

definition lbrToCartesian_rad :: "mwvector \<Rightarrow> real \<Rightarrow> mwvector" where
  "lbrToCartesian_rad lbr sunGC = lbrToCartesian_aux (X lbr) (Y lbr) (Z lbr) sunGC"

definition lbrToCartesian :: "mwvector \<Rightarrow> real \<Rightarrow> mwvector" where
  "lbrToCartesian lbr sunGC = lbrToCartesian_aux (d2r (X lbr)) (d2r (Y lbr)) (Z lbr) sunGC"

section \<open>Stream coordinates\<close>

record NBHistTrig =
  cosphi :: real
  sinphi :: real
  sinpsi :: real
  cospsi :: real
  costh :: real
  sinth :: real

definition nbGetHistTrig :: "real HistogramParams \<Rightarrow> NBHistTrig" where
  "nbGetHistTrig hp =
     (let rphi = d2r (hp_phi hp); rpsi = d2r (hp_psi hp); rth = d2r (hp_theta hp)
      in \<lparr>cosphi = cos rphi, sinphi = sin rphi, sinpsi = sin rpsi, cospsi = cos rpsi,
          costh = cos rth, sinth = sin rth\<rparr>)"

definition nbXYZToLambda :: "NBHistTrig \<Rightarrow> mwvector \<Rightarrow> real \<Rightarrow> real" where
  "nbXYZToLambda ht xyz sunGC =
     (let lbr = cartesianToLbr_rad xyz sunGC;
          bcos = cos (Y lbr); bsin = sin (Y lbr); lsin = sin (X lbr); lcos = cos (X lbr)
      in r2d (mw_atan2
           (- (sinpsi ht * cosphi ht + costh ht * sinphi ht * cospsi ht) * bcos * lcos
            + (- sinpsi ht * sinphi ht + costh ht * cosphi ht * cospsi ht) * bcos * lsin
            + cospsi ht * sinth ht * bsin)
           ((cospsi ht * cosphi ht - costh ht * sinphi ht * sinpsi ht) * bcos * lcos
            + (cospsi ht * sinphi ht + costh ht * cosphi ht * sinpsi ht) * bcos * lsin
            + sinpsi ht * sinth ht * bsin)))"

definition nbXYZToLambdaBeta :: "NBHistTrig \<Rightarrow> mwvector \<Rightarrow> real \<Rightarrow> mwvector" where
  "nbXYZToLambdaBeta ht xyz sunGC =
     (let rot11 = cospsi ht * cosphi ht - costh ht * sinphi ht * sinpsi ht;
          rot12 = cospsi ht * sinphi ht + costh ht * cosphi ht * sinpsi ht;
          rot13 = sinpsi ht * sinth ht;
          rot21 = - sinpsi ht * cosphi ht - costh ht * sinphi ht * cospsi ht;
          rot22 = - sinpsi ht * sinphi ht + costh ht * cosphi ht * cospsi ht;
          rot23 = cospsi ht * sinth ht;
          rot31 = sinth ht * sinphi ht;
          rot32 = - sinth ht * cosphi ht;
          rot33 = costh ht;
          xyz = xyz\<lparr>X := X xyz + sunGC\<rparr>;
          tempX = rot11 * X xyz + rot12 * Y xyz + rot13 * Z xyz;
          tempY = rot21 * X xyz + rot22 * Y xyz + rot23 * Z xyz;
          tempZ = rot31 * X xyz + rot32 * Y xyz + rot33 * Z xyz;
          rr = sqrt (tempX * tempX + tempY * tempY + tempZ * tempZ);
          tempZ = - tempZ
      in \<lparr>X = r2d (mw_atan2 tempY tempX), Y = r2d (arcsin (tempZ / rr)), Z = rr\<rparr>)"

section \<open>Round trip\<close>

text \<open>Cosine and sine of the computed angles.\<close>

lemma lbr_polar:
  assumes "X r + s \<noteq> 0 \<or> Y r \<noteq> 0"
  defines "lbr \<equiv> cartesianToLbr_rad r s"
  shows "Z lbr * cos (X lbr) * cos (Y lbr) = X r + s" "Z lbr * sin (X lbr) * cos (Y lbr) = Y r"
    "Z lbr * sin (Y lbr) = Z r" "0 < Z lbr"
proof -
  define xp where "xp = X r + s"
  define p where "p = sqrt (xp * xp + Y r * Y r)"
  define rr where "rr = sqrt (xp * xp + Y r * Y r + Z r * Z r)"
  have pos: "0 < xp * xp + Y r * Y r"
    using assms(1) sum_squares_gt_zero_iff[of xp "Y r"] by (simp add: xp_def)
  have p: "0 < p" using pos by (simp add: p_def)
  have p2: "p * p = xp * xp + Y r * Y r" using pos by (simp add: p_def)
  have rr: "rr = sqrt (p * p + Z r * Z r)" by (simp add: rr_def p2)
  have rpos: "0 < rr" using pos by (simp add: rr_def add_pos_nonneg)
  have b: "rr * cos (mw_atan2 (Z r) p) = p \<and> rr * sin (mw_atan2 (Z r) p) = Z r"
    using atan2_polar[where x = p and y = "Z r"] p by (simp add: rr power2_eq_square)
  have l: "p * cos (mw_atan2 (Y r) xp) = xp \<and> p * sin (mw_atan2 (Y r) xp) = Y r"
    using atan2_polar[where x = xp and y = "Y r"] by (simp add: p_def power2_eq_square)
  have lbr: "Z lbr = rr" "Y lbr = mw_atan2 (Z r) p" "cos (X lbr) = cos (mw_atan2 (Y r) xp)"
    "sin (X lbr) = sin (mw_atan2 (Y r) xp)"
    by (simp_all add: lbr_def cartesianToLbr_rad_def Let_def rr_def p_def xp_def add.assoc)
  show "0 < Z lbr" using rpos lbr by simp
  have c: "rr * c * cos (mw_atan2 (Z r) p) = p * c" for c using b by (metis mult.assoc mult.commute)
  show "Z lbr * cos (X lbr) * cos (Y lbr) = X r + s" "Z lbr * sin (X lbr) * cos (Y lbr) = Y r"
    "Z lbr * sin (Y lbr) = Z r"
    using l b by (simp_all add: lbr c xp_def)
qed

text \<open>
  C30: converting a position to heliocentric (l, b, r) and back gives the position, for every
  position that is not on the vertical axis through the Sun.
\<close>

theorem lbr_round_trip:
  assumes "X r + sunGC \<noteq> 0 \<or> Y r \<noteq> 0"
  shows "lbrToCartesian (cartesianToLbr r sunGC) sunGC = r"
  using lbr_polar[OF assms]
  by (intro mwvector_eqI)
    (simp_all add: lbrToCartesian_def cartesianToLbr_def lbrToCartesian_aux_def Let_def mult.assoc)

theorem lbr_round_trip_witness:
  "lbrToCartesian (cartesianToLbr \<lparr>X = 3, Y = -4, Z = 12\<rparr> 8) 8 = \<lparr>X = 3, Y = -4, Z = 12\<rparr>"
  by (rule lbr_round_trip) simp

text \<open>The Sun itself and the points straight above it are mapped to the pole.\<close>

lemma lbr_above_sun:
  "cartesianToLbr_rad \<lparr>X = - s, Y = 0, Z = h\<rparr> s = \<lparr>X = 0, Y = mw_atan2 h 0, Z = \<bar>h\<bar>\<rparr>"
  by (simp add: cartesianToLbr_rad_def Let_def mw_atan2_def)

section \<open>Stream coordinates\<close>

text \<open>The rotation by the Euler angles of the stream keeps lengths.\<close>

lemma rotation_keeps_norm:
  assumes f: "a\<^sup>2 + b\<^sup>2 = 1" and p: "c\<^sup>2 + d\<^sup>2 = 1" and t: "e\<^sup>2 + g\<^sup>2 = (1::real)"
  shows "((c*a - e*b*d)*x + (c*b + e*a*d)*y + d*g*z)\<^sup>2
       + ((- d*a - e*b*c)*x + (- d*b + e*a*c)*y + c*g*z)\<^sup>2
       + (g*b*x + (- g*a)*y + e*z)\<^sup>2 = x\<^sup>2 + y\<^sup>2 + z\<^sup>2"
  using f p t by algebra

lemma nbXYZToLambdaBeta_dist:
  "Z (nbXYZToLambdaBeta (nbGetHistTrig hp) v s) = sqrt (sqr (X v + s) + sqr (Y v) + sqr (Z v))"
  unfolding nbXYZToLambdaBeta_def nbGetHistTrig_def Let_def
  using rotation_keeps_norm[of "cos (d2r (hp_phi hp))" "sin (d2r (hp_phi hp))"
      "cos (d2r (hp_psi hp))" "sin (d2r (hp_psi hp))" "cos (d2r (hp_theta hp))"
      "sin (d2r (hp_theta hp))" "X v + s" "Y v" "Z v"]
  by (simp add: power2_eq_square)

text \<open>
  The two conversions to stream longitude agree, and the stream conversion keeps the
  distance to the Sun: the first component of \<open>nbXYZToLambdaBeta\<close> is \<open>nbXYZToLambda\<close>, which goes
  through (l, b), and the third is the length of the heliocentric position.
\<close>

theorem lambda_conversions_agree:
  assumes "X v + sunGC \<noteq> 0 \<or> Y v \<noteq> 0"
  shows "X (nbXYZToLambdaBeta (nbGetHistTrig hp) v sunGC) = nbXYZToLambda (nbGetHistTrig hp) v sunGC
       \<and> Z (nbXYZToLambdaBeta (nbGetHistTrig hp) v sunGC) = Z (cartesianToLbr_rad v sunGC)"
proof
  define q where "q = cartesianToLbr_rad v sunGC"
  note p = lbr_polar[OF assms, folded q_def]
  have e: "X v + sunGC = Z q * (cos (Y q) * cos (X q))" "Y v = Z q * (cos (Y q) * sin (X q))"
    "Z v = Z q * sin (Y q)"
    using p by (simp_all add: mult.commute mult.left_commute)
  have lin: "a * (Z q * (cos (Y q) * cos (X q))) + b * (Z q * (cos (Y q) * sin (X q))) + c * (Z q * sin (Y q))
      = Z q * (a * cos (Y q) * cos (X q) + b * cos (Y q) * sin (X q) + c * sin (Y q))" for a b c
    by (simp add: algebra_simps)
  show "X (nbXYZToLambdaBeta (nbGetHistTrig hp) v sunGC) = nbXYZToLambda (nbGetHistTrig hp) v sunGC"
    unfolding nbXYZToLambdaBeta_def nbXYZToLambda_def Let_def q_def[symmetric]
    by (simp add: e lin atan2_scale[OF p(4)])
  show "Z (nbXYZToLambdaBeta (nbGetHistTrig hp) v sunGC) = Z (cartesianToLbr_rad v sunGC)"
    by (simp add: nbXYZToLambdaBeta_dist cartesianToLbr_rad_def Let_def)
qed

theorem lambda_conversions_agree_witness:
  "X (nbXYZToLambdaBeta (nbGetHistTrig (\<lparr>hp_phi = 128, hp_theta = 54, hp_psi = 90,
        lambdaStart = -150, lambdaEnd = 150, lambdaBins = 50, betaStart = -15, betaEnd = 15,
        betaBins = 1\<rparr>)) \<lparr>X = 3, Y = -4, Z = 12\<rparr> 8)
   = nbXYZToLambda (nbGetHistTrig (\<lparr>hp_phi = 128, hp_theta = 54, hp_psi = 90,
        lambdaStart = -150, lambdaEnd = 150, lambdaBins = 50, betaStart = -15, betaEnd = 15,
        betaBins = 1\<rparr>)) \<lparr>X = 3, Y = -4, Z = 12\<rparr> 8"
  by (rule lambda_conversions_agree[THEN conjunct1]) simp

end
