(* ===== verification/NBody_Orbit.thy ===== *)
theory NBody_Orbit
  imports NBody_Dynamics NBody_Coordinates
begin

text \<open>
  \<open>nbody_orbit_integrator.c\<close>: the orbit of a point in the external potential, integrated backwards
  to find where the dwarf starts, without and with the LMC. Time runs in exact steps of \<open>dt\<close>; the
  loops are partial functions, and \<open>reverse_loop_steps\<close> counts their rounds.
\<close>

section \<open>Without the LMC\<close>

text \<open>One round of the loops at the loop's time \<open>t\<close>: position, velocity and acceleration.\<close>

definition orbit_step :: "disk_tables \<Rightarrow> real Potential \<Rightarrow> real \<Rightarrow> real
    \<Rightarrow> mwvector \<times> mwvector \<times> mwvector \<Rightarrow> (mwvector \<times> mwvector \<times> mwvector) option" where
  "orbit_step tabs p dt t s =
     (let (x, v, acc) = s; dt_half = dt / 2;
          v = mw_incaddv_s v acc dt_half;
          x = mw_incaddv_s x v dt
      in map_option (\<lambda>acc. (x, mw_incaddv_s v acc dt_half, acc)) (nbExtAcceleration tabs p x t))"

partial_function (option) reverse_loop :: "disk_tables \<Rightarrow> real Potential \<Rightarrow> real \<Rightarrow> real \<Rightarrow> real
    \<Rightarrow> mwvector \<times> mwvector \<times> mwvector \<Rightarrow> (mwvector \<times> mwvector \<times> mwvector) option" where
  "reverse_loop tabs p tstop dt t s =
     (if t \<ge> tstop * (-1)
      then Option.bind (orbit_step tabs p dt t s) (\<lambda>s. reverse_loop tabs p tstop dt (t - dt) s)
      else Some s)"

definition nbReverseOrbit :: "disk_tables \<Rightarrow> real Potential \<Rightarrow> mwvector \<Rightarrow> mwvector \<Rightarrow> real \<Rightarrow> real
    \<Rightarrow> (mwvector \<times> mwvector) option" where
  "nbReverseOrbit tabs p pos vel tstop dt =
     (let x = pos; v = mw_incnegv vel
      in Option.bind (nbExtAcceleration tabs p x 0) (\<lambda>acc.
         map_option (\<lambda>(x, v, acc). (x, mw_incnegv v)) (reverse_loop tabs p tstop dt 0 (x, v, acc))))"

text \<open>
  \<open>nbPrintReverseOrbit\<close> writes a row after every round of a backward and of a forward loop; the
  rows of \<open>reverse_orbit.out\<close> and \<open>forward_orbit.out\<close> are results here.
\<close>

definition orbit_row :: "mwvector \<times> mwvector \<times> mwvector \<Rightarrow> mwvector \<times> mwvector \<times> mwvector" where
  "orbit_row s = (let (x, v, acc) = s in (x, cartesianToLbr x 8, v))"

partial_function (option) print_reverse_loop :: "disk_tables \<Rightarrow> real Potential \<Rightarrow> real \<Rightarrow> real \<Rightarrow> real
    \<Rightarrow> (mwvector \<times> mwvector \<times> mwvector) list \<Rightarrow> mwvector \<times> mwvector \<times> mwvector
    \<Rightarrow> ((mwvector \<times> mwvector \<times> mwvector) \<times> (mwvector \<times> mwvector \<times> mwvector) list) option" where
  "print_reverse_loop tabs p tstop dt t rows s =
     (if t \<ge> tstop * (-1)
      then Option.bind (orbit_step tabs p dt t s) (\<lambda>s.
             print_reverse_loop tabs p tstop dt (t - dt) (rows @ [orbit_row s]) s)
      else Some (s, rows))"

partial_function (option) print_forward_loop :: "disk_tables \<Rightarrow> real Potential \<Rightarrow> real \<Rightarrow> real \<Rightarrow> real
    \<Rightarrow> (mwvector \<times> mwvector \<times> mwvector) list \<Rightarrow> mwvector \<times> mwvector \<times> mwvector
    \<Rightarrow> ((mwvector \<times> mwvector \<times> mwvector) \<times> (mwvector \<times> mwvector \<times> mwvector) list) option" where
  "print_forward_loop tabs p tstop dt t rows s =
     (if t \<le> tstop
      then Option.bind (orbit_step tabs p dt t s) (\<lambda>s.
             print_forward_loop tabs p tstop dt (t + dt) (rows @ [orbit_row s]) s)
      else Some (s, rows))"

definition nbPrintReverseOrbit :: "disk_tables \<Rightarrow> real Potential \<Rightarrow> mwvector \<Rightarrow> mwvector \<Rightarrow> real \<Rightarrow> real
    \<Rightarrow> real \<Rightarrow> ((mwvector \<times> mwvector) \<times> (mwvector \<times> mwvector \<times> mwvector) list
      \<times> (mwvector \<times> mwvector \<times> mwvector) list) option" where
  "nbPrintReverseOrbit tabs p pos vel tstop tstopforward dt =
     (let x = pos; v = mw_incnegv vel; x_for = pos; v_for = vel
      in Option.bind (nbExtAcceleration tabs p x 0) (\<lambda>acc.
         Option.bind (print_reverse_loop tabs p tstop dt 0 [] (x, v, acc)) (\<lambda>((x, v, acc), rev_rows).
         Option.bind (nbExtAcceleration tabs p x_for 0) (\<lambda>acc.
         map_option (\<lambda>(s, for_rows). ((x, mw_incnegv v), rev_rows, for_rows))
           (print_forward_loop tabs p tstopforward dt 0 [] (x_for, v_for, acc))))))"

section \<open>With the LMC\<close>

record lmc_orbit =
  o_x :: mwvector
  o_v :: mwvector
  o_LMCx :: mwvector
  o_LMCv :: mwvector
  o_mw_acc :: mwvector
  o_LMC_acc :: mwvector
  o_acc :: mwvector

record lmc_params =
  l_mass :: real
  l_scale :: real
  l_DynaFric :: bool
  l_coulomb_log :: real

text \<open>
  The accelerations of the Milky Way, the LMC and the dwarf, in the frame of the Milky Way. In the
  reverse orbit the sign of the drag is turned round.
\<close>

definition lmc_accels :: "disk_tables \<Rightarrow> real Potential \<Rightarrow> lmc_params \<Rightarrow> bool \<Rightarrow> real \<Rightarrow> lmc_orbit
    \<Rightarrow> lmc_orbit option" where
  "lmc_accels tabs p L bw t s =
     (let mw_x = mw_vec 0 0 0;
          mw_acc = plummerAccel mw_x (o_LMCx s) (l_mass L) (l_scale L)
      in Option.bind (nbExtAcceleration tabs p (o_LMCx s) t) (\<lambda>LMC_acc.
         Option.bind
           (if bw
            then if l_DynaFric L
              then map_option (\<lambda>DF_acc. mw_incaddv LMC_acc (mw_incnegv DF_acc))
                (dynamicalFriction_LMC tabs p (o_LMCx s) (o_LMCv s) (l_mass L) (l_scale L) True t (l_coulomb_log L))
              else Some LMC_acc
            else map_option (mw_addv LMC_acc)
                (dynamicalFriction_LMC tabs p (o_LMCx s) (o_LMCv s) (l_mass L) (l_scale L) (l_DynaFric L) t
                   (l_coulomb_log L))) (\<lambda>LMC_acc.
         Option.bind (nbExtAcceleration tabs p (o_x s) t) (\<lambda>acc.
         let tmp = plummerAccel (o_x s) (o_LMCx s) (l_mass L) (l_scale L);
             acc = mw_incaddv acc tmp;
             mw_acc = mw_incnegv mw_acc;
             LMC_acc = mw_incaddv LMC_acc mw_acc;
             acc = mw_incaddv acc mw_acc
         in Some (s\<lparr>o_mw_acc := mw_acc, o_LMC_acc := LMC_acc, o_acc := acc\<rparr>)))))"

definition lmc_step :: "disk_tables \<Rightarrow> real Potential \<Rightarrow> lmc_params \<Rightarrow> bool \<Rightarrow> real \<Rightarrow> real \<Rightarrow> lmc_orbit
    \<Rightarrow> lmc_orbit option" where
  "lmc_step tabs p L bw dt t s =
     (let dt_half = dt / 2;
          s = s\<lparr>o_v := mw_incaddv_s (o_v s) (o_acc s) dt_half\<rparr>;
          s = s\<lparr>o_x := mw_incaddv_s (o_x s) (o_v s) dt\<rparr>;
          s = s\<lparr>o_LMCv := mw_incaddv_s (o_LMCv s) (o_LMC_acc s) dt_half\<rparr>;
          s = s\<lparr>o_LMCx := mw_incaddv_s (o_LMCx s) (o_LMCv s) dt\<rparr>
      in map_option (\<lambda>s. s\<lparr>o_v := mw_incaddv_s (o_v s) (o_acc s) dt_half,
                           o_LMCv := mw_incaddv_s (o_LMCv s) (o_LMC_acc s) dt_half\<rparr>)
           (lmc_accels tabs p L bw t s))"

text \<open>
  The loops store the Milky Way's acceleration in every tenth round (the forward loop not in the
  first); the placeholder arrays are lists in order of their indices, and the counters \<open>i\<close>, \<open>k\<close>
  their lengths.
\<close>

partial_function (option) lmc_forward :: "disk_tables \<Rightarrow> real Potential \<Rightarrow> lmc_params \<Rightarrow> real \<Rightarrow> real
    \<Rightarrow> real \<Rightarrow> mwvector list \<Rightarrow> lmc_orbit \<Rightarrow> (lmc_orbit \<times> mwvector list) option" where
  "lmc_forward tabs p L tend dt t forArray s =
     (if t \<le> tend
      then let exSteps = nat \<lfloor>t / dt\<rfloor>;
               forArray = (if exSteps mod 10 = 0 \<and> t \<noteq> 0 then forArray @ [o_mw_acc s] else forArray)
           in Option.bind (lmc_step tabs p L False dt t s) (\<lambda>s.
              lmc_forward tabs p L tend dt (t + dt) forArray s)
      else Some (s, forArray))"

partial_function (option) lmc_reverse :: "disk_tables \<Rightarrow> real Potential \<Rightarrow> lmc_params \<Rightarrow> real \<Rightarrow> real
    \<Rightarrow> real \<Rightarrow> mwvector list \<Rightarrow> lmc_orbit \<Rightarrow> (lmc_orbit \<times> mwvector list) option" where
  "lmc_reverse tabs p L tstop dt t bacArray s =
     (if t \<le> tstop
      then let negT = t * -1; steps = nat \<lfloor>t / dt\<rfloor>;
               bacArray = (if steps mod 10 = 0 then bacArray @ [o_mw_acc s] else bacArray)
           in Option.bind (lmc_step tabs p L True dt negT s) (\<lambda>s.
              lmc_reverse tabs p L tstop dt (t + dt) bacArray s)
      else Some (s, bacArray))"

text \<open>
  The file's variables \<open>shiftByLMC\<close>, \<open>nShiftLMC\<close>, \<open>LMCpos\<close>, \<open>LMCvel\<close>, which \<open>getLMCArray\<close> and
  \<open>getLMCPosVel\<close> hand out.
\<close>

record lmc_file =
  f_shift :: "mwvector list"
  f_nShift :: nat
  f_LMCpos :: mwvector
  f_LMCvel :: mwvector

definition getLMCArray :: "lmc_file \<Rightarrow> mwvector list \<times> nat" where
  "getLMCArray f = (f_shift f, f_nShift f)"

definition getLMCPosVel :: "lmc_file \<Rightarrow> mwvector \<times> mwvector" where
  "getLMCPosVel f = (f_LMCpos f, f_LMCvel f)"

definition lmc_start :: "mwvector \<Rightarrow> mwvector \<Rightarrow> mwvector \<Rightarrow> mwvector \<Rightarrow> lmc_orbit" where
  "lmc_start x v LMCx LMCv =
     \<lparr>o_x = x, o_v = v, o_LMCx = LMCx, o_LMCv = LMCv, o_mw_acc = ZERO_VECTOR, o_LMC_acc = ZERO_VECTOR,
      o_acc = ZERO_VECTOR\<rparr>"

text \<open>The shift array: the reverse orbit from its end, then the forward orbit, then zeros.\<close>

definition shift_array :: "mwvector list \<Rightarrow> mwvector list option \<Rightarrow> mwvector list" where
  "shift_array bacArray forArray =
     (let i = length bacArray - 1; k = (case forArray of None \<Rightarrow> 0 | Some fs \<Rightarrow> length fs - 1);
          size = i + k + 2;
          sh = fold (\<lambda>j sh. sh[j := bacArray ! (i - j)]) [0..<i + 1] (replicate size ZERO_VECTOR)
      in case forArray of
           None \<Rightarrow> sh
         | Some fs \<Rightarrow> fold (\<lambda>j sh. sh[i + 1 + j := fs ! j]) [0..<k + 1] sh)"

definition nbReverseOrbit_LMC :: "disk_tables \<Rightarrow> real Potential \<Rightarrow> mwvector \<Rightarrow> mwvector \<Rightarrow> mwvector
    \<Rightarrow> mwvector \<Rightarrow> lmc_params \<Rightarrow> real \<Rightarrow> real \<Rightarrow> real
    \<Rightarrow> ((mwvector \<times> mwvector \<times> mwvector \<times> mwvector) \<times> lmc_file) option" where
  "nbReverseOrbit_LMC tabs p pos vel LMCposition LMCvelocity L ftime tstop dt =
     Option.bind
       (if ftime > tstop
        then Option.bind (lmc_accels tabs p L False 0 (lmc_start pos vel LMCposition LMCvelocity)) (\<lambda>s.
             map_option (\<lambda>(s, forArray). Some (forArray @ [o_mw_acc s]))
               (lmc_forward tabs p L (ftime - tstop) dt 0 [] s))
        else Some None) (\<lambda>forArray.
     Option.bind (lmc_accels tabs p L True 0
         (lmc_start pos (mw_incnegv vel) LMCposition (mw_incnegv LMCvelocity))) (\<lambda>s.
     Option.bind (lmc_reverse tabs p L tstop dt 0 [] s) (\<lambda>(s, bacArray).
     let bacArray = bacArray @ [o_mw_acc s];
         shift = shift_array bacArray forArray;
         v = mw_incnegv (o_v s); LMCv = mw_incnegv (o_LMCv s)
     in Some ((o_x s, v, o_LMCx s, LMCv),
          \<lparr>f_shift = shift, f_nShift = length shift, f_LMCpos = o_LMCx s, f_LMCvel = LMCv\<rparr>))))"

section \<open>The rounds of the backward loop\<close>

fun orbit_iter :: "disk_tables \<Rightarrow> real Potential \<Rightarrow> real \<Rightarrow> nat \<Rightarrow> nat
    \<Rightarrow> mwvector \<times> mwvector \<times> mwvector \<Rightarrow> (mwvector \<times> mwvector \<times> mwvector) option" where
  "orbit_iter tabs p dt 0 k s = Some s"
| "orbit_iter tabs p dt (Suc n) k s =
     Option.bind (orbit_step tabs p dt (- (real k * dt)) s) (orbit_iter tabs p dt n (Suc k))"

text \<open>The number of rounds for a stopping time: one more than the whole steps that fit.\<close>

definition rounds :: "real \<Rightarrow> real \<Rightarrow> nat" where
  "rounds tstop dt = nat \<lfloor>tstop / dt\<rfloor> + 1"

lemma rounds_le:
  assumes "0 < dt" "0 \<le> tstop"
  shows "real k * dt \<le> tstop \<longleftrightarrow> k < rounds tstop dt"
proof -
  have "real k * dt \<le> tstop \<longleftrightarrow> real k \<le> tstop / dt" using assms(1) by (simp add: pos_le_divide_eq)
  also have "\<dots> \<longleftrightarrow> int k \<le> \<lfloor>tstop / dt\<rfloor>" by (simp add: le_floor_iff)
  also have "\<dots> \<longleftrightarrow> k < rounds tstop dt"
    using assms by (simp add: rounds_def less_Suc_eq_le le_nat_iff)
  finally show ?thesis .
qed

lemma reverse_loop_steps:
  assumes "0 < dt" "0 \<le> tstop" "k + n = rounds tstop dt"
  shows "reverse_loop tabs p tstop dt (- (real k * dt)) s = orbit_iter tabs p dt n k s"
  using assms(3)
proof (induction n arbitrary: k s)
  case 0
  then have "\<not> real k * dt \<le> tstop" using rounds_le[OF assms(1,2)] by simp
  then show ?case by (subst reverse_loop.simps) simp
next
  case (Suc n)
  then have "real k * dt \<le> tstop" using rounds_le[OF assms(1,2)] by simp
  moreover have "- (real k * dt) - dt = - (real (Suc k) * dt)" by (simp add: algebra_simps)
  moreover have "reverse_loop tabs p tstop dt (- (real (Suc k) * dt)) = orbit_iter tabs p dt n (Suc k)"
    by (rule ext) (rule Suc.IH, use Suc.prems in simp)
  ultimately show ?case by (subst reverse_loop.simps) simp
qed

lemma orbit_step_defined:
  "orbit_step tabs p dt t s = None \<longleftrightarrow> \<not> accel_types_ok p"
  by (cases s) (simp add: orbit_step_def Let_def nbExtAcceleration_None_iff)

lemma orbit_iter_defined: "accel_types_ok p \<Longrightarrow> orbit_iter tabs p dt n k s \<noteq> None"
proof (induction n arbitrary: k s)
  case (Suc n)
  then show ?case by (cases "orbit_step tabs p dt (- (real k * dt)) s") (auto simp: orbit_step_defined)
qed simp

lemma reverse_loop_diverges:
  assumes "dt \<le> 0" "reverse_loop tabs p tstop dt t s = Some r"
  shows "t < - tstop"
  using assms(2,1)
proof (induction rule: reverse_loop.raw_induct[rotated, consumes 1, case_names 1])
  case (1 loop tabs p tstop dt t s r)
  show ?case
  proof (rule ccontr)
    assume t: "\<not> t < - tstop"
    then obtain s1 where "loop tabs p tstop dt (t - dt) s1 = Some r"
      using 1(2) by (auto split: if_splits elim!: obind_SomeE)
    then have "t - dt < - tstop" using 1(1,3) by blast
    then show False using t 1(3) by simp
  qed
qed

text \<open>C27: when \<open>nbReverseOrbit\<close> returns. For a stopping time that is not negative it returns exactly
  when the time step is positive and no component of the potential has a type that ends the
  program; with a step of zero or below its loop never ends, and nothing in the function checks it.\<close>

theorem nbReverseOrbit_returns:
  assumes "0 \<le> tstop"
  shows "nbReverseOrbit tabs p pos vel tstop dt \<noteq> None \<longleftrightarrow> 0 < dt \<and> accel_types_ok p"
proof (cases "accel_types_ok p")
  case ok: True
  obtain acc where acc: "nbExtAcceleration tabs p pos 0 = Some acc"
    using ok nbExtAcceleration_None_iff[of tabs p pos 0] by auto
  show ?thesis
  proof (cases "0 < dt")
    case True
    show ?thesis
      using reverse_loop_steps[OF True assms, of 0 "rounds tstop dt" tabs p]
        orbit_iter_defined[OF ok, of tabs dt "rounds tstop dt" 0] ok True
      by (simp add: nbReverseOrbit_def acc)
  next
    case False
    have "reverse_loop tabs p tstop dt 0 s = None" for s
      using reverse_loop_diverges[of dt tabs p tstop 0 s] False assms
      by (cases "reverse_loop tabs p tstop dt 0 s") auto
    then show ?thesis using False by (simp add: nbReverseOrbit_def acc)
  qed
next
  case False
  then show ?thesis using nbExtAcceleration_None_iff[of tabs p pos 0] by (simp add: nbReverseOrbit_def)
qed

theorem nbReverseOrbit_returns_witness:
  "nbReverseOrbit (env_tabs sample_env) halo_only \<lparr>X = 8, Y = 0, Z = 1\<rparr> \<lparr>X = 0, Y = 2, Z = 0\<rparr> 4 (1/8) \<noteq> None"
  using nbReverseOrbit_returns[of 4] halo_only_ok by simp

section \<open>The orbit and the simulation\<close>

definition point_field :: "disk_tables \<Rightarrow> real Potential \<Rightarrow> mwvector list \<Rightarrow> mwvector list" where
  "point_field tabs p xs = map (\<lambda>x. the (nbExtAcceleration tabs p x 0)) xs"

interpretation pf: force_field "point_field tabs p" for tabs p
  by unfold_locales (simp add: point_field_def)

lemma leap_one:
  "leap (point_field tabs p) dt [(x, v)] =
     (let v' = mw_addv v (mw_mulvs (the (nbExtAcceleration tabs p x 0)) (0.5 * dt));
          x' = mw_addv x (mw_mulvs v' dt)
      in [(x', mw_addv v' (mw_mulvs (the (nbExtAcceleration tabs p x' 0)) (0.5 * dt)))])"
  by (simp add: leap_def kick_def drift_def point_field_def Let_def)

lemma orbit_iter_leap:
  assumes "accel_types_ok p" "d_type (p_disk2 p) \<noteq> OrbitingBar"
  shows "\<exists>x' v'. orbit_iter tabs p dt n k (x, v, the (nbExtAcceleration tabs p x 0))
      = Some (x', v', the (nbExtAcceleration tabs p x' 0))
    \<and> (leap (point_field tabs p) dt ^^ n) [(x, v)] = [(x', v')]"
proof -
  define f where "f x = the (nbExtAcceleration tabs p x 0)" for x
  have d: "nbExtAcceleration tabs p y t = Some (f y)" for y t
  proof -
    have "nbExtAcceleration tabs p y t = nbExtAcceleration tabs p y 0"
      by (rule nbExtAcceleration_static[OF assms(2)])
    then show ?thesis using nbExtAcceleration_None_iff[of tabs p y 0] assms(1) by (auto simp: f_def)
  qed
  have "\<exists>x' v'. orbit_iter tabs p dt n k (x, v, f x) = Some (x', v', f x')
    \<and> (leap (point_field tabs p) dt ^^ n) [(x, v)] = [(x', v')]"
  proof (induction n arbitrary: k x v)
    case (Suc n)
    define v1 where "v1 = mw_addv v (mw_mulvs (f x) (0.5 * dt))"
    define x1 where "x1 = mw_addv x (mw_mulvs v1 dt)"
    define v2 where "v2 = mw_addv v1 (mw_mulvs (f x1) (0.5 * dt))"
    have "orbit_step tabs p dt t (x, v, f x) = Some (x1, v2, f x1)" for t
      by (simp add: orbit_step_def Let_def d mw_incaddv_s_eq v1_def x1_def v2_def)
    moreover have "leap (point_field tabs p) dt [(x, v)] = [(x1, v2)]"
      by (simp only: leap_one Let_def f_def[symmetric] v1_def[symmetric] x1_def[symmetric] v2_def[symmetric])
    moreover obtain x' v' where "orbit_iter tabs p dt n (Suc k) (x1, v2, f x1) = Some (x', v', f x')"
      "(leap (point_field tabs p) dt ^^ n) [(x1, v2)] = [(x', v')]"
      using Suc.IH by blast
    ultimately show ?case unfolding funpow_Suc_right comp_def by simp
  qed simp
  then show ?thesis by (simp add: f_def)
qed

lemma nbReverseOrbit_leap:
  assumes "accel_types_ok p" "d_type (p_disk2 p) \<noteq> OrbitingBar" "0 < dt" "0 \<le> tstop"
  obtains x v where "nbReverseOrbit tabs p pos vel tstop dt = Some (x, v)"
    "[(x, v)] = reversed ((leap (point_field tabs p) dt ^^ rounds tstop dt) (reversed [(pos, vel)]))"
proof -
  obtain x v where r: "orbit_iter tabs p dt (rounds tstop dt) 0
        (pos, mw_negv vel, the (nbExtAcceleration tabs p pos 0)) = Some (x, v, the (nbExtAcceleration tabs p x 0))"
    "(leap (point_field tabs p) dt ^^ rounds tstop dt) [(pos, mw_negv vel)] = [(x, v)]"
    using orbit_iter_leap[OF assms(1,2), of tabs dt "rounds tstop dt" 0] by metis
  obtain acc where "nbExtAcceleration tabs p pos 0 = Some acc"
    using assms(1) nbExtAcceleration_None_iff[of tabs p pos 0] by auto
  then have "nbReverseOrbit tabs p pos vel tstop dt = Some (x, mw_negv v)"
    using reverse_loop_steps[OF assms(3,4), of 0 "rounds tstop dt" tabs p] r(1)
    by (simp add: nbReverseOrbit_def)
  then show thesis by (rule that) (simp add: reversed_def r(2))
qed

lemma leap_cong:
  assumes "\<And>xs. length xs = k \<Longrightarrow> F xs = G xs" "\<And>xs. length (F xs) = length xs" "length ps = k"
  shows "(leap F dt ^^ n) ps = (leap G dt ^^ n) ps \<and> length ((leap F dt ^^ n) ps) = k"
proof -
  have step: "leap F dt q = leap G dt q \<and> length (leap F dt q) = k" if l: "length q = k" for q
  proof -
    let ?d = "drift dt (kick (0.5 * dt) (F (map fst q)) q)"
    have lf: "length (F (map fst q)) = length q" by (simp add: assms(2))
    have ld: "length ?d = k" by (simp add: kick_simps(1)[OF lf] l)
    have "F (map fst q) = G (map fst q)" "F (map fst ?d) = G (map fst ?d)"
      by (intro assms(1), simp add: l) (intro assms(1), simp only: length_map ld)
    then have "leap F dt q = leap G dt q" unfolding leap_def Let_def by (simp only:)
    moreover have "length (leap F dt q) = k" by (simp add: leap_def Let_def assms(2) l)
    ultimately show ?thesis ..
  qed
  show ?thesis
  proof (induction n)
    case (Suc n)
    then show ?case using step[OF conjunct2[OF Suc]] by (metis comp_apply funpow.simps(2))
  qed (simp add: assms)
qed

lemma one_body_field:
  assumes "potentialType ctx = EXTERNAL_POTENTIAL_DEFAULT" "length xs = 1"
  shows "total_field env ctx [m] xs = point_field (env_tabs env) (pot ctx) xs"
proof -
  obtain x where xs: "xs = [x]" using assms(2) by (auto simp: length_Suc_conv)
  have "grav_field (eps2 ctx) [m] [x] = [ZERO_VECTOR]"
    by (simp add: grav_field_def vsum_def pair_accel_def Let_def vec_defs lessThan_Suc)
  then show ?thesis using assms(1) by (simp add: xs total_field_def point_field_def ext_field_def)
qed

text \<open>C28: the orbit integrator inverts the simulation. Put a single body where
  \<open>nbReverseOrbit\<close> says the dwarf was, in the default potential without an orbiting bar (whose time the two
  loops count differently), with exact forces and no LMC; after as many
  steps of \<open>nbStepSystemPlain\<close> as the orbit took, one more than the whole time steps in the stopping
  time, it has exactly the present position and velocity the orbit started from.\<close>

theorem reverse_orbit_then_simulate:
  assumes "static_ctx ctx" "potentialType ctx = EXTERNAL_POTENTIAL_DEFAULT"
    and "0 < timestep ctx" "0 \<le> tstop"
    and orbit: "nbReverseOrbit (env_tabs env) (pot ctx) p v tstop (timestep ctx) = Some (x0, v0)"
    and st: "ready env ctx st" "bodytab st = [b]" "b_pos b = x0" "b_vel b = v0"
  shows "\<exists>st'. step_many env ctx (nat \<lfloor>tstop / timestep ctx\<rfloor> + 1) st = Some st' \<and> phase_of st' = [(p, v)]"
proof -
  let ?dt = "timestep ctx" and ?n = "rounds tstop (timestep ctx)"
  let ?L = "leap (point_field (env_tabs env) (pot ctx)) ?dt"
  have ok: "accel_types_ok (pot ctx)" "d_type (p_disk2 (pot ctx)) \<noteq> OrbitingBar"
    using assms(1,2) by (auto simp: static_ctx_def)
  have ph: "phase_of st = reversed ((?L ^^ ?n) (reversed [(p, v)]))"
    using nbReverseOrbit_leap[OF ok assms(3,4), of "env_tabs env" p v] orbit st(2-4)
    by (auto simp: phase_of_def)
  obtain st' where st': "step_many env ctx ?n st = Some st'"
    "phase_of st' = (leap (total_field env ctx (masses st)) ?dt ^^ ?n) (phase_of st)"
    by (rule static_steps[OF assms(1) st(1)])
  have m: "masses st = [b_mass b]" using st(2) by (simp add: masses_def)
  have "phase_of st' = (?L ^^ ?n) (phase_of st)"
    unfolding st'(2) m
    by (rule leap_cong[of 1, THEN conjunct1])
      (simp_all add: one_body_field[OF assms(2)] tf.force_length phase_of_def st(2))
  also have "\<dots> = [(p, v)]" unfolding ph pf.leaps_reversed by simp
  finally show ?thesis using st'(1) by (auto simp: rounds_def)
qed

theorem reverse_orbit_then_simulate_witness:
  "\<exists>x0 v0 st st'. nbReverseOrbit (env_tabs sample_env) halo_only \<lparr>X = 8, Y = 0, Z = 1\<rparr> \<lparr>X = 0, Y = 2, Z = 0\<rparr> 4 (1/8)
      = Some (x0, v0) \<and> phase_of st = [(x0, v0)]
    \<and> step_many sample_env halo_ctx 33 st = Some st'
    \<and> phase_of st' = [(\<lparr>X = 8, Y = 0, Z = 1\<rparr>, \<lparr>X = 0, Y = 2, Z = 0\<rparr>)]"
proof -
  let ?p = "\<lparr>X = 8, Y = 0, Z = 1\<rparr>" and ?v = "\<lparr>X = 0, Y = 2, Z = 0\<rparr>"
  have c: "potentialType halo_ctx = EXTERNAL_POTENTIAL_DEFAULT" "timestep halo_ctx = 1/8"
    "pot halo_ctx = halo_only"
    by (simp_all add: halo_ctx_def exact_ctx_def defaultNBodyCtx_def)
  have ok: "accel_types_ok halo_only" "d_type (p_disk2 halo_only) \<noteq> OrbitingBar" using halo_only_ok by auto
  obtain x0 v0 where o: "nbReverseOrbit (env_tabs sample_env) halo_only ?p ?v 4 (1/8) = Some (x0, v0)"
    by (rule nbReverseOrbit_leap[OF ok, of "1/8" 4]) auto
  define b where "b = (body_at 0 0 0 1)\<lparr>b_pos := x0, b_vel := v0\<rparr>"
  define s0 where "s0 = pair_state\<lparr>bodytab := [b], nbody := 1\<rparr>"
  define st where "st = s0\<lparr>acctab := total_field sample_env halo_ctx (masses s0) (positions s0)\<rparr>"
  have st: "bodytab st = [b]" "b_pos b = x0" "b_vel b = v0" "ready sample_env halo_ctx st"
    by (simp_all add: st_def s0_def b_def ready_def forces_current_def masses_def positions_def tf.force_length)
  have "\<exists>st'. step_many sample_env halo_ctx (nat \<lfloor>(4::real) / timestep halo_ctx\<rfloor> + 1) st = Some st'
      \<and> phase_of st' = [(?p, ?v)]"
    by (rule reverse_orbit_then_simulate[OF sample_ctxs(4) c(1) _ _ _ st(4,1,2,3)]) (simp_all add: c o)
  then obtain st' where "step_many sample_env halo_ctx 33 st = Some st'" "phase_of st' = [(?p, ?v)]"
    by (auto simp: c)
  then show ?thesis using o st(1-3)
    by (intro exI[of _ x0] exI[of _ v0] exI[of _ st] exI[of _ st']) (simp add: phase_of_def)
qed

end
