(* ===== verification/NBody_LMCShift.thy ===== *)
theory NBody_LMCShift
  imports NBody_Orbit
begin

text \<open>
  What \<open>nbReverseOrbit_LMC\<close> leaves in the shift array, the accelerations of the Milky Way by the
  LMC that \<open>nbRunSystemPlain\<close> reads at the indices \<open>step\<close> and \<open>step + 1\<close>.
\<close>

section \<open>The samples of the reverse orbit\<close>

lemma floor_multiple: "0 < dt \<Longrightarrow> nat \<lfloor>real k * dt / dt\<rfloor> = k"
  by simp

lemma lmc_reverse_samples:
  assumes "0 < dt" "0 \<le> tstop" "k + n = rounds tstop dt"
    and "lmc_reverse tabs p L tstop dt (real k * dt) bac s = Some (s', bac')"
  shows "\<exists>ys. bac' = bac @ ys \<and> length ys = length (filter (\<lambda>j. j mod 10 = 0) [k..<rounds tstop dt])
    \<and> (k mod 10 = 0 \<and> 0 < n \<longrightarrow> ys \<noteq> [] \<and> hd ys = o_mw_acc s)"
  using assms(3,4)
proof (induction n arbitrary: k bac s)
  case 0
  then have "\<not> real k * dt \<le> tstop" using rounds_le[OF assms(1,2)] by simp
  then show ?case using 0 by (subst (asm) lmc_reverse.simps) simp
next
  case (Suc n)
  have le: "real k * dt \<le> tstop" using rounds_le[OF assms(1,2)] Suc.prems(1) by simp
  have t: "real k * dt + dt = real (Suc k) * dt" by (simp add: algebra_simps)
  define bac1 where "bac1 = (if k mod 10 = 0 then bac @ [o_mw_acc s] else bac)"
  obtain s1 where "lmc_reverse tabs p L tstop dt (real (Suc k) * dt) bac1 s1 = Some (s', bac')"
    using Suc.prems(2) le t assms(1)
    by (subst (asm) lmc_reverse.simps) (auto simp: Let_def bac1_def elim!: obind_SomeE)
  then obtain ys where ys: "bac' = bac1 @ ys"
    "length ys = length (filter (\<lambda>j. j mod 10 = 0) [Suc k..<rounds tstop dt])"
    using Suc.IH[of "Suc k" bac1 s1] Suc.prems(1) by auto
  have u: "[k..<rounds tstop dt] = k # [Suc k..<rounds tstop dt]"
    using Suc.prems(1) by (intro upt_conv_Cons) simp
  show ?case
    by (rule exI[of _ "(if k mod 10 = 0 then [o_mw_acc s] else []) @ ys"])
      (auto simp: u ys bac1_def)
qed

text \<open>The two loops that fill the array.\<close>

lemma shift_array_reverse:
  assumes "length bac = Suc i"
  shows "shift_array bac None = rev bac @ [ZERO_VECTOR]"
proof -
  have "map (\<lambda>j. bac ! (i - j)) [0..<Suc i] = rev bac"
    using assms by (intro nth_equalityI) (simp_all add: rev_nth del: upt_Suc)
  moreover have "fold (\<lambda>j sh. sh[j := bac ! (i - j)]) [0..<Suc i] (replicate (Suc (Suc i)) ZERO_VECTOR)
      = map (\<lambda>j. bac ! (i - j)) [0..<Suc i] @ drop (Suc i) (replicate (Suc (Suc i)) ZERO_VECTOR)"
    by (rule fold_update_prefix) simp
  ultimately show ?thesis
    using assms by (simp add: shift_array_def Let_def del: upt_Suc replicate_Suc) simp
qed

text \<open>The layout of the shift array when the forward time is not longer than the reverse one.
  With \<open>i\<close> one more than the full tens of steps, the array has \<open>i + 2\<close> entries and is within the
  size announced; the last is an unused zero, and the present-day acceleration of the Milky Way is
  at index \<open>i\<close>. A simulation of \<open>i - 1\<close> steps reads no index above \<open>i - 1\<close>: the samples it uses
  are all one sampling interval too early.\<close>

theorem shift_array_present_day:
  assumes "0 < dt" "0 \<le> tstop" "ftime \<le> tstop"
    and res: "nbReverseOrbit_LMC tabs p pos vel LMCx LMCv L ftime tstop dt = Some (r, f)"
  shows "length (f_shift f) = nat \<lfloor>tstop / dt\<rfloor> div 10 + 3
    \<and> f_nShift f = nat \<lfloor>tstop / dt\<rfloor> div 10 + 3
    \<and> f_shift f ! (nat \<lfloor>tstop / dt\<rfloor> div 10 + 1)
        = mw_negv (plummerAccel (mw_vec 0 0 0) LMCx (l_mass L) (l_scale L))
    \<and> f_shift f ! (nat \<lfloor>tstop / dt\<rfloor> div 10 + 2) = ZERO_VECTOR"
proof -
  let ?i = "nat \<lfloor>tstop / dt\<rfloor> div 10 + 1"
  obtain s s' bac where s: "lmc_accels tabs p L True 0
        (lmc_start pos (mw_negv vel) LMCx (mw_negv LMCv)) = Some s"
    "lmc_reverse tabs p L tstop dt 0 [] s = Some (s', bac)"
    "f_shift f = shift_array (bac @ [o_mw_acc s']) None" "f_nShift f = length (f_shift f)"
    using res assms(3)
    by (auto simp: nbReverseOrbit_LMC_def Let_def elim!: obind_SomeE split: prod.splits)
  have acc: "o_mw_acc s = mw_negv (plummerAccel (mw_vec 0 0 0) LMCx (l_mass L) (l_scale L))"
    using s(1) by (auto simp: lmc_accels_def lmc_start_def Let_def elim!: obind_SomeE)
  have b: "length bac = ?i" "bac \<noteq> []" "hd bac = o_mw_acc s"
    using lmc_reverse_samples[OF assms(1,2), of 0 "rounds tstop dt" tabs p L "[]" s s' bac] s(2)
      count_tenths[of "nat \<lfloor>tstop / dt\<rfloor>"]
    by (auto simp: rounds_def)
  have sh: "f_shift f = rev (bac @ [o_mw_acc s']) @ [ZERO_VECTOR]"
    unfolding s(3) by (rule shift_array_reverse[of _ ?i]) (simp add: b)
  have "rev (bac @ [o_mw_acc s']) ! ?i = bac ! 0"
    using b(1) by (simp add: nth_Cons rev_nth)
  then have "f_shift f ! ?i = o_mw_acc s"
    using b by (simp add: sh nth_append hd_conv_nth)
  then show ?thesis using acc b(1) s(4) by (simp add: sh nth_append)
qed

lemma lmc_accels_defined:
  assumes "accel_types_ok p" "\<not> l_DynaFric L"
  shows "lmc_accels tabs p L True t s \<noteq> None"
proof -
  have d: "\<exists>a. nbExtAcceleration tabs p y t = Some a" for y
    using nbExtAcceleration_None_iff[of tabs p y t] assms(1) by auto
  obtain a b where "nbExtAcceleration tabs p (o_LMCx s) t = Some a" "nbExtAcceleration tabs p (o_x s) t = Some b"
    using d by meson
  then show ?thesis using assms(2) by (simp add: lmc_accels_def Let_def)
qed

lemma lmc_reverse_defined:
  assumes "0 < dt" "0 \<le> tstop" "accel_types_ok p" "\<not> l_DynaFric L" "k + n = rounds tstop dt"
  shows "lmc_reverse tabs p L tstop dt (real k * dt) bac s \<noteq> None"
  using assms(5)
proof (induction n arbitrary: k bac s)
  case 0
  then have "\<not> real k * dt \<le> tstop" using rounds_le[OF assms(1,2)] by simp
  then show ?case by (subst lmc_reverse.simps) simp
next
  case (Suc n)
  have le: "real k * dt \<le> tstop" using rounds_le[OF assms(1,2)] Suc.prems by simp
  have t: "real k * dt + dt = real (Suc k) * dt" by (simp add: algebra_simps)
  obtain s1 where "lmc_step tabs p L True dt (real k * dt * -1) s = Some s1"
    using lmc_accels_defined[OF assms(3,4)] by (force simp: lmc_step_def Let_def)
  then show ?case using le t Suc.IH[of "Suc k"] Suc.prems
    by (subst lmc_reverse.simps) (simp add: Let_def)
qed

theorem shift_array_present_day_witness:
  "\<exists>r f. nbReverseOrbit_LMC (env_tabs sample_env) halo_only \<lparr>X = 8, Y = 0, Z = 1\<rparr> \<lparr>X = 0, Y = 2, Z = 0\<rparr>
      \<lparr>X = -1, Y = -40, Z = -27\<rparr> \<lparr>X = 50, Y = 226, Z = 221\<rparr>
      \<lparr>l_mass = 449865, l_scale = 15, l_DynaFric = False, l_coulomb_log = 0\<rparr> 4 4 (1/8) = Some (r, f)
    \<and> length (f_shift f) = 6"
proof -
  let ?L = "\<lparr>l_mass = 449865, l_scale = 15, l_DynaFric = False, l_coulomb_log = 0\<rparr>"
  let ?p = "\<lparr>X = 8, Y = 0, Z = 1\<rparr>" and ?v = "\<lparr>X = 0, Y = 2, Z = 0\<rparr>"
  let ?q = "\<lparr>X = -1, Y = -40, Z = -27\<rparr>" and ?w = "\<lparr>X = 50, Y = 226, Z = 221\<rparr>"
  obtain s where s: "lmc_accels (env_tabs sample_env) halo_only ?L True 0
      (lmc_start ?p (mw_incnegv ?v) ?q (mw_incnegv ?w)) = Some s"
    using lmc_accels_defined[OF halo_only_ok(1), of ?L] by fastforce
  obtain s' bac where r: "lmc_reverse (env_tabs sample_env) halo_only ?L 4 (1/8) 0 [] s = Some (s', bac)"
    using lmc_reverse_defined[OF _ _ halo_only_ok(1), of "1/8" 4 ?L 0 "rounds 4 (1/8)" "env_tabs sample_env" "[]" s]
    by auto
  obtain r f where rf: "nbReverseOrbit_LMC (env_tabs sample_env) halo_only ?p ?v ?q ?w ?L 4 4 (1/8) = Some (r, f)"
    using s r by (simp add: nbReverseOrbit_LMC_def Let_def)
  show ?thesis using shift_array_present_day[OF _ _ _ rf] rf by (intro exI[of _ r] exI[of _ f]) simp
qed

end
