(* ===== verification/NBody_Checkpoint.thy ===== *)
theory NBody_Checkpoint
  imports NBody_Dynamics
begin

text \<open>
  \<open>nbody_checkpoint.c\<close>: what is written to a checkpoint, what reading it restores, and when a file
  is refused. The file is the list of the objects copied into the mapping, in the order of the
  copies, with the size of the file beside it; the sizes of the C types and the version numbers of
  the build are parameters. Opening, mapping and renaming files is left out: the outcome of these
  system calls is a parameter of \<open>nbWriteCheckpoint\<close> and \<open>nbReadCheckpoint\<close>.
\<close>

section \<open>The format\<close>

record build =
  version_major :: nat
  version_minor :: nat
  sizeof_real :: nat
  sizeof_ptr :: nat
  sizeof_size_t :: nat
  sizeof_Header :: nat
  sizeof_tail :: nat
  sizeof_Body :: nat
  sizeof_mwvector :: nat
  sizeof_NBodyState :: nat

definition hdr :: string where "hdr = ''mwnbody''"

record NBodyCheckpointHeader =
  cp_header :: string
  cp_majorVersion :: nat
  cp_minorVersion :: nat
  cp_nbody :: nat
  cp_step :: nat
  cp_realSize :: nat
  cp_ptrSize :: nat
  cp_nOrbitTrace :: nat
  cp_nShiftLMC :: nat
  cp_treeIncest :: bool
  cp_rsize :: real
  cp_ctx :: "real NBodyCtx"

datatype item = HeaderI NBodyCheckpointHeader | SizeI nat | StateI NBodyState | BodyI Body
  | VecI mwvector | TailI

record checkpoint_file =
  contents :: "item list"
  cpFileSize :: nat

definition hdrSize :: "build \<Rightarrow> nat" where
  "hdrSize b = sizeof_Header b + sizeof_tail b"

definition nbPrepareWriteCheckpointHeader :: "build \<Rightarrow> real NBodyCtx \<Rightarrow> NBodyState \<Rightarrow> NBodyCheckpointHeader" where
  "nbPrepareWriteCheckpointHeader b ctx st =
     \<lparr>cp_header = hdr, cp_majorVersion = version_major b, cp_minorVersion = version_minor b,
      cp_nbody = nbody st, cp_step = step st, cp_realSize = sizeof_real b, cp_ptrSize = sizeof_ptr b,
      cp_nOrbitTrace = nOrbitTrace st, cp_nShiftLMC = nShiftLMC st, cp_treeIncest = treeIncest st,
      cp_rsize = rsize (tree st), cp_ctx = ctx\<rparr>"

definition nbReadCheckpointHeader :: "NBodyCheckpointHeader \<Rightarrow> NBodyState \<Rightarrow> real NBodyCtx \<times> NBodyState" where
  "nbReadCheckpointHeader cp st =
     (cp_ctx cp, st\<lparr>nbody := cp_nbody cp, step := cp_step cp, tree := (tree st)\<lparr>rsize := cp_rsize cp\<rparr>,
                    treeIncest := cp_treeIncest cp\<rparr>)"

text \<open>True is a header that is refused.\<close>

definition nbVerifyCheckpointHeader :: "build \<Rightarrow> NBodyCheckpointHeader \<Rightarrow> checkpoint_file \<Rightarrow> nat \<Rightarrow> bool" where
  "nbVerifyCheckpointHeader b cpHdr cp supposedCheckpointSize =
     (if cp_header cpHdr \<noteq> hdr then True
      else if supposedCheckpointSize \<noteq> cpFileSize cp then True
      else if cp_realSize cpHdr \<noteq> sizeof_real b then True
      else if cp_ptrSize cpHdr \<noteq> sizeof_ptr b then True
      else if cp_majorVersion cpHdr \<noteq> version_major b \<or> cp_minorVersion cpHdr \<noteq> version_minor b then True
      else False)"

text \<open>The size \<open>nbOpenCheckpointHandle\<close> gives a file it opens for writing.\<close>

definition checkpoint_size :: "build \<Rightarrow> NBodyState \<Rightarrow> nat" where
  "checkpoint_size b st =
     hdrSize b + 2 * nbody st * sizeof_Body b + nOrbitTrace st * sizeof_mwvector b
     + nShiftLMC st * sizeof_mwvector b + 2 * sizeof_mwvector b + sizeof_NBodyState b + sizeof_size_t b"

definition nbFreezeState :: "build \<Rightarrow> real NBodyCtx \<Rightarrow> NBodyState \<Rightarrow> item list" where
  "nbFreezeState b ctx st =
     [HeaderI (nbPrepareWriteCheckpointHeader b ctx st), SizeI (sizeof_NBodyState b), StateI st]
     @ map BodyI (take (nbody st) (bodytab st)) @ map BodyI (take (nbody st) (bestLikelihoodBodyTab st))
     @ (if orbitTrace st \<noteq> [] then map VecI (take (nOrbitTrace st) (orbitTrace st)) else [])
     @ (if shiftByLMC st \<noteq> []
        then map VecI (take (nShiftLMC st) (shiftByLMC st)) @ [VecI (LMCpos st), VecI (LMCvel st)] else [])
     @ [TailI]"

section \<open>Reading\<close>

text \<open>Copies out of the mapping; \<open>None\<close> when the bytes there are not objects of that type.\<close>

fun read_bodies :: "nat \<Rightarrow> item list \<Rightarrow> (Body list \<times> item list) option" where
  "read_bodies 0 p = Some ([], p)"
| "read_bodies (Suc n) (BodyI x # p) = map_option (\<lambda>(xs, p). (x # xs, p)) (read_bodies n p)"
| "read_bodies (Suc n) p = None"

fun read_vecs :: "nat \<Rightarrow> item list \<Rightarrow> (mwvector list \<times> item list) option" where
  "read_vecs 0 p = Some ([], p)"
| "read_vecs (Suc n) (VecI x # p) = map_option (\<lambda>(xs, p). (x # xs, p)) (read_vecs n p)"
| "read_vecs (Suc n) p = None"

fun read_front :: "item list \<Rightarrow> (NBodyCheckpointHeader \<times> nat \<times> NBodyState \<times> item list) option" where
  "read_front (HeaderI h # SizeI n # StateI s # p) = Some (h, n, s, p)"
| "read_front _ = None"

text \<open>
  \<open>nbThawState\<close> gives the flag of failure, the context and the state. A state with another OpenCL
  setting aborts the process, which is \<open>None\<close> as well.
\<close>

definition nbThawState :: "build \<Rightarrow> NBodyState \<Rightarrow> checkpoint_file
    \<Rightarrow> (bool \<times> real NBodyCtx \<times> NBodyState) option" where
  "nbThawState b st cp =
     Option.bind (read_front (contents cp)) (\<lambda>(cpHdr, sizeOfData, extractedSt, p).
       let (ctx, st) = nbReadCheckpointHeader cpHdr st;
           bodySize = nbody st * sizeof_Body b;
           traceSize = cp_nOrbitTrace cpHdr * sizeof_mwvector b;
           ShiftLMCSize = cp_nShiftLMC cpHdr * sizeof_mwvector b;
           LMCPosVelSize = 2 * sizeof_mwvector b;
           n = nbody st
       in if usesCL st \<noteq> usesCL extractedSt then None
          else
            let st = clonePartialNBodyState st extractedSt
            in Option.bind (read_bodies n p) (\<lambda>(bs, p).
               Option.bind (read_bodies n p) (\<lambda>(best, p).
               let st = st\<lparr>bodytab := bs, bestLikelihoodBodyTab := best\<rparr>
               in Option.bind
                    (if traceSize \<noteq> 0
                     then map_option (\<lambda>(xs, p). (st\<lparr>nOrbitTrace := cp_nOrbitTrace cpHdr, orbitTrace := xs\<rparr>, p))
                            (read_vecs (cp_nOrbitTrace cpHdr) p)
                     else Some (st, p)) (\<lambda>(st, p).
                  Option.bind
                    (if ShiftLMCSize \<noteq> 0
                     then Option.bind (read_vecs (cp_nShiftLMC cpHdr) p) (\<lambda>(xs, p).
                          map_option (\<lambda>(vs, p). (st\<lparr>nShiftLMC := cp_nShiftLMC cpHdr, shiftByLMC := xs,
                                                   LMCpos := vs ! 0, LMCvel := vs ! 1\<rparr>, p))
                            (read_vecs 2 p))
                     else Some (st, p)) (\<lambda>(st, p).
                  let supposedCheckpointSize = hdrSize b + 2 * bodySize + traceSize + ShiftLMCSize
                        + LMCPosVelSize + sizeOfData + sizeof_size_t b
                  in if nbVerifyCheckpointHeader b cpHdr cp supposedCheckpointSize then Some (True, ctx, st)
                     else if p = [] \<or> hd p \<noteq> TailI
                     then Some (True, ctx, st\<lparr>bodytab := [], bestLikelihoodBodyTab := [], orbitTrace := [],
                                              shiftByLMC := []\<rparr>)
                     else Some (False, ctx, st))))))"

text \<open>The outer functions. The parameters say whether opening, closing and renaming succeed.\<close>

definition nbReadCheckpoint :: "build \<Rightarrow> bool \<Rightarrow> bool \<Rightarrow> NBodyState \<Rightarrow> checkpoint_file
    \<Rightarrow> (bool \<times> real NBodyCtx option \<times> NBodyState) option" where
  "nbReadCheckpoint b open_ok close_ok st cp =
     (if \<not> open_ok then Some (True, None, st)
      else Option.bind (nbThawState b st cp) (\<lambda>(failed, ctx, st).
        if failed then Some (True, Some ctx, st)
        else if \<not> close_ok then Some (True, Some ctx, st)
        else Some (False, Some ctx, st\<lparr>acctab := replicate (nbody st) ZERO_VECTOR\<rparr>)))"

text \<open>Writing: the checkpoint of that name afterwards, and the flag of failure. The old file stays
  until the temporary one replaces it.\<close>

definition nbWriteCheckpoint :: "build \<Rightarrow> bool \<Rightarrow> bool \<Rightarrow> bool \<Rightarrow> real NBodyCtx \<Rightarrow> NBodyState
    \<Rightarrow> checkpoint_file option \<Rightarrow> bool \<times> checkpoint_file option" where
  "nbWriteCheckpoint b open_ok close_ok rename_ok ctx st old =
     (if \<not> open_ok then (True, old)
      else
        let tmp = \<lparr>contents = nbFreezeState b ctx st, cpFileSize = checkpoint_size b st\<rparr>;
            failed = (\<not> close_ok);
            (failed, new) = (if \<not> failed then (if \<not> rename_ok then (True, old) else (failed, Some tmp))
                             else (failed, old))
        in (failed, new))"

text \<open>\<open>nbTimeToCheckpoint\<close> of a client outside BOINC at the time \<open>now\<close>.\<close>

definition nbTimeToCheckpoint :: "real NBodyCtx \<Rightarrow> int \<Rightarrow> NBodyState \<Rightarrow> bool \<times> NBodyState" where
  "nbTimeToCheckpoint ctx now st =
     (if checkpointT ctx < 0 then (False, st)
      else if now - lastCheckpoint st > checkpointT ctx then (True, st\<lparr>lastCheckpoint := now\<rparr>)
      else (False, st))"

section \<open>Reading what was written\<close>

lemma read_back [simp]:
  "read_bodies (length xs) (map BodyI xs @ p) = Some (xs, p)"
  "read_vecs (length ys) (map VecI ys @ p) = Some (ys, p)"
  by (induction xs, auto) (induction ys, auto)

text \<open>The states checkpoints are taken of: the arrays have the announced lengths, and an array that
  is absent is announced as empty.\<close>

definition saveable :: "NBodyState \<Rightarrow> bool" where
  "saveable st \<longleftrightarrow> wf_state st \<and> length (orbitTrace st) = nOrbitTrace st
     \<and> length (shiftByLMC st) = nShiftLMC st"

text \<open>The state a checkpoint of \<open>old\<close> gives in a state \<open>st0\<close> without arrays.\<close>

definition restored :: "NBodyState \<Rightarrow> NBodyState \<Rightarrow> NBodyState" where
  "restored st0 old =
     (clonePartialNBodyState (snd (nbReadCheckpointHeader (nbPrepareWriteCheckpointHeader undefined undefined old) st0)) old)
       \<lparr>bodytab := bodytab old, bestLikelihoodBodyTab := bestLikelihoodBodyTab old,
        nOrbitTrace := (if nOrbitTrace old = 0 then nOrbitTrace st0 else nOrbitTrace old),
        orbitTrace := (if nOrbitTrace old = 0 then orbitTrace st0 else orbitTrace old),
        nShiftLMC := (if nShiftLMC old = 0 then nShiftLMC st0 else nShiftLMC old),
        shiftByLMC := (if nShiftLMC old = 0 then shiftByLMC st0 else shiftByLMC old),
        LMCpos := (if nShiftLMC old = 0 then LMCpos st0 else LMCpos old),
        LMCvel := (if nShiftLMC old = 0 then LMCvel st0 else LMCvel old)\<rparr>"

definition compatible :: "build \<Rightarrow> build \<Rightarrow> NBodyState \<Rightarrow> bool" where
  "compatible b b' st \<longleftrightarrow> sizeof_real b = sizeof_real b' \<and> sizeof_ptr b = sizeof_ptr b'
     \<and> version_major b = version_major b' \<and> version_minor b = version_minor b'
     \<and> checkpoint_size b st = checkpoint_size (b'\<lparr>sizeof_NBodyState := sizeof_NBodyState b\<rparr>) st"

lemma thaw_freeze:
  assumes "saveable st" "0 < sizeof_mwvector b'" "usesCL st0 = usesCL st"
  shows "nbThawState b' st0 \<lparr>contents = nbFreezeState b ctx st, cpFileSize = checkpoint_size b st\<rparr>
    = Some (\<not> compatible b b' st, ctx, restored st0 st)"
proof -
  have l: "length (bodytab st) = nbody st" "length (bestLikelihoodBodyTab st) = nbody st"
    "length (orbitTrace st) = nOrbitTrace st" "length (shiftByLMC st) = nShiftLMC st"
    using assms(1) by (simp_all add: saveable_def wf_state_def)
  have two: "read_vecs 2 (VecI v # VecI w # p) = Some ([v, w], p)" for v w p
    by (simp add: numeral_2_eq_2)
  have trace: "read_vecs (nOrbitTrace st) (map VecI (orbitTrace st) @ q) = Some (orbitTrace st, q)" for q
    using read_back(2)[of "orbitTrace st" q] l(3) by simp
  have shift: "read_vecs (nShiftLMC st) (map VecI (shiftByLMC st) @ q) = Some (shiftByLMC st, q)" for q
    using read_back(2)[of "shiftByLMC st" q] l(4) by simp
  have best: "read_bodies (nbody st) (map BodyI (bestLikelihoodBodyTab st) @ q)
      = Some (bestLikelihoodBodyTab st, q)" for q
    using read_back(1)[of "bestLikelihoodBodyTab st" q] l(2) by simp
  have bodies: "read_bodies (nbody st) (map BodyI (bodytab st) @ q) = Some (bodytab st, q)" for q
    using read_back(1)[of "bodytab st" q] l(1) by simp
  have hd: "cp_nbody (nbPrepareWriteCheckpointHeader b ctx st) = nbody st"
    "cp_nOrbitTrace (nbPrepareWriteCheckpointHeader b ctx st) = nOrbitTrace st"
    "cp_nShiftLMC (nbPrepareWriteCheckpointHeader b ctx st) = nShiftLMC st"
    "cp_step (nbPrepareWriteCheckpointHeader b ctx st) = step st"
    "cp_treeIncest (nbPrepareWriteCheckpointHeader b ctx st) = treeIncest st"
    "cp_rsize (nbPrepareWriteCheckpointHeader b ctx st) = rsize (tree st)"
    "cp_ctx (nbPrepareWriteCheckpointHeader b ctx st) = ctx"
    "cp_header (nbPrepareWriteCheckpointHeader b ctx st) = hdr"
    "cp_majorVersion (nbPrepareWriteCheckpointHeader b ctx st) = version_major b"
    "cp_minorVersion (nbPrepareWriteCheckpointHeader b ctx st) = version_minor b"
    "cp_realSize (nbPrepareWriteCheckpointHeader b ctx st) = sizeof_real b"
    "cp_ptrSize (nbPrepareWriteCheckpointHeader b ctx st) = sizeof_ptr b" for b ctx
    by (simp_all add: nbPrepareWriteCheckpointHeader_def)
  have nil: "orbitTrace st = [] \<longleftrightarrow> nOrbitTrace st = 0" "shiftByLMC st = [] \<longleftrightarrow> nShiftLMC st = 0"
    using l(3,4) by auto
  show ?thesis
    using assms(2,3)
    by (cases "nOrbitTrace st = 0"; cases "nShiftLMC st = 0")
      (auto simp: nbThawState_def nbFreezeState_def nbReadCheckpointHeader_def hd Let_def l nil
        clonePartialNBodyState_def trace shift best bodies two restored_def compatible_def
        nbVerifyCheckpointHeader_def checkpoint_size_def hdrSize_def)
qed

lemma written:
  "nbWriteCheckpoint b True True True ctx st old
   = (False, Some \<lparr>contents = nbFreezeState b ctx st, cpFileSize = checkpoint_size b st\<rparr>)"
  by (simp add: nbWriteCheckpoint_def)

lemma restored_fields:
  assumes "saveable st" "orbitTrace st0 = []" "shiftByLMC st0 = []"
  shows "bodytab (restored st0 st) = bodytab st" "bestLikelihoodBodyTab (restored st0 st) = bestLikelihoodBodyTab st"
    "nbody (restored st0 st) = nbody st" "step (restored st0 st) = step st"
    "orbitTrace (restored st0 st) = orbitTrace st" "shiftByLMC (restored st0 st) = shiftByLMC st"
    "rsize (tree (restored st0 st)) = rsize (tree st)" "treeIncest (restored st0 st) = treeIncest st"
    "lastCheckpoint (restored st0 st) = lastCheckpoint st" "bestLikelihood (restored st0 st) = bestLikelihood st"
    "potentialEvalError (restored st0 st) = potentialEvalError st0"
    "previousForwardTime (restored st0 st) = previousForwardTime st0"
  using assms by (auto simp: restored_def saveable_def clonePartialNBodyState_def nbReadCheckpointHeader_def)

text \<open>C12: a checkpoint restores what the run needs. Writing succeeds and gives a file that the same
  build reads without failure into an empty state: context, bodies, best-likelihood bodies, step,
  tree size, incest flag, orbit trace and LMC shift array are those of the state written, and
  \<open>acctab\<close> is zero until the next force calculation. The time that calibrates the bar is not in the
  result: it stays what the fresh state had.\<close>

theorem checkpoint_round_trip:
  assumes "saveable st" "0 < sizeof_mwvector b" "usesCL st0 = usesCL st"
    and "orbitTrace st0 = []" "shiftByLMC st0 = []"
  shows "\<exists>f st'. nbWriteCheckpoint b True True True ctx st old = (False, Some f)
    \<and> nbReadCheckpoint b True True st0 f = Some (False, Some ctx, st')
    \<and> bodytab st' = bodytab st \<and> bestLikelihoodBodyTab st' = bestLikelihoodBodyTab st
    \<and> nbody st' = nbody st \<and> step st' = step st \<and> orbitTrace st' = orbitTrace st
    \<and> shiftByLMC st' = shiftByLMC st \<and> rsize (tree st') = rsize (tree st)
    \<and> treeIncest st' = treeIncest st \<and> acctab st' = replicate (nbody st) ZERO_VECTOR
    \<and> previousForwardTime st' = previousForwardTime st0"
proof -
  have "compatible b b st" by (simp add: compatible_def)
  then show ?thesis
    using thaw_freeze[OF assms(1-3), of b ctx] restored_fields[OF assms(1,4,5)]
    by (simp add: written nbReadCheckpoint_def)
qed

text \<open>Reading refuses exactly the incompatible files. What a build \<open>b\<close> wrote, a build \<open>b'\<close>
  reads with failure unless both agree in the size of \<open>real\<close>, the size of pointers and both version
  numbers, and \<open>b'\<close> expects the file to have the size it has.\<close>

theorem checkpoint_refused_iff:
  assumes "saveable st" "0 < sizeof_mwvector b'" "usesCL st0 = usesCL st"
    and "nbWriteCheckpoint b True True True ctx st old = (False, Some f)"
  shows "\<exists>failed st'. nbReadCheckpoint b' True True st0 f = Some (failed, Some ctx, st')
    \<and> (failed \<longleftrightarrow> \<not> compatible b b' st)"
  using thaw_freeze[OF assms(1-3), of b ctx] assms(4) by (auto simp: written nbReadCheckpoint_def)

text \<open>C13: resuming continues the run. In a static setting (exact forces, no LMC, and no orbiting bar, whose
  calibration of the time a checkpoint does not restore), take a state in the middle of a run,
  write it, read it back into an empty state and calculate the accelerations, as
  \<open>nbRunSystemPlain\<close> does first: every number of further steps gives exactly the positions,
  velocities and step count of the uninterrupted run.\<close>

theorem resume_continues:
  assumes "static_ctx ctx" "ready env ctx st" "saveable st" "0 < sizeof_mwvector b"
    and "usesCL st0 = usesCL st" "orbitTrace st0 = []" "shiftByLMC st0 = []"
    and "nbWriteCheckpoint b True True True ctx st old = (False, Some f)"
    and "nbReadCheckpoint b True True st0 f = Some (False, Some ctx', st1)"
  shows "\<exists>rc st2 u w. ctx' = ctx \<and> nbGravMap env ctx st1 = Some (rc, st2)
    \<and> step_many env ctx n st = Some u \<and> step_many env ctx n st2 = Some w
    \<and> phase_of w = phase_of u \<and> step w = step u"
proof -
  define r where "r = restored st0 st"
  have st1: "st1 = r\<lparr>acctab := replicate (nbody r) ZERO_VECTOR\<rparr>" "ctx' = ctx"
    using assms(8,9) thaw_freeze[OF assms(3-5), of b ctx]
    by (auto simp: written nbReadCheckpoint_def r_def split: if_splits)
  note rf = restored_fields[OF assms(3,6,7), folded r_def]
  have l: "length (bodytab st1) = nbody st1" "length (acctab st1) = nbody st1"
    using assms(2) rf by (simp_all add: st1 ready_def)
  define st2 where "st2 = st1\<lparr>acctab := total_field env ctx (masses st1) (positions st1)\<rparr>"
  have g: "nbGravMap env ctx st1 = Some (force_status ctx st1, st2)"
    unfolding st2_def by (rule static_nbGravMap[OF assms(1) l])
  have rd: "ready env ctx st2"
    using l by (simp add: st2_def ready_def forces_current_def masses_def positions_def tf.force_length)
  have same: "masses st2 = masses st" "phase_of st2 = phase_of st" "step st2 = step st"
    using rf by (simp_all add: st2_def st1 masses_def phase_of_def)
  obtain u where u: "step_many env ctx n st = Some u" "step u = step st + n"
    "phase_of u = (leap (total_field env ctx (masses st)) (timestep ctx) ^^ n) (phase_of st)"
    by (rule static_steps[OF assms(1,2)])
  obtain w where w: "step_many env ctx n st2 = Some w" "step w = step st2 + n"
    "phase_of w = (leap (total_field env ctx (masses st2)) (timestep ctx) ^^ n) (phase_of st2)"
    by (rule static_steps[OF assms(1) rd])
  show ?thesis using st1(2) g u w same by auto
qed

section \<open>A sample checkpoint\<close>

definition sample_build :: build where
  "sample_build = \<lparr>version_major = 1, version_minor = 76, sizeof_real = 8, sizeof_ptr = 8, sizeof_size_t = 8,
     sizeof_Header = 900, sizeof_tail = 4, sizeof_Body = 96, sizeof_mwvector = 32, sizeof_NBodyState = 600\<rparr>"

lemma saveable_pair: "saveable (ready_pair ctx)"
  by (simp add: saveable_def wf_state_def ready_pair_def pair_state_def setInitialNBodyState_def
      EMPTY_NBODYSTATE_def tf.force_length positions_def)

lemma pair_CL: "usesCL EMPTY_NBODYSTATE = usesCL (ready_pair ctx)"
  "orbitTrace EMPTY_NBODYSTATE = []" "shiftByLMC EMPTY_NBODYSTATE = []" "0 < sizeof_mwvector sample_build"
  by (simp_all add: ready_pair_def pair_state_def setInitialNBodyState_def EMPTY_NBODYSTATE_def sample_build_def)

theorem checkpoint_round_trip_witness:
  "\<exists>f st'. nbWriteCheckpoint sample_build True True True halo_ctx (ready_pair halo_ctx) None = (False, Some f)
    \<and> nbReadCheckpoint sample_build True True EMPTY_NBODYSTATE f = Some (False, Some halo_ctx, st')
    \<and> bodytab st' = bodytab (ready_pair halo_ctx)"
  using checkpoint_round_trip[OF saveable_pair pair_CL(4,1,2,3)] by blast

theorem checkpoint_refused_iff_witness:
  "\<exists>f st'. nbWriteCheckpoint sample_build True True True halo_ctx (ready_pair halo_ctx) None = (False, Some f)
    \<and> nbReadCheckpoint (sample_build\<lparr>version_minor := 77\<rparr>) True True EMPTY_NBODYSTATE f
        = Some (True, Some halo_ctx, st')"
proof -
  let ?b = "sample_build\<lparr>version_minor := 77\<rparr>" and ?st = "ready_pair halo_ctx"
  have p: "0 < sizeof_mwvector ?b" "\<not> compatible sample_build ?b ?st"
    by (simp_all add: sample_build_def compatible_def)
  obtain failed st' where "nbReadCheckpoint ?b True True EMPTY_NBODYSTATE
      \<lparr>contents = nbFreezeState sample_build halo_ctx ?st, cpFileSize = checkpoint_size sample_build ?st\<rparr>
      = Some (failed, Some halo_ctx, st')" "failed \<longleftrightarrow> \<not> compatible sample_build ?b ?st"
    using checkpoint_refused_iff[OF saveable_pair[of halo_ctx] p(1) pair_CL(1)
        written[of sample_build halo_ctx "ready_pair halo_ctx" None]] by blast
  then show ?thesis using p(2) written[of sample_build halo_ctx ?st None] by auto
qed

theorem resume_continues_witness:
  "\<exists>f ctx' st1 rc st2 u w. nbReadCheckpoint sample_build True True EMPTY_NBODYSTATE f = Some (False, Some ctx', st1)
    \<and> nbGravMap sample_env halo_ctx st1 = Some (rc, st2)
    \<and> step_many sample_env halo_ctx 50 (ready_pair halo_ctx) = Some u
    \<and> step_many sample_env halo_ctx 50 st2 = Some w \<and> phase_of w = phase_of u"
proof -
  let ?f = "\<lparr>contents = nbFreezeState sample_build halo_ctx (ready_pair halo_ctx),
             cpFileSize = checkpoint_size sample_build (ready_pair halo_ctx)\<rparr>"
  have "compatible sample_build sample_build (ready_pair halo_ctx)" by (simp add: compatible_def)
  then obtain st1 where r: "nbReadCheckpoint sample_build True True EMPTY_NBODYSTATE ?f = Some (False, Some halo_ctx, st1)"
    using thaw_freeze[OF saveable_pair[of halo_ctx] pair_CL(4) pair_CL(1), where b = sample_build and ctx = halo_ctx]
    by (simp add: nbReadCheckpoint_def)
  show ?thesis
    using resume_continues[OF sample_ctxs(4) ready_pair saveable_pair pair_CL(4,1,2,3)
        written[of _ _ _ None] r, where n = 50] r by blast
qed

end
