(* ===== verification/NBody_Run.thy ===== *)
theory NBody_Run
  imports NBody_LMCShift NBody_Checkpoint
begin

text \<open>
  The run of \<open>nbody_plain.c\<close>: \<open>get_likelihood\<close>, \<open>nbCheckpoint\<close>, \<open>nbRunSystemPlain\<close>, with
  \<open>nbWriteFinalCheckpoint\<close> of \<open>nbody_checkpoint.c\<close>. Progress reports, the display and the development
  outputs leave the state alone and are left out; the client is not a BOINC application.
\<close>

section \<open>The environment of a run\<close>

text \<open>
  \<open>r_lik\<close> gives the eight likelihoods of \<open>nbSystemLikelihood\<close> for the present state, or \<open>None\<close> when
  \<open>get_likelihood\<close> returns early (no histogram asked for, or it cannot be made or read). \<open>r_now\<close> is
  the clock, \<open>r_write_fails\<close> the outcome of writing a checkpoint, \<open>r_lmc\<close> what the orbit integrator
  left in its file variables.
\<close>

record run_env =
  r_env :: force_env
  r_lik :: "NBodyState \<Rightarrow> dbl list option"
  r_outFile :: bool
  r_now :: "NBodyState \<Rightarrow> int"
  r_write_fails :: "NBodyState \<Rightarrow> bool"
  r_lmc :: lmc_file

section \<open>The best likelihood\<close>

definition clip_likelihood :: "dbl \<Rightarrow> dbl" where
  "clip_likelihood likelihood =
     (if likelihood > Fin DEFAULT_WORST_CASE \<or> likelihood < Fin (- 1 * DEFAULT_WORST_CASE) \<or> isnan likelihood
      then Fin DEFAULT_WORST_CASE
      else if likelihood = Fin 0 then Fin DEFAULT_BEST_CASE
      else likelihood)"

definition get_likelihood :: "run_env \<Rightarrow> real NBodyCtx \<Rightarrow> NBodyState \<Rightarrow> NBodyState" where
  "get_likelihood rn ctx st =
     (case r_lik rn st of
        None \<Rightarrow> st
      | Some likelihoodArray \<Rightarrow>
          let likelihood = clip_likelihood (likelihoodArray ! 0)
          in if \<bar>likelihood\<bar> < \<bar>bestLikelihood st\<bar>
             then
               let st = st\<lparr>bestLikelihood := likelihood,
                           bestLikelihood_EMD := likelihoodArray ! 1,
                           bestLikelihood_Mass := likelihoodArray ! 2,
                           bestLikelihood_Beta := (if st_useBetaDisp st then likelihoodArray ! 3 else Fin 0),
                           bestLikelihood_Vel := (if st_useVelDisp st then likelihoodArray ! 4 else Fin 0),
                           bestLikelihood_BetaAvg := (if st_useBetaComp st then likelihoodArray ! 5 else Fin 0),
                           bestLikelihood_VelAvg := (if st_useVlos st then likelihoodArray ! 6 else Fin 0),
                           bestLikelihood_Dist := (if st_useDist st then likelihoodArray ! 7 else Fin 0),
                           bestLikelihood_time := real (step st) / real (nStep ctx) * timeEvolve ctx,
                           bestLikelihood_count := bestLikelihood_count st + 1\<rparr>
               in if r_outFile rn
                  then st\<lparr>bestLikelihoodBodyTab := take (nbody st) (bodytab st)\<rparr>
                  else st
             else st)"

section \<open>Checkpoints during the run\<close>

definition nbCheckpoint :: "run_env \<Rightarrow> real NBodyCtx \<Rightarrow> NBodyState \<Rightarrow> NBodyStatus \<times> NBodyState" where
  "nbCheckpoint rn ctx st =
     (let (due, st) = nbTimeToCheckpoint ctx (r_now rn st) st
      in if due then (if r_write_fails rn st then (NBODY_CHECKPOINT_ERROR, st) else (NBODY_SUCCESS, st))
         else (NBODY_SUCCESS, st))"

definition nbWriteFinalCheckpoint :: "run_env \<Rightarrow> real NBodyCtx \<Rightarrow> NBodyState \<Rightarrow> NBodyStatus" where
  "nbWriteFinalCheckpoint rn ctx st =
     (if checkpointT ctx \<ge> 0 \<and> r_write_fails rn st then NBODY_CHECKPOINT_ERROR else NBODY_SUCCESS)"

section \<open>The run\<close>

partial_function (option) run_loop :: "run_env \<Rightarrow> real NBodyCtx \<Rightarrow> NBodyStatus \<Rightarrow> NBodyState
    \<Rightarrow> (NBodyStatus \<times> NBodyState) option" where
  "run_loop rn ctx rc st =
     (if step st < nStep ctx
      then Option.bind
        (if \<not> LMC ctx then nbStepSystemPlain (r_env rn) ctx st ZERO_VECTOR ZERO_VECTOR
         else nbStepSystemPlain (r_env rn) ctx st (shiftByLMC st ! step st) (shiftByLMC st ! (step st + 1)))
        (\<lambda>(rc', st).
          let rc = or rc rc';
              st = (if real (step st) / real (nStep ctx) \<ge> BestLikeStart ctx \<and> useBestLike ctx
                    then get_likelihood rn ctx st else st)
          in if nbStatusIsFatal rc then Some (rc, st)
             else
               let (rc'', st) = nbCheckpoint rn ctx st; rc = or rc rc''
               in if nbStatusIsFatal rc then Some (rc, st) else run_loop rn ctx rc st)
      else Some (nbWriteFinalCheckpoint rn ctx st, st))"

definition nbRunSystemPlain :: "run_env \<Rightarrow> real NBodyCtx \<Rightarrow> NBodyState
    \<Rightarrow> (NBodyStatus \<times> NBodyState) option" where
  "nbRunSystemPlain rn ctx st =
     (let st = (if LMC ctx \<and> shiftByLMC st = []
                then
                  let (shiftLMC, sizeLMC) = getLMCArray (r_lmc rn);
                      st = setLMCShiftArray st shiftLMC sizeLMC;
                      (LMCx, LMCv) = getLMCPosVel (r_lmc rn)
                  in setLMCPosVel st LMCx LMCv
                else st)
      in Option.bind (nbGravMap (r_env rn) ctx st) (\<lambda>(rc, st).
           let rc = or NBODY_SUCCESS rc
           in if nbStatusIsFatal rc then Some (rc, st)
              else run_loop rn ctx rc (st\<lparr>bestLikelihood := Fin DEFAULT_WORST_CASE\<rparr>)))"


section \<open>What the parts of the loop leave alone\<close>

lemma get_likelihood_frame:
  "bodytab (get_likelihood rn ctx st) = bodytab st" "acctab (get_likelihood rn ctx st) = acctab st"
  "nbody (get_likelihood rn ctx st) = nbody st" "step (get_likelihood rn ctx st) = step st"
  "treeIncest (get_likelihood rn ctx st) = treeIncest st"
  "potentialEvalError (get_likelihood rn ctx st) = potentialEvalError st"
  by (simp_all add: get_likelihood_def Let_def split: option.split)

lemma nbTimeToCheckpoint_cases:
  "snd (nbTimeToCheckpoint ctx now st) = st\<lparr>lastCheckpoint := (if fst (nbTimeToCheckpoint ctx now st) then now
     else lastCheckpoint st)\<rparr>"
  by (simp add: nbTimeToCheckpoint_def)

lemma nbCheckpoint_frame:
  "bodytab (snd (nbCheckpoint rn ctx st)) = bodytab st" "acctab (snd (nbCheckpoint rn ctx st)) = acctab st"
  "nbody (snd (nbCheckpoint rn ctx st)) = nbody st" "step (snd (nbCheckpoint rn ctx st)) = step st"
  "treeIncest (snd (nbCheckpoint rn ctx st)) = treeIncest st"
  "potentialEvalError (snd (nbCheckpoint rn ctx st)) = potentialEvalError st"
  "bestLikelihood (snd (nbCheckpoint rn ctx st)) = bestLikelihood st"
  by (cases "nbTimeToCheckpoint ctx (r_now rn st) st";
      use nbTimeToCheckpoint_cases[of ctx "r_now rn st" st] in \<open>simp add: nbCheckpoint_def\<close>)+

lemma nbCheckpoint_status:
  "fst (nbCheckpoint rn ctx st) = NBODY_SUCCESS \<or> fst (nbCheckpoint rn ctx st) = NBODY_CHECKPOINT_ERROR"
  "(\<And>s. \<not> r_write_fails rn s) \<Longrightarrow> fst (nbCheckpoint rn ctx st) = NBODY_SUCCESS"
  by (simp_all add: nbCheckpoint_def split: prod.split)

lemmas run_frame = get_likelihood_frame nbCheckpoint_frame

lemma ready_frame:
  "\<lbrakk>bodytab st' = bodytab st; acctab st' = acctab st; nbody st' = nbody st\<rbrakk>
    \<Longrightarrow> ready env ctx st' = ready env ctx st \<and> masses st' = masses st \<and> phase_of st' = phase_of st"
  by (simp add: ready_def forces_current_def masses_def positions_def phase_of_def)

lemma force_status_frame:
  "\<lbrakk>treeIncest st' = treeIncest st; potentialEvalError st' = potentialEvalError st\<rbrakk>
    \<Longrightarrow> force_status ctx st' = force_status ctx st"
  by (simp add: force_status_def nbIncestStatusCheck_def)

section \<open>The status of a run\<close>

text \<open>The contexts in which no force calculation ends the program.\<close>

definition safe_ctx :: "real NBodyCtx \<Rightarrow> bool" where
  "safe_ctx ctx \<longleftrightarrow> criterion ctx = Exact \<and> \<not> LMC ctx
     \<and> (potentialType ctx = EXTERNAL_POTENTIAL_DEFAULT \<longrightarrow> accel_types_ok (pot ctx))"

lemma safe_add_external:
  assumes "safe_ctx ctx"
  shows "add_external env ctx st p a \<noteq> None"
  using assms nbExtAcceleration_None_iff[of "env_tabs env" "pot ctx" p "barTime ctx st"]
  by (cases "potentialType ctx") (auto simp: add_external_def safe_ctx_def split: prod.split)

lemma fold_some:
  assumes "\<And>i s. f i s \<noteq> None"
  shows "fold (\<lambda>i so. Option.bind so (f i)) js (Some s) \<noteq> None"
proof (induction js arbitrary: s)
  case (Cons i js)
  obtain s' where "f i s = Some s'" using assms[of i s] by auto
  then show ?case using Cons.IH[of s'] by simp
qed simp

lemma safe_nbGravMap:
  assumes "safe_ctx ctx"
  shows "nbGravMap env ctx st \<noteq> None"
proof -
  have "Option.bind (add_external env ctx s (b_pos (bodytab s ! i)) (nbGravity_Exact ctx s i))
      (\<lambda>(a, s). Some (set_acc i a s)) \<noteq> None" for i s
    using safe_add_external[OF assms, of env s "b_pos (bodytab s ! i)" "nbGravity_Exact ctx s i"]
    by (auto split: prod.split)
  then show ?thesis
    using fold_some[of "\<lambda>i st. Option.bind (add_external env ctx st (b_pos (bodytab st ! i)) (nbGravity_Exact ctx st i))
      (\<lambda>(a, st). Some (set_acc i a st))"] assms
    by (auto simp: nbGravMap_def nbMapForceBody_Exact_def safe_ctx_def)
qed

lemma fold_step_kept:
  "(\<And>i s. step (f i s) = step s) \<Longrightarrow> step (fold f js s) = step s"
  by (induction js arbitrary: s) auto

lemma advance_step:
  "step (advancePosVel st n dt a) = step st" "step (advanceVelocities st n dt a) = step st"
  unfolding advancePosVel_def advanceVelocities_def Let_def
  by (rule fold_step_kept, simp add: upd_body_def)+

lemma add_external_step: "add_external env ctx st p a = Some (b, st') \<Longrightarrow> step st' = step st"
  by (cases "potentialType ctx")
    (auto simp: add_external_def nbEvalPotentialClosure_def bind_eq_Some_conv Let_def
      split: prod.splits option.splits)

lemma exact_loop_step:
  "fold (\<lambda>i so. Option.bind so (\<lambda>st.
      Option.bind (add_external env ctx st (b_pos (bodytab st ! i)) (nbGravity_Exact ctx st i))
        (\<lambda>(a, st). Some (set_acc i a st)))) js so = Some st' \<Longrightarrow> \<exists>st. so = Some st \<and> step st' = step st"
proof (induction js arbitrary: so)
  case (Cons i js)
  from Cons.IH[OF Cons.prems[simplified fold_Cons comp_def]] show ?case
    by (auto simp: bind_eq_Some_conv set_acc_def dest!: add_external_step)
qed simp

lemma nbGravMap_step:
  "\<lbrakk>criterion ctx = Exact; nbGravMap env ctx st = Some (rc, st')\<rbrakk> \<Longrightarrow> step st' = step st"
  by (auto simp: nbGravMap_def nbMapForceBody_Exact_def dest!: exact_loop_step)

lemma safe_step:
  assumes "safe_ctx ctx"
  obtains rc st' where "nbStepSystemPlain env ctx st a b = Some (rc, st')" "step st' = Suc (step st)"
proof -
  have c: "criterion ctx = Exact" "LMC ctx = False" using assms by (auto simp: safe_ctx_def)
  obtain rc s where g: "nbGravMap env ctx (advancePosVel st (nbody st) (timestep ctx) a) = Some (rc, s)"
    using safe_nbGravMap[OF assms] by fast
  have "step s = step st" using nbGravMap_step[OF c(1) g] by (simp add: advance_step)
  moreover have "nbStepSystemPlain env ctx st a b
      = Some (rc, (advanceVelocities s (nbody s) (timestep ctx) b)\<lparr>step := Suc (step s)\<rparr>)"
    using c g by (simp add: nbStepSystemPlain_def Let_def advance_step)
  ultimately show thesis by (auto intro: that)
qed

lemma safe_run_loop:
  assumes "safe_ctx ctx"
  shows "\<exists>rc' st'. run_loop rn ctx rc st = Some (rc', st')
    \<and> (rc' = NBODY_SUCCESS \<and> step st' \<ge> nStep ctx \<or> nbStatusIsFatal rc')"
proof (induction "nStep ctx - step st" arbitrary: rc st rule: less_induct)
  case less
  show ?case
  proof (cases "step st < nStep ctx")
    case True
    obtain rc1 s1 where s1: "nbStepSystemPlain (r_env rn) ctx st ZERO_VECTOR ZERO_VECTOR = Some (rc1, s1)"
      "step s1 = Suc (step st)"
      by (rule safe_step[OF assms])
    define s2 where "s2 = (if real (step s1) / real (nStep ctx) \<ge> BestLikeStart ctx \<and> useBestLike ctx
                    then get_likelihood rn ctx s1 else s1)"
    obtain rc3 s3 where s3: "nbCheckpoint rn ctx s2 = (rc3, s3)" by fastforce
    have st: "step s3 = Suc (step st)"
      using s1(2) nbCheckpoint_frame(4)[of rn ctx s2] unfolding s3 by (simp add: s2_def run_frame)
    have "nStep ctx - step s3 < nStep ctx - step st" using True st by simp
    have "run_loop rn ctx rc st =
        (if nbStatusIsFatal (or rc rc1) then Some (or rc rc1, s2)
         else if nbStatusIsFatal (or (or rc rc1) rc3) then Some (or (or rc rc1) rc3, s3)
         else run_loop rn ctx (or (or rc rc1) rc3) s3)"
      using True assms s3 by (subst run_loop.simps) (simp add: s1(1) s2_def Let_def safe_ctx_def)
    then show ?thesis using less[OF \<open>nStep ctx - step s3 < nStep ctx - step st\<close>] by auto
  qed (subst run_loop.simps, simp add: nbWriteFinalCheckpoint_def)
qed

text \<open>C10: how a run ends. With exact forces, no LMC and a valid potential (a Lua closure
  included), whatever the closure, the likelihood, the clock and the outcome of writing checkpoints
  are, \<open>nbRunSystemPlain\<close> returns. Its status is success or a fatal status, never a warning:
  warnings of the steps are dropped at the end of the loop. When it is not fatal, all steps have
  been made.\<close>

theorem nbRunSystemPlain_status:
  assumes "safe_ctx ctx"
  shows "\<exists>rc st'. nbRunSystemPlain rn ctx st = Some (rc, st')
    \<and> (rc = NBODY_SUCCESS \<and> step st' \<ge> nStep ctx \<or> nbStatusIsFatal rc)"
proof -
  have c: "\<not> LMC ctx" using assms by (simp add: safe_ctx_def)
  obtain rc s where g: "nbGravMap (r_env rn) ctx st = Some (rc, s)" using safe_nbGravMap[OF assms] by fast
  show ?thesis
    using c g safe_run_loop[OF assms, of rn "or NBODY_SUCCESS rc" "s\<lparr>bestLikelihood := Fin DEFAULT_WORST_CASE\<rparr>"]
    by (auto simp: nbRunSystemPlain_def Let_def)
qed

section \<open>A static run\<close>

text \<open>
  In a static setting the loop makes the remaining steps of the leapfrog. When the likelihoods
  depend on the step and on positions and velocities only, the best one is found by looking at the
  trajectory of the leapfrog.
\<close>

definition better :: "dbl \<Rightarrow> dbl \<Rightarrow> dbl" where
  "better x b = (if \<bar>x\<bar> < \<bar>b\<bar> then x else b)"

definition looked_at :: "real NBodyCtx \<Rightarrow> nat \<Rightarrow> bool" where
  "looked_at ctx k \<longleftrightarrow> useBestLike ctx \<and> BestLikeStart ctx \<le> real k / real (nStep ctx)"

definition likelihoods_seen :: "real NBodyCtx \<Rightarrow> (nat \<Rightarrow> dbl) \<Rightarrow> nat \<Rightarrow> nat \<Rightarrow> dbl list" where
  "likelihoods_seen ctx lik i n = map (\<lambda>k. clip_likelihood (lik k)) (filter (looked_at ctx) [Suc i ..< Suc n])"

lemma likelihoods_seen_Suc:
  "i < n \<Longrightarrow> likelihoods_seen ctx lik i n
     = (if looked_at ctx (Suc i) then [clip_likelihood (lik (Suc i))] else []) @ likelihoods_seen ctx lik (Suc i) n"
  by (simp add: likelihoods_seen_def upt_conv_Cons del: upt_Suc)

lemma get_likelihood_best:
  "bestLikelihood (get_likelihood rn ctx st)
   = (case r_lik rn st of None \<Rightarrow> bestLikelihood st
      | Some xs \<Rightarrow> better (clip_likelihood (xs ! 0)) (bestLikelihood st))"
  by (simp add: get_likelihood_def better_def Let_def split: option.split)

lemma static_run_loop:
  assumes s: "static_ctx ctx" and w: "\<And>s. \<not> r_write_fails rn s"
    and lik: "\<And>s. \<exists>xs. r_lik rn s = Some xs \<and> xs ! 0 = lik (step s) (phase_of s)"
    and "ready (r_env rn) ctx st" "\<not> nbStatusIsFatal rc" "\<not> nbStatusIsFatal (force_status ctx st)"
  defines "F \<equiv> total_field (r_env rn) ctx (masses st)"
  shows "\<exists>st'. run_loop rn ctx rc st = Some (NBODY_SUCCESS, st')
    \<and> step st' = max (step st) (nStep ctx) \<and> masses st' = masses st
    \<and> phase_of st' = (leap F (timestep ctx) ^^ (nStep ctx - step st)) (phase_of st)
    \<and> bestLikelihood st' = fold better (likelihoods_seen ctx
        (\<lambda>k. lik k ((leap F (timestep ctx) ^^ (k - step st)) (phase_of st))) (step st) (nStep ctx)) (bestLikelihood st)"
  using assms(4-6) unfolding F_def
proof (induction "nStep ctx - step st" arbitrary: rc st)
  case 0
  then show ?case
    by (subst run_loop.simps) (simp add: nbWriteFinalCheckpoint_def w likelihoods_seen_def)
next
  case (Suc m)
  let ?F = "total_field (r_env rn) ctx (masses st)" and ?dt = "timestep ctx"
  have lt: "step st < nStep ctx" and c: "\<not> LMC ctx" using Suc.hyps(2) s by (auto simp: static_ctx_def)
  obtain bs as where st: "nbStepSystemPlain (r_env rn) ctx st ZERO_VECTOR ZERO_VECTOR
        = Some (force_status ctx st, st\<lparr>bodytab := bs, acctab := as, step := Suc (step st)\<rparr>)"
      "ready (r_env rn) ctx (st\<lparr>bodytab := bs, acctab := as, step := Suc (step st)\<rparr>)"
      "map b_mass bs = masses st"
      "map (\<lambda>b. (b_pos b, b_vel b)) bs = leap ?F ?dt (phase_of st)"
    using static_step[OF s Suc.prems(1)] by blast
  define s1 where "s1 = st\<lparr>bodytab := bs, acctab := as, step := Suc (step st)\<rparr>"
  define s2 where "s2 = (if real (step s1) / real (nStep ctx) \<ge> BestLikeStart ctx \<and> useBestLike ctx
                    then get_likelihood rn ctx s1 else s1)"
  obtain rc3 s3 where s3: "nbCheckpoint rn ctx s2 = (rc3, s3)" by fastforce
  have rc3: "rc3 = NBODY_SUCCESS" using nbCheckpoint_status(2)[of rn ctx s2, OF w] by (simp add: s3)
  have f21: "bodytab s2 = bodytab s1" "acctab s2 = acctab s1" "nbody s2 = nbody s1" "step s2 = step s1"
    "treeIncest s2 = treeIncest s1" "potentialEvalError s2 = potentialEvalError s1"
    by (simp_all add: s2_def run_frame)
  note f32 = nbCheckpoint_frame[of rn ctx s2, unfolded s3 snd_conv]
  have s1: "masses s1 = masses st" "phase_of s1 = leap ?F ?dt (phase_of st)" "step s1 = Suc (step st)"
    "ready (r_env rn) ctx s1" "force_status ctx s1 = force_status ctx st"
    using st(2-4) by (simp_all add: s1_def masses_def phase_of_def force_status_def nbIncestStatusCheck_def)
  have same: "masses s3 = masses st" "phase_of s3 = leap ?F ?dt (phase_of st)" "step s3 = Suc (step st)"
    "ready (r_env rn) ctx s3" "force_status ctx s3 = force_status ctx st"
    using ready_frame[of s3 s1] s1 force_status_frame[of s3 s1] by (simp_all add: f21 f32)
  have best: "bestLikelihood s3 = (if looked_at ctx (Suc (step st))
      then better (clip_likelihood (lik (Suc (step st)) (leap ?F ?dt (phase_of st)))) (bestLikelihood st)
      else bestLikelihood st)"
    using lik[of s1] s1(2,3) by (auto simp: f32 s2_def get_likelihood_best looked_at_def) (auto simp: s1_def)
  have "\<not> nbStatusIsFatal (or rc (force_status ctx st))" using Suc.prems(2,3) by (simp add: fatal_or)
  then have run: "run_loop rn ctx rc st = run_loop rn ctx (or (or rc (force_status ctx st)) rc3) s3"
    using lt c s3 rc3
    by (subst run_loop.simps) (simp add: st(1) s1_def[symmetric] s2_def[symmetric] fatal_or)
  have "\<not> nbStatusIsFatal (or (or rc (force_status ctx st)) rc3)"
    using Suc.prems(2,3) by (simp add: fatal_or rc3)
  moreover have "m = nStep ctx - step s3" using Suc.hyps(2) same(3) by simp
  ultimately obtain st' where i: "run_loop rn ctx (or (or rc (force_status ctx st)) rc3) s3 = Some (NBODY_SUCCESS, st')"
    "step st' = max (step s3) (nStep ctx)" "masses st' = masses s3"
    "phase_of st' = (leap (total_field (r_env rn) ctx (masses s3)) ?dt ^^ (nStep ctx - step s3)) (phase_of s3)"
    "bestLikelihood st' = fold better (likelihoods_seen ctx
        (\<lambda>k. lik k ((leap (total_field (r_env rn) ctx (masses s3)) ?dt ^^ (k - step s3)) (phase_of s3)))
        (step s3) (nStep ctx)) (bestLikelihood s3)"
    using Suc.hyps(1)[of s3 "or (or rc (force_status ctx st)) rc3"] same Suc.prems by auto
  have pow: "(leap ?F ?dt ^^ (k - Suc j)) (leap ?F ?dt ps) = (leap ?F ?dt ^^ (k - j)) ps" if "j < k" for j k ps
    using that by (simp add: funpow_swap1 flip: Suc_diff_Suc)
  have seen: "likelihoods_seen ctx (\<lambda>k. lik k ((leap ?F ?dt ^^ (k - Suc (step st))) (leap ?F ?dt (phase_of st))))
        (Suc (step st)) (nStep ctx)
      = likelihoods_seen ctx (\<lambda>k. lik k ((leap ?F ?dt ^^ (k - step st)) (phase_of st))) (Suc (step st)) (nStep ctx)"
    by (auto simp: likelihoods_seen_def pow intro!: map_cong)
  show ?case
    using i lt unfolding run same best seen
    by (intro exI[of _ st']) (simp add: pow likelihoods_seen_Suc)
qed

end
