(* ===== verification/NBody_RunProps.thy ===== *)
theory NBody_RunProps
  imports NBody_Run
begin

text \<open>
  What \<open>nbRunSystemPlain\<close> computes in a static setting: the whole run is a power of the leapfrog,
  and the likelihood it reports is the best one of the steps looked at.
\<close>

section \<open>Keeping the better likelihood\<close>

lemma clip_likelihood_Fin: "\<exists>r. clip_likelihood x = Fin r"
  by (cases x) (auto simp: clip_likelihood_def)

lemma fold_better:
  assumes "\<And>x. x \<in> set xs \<Longrightarrow> \<exists>r. x = Fin r"
  shows "\<exists>r. fold better xs (Fin b) = Fin r \<and> \<bar>r\<bar> \<le> \<bar>b\<bar>
    \<and> (\<forall>x\<in>set xs. \<bar>Fin r\<bar> \<le> \<bar>x\<bar>) \<and> (Fin r = Fin b \<or> Fin r \<in> set xs)"
  using assms
proof (induction xs arbitrary: b)
  case (Cons x xs)
  obtain a where a: "x = Fin a" using Cons.prems by force
  define c where "c = (if \<bar>a\<bar> < \<bar>b\<bar> then a else b)"
  have bt: "better (Fin a) (Fin b) = Fin c" by (simp add: better_def c_def)
  obtain r where "fold better xs (Fin c) = Fin r" "\<bar>r\<bar> \<le> \<bar>c\<bar>"
    "\<forall>x\<in>set xs. \<bar>Fin r\<bar> \<le> \<bar>x\<bar>" "Fin r = Fin c \<or> Fin r \<in> set xs"
    using Cons.IH[of c] Cons.prems by force
  then show ?case using bt by (auto simp: a c_def split: if_splits)
qed simp

lemma set_likelihoods_seen:
  "set (likelihoods_seen ctx lik i n) = {clip_likelihood (lik k) |k. i < k \<and> k \<le> n \<and> looked_at ctx k}"
  by (auto simp: likelihoods_seen_def)

section \<open>The run\<close>

lemma static_run:
  assumes "static_ctx ctx" "length (bodytab st) = nbody st" "length (acctab st) = nbody st"
    and "\<And>s. \<not> r_write_fails rn s" "\<not> nbStatusIsFatal (force_status ctx st)"
    and "\<And>s. \<exists>xs. r_lik rn s = Some xs \<and> xs ! 0 = lik (step s) (phase_of s)"
  defines "F \<equiv> total_field (r_env rn) ctx (masses st)"
  shows "\<exists>st'. nbRunSystemPlain rn ctx st = Some (NBODY_SUCCESS, st')
    \<and> step st' = max (step st) (nStep ctx) \<and> masses st' = masses st
    \<and> phase_of st' = (leap F (timestep ctx) ^^ (nStep ctx - step st)) (phase_of st)
    \<and> bestLikelihood st' = fold better (likelihoods_seen ctx
        (\<lambda>k. lik k ((leap F (timestep ctx) ^^ (k - step st)) (phase_of st))) (step st) (nStep ctx))
        (Fin DEFAULT_WORST_CASE)"
proof -
  define s0 where "s0 = st\<lparr>acctab := F (positions st)\<rparr>"
  let ?s = "s0\<lparr>bestLikelihood := Fin DEFAULT_WORST_CASE\<rparr>"
  have c: "\<not> LMC ctx" using assms(1) by (simp add: static_ctx_def)
  have g: "nbGravMap (r_env rn) ctx st = Some (force_status ctx st, s0)"
    unfolding s0_def F_def by (rule static_nbGravMap[OF assms(1-3)])
  have f: "masses ?s = masses st" "phase_of ?s = phase_of st" "step ?s = step st"
    "force_status ctx ?s = force_status ctx st" "ready (r_env rn) ctx ?s"
    using assms(2) by (simp_all add: s0_def masses_def phase_of_def ready_def forces_current_def positions_def
        F_def tf.force_length force_status_def nbIncestStatusCheck_def)
  have nf: "\<not> nbStatusIsFatal (or NBODY_SUCCESS (force_status ctx st))"
    using assms(5) by (simp add: fatal_or)
  have r: "nbRunSystemPlain rn ctx st = run_loop rn ctx (or NBODY_SUCCESS (force_status ctx st)) ?s"
    using c nf by (simp add: nbRunSystemPlain_def Let_def g)
  show ?thesis
    using static_run_loop[OF assms(1,4,6) f(5) nf] assms(5) unfolding r f(1-4) F_def by simp
qed


text \<open>C11: the run reports the best likelihood. In a static setting, with no fatal flag set, no
  failing write and a likelihood that exists at every step and depends on the step and on positions and
  velocities alone, the \<open>bestLikelihood\<close> at the end is a number at most the worst case in absolute value, at
  least as good as the clipped likelihood of every step of this run from the fraction \<open>BestLikeStart\<close> on,
  and is the worst case or one of these. The steps
  before a resumed checkpoint do not count: the run starts again from the worst case.\<close>

theorem best_likelihood_is_minimum:
  assumes "static_ctx ctx" "length (bodytab st) = nbody st" "length (acctab st) = nbody st"
    and "\<And>s. \<not> r_write_fails rn s" "\<not> nbStatusIsFatal (force_status ctx st)"
    and "\<And>s. \<exists>xs. r_lik rn s = Some xs \<and> xs ! 0 = lik (step s) (phase_of s)"
  defines "found \<equiv> \<lambda>k. clip_likelihood (lik k ((leap (total_field (r_env rn) ctx (masses st)) (timestep ctx)
      ^^ (k - step st)) (phase_of st)))"
  shows "\<exists>st' b. nbRunSystemPlain rn ctx st = Some (NBODY_SUCCESS, st') \<and> bestLikelihood st' = Fin b
    \<and> \<bar>b\<bar> \<le> DEFAULT_WORST_CASE
    \<and> (\<forall>k. step st < k \<and> k \<le> nStep ctx \<and> looked_at ctx k \<longrightarrow> \<bar>Fin b\<bar> \<le> \<bar>found k\<bar>)
    \<and> (b = DEFAULT_WORST_CASE \<or> (\<exists>k. step st < k \<and> k \<le> nStep ctx \<and> looked_at ctx k \<and> Fin b = found k))"
proof -
  let ?lik = "\<lambda>k. lik k ((leap (total_field (r_env rn) ctx (masses st)) (timestep ctx)
      ^^ (k - step st)) (phase_of st))"
  let ?xs = "likelihoods_seen ctx ?lik (step st) (nStep ctx)"
  obtain st' where st': "nbRunSystemPlain rn ctx st = Some (NBODY_SUCCESS, st')"
    "bestLikelihood st' = fold better ?xs (Fin DEFAULT_WORST_CASE)"
    using static_run[OF assms(1-6)] by blast
  have "\<exists>r. x = Fin r" if "x \<in> set ?xs" for x
    using that clip_likelihood_Fin by (auto simp: set_likelihoods_seen)
  from fold_better[of ?xs DEFAULT_WORST_CASE, OF this] obtain b where b:
    "fold better ?xs (Fin DEFAULT_WORST_CASE) = Fin b" "\<bar>b\<bar> \<le> \<bar>DEFAULT_WORST_CASE\<bar>"
    "\<forall>x\<in>set ?xs. \<bar>Fin b\<bar> \<le> \<bar>x\<bar>" "Fin b = Fin DEFAULT_WORST_CASE \<or> Fin b \<in> set ?xs" by auto
  have w: "\<bar>DEFAULT_WORST_CASE\<bar> = DEFAULT_WORST_CASE" by (simp add: DEFAULT_WORST_CASE_def)
  show ?thesis
    using b(2-4) unfolding w by (intro exI[of _ st'] exI[of _ b])
      (auto simp: st' b(1) set_likelihoods_seen found_def)
qed

section \<open>A sample run\<close>

definition run_ctx :: "real NBodyCtx" where
  "run_ctx = halo_ctx\<lparr>nStep := 100, useBestLike := True, BestLikeStart := 1/2\<rparr>"

definition sample_run :: run_env where
  "sample_run = \<lparr>r_env = sample_env,
     r_lik = (\<lambda>s. Some [Fin (real (step s) - 70.5), Fin 0, Fin 0, Fin 0, Fin 0, Fin 0, Fin 0, Fin 0]),
     r_outFile = False, r_now = (\<lambda>s. int (step s)), r_write_fails = (\<lambda>_. False), r_lmc = undefined\<rparr>"

lemma sample_run_ok: "static_ctx run_ctx" "\<And>s. \<not> r_write_fails sample_run s"
  "length (bodytab pair_state) = nbody pair_state" "length (acctab pair_state) = nbody pair_state"
  "\<not> nbStatusIsFatal (force_status run_ctx pair_state)" "safe_ctx run_ctx"
  "\<And>s. \<exists>xs. r_lik sample_run s = Some xs \<and> xs ! 0 = Fin (real (step s) - 70.5)"
  using sample_ctxs(4)
  by (auto simp: run_ctx_def sample_run_def static_ctx_def safe_ctx_def force_status_def
      nbIncestStatusCheck_def pair_state_def setInitialNBodyState_def EMPTY_NBODYSTATE_def)

lemma pair_state_step: "step pair_state = 0"
  by (simp add: pair_state_def setInitialNBodyState_def EMPTY_NBODYSTATE_def)

theorem nbRunSystemPlain_status_witness:
  "\<exists>rc st'. nbRunSystemPlain sample_run run_ctx pair_state = Some (rc, st')"
  using nbRunSystemPlain_status[OF sample_run_ok(6), of sample_run pair_state] by blast


theorem best_likelihood_is_minimum_witness:
  "\<exists>st' b. nbRunSystemPlain sample_run run_ctx pair_state = Some (NBODY_SUCCESS, st')
     \<and> bestLikelihood st' = Fin b \<and> \<bar>b\<bar> \<le> 1/2"
proof -
  obtain st' b where *: "nbRunSystemPlain sample_run run_ctx pair_state = Some (NBODY_SUCCESS, st')"
    "bestLikelihood st' = Fin b"
    "\<forall>k. step pair_state < k \<and> k \<le> nStep run_ctx \<and> looked_at run_ctx k
       \<longrightarrow> \<bar>Fin b\<bar> \<le> \<bar>clip_likelihood (Fin (real k - 70.5))\<bar>"
    using best_likelihood_is_minimum[OF sample_run_ok(1,3,4,2,5,7)] by blast
  from *(3)[rule_format, of 70] have "\<bar>b\<bar> \<le> 1/2"
    by (simp add: pair_state_step run_ctx_def looked_at_def clip_likelihood_def DEFAULT_WORST_CASE_def)
  with * show ?thesis by blast
qed

end
