(* ===== verification/NBody_Histogram.thy ===== *)
theory NBody_Histogram
  imports NBody_Coordinates NBody_Force
begin

text \<open>
  The histograms of \<open>nbody_histogram.c\<close> and the parts of \<open>nbody_mass.c\<close> they are made with:
  \<open>nbCreateHistogram\<close> counts the bodies of the model over a grid in stream coordinates and collects
  dispersions and averages of latitude, line-of-sight velocity and distance, with outliers removed.
  What is computed from a division or a square root that may fail is of type \<open>dbl\<close>; counts are
  natural numbers.
\<close>

section \<open>Data\<close>

record HistData =
  h_useBin :: int
  h_rawCount :: nat
  h_lambda :: dbl
  h_beta :: dbl
  h_variable :: dbl
  h_err :: dbl
  h_sum :: real
  h_sq_sum :: real
  h_outliersRemoved :: real

record NBodyHistogram =
  nh_lambdaBins :: nat
  nh_betaBins :: nat
  nh_totalNum :: nat
  nh_totalSimulated :: nat
  nh_hasRawCounts :: bool
  nh_params :: "real HistogramParams"
  nh_massPerParticle :: dbl
  nh_data :: "HistData list"

text \<open>The six histograms: normalised counts, the dispersions of latitude and velocity, and the averages of
  velocity, latitude and distance. One that is not used is a null pointer.\<close>

record MainStruct =
  usage :: "bool list"
  histograms :: "NBodyHistogram option list"

section \<open>Bins\<close>

text \<open>
  The conversion of a \<open>double\<close> to \<open>unsigned int\<close>. For a value out of range C leaves the result
  open; this is what the usual 64-bit targets give, truncation modulo the width.
\<close>

definition trunc_int :: "real \<Rightarrow> int" where
  "trunc_int x = (if 0 \<le> x then \<lfloor>x\<rfloor> else \<lceil>x\<rceil>)"

definition to_uint :: "real \<Rightarrow> nat" where
  "to_uint x = nat (trunc_int x mod 2 ^ 32)"

definition nbHistogramCenter :: "real \<Rightarrow> real \<Rightarrow> real" where
  "nbHistogramCenter a b = (a + b) / 2"

definition nbHistogramLambdaBinSize :: "real HistogramParams \<Rightarrow> real" where
  "nbHistogramLambdaBinSize hp = (lambdaEnd hp - lambdaStart hp) / real (lambdaBins hp)"

definition nbHistogramBetaBinSize :: "real HistogramParams \<Rightarrow> real" where
  "nbHistogramBetaBinSize hp = (betaEnd hp - betaStart hp) / real (betaBins hp)"

definition nbNormalizedHistogramError :: "nat \<Rightarrow> dbl \<Rightarrow> dbl \<Rightarrow> dbl" where
  "nbNormalizedHistogramError n total_histogram total_simulated =
     (let real_n = Fin (real n)
      in (if n = 0
          then dsqrt (Fin 1 / total_simulated * (Fin 1 - Fin 1 / total_simulated))
          else dsqrt (real_n * (real_n / total_simulated) * (Fin 1 - real_n / total_simulated)))
         / total_histogram)"

definition nbCorrectRenormalizedInHistogram :: "NBodyHistogram \<Rightarrow> NBodyHistogram \<Rightarrow> dbl" where
  "nbCorrectRenormalizedInHistogram histogram data =
     (let nBin = nh_lambdaBins data * nh_betaBins data
      in fold (\<lambda>i total. if h_useBin (nh_data data ! i) \<noteq> 0 then total + h_variable (nh_data histogram ! i) else total)
           [0..<nBin] (Fin 0))"

text \<open>The subtraction is on 32 bits.\<close>

definition nbCorrectTotalNumberInHistogram :: "NBodyHistogram \<Rightarrow> NBodyHistogram \<Rightarrow> 32 word" where
  "nbCorrectTotalNumberInHistogram histogram data =
     (let nBin = nh_lambdaBins data * nh_betaBins data
      in fold (\<lambda>i totalNum. if h_useBin (nh_data data ! i) = 0
                          then totalNum - of_nat (h_rawCount (nh_data histogram ! i)) else totalNum)
           [0..<nBin] (of_nat (nh_totalNum histogram)))"

text \<open>A loop over the bins, by rows: \<open>f i j\<close> gives the new bin \<open>(i, j)\<close> from the present array.\<close>

definition for_bins :: "(nat \<Rightarrow> nat \<Rightarrow> 'd list \<Rightarrow> 'd) \<Rightarrow> nat \<Rightarrow> nat \<Rightarrow> 'd list \<Rightarrow> 'd list" where
  "for_bins f a b xs = fold (\<lambda>i. fold (\<lambda>j xs. xs[i * b + j := f i j xs]) [0..<b]) [0..<a] xs"

section \<open>Dispersions and outliers\<close>

definition calc_vLOS :: "mwvector \<Rightarrow> mwvector \<Rightarrow> real \<Rightarrow> real" where
  "calc_vLOS v p sunGCdist =
     (let xsol = X p + sunGCdist;
          mag = sqrt (xsol * xsol + Y p * Y p + Z p * Z p);
          vl = xsol * X v + Y p * Y v + Z p * Z v
      in vl / mag)"

definition calc_distance :: "mwvector \<Rightarrow> real \<Rightarrow> real" where
  "calc_distance p sunGCdist =
     (let xsol = X p + sunGCdist in sqrt (xsol * xsol + Y p * Y p + Z p * Z p))"

definition disp_bin :: "bool \<Rightarrow> real \<Rightarrow> HistData \<Rightarrow> HistData" where
  "disp_bin initial correction_factor d =
     (let count = real (h_rawCount d) - h_outliersRemoved d
      in if count > 10
         then
           let n_new = count - 1;
               n_ratio = count / n_new;
               dispsq = h_sq_sum d / n_new - n_ratio * sqr (h_sum d / count);
               dispsq = (if \<not> initial then dispsq * correction_factor else dispsq);
               variable = dsqrt (Fin dispsq)
           in d\<lparr>h_variable := variable, h_err := dsqrt (Fin ((count + 1) / (count * n_new))) * variable\<rparr>
         else d)"

definition nbCalcDisp :: "bool \<Rightarrow> real \<Rightarrow> NBodyHistogram \<Rightarrow> NBodyHistogram" where
  "nbCalcDisp initial correction_factor h =
     h\<lparr>nh_data := for_bins (\<lambda>i j d. disp_bin initial correction_factor (d ! (i * nh_betaBins h + j)))
         (nh_lambdaBins h) (nh_betaBins h) (nh_data h)\<rparr>"

text \<open>
  One body in \<open>nbRemoveOutliers\<close>, on the sums, the sums of squares, the numbers removed, and the
  counter of the bodies that are not ignored.
\<close>

definition outlier_step :: "HistData list \<Rightarrow> dbl list \<Rightarrow> real list \<Rightarrow> real list \<Rightarrow> real \<Rightarrow> Body
    \<Rightarrow> real list \<times> real list \<times> real list \<times> nat \<Rightarrow> real list \<times> real list \<times> real list \<times> nat" where
  "outlier_step d bin_ave use_body var sigma_cutoff p =
     (\<lambda>(temp_sum, temp_sqr, temp_removed, counter).
       if ignoreBody p then (temp_sum, temp_sqr, temp_removed, counter)
       else if use_body ! counter \<ge> 0
       then
         let H = nat (trunc_int (use_body ! counter));
             this_var = var ! counter;
             bin_sigma = h_variable (d ! H)
         in if \<bar>bin_ave ! H - Fin this_var\<bar> < Fin sigma_cutoff * bin_sigma
            then (temp_sum[H := temp_sum ! H + this_var], temp_sqr[H := temp_sqr ! H + this_var * this_var],
                  temp_removed, Suc counter)
            else (temp_sum, temp_sqr, temp_removed[H := temp_removed ! H + 1], Suc counter)
       else (temp_sum, temp_sqr, temp_removed, Suc counter))"

definition nbRemoveOutliers :: "NBodyState \<Rightarrow> real list \<Rightarrow> real list \<Rightarrow> real \<Rightarrow> nat \<Rightarrow> NBodyHistogram \<Rightarrow> NBodyHistogram" where
  "nbRemoveOutliers st use_body var sigma_cutoff histBins h =
     (let d = nh_data h;
          bin_ave = map (\<lambda>i. Fin (h_sum (d ! i)) / Fin (real (h_rawCount (d ! i)) - h_outliersRemoved (d ! i)))
                      [0..<histBins];
          (temp_sum, temp_sqr, temp_removed, _) =
            fold (outlier_step d bin_ave use_body var sigma_cutoff) (take (nbody st) (bodytab st))
              (replicate histBins 0, replicate histBins 0, replicate histBins 0, 0)
      in h\<lparr>nh_data := fold (\<lambda>i d. d[i := (d ! i)\<lparr>h_sum := temp_sum ! i, h_sq_sum := temp_sqr ! i,
                                                h_outliersRemoved := temp_removed ! i\<rparr>]) [0..<histBins] d\<rparr>)"

section \<open>Creating a histogram\<close>

text \<open>The error of a bin is computed from the count of the bin numbered like its row.\<close>

definition nbNormalizeHistogram :: "NBodyHistogram \<Rightarrow> NBodyHistogram" where
  "nbNormalizeHistogram h =
     (let hp = nh_params h;
          lambdaSize = nbHistogramLambdaBinSize hp;
          betaSize = nbHistogramBetaBinSize hp;
          n = real (nh_totalSimulated h);
          totalNum = real (nh_totalNum h)
      in h\<lparr>nh_data := for_bins (\<lambda>i j d.
             let Histindex = i * nh_betaBins h + j; count = real (h_rawCount (d ! Histindex))
             in (d ! Histindex)\<lparr>h_lambda := Fin ((real i + 0.5) * lambdaSize + lambdaStart hp),
                                h_beta := Fin ((real j + 0.5) * betaSize + betaStart hp),
                                h_variable := Fin count / Fin totalNum,
                                h_err := nbNormalizedHistogramError (h_rawCount (d ! i)) (Fin totalNum) (Fin n)\<rparr>)
           (nh_lambdaBins h) (nh_betaBins h) (nh_data h)\<rparr>)"

definition upd_hist :: "nat \<Rightarrow> (NBodyHistogram \<Rightarrow> NBodyHistogram) \<Rightarrow> MainStruct \<Rightarrow> MainStruct" where
  "upd_hist k f a =
     (if usage a ! k then a\<lparr>histograms := (histograms a)[k := map_option f (histograms a ! k)]\<rparr> else a)"

definition upd_bin :: "nat \<Rightarrow> (HistData \<Rightarrow> HistData) \<Rightarrow> NBodyHistogram \<Rightarrow> NBodyHistogram" where
  "upd_bin H f h = h\<lparr>nh_data := (nh_data h)[H := f (nh_data h ! H)]\<rparr>"

definition count_in :: "HistData \<Rightarrow> HistData" where
  "count_in d = d\<lparr>h_rawCount := Suc (h_rawCount d)\<rparr>"

definition add_value :: "real \<Rightarrow> HistData \<Rightarrow> HistData" where
  "add_value x d = d\<lparr>h_sum := h_sum d + x, h_sq_sum := h_sq_sum d + sqr x\<rparr>"

definition empty_bin :: HistData where
  "empty_bin = \<lparr>h_useBin = 1, h_rawCount = 0, h_lambda = Fin 0, h_beta = Fin 0, h_variable = Fin 0, h_err = Fin 0,
     h_sum = 0, h_sq_sum = 0, h_outliersRemoved = 0\<rparr>"

definition new_histogram :: "real HistogramParams \<Rightarrow> real \<Rightarrow> nat \<Rightarrow> NBodyHistogram" where
  "new_histogram hp mass body_count =
     \<lparr>nh_lambdaBins = lambdaBins hp, nh_betaBins = betaBins hp, nh_totalNum = 0,
      nh_totalSimulated = body_count, nh_hasRawCounts = True, nh_params = hp,
      nh_massPerParticle = Fin mass, nh_data = replicate (lambdaBins hp * betaBins hp) empty_bin\<rparr>"

text \<open>
  The loop over the bodies keeps, beside the histograms, the bin of every body that is not ignored (-1
  when it has none) for each kind of value, and the values. The arrays have one place for every body
  of the visible model.
\<close>

record hist_loop =
  l_all :: MainStruct
  l_totalNum :: nat
  l_counter :: nat
  use_betabody :: "real list"
  use_velbody :: "real list"
  use_distbody :: "real list"
  l_vlos :: "real list"
  l_betas :: "real list"
  l_distances :: "real list"

definition lambda_beta :: "real NBodyCtx \<Rightarrow> real HistogramParams \<Rightarrow> Body \<Rightarrow> real \<times> real" where
  "lambda_beta ctx hp p =
     (let lbr = nbXYZToLambdaBeta (nbGetHistTrig hp) (b_pos p) (sunGCDist ctx) in (X lbr, Y lbr))"

definition bin_of :: "real NBodyCtx \<Rightarrow> real HistogramParams \<Rightarrow> Body \<Rightarrow> nat option" where
  "bin_of ctx hp p =
     (let (lam, beta) = lambda_beta ctx hp p;
          lambdaIndex = to_uint (of_int \<lfloor>(lam - lambdaStart hp) / nbHistogramLambdaBinSize hp\<rfloor>);
          betaIndex = to_uint (of_int \<lfloor>(beta - betaStart hp) / nbHistogramBetaBinSize hp\<rfloor>)
      in if lambdaIndex < lambdaBins hp \<and> betaIndex < betaBins hp
         then Some (lambdaIndex * betaBins hp + betaIndex) else None)"

definition count_body :: "real NBodyCtx \<Rightarrow> real HistogramParams \<Rightarrow> Body \<Rightarrow> hist_loop \<Rightarrow> hist_loop" where
  "count_body ctx hp p s =
     (if ignoreBody p then s
      else
        let c = l_counter s;
            beta = snd (lambda_beta ctx hp p);
            s = s\<lparr>use_betabody := (use_betabody s)[c := DEFAULT_NOT_USE],
                  use_velbody := (use_velbody s)[c := DEFAULT_NOT_USE],
                  use_distbody := (use_distbody s)[c := DEFAULT_NOT_USE],
                  l_vlos := (l_vlos s)[c := DEFAULT_NOT_USE],
                  l_betas := (l_betas s)[c := DEFAULT_NOT_USE],
                  l_distances := (l_distances s)[c := DEFAULT_NOT_USE]\<rparr>
        in (case bin_of ctx hp p of
              None \<Rightarrow> s
            | Some H \<Rightarrow>
                let vl = calc_vLOS (b_vel p) (b_pos p) (sunGCDist ctx);
                    location = calc_distance (b_pos p) (sunGCDist ctx);
                    all = fold (\<lambda>k. upd_hist k (upd_bin H count_in)) [0..<6] (l_all s);
                    all = upd_hist 1 (upd_bin H (add_value beta)) all;
                    all = upd_hist 2 (upd_bin H (add_value vl)) all;
                    all = upd_hist 3 (upd_bin H (add_value vl)) all;
                    all = upd_hist 4 (upd_bin H (add_value beta)) all;
                    all = upd_hist 5 (upd_bin H (add_value location)) all
                in s\<lparr>l_all := all, l_totalNum := Suc (l_totalNum s),
                     use_betabody := (use_betabody s)[c := real H],
                     use_velbody := (use_velbody s)[c := real H],
                     use_distbody := (use_distbody s)[c := real H],
                     l_vlos := (l_vlos s)[c := vl],
                     l_betas := (l_betas s)[c := beta],
                     l_distances := (l_distances s)[c := location]\<rparr>)
             \<lparr>l_counter := Suc c\<rparr>)"

text \<open>The averages overwrite the dispersions, whose errors they use.\<close>

definition average_bin :: "HistData \<Rightarrow> HistData" where
  "average_bin d =
     (let denom = trunc_int (real (h_rawCount d) - h_outliersRemoved d)
      in if denom > 10
         then d\<lparr>h_err := h_variable d / dsqrt (Fin (of_int denom)), h_variable := Fin (h_sum d / of_int denom)\<rparr>
         else d\<lparr>h_err := Fin (-1), h_variable := Fin 0\<rparr>)"

definition average_bins :: "nat \<Rightarrow> NBodyHistogram \<Rightarrow> NBodyHistogram" where
  "average_bins nBin h = h\<lparr>nh_data := fold (\<lambda>i d. d[i := average_bin (d ! i)]) [0..<nBin] (nh_data h)\<rparr>"

definition without_outliers :: "real NBodyCtx \<Rightarrow> NBodyState \<Rightarrow> real list \<Rightarrow> real list \<Rightarrow> real \<Rightarrow> real \<Rightarrow> nat
    \<Rightarrow> NBodyHistogram \<Rightarrow> NBodyHistogram" where
  "without_outliers ctx st use_body var sigma_cutoff correction_factor nBin =
     (\<lambda>h. nbCalcDisp False correction_factor (nbRemoveOutliers st use_body var sigma_cutoff nBin h))
       ^^ to_uint (IterMax ctx)"

definition light_bodies :: "NBodyState \<Rightarrow> real \<times> nat" where
  "light_bodies st =
     fold (\<lambda>b (mass, n). if b_type b = BODY False then (b_mass b, Suc n) else (mass, n))
       (take (nbody st) (bodytab st)) (0, 0)"

definition start_loop :: "NBodyState \<Rightarrow> real HistogramParams \<Rightarrow> hist_loop" where
  "start_loop st hp =
     (let (mass, body_count) = light_bodies st;
          h = new_histogram hp mass body_count;
          more = (st_useVlos st \<or> st_useBetaComp st \<or> st_useDist st)
      in \<lparr>l_all = \<lparr>usage = [True, True, True, more, more, more],
                   histograms = [Some h, Some h, Some h] @ replicate 3 (if more then Some h else None)\<rparr>,
          l_totalNum = 0, l_counter = 0,
          use_betabody = replicate body_count 0, use_velbody = replicate body_count 0,
          use_distbody = replicate body_count 0, l_vlos = replicate body_count 0,
          l_betas = replicate body_count 0, l_distances = replicate body_count 0\<rparr>)"

definition nbCreateHistogram :: "real NBodyCtx \<Rightarrow> NBodyState \<Rightarrow> real HistogramParams \<Rightarrow> MainStruct" where
  "nbCreateHistogram ctx st hp =
     (let nBin = lambdaBins hp * betaBins hp;
          s = fold (count_body ctx hp) (take (nbody st) (bodytab st)) (start_loop st hp);
          all = fold (\<lambda>k. upd_hist k (\<lambda>h. h\<lparr>nh_totalNum := l_totalNum s\<rparr>)) [0..<6] (l_all s);
          all = upd_hist 1 (nbCalcDisp True (BetaCorrect ctx)) all;
          all = upd_hist 2 (nbCalcDisp True (VelCorrect ctx)) all;
          all = upd_hist 3 (nbCalcDisp True (VelCorrect ctx)) all;
          all = upd_hist 4 (nbCalcDisp True (BetaCorrect ctx)) all;
          all = upd_hist 5 (nbCalcDisp True (DistCorrect ctx)) all;
          all = upd_hist 1 (without_outliers ctx st (use_betabody s) (l_betas s) (BetaSigma ctx) (BetaCorrect ctx) nBin) all;
          all = upd_hist 2 (without_outliers ctx st (use_velbody s) (l_vlos s) (VelSigma ctx) (VelCorrect ctx) nBin) all;
          all = upd_hist 3 (without_outliers ctx st (use_velbody s) (l_vlos s) (VelSigma ctx) (VelCorrect ctx) nBin) all;
          all = upd_hist 3 (average_bins nBin) all;
          all = upd_hist 4 (without_outliers ctx st (use_betabody s) (l_betas s) (BetaSigma ctx) (BetaCorrect ctx) nBin) all;
          all = upd_hist 4 (average_bins nBin) all;
          all = upd_hist 5 (without_outliers ctx st (use_distbody s) (l_distances s) (DistSigma ctx) (DistCorrect ctx) nBin) all;
          all = upd_hist 5 (average_bins nBin) all
      in upd_hist 0 nbNormalizeHistogram all)"

end
