(* ===== verification/NBody_HistLoop.thy ===== *)
theory NBody_HistLoop
  imports NBody_Histogram
begin

text \<open>
  The loop over the bodies in \<open>nbCreateHistogram\<close>: what every bin of every histogram holds after it.
\<close>

section \<open>The six histograms\<close>

definition six :: "MainStruct \<Rightarrow> bool" where
  "six a \<longleftrightarrow> length (usage a) = 6 \<and> length (histograms a) = 6"

lemma upd_hist_frame [simp]:
  "usage (upd_hist k f a) = usage a" "length (histograms (upd_hist k f a)) = length (histograms a)"
  by (simp_all add: upd_hist_def)

lemma six_upd [simp]: "six (upd_hist k f a) = six a"
  by (simp add: six_def)

lemma histograms_upd:
  "\<lbrakk>six a; j < 6\<rbrakk> \<Longrightarrow> histograms (upd_hist k f a) ! j
     = (if j = k \<and> usage a ! k then map_option f (histograms a ! k) else histograms a ! j)"
  by (auto simp: upd_hist_def six_def nth_list_update)

lemma upt6: "[0..<6::nat] = [0, 1, 2, 3, 4, 5]"
  by (simp add: upt_rec)

lemma less6: "k < 6 \<longleftrightarrow> k = 0 \<or> k = 1 \<or> k = 2 \<or> k = 3 \<or> k = 4 \<or> k = (5::nat)"
  by auto

lemma histograms_upd_list:
  assumes "six a" "j < 6" "distinct ks"
  shows "histograms (fold (\<lambda>k. upd_hist k f) ks a) ! j
     = (if j \<in> set ks \<and> usage a ! j then map_option f (histograms a ! j) else histograms a ! j)"
    and "usage (fold (\<lambda>k. upd_hist k f) ks a) = usage a"
    and "six (fold (\<lambda>k. upd_hist k f) ks a)"
  using assms by (induction ks arbitrary: a) (auto simp: histograms_upd)

lemma histograms_upd_all:
  assumes "six a" "j < 6"
  shows "histograms (fold (\<lambda>k. upd_hist k f) [0..<6] a) ! j
     = (if usage a ! j then map_option f (histograms a ! j) else histograms a ! j)"
    and "usage (fold (\<lambda>k. upd_hist k f) [0..<6] a) = usage a"
    and "six (fold (\<lambda>k. upd_hist k f) [0..<6] a)"
  using histograms_upd_list[of a j "[0..<6]" f] assms by auto

section \<open>One body\<close>

text \<open>The value that the histogram \<open>k\<close> collects of a body.\<close>

definition value_of :: "real NBodyCtx \<Rightarrow> real HistogramParams \<Rightarrow> nat \<Rightarrow> Body \<Rightarrow> real" where
  "value_of ctx hp k p =
     (if k = 1 \<or> k = 4 then snd (lambda_beta ctx hp p)
      else if k = 2 \<or> k = 3 then calc_vLOS (b_vel p) (b_pos p) (sunGCDist ctx)
      else calc_distance (b_pos p) (sunGCDist ctx))"

definition collect_bin :: "real NBodyCtx \<Rightarrow> real HistogramParams \<Rightarrow> nat \<Rightarrow> Body \<Rightarrow> HistData \<Rightarrow> HistData" where
  "collect_bin ctx hp k p d =
     (if k = 0 then count_in d else add_value (value_of ctx hp k p) (count_in d))"

lemma upd_bin_twice: "H < length (nh_data h) \<Longrightarrow> upd_bin H f (upd_bin H g h) = upd_bin H (\<lambda>d. f (g d)) h"
  by (simp add: upd_bin_def)

lemma upd_bin_comp: "upd_bin H f \<circ> upd_bin H g = upd_bin H (f \<circ> g)"
proof
  fix h :: NBodyHistogram
  show "(upd_bin H f \<circ> upd_bin H g) h = upd_bin H (f \<circ> g) h"
    by (cases "H < length (nh_data h)") (simp_all add: upd_bin_def list_update_beyond)
qed

lemma count_body_frame:
  "usage (l_all (count_body ctx hp p s)) = usage (l_all s)" "six (l_all (count_body ctx hp p s)) = six (l_all s)"
  by (auto simp: count_body_def Let_def upt6 split: option.split)

lemma count_body_outside:
  "ignoreBody p \<or> bin_of ctx hp p = None \<Longrightarrow> l_all (count_body ctx hp p s) = l_all s
     \<and> l_totalNum (count_body ctx hp p s) = l_totalNum s"
  by (auto simp: count_body_def Let_def)

lemma count_body_inside:
  assumes "six (l_all s)" "\<not> ignoreBody p" "bin_of ctx hp p = Some H" "k < 6" "usage (l_all s) ! k"
  shows "histograms (l_all (count_body ctx hp p s)) ! k
    = map_option (upd_bin H (collect_bin ctx hp k p)) (histograms (l_all s) ! k)"
proof -
  let ?add = "\<lambda>k. upd_hist k (upd_bin H (add_value (value_of ctx hp k p)))"
  let ?a = "fold (\<lambda>k. upd_hist k (upd_bin H count_in)) [0..<6] (l_all s)"
  have a: "l_all (count_body ctx hp p s) = ?add 5 (?add 4 (?add 3 (?add 2 (?add 1 ?a))))"
    using assms(2,3) by (simp add: count_body_def Let_def value_of_def)
  note q = histograms_upd_all[OF assms(1,4), of "upd_bin H count_in"]
  have "histograms (l_all (count_body ctx hp p s)) ! k
      = (if k = 0 then histograms ?a ! k
         else map_option (upd_bin H (add_value (value_of ctx hp k p))) (histograms ?a ! k))"
    using assms(4)[unfolded less6] assms(5) q(2,3) unfolding a by (elim disjE) (simp_all add: histograms_upd)
  also have "histograms ?a ! k = map_option (upd_bin H count_in) (histograms (l_all s) ! k)"
    using q(1) assms(5) by simp
  finally show ?thesis
    by (cases "k = 0"; cases "histograms (l_all s) ! k")
      (simp_all add: collect_bin_def[abs_def] upd_bin_comp[THEN fun_cong, unfolded comp_def])
qed

lemma count_body_total:
  "\<lbrakk>\<not> ignoreBody p; bin_of ctx hp p = Some H\<rbrakk> \<Longrightarrow> l_totalNum (count_body ctx hp p s) = Suc (l_totalNum s)"
  by (simp add: count_body_def Let_def)

lemma bin_of_less: "bin_of ctx hp p = Some H \<Longrightarrow> H < lambdaBins hp * betaBins hp"
proof -
  assume "bin_of ctx hp p = Some H"
  then obtain i j where "i < lambdaBins hp" "j < betaBins hp" "H = i * betaBins hp + j"
    by (auto simp: bin_of_def Let_def split: if_splits prod.splits)
  moreover have "i * betaBins hp + j < Suc i * betaBins hp" using \<open>j < betaBins hp\<close> by simp
  moreover have "Suc i * betaBins hp \<le> lambdaBins hp * betaBins hp"
    using \<open>i < lambdaBins hp\<close> by (intro mult_le_mono1) simp
  ultimately show ?thesis by linarith
qed

section \<open>All bodies\<close>

definition in_bin :: "real NBodyCtx \<Rightarrow> real HistogramParams \<Rightarrow> nat \<Rightarrow> Body \<Rightarrow> bool" where
  "in_bin ctx hp H p \<longleftrightarrow> \<not> ignoreBody p \<and> bin_of ctx hp p = Some H"

text \<open>The contents of a bin after counting a list of bodies.\<close>

definition counted :: "real NBodyCtx \<Rightarrow> real HistogramParams \<Rightarrow> nat \<Rightarrow> Body list \<Rightarrow> HistData \<Rightarrow> HistData" where
  "counted ctx hp k ps d =
     d\<lparr>h_rawCount := h_rawCount d + length ps,
       h_sum := h_sum d + (if k = 0 then 0 else \<Sum>p\<leftarrow>ps. value_of ctx hp k p),
       h_sq_sum := h_sq_sum d + (if k = 0 then 0 else \<Sum>p\<leftarrow>ps. sqr (value_of ctx hp k p))\<rparr>"

lemma counted_Cons: "counted ctx hp k (p # ps) d = counted ctx hp k ps (collect_bin ctx hp k p d)"
  by (simp add: counted_def collect_bin_def count_in_def add_value_def)

lemma counted_Nil [simp]: "counted ctx hp k [] d = d"
  by (simp add: counted_def)

definition counts_of :: "real NBodyCtx \<Rightarrow> real HistogramParams \<Rightarrow> nat \<Rightarrow> Body list \<Rightarrow> NBodyHistogram \<Rightarrow> NBodyHistogram" where
  "counts_of ctx hp k ps h =
     h\<lparr>nh_data := map (\<lambda>H. counted ctx hp k (filter (in_bin ctx hp H) ps) (nh_data h ! H)) [0..<length (nh_data h)]\<rparr>"

lemma counts_of_Nil [simp]: "counts_of ctx hp k [] h = h"
  by (simp add: counts_of_def map_nth)

lemma counts_of_Cons:
  assumes "length (nh_data h) = lambdaBins hp * betaBins hp"
  shows "counts_of ctx hp k (p # ps) h
    = counts_of ctx hp k ps
        (if ignoreBody p then h
         else case bin_of ctx hp p of None \<Rightarrow> h | Some H \<Rightarrow> upd_bin H (collect_bin ctx hp k p) h)"
  using assms by (auto simp: counts_of_def in_bin_def upd_bin_def counted_Cons nth_list_update split: option.split
      intro!: NBodyHistogram.equality nth_equalityI)

lemma count_bodies:
  assumes "six (l_all s)" "k < 6" "usage (l_all s) ! k" "histograms (l_all s) ! k = Some h"
    and "length (nh_data h) = lambdaBins hp * betaBins hp"
  shows "histograms (l_all (fold (count_body ctx hp) ps s)) ! k = Some (counts_of ctx hp k ps h)
    \<and> usage (l_all (fold (count_body ctx hp) ps s)) = usage (l_all s)
    \<and> six (l_all (fold (count_body ctx hp) ps s))
    \<and> l_totalNum (fold (count_body ctx hp) ps s)
      = l_totalNum s + length (filter (\<lambda>p. \<not> ignoreBody p \<and> bin_of ctx hp p \<noteq> None) ps)"
  using assms
proof (induction ps arbitrary: s h)
  case (Cons p ps)
  let ?s = "count_body ctx hp p s"
  define h' where "h' = (if ignoreBody p then h
         else case bin_of ctx hp p of None \<Rightarrow> h | Some H \<Rightarrow> upd_bin H (collect_bin ctx hp k p) h)"
  have l: "length (nh_data h') = lambdaBins hp * betaBins hp"
    using Cons.prems(5) by (auto simp: h'_def upd_bin_def split: option.split)
  have h': "histograms (l_all ?s) ! k = Some h'"
    using Cons.prems count_body_inside[OF Cons.prems(1) _ _ Cons.prems(2,3)] count_body_outside[of p ctx hp s]
    by (cases "ignoreBody p"; cases "bin_of ctx hp p") (simp_all add: h'_def)
  have t: "l_totalNum ?s = l_totalNum s + (if \<not> ignoreBody p \<and> bin_of ctx hp p \<noteq> None then 1 else 0)"
    using count_body_outside[of p ctx hp s] count_body_total[of p ctx hp _ s]
    by (cases "ignoreBody p"; cases "bin_of ctx hp p") simp_all
  show ?case
    using Cons.IH[of ?s h', OF _ _ _ h' l] Cons.prems t
    by (simp add: count_body_frame counts_of_Cons h'_def[symmetric])
qed simp

text \<open>A body is in at most one bin, so the counts of the bins add up.\<close>

lemma sum_counts:
  assumes "n = lambdaBins hp * betaBins hp"
  shows "(\<Sum>H\<leftarrow>[0..<n]. length (filter (in_bin ctx hp H) ps))
    = length (filter (\<lambda>p. \<not> ignoreBody p \<and> bin_of ctx hp p \<noteq> None) ps)"
proof (induction ps)
  case (Cons p ps)
  have one: "(\<Sum>H\<leftarrow>[0..<m]. if H = G then 1 else (0::nat)) = (if G < m then 1 else 0)" for G m
    by (induction m) auto
  have add: "(\<Sum>H\<leftarrow>[0..<m]. length (filter (in_bin ctx hp H) (p # ps)))
      = (\<Sum>H\<leftarrow>[0..<m]. if in_bin ctx hp H p then 1 else 0) + (\<Sum>H\<leftarrow>[0..<m]. length (filter (in_bin ctx hp H) ps))" for m
    by (induction m) auto
  note add[of n]
  also have "(\<Sum>H\<leftarrow>[0..<n]. if in_bin ctx hp H p then 1 else (0::nat))
      = (if \<not> ignoreBody p \<and> bin_of ctx hp p \<noteq> None then 1 else 0)"
  proof (cases "\<not> ignoreBody p \<and> bin_of ctx hp p \<noteq> None")
    case True
    then obtain G where "bin_of ctx hp p = Some G" by auto
    then have "in_bin ctx hp H p \<longleftrightarrow> H = G" for H using True by (auto simp: in_bin_def)
    then show ?thesis using one[of G n] bin_of_less[OF \<open>bin_of ctx hp p = Some G\<close>] True assms by simp
  next
    case False
    then have "\<not> in_bin ctx hp H p" for H by (auto simp: in_bin_def)
    then show ?thesis using False by simp
  qed
  finally show ?case using Cons by simp
qed simp

end
