(* ===== verification/NBody_HistProps.thy ===== *)
theory NBody_HistProps
  imports NBody_HistLoop "HOL-Library.Sublist"
begin

text \<open>
  What \<open>nbCreateHistogram\<close> returns: the counts are those of the bodies whose stream coordinates lie
  in the cell, the averages are averages over bodies of the cell.
\<close>

section \<open>Loops over the bins\<close>

lemma for_bins_flat:
  "for_bins f a b xs = fold (\<lambda>k xs. xs[k := f (k div b) (k mod b) xs]) [0..<a * b] xs"
proof (induction a)
  case (Suc a)
  have "[0..<Suc a * b] = [0..<a * b] @ map (\<lambda>j. a * b + j) [0..<b]"
    by (simp add: add.commute map_add_upt upt_add_eq_append flip: upt_add_eq_append)
      (metis add.commute add_0 le0 map_add_upt upt_add_eq_append)
  moreover have "fold (\<lambda>j xs. xs[a * b + j := f ((a * b + j) div b) ((a * b + j) mod b) xs]) [0..<b] ys
      = fold (\<lambda>j xs. xs[a * b + j := f a j xs]) [0..<b] ys" for ys
    by (rule fold_cong) auto
  ultimately show ?case using Suc by (simp add: for_bins_def fold_map comp_def)
qed (simp add: for_bins_def)

lemma fold_update_inv:
  assumes "m \<le> length xs" "P xs"
    and "\<And>k ys. P ys \<Longrightarrow> k < length ys \<Longrightarrow> f k ys = g k (ys ! k)"
    and "\<And>k ys. P ys \<Longrightarrow> k < length ys \<Longrightarrow> P (ys[k := g k (ys ! k)])"
  shows "fold (\<lambda>k ys. ys[k := f k ys]) [0..<m] xs = map (\<lambda>k. g k (xs ! k)) [0..<m] @ drop m xs
    \<and> P (map (\<lambda>k. g k (xs ! k)) [0..<m] @ drop m xs)"
  using assms(1)
proof (induction m)
  case (Suc m)
  let ?ys = "map (\<lambda>k. g k (xs ! k)) [0..<m] @ drop m xs"
  have d: "drop m xs = xs ! m # drop (Suc m) xs" using Suc.prems by (simp add: Cons_nth_drop_Suc)
  have y: "P ?ys" "m < length ?ys" "?ys ! m = xs ! m" using Suc by (simp_all add: d nth_append)
  have "?ys[m := g m (?ys ! m)] = map (\<lambda>k. g k (xs ! k)) [0..<Suc m] @ drop (Suc m) xs"
    by (simp add: y(3)) (simp add: d list_update_append)
  then show ?case using Suc assms(3)[OF y(1,2)] assms(4)[OF y(1,2)] by simp
qed (simp add: assms(2))

lemma for_bins_map:
  assumes "length xs = a * b" "P xs"
    and "\<And>i j ys. P ys \<Longrightarrow> length ys = a * b \<Longrightarrow> i < a \<Longrightarrow> j < b \<Longrightarrow> f i j ys = g i j (ys ! (i * b + j))"
    and "\<And>k ys y. P ys \<Longrightarrow> k < length ys \<Longrightarrow> P (ys[k := g (k div b) (k mod b) (ys ! k)])"
  shows "for_bins f a b xs = map (\<lambda>k. g (k div b) (k mod b) (xs ! k)) [0..<a * b]"
proof -
  have kb: "k div b < a \<and> k mod b < b" if "k < a * b" for k
    using that by (metis less_mult_imp_div_less mod_less_divisor mult_0_right not_gr_zero not_less_zero)
  have "fold (\<lambda>k ys. ys[k := f (k div b) (k mod b) ys]) [0..<a * b] xs
      = map (\<lambda>k. g (k div b) (k mod b) (xs ! k)) [0..<a * b] @ drop (a * b) xs"
    using fold_update_inv[of "a * b" xs "\<lambda>ys. P ys \<and> length ys = a * b"
        "\<lambda>k. f (k div b) (k mod b)" "\<lambda>k. g (k div b) (k mod b)"] assms kb by simp
  then show ?thesis using assms(1) by (simp add: for_bins_flat)
qed

lemma nbCalcDisp_map:
  assumes "length (nh_data h) = nh_lambdaBins h * nh_betaBins h"
  shows "nbCalcDisp i c h = h\<lparr>nh_data := map (disp_bin i c) (nh_data h)\<rparr>"
proof -
  have "for_bins (\<lambda>r j d. disp_bin i c (d ! (r * nh_betaBins h + j))) (nh_lambdaBins h) (nh_betaBins h) (nh_data h)
      = map (\<lambda>k. disp_bin i c (nh_data h ! k)) [0..<nh_lambdaBins h * nh_betaBins h]"
    by (rule for_bins_map[where P = "\<lambda>_. True" and g = "\<lambda>_ _. disp_bin i c"]) (use assms in auto)
  then show ?thesis using assms by (auto simp: nbCalcDisp_def intro!: NBodyHistogram.equality nth_equalityI)
qed

lemma average_bins_map: "length (nh_data h) = n \<Longrightarrow> average_bins n h = h\<lparr>nh_data := map average_bin (nh_data h)\<rparr>"
  using fold_update_inv[of n "nh_data h" "\<lambda>_. True" "\<lambda>k ys. average_bin (ys ! k)" "\<lambda>_. average_bin"]
  by (auto simp: average_bins_def intro!: NBodyHistogram.equality nth_equalityI)

section \<open>Removing outliers\<close>

definition visible :: "NBodyState \<Rightarrow> Body list" where
  "visible st = filter (\<lambda>p. \<not> ignoreBody p) (take (nbody st) (bodytab st))"

text \<open>Which of the first visible bodies are kept in bin \<open>H\<close>, and which are removed from it.\<close>

definition kept :: "HistData \<Rightarrow> real list \<Rightarrow> real list \<Rightarrow> real \<Rightarrow> nat \<Rightarrow> nat \<Rightarrow> bool" where
  "kept d use_body var sigma_cutoff H c \<longleftrightarrow> use_body ! c = real H
     \<and> \<bar>Fin (h_sum d) / Fin (real (h_rawCount d) - h_outliersRemoved d) - Fin (var ! c)\<bar>
       < Fin sigma_cutoff * h_variable d"

definition coded :: "nat \<Rightarrow> real \<Rightarrow> bool" where
  "coded n x \<longleftrightarrow> x = -1 \<or> (\<exists>H<n. x = real H)"

lemma outlier_fold:
  assumes "n \<le> length d" "\<And>c. c < m + length (filter (\<lambda>p. \<not> ignoreBody p) ps) \<Longrightarrow> coded n (use_body ! c)"
    and "\<forall>H<n. ave ! H = Fin (h_sum (d ! H)) / Fin (real (h_rawCount (d ! H)) - h_outliersRemoved (d ! H))"
    and "length ts = n" "length tq = n" "length tr = n"
  shows "\<exists>ts' tq' tr'. fold (outlier_step d ave use_body var sg) ps (ts, tq, tr, m)
       = (ts', tq', tr', m + length (filter (\<lambda>p. \<not> ignoreBody p) ps))
    \<and> length ts' = n \<and> length tq' = n \<and> length tr' = n
    \<and> (\<forall>H<n. let cs = filter (\<lambda>c. use_body ! c = real H) [m ..< m + length (filter (\<lambda>p. \<not> ignoreBody p) ps)];
                 ks = filter (kept (d ! H) use_body var sg H) cs
             in ts' ! H = ts ! H + (\<Sum>c\<leftarrow>ks. var ! c) \<and> tq' ! H = tq ! H + (\<Sum>c\<leftarrow>ks. sqr (var ! c))
              \<and> tr' ! H = tr ! H + (real (length cs) - real (length ks)))"
  using assms(2,4-6)
proof (induction ps arbitrary: ts tq tr m)
  case (Cons p ps)
  show ?case
  proof (cases "ignoreBody p")
    case True
    then show ?thesis using Cons.IH[of m ts tq tr] Cons.prems by (simp add: outlier_step_def)
  next
    case False
    let ?l = "length (filter (\<lambda>p. \<not> ignoreBody p) ps)"
    have upt: "[m ..< m + Suc ?l] = m # [Suc m ..< Suc m + ?l]" by (simp add: upt_conv_Cons del: upt_Suc)
    have co: "coded n (use_body ! m)" using Cons.prems(1) False by simp
    obtain ts1 tq1 tr1 where s: "outlier_step d ave use_body var sg p (ts, tq, tr, m) = (ts1, tq1, tr1, Suc m)"
      "length ts1 = n" "length tq1 = n" "length tr1 = n"
      "\<forall>H<n. ts1 ! H = ts ! H + (if kept (d ! H) use_body var sg H m then var ! m else 0)
         \<and> tq1 ! H = tq ! H + (if kept (d ! H) use_body var sg H m then sqr (var ! m) else 0)
         \<and> tr1 ! H = tr ! H + (if use_body ! m = real H \<and> \<not> kept (d ! H) use_body var sg H m then 1 else 0)"
    proof (cases "use_body ! m = -1")
      case True
      then show ?thesis using False Cons.prems that[of ts tq tr] by (simp add: outlier_step_def kept_def)
    next
      case not: False
      then obtain G where G: "G < n" "use_body ! m = real G" using co by (auto simp: coded_def)
      have G': "nat (trunc_int (real G)) = G" by (simp add: trunc_int_def)
      have ki: "kept (d ! G) use_body var sg G m \<longleftrightarrow> \<bar>ave ! G - Fin (var ! m)\<bar> < Fin sg * h_variable (d ! G)"
        using G assms(3) by (simp only: kept_def) simp
      have ko: "\<not> kept (d ! H) use_body var sg H m \<and> use_body ! m \<noteq> real H" if "H \<noteq> G" for H
        using that G(2) by (simp add: kept_def)
      show ?thesis
      proof (cases "kept (d ! G) use_body var sg G m")
        case True
        have e: "outlier_step d ave use_body var sg p (ts, tq, tr, m)
            = (ts[G := ts ! G + var ! m], tq[G := tq ! G + sqr (var ! m)], tr, Suc m)"
          using False G(2) G' True[unfolded ki] by (simp add: outlier_step_def Let_def)
        show ?thesis
          using True G ko Cons.prems(2-4) by (intro that[OF e]) (simp_all add: nth_list_update)
      next
        case no: False
        have e: "outlier_step d ave use_body var sg p (ts, tq, tr, m) = (ts, tq, tr[G := tr ! G + 1], Suc m)"
          using False G(2) G' no[unfolded ki] by (simp add: outlier_step_def Let_def)
        show ?thesis
          using no G ko Cons.prems(2-4) by (intro that[OF e]) (simp_all add: nth_list_update)
      qed
    qed
    have co': "coded n (use_body ! c)" if "c < Suc m + ?l" for c using Cons.prems(1)[of c] that False by simp
    note ih = Cons.IH[OF co' s(2-4)]
    obtain ts' tq' tr' where i:
      "fold (outlier_step d ave use_body var sg) ps (ts1, tq1, tr1, Suc m) = (ts', tq', tr', Suc m + ?l)"
      "length ts' = n" "length tq' = n" "length tr' = n"
      "\<forall>H<n. let cs = filter (\<lambda>c. use_body ! c = real H) [Suc m ..< Suc m + ?l];
                 ks = filter (kept (d ! H) use_body var sg H) cs
             in ts' ! H = ts1 ! H + (\<Sum>c\<leftarrow>ks. var ! c) \<and> tq' ! H = tq1 ! H + (\<Sum>c\<leftarrow>ks. sqr (var ! c))
              \<and> tr' ! H = tr1 ! H + (real (length cs) - real (length ks))"
      using ih by blast
    have kd: "kept (d ! H) use_body var sg H m \<Longrightarrow> use_body ! m = real H" for H by (simp add: kept_def)
    let ?L = "m + Suc ?l"
    have bin: "ts' ! H = ts ! H + (\<Sum>c\<leftarrow>ks. var ! c) \<and> tq' ! H = tq ! H + (\<Sum>c\<leftarrow>ks. sqr (var ! c))
        \<and> tr' ! H = tr ! H + (real (length cs) - real (length ks))"
      if "H < n" "cs = filter (\<lambda>c. use_body ! c = real H) [m ..< ?L]"
        "ks = filter (kept (d ! H) use_body var sg H) cs" for H cs ks
    proof -
      note h = i(5)[rule_format, OF that(1), unfolded Let_def] s(5)[rule_format, OF that(1)]
      note c = that(2,3)[unfolded upt]
      show ?thesis
        using h kd[of H] by (cases "kept (d ! H) use_body var sg H m"; cases "use_body ! m = real H")
          (simp_all add: c del: upt_Suc)
    qed
    have len: "length (filter (\<lambda>p. \<not> ignoreBody p) (p # ps)) = Suc ?l" using False by simp
    have run: "fold (outlier_step d ave use_body var sg) (p # ps) (ts, tq, tr, m) = (ts', tq', tr', ?L)"
      using s(1) i(1) by simp
    show ?thesis
      unfolding len run Let_def using i(2-4) bin by blast
  qed
qed auto

text \<open>
  What the removal of outliers means for one bin, stated on the list \<open>vs\<close> of the values of all its bodies: a
  pass keeps the values that are less than \<open>sg\<close> dispersions away from the mean of those kept so far (a value
  removed once may come back), and takes the dispersion of the kept ones, by the sample variance times the
  correction \<open>cf\<close>, when there are more than ten of them.
\<close>

definition mean :: "real list \<Rightarrow> dbl" where
  "mean ks = Fin (sum_list ks) / Fin (real (length ks))"

definition sample_variance :: "real list \<Rightarrow> real" where
  "sample_variance ks = (\<Sum>v\<leftarrow>ks. sqr (v - sum_list ks / real (length ks))) / (real (length ks) - 1)"

definition spread :: "real \<Rightarrow> real list \<Rightarrow> dbl \<Rightarrow> dbl" where
  "spread cf ks s = (if length ks > 10 then dsqrt (Fin (cf * sample_variance ks)) else s)"

definition clip_pass :: "real \<Rightarrow> real \<Rightarrow> real list \<Rightarrow> real list \<times> dbl \<Rightarrow> real list \<times> dbl" where
  "clip_pass sg cf vs = (\<lambda>(ks, s). let ks' = filter (\<lambda>v. \<bar>mean ks - Fin v\<bar> < Fin sg * s) vs in (ks', spread cf ks' s))"

definition clipped :: "nat \<Rightarrow> real \<Rightarrow> real \<Rightarrow> real list \<Rightarrow> real list \<times> dbl" where
  "clipped m sg cf vs = (clip_pass sg cf vs ^^ m) (vs, spread 1 vs (Fin 0))"

text \<open>A bin with the values \<open>vs\<close> of which \<open>ks\<close> are kept, with the dispersion \<open>s\<close>.\<close>

definition bin_holds :: "real list \<Rightarrow> real list \<times> dbl \<Rightarrow> HistData \<Rightarrow> bool" where
  "bin_holds vs = (\<lambda>(ks, s) d. h_rawCount d = length vs \<and> h_sum d = sum_list ks \<and> h_sq_sum d = (\<Sum>v\<leftarrow>ks. sqr v)
     \<and> h_outliersRemoved d = real (length vs) - real (length ks) \<and> h_variable d = s)"

definition bin_entries :: "real list \<Rightarrow> nat \<Rightarrow> nat \<Rightarrow> nat list" where
  "bin_entries use_body V H = filter (\<lambda>c. use_body ! c = real H) [0..<V]"

lemma disp_bin_frame [simp]:
  "h_rawCount (disp_bin i c d) = h_rawCount d" "h_sum (disp_bin i c d) = h_sum d"
  "h_sq_sum (disp_bin i c d) = h_sq_sum d" "h_outliersRemoved (disp_bin i c d) = h_outliersRemoved d"
  by (simp_all add: disp_bin_def Let_def)

lemma sum_squares_about:
  assumes "ks \<noteq> []"
  shows "(\<Sum>v\<leftarrow>ks. sqr (v - sum_list ks / real (length ks)))
    = (\<Sum>v\<leftarrow>ks. sqr v) - real (length ks) * sqr (sum_list ks / real (length ks))"
proof -
  have "(\<Sum>v\<leftarrow>ks. sqr (v - m)) = (\<Sum>v\<leftarrow>ks. sqr v) - 2 * m * sum_list ks + real (length ks) * sqr m" for m
    by (induction ks) (simp_all add: sqr_def algebra_simps)
  moreover have "real (length ks) \<noteq> 0" using assms by simp
  ultimately show ?thesis by (simp add: sqr_def)
qed

lemma disp_bin_holds:
  assumes "bin_holds vs (ks, s) d"
  shows "bin_holds vs (ks, spread (if i then 1 else cf) ks s) (disp_bin i cf d)"
proof (cases "length ks > 10")
  case True
  let ?n = "real (length ks)" and ?q = "\<Sum>v\<leftarrow>ks. sqr v"
  have n: "ks \<noteq> []" "?n - 1 \<noteq> 0" using True by auto
  have "?q / (?n - 1) - ?n / (?n - 1) * sqr (sum_list ks / ?n) = sample_variance ks"
    unfolding sample_variance_def sum_squares_about[OF n(1)] by (simp add: diff_divide_distrib)
  then show ?thesis
    using assms True by (simp add: bin_holds_def disp_bin_def spread_def Let_def mult.commute)
qed (use assms in \<open>simp add: bin_holds_def disp_bin_def spread_def Let_def\<close>)

lemma nbRemoveOutliers_bins:
  fixes h :: NBodyHistogram and var :: "real list"
  defines "vals \<equiv> \<lambda>V use_body H. map ((!) var) (bin_entries use_body V H)"
  assumes "length (nh_data h) = n" "\<And>c. c < length (visible st) \<Longrightarrow> coded n (use_body ! c)"
  shows "\<exists>d. nbRemoveOutliers st use_body var sg n h = h\<lparr>nh_data := d\<rparr> \<and> length d = n
    \<and> (\<forall>H<n. \<forall>ks s. bin_holds (vals (length (visible st)) use_body H) (ks, s) (nh_data h ! H)
         \<longrightarrow> bin_holds (vals (length (visible st)) use_body H)
              (filter (\<lambda>v. \<bar>mean ks - Fin v\<bar> < Fin sg * s) (vals (length (visible st)) use_body H), s) (d ! H))"
proof -
  let ?d = "nh_data h" and ?V = "length (visible st)"
  let ?ave = "map (\<lambda>i. Fin (h_sum (?d ! i)) / Fin (real (h_rawCount (?d ! i)) - h_outliersRemoved (?d ! i))) [0..<n]"
  have V: "?V = 0 + length (filter (\<lambda>p. \<not> ignoreBody p) (take (nbody st) (bodytab st)))"
    by (simp add: visible_def)
  have "\<exists>ts tq tr. fold (outlier_step ?d ?ave use_body var sg) (take (nbody st) (bodytab st))
        (replicate n 0, replicate n 0, replicate n 0, 0) = (ts, tq, tr, ?V)
    \<and> length ts = n \<and> length tq = n \<and> length tr = n
    \<and> (\<forall>H<n. let cs = filter (\<lambda>c. use_body ! c = real H) [0 ..< ?V];
                 ks = filter (kept (?d ! H) use_body var sg H) cs
             in ts ! H = replicate n 0 ! H + (\<Sum>c\<leftarrow>ks. var ! c) \<and> tq ! H = replicate n 0 ! H + (\<Sum>c\<leftarrow>ks. sqr (var ! c))
              \<and> tr ! H = replicate n 0 ! H + (real (length cs) - real (length ks)))"
    unfolding V by (rule outlier_fold) (use assms(2,3) in \<open>simp_all add: visible_def\<close>)
  then obtain ts tq tr where r: "fold (outlier_step ?d ?ave use_body var sg) (take (nbody st) (bodytab st))
        (replicate n 0, replicate n 0, replicate n 0, 0) = (ts, tq, tr, ?V)"
    "\<forall>H<n. let ks = filter (kept (?d ! H) use_body var sg H) (bin_entries use_body ?V H)
             in ts ! H = (\<Sum>c\<leftarrow>ks. var ! c) \<and> tq ! H = (\<Sum>c\<leftarrow>ks. sqr (var ! c))
              \<and> tr ! H = real (length (bin_entries use_body ?V H)) - real (length ks)"
    unfolding bin_entries_def Let_def by auto
  let ?g = "\<lambda>i x. x\<lparr>h_sum := ts ! i, h_sq_sum := tq ! i, h_outliersRemoved := tr ! i\<rparr>"
  have e: "nbRemoveOutliers st use_body var sg n h = h\<lparr>nh_data := map (\<lambda>i. ?g i (?d ! i)) [0..<n]\<rparr>"
    using fold_update_inv[of n ?d "\<lambda>_. True" "\<lambda>i d. ?g i (d ! i)" ?g] assms(2)
    unfolding nbRemoveOutliers_def Let_def r(1) by simp
  have "bin_holds (vals ?V use_body H) (filter (\<lambda>v. \<bar>mean ks - Fin v\<bar> < Fin sg * s) (vals ?V use_body H), s) (?g H (?d ! H))"
    if H: "H < n" "bin_holds (vals ?V use_body H) (ks, s) (?d ! H)" for H ks s
  proof -
    have "filter (kept (?d ! H) use_body var sg H) (bin_entries use_body ?V H)
        = filter (\<lambda>c. \<bar>mean ks - Fin (var ! c)\<bar> < Fin sg * s) (bin_entries use_body ?V H)"
      using H(2) by (intro filter_cong refl) (simp add: bin_entries_def kept_def bin_holds_def mean_def)
    then show ?thesis
      using r(2)[rule_format, OF H(1)] H(2)
      by (simp add: bin_holds_def vals_def filter_map comp_def Let_def)
  qed
  then show ?thesis
    unfolding e by (intro exI[of _ "map (\<lambda>i. ?g i (?d ! i)) [0..<n]"]) simp
qed

text \<open>What one round, and then all rounds, of \<open>without_outliers\<close> leave.\<close>

definition shaped :: "nat \<Rightarrow> NBodyHistogram \<Rightarrow> NBodyHistogram \<Rightarrow> bool" where
  "shaped n h h' \<longleftrightarrow> length (nh_data h') = n \<and> h' = h\<lparr>nh_data := nh_data h'\<rparr>
     \<and> (\<forall>H<n. h_rawCount (nh_data h' ! H) = h_rawCount (nh_data h ! H))"

lemma shaped_refl: "length (nh_data h) = n \<Longrightarrow> shaped n h h"
  by (simp add: shaped_def)

lemma shaped_trans: "shaped n h h' \<Longrightarrow> shaped n h' h'' \<Longrightarrow> shaped n h h''"
  unfolding shaped_def by (metis NBodyHistogram.surjective NBodyHistogram.update_convs(8))

lemma shaped_bins: "\<lbrakk>shaped n h h'; n = nh_lambdaBins h * nh_betaBins h\<rbrakk>
    \<Longrightarrow> length (nh_data h') = nh_lambdaBins h' * nh_betaBins h'"
  unfolding shaped_def by (metis NBodyHistogram.select_convs(1,2) NBodyHistogram.surjective NBodyHistogram.update_convs(8))

lemma nbCalcDisp_shaped:
  assumes "length (nh_data h) = n" "n = nh_lambdaBins h * nh_betaBins h"
  shows "shaped n h (nbCalcDisp i c h)"
  using assms by (simp add: shaped_def nbCalcDisp_map)

lemma without_outliers_clips:
  fixes h :: NBodyHistogram and var :: "real list"
  defines "vals \<equiv> \<lambda>V use_body H. map ((!) var) (bin_entries use_body V H)"
  assumes "length (nh_data h) = n" "n = nh_lambdaBins h * nh_betaBins h"
    and "\<And>c. c < length (visible st) \<Longrightarrow> coded n (use_body ! c)"
    and H: "H < n" "bin_holds (vals (length (visible st)) use_body H) ks0 (nh_data h ! H)"
  shows "bin_holds (vals (length (visible st)) use_body H)
      ((clip_pass sg cf (vals (length (visible st)) use_body H) ^^ to_uint (IterMax ctx)) ks0)
      (nh_data (without_outliers ctx st use_body var sg cf n h) ! H)"
proof -
  let ?f = "\<lambda>h. nbCalcDisp False cf (nbRemoveOutliers st use_body var sg n h)"
  let ?vs = "vals (length (visible st)) use_body H"
  have one: "length (nh_data (?f g)) = n \<and> n = nh_lambdaBins (?f g) * nh_betaBins (?f g)
      \<and> bin_holds ?vs (clip_pass sg cf ?vs k) (nh_data (?f g) ! H)"
    if g: "length (nh_data g) = n" "n = nh_lambdaBins g * nh_betaBins g" "bin_holds ?vs k (nh_data g ! H)" for g k
  proof -
    obtain ks s where k: "k = (ks, s)" by (cases k)
    obtain d where d: "nbRemoveOutliers st use_body var sg n g = g\<lparr>nh_data := d\<rparr>" "length d = n"
      "bin_holds ?vs (filter (\<lambda>v. \<bar>mean ks - Fin v\<bar> < Fin sg * s) ?vs, s) (d ! H)"
      using nbRemoveOutliers_bins[where h = g and st = st and use_body = use_body and var = var and sg = sg, OF g(1) assms(4)]
        H(1) g(3) unfolding k vals_def by blast
    then have "?f g = g\<lparr>nh_data := map (disp_bin False cf) d\<rparr>" using g by (simp add: nbCalcDisp_map)
    then show ?thesis
      using disp_bin_holds[OF d(3), of False cf] d(2) g H(1) by (simp add: clip_pass_def k Let_def)
  qed
  have "length (nh_data ((?f ^^ m) h)) = n \<and> n = nh_lambdaBins ((?f ^^ m) h) * nh_betaBins ((?f ^^ m) h)
      \<and> bin_holds ?vs ((clip_pass sg cf ?vs ^^ m) ks0) (nh_data ((?f ^^ m) h) ! H)" for m
  proof (induction m)
    case (Suc m)
    then show ?case unfolding funpow.simps comp_apply using one[of "(?f ^^ m) h"] by blast
  qed (use assms(2,3) H(2) in simp)
  then show ?thesis by (simp add: without_outliers_def)
qed

end
