(* ===== verification/NBody_HistMain.thy ===== *)
theory NBody_HistMain
  imports NBody_HistProps NBody_MakeTree
begin

text \<open>
  \<open>nbCreateHistogram\<close> as a whole: counts and averages.
\<close>

section \<open>The stages after the counting\<close>

definition same_counts :: "NBodyHistogram \<Rightarrow> NBodyHistogram \<Rightarrow> bool" where
  "same_counts h h' \<longleftrightarrow> length (nh_data h') = length (nh_data h)
     \<and> map h_rawCount (nh_data h') = map h_rawCount (nh_data h) \<and> nh_totalNum h' = nh_totalNum h"

lemma shaped_same_counts: "shaped n h h' \<Longrightarrow> length (nh_data h) = n \<Longrightarrow> same_counts h h'"
  unfolding shaped_def same_counts_def
  by (auto intro!: nth_equalityI) (metis NBodyHistogram.select_convs(3) NBodyHistogram.surjective NBodyHistogram.update_convs(8))

lemma average_bin_counts [simp]: "h_rawCount (average_bin d) = h_rawCount d"
  by (simp add: average_bin_def Let_def)

definition norm_bin :: "NBodyHistogram \<Rightarrow> nat \<Rightarrow> nat \<Rightarrow> HistData \<Rightarrow> HistData" where
  "norm_bin h i j d = d\<lparr>h_lambda := Fin ((real i + 0.5) * nbHistogramLambdaBinSize (nh_params h) + lambdaStart (nh_params h)),
     h_beta := Fin ((real j + 0.5) * nbHistogramBetaBinSize (nh_params h) + betaStart (nh_params h)),
     h_variable := Fin (real (h_rawCount d)) / Fin (real (nh_totalNum h)),
     h_err := nbNormalizedHistogramError (h_rawCount (nh_data h ! i)) (Fin (real (nh_totalNum h)))
                (Fin (real (nh_totalSimulated h)))\<rparr>"

lemma bin_number_less:
  assumes "i < a" "j < b"
  shows "i * b + j < a * b" "i < a * (b::nat)"
proof -
  have "Suc i * b \<le> a * b" using assms(1) by (intro mult_le_mono1) simp
  then show "i * b + j < a * b" using assms(2) by simp
  have "a * 1 \<le> a * b" using assms(2) by (intro mult_le_mono2) simp
  then show "i < a * b" using assms(1) unfolding mult_1_right by (rule less_le_trans[rotated])
qed

lemma bin_number_split: "j < b \<Longrightarrow> (i * b + j) div b = i \<and> (i * b + j) mod b = (j::nat)"
  by simp

lemma nbNormalizeHistogram_map:
  assumes "length (nh_data h) = nh_lambdaBins h * nh_betaBins h"
  shows "nbNormalizeHistogram h = h\<lparr>nh_data := map (\<lambda>k. norm_bin h (k div nh_betaBins h) (k mod nh_betaBins h)
     (nh_data h ! k)) [0..<nh_lambdaBins h * nh_betaBins h]\<rparr>"
proof -
  let ?P = "\<lambda>ys :: HistData list. map h_rawCount ys = map h_rawCount (nh_data h)"
  have raw: "h_rawCount (ys ! i) = h_rawCount (nh_data h ! i)" if "?P ys" "i < length ys" for ys i
    using that by (metis length_map nth_map)
  have keep: "?P (ys[k := norm_bin h a b (ys ! k)])" if "?P ys" "k < length ys" for k ys a b
    using that map_list_update_same[of k ys h_rawCount "norm_bin h a b (ys ! k)"] by (simp add: norm_bin_def)
  let ?f = "\<lambda>i j (d :: HistData list). (d ! (i * nh_betaBins h + j))\<lparr>
      h_lambda := Fin ((real i + 0.5) * nbHistogramLambdaBinSize (nh_params h) + lambdaStart (nh_params h)),
      h_beta := Fin ((real j + 0.5) * nbHistogramBetaBinSize (nh_params h) + betaStart (nh_params h)),
      h_variable := Fin (real (h_rawCount (d ! (i * nh_betaBins h + j)))) / Fin (real (nh_totalNum h)),
      h_err := nbNormalizedHistogramError (h_rawCount (d ! i)) (Fin (real (nh_totalNum h))) (Fin (real (nh_totalSimulated h)))\<rparr>"
  have "for_bins ?f (nh_lambdaBins h) (nh_betaBins h) (nh_data h)
      = map (\<lambda>k. norm_bin h (k div nh_betaBins h) (k mod nh_betaBins h) (nh_data h ! k))
          [0..<nh_lambdaBins h * nh_betaBins h]"
  proof (rule for_bins_map[where P = ?P and g = "norm_bin h"])
    fix i j and ys :: "HistData list" assume a: "?P ys" "length ys = nh_lambdaBins h * nh_betaBins h" "i < nh_lambdaBins h" "j < nh_betaBins h"
    have "i < length ys" using bin_number_less(2)[OF a(3,4)] a(2) by simp
    then show "?f i j ys = norm_bin h i j (ys ! (i * nh_betaBins h + j))"
      using raw[OF a(1)] by (simp only: norm_bin_def)
  qed (use assms keep in auto)
  then show ?thesis by (simp only: nbNormalizeHistogram_def Let_def)
qed

definition hist_bodies :: "NBodyState \<Rightarrow> Body list" where
  "hist_bodies st = take (nbody st) (bodytab st)"

definition counting :: "real NBodyCtx \<Rightarrow> NBodyState \<Rightarrow> real HistogramParams \<Rightarrow> hist_loop" where
  "counting ctx st hp = fold (count_body ctx hp) (hist_bodies st) (start_loop st hp)"

definition after_counting :: "real NBodyCtx \<Rightarrow> NBodyState \<Rightarrow> real HistogramParams \<Rightarrow> nat \<Rightarrow> NBodyHistogram" where
  "after_counting ctx st hp k =
     (counts_of ctx hp k (hist_bodies st) (new_histogram hp (fst (light_bodies st)) (snd (light_bodies st))))
       \<lparr>nh_totalNum := length (filter (\<lambda>p. \<not> ignoreBody p \<and> bin_of ctx hp p \<noteq> None) (hist_bodies st))\<rparr>"

definition used :: "NBodyState \<Rightarrow> nat \<Rightarrow> bool" where
  "used st k \<longleftrightarrow> k < 3 \<or> k < 6 \<and> (st_useVlos st \<or> st_useBetaComp st \<or> st_useDist st)"

lemma start_loop_ok:
  "six (l_all (start_loop st hp))" "k < 6 \<Longrightarrow> usage (l_all (start_loop st hp)) ! k = used st k"
  "used st k \<Longrightarrow> histograms (l_all (start_loop st hp)) ! k
     = Some (new_histogram hp (fst (light_bodies st)) (snd (light_bodies st)))"
  "l_totalNum (start_loop st hp) = 0"
proof -
  show "six (l_all (start_loop st hp))" "l_totalNum (start_loop st hp) = 0"
    by (simp_all add: start_loop_def Let_def six_def split: prod.split)
  show "usage (l_all (start_loop st hp)) ! k = used st k" if "k < 6"
    using that unfolding less6 by (elim disjE) (simp_all add: start_loop_def Let_def used_def split: prod.split)
  show "histograms (l_all (start_loop st hp)) ! k
     = Some (new_histogram hp (fst (light_bodies st)) (snd (light_bodies st)))" if "used st k"
  proof -
    have "k < 6" using that by (auto simp: used_def)
    then show ?thesis using that unfolding less6
      by (elim disjE) (simp_all add: start_loop_def Let_def used_def numeral_3_eq_3 nth_append split: prod.split)
  qed
qed

text \<open>What happens to the histogram \<open>k\<close> after the counting.\<close>

definition stage :: "real NBodyCtx \<Rightarrow> NBodyState \<Rightarrow> nat \<Rightarrow> hist_loop \<Rightarrow> nat \<Rightarrow> NBodyHistogram \<Rightarrow> NBodyHistogram" where
  "stage ctx st n s k h =
     (if k = 0 then nbNormalizeHistogram h
      else if k = 1 then without_outliers ctx st (use_betabody s) (l_betas s) (BetaSigma ctx) (BetaCorrect ctx) n
                           (nbCalcDisp True (BetaCorrect ctx) h)
      else if k = 2 then without_outliers ctx st (use_velbody s) (l_vlos s) (VelSigma ctx) (VelCorrect ctx) n
                           (nbCalcDisp True (VelCorrect ctx) h)
      else if k = 3 then average_bins n (without_outliers ctx st (use_velbody s) (l_vlos s) (VelSigma ctx) (VelCorrect ctx) n
                           (nbCalcDisp True (VelCorrect ctx) h))
      else if k = 4 then average_bins n (without_outliers ctx st (use_betabody s) (l_betas s) (BetaSigma ctx) (BetaCorrect ctx) n
                           (nbCalcDisp True (BetaCorrect ctx) h))
      else average_bins n (without_outliers ctx st (use_distbody s) (l_distances s) (DistSigma ctx) (DistCorrect ctx) n
                           (nbCalcDisp True (DistCorrect ctx) h)))"

lemma nbCreateHistogram_stage:
  assumes "used st k"
  shows "histograms (nbCreateHistogram ctx st hp) ! k
    = Some (stage ctx st (lambdaBins hp * betaBins hp) (counting ctx st hp) k (after_counting ctx st hp k))"
    and "usage (nbCreateHistogram ctx st hp) = usage (l_all (start_loop st hp))"
proof -
  have k: "k < 6" using assms by (auto simp: used_def)
  let ?s = "counting ctx st hp" and ?n = "lambdaBins hp * betaBins hp"
  let ?h0 = "new_histogram hp (fst (light_bodies st)) (snd (light_bodies st))"
  have "length (nh_data ?h0) = ?n" by (simp add: new_histogram_def)
  note c = count_bodies[OF start_loop_ok(1) k _ start_loop_ok(3)[OF assms] this, of ctx "hist_bodies st",
      folded counting_def, unfolded start_loop_ok(2)[OF k] start_loop_ok(4), OF assms]
  have u: "usage (l_all ?s) = usage (l_all (start_loop st hp))" "six (l_all ?s)" "usage (l_all ?s) ! k"
    using c start_loop_ok(2)[OF k] assms by simp_all
  define a where "a = fold (\<lambda>k. upd_hist k (\<lambda>h. h\<lparr>nh_totalNum := l_totalNum ?s\<rparr>)) [0..<6] (l_all ?s)"
  have a: "histograms a ! k = Some (after_counting ctx st hp k)" "six a" "usage a = usage (l_all ?s)"
    using histograms_upd_all[OF u(2) k, of "\<lambda>h. h\<lparr>nh_totalNum := l_totalNum ?s\<rparr>"] c u(3)
    by (simp_all add: a_def after_counting_def)
  have e: "nbCreateHistogram ctx st hp = upd_hist 0 nbNormalizeHistogram
      (upd_hist 5 (average_bins ?n)
      (upd_hist 5 (without_outliers ctx st (use_distbody ?s) (l_distances ?s) (DistSigma ctx) (DistCorrect ctx) ?n)
      (upd_hist 4 (average_bins ?n)
      (upd_hist 4 (without_outliers ctx st (use_betabody ?s) (l_betas ?s) (BetaSigma ctx) (BetaCorrect ctx) ?n)
      (upd_hist 3 (average_bins ?n)
      (upd_hist 3 (without_outliers ctx st (use_velbody ?s) (l_vlos ?s) (VelSigma ctx) (VelCorrect ctx) ?n)
      (upd_hist 2 (without_outliers ctx st (use_velbody ?s) (l_vlos ?s) (VelSigma ctx) (VelCorrect ctx) ?n)
      (upd_hist 1 (without_outliers ctx st (use_betabody ?s) (l_betas ?s) (BetaSigma ctx) (BetaCorrect ctx) ?n)
      (upd_hist 5 (nbCalcDisp True (DistCorrect ctx))
      (upd_hist 4 (nbCalcDisp True (BetaCorrect ctx))
      (upd_hist 3 (nbCalcDisp True (VelCorrect ctx))
      (upd_hist 2 (nbCalcDisp True (VelCorrect ctx))
      (upd_hist 1 (nbCalcDisp True (BetaCorrect ctx)) a)))))))))))))"
    by (simp add: nbCreateHistogram_def Let_def a_def counting_def hist_bodies_def)
  show "usage (nbCreateHistogram ctx st hp) = usage (l_all (start_loop st hp))"
    unfolding e by (simp add: a(3) u(1))
  show "histograms (nbCreateHistogram ctx st hp) ! k
      = Some (stage ctx st ?n ?s k (after_counting ctx st hp k))"
    using k[unfolded less6] a u(3) unfolding e by (elim disjE) (simp_all add: histograms_upd stage_def)
qed

section \<open>Counts\<close>

lemma nbRemoveOutliers_shaped:
  assumes "length (nh_data h) = n"
  shows "shaped n h (nbRemoveOutliers st use_body var sg n h)"
proof -
  obtain ts tq tr m where r: "fold (outlier_step (nh_data h)
        (map (\<lambda>i. Fin (h_sum (nh_data h ! i)) / Fin (real (h_rawCount (nh_data h ! i)) - h_outliersRemoved (nh_data h ! i))) [0..<n])
        use_body var sg) (take (nbody st) (bodytab st)) (replicate n 0, replicate n 0, replicate n 0, 0) = (ts, tq, tr, m)"
    by (rule prod_cases4)
  let ?g = "\<lambda>i (x :: HistData). x\<lparr>h_sum := ts ! i, h_sq_sum := tq ! i, h_outliersRemoved := tr ! i\<rparr>"
  have "nbRemoveOutliers st use_body var sg n h = h\<lparr>nh_data := map (\<lambda>i. ?g i (nh_data h ! i)) [0..<n]\<rparr>"
    using fold_update_inv[of n "nh_data h" "\<lambda>_. True" "\<lambda>i d. ?g i (d ! i)" ?g] assms
    unfolding nbRemoveOutliers_def Let_def r by simp
  then show ?thesis by (simp add: shaped_def)
qed

lemma without_outliers_shaped:
  assumes "length (nh_data h) = n" "n = nh_lambdaBins h * nh_betaBins h"
  shows "shaped n h (without_outliers ctx st use_body var sg cf n h)"
proof -
  let ?f = "\<lambda>h. nbCalcDisp False cf (nbRemoveOutliers st use_body var sg n h)"
  have one: "shaped n h (?f g)" if "shaped n h g" for g
  proof -
    have g: "length (nh_data g) = n" "n = nh_lambdaBins g * nh_betaBins g"
      using that shaped_bins[OF that assms(2)] by (simp_all add: shaped_def)
    note o = nbRemoveOutliers_shaped[OF g(1), of st use_body var sg]
    have "length (nh_data (nbRemoveOutliers st use_body var sg n g)) = n" using o by (simp add: shaped_def)
    then show ?thesis
      using shaped_trans[OF that shaped_trans[OF o nbCalcDisp_shaped[of _ n False cf]]] shaped_bins[OF o g(2)] by simp
  qed
  have "shaped n h ((?f ^^ m) h)" for m
    by (induction m) (simp_all add: one shaped_refl[OF assms(1)])
  then show ?thesis by (simp add: without_outliers_def)
qed

lemma average_bins_shaped: "length (nh_data h) = n \<Longrightarrow> shaped n h (average_bins n h)"
  by (simp add: shaped_def average_bins_map)

lemma nbNormalizeHistogram_shaped:
  "length (nh_data h) = n \<Longrightarrow> n = nh_lambdaBins h * nh_betaBins h \<Longrightarrow> shaped n h (nbNormalizeHistogram h)"
  by (simp add: shaped_def nbNormalizeHistogram_map norm_bin_def)

lemma after_counting_simps [simp]:
  "length (nh_data (after_counting ctx st hp k)) = lambdaBins hp * betaBins hp"
  "nh_lambdaBins (after_counting ctx st hp k) = lambdaBins hp" "nh_betaBins (after_counting ctx st hp k) = betaBins hp"
  "nh_params (after_counting ctx st hp k) = hp"
  "nh_totalNum (after_counting ctx st hp k) = length (filter (\<lambda>p. \<not> ignoreBody p \<and> bin_of ctx hp p \<noteq> None) (hist_bodies st))"
  by (simp_all add: after_counting_def counts_of_def new_histogram_def)

lemma after_counting_bin:
  "H < lambdaBins hp * betaBins hp \<Longrightarrow> nh_data (after_counting ctx st hp k) ! H
     = counted ctx hp k (filter (in_bin ctx hp H) (hist_bodies st)) empty_bin"
  by (simp add: after_counting_def counts_of_def new_histogram_def)

lemma stage_shaped:
  assumes "length (nh_data h) = n" "n = nh_lambdaBins h * nh_betaBins h"
  shows "shaped n h (stage ctx st n s k h)"
proof -
  have d: "shaped n h (nbCalcDisp True c h)" for c by (rule nbCalcDisp_shaped[OF assms])
  have o: "shaped n h (without_outliers ctx st u v sg cf n (nbCalcDisp True c h))" for u v sg cf c
    using shaped_trans[OF d without_outliers_shaped] d shaped_bins[OF d assms(2)]
    by (metis shaped_def)
  then have "shaped n h (average_bins n (without_outliers ctx st u v sg cf n (nbCalcDisp True c h)))" for u v sg cf c
    using shaped_trans[OF o average_bins_shaped] by (metis shaped_def)
  then show ?thesis
    using o nbNormalizeHistogram_shaped[OF assms] by (simp add: stage_def)
qed

text \<open>C24: the counts of a histogram. Each histogram in use holds in its bin \<open>H\<close> the number of the
  bodies of the visible model that \<open>bin_of\<close> puts there, and \<open>totalNum\<close> is the number of visible
  bodies in the range and the sum of the counts, whatever the later passes over the bins do. In the first
  histogram the bin \<open>(i, j)\<close> has its centre in stream coordinates, its count over the total as its value (not a
  number when no body is in the range), and an error that the code computes from the count of bin number \<open>i\<close>
  instead.\<close>

theorem nbCreateHistogram_counts:
  assumes "k < 3 \<or> k < 6 \<and> (st_useVlos st \<or> st_useBetaComp st \<or> st_useDist st)"
  shows "\<exists>h. histograms (nbCreateHistogram ctx st hp) ! k = Some h
    \<and> length (nh_data h) = lambdaBins hp * betaBins hp
    \<and> (\<forall>H < lambdaBins hp * betaBins hp. h_rawCount (nh_data h ! H)
         = length (filter (\<lambda>p. \<not> ignoreBody p \<and> bin_of ctx hp p = Some H) (take (nbody st) (bodytab st))))
    \<and> nh_totalNum h = length (filter (\<lambda>p. \<not> ignoreBody p \<and> bin_of ctx hp p \<noteq> None) (take (nbody st) (bodytab st)))
    \<and> nh_totalNum h = sum_list (map h_rawCount (nh_data h))
    \<and> (k = 0 \<longrightarrow> (\<forall>i < lambdaBins hp. \<forall>j < betaBins hp. let d = nh_data h ! (i * betaBins hp + j) in
          h_lambda d = Fin (lambdaStart hp + (real i + 1 / 2) * nbHistogramLambdaBinSize hp)
        \<and> h_beta d = Fin (betaStart hp + (real j + 1 / 2) * nbHistogramBetaBinSize hp)
        \<and> h_variable d = Fin (real (h_rawCount d)) / Fin (real (nh_totalNum h))
        \<and> h_err d = nbNormalizedHistogramError (h_rawCount (nh_data h ! i)) (Fin (real (nh_totalNum h)))
                      (Fin (real (nh_totalSimulated h)))))"
proof -
  let ?n = "lambdaBins hp * betaBins hp" and ?a = "after_counting ctx st hp k"
  define h where "h = stage ctx st ?n (counting ctx st hp) k ?a"
  have u: "used st k" using assms by (simp add: used_def)
  have sh: "shaped ?n ?a h" unfolding h_def by (rule stage_shaped) simp_all
  have raw: "h_rawCount (nh_data h ! H) = length (filter (in_bin ctx hp H) (hist_bodies st))" if "H < ?n" for H
    using sh that by (simp add: shaped_def after_counting_bin counted_def empty_bin_def)
  have tot: "nh_totalNum h = length (filter (\<lambda>p. \<not> ignoreBody p \<and> bin_of ctx hp p \<noteq> None) (hist_bodies st))"
    using shaped_same_counts[OF sh] by (simp add: same_counts_def)
  have len: "length (nh_data h) = ?n" using sh by (simp add: shaped_def)
  have "sum_list (map h_rawCount (nh_data h)) = (\<Sum>H\<leftarrow>[0..<?n]. length (filter (in_bin ctx hp H) (hist_bodies st)))"
    using raw len by (intro arg_cong[where f = sum_list] nth_equalityI) simp_all
  then have sum: "nh_totalNum h = sum_list (map h_rawCount (nh_data h))"
    using tot sum_counts[OF refl, of ctx hp "hist_bodies st"] by simp
  have norm: "nh_data h ! (i * betaBins hp + j) = norm_bin ?a i j (nh_data ?a ! (i * betaBins hp + j))
      \<and> h_rawCount (nh_data h ! i) = h_rawCount (nh_data ?a ! i)" if "k = 0" "i < lambdaBins hp" "j < betaBins hp" for i j
  proof -
    note le = bin_number_less[OF that(2,3)]
    then show ?thesis
      using sh that by (simp add: h_def stage_def nbNormalizeHistogram_map shaped_def bin_number_split)
  qed
  have h0: "nh_totalSimulated h = nh_totalSimulated ?a" "nh_totalNum h = nh_totalNum ?a"
    using sh unfolding shaped_def by (metis NBodyHistogram.select_convs(3,4) NBodyHistogram.surjective NBodyHistogram.update_convs(8))+
  show ?thesis
    using nbCreateHistogram_stage(1)[OF u, of ctx hp, folded h_def] raw[unfolded in_bin_def[abs_def]] tot len sum norm h0
    unfolding hist_bodies_def by (intro exI[of _ h]) (auto simp: norm_bin_def Let_def add.commute)
qed

section \<open>Cells of the grid\<close>

text \<open>Grids for which no conversion to \<open>unsigned int\<close> is out of range by more than its width.\<close>

definition grid_ok :: "real HistogramParams \<Rightarrow> bool" where
  "grid_ok hp \<longleftrightarrow> \<bar>lambdaStart hp\<bar> \<le> 360 \<and> \<bar>betaStart hp\<bar> \<le> 360
     \<and> 1 / 1000 \<le> nbHistogramLambdaBinSize hp \<and> 1 / 1000 \<le> nbHistogramBetaBinSize hp
     \<and> lambdaBins hp \<le> 2 ^ 31 \<and> betaBins hp \<le> 2 ^ 31"

lemma wrapped_negative: "\<lbrakk>- 540000 \<le> z; z < 0\<rbrakk> \<Longrightarrow> (z::int) mod 2 ^ 32 = z + 2 ^ 32"
proof -
  assume "- 540000 \<le> z" "z < 0"
  then have "(z + 2 ^ 32) mod 2 ^ 32 = z + 2 ^ 32" by (intro mod_pos_pos_trivial) simp_all
  then show ?thesis by simp
qed

lemma bin_number_unique:
  "\<lbrakk>I * b + J = i * b + j; J < b; j < b\<rbrakk> \<Longrightarrow> I = i \<and> J = (j::nat)"
  by (metis div_mult_self3 mod_mult_self3 div_less mod_less add_0_right not_less_zero mod_mult_self2_is_0)

lemma abs_quotient_le_1: "\<bar>z\<bar> \<le> (D::real) \<Longrightarrow> \<bar>z / D\<bar> \<le> 1"
  by (cases "D = 0") (auto simp: abs_divide)

lemma to_uint_floor:
  assumes "\<bar>y\<bar> \<le> 540" "1 / 1000 \<le> w" "n \<le> 2 ^ 31" "i < n"
  shows "to_uint (of_int \<lfloor>y / w\<rfloor>) = i \<longleftrightarrow> real i * w \<le> y \<and> y < (real i + 1) * w"
proof -
  have s: "0 < w" using assms(2) by linarith
  have "\<bar>y / w\<bar> \<le> 540000"
    using assms(1,2) s by (simp add: abs_divide divide_le_eq)
  then have "- 540000 \<le> y / w" "y / w \<le> 540000" by linarith+
  then have r: "- 540000 \<le> \<lfloor>y / w\<rfloor>" "\<lfloor>y / w\<rfloor> \<le> 540000" by linarith+
  have t: "trunc_int (of_int z) = z" for z by (simp add: trunc_int_def)
  have "to_uint (of_int \<lfloor>y / w\<rfloor>) = i \<longleftrightarrow> \<lfloor>y / w\<rfloor> = int i"
  proof (cases "0 \<le> \<lfloor>y / w\<rfloor>")
    case True
    then have "\<lfloor>y / w\<rfloor> mod 2 ^ 32 = \<lfloor>y / w\<rfloor>" using r by (intro mod_pos_pos_trivial) auto
    then show ?thesis using True by (simp add: to_uint_def t nat_eq_iff)
  next
    case False
    have m: "\<lfloor>y / w\<rfloor> mod 2 ^ 32 = \<lfloor>y / w\<rfloor> + 2 ^ 32"
      by (rule wrapped_negative) (use False r(1) in simp_all)
    have "2 ^ 31 \<le> z + 2 ^ 32" if "- 540000 \<le> z" for z :: int using that by simp
    then have "2 ^ 31 \<le> \<lfloor>y / w\<rfloor> + 2 ^ 32" using r(1) by blast
    then have "to_uint (of_int \<lfloor>y / w\<rfloor>) \<ge> 2 ^ 31"
      unfolding to_uint_def t m by (simp add: le_nat_iff)
    then have "to_uint (of_int \<lfloor>y / w\<rfloor>) \<noteq> i" using assms(3,4) by linarith
    moreover have "\<lfloor>y / w\<rfloor> \<noteq> int i" using False by linarith
    ultimately show ?thesis by blast
  qed
  also have "\<dots> \<longleftrightarrow> real i \<le> y / w \<and> y / w < real i + 1"
    by (simp add: floor_eq_iff)
  also have "\<dots> \<longleftrightarrow> real i * w \<le> y \<and> y < (real i + 1) * w"
    using s by (simp add: le_divide_eq divide_less_eq)
  finally show ?thesis .
qed

lemma lambda_beta_range:
  "\<bar>fst (lambda_beta ctx hp p)\<bar> \<le> 180" "\<bar>snd (lambda_beta ctx hp p)\<bar> \<le> 180"
proof -
  have deg: "\<bar>r2d x\<bar> \<le> 180" if "\<bar>x\<bar> \<le> pi" for x
  proof -
    have "\<bar>x\<bar> * 180 / pi \<le> pi * 180 / pi" using that by (intro divide_right_mono mult_right_mono) auto
    then show ?thesis by (simp add: r2d_def abs_mult)
  qed
  show "\<bar>fst (lambda_beta ctx hp p)\<bar> \<le> 180"
    unfolding lambda_beta_def nbXYZToLambdaBeta_def Let_def
    by (simp, rule deg) (use atan2_range in \<open>auto simp: abs_le_iff minus_le_iff intro: less_imp_le\<close>)
  have one: "\<bar>z / sqrt (x * x + y * y + z' * z')\<bar> \<le> 1" if "z' = - z" for x y z z' :: real
  proof -
    have "\<bar>z\<bar> = sqrt (z * z)" by simp
    also have "\<dots> \<le> sqrt (x * x + y * y + z' * z')" using that by (intro real_sqrt_le_mono) simp
    finally show ?thesis by (rule abs_quotient_le_1)
  qed
  have asn: "\<bar>arcsin t\<bar> \<le> pi" if "\<bar>t\<bar> \<le> 1" for t
    using arcsin_bounded[of t] that pi_gt_zero by (auto simp: abs_le_iff)
  show "\<bar>snd (lambda_beta ctx hp p)\<bar> \<le> 180"
    unfolding lambda_beta_def nbXYZToLambdaBeta_def
    by (simp only: Let_def snd_conv mwvector.simps) (intro deg asn one, simp)
qed

text \<open>What a bin is. On a grid with cells of at least a thousandth of a degree \<open>bin_of\<close> puts a
  body in the bin \<open>i * betaBins + j\<close>, with \<open>i\<close> and \<open>j\<close> in range, exactly when its stream longitude
  is in the \<open>i\<close>-th and its latitude in the \<open>j\<close>-th of the half-open cells that divide the range from
  the start on.\<close>

theorem bin_of_iff:
  assumes "grid_ok hp" "i < lambdaBins hp" "j < betaBins hp"
  shows "bin_of ctx hp p = Some (i * betaBins hp + j) \<longleftrightarrow>
    lambdaStart hp + real i * nbHistogramLambdaBinSize hp \<le> fst (lambda_beta ctx hp p)
    \<and> fst (lambda_beta ctx hp p) < lambdaStart hp + (real i + 1) * nbHistogramLambdaBinSize hp
    \<and> betaStart hp + real j * nbHistogramBetaBinSize hp \<le> snd (lambda_beta ctx hp p)
    \<and> snd (lambda_beta ctx hp p) < betaStart hp + (real j + 1) * nbHistogramBetaBinSize hp"
proof -
  let ?l = "fst (lambda_beta ctx hp p) - lambdaStart hp" and ?b = "snd (lambda_beta ctx hp p) - betaStart hp"
  let ?I = "to_uint (of_int \<lfloor>?l / nbHistogramLambdaBinSize hp\<rfloor>)"
  let ?J = "to_uint (of_int \<lfloor>?b / nbHistogramBetaBinSize hp\<rfloor>)"
  have g: "\<bar>?l\<bar> \<le> 540" "\<bar>?b\<bar> \<le> 540"
    using lambda_beta_range[of ctx hp p] assms(1) by (auto simp: grid_ok_def)
  have "bin_of ctx hp p = Some (i * betaBins hp + j)
      \<longleftrightarrow> ?I < lambdaBins hp \<and> ?J < betaBins hp \<and> ?I * betaBins hp + ?J = i * betaBins hp + j"
    by (auto simp: bin_of_def split_beta Let_def)
  also have "\<dots> \<longleftrightarrow> ?I = i \<and> ?J = j"
  proof
    assume a: "?I < lambdaBins hp \<and> ?J < betaBins hp \<and> ?I * betaBins hp + ?J = i * betaBins hp + j"
    then show "?I = i \<and> ?J = j" using bin_number_unique[of ?I _ ?J i j] assms(3) by blast
  qed (use assms in simp)
  also have "\<dots> \<longleftrightarrow> (real i * nbHistogramLambdaBinSize hp \<le> ?l \<and> ?l < (real i + 1) * nbHistogramLambdaBinSize hp)
      \<and> (real j * nbHistogramBetaBinSize hp \<le> ?b \<and> ?b < (real j + 1) * nbHistogramBetaBinSize hp)"
    using to_uint_floor[OF g(1) _ _ assms(2)] to_uint_floor[OF g(2) _ _ assms(3)] assms(1)
    by (simp add: grid_ok_def)
  finally show ?thesis by (auto simp: algebra_simps)
qed

section \<open>Averages\<close>

lemma subseq_subset: "subseq xs ys \<Longrightarrow> set xs \<subseteq> set ys"
  by (induction rule: list_emb.induct) auto

definition code_of :: "real NBodyCtx \<Rightarrow> real HistogramParams \<Rightarrow> Body \<Rightarrow> real" where
  "code_of ctx hp p = (case bin_of ctx hp p of None \<Rightarrow> DEFAULT_NOT_USE | Some H \<Rightarrow> real H)"

definition stored :: "real NBodyCtx \<Rightarrow> real HistogramParams \<Rightarrow> nat \<Rightarrow> Body \<Rightarrow> real" where
  "stored ctx hp k p = (if bin_of ctx hp p = None then DEFAULT_NOT_USE else value_of ctx hp k p)"

definition arrays_ok :: "real NBodyCtx \<Rightarrow> real HistogramParams \<Rightarrow> hist_loop \<Rightarrow> Body list \<Rightarrow> nat \<Rightarrow> bool" where
  "arrays_ok ctx hp s vs m \<longleftrightarrow> l_counter s = length vs
     \<and> use_betabody s = map (code_of ctx hp) vs @ replicate m 0 \<and> use_velbody s = map (code_of ctx hp) vs @ replicate m 0
     \<and> use_distbody s = map (code_of ctx hp) vs @ replicate m 0
     \<and> l_betas s = map (stored ctx hp 4) vs @ replicate m 0 \<and> l_vlos s = map (stored ctx hp 3) vs @ replicate m 0
     \<and> l_distances s = map (stored ctx hp 5) vs @ replicate m 0"

lemma write_next: "(map f vs @ replicate (Suc m) (0::real))[length vs := y] = map f vs @ y # replicate m 0"
  by (simp add: list_update_append)

lemma count_body_arrays:
  assumes "arrays_ok ctx hp s vs (Suc m)" "\<not> ignoreBody p"
  shows "arrays_ok ctx hp (count_body ctx hp p s) (vs @ [p]) m"
proof (cases "bin_of ctx hp p")
  case None
  then show ?thesis using assms
    by (simp add: arrays_ok_def count_body_def Let_def code_of_def stored_def list_update_append)
next
  case (Some H)
  then show ?thesis using assms
    by (simp add: arrays_ok_def count_body_def Let_def code_of_def stored_def value_of_def list_update_append)
qed

lemma counting_arrays:
  "arrays_ok ctx hp s vs (m + length (filter (\<lambda>p. \<not> ignoreBody p) ps))
    \<Longrightarrow> arrays_ok ctx hp (fold (count_body ctx hp) ps s) (vs @ filter (\<lambda>p. \<not> ignoreBody p) ps) m"
proof (induction ps arbitrary: s vs)
  case (Cons p ps)
  show ?case
  proof (cases "ignoreBody p")
    case True
    then show ?thesis using Cons by (simp add: count_body_def)
  next
    case False
    then have "arrays_ok ctx hp (count_body ctx hp p s) (vs @ [p]) (m + length (filter (\<lambda>p. \<not> ignoreBody p) ps))"
      using Cons.prems by (intro count_body_arrays) simp_all
    from Cons.IH[OF this] show ?thesis using False by simp
  qed
qed simp

definition typed_bodies :: "NBodyState \<Rightarrow> bool" where
  "typed_bodies st \<longleftrightarrow> (\<forall>b \<in> set (take (nbody st) (bodytab st)). b_type b = BODY True \<or> b_type b = BODY False)"

lemma light_bodies_count:
  assumes "typed_bodies st"
  shows "snd (light_bodies st) = length (visible st)"
proof -
  have "(\<forall>b \<in> set bs. b_type b = BODY True \<or> b_type b = BODY False) \<Longrightarrow>
      snd (fold (\<lambda>b (mass, n). if b_type b = BODY False then (b_mass b, Suc n) else (mass, n)) bs (x, n))
      = n + length (filter (\<lambda>p. \<not> ignoreBody p) bs)" for bs x n
    by (induction bs arbitrary: x n) (auto simp: BODY_def ignoreBody_def)
  then show ?thesis using assms by (simp add: typed_bodies_def light_bodies_def visible_def)
qed

lemma counting_arrays_ok:
  assumes "typed_bodies st"
  shows "arrays_ok ctx hp (counting ctx st hp) (visible st) 0"
proof -
  have "arrays_ok ctx hp (start_loop st hp) [] (0 + length (visible st))"
    using light_bodies_count[OF assms] by (simp add: arrays_ok_def start_loop_def Let_def split_beta)
  from counting_arrays[OF this[unfolded visible_def]] show ?thesis
    by (simp add: counting_def hist_bodies_def visible_def)
qed

lemma coded_code_of: "coded (lambdaBins hp * betaBins hp) (code_of ctx hp p)"
  using bin_of_less[of ctx hp p] by (auto simp: coded_def code_of_def DEFAULT_NOT_USE_def split: option.split)

lemma entries_bodies:
  "map ((!) (visible st)) (bin_entries (map (code_of ctx hp) (visible st)) (length (visible st)) H)
    = filter (in_bin ctx hp H) (hist_bodies st)"
proof -
  let ?vs = "visible st"
  have v: "\<not> ignoreBody (?vs ! c)" if "c < length ?vs" for c
    using nth_mem[OF that] by (simp add: visible_def)
  have c: "code_of ctx hp p = real H \<longleftrightarrow> bin_of ctx hp p = Some H" for p
    by (auto simp: code_of_def DEFAULT_NOT_USE_def split: option.split)
  have "bin_entries (map (code_of ctx hp) ?vs) (length ?vs) H = filter (\<lambda>c. in_bin ctx hp H (?vs ! c)) [0..<length ?vs]"
    by (auto simp: bin_entries_def in_bin_def c v intro!: filter_cong)
  then have "map ((!) ?vs) (bin_entries (map (code_of ctx hp) ?vs) (length ?vs) H)
      = filter (in_bin ctx hp H) (map ((!) ?vs) [0..<length ?vs])"
    by (simp add: filter_map comp_def)
  then show ?thesis
    by (simp add: map_nth) (simp add: visible_def hist_bodies_def in_bin_def[abs_def])
qed

lemma entries_values:
  "map ((!) (map (stored ctx hp k) (visible st)))
      (bin_entries (map (code_of ctx hp) (visible st)) (length (visible st)) H)
   = map (value_of ctx hp k) (filter (in_bin ctx hp H) (hist_bodies st))"
proof -
  let ?vs = "visible st" and ?E = "bin_entries (map (code_of ctx hp) (visible st)) (length (visible st)) H"
  have "map ((!) (map (stored ctx hp k) ?vs)) ?E = map (stored ctx hp k) (map ((!) ?vs) ?E)"
    by (auto simp: bin_entries_def)
  also have "\<dots> = map (value_of ctx hp k) (map ((!) ?vs) ?E)"
    unfolding entries_bodies by (auto simp: stored_def in_bin_def)
  finally show ?thesis unfolding entries_bodies .
qed

text \<open>The cutoff, in dispersions, and the correction factor for the histogram \<open>k\<close>.\<close>

definition cutoff_of :: "real NBodyCtx \<Rightarrow> nat \<Rightarrow> real" where
  "cutoff_of ctx k = (if k = 1 \<or> k = 4 then BetaSigma ctx else if k = 2 \<or> k = 3 then VelSigma ctx else DistSigma ctx)"

definition correct_of :: "real NBodyCtx \<Rightarrow> nat \<Rightarrow> real" where
  "correct_of ctx k = (if k = 1 \<or> k = 4 then BetaCorrect ctx else if k = 2 \<or> k = 3 then VelCorrect ctx else DistCorrect ctx)"

lemma average_bin_holds:
  assumes "bin_holds vs (ks, s) d"
  shows "h_outliersRemoved (average_bin d) = real (length vs) - real (length ks)"
    and "if length ks > 10
         then h_variable (average_bin d) = mean ks \<and> h_err (average_bin d) = s / dsqrt (Fin (real (length ks)))
         else h_variable (average_bin d) = Fin 0 \<and> h_err (average_bin d) = Fin (-1)"
proof -
  have "trunc_int (real (h_rawCount d) - h_outliersRemoved d) = int (length ks)"
    using assms by (simp add: bin_holds_def trunc_int_def)
  then show "h_outliersRemoved (average_bin d) = real (length vs) - real (length ks)"
    and "if length ks > 10
         then h_variable (average_bin d) = mean ks \<and> h_err (average_bin d) = s / dsqrt (Fin (real (length ks)))
         else h_variable (average_bin d) = Fin 0 \<and> h_err (average_bin d) = Fin (-1)"
    using assms by (auto simp: average_bin_def Let_def bin_holds_def mean_def)
qed

text \<open>C25: dispersions and averages with the outliers removed. Let \<open>vs\<close> be the latitudes, velocities or
  distances of the bodies that fall into a bin, and let \<open>clipped\<close> be the iterated clipping of a sample: every
  pass keeps the values that are less than the cutoff times the dispersion away from the mean of the values
  kept before, and takes the corrected sample deviation of the kept ones while there are more than ten. Then
  the first two histograms (after the counts) end with the dispersion of the values kept by the last pass,
  the last three with their mean and its error, or with no value and the error -1 when ten or fewer are kept;
  and the number removed is the number of those not kept.\<close>

theorem nbCreateHistogram_averages:
  fixes ctx :: "real NBodyCtx"
  assumes "typed_bodies st" "k \<in> {1..5}" "k < 3 \<or> st_useVlos st \<or> st_useBetaComp st \<or> st_useDist st"
    and "H < lambdaBins hp * betaBins hp"
  defines "vs \<equiv> map (value_of ctx hp k) (filter (in_bin ctx hp H) (take (nbody st) (bodytab st)))"
  shows "\<exists>h ks s. histograms (nbCreateHistogram ctx st hp) ! k = Some h
    \<and> (ks, s) = clipped (to_uint (IterMax ctx)) (cutoff_of ctx k) (correct_of ctx k) vs
    \<and> h_outliersRemoved (nh_data h ! H) = real (length vs) - real (length ks)
    \<and> (if k < 3 then h_variable (nh_data h ! H) = s
        else if length ks > 10
        then h_variable (nh_data h ! H) = mean ks \<and> h_err (nh_data h ! H) = s / dsqrt (Fin (real (length ks)))
        else h_variable (nh_data h ! H) = Fin 0 \<and> h_err (nh_data h ! H) = Fin (-1))"
proof -
  let ?n = "lambdaBins hp * betaBins hp" and ?a = "after_counting ctx st hp k" and ?s = "counting ctx st hp"
  let ?U = "map (code_of ctx hp) (visible st)" and ?V = "map (stored ctx hp k) (visible st)"
  let ?sg = "cutoff_of ctx k" and ?cf = "correct_of ctx k"
  have k: "k = 1 \<or> k = 2 \<or> k = 3 \<or> k = 4 \<or> k = 5" using assms(2) by auto
  then have u: "used st k" using assms(3) by (auto simp: used_def)
  have same: "stored ctx hp 1 = stored ctx hp 4" "stored ctx hp 2 = stored ctx hp 3"
    by (simp_all add: stored_def value_of_def fun_eq_iff)
  let ?c = "nbCalcDisp True ?cf ?a"
  define h where "h = without_outliers ctx st ?U ?V ?sg ?cf ?n ?c"
  have st: "stage ctx st ?n ?s k ?a = (if k < 3 then h else average_bins ?n h)"
    using k counting_arrays_ok[OF assms(1), of ctx hp] same unfolding h_def
    by (elim disjE) (simp_all add: stage_def arrays_ok_def cutoff_of_def correct_of_def)
  have c: "shaped ?n ?a ?c" by (rule nbCalcDisp_shaped) simp_all
  have cl: "length (nh_data ?c) = ?n" "?n = nh_lambdaBins ?c * nh_betaBins ?c"
    using c shaped_bins[OF c] by (simp_all add: shaped_def)
  have vs: "map ((!) ?V) (bin_entries ?U (length (visible st)) H) = vs"
    unfolding entries_values vs_def hist_bodies_def ..
  have "bin_holds vs (vs, Fin 0) (nh_data ?a ! H)"
    using k assms(4) by (auto simp: after_counting_bin counted_def empty_bin_def bin_holds_def vs_def hist_bodies_def comp_def)
  from disp_bin_holds[OF this, of True ?cf] have 0: "bin_holds vs (vs, spread 1 vs (Fin 0)) (nh_data ?c ! H)"
    using assms(4) by (simp add: nbCalcDisp_map)
  have co: "coded ?n (?U ! i)" if "i < length (visible st)" for i
    using that coded_code_of by simp
  obtain ks s where r: "clipped (to_uint (IterMax ctx)) ?sg ?cf vs = (ks, s)" by (cases "clipped (to_uint (IterMax ctx)) ?sg ?cf vs")
  have hb: "bin_holds vs (ks, s) (nh_data h ! H)"
    using without_outliers_clips[where st = st and var = ?V and sg = ?sg and cf = ?cf and ctx = ctx, OF cl co assms(4)] 0
    unfolding vs h_def r[symmetric] clipped_def by blast
  have hl: "length (nh_data h) = ?n"
    using without_outliers_shaped[OF cl] by (simp add: h_def shaped_def)
  have d: "nh_data (average_bins ?n h) ! H = average_bin (nh_data h ! H)"
    using assms(4) by (simp add: average_bins_map[OF hl] hl)
  let ?g = "if k < 3 then h else average_bins ?n h"
  have "histograms (nbCreateHistogram ctx st hp) ! k = Some ?g"
    using nbCreateHistogram_stage(1)[OF u, of ctx hp] st by simp
  then show ?thesis
    using r hb average_bin_holds[OF hb] by (intro exI[of _ ?g] exI[of _ ks] exI[of _ s]) (simp add: d bin_holds_def)
qed

section \<open>A sample histogram\<close>

definition sample_hp :: "real HistogramParams" where
  "sample_hp = defaultHistogramParams"

lemma sample_grid: "grid_ok sample_hp"
  by (simp add: sample_hp_def defaultHistogramParams_def grid_ok_def nbHistogramLambdaBinSize_def
      nbHistogramBetaBinSize_def)

text \<open>Thirteen bodies in one direction, twelve of them with line-of-sight velocities 1 and -1, one with 100.\<close>

definition flat_hp :: "real HistogramParams" where
  "flat_hp = sample_hp\<lparr>hp_phi := 0, hp_theta := 0, hp_psi := 0\<rparr>"

definition sample_speeds :: "real list" where
  "sample_speeds = [1, -1, 1, -1, 1, -1]"

definition hist_body :: "real \<Rightarrow> Body" where
  "hist_body v = (body_at 0 0 0 1)\<lparr>b_vel := \<lparr>X = v, Y = 0, Z = 0\<rparr>\<rparr>"

definition hist_state :: NBodyState where
  "hist_state = (setInitialNBodyState EMPTY_NBODYSTATE defaultNBodyCtx
     (map hist_body (sample_speeds @ 100 # sample_speeds)) 13)\<lparr>st_useVlos := True\<rparr>"

lemma hist_state_simps:
  "take (nbody hist_state) (bodytab hist_state) = map hist_body (sample_speeds @ 100 # sample_speeds)"
  "st_useVlos hist_state"
  by (simp_all add: hist_state_def setInitialNBodyState_def sample_speeds_def)

lemma hist_body_bin: "bin_of defaultNBodyCtx flat_hp (hist_body v) = Some 175"
proof -
  have "lambda_beta defaultNBodyCtx flat_hp (hist_body v) = (0, 0)"
    by (simp add: lambda_beta_def nbXYZToLambdaBeta_def nbGetHistTrig_def flat_hp_def hist_body_def body_at_def
        defaultNBodyCtx_def d2r_def r2d_def mw_atan2_def Let_def)
  moreover have "\<lfloor>50 / (100 / 34 :: real)\<rfloor> = 17" "\<lfloor>25 / (50 / 10 :: real)\<rfloor> = 5" by simp_all
  ultimately show ?thesis
    by (simp add: bin_of_def flat_hp_def sample_hp_def defaultHistogramParams_def nbHistogramLambdaBinSize_def
        nbHistogramBetaBinSize_def to_uint_def trunc_int_def)
qed

lemma hist_state_bin: "filter (in_bin defaultNBodyCtx flat_hp 175) (take (nbody hist_state) (bodytab hist_state))
    = map hist_body (sample_speeds @ 100 # sample_speeds)"
proof -
  have "in_bin defaultNBodyCtx flat_hp 175 (hist_body v)" for v
    unfolding in_bin_def hist_body_bin by (simp add: hist_body_def body_at_def ignoreBody_def BODY_def)
  then show ?thesis unfolding hist_state_simps by (intro filter_True) auto
qed

lemma hist_body_value: "value_of defaultNBodyCtx flat_hp 3 (hist_body v) = v"
  by (simp add: value_of_def calc_vLOS_def hist_body_def body_at_def defaultNBodyCtx_def Let_def)

theorem nbCreateHistogram_counts_witness:
  "\<exists>h. histograms (nbCreateHistogram defaultNBodyCtx hist_state flat_hp) ! 0 = Some h
     \<and> h_rawCount (nh_data h ! 175) = 13 \<and> h_variable (nh_data h ! 175) = Fin 1"
proof -
  have n: "lambdaBins flat_hp = 34" "betaBins flat_hp = 10"
    by (simp_all add: flat_hp_def sample_hp_def defaultHistogramParams_def)
  let ?bs = "take (nbody hist_state) (bodytab hist_state)"
  have "(0::nat) < 3 \<or> (0::nat) < 6 \<and> (st_useVlos hist_state \<or> st_useBetaComp hist_state \<or> st_useDist hist_state)" by simp
  from nbCreateHistogram_counts[OF this, of defaultNBodyCtx flat_hp, unfolded n] obtain h where
    h: "histograms (nbCreateHistogram defaultNBodyCtx hist_state flat_hp) ! 0 = Some h"
    "\<forall>H < 34 * 10. h_rawCount (nh_data h ! H)
       = length (filter (\<lambda>p. \<not> ignoreBody p \<and> bin_of defaultNBodyCtx flat_hp p = Some H) ?bs)"
    "nh_totalNum h = length (filter (\<lambda>p. \<not> ignoreBody p \<and> bin_of defaultNBodyCtx flat_hp p \<noteq> None) ?bs)"
    "\<forall>i < 34. \<forall>j < 10. h_variable (nh_data h ! (i * 10 + j))
       = Fin (real (h_rawCount (nh_data h ! (i * 10 + j)))) / Fin (real (nh_totalNum h))"
    unfolding Let_def by blast
  have r: "h_rawCount (nh_data h ! 175) = length (filter (in_bin defaultNBodyCtx flat_hp 175) ?bs)"
    using h(2)[rule_format, of 175] unfolding in_bin_def[abs_def] by simp
  have v: "h_variable (nh_data h ! 175) = Fin (real (h_rawCount (nh_data h ! 175))) / Fin (real (nh_totalNum h))"
    using h(4)[rule_format, of 17 5] by simp
  have "nh_totalNum h = length (filter (in_bin defaultNBodyCtx flat_hp 175) (take (nbody hist_state) (bodytab hist_state)))"
    unfolding h(3) hist_state_simps by (intro arg_cong[where f = length] filter_cong) (auto simp: in_bin_def hist_body_bin)
  then show ?thesis
    using h(1) r v unfolding hist_state_bin by (intro exI[of _ h]) (simp add: sample_speeds_def)
qed

theorem bin_of_iff_witness:
  "(bin_of defaultNBodyCtx sample_hp (body_at 1 2 3 5) = Some 175)
   = (let (lam, beta) = lambda_beta defaultNBodyCtx sample_hp (body_at 1 2 3 5)
      in 0 \<le> lam \<and> lam < 50 / 17 \<and> 0 \<le> beta \<and> beta < 5)"
  using bin_of_iff[OF sample_grid, of 17 5 defaultNBodyCtx "body_at 1 2 3 5"]
  by (auto simp: sample_hp_def defaultHistogramParams_def nbHistogramLambdaBinSize_def
      nbHistogramBetaBinSize_def split_beta)

text \<open>The pass that removes the fast body, and all later ones.\<close>

lemma sample_clip:
  defines "vs \<equiv> sample_speeds @ 100 # sample_speeds" and "ks \<equiv> sample_speeds @ sample_speeds"
  shows "clip_pass 2.5 1.111 vs (vs, spread 1 vs (Fin 0)) = (ks, Fin (sqrt (1.111 * 12 / 11)))"
    and "clip_pass 2.5 1.111 vs (ks, Fin (sqrt (1.111 * 12 / 11))) = (ks, Fin (sqrt (1.111 * 12 / 11)))"
proof -
  have m: "mean vs = Fin (100 / 13)" "mean ks = Fin 0"
    by (simp_all add: mean_def vs_def ks_def sample_speeds_def)
  have v: "sample_variance vs = 10012 / 12 - 10000 / 156" "sample_variance ks = 12 / 11"
    by (simp_all add: sample_variance_def vs_def ks_def sample_speeds_def sqr_def)
  have sp: "spread 1 vs (Fin 0) = Fin (sqrt (10012 / 12 - 10000 / 156))"
    "spread 1.111 ks s = Fin (sqrt (1.111 * 12 / 11))" for s
    by (simp_all add: spread_def v) (simp_all add: vs_def ks_def sample_speeds_def)
  have r: "20 < sqrt (10012 / 12 - 10000 / 156 :: real)" "sqrt (10012 / 12 - 10000 / 156 :: real) < 30"
    "1 < sqrt (1.111 * 12 / 11 :: real)" "sqrt (1.111 * 12 / 11 :: real) < 2"
    by (auto intro!: real_less_rsqrt real_less_lsqrt simp: power2_eq_square)
  have "2 < 5 * sqrt (303 / 250 :: real)"
  proof -
    have "1 < sqrt (303 / 250 :: real)" by simp
    then show ?thesis by linarith
  qed
  note r = r this
  have f: "filter (\<lambda>v. \<bar>mean vs - Fin v\<bar> < Fin 2.5 * spread 1 vs (Fin 0)) vs = ks"
    "filter (\<lambda>v. \<bar>mean ks - Fin v\<bar> < Fin 2.5 * Fin (sqrt (1.111 * 12 / 11))) vs = ks"
    using r unfolding m sp by (simp_all add: vs_def ks_def sample_speeds_def abs_if)
  show "clip_pass 2.5 1.111 vs (vs, spread 1 vs (Fin 0)) = (ks, Fin (sqrt (1.111 * 12 / 11)))"
    "clip_pass 2.5 1.111 vs (ks, Fin (sqrt (1.111 * 12 / 11))) = (ks, Fin (sqrt (1.111 * 12 / 11)))"
    unfolding clip_pass_def prod.case Let_def f sp(2) by (rule refl)+
qed

theorem nbCreateHistogram_averages_witness:
  "\<exists>h. histograms (nbCreateHistogram defaultNBodyCtx hist_state flat_hp) ! 3 = Some h
     \<and> h_outliersRemoved (nh_data h ! 175) = 1 \<and> h_variable (nh_data h ! 175) = Fin 0
     \<and> h_err (nh_data h ! 175) = Fin (sqrt (1.111 * 12 / 11) / sqrt 12)"
proof -
  let ?vs = "sample_speeds @ 100 # sample_speeds" and ?ks = "sample_speeds @ sample_speeds"
  let ?s = "Fin (sqrt (1.111 * 12 / 11))"
  have t: "typed_bodies hist_state"
    unfolding typed_bodies_def hist_state_simps by (auto simp: hist_body_def body_at_def)
  have m: "to_uint (IterMax defaultNBodyCtx) = Suc 5" "cutoff_of defaultNBodyCtx 3 = 2.5" "correct_of defaultNBodyCtx 3 = 1.111"
    by (simp_all add: defaultNBodyCtx_def to_uint_def trunc_int_def cutoff_of_def correct_of_def)
  have it: "(clip_pass 2.5 1.111 ?vs ^^ n) (?ks, ?s) = (?ks, ?s)" for n
    by (induction n) (simp_all only: funpow.simps id_apply comp_apply sample_clip(2))
  have c: "clipped (Suc 5) 2.5 1.111 ?vs = (?ks, ?s)"
    unfolding clipped_def funpow_Suc_right comp_apply sample_clip(1) by (rule it)
  have v: "map (value_of defaultNBodyCtx flat_hp 3) (filter (in_bin defaultNBodyCtx flat_hp 175)
      (take (nbody hist_state) (bodytab hist_state))) = ?vs"
    unfolding hist_state_bin by (simp add: comp_def hist_body_value)
  have H: "175 < lambdaBins flat_hp * betaBins flat_hp"
    by (simp add: flat_hp_def sample_hp_def defaultHistogramParams_def)
  have l: "length ?ks = 12" "length ?vs = 13" "mean ?ks = Fin 0" by (simp_all add: sample_speeds_def mean_def)
  have k: "3 \<in> {1..5::nat}" "3 < (3::nat) \<or> st_useVlos hist_state \<or> st_useBetaComp hist_state \<or> st_useDist hist_state"
    using hist_state_simps(2) by simp_all
  obtain h ks s where h: "histograms (nbCreateHistogram defaultNBodyCtx hist_state flat_hp) ! 3 = Some h"
    "(ks, s) = (?ks, ?s)" "h_outliersRemoved (nh_data h ! 175) = real (length ?vs) - real (length ks)"
    "if 3 < (3::nat) then h_variable (nh_data h ! 175) = s
     else if length ks > 10
     then h_variable (nh_data h ! 175) = mean ks \<and> h_err (nh_data h ! 175) = s / dsqrt (Fin (real (length ks)))
     else h_variable (nh_data h ! 175) = Fin 0 \<and> h_err (nh_data h ! 175) = Fin (-1)"
    using nbCreateHistogram_averages[OF t k H, of defaultNBodyCtx, unfolded m v c] by blast
  have ks: "ks = ?ks" "s = ?s" using h(2) by simp_all
  show ?thesis using h(1,3,4) unfolding ks l by (intro exI[of _ h]) simp
qed

end
