(* ===== verification/NBody_EMD.thy ===== *)
theory NBody_EMD
  imports MW_Float MW_Vectors
begin

text \<open>
  The earth mover's distance of \<open>nbody_emd.c\<close>: a transportation simplex with Russell's method for the
  first plan. The nodes of the basis are an array and pointers to them are indices. The linked lists
  through \<open>next[0]\<close> and \<open>next[1]\<close>, one for each row and one for each column, are lists of indices;
  so are the lists of rows and columns through \<open>u\<close> and \<open>v\<close>. Flags and pointers that go out of
  bounds are \<open>None\<close>. The buffer all arrays are cut from, and the printing of the flow, are left out.
\<close>

section \<open>State\<close>

definition MAX_ITERATIONS :: nat where "MAX_ITERATIONS = 2500"
definition EMD_INF :: real where "EMD_INF = 10 ^ 20"
definition EMD_EPS :: real where "EMD_EPS = 1 / 10 ^ 5"

record EMDNode2D =
  x_val :: real
  x_i :: nat
  x_j :: nat

record EMDState =
  ssize :: nat
  dsize :: nat
  cost :: "real list list"
  e_x :: "EMDNode2D list"
  end_x :: nat
  enter_x :: nat
  is_x :: "bool list list"
  rows_x :: "nat list list"
  cols_x :: "nat list list"
  e_u :: "real list"
  e_v :: "real list"
  idx1 :: "int list"
  idx2 :: "int list"
  e_s :: "real list"
  e_d :: "real list"
  e_delta :: "real list list"
  e_weight :: real
  max_cost :: real

definition set_cell :: "nat \<Rightarrow> nat \<Rightarrow> 'c \<Rightarrow> 'c list list \<Rightarrow> 'c list list" where
  "set_cell i j x m = m[i := (m ! i)[j := x]]"

section \<open>Metrics\<close>

definition emdDistL1 :: "nat \<Rightarrow> real list \<Rightarrow> real list \<Rightarrow> real" where
  "emdDistL1 dims x y = fold (\<lambda>i s. let t = x ! i - y ! i in s + \<bar>t\<bar>) [0..<dims] 0"

definition emdDistL2 :: "nat \<Rightarrow> real list \<Rightarrow> real list \<Rightarrow> real" where
  "emdDistL2 dims x y = sqrt (fold (\<lambda>i s. let t = x ! i - y ! i in s + t * t) [0..<dims] 0)"

definition emdDistC :: "nat \<Rightarrow> real list \<Rightarrow> real list \<Rightarrow> real" where
  "emdDistC dims x y = fold (\<lambda>i s. let t = \<bar>x ! i - y ! i\<bar> in if s < t then t else s) [0..<dims] 0"

datatype EMDDistanceType = EMD_DIST_L1 | EMD_DIST_L2 | EMD_DIST_C

definition nbMetricDistanceFunction :: "EMDDistanceType \<Rightarrow> nat \<Rightarrow> real list \<Rightarrow> real list \<Rightarrow> real" where
  "nbMetricDistanceFunction distType =
     (case distType of EMD_DIST_L1 \<Rightarrow> emdDistL1 | EMD_DIST_L2 \<Rightarrow> emdDistL2 | EMD_DIST_C \<Rightarrow> emdDistC)"

section \<open>Potentials of a basis\<close>

text \<open>
  \<open>emdFindBasicVariables\<close>. Rows still to be found are in \<open>m_u0\<close>, rows found and still to be looked
  at in \<open>m_u1\<close>; columns likewise.
\<close>

record emd_marks =
  m_u :: "real list"
  m_v :: "real list"
  m_u0 :: "nat list"
  m_u1 :: "nat list"
  m_v0 :: "nat list"
  m_v1 :: "nat list"
  u_cfound :: nat
  v_cfound :: nat

definition mark_rows :: "EMDState \<Rightarrow> nat \<Rightarrow> emd_marks \<Rightarrow> emd_marks" where
  "mark_rows st j m =
     (let cur_v_val = m_v m ! j
      in m\<lparr>m_u := fold (\<lambda>i u. if is_x st ! i ! j then u[i := cost st ! i ! j - cur_v_val] else u) (m_u0 m) (m_u m),
           m_u0 := filter (\<lambda>i. \<not> is_x st ! i ! j) (m_u0 m),
           m_u1 := fold (\<lambda>i us. if is_x st ! i ! j then i # us else us) (m_u0 m) (m_u1 m),
           m_v1 := tl (m_v1 m),
           v_cfound := Suc (v_cfound m)\<rparr>)"

definition mark_cols :: "EMDState \<Rightarrow> nat \<Rightarrow> emd_marks \<Rightarrow> emd_marks" where
  "mark_cols st i m =
     (let cur_u_val = m_u m ! i
      in m\<lparr>m_v := fold (\<lambda>j v. if is_x st ! i ! j then v[j := cost st ! i ! j - cur_u_val] else v) (m_v0 m) (m_v m),
           m_v0 := filter (\<lambda>j. \<not> is_x st ! i ! j) (m_v0 m),
           m_v1 := fold (\<lambda>j vs. if is_x st ! i ! j then j # vs else vs) (m_v0 m) (m_v1 m),
           m_u1 := tl (m_u1 m),
           u_cfound := Suc (u_cfound m)\<rparr>)"

definition mark_round :: "EMDState \<Rightarrow> emd_marks \<Rightarrow> bool \<times> emd_marks" where
  "mark_round st m =
     (let (found, m) =
            (if v_cfound m < dsize st then (m_v1 m \<noteq> [], fold (mark_rows st) (m_v1 m) m) else (False, m))
      in if u_cfound m < ssize st then (found \<or> m_u1 m \<noteq> [], fold (mark_cols st) (m_u1 m) m) else (found, m))"

definition marks_left :: "emd_marks \<Rightarrow> nat" where
  "marks_left m = length (m_u0 m) + length (m_u1 m) + length (m_v0 m) + length (m_v1 m)"

lemma length_fold_if: "length (fold (\<lambda>i us. if P i then i # us else us) is us) = length us + length (filter P is)"
  by (induction "is" arbitrary: us) auto

lemma mark_left_step:
  "m_v1 m \<noteq> [] \<Longrightarrow> marks_left (mark_rows st j m) < marks_left m"
  "m_u1 m \<noteq> [] \<Longrightarrow> marks_left (mark_cols st j m) < marks_left m"
  using sum_length_filter_compl[of "\<lambda>i. is_x st ! i ! j" "m_u0 m"] sum_length_filter_compl[of "\<lambda>i. is_x st ! j ! i" "m_v0 m"]
  by (cases "m_v1 m"; cases "m_u1 m"; auto simp: mark_rows_def mark_cols_def marks_left_def Let_def length_fold_if)+

lemma mark_rows_v1: "m_v1 (mark_rows st j m) = tl (m_v1 m)"
  and mark_cols_u1: "m_u1 (mark_cols st i m) = tl (m_u1 m)"
  by (simp_all add: mark_rows_def mark_cols_def Let_def)

lemma marks_left_fold:
  "js = m_v1 m \<Longrightarrow> marks_left (fold (mark_rows st) js m) + (if js = [] then 0 else 1) \<le> marks_left m"
  "ks = m_u1 m \<Longrightarrow> marks_left (fold (mark_cols st) ks m) + (if ks = [] then 0 else 1) \<le> marks_left m"
proof -
  show "js = m_v1 m \<Longrightarrow> marks_left (fold (mark_rows st) js m) + (if js = [] then 0 else 1) \<le> marks_left m"
  proof (induction js arbitrary: m)
    case (Cons j js)
    then have "marks_left (mark_rows st j m) < marks_left m" by (intro mark_left_step) (metis list.discI)
    moreover have "js = m_v1 (mark_rows st j m)" using Cons.prems by (metis mark_rows_v1 list.sel(3))
    ultimately show ?case using Cons.IH[of "mark_rows st j m"] by simp
  qed simp
  show "ks = m_u1 m \<Longrightarrow> marks_left (fold (mark_cols st) ks m) + (if ks = [] then 0 else 1) \<le> marks_left m"
  proof (induction ks arbitrary: m)
    case (Cons j js)
    then have "marks_left (mark_cols st j m) < marks_left m" by (intro mark_left_step) (metis list.discI)
    moreover have "js = m_u1 (mark_cols st j m)" using Cons.prems by (metis mark_cols_u1 list.sel(3))
    ultimately show ?case using Cons.IH[of "mark_cols st j m"] by simp
  qed simp
qed

lemma marks_left_round: "mark_round st m = (True, m') \<Longrightarrow> marks_left m' < marks_left m"
  using marks_left_fold(1)[OF refl, of st m] marks_left_fold(2)[OF refl, of st "fold (mark_rows st) (m_v1 m) m"]
    marks_left_fold(2)[OF refl, of st m]
  by (auto simp: mark_round_def Let_def split: if_splits)

function find_basic :: "EMDState \<Rightarrow> emd_marks \<Rightarrow> emd_marks option" where
  "find_basic st m =
     (if u_cfound m < ssize st \<or> v_cfound m < dsize st
      then (case mark_round st m of (found, m') \<Rightarrow> if \<not> found then None else find_basic st m')
      else Some m)"
  by pat_completeness auto
termination by (relation "measure (\<lambda>(st, m). marks_left m)") (auto simp: marks_left_round)

declare find_basic.simps [simp del]

definition emdFindBasicVariables :: "EMDState \<Rightarrow> EMDState option" where
  "emdFindBasicVariables st =
     (let m = \<lparr>m_u = e_u st, m_v = (e_v st)[0 := 0], m_u0 = [0..<ssize st], m_u1 = [],
               m_v0 = (if ssize st > 1 then [1..<dsize st] else []), m_v1 = [0], u_cfound = 0, v_cfound = 0\<rparr>
      in map_option (\<lambda>m. st\<lparr>e_u := m_u m, e_v := m_v m\<rparr>) (find_basic st m))"

section \<open>The first plan\<close>

definition emdAddBasicVariable :: "nat \<Rightarrow> nat \<Rightarrow> EMDState \<times> nat list \<times> nat list \<Rightarrow> EMDState \<times> nat list \<times> nat list" where
  "emdAddBasicVariable min_i min_j =
     (\<lambda>(st, us, vs).
       let (temp, st) =
             (if e_s st ! min_i < e_d st ! min_j + e_weight st * EMD_EPS
              then (e_s st ! min_i, st\<lparr>e_s := (e_s st)[min_i := 0], e_d := (e_d st)[min_j := e_d st ! min_j - e_s st ! min_i]\<rparr>)
              else (e_d st ! min_j, st\<lparr>e_d := (e_d st)[min_j := 0], e_s := (e_s st)[min_i := e_s st ! min_i - e_d st ! min_j]\<rparr>));
           k = end_x st;
           st = st\<lparr>is_x := set_cell min_i min_j True (is_x st),
                   e_x := (e_x st)[k := \<lparr>x_val = temp, x_i = min_i, x_j = min_j\<rparr>],
                   rows_x := (rows_x st)[min_i := k # rows_x st ! min_i],
                   cols_x := (cols_x st)[min_j := k # cols_x st ! min_j],
                   end_x := Suc k\<rparr>
       in if e_s st ! min_i = 0 \<and> length us > 1 then (st, remove1 min_i us, vs) else (st, us, remove1 min_j vs))"

definition max_from :: "(nat \<Rightarrow> real) \<Rightarrow> nat list \<Rightarrow> real" where
  "max_from f js = fold (\<lambda>j max_val. if max_val < f j then f j else max_val) js (- EMD_INF)"

text \<open>The smallest entry of \<open>delta\<close> in the rows and columns that are left, the first one in their order.\<close>

definition scan_cell :: "EMDState \<Rightarrow> nat \<Rightarrow> nat \<Rightarrow> real \<times> (nat \<times> nat) option \<Rightarrow> real \<times> (nat \<times> nat) option" where
  "scan_cell st i j =
     (\<lambda>(min_delta, c). if min_delta > e_delta st ! i ! j then (e_delta st ! i ! j, Some (i, j)) else (min_delta, c))"

definition min_delta_cell :: "EMDState \<Rightarrow> nat list \<Rightarrow> nat list \<Rightarrow> real \<times> (nat \<times> nat) option" where
  "min_delta_cell st us vs = fold (\<lambda>i. fold (scan_cell st i) vs) us (EMD_INF, None)"

text \<open>After a cell has entered, the maxima and with them \<open>delta\<close> are updated. The code takes the first
  branch when the row of the cell is still in the list.\<close>

definition update_columns :: "nat \<Rightarrow> nat list \<Rightarrow> nat list \<Rightarrow> EMDState \<Rightarrow> EMDState" where
  "update_columns min_i us vs st =
     fold (\<lambda>j st.
       if e_v st ! j = cost st ! min_i ! j
       then
         let max_val = max_from (\<lambda>i. cost st ! i ! j) us;
             diff = max_val - e_v st ! j;
             st = st\<lparr>e_v := (e_v st)[j := max_val]\<rparr>
         in if \<bar>diff\<bar> < EMD_EPS * max_cost st
            then st\<lparr>e_delta := fold (\<lambda>i m. set_cell i j (m ! i ! j + diff) m) us (e_delta st)\<rparr>
            else st
       else st) vs st"

definition update_rows :: "nat \<Rightarrow> nat list \<Rightarrow> nat list \<Rightarrow> EMDState \<Rightarrow> EMDState" where
  "update_rows min_j us vs st =
     fold (\<lambda>i st.
       if e_u st ! i = cost st ! i ! min_j
       then
         let max_val = max_from (\<lambda>j. cost st ! i ! j) vs;
             diff = max_val - e_u st ! i;
             st = st\<lparr>e_u := (e_u st)[i := max_val]\<rparr>
         in if \<bar>diff\<bar> < EMD_EPS * max_cost st
            then st\<lparr>e_delta := fold (\<lambda>j m. set_cell i j (m ! i ! j + diff) m) vs (e_delta st)\<rparr>
            else st
       else st) us st"

lemma min_delta_cell_in:
  assumes "min_delta_cell st us vs = (d, Some (i, j))"
  shows "i \<in> set us \<and> j \<in> set vs"
proof -
  have one: "snd (scan_cell st i j p) = snd p \<or> snd (scan_cell st i j p) = Some (i, j)" for i j p
    by (cases p) (simp add: scan_cell_def)
  have inner: "snd (fold (scan_cell st i) ws p) = snd p \<or> (\<exists>j\<in>set ws. snd (fold (scan_cell st i) ws p) = Some (i, j))" for i ws p
  proof (induction ws arbitrary: p)
    case (Cons j ws)
    show ?case using Cons[of "scan_cell st i j p"] one[of i j p] by auto
  qed simp
  have "snd (fold (\<lambda>i. fold (scan_cell st i) vs) us p) = snd p
      \<or> (\<exists>i\<in>set us. \<exists>j\<in>set vs. snd (fold (\<lambda>i. fold (scan_cell st i) vs) us p) = Some (i, j))" for p
  proof (induction us arbitrary: p)
    case (Cons i us)
    show ?case using Cons[of "fold (scan_cell st i) vs p"] inner[of i vs p] by auto
  qed simp
  from this[of "(EMD_INF, None)"] show ?thesis using assms by (auto simp: min_delta_cell_def)
qed

definition russel_round :: "EMDState \<times> nat list \<times> nat list \<Rightarrow> (EMDState \<times> nat list \<times> nat list) option" where
  "russel_round =
     (\<lambda>(st, us, vs).
       case min_delta_cell st us vs of
         (_, None) \<Rightarrow> None
       | (_, Some (min_i, min_j)) \<Rightarrow>
           let (st, us', vs') = emdAddBasicVariable min_i min_j (st, us, vs)
           in Some (if min_i \<in> set us' then update_columns min_i us' vs' st else update_rows min_j us' vs' st, us', vs'))"

lemma russel_round_less:
  assumes "russel_round (st, us, vs) = Some (st', us', vs')"
  shows "length us' + length vs' < length us + length vs"
proof -
  obtain d i j where c: "min_delta_cell st us vs = (d, Some (i, j))"
    using assms by (auto simp: russel_round_def split: prod.splits option.splits)
  have "i \<in> set us" "j \<in> set vs" using min_delta_cell_in[OF c] by auto
  then have "0 < length us" "0 < length vs" "length (remove1 i us) = length us - 1" "length (remove1 j vs) = length vs - 1"
    by (auto simp: length_remove1)
  then show ?thesis using assms c
    by (auto simp: russel_round_def emdAddBasicVariable_def Let_def split: if_splits)
qed

text \<open>The loop ends when no cell is left or both lists are empty.\<close>

function russel_loop :: "EMDState \<times> nat list \<times> nat list \<Rightarrow> EMDState" where
  "russel_loop (st, us, vs) =
     (case russel_round (st, us, vs) of
        None \<Rightarrow> st
      | Some (st', us', vs') \<Rightarrow> if us' \<noteq> [] \<or> vs' \<noteq> [] then russel_loop (st', us', vs') else st')"
  by pat_completeness auto
termination by (relation "measure (\<lambda>(st, us, vs). length us + length vs)") (auto dest!: russel_round_less)

declare russel_loop.simps [simp del]

definition emdRussel :: "EMDState \<Rightarrow> EMDState" where
  "emdRussel st =
     (let n = ssize st; m = dsize st;
          st = st\<lparr>e_v := map (\<lambda>j. max_from (\<lambda>i. cost st ! i ! j) [0..<n]) [0..<m],
                  e_u := map (\<lambda>i. max_from (\<lambda>j. cost st ! i ! j) [0..<m]) [0..<n]\<rparr>;
          st = st\<lparr>e_delta := map (\<lambda>i. map (\<lambda>j. cost st ! i ! j - e_u st ! i - e_v st ! j) [0..<m]) [0..<n]\<rparr>
      in russel_loop (st, [0..<n], [0..<m]))"

section \<open>Setting up\<close>

text \<open>A point of a signature: its weight and its place.\<close>

record WeightPos =
  w_weight :: real
  w_lambda :: real
  w_beta :: real

definition place :: "WeightPos \<Rightarrow> real list" where
  "place w = [w_lambda w, w_beta w]"

text \<open>The positive weights with their indices; \<open>None\<close> for a negative weight.\<close>

fun collect_weights :: "int \<Rightarrow> WeightPos list \<Rightarrow> (real list \<times> int list) option" where
  "collect_weights i [] = Some ([], [])"
| "collect_weights i (w # ws) =
     (if w_weight w > 0 then map_option (\<lambda>(s, ids). (w_weight w # s, i # ids)) (collect_weights (i + 1) ws)
      else if w_weight w < 0 then None
      else collect_weights (i + 1) ws)"

definition weighted_place :: "WeightPos list \<Rightarrow> real list" where
  "weighted_place ws = fold (\<lambda>w x. [x ! 0 + w_lambda w * w_weight w, x ! 1 + w_beta w * w_weight w]) ws [0, 0]"

text \<open>
  \<open>emdInitEMD\<close> with a result below 0 when a signature is not valid, 1 when the lower bound decides,
  and 0 with the first plan. The bound is a pointer that may be null.
\<close>

definition emdInitEMD :: "WeightPos list \<Rightarrow> WeightPos list \<Rightarrow> (real list \<Rightarrow> real list \<Rightarrow> real) \<Rightarrow> real option
    \<Rightarrow> int \<times> EMDState option \<times> real option" where
  "emdInitEMD signature1 signature2 dist_func lower_bound =
     (case (collect_weights 0 signature1, collect_weights 0 signature2) of
        (Some (s, ids1), Some (d, ids2)) \<Rightarrow>
          if s = [] \<or> d = [] then (-1, None, lower_bound)
          else
            let s_sum = sum_list s; d_sum = sum_list d; diff = s_sum - d_sum;
                equal_sums = (\<not> \<bar>diff\<bar> \<ge> EMD_EPS * s_sum);
                (s, ids1) = (if \<not> equal_sums \<and> diff < 0 then (s @ [- diff], ids1 @ [-1]) else (s, ids1));
                (d, ids2) = (if \<not> equal_sums \<and> \<not> diff < 0 then (d @ [diff], ids2 @ [-1]) else (d, ids2));
                weight = (if s_sum > d_sum then s_sum else d_sum);
                lb = dist_func (weighted_place signature1) (weighted_place signature2) / weight
            in if lower_bound \<noteq> None \<and> equal_sums \<and> the lower_bound \<le> lb then (1, None, Some lb)
               else
                 let n = length s; m = length d;
                     costs = map (\<lambda>ci. map (\<lambda>cj. if ci < 0 \<or> cj < 0 then 0
                              else dist_func (place (signature1 ! nat ci)) (place (signature2 ! nat cj))) ids2) ids1;
                     mc = fold (\<lambda>c mx. fold (\<lambda>val mx. if mx < val then val else mx) c mx) costs 0;
                     st = emdRussel \<lparr>ssize = n, dsize = m, cost = costs,
                            e_x = replicate (n + m) \<lparr>x_val = 0, x_i = 0, x_j = 0\<rparr>, end_x = 0, enter_x = 0,
                            is_x = replicate n (replicate m False), rows_x = replicate n [], cols_x = replicate m [],
                            e_u = replicate n 0, e_v = replicate m 0, idx1 = ids1, idx2 = ids2, e_s = s, e_d = d,
                            e_delta = replicate n (replicate m 0), e_weight = weight, max_cost = mc\<rparr>
                 in (0, Some (st\<lparr>enter_x := end_x st, end_x := Suc (end_x st)\<rparr>),
                     if lower_bound \<noteq> None \<and> equal_sums then Some lb else lower_bound)
      | _ \<Rightarrow> (-1, None, lower_bound))"

section \<open>Improving the plan\<close>

text \<open>\<open>emdIsOptimal\<close>: the smallest reduced cost of a cell outside the basis, whose place is written to
  the node that enters.\<close>

definition scan_reduced :: "EMDState \<Rightarrow> nat \<Rightarrow> nat \<Rightarrow> real \<times> nat \<times> nat \<Rightarrow> real \<times> nat \<times> nat" where
  "scan_reduced st i j =
     (\<lambda>(min_delta, c). if \<not> is_x st ! i ! j
        then (let delta = cost st ! i ! j - e_u st ! i - e_v st ! j in if min_delta > delta then (delta, i, j) else (min_delta, c))
        else (min_delta, c))"

definition emdIsOptimal :: "EMDState \<Rightarrow> real \<times> EMDState" where
  "emdIsOptimal st =
     (let (min_delta, min_i, min_j) = fold (\<lambda>i. fold (scan_reduced st i) [0..<dsize st]) [0..<ssize st] (EMD_INF, 0, 0);
          k = enter_x st
      in (min_delta, st\<lparr>e_x := (e_x st)[k := (e_x st ! k)\<lparr>x_i := min_i, x_j := min_j\<rparr>]\<rparr>))"

text \<open>The nodes behind \<open>k\<close> in a list.\<close>

definition nodes_after :: "nat \<Rightarrow> nat list \<Rightarrow> nat list" where
  "nodes_after k xs = tl (dropWhile (\<lambda>y. y \<noteq> k) xs)"

definition row_of :: "EMDState \<Rightarrow> nat \<Rightarrow> nat list" where
  "row_of st k = rows_x st ! x_i (e_x st ! k)"

definition col_of :: "EMDState \<Rightarrow> nat \<Rightarrow> nat list" where
  "col_of st k = cols_x st ! x_j (e_x st ! k)"

text \<open>
  \<open>emdFindLoop\<close>. The path \<open>loop[0..steps - 1]\<close> is a list, and the flags \<open>is_used\<close> are those of its
  members. Running out of path while going back ends with a write before the array: \<open>None\<close>.
\<close>

function emd_backtrack :: "EMDState \<Rightarrow> nat list \<Rightarrow> nat list option" where
  "emd_backtrack st loop =
     (if loop = [] then None
      else
        let new_x = last loop;
            rest = (if odd (length loop) then nodes_after new_x (col_of st new_x) else nodes_after new_x (row_of st new_x))
        in case find (\<lambda>k. k \<notin> set loop) rest of
             None \<Rightarrow> emd_backtrack st (butlast loop)
           | Some k \<Rightarrow> Some (butlast loop @ [k]))"
  by pat_completeness auto
termination by (relation "measure (\<lambda>(st, loop). length loop)") auto

declare emd_backtrack.simps [simp del]

partial_function (option) find_loop :: "EMDState \<Rightarrow> nat list \<Rightarrow> nat list option" where
  "find_loop st loop =
     (let new_x = last loop
      in if odd (length loop)
         then (case find (\<lambda>k. k \<notin> set loop) (row_of st new_x) of
                 Some k \<Rightarrow> find_loop st (loop @ [k])
               | None \<Rightarrow> Option.bind (emd_backtrack st loop) (find_loop st))
         else (case find (\<lambda>k. k \<notin> set loop \<or> k = enter_x st) (col_of st new_x) of
                 Some k \<Rightarrow> if k = enter_x st then Some loop else find_loop st (loop @ [k])
               | None \<Rightarrow> Option.bind (emd_backtrack st loop) (find_loop st)))"

declare find_loop.simps [code]

definition emdFindLoop :: "EMDState \<Rightarrow> nat list option" where
  "emdFindLoop st = find_loop st [enter_x st]"

text \<open>The node of smallest value at an odd place of the loop, the first such.\<close>

definition leaving :: "EMDState \<Rightarrow> nat list \<Rightarrow> real \<times> nat option" where
  "leaving st loop =
     fold (\<lambda>i (min_val, leave_x). let temp = x_val (e_x st ! (loop ! i))
             in if min_val > temp then (temp, Some (loop ! i)) else (min_val, leave_x))
       (filter odd [0..<length loop]) (EMD_INF, None)"

definition add_val :: "nat \<Rightarrow> real \<Rightarrow> EMDNode2D list \<Rightarrow> EMDNode2D list" where
  "add_val k x xs = xs[k := (xs ! k)\<lparr>x_val := x\<rparr>]"

definition shift_loop :: "nat list \<Rightarrow> real \<Rightarrow> EMDNode2D list \<Rightarrow> EMDNode2D list" where
  "shift_loop loop min_val xs =
     fold (\<lambda>i xs. let temp0 = x_val (xs ! (loop ! i)) + min_val; temp1 = x_val (xs ! (loop ! (i + 1))) - min_val
                in add_val (loop ! (i + 1)) temp1 (add_val (loop ! i) temp0 xs))
       (filter even [0..<length loop]) xs"

text \<open>\<open>emdNewSolution\<close>; \<open>None\<close> is a path that runs out of bounds, and a search that does not end.\<close>

definition enter_node :: "EMDState \<Rightarrow> EMDState" where
  "enter_node st =
     (let k = enter_x st; i = x_i (e_x st ! k); j = x_j (e_x st ! k)
      in st\<lparr>is_x := set_cell i j True (is_x st),
            e_x := add_val k 0 (e_x st),
            rows_x := (rows_x st)[i := k # rows_x st ! i],
            cols_x := (cols_x st)[j := k # cols_x st ! j]\<rparr>)"

definition leave_node :: "nat \<Rightarrow> EMDState \<Rightarrow> EMDState" where
  "leave_node leave_x st =
     (let i = x_i (e_x st ! leave_x); j = x_j (e_x st ! leave_x)
      in st\<lparr>is_x := set_cell i j False (is_x st),
            rows_x := (rows_x st)[i := remove1 leave_x (rows_x st ! i)],
            cols_x := (cols_x st)[j := remove1 leave_x (cols_x st ! j)],
            enter_x := leave_x\<rparr>)"

definition emdNewSolution :: "EMDState \<Rightarrow> (bool \<times> EMDState) option" where
  "emdNewSolution st =
     (let st = enter_node st
      in Option.bind (emdFindLoop st) (\<lambda>loop.
           case leaving st loop of
             (_, None) \<Rightarrow> Some (False, st)
           | (min_val, Some leave_x) \<Rightarrow>
               Some (True, leave_node leave_x (st\<lparr>e_x := shift_loop loop min_val (e_x st)\<rparr>))))"

text \<open>\<open>emdIterateSolution\<close>: the number counts the iterations that are left. The result is 0 when the
  present plan is taken, which it is as well when the iterations run out.\<close>

primrec iterate_solution :: "nat \<Rightarrow> EMDState \<Rightarrow> (int \<times> EMDState) option" where
  "iterate_solution 0 st = Some (0, st)"
| "iterate_solution (Suc n) st =
     (case emdFindBasicVariables st of
        None \<Rightarrow> Some (0, st)
      | Some st \<Rightarrow>
          let (min_delta, st) = emdIsOptimal st
          in if min_delta = EMD_INF then Some (1, st)
             else if min_delta \<ge> - (EMD_EPS * max_cost st) then Some (0, st)
             else Option.bind (emdNewSolution st) (\<lambda>(improved, st).
                    if \<not> improved then Some (1, st) else iterate_solution n st))"

definition emdIterateSolution :: "EMDState \<Rightarrow> (int \<times> EMDState) option" where
  "emdIterateSolution st =
     (if ssize st > 1 \<and> dsize st > 1 then iterate_solution (MAX_ITERATIONS - 1) st else Some (0, st))"

definition emdComputeTotalFlow :: "EMDState \<Rightarrow> real" where
  "emdComputeTotalFlow st =
     fold (\<lambda>k totalCost.
       let xp = e_x st ! k
       in if k = enter_x st then totalCost
          else if idx1 st ! x_i xp \<ge> 0 \<and> idx2 st ! x_j xp \<ge> 0
               then totalCost + x_val xp * cost st ! x_i xp ! x_j xp
          else totalCost) [0..<end_x st] 0"

definition emdCalc :: "WeightPos list \<Rightarrow> WeightPos list \<Rightarrow> real option \<Rightarrow> dbl option" where
  "emdCalc signature1 signature2 lower_bound =
     (case emdInitEMD signature1 signature2 (nbMetricDistanceFunction EMD_DIST_L2 2) lower_bound of
        (result, st, lb) \<Rightarrow>
          if result > 0 \<and> lower_bound \<noteq> None then Some (Fin (the lb))
          else if result < 0 then Some NaN
          else Option.bind (emdIterateSolution (the st)) (\<lambda>(failed, st).
                 if failed = 0 then Some (Fin (emdComputeTotalFlow st) / Fin (e_weight st)) else Some NaN))"

end
