(* ===== verification/NBody_EMDBasis.thy ===== *)
theory NBody_EMDBasis
  imports NBody_EMD
begin

text \<open>
  The invariant of the basis of the transportation simplex, and what \<open>emdNewSolution\<close> does to it:
  the loop it finds alternates between rows and columns, so shifting flow along it leaves every row
  sum and every column sum as it is.
\<close>

section \<open>The basis\<close>

abbreviation cell_of :: "EMDState \<Rightarrow> nat \<Rightarrow> nat \<times> nat" where
  "cell_of st k \<equiv> (x_i (e_x st ! k), x_j (e_x st ! k))"

abbreviation val_of :: "EMDState \<Rightarrow> nat \<Rightarrow> real" where
  "val_of st k \<equiv> x_val (e_x st ! k)"

definition cells :: "EMDState \<Rightarrow> (nat \<times> nat) set" where
  "cells st = {(i, j). i < ssize st \<and> j < dsize st \<and> is_x st ! i ! j}"

text \<open>\<open>A\<close> is the set of the nodes in use.\<close>

definition basis :: "nat set \<Rightarrow> EMDState \<Rightarrow> bool" where
  "basis A st \<longleftrightarrow> (\<forall>k\<in>A. k < length (e_x st) \<and> x_i (e_x st ! k) < ssize st \<and> x_j (e_x st ! k) < dsize st)
     \<and> length (rows_x st) = ssize st \<and> length (cols_x st) = dsize st
     \<and> length (is_x st) = ssize st \<and> (\<forall>i < ssize st. length (is_x st ! i) = dsize st)
     \<and> (\<forall>i < ssize st. distinct (rows_x st ! i) \<and> set (rows_x st ! i) = {k\<in>A. x_i (e_x st ! k) = i})
     \<and> (\<forall>j < dsize st. distinct (cols_x st ! j) \<and> set (cols_x st ! j) = {k\<in>A. x_j (e_x st ! k) = j})
     \<and> inj_on (cell_of st) A \<and> cells st = cell_of st ` A"

lemma basisD:
  assumes "basis A st"
  shows "k \<in> A \<Longrightarrow> k < length (e_x st)" "k \<in> A \<Longrightarrow> x_i (e_x st ! k) < ssize st" "k \<in> A \<Longrightarrow> x_j (e_x st ! k) < dsize st"
    "i < ssize st \<Longrightarrow> distinct (rows_x st ! i)" "i < ssize st \<Longrightarrow> set (rows_x st ! i) = {k\<in>A. x_i (e_x st ! k) = i}"
    "j < dsize st \<Longrightarrow> distinct (cols_x st ! j)" "j < dsize st \<Longrightarrow> set (cols_x st ! j) = {k\<in>A. x_j (e_x st ! k) = j}"
    "inj_on (cell_of st) A" "cells st = cell_of st ` A"
    "length (rows_x st) = ssize st" "length (cols_x st) = dsize st" "length (is_x st) = ssize st"
    "i < ssize st \<Longrightarrow> length (is_x st ! i) = dsize st"
  using assms unfolding basis_def by blast+

lemma basis_finite: "basis A st \<Longrightarrow> finite A"
  by (rule finite_subset[of _ "{..<length (e_x st)}"]) (auto simp: basis_def)

text \<open>Row and column sums of the plan.\<close>

definition row_sum :: "EMDState \<Rightarrow> nat \<Rightarrow> real" where
  "row_sum st i = (\<Sum>k\<leftarrow>rows_x st ! i. val_of st k)"

definition col_sum :: "EMDState \<Rightarrow> nat \<Rightarrow> real" where
  "col_sum st j = (\<Sum>k\<leftarrow>cols_x st ! j. val_of st k)"

lemma row_sum_set: "basis A st \<Longrightarrow> i < ssize st \<Longrightarrow> row_sum st i = (\<Sum>k | k \<in> A \<and> x_i (e_x st ! k) = i. val_of st k)"
  and col_sum_set: "basis A st \<Longrightarrow> j < dsize st \<Longrightarrow> col_sum st j = (\<Sum>k | k \<in> A \<and> x_j (e_x st ! k) = j. val_of st k)"
  by (simp_all add: row_sum_def col_sum_def sum_list_distinct_conv_sum_set basisD)

section \<open>Entering and leaving\<close>

definition ready_to_enter :: "nat set \<Rightarrow> EMDState \<Rightarrow> bool" where
  "ready_to_enter A st \<longleftrightarrow> basis A st \<and> enter_x st \<notin> A \<and> enter_x st < length (e_x st)
     \<and> x_i (e_x st ! enter_x st) < ssize st \<and> x_j (e_x st ! enter_x st) < dsize st
     \<and> cell_of st (enter_x st) \<notin> cells st"

lemma cell_add_val [simp]:
  "k < length xs \<Longrightarrow> x_i (add_val k x xs ! k') = x_i (xs ! k')"
  "k < length xs \<Longrightarrow> x_j (add_val k x xs ! k') = x_j (xs ! k')"
  "length (add_val k x xs) = length xs"
  by (cases "k = k'"; simp add: add_val_def)+

lemma nth_set_cell:
  "\<lbrakk>i < length m; j < length (m ! i)\<rbrakk> \<Longrightarrow> set_cell i j x m ! i' ! j' = (if i' = i \<and> j' = j then x else m ! i' ! j')"
  by (auto simp: set_cell_def nth_list_update)

lemma cells_set:
  assumes "length (is_x st) = ssize st" "\<forall>i < ssize st. length (is_x st ! i) = dsize st" "i < ssize st" "j < dsize st"
  shows "cells (st\<lparr>is_x := set_cell i j b (is_x st)\<rparr>) = (if b then insert (i, j) (cells st) else cells st - {(i, j)})"
  using assms by (auto simp: cells_def nth_set_cell)

lemma basis_frame:
  assumes "basis A st" "ssize st' = ssize st" "dsize st' = dsize st" "rows_x st' = rows_x st" "cols_x st' = cols_x st"
    and "is_x st' = is_x st" "length (e_x st') = length (e_x st)" "\<And>k. k \<in> A \<Longrightarrow> cell_of st' k = cell_of st k"
  shows "basis A st'"
proof -
  have i: "k \<in> A \<Longrightarrow> x_i (e_x st' ! k) = x_i (e_x st ! k)" and j: "k \<in> A \<Longrightarrow> x_j (e_x st' ! k) = x_j (e_x st ! k)" for k
    using assms(8) by auto
  have "cells st' = cells st" using assms(2,3,6) by (simp add: cells_def)
  moreover have "cell_of st' ` A = cell_of st ` A" using assms(8) by (intro image_cong) auto
  moreover have "inj_on (cell_of st') A = inj_on (cell_of st) A" using assms(8) by (intro inj_on_cong) auto
  ultimately show ?thesis
    using assms(1) unfolding basis_def assms(2-7) by (auto simp: i j)
qed

lemma length_set_cell [simp]: "length (set_cell i j x m) = length m"
  "i' < length m \<Longrightarrow> length (set_cell i j x m ! i') = length (m ! i')"
  by (simp_all add: set_cell_def) (cases "i = i'"; simp)

lemma enter_node_basis:
  assumes "ready_to_enter A st"
  shows "basis (insert (enter_x st) A) (enter_node st)"
    and "i < ssize st \<Longrightarrow> row_sum (enter_node st) i = row_sum st i"
    and "j < dsize st \<Longrightarrow> col_sum (enter_node st) j = col_sum st j"
proof -
  let ?k = "enter_x st" and ?i = "x_i (e_x st ! enter_x st)" and ?j = "x_j (e_x st ! enter_x st)"
  note b = assms[unfolded ready_to_enter_def, THEN conjunct1]
  have r: "?k \<notin> A" "?k < length (e_x st)" "?i < ssize st" "?j < dsize st" "(?i, ?j) \<notin> cells st"
    using assms by (auto simp: ready_to_enter_def)
  note bd = basisD[OF b]
  have e: "x_i (e_x (enter_node st) ! k) = x_i (e_x st ! k)" "x_j (e_x (enter_node st) ! k) = x_j (e_x st ! k)"
    "val_of (enter_node st) k = (if k = ?k then 0 else val_of st k)" for k
    using r(2) by (auto simp: enter_node_def Let_def) (auto simp: add_val_def nth_list_update)
  have f: "ssize (enter_node st) = ssize st" "dsize (enter_node st) = dsize st" "length (e_x (enter_node st)) = length (e_x st)"
    "is_x (enter_node st) = set_cell ?i ?j True (is_x st)" "rows_x (enter_node st) = (rows_x st)[?i := ?k # rows_x st ! ?i]"
    "cols_x (enter_node st) = (cols_x st)[?j := ?k # cols_x st ! ?j]"
    by (simp_all add: enter_node_def Let_def)
  have "cells (enter_node st) = cells (st\<lparr>is_x := set_cell ?i ?j True (is_x st)\<rparr>)" by (simp add: cells_def f)
  then have c: "cells (enter_node st) = insert (?i, ?j) (cells st)"
    using cells_set[of st ?i ?j True] bd r by simp
  have inj: "inj_on (cell_of st) (insert ?k A)"
    using bd(8,9) r(1,5) by (simp add: inj_on_insert)
  show "basis (insert ?k A) (enter_node st)"
    unfolding basis_def e f c using bd r inj by (auto simp: nth_list_update f)
  have nk: "?k \<notin> set (rows_x st ! i)" if "i < ssize st" for i using bd(5)[OF that] r(1) by auto
  have nk': "?k \<notin> set (cols_x st ! j)" if "j < dsize st" for j using bd(7)[OF that] r(1) by auto
  show "row_sum (enter_node st) i = row_sum st i" if "i < ssize st"
    using that nk[OF that] bd r by (auto simp: row_sum_def f e nth_list_update intro!: arg_cong[where f = sum_list] map_cong)
  show "col_sum (enter_node st) j = col_sum st j" if "j < dsize st"
    using that nk'[OF that] bd r by (auto simp: col_sum_def f e nth_list_update intro!: arg_cong[where f = sum_list] map_cong)
qed

lemma leave_node_basis:
  assumes "basis A st" "k \<in> A" "val_of st k = 0"
  shows "basis (A - {k}) (leave_node k st)"
    and "i < ssize st \<Longrightarrow> row_sum (leave_node k st) i = row_sum st i"
    and "j < dsize st \<Longrightarrow> col_sum (leave_node k st) j = col_sum st j"
proof -
  let ?i = "x_i (e_x st ! k)" and ?j = "x_j (e_x st ! k)"
  note bd = basisD[OF assms(1)]
  have r: "k < length (e_x st)" "?i < ssize st" "?j < dsize st" using bd assms(2) by auto
  have f: "ssize (leave_node k st) = ssize st" "dsize (leave_node k st) = dsize st" "e_x (leave_node k st) = e_x st"
    "is_x (leave_node k st) = set_cell ?i ?j False (is_x st)" "rows_x (leave_node k st) = (rows_x st)[?i := remove1 k (rows_x st ! ?i)]"
    "cols_x (leave_node k st) = (cols_x st)[?j := remove1 k (cols_x st ! ?j)]"
    by (simp_all add: leave_node_def Let_def)
  have "cells (leave_node k st) = cells (st\<lparr>is_x := set_cell ?i ?j False (is_x st)\<rparr>)" by (simp add: cells_def f)
  then have c: "cells (leave_node k st) = cells st - {(?i, ?j)}"
    using cells_set[of st ?i ?j False] bd r by simp
  have inj: "inj_on (cell_of st) (A - {k})" using bd(8) by (rule inj_on_subset) auto
  have "cell_of st ` A - {(?i, ?j)} = cell_of st ` (A - {k})"
    using bd(8) assms(2) by (auto simp: inj_on_def)
  then show "basis (A - {k}) (leave_node k st)"
    unfolding basis_def f c bd(9) using bd r inj by (auto simp: nth_list_update f set_remove1_eq)
  have sum: "(\<Sum>k'\<leftarrow>remove1 k xs. val_of st k') = (\<Sum>k'\<leftarrow>xs. val_of st k')" for xs
    using assms(3) by (induction xs) auto
  show "row_sum (leave_node k st) i = row_sum st i" if "i < ssize st"
    using that bd r sum by (simp add: row_sum_def f nth_list_update)
  show "col_sum (leave_node k st) j = col_sum st j" if "j < dsize st"
    using that bd r sum by (simp add: col_sum_def f nth_list_update)
qed

section \<open>Shifting flow along a loop\<close>

definition sign_at :: "nat list \<Rightarrow> nat \<Rightarrow> real" where
  "sign_at loop k = (\<Sum>p < length loop. if loop ! p = k then (if even p then 1 else -1) else 0)"

lemma filter_even_upt: "filter even [0..<2 * n] = map (\<lambda>q. 2 * q) [0..<n]"
  by (induction n) auto

lemma shift_loop_step:
  fixes m :: real
  assumes "distinct loop" "set loop \<subseteq> {..<length xs}" "2 * n \<le> length loop"
  defines "ys \<equiv> fold (\<lambda>i xs. let temp0 = x_val (xs ! (loop ! i)) + m; temp1 = x_val (xs ! (loop ! (i + 1))) - m
                in add_val (loop ! (i + 1)) temp1 (add_val (loop ! i) temp0 xs)) (map (\<lambda>q. 2 * q) [0..<n]) xs"
  shows "length ys = length xs \<and> (\<forall>k. x_i (ys ! k) = x_i (xs ! k) \<and> x_j (ys ! k) = x_j (xs ! k)
    \<and> x_val (ys ! k) = x_val (xs ! k) + m * sign_at (take (2 * n) loop) k)"
  using assms(3) unfolding ys_def
proof (induction n)
  case 0
  then show ?case by (simp add: sign_at_def)
next
  case (Suc n)
  let ?f = "\<lambda>i xs. let temp0 = x_val (xs ! (loop ! i)) + m; temp1 = x_val (xs ! (loop ! (i + 1))) - m
                in add_val (loop ! (i + 1)) temp1 (add_val (loop ! i) temp0 xs)"
  define zs where "zs = fold ?f (map (\<lambda>q. 2 * q) [0..<n]) xs"
  have ih: "length zs = length xs" "x_i (zs ! k) = x_i (xs ! k)" "x_j (zs ! k) = x_j (xs ! k)"
    "x_val (zs ! k) = x_val (xs ! k) + m * sign_at (take (2 * n) loop) k" for k
    using Suc by (simp_all add: zs_def)
  let ?a = "loop ! (2 * n)" and ?b = "loop ! (2 * n + 1)"
  have "loop ! p < length xs" if "p < length loop" for p using assms(2) nth_mem[OF that] by auto
  then have lt: "?a < length xs" "?b < length xs" "?a \<noteq> ?b"
    using assms(1) Suc.prems by (simp_all add: nth_eq_iff_index_eq)
  have tk: "take (2 * Suc n) loop = take (2 * n) loop @ [?a, ?b]"
    using Suc.prems by (simp add: take_Suc_conv_app_nth)
  have sg: "sign_at (take (2 * Suc n) loop) k = sign_at (take (2 * n) loop) k + (if k = ?a then 1 else 0) - (if k = ?b then 1 else 0)" for k
  proof -
    have l: "length (take (2 * n) loop) = 2 * n" using Suc.prems by simp
    show ?thesis unfolding tk sign_at_def using l
      by (auto simp: nth_append intro!: sum.cong)
  qed
  define ws where "ws = ?f (2 * n) zs"
  have "fold ?f (map (\<lambda>q. 2 * q) [0..<Suc n]) xs = ws" by (simp add: zs_def ws_def)
  moreover have "x_val (ws ! k) = x_val (zs ! k) + m * ((if k = ?a then 1 else 0) - (if k = ?b then 1 else 0))" for k
    using lt ih(1) by (auto simp: ws_def Let_def add_val_def nth_list_update)
  moreover have "x_i (ws ! k) = x_i (zs ! k)" "x_j (ws ! k) = x_j (zs ! k)" "length ws = length zs" for k
    using lt ih(1) by (simp_all add: ws_def Let_def)
  ultimately show ?case unfolding sg ih by (simp add: ih(1) algebra_simps)
qed

lemma shift_loop_val:
  assumes "distinct loop" "set loop \<subseteq> {..<length xs}" "even (length loop)"
  shows "length (shift_loop loop m xs) = length xs" "x_i (shift_loop loop m xs ! k) = x_i (xs ! k)"
    "x_j (shift_loop loop m xs ! k) = x_j (xs ! k)"
    "x_val (shift_loop loop m xs ! k) = x_val (xs ! k) + m * sign_at loop k"
proof -
  obtain n where n: "length loop = 2 * n" using assms(3) by (auto elim: evenE)
  note s = shift_loop_step[OF assms(1,2), of n m, folded filter_even_upt]
  show "length (shift_loop loop m xs) = length xs" "x_i (shift_loop loop m xs ! k) = x_i (xs ! k)"
    "x_j (shift_loop loop m xs ! k) = x_j (xs ! k)"
    "x_val (shift_loop loop m xs ! k) = x_val (xs ! k) + m * sign_at loop k"
    using s n by (simp_all add: shift_loop_def)
qed

text \<open>The signs add up to zero over a class of nodes that neighbours in the loop are in together.\<close>

lemma sign_sum:
  assumes "finite B" "distinct loop"
  shows "(\<Sum>k\<in>B. sign_at loop k) = (\<Sum>p < length loop. if loop ! p \<in> B then (if even p then 1 else -1) else 0)"
proof -
  have "(\<Sum>k\<in>B. sign_at loop k) = (\<Sum>p < length loop. \<Sum>k\<in>B. if loop ! p = k then (if even p then 1 else -1) else 0)"
    unfolding sign_at_def by (rule sum.swap)
  also have "\<dots> = (\<Sum>p < length loop. if loop ! p \<in> B then (if even p then 1 else -1) else 0)"
    using assms(1) by (intro sum.cong) (auto simp: sum.delta)
  finally show ?thesis .
qed

lemma alternating_sum:
  fixes g :: "nat \<Rightarrow> real"
  shows "(\<Sum>p<2 * n. (if even p then g p else - g p)) = (\<Sum>q<n. g (2 * q) - g (2 * q + 1))"
  by (induction n) (auto simp: algebra_simps)

lemma alternating_sum_shifted:
  fixes g :: "nat \<Rightarrow> real"
  assumes "\<And>q. Suc q < n \<Longrightarrow> g (2 * q + 1) = g (2 * q + 2)" "0 < n" "g (2 * n - 1) = g 0"
  shows "(\<Sum>p<2 * n. (if even p then g p else - g p)) = 0"
proof -
  have "m < n \<Longrightarrow> (\<Sum>q<Suc m. g (2 * q) - g (2 * q + 1)) = g 0 - g (2 * m + 1)" for m
    by (induction m) (use assms(1) in \<open>auto simp: algebra_simps\<close>)
  moreover obtain m where "n = Suc m" using assms(2) by (cases n) auto
  ultimately have "(\<Sum>q<n. g (2 * q) - g (2 * q + 1)) = 0" using assms(3) by fastforce
  then show ?thesis unfolding alternating_sum .
qed

end
