(* ===== verification/NBody_EMDLoop.thy ===== *)
theory NBody_EMDLoop
  imports NBody_EMDBasis
begin

text \<open>
  The loop \<open>emdFindLoop\<close> finds: its nodes are different nodes of the basis, neighbours are in turn in
  one row and in one column, and the last is in the column of the first. Hence \<open>emdNewSolution\<close>
  keeps the basis and all sums of the plan.
\<close>

section \<open>Alternating paths\<close>

definition linked :: "EMDState \<Rightarrow> nat list \<Rightarrow> nat \<Rightarrow> bool" where
  "linked st loop p \<longleftrightarrow>
     (if even p then x_i (e_x st ! (loop ! p)) = x_i (e_x st ! (loop ! Suc p))
      else x_j (e_x st ! (loop ! p)) = x_j (e_x st ! (loop ! Suc p)))"

definition alternating :: "EMDState \<Rightarrow> nat set \<Rightarrow> nat list \<Rightarrow> bool" where
  "alternating st A loop \<longleftrightarrow> distinct loop \<and> set loop \<subseteq> A
     \<and> (loop \<noteq> [] \<longrightarrow> x_j (e_x st ! (loop ! 0)) = x_j (e_x st ! enter_x st))
     \<and> (\<forall>p. Suc p < length loop \<longrightarrow> linked st loop p)"

lemma alternating_snoc:
  assumes "alternating st A loop" "k \<in> A" "k \<notin> set loop"
    and "loop = [] \<Longrightarrow> x_j (e_x st ! k) = x_j (e_x st ! enter_x st)"
    and "odd (length loop) \<Longrightarrow> x_i (e_x st ! last loop) = x_i (e_x st ! k)"
    and "loop \<noteq> [] \<Longrightarrow> even (length loop) \<Longrightarrow> x_j (e_x st ! last loop) = x_j (e_x st ! k)"
  shows "alternating st A (loop @ [k])"
proof -
  have l: "linked st (loop @ [k]) p" if "Suc p < length (loop @ [k])" for p
  proof (cases "Suc p < length loop")
    case True
    then show ?thesis using assms(1) by (simp add: alternating_def linked_def nth_append)
  next
    case False
    then have p: "length loop = Suc p" using that by simp
    then have "loop \<noteq> []" by auto
    with p have "last loop = loop ! p" by (simp add: last_conv_nth)
    with p \<open>loop \<noteq> []\<close> show ?thesis using assms(5,6) by (auto simp: linked_def nth_append)
  qed
  show ?thesis unfolding alternating_def
  proof (intro conjI allI impI)
    show "linked st (loop @ [k]) p" if "Suc p < length (loop @ [k])" for p using l[OF that] .
    show "x_j (e_x st ! ((loop @ [k]) ! 0)) = x_j (e_x st ! enter_x st)"
      using assms(1,4) by (auto simp: alternating_def nth_append)
  qed (use assms in \<open>auto simp: alternating_def\<close>)
qed

lemma alternating_butlast:
  assumes "alternating st A loop" shows "alternating st A (butlast loop)"
proof -
  have n: "p < length (butlast loop) \<Longrightarrow> butlast loop ! p = loop ! p" for p by (rule nth_butlast)
  have "butlast loop \<noteq> [] \<Longrightarrow> loop \<noteq> []" by auto
  moreover have "linked st (butlast loop) p" if "Suc p < length (butlast loop)" for p
    using assms that n[of p] n[of "Suc p"] by (auto simp: alternating_def linked_def)
  ultimately show ?thesis using assms n[of 0] length_greater_0_conv[of "butlast loop"]
    by (auto simp: alternating_def distinct_butlast simp del: length_butlast dest: in_set_butlastD)
qed

text \<open>The last node has the coordinate of the one before it, so it can be exchanged for another such.\<close>

lemma alternating_last:
  assumes "alternating st A loop" "butlast loop \<noteq> []"
  shows "odd (length loop) \<Longrightarrow> x_j (e_x st ! last (butlast loop)) = x_j (e_x st ! last loop)"
    and "even (length loop) \<Longrightarrow> x_i (e_x st ! last (butlast loop)) = x_i (e_x st ! last loop)"
proof -
  have l: "0 < length (butlast loop)" using assms(2) by (simp only: length_greater_0_conv not_False_eq_True)
  then obtain p where p: "length loop = Suc (Suc p)" using that[of "length loop - 2"] by (simp add: length_butlast)
  have "loop \<noteq> []" using p by auto
  then have e: "last loop = loop ! Suc p" "last (butlast loop) = loop ! p"
    using p assms(2) by (simp_all add: last_conv_nth nth_butlast)
  have "linked st loop p" using assms(1) p by (simp add: alternating_def)
  then show "odd (length loop) \<Longrightarrow> x_j (e_x st ! last (butlast loop)) = x_j (e_x st ! last loop)"
    "even (length loop) \<Longrightarrow> x_i (e_x st ! last (butlast loop)) = x_i (e_x st ! last loop)"
    using p e by (simp_all add: linked_def)
qed

section \<open>The search\<close>

lemma set_nodes_after: "set (nodes_after k xs) \<subseteq> set xs"
proof
  fix x assume "x \<in> set (nodes_after k xs)"
  then have "x \<in> set (dropWhile (\<lambda>y. y \<noteq> k) xs)" unfolding nodes_after_def by (cases "dropWhile (\<lambda>y. y \<noteq> k) xs") auto
  then show "x \<in> set xs" by (rule set_dropWhileD)
qed

lemma row_col_of:
  assumes "basis A st" "k \<in> A"
  shows "set (row_of st k) = {k' \<in> A. x_i (e_x st ! k') = x_i (e_x st ! k)}"
    "set (col_of st k) = {k' \<in> A. x_j (e_x st ! k') = x_j (e_x st ! k)}"
  using basisD[OF assms(1)] assms(2) by (auto simp: row_of_def col_of_def)

lemma find_in: "find P xs = Some k \<Longrightarrow> k \<in> set xs \<and> P k"
  by (auto simp: find_Some_iff)

lemma emd_backtrack_alternating:
  assumes "basis A st" "alternating st A loop" "emd_backtrack st loop = Some loop'"
  shows "alternating st A loop' \<and> loop' \<noteq> []"
  using assms(2,3)
proof (induction "length loop" arbitrary: loop rule: less_induct)
  case less
  let ?x = "last loop"
  let ?rest = "if odd (length loop) then nodes_after ?x (col_of st ?x) else nodes_after ?x (row_of st ?x)"
  have ne: "loop \<noteq> []" using less.prems(2) by (subst (asm) emd_backtrack.simps) (auto split: if_splits)
  have x: "?x \<in> A" using less.prems(1) ne by (auto simp: alternating_def)
  show ?case
  proof (cases "find (\<lambda>k. k \<notin> set loop) ?rest")
    case None
    then have "emd_backtrack st (butlast loop) = Some loop'"
      using less.prems(2) ne by (subst (asm) emd_backtrack.simps) (simp add: Let_def)
    then show ?thesis using less.hyps[of "butlast loop"] alternating_butlast[OF less.prems(1)] ne by simp
  next
    case (Some k)
    then have l: "loop' = butlast loop @ [k]"
      using less.prems(2) ne by (subst (asm) emd_backtrack.simps) (simp add: Let_def)
    have k: "k \<in> set ?rest" "k \<notin> set loop" using find_in[OF Some] by auto
    have kA: "k \<in> A" and same: "odd (length loop) \<Longrightarrow> x_j (e_x st ! k) = x_j (e_x st ! ?x)"
      "even (length loop) \<Longrightarrow> x_i (e_x st ! k) = x_i (e_x st ! ?x)"
      using k(1) row_col_of[OF assms(1) x] set_nodes_after[of ?x "col_of st ?x"] set_nodes_after[of ?x "row_of st ?x"]
      by (auto split: if_splits)
    have "alternating st A (butlast loop @ [k])"
    proof (rule alternating_snoc[OF alternating_butlast[OF less.prems(1)] kA])
      show "k \<notin> set (butlast loop)" using k(2) by (auto dest: in_set_butlastD)
      show "butlast loop = [] \<Longrightarrow> x_j (e_x st ! k) = x_j (e_x st ! enter_x st)"
        using ne same(1) less.prems(1) by (cases loop) (auto simp: alternating_def split: if_splits)
      show "odd (length (butlast loop)) \<Longrightarrow> x_i (e_x st ! last (butlast loop)) = x_i (e_x st ! k)"
        using alternating_last(2)[OF less.prems(1)] same(2) ne by (cases "butlast loop = []") auto
      show "butlast loop \<noteq> [] \<Longrightarrow> even (length (butlast loop)) \<Longrightarrow> x_j (e_x st ! last (butlast loop)) = x_j (e_x st ! k)"
        using alternating_last(1)[OF less.prems(1)] same(1) ne by auto
    qed
    then show ?thesis using l by simp
  qed
qed

definition good_loop :: "EMDState \<Rightarrow> nat set \<Rightarrow> nat list \<Rightarrow> bool" where
  "good_loop st A loop \<longleftrightarrow> alternating st A loop \<and> loop \<noteq> [] \<and> even (length loop)
     \<and> x_j (e_x st ! last loop) = x_j (e_x st ! (loop ! 0))"

lemma find_loop_good:
  assumes "basis A st" "find_loop st loop = Some loop'" "alternating st A loop" "loop \<noteq> []"
  shows "good_loop st A loop'"
  using assms(2,1,3,4)
proof (induction rule: find_loop.raw_induct[rotated 1, consumes 1])
  case (1 f st loop loop')
  let ?x = "last loop"
  have x: "?x \<in> A" using 1(4) last_in_set[OF 1(5)] by (auto simp: alternating_def)
  have step: "f st (loop @ [k]) = Some loop' \<Longrightarrow> k \<in> A \<Longrightarrow> k \<notin> set loop
    \<Longrightarrow> (odd (length loop) \<Longrightarrow> x_i (e_x st ! k) = x_i (e_x st ! ?x))
    \<Longrightarrow> (even (length loop) \<Longrightarrow> x_j (e_x st ! k) = x_j (e_x st ! ?x)) \<Longrightarrow> good_loop st A loop'" for k
    using 1(1)[of st "loop @ [k]" loop'] alternating_snoc[OF 1(4), of k] 1(3,5) by simp
  have retreat: "Option.bind (emd_backtrack st loop) (f st) = Some loop' \<Longrightarrow> good_loop st A loop'"
    using 1(1)[of st _ loop'] emd_backtrack_alternating[OF 1(3,4)] 1(3) by (auto simp: bind_eq_Some_conv)
  show ?case
  proof (cases "odd (length loop)")
    case True
    show ?thesis
    proof (cases "find (\<lambda>k. k \<notin> set loop) (row_of st ?x)")
      case None
      then show ?thesis using retreat 1(2) True by (simp add: Let_def)
    next
      case (Some k)
      then show ?thesis using step[of k] 1(2) True find_in[OF Some] row_col_of[OF 1(3) x] by (auto simp: Let_def)
    qed
  next
    case False
    show ?thesis
    proof (cases "find (\<lambda>k. k \<notin> set loop \<or> k = enter_x st) (col_of st ?x)")
      case None
      then show ?thesis using retreat 1(2) False by (simp add: Let_def)
    next
      case (Some k)
      note k = find_in[OF Some]
      have j: "x_j (e_x st ! k) = x_j (e_x st ! ?x)" "k \<in> A" using k row_col_of[OF 1(3) x] by auto
      show ?thesis
      proof (cases "k = enter_x st")
        case True
        then have "loop' = loop" using 1(2) False Some by (simp add: Let_def)
        then show ?thesis using 1(4,5) False True j by (simp add: good_loop_def alternating_def)
      next
        case n: False
        then show ?thesis using step[of k] 1(2) False Some k j by (auto simp: Let_def)
      qed
    qed
  qed
qed

lemma emdFindLoop_good:
  assumes "basis A st" "enter_x st \<in> A" "emdFindLoop st = Some loop"
  shows "good_loop st A loop"
  using find_loop_good[OF assms(1), of "[enter_x st]" loop] assms(2,3) by (simp add: emdFindLoop_def alternating_def)

end
