(* ===== verification/NBody_EMDPlan.thy ===== *)
theory NBody_EMDPlan
  imports NBody_EMDLoop
begin

text \<open>
  \<open>emdNewSolution\<close> on a basis, and the iterations: the plan keeps all its row and column sums, and its
  values stay at least zero.
\<close>

section \<open>Looking for a minimum\<close>

lemma fold_first_min:
  fixes f :: "'a \<Rightarrow> real"
  assumes "fold (\<lambda>x (d, c). if d > f x then (f x, g x) else (d, c)) xs (d0, c0) = (d, c)"
  shows "(\<forall>x\<in>set xs. d \<le> f x) \<and> d \<le> d0 \<and> (d = d0 \<and> c = c0 \<or> (\<exists>x\<in>set xs. c = g x \<and> d = f x \<and> d < d0))"
  using assms
proof (induction xs arbitrary: d0 c0)
  case (Cons x xs)
  show ?case
  proof (cases "d0 > f x")
    case True
    then show ?thesis using Cons.prems Cons.IH[of "f x" "g x"] by fastforce
  next
    case False
    then show ?thesis using Cons.prems Cons.IH[of d0 c0] by fastforce
  qed
qed simp

lemma fold_product: "fold (\<lambda>i. fold (h i) ys) xs z = fold (\<lambda>(i, j). h i j) (List.product xs ys) z"
proof (induction xs arbitrary: z)
  case (Cons x xs)
  have "fold (\<lambda>(i, j). h i j) (map (Pair x) ys) z = fold (h x) ys z" for z by (simp add: fold_map comp_def)
  then show ?case using Cons by simp
qed simp

lemma fold_when: "fold (\<lambda>x z. if P x then h x z else z) xs z = fold h (filter P xs) z"
  by (induction xs arbitrary: z) auto

lemma leaving_Some:
  assumes "leaving st loop = (v, Some k)"
  shows "\<exists>p<length loop. odd p \<and> k = loop ! p \<and> v = val_of st k"
    and "\<And>q. q < length loop \<Longrightarrow> odd q \<Longrightarrow> v \<le> val_of st (loop ! q)"
  using fold_first_min[of "\<lambda>i. val_of st (loop ! i)" "\<lambda>i. Some (loop ! i)" "filter odd [0..<length loop]" EMD_INF None v "Some k"] assms
  by (auto simp: leaving_def Let_def)

section \<open>Sums along the loop\<close>

lemma good_loop_sums:
  assumes "good_loop st A loop" "finite A"
  shows "(\<Sum>k | k \<in> A \<and> x_i (e_x st ! k) = i. sign_at loop k) = 0"
    and "(\<Sum>k | k \<in> A \<and> x_j (e_x st ! k) = j. sign_at loop k) = 0"
proof -
  have "even (length loop)" "loop \<noteq> []" using assms(1) by (auto simp: good_loop_def)
  then obtain n where n: "length loop = 2 * n" "0 < n" by (metis evenE length_greater_0_conv nat_0_less_mult_iff)
  have l: "distinct loop" "set loop \<subseteq> A" "\<And>p. Suc p < 2 * n \<Longrightarrow> linked st loop p"
    using assms(1) n by (auto simp: good_loop_def alternating_def)
  have A: "p < 2 * n \<Longrightarrow> loop ! p \<in> A" for p using l(2) n nth_mem[of p loop] by auto
  have s: "(\<Sum>k | k \<in> A \<and> P k. sign_at loop k)
      = (\<Sum>p<2 * n. if even p then (if P (loop ! p) then 1 else 0) else - (if P (loop ! p) then 1 else 0))" for P
    unfolding sign_sum[OF finite_subset[OF _ assms(2)] l(1), of "{k \<in> A. P k}", simplified] n(1)
    by (intro sum.cong) (auto simp: A)
  have r: "x_i (e_x st ! (loop ! (2 * q))) = x_i (e_x st ! (loop ! (2 * q + 1)))" if "q < n" for q
    using l(3)[of "2 * q"] that by (simp add: linked_def)
  show "(\<Sum>k | k \<in> A \<and> x_i (e_x st ! k) = i. sign_at loop k) = 0"
    unfolding s alternating_sum using r by simp
  have c: "x_j (e_x st ! (loop ! (2 * q + 1))) = x_j (e_x st ! (loop ! (2 * q + 2)))" if "Suc q < n" for q
    using l(3)[of "2 * q + 1"] that by (simp add: linked_def)
  have "loop \<noteq> []" using n by auto
  then have e: "x_j (e_x st ! (loop ! (2 * n - 1))) = x_j (e_x st ! (loop ! 0))"
    using assms(1) n(1) by (simp add: good_loop_def last_conv_nth)
  show "(\<Sum>k | k \<in> A \<and> x_j (e_x st ! k) = j. sign_at loop k) = 0"
    unfolding s using c e n(2) by (intro alternating_sum_shifted) simp_all
qed

lemma sign_at_place:
  assumes "distinct loop" "p < length loop"
  shows "sign_at loop (loop ! p) = (if even p then 1 else -1)"
proof -
  have "sign_at loop (loop ! p) = (\<Sum>q<length loop. if q = p then (if even q then 1 else -1) else 0)"
    unfolding sign_at_def using assms by (intro sum.cong) (auto simp: nth_eq_iff_index_eq)
  then show ?thesis using assms(2) by (simp add: sum.delta)
qed

lemma sign_at_outside: "k \<notin> set loop \<Longrightarrow> sign_at loop k = 0"
  unfolding sign_at_def by (intro sum.neutral) (auto simp: in_set_conv_nth)

section \<open>A new solution\<close>

definition same_sums :: "EMDState \<Rightarrow> EMDState \<Rightarrow> bool" where
  "same_sums st st' \<longleftrightarrow> (\<forall>i < ssize st. row_sum st' i = row_sum st i) \<and> (\<forall>j < dsize st. col_sum st' j = col_sum st j)"

definition same_problem :: "EMDState \<Rightarrow> EMDState \<Rightarrow> bool" where
  "same_problem st st' \<longleftrightarrow> ssize st' = ssize st \<and> dsize st' = dsize st \<and> cost st' = cost st \<and> max_cost st' = max_cost st
     \<and> idx1 st' = idx1 st \<and> idx2 st' = idx2 st \<and> e_weight st' = e_weight st \<and> end_x st' = end_x st \<and> length (e_x st') = length (e_x st)"

definition nonneg_plan :: "nat set \<Rightarrow> EMDState \<Rightarrow> bool" where
  "nonneg_plan A st \<longleftrightarrow> (\<forall>k\<in>A. 0 \<le> val_of st k)"

lemma shift_basis:
  fixes m :: real
  assumes "basis A st" "good_loop st A loop"
  defines "st' \<equiv> st\<lparr>e_x := shift_loop loop m (e_x st)\<rparr>"
  shows "basis A st'" "same_sums st st'" "\<And>k. val_of st' k = val_of st k + m * sign_at loop k"
    "\<And>k. cell_of st' k = cell_of st k" "length (e_x st') = length (e_x st)"
proof -
  have d: "distinct loop" "set loop \<subseteq> {..<length (e_x st)}" "even (length loop)"
    using assms(2) basisD(1)[OF assms(1)] by (auto simp: good_loop_def alternating_def)
  note s = shift_loop_val[OF d]
  show v: "val_of st' k = val_of st k + m * sign_at loop k" and c: "cell_of st' k = cell_of st k" for k
    by (simp_all add: st'_def s)
  show l: "length (e_x st') = length (e_x st)" by (simp add: st'_def s)
  show b: "basis A st'" by (rule basis_frame[OF assms(1)]) (use c l in \<open>simp_all add: st'_def\<close>)
  note z = good_loop_sums[OF assms(2) basis_finite[OF assms(1)]]
  have "row_sum st' i = row_sum st i" if "i < ssize st" for i
  proof -
    have "row_sum st' i = (\<Sum>k | k \<in> A \<and> x_i (e_x st ! k) = i. val_of st k + m * sign_at loop k)"
      using row_sum_set[OF b, of i] that v c by (simp add: st'_def)
    then show ?thesis using row_sum_set[OF assms(1) that] z(1)[of i] by (simp add: sum.distrib flip: sum_distrib_left)
  qed
  moreover have "col_sum st' j = col_sum st j" if "j < dsize st" for j
  proof -
    have "col_sum st' j = (\<Sum>k | k \<in> A \<and> x_j (e_x st ! k) = j. val_of st k + m * sign_at loop k)"
      using col_sum_set[OF b, of j] that v c by (simp add: st'_def)
    then show ?thesis using col_sum_set[OF assms(1) that] z(2)[of j] by (simp add: sum.distrib flip: sum_distrib_left)
  qed
  ultimately show "same_sums st st'" by (simp add: same_sums_def)
qed

lemma enter_node_fields:
  "ssize (enter_node st) = ssize st" "dsize (enter_node st) = dsize st" "cost (enter_node st) = cost st"
  "idx1 (enter_node st) = idx1 st" "idx2 (enter_node st) = idx2 st" "e_weight (enter_node st) = e_weight st"
  "e_u (enter_node st) = e_u st" "e_v (enter_node st) = e_v st" "max_cost (enter_node st) = max_cost st" "end_x (enter_node st) = end_x st" "enter_x (enter_node st) = enter_x st"
  "length (e_x (enter_node st)) = length (e_x st)"
  by (simp_all add: enter_node_def Let_def)

lemma leave_node_fields:
  "ssize (leave_node k st) = ssize st" "dsize (leave_node k st) = dsize st" "cost (leave_node k st) = cost st"
  "idx1 (leave_node k st) = idx1 st" "idx2 (leave_node k st) = idx2 st" "e_weight (leave_node k st) = e_weight st"
  "e_u (leave_node k st) = e_u st" "e_v (leave_node k st) = e_v st" "max_cost (leave_node k st) = max_cost st" "end_x (leave_node k st) = end_x st" "enter_x (leave_node k st) = k"
  "e_x (leave_node k st) = e_x st"
  by (simp_all add: leave_node_def Let_def)

lemma enter_node_val:
  "enter_x st < length (e_x st) \<Longrightarrow> val_of (enter_node st) k = (if k = enter_x st then 0 else val_of st k)"
  by (auto simp: enter_node_def Let_def add_val_def nth_list_update)

lemma emdNewSolution_step:
  assumes "ready_to_enter A st" "emdNewSolution st = Some (True, st')"
  obtains k where "k \<in> insert (enter_x st) A" "enter_x st' = k" "basis (insert (enter_x st) A - {k}) st'"
    "same_problem st st'" "same_sums st st'" "nonneg_plan A st \<Longrightarrow> nonneg_plan (insert (enter_x st) A - {k}) st'"
    "\<And>x. cell_of st' x = cell_of st x" "e_u st' = e_u st" "e_v st' = e_v st"
proof -
  let ?A = "insert (enter_x st) A" and ?e = "enter_node st"
  obtain loop v k where l: "emdFindLoop ?e = Some loop" "leaving ?e loop = (v, Some k)"
    and st': "st' = leave_node k (?e\<lparr>e_x := shift_loop loop v (e_x ?e)\<rparr>)"
  proof -
    obtain loop where f: "emdFindLoop ?e = Some loop"
      and c: "(case leaving ?e loop of (_, None) \<Rightarrow> Some (False, ?e)
         | (v, Some k) \<Rightarrow> Some (True, leave_node k (?e\<lparr>e_x := shift_loop loop v (e_x ?e)\<rparr>))) = Some (True, st')"
      using assms(2) by (auto simp: emdNewSolution_def Let_def bind_eq_Some_conv)
    obtain v c' where lv: "leaving ?e loop = (v, c')" by fastforce
    with c obtain k where "c' = Some k" by (cases c') auto
    with c lv f that show ?thesis by simp
  qed
  define sh where "sh = ?e\<lparr>e_x := shift_loop loop v (e_x ?e)\<rparr>"
  note b = enter_node_basis[OF assms(1)]
  have g: "good_loop ?e ?A loop" using emdFindLoop_good[OF b(1) _ l(1)] by (simp add: enter_node_fields)
  note s = shift_basis[OF b(1) g, of v, folded sh_def]
  obtain p where p: "p < length loop" "odd p" "k = loop ! p" "v = val_of ?e k" using leaving_Some(1)[OF l(2)] by auto
  have d: "distinct loop" "set loop \<subseteq> ?A" using g by (auto simp: good_loop_def alternating_def)
  have kA: "k \<in> ?A" using d(2) p nth_mem by auto
  have z: "val_of sh k = 0" using s(3)[of k] p sign_at_place[OF d(1) p(1)] by simp
  note lv = leave_node_basis[OF s(1) kA z]
  have sums: "same_sums st st'"
    using b(2,3) s(2) lv(2,3) by (simp add: same_sums_def st' enter_node_fields flip: sh_def) (simp add: sh_def enter_node_fields)
  have prob: "same_problem st st'"
    using s(5) by (simp add: same_problem_def st' leave_node_fields enter_node_fields flip: sh_def) (simp add: sh_def enter_node_fields)
  have "nonneg_plan (?A - {k}) st'" if n: "nonneg_plan A st"
  proof -
    have ex: "enter_x st < length (e_x st)" using assms(1) by (simp add: ready_to_enter_def)
    have e0: "x \<in> ?A \<Longrightarrow> 0 \<le> val_of ?e x" for x using n enter_node_val[OF ex, of x] by (auto simp: nonneg_plan_def)
    have v0: "0 \<le> v" using e0[OF kA] p(4) by simp
    have "0 \<le> val_of sh x" if "x \<in> ?A" for x
    proof (cases "x \<in> set loop")
      case True
      then obtain q where q: "q < length loop" "x = loop ! q" by (auto simp: in_set_conv_nth)
      then show ?thesis using s(3)[of x] sign_at_place[OF d(1) q(1)] leaving_Some(2)[OF l(2) q(1)] v0 e0[OF that]
        by (cases "even q") auto
    next
      case False
      then show ?thesis using s(3)[of x] sign_at_outside[OF False] e0[OF that] by simp
    qed
    then show ?thesis by (auto simp: nonneg_plan_def st' leave_node_fields simp flip: sh_def)
  qed
  moreover have "cell_of st' x = cell_of st x" for x
    using s(4)[of x] assms(1) by (simp add: st' leave_node_fields ready_to_enter_def flip: sh_def) (simp add: enter_node_def Let_def)
  moreover have "e_u st' = e_u st" "e_v st' = e_v st"
    by (simp_all add: st' leave_node_fields enter_node_fields)
  ultimately show ?thesis using that[of k] kA lv(1) sums prob by (simp add: st' leave_node_fields flip: sh_def)
qed

end
