(* ===== verification/NBody_EMDPotential.thy ===== *)
theory NBody_EMDPotential
  imports NBody_EMDPlan
begin

text \<open>
  \<open>emdFindBasicVariables\<close>: when it succeeds on a basis with one cell less than rows and columns, the
  potentials it leaves add up to the cost on every cell of the basis.
\<close>

lemma nth_update_if: "xs[i := x] ! k = (if k = i \<and> i < length xs then x else xs ! k)"
  by (cases "i < length xs") (auto simp: nth_list_update list_update_beyond)

lemma fold_update_nth:
  assumes "distinct xs"
  shows "fold (\<lambda>i u. if P i then u[i := f i] else u) xs u ! k = (if k \<in> set xs \<and> P k \<and> k < length u then f k else u ! k)"
    and "length (fold (\<lambda>i u. if P i then u[i := f i] else u) xs u) = length u"
  using assms by (induction xs arbitrary: u) (auto simp: nth_update_if)

lemma set_fold_if: "set (fold (\<lambda>i us. if P i then i # us else us) xs us) = {i \<in> set xs. P i} \<union> set us"
  by (induction xs arbitrary: us) auto

section \<open>Marking\<close>

text \<open>Rows and columns that have their potential.\<close>

definition rows_done :: "EMDState \<Rightarrow> emd_marks \<Rightarrow> nat set" where
  "rows_done st m = {..<ssize st} - set (m_u0 m)"

definition cols_done :: "EMDState \<Rightarrow> emd_marks \<Rightarrow> nat set" where
  "cols_done st m = {..<dsize st} - set (m_v0 m)"

text \<open>\<open>E\<close> holds, for every row and column with a potential but the first, the cell it came through.\<close>

definition marked :: "EMDState \<Rightarrow> (nat \<times> nat) set \<Rightarrow> emd_marks \<Rightarrow> bool" where
  "marked st E m \<longleftrightarrow> length (m_u m) = ssize st \<and> length (m_v m) = dsize st
     \<and> distinct (m_u0 m) \<and> set (m_u0 m) \<subseteq> {..<ssize st} \<and> distinct (m_v0 m) \<and> set (m_v0 m) \<subseteq> {..<dsize st}
     \<and> set (m_u1 m) \<subseteq> rows_done st m \<and> set (m_v1 m) \<subseteq> cols_done st m
     \<and> u_cfound m + length (m_u1 m) + length (m_u0 m) = ssize st
     \<and> v_cfound m + length (m_v1 m) + length (m_v0 m) = dsize st
     \<and> E \<subseteq> cells st \<and> (\<forall>(i, j)\<in>E. i \<in> rows_done st m \<and> j \<in> cols_done st m \<and> m_u m ! i + m_v m ! j = cost st ! i ! j)
     \<and> card E + 1 = card (rows_done st m) + card (cols_done st m)"

lemma finite_cells: "finite (cells st)"
  by (rule finite_subset[of _ "{..<ssize st} \<times> {..<dsize st}"]) (auto simp: cells_def)

lemma mark_rows_marked:
  assumes "marked st E m" "m_v1 m = j # js"
  shows "\<exists>E'. marked st E' (mark_rows st j m)"
proof -
  let ?m = "mark_rows st j m"
  define I where "I = {i \<in> set (m_u0 m). is_x st ! i ! j}"
  note a = assms(1)[unfolded marked_def]
  have j: "j \<in> cols_done st m" "j < dsize st" using a assms(2) by (auto simp: cols_done_def)
  have I: "I \<subseteq> {..<ssize st}" "finite I" "I \<inter> rows_done st m = {}" using a by (auto simp: I_def rows_done_def)
  have R: "rows_done st ?m = rows_done st m \<union> I" using a by (auto simp: rows_done_def I_def mark_rows_def Let_def)
  have C: "cols_done st ?m = cols_done st m" by (simp add: cols_done_def mark_rows_def Let_def)
  have u: "m_u ?m ! i = (if i \<in> I then cost st ! i ! j - m_v m ! j else m_u m ! i)" for i
    using a by (auto simp: mark_rows_def Let_def fold_update_nth I_def)
  have v: "m_v ?m = m_v m" "m_v0 ?m = m_v0 m" "m_v1 ?m = js" using assms(2) by (simp_all add: mark_rows_def Let_def)
  let ?E = "E \<union> I \<times> {j}"
  have E: "E \<subseteq> cells st" "(i, k) \<in> E \<Longrightarrow> i \<in> rows_done st m \<and> k \<in> cols_done st m \<and> m_u m ! i + m_v m ! k = cost st ! i ! k"
    "finite E" for i k using a finite_subset[OF _ finite_cells] by auto
  have "card ?E = card E + card I"
    using E I by (subst card_Un_disjoint) (auto simp: card_cartesian_product)
  moreover have "card (rows_done st ?m) = card (rows_done st m) + card I"
    unfolding R using I by (subst card_Un_disjoint) (auto simp: rows_done_def)
  ultimately have "card ?E + 1 = card (rows_done st ?m) + card (cols_done st ?m)" using a C by simp
  moreover have "?E \<subseteq> cells st" using E(1) I(1) j by (auto simp: cells_def I_def)
  moreover have "\<forall>(i, k)\<in>?E. i \<in> rows_done st ?m \<and> k \<in> cols_done st ?m \<and> m_u ?m ! i + m_v ?m ! k = cost st ! i ! k"
    using E(2) I(3) j by (fastforce simp: R C u v)
  moreover have "set (m_u1 ?m) \<subseteq> rows_done st ?m" "u_cfound ?m + length (m_u1 ?m) + length (m_u0 ?m) = ssize st"
    using a sum_length_filter_compl[of "\<lambda>i. is_x st ! i ! j" "m_u0 m"] unfolding R
    by (auto simp: mark_rows_def Let_def set_fold_if length_fold_if I_def)
  moreover have "set (m_v1 ?m) \<subseteq> cols_done st ?m" "v_cfound ?m + length (m_v1 ?m) + length (m_v0 ?m) = dsize st"
    using a assms(2) by (auto simp: C v) (simp add: mark_rows_def Let_def)
  moreover have "length (m_u ?m) = ssize st" "distinct (m_u0 ?m)" "set (m_u0 ?m) \<subseteq> {..<ssize st}"
    using a by (auto simp: mark_rows_def Let_def fold_update_nth)
  ultimately show ?thesis using a unfolding marked_def v by blast
qed

lemma mark_cols_marked:
  assumes "marked st E m" "m_u1 m = i # is'"
  shows "\<exists>E'. marked st E' (mark_cols st i m)"
proof -
  let ?m = "mark_cols st i m"
  define J where "J = {j \<in> set (m_v0 m). is_x st ! i ! j}"
  note a = assms(1)[unfolded marked_def]
  have i: "i \<in> rows_done st m" "i < ssize st" using a assms(2) by (auto simp: rows_done_def)
  have J: "J \<subseteq> {..<dsize st}" "finite J" "J \<inter> cols_done st m = {}" using a by (auto simp: J_def cols_done_def)
  have C: "cols_done st ?m = cols_done st m \<union> J" using a by (auto simp: cols_done_def J_def mark_cols_def Let_def)
  have R: "rows_done st ?m = rows_done st m" by (simp add: rows_done_def mark_cols_def Let_def)
  have v: "m_v ?m ! j = (if j \<in> J then cost st ! i ! j - m_u m ! i else m_v m ! j)" for j
    using a by (auto simp: mark_cols_def Let_def fold_update_nth J_def)
  have u: "m_u ?m = m_u m" "m_u0 ?m = m_u0 m" "m_u1 ?m = is'" using assms(2) by (simp_all add: mark_cols_def Let_def)
  let ?E = "E \<union> {i} \<times> J"
  have E: "E \<subseteq> cells st" "(k, j) \<in> E \<Longrightarrow> k \<in> rows_done st m \<and> j \<in> cols_done st m \<and> m_u m ! k + m_v m ! j = cost st ! k ! j"
    "finite E" for k j using a finite_subset[OF _ finite_cells] by auto
  have "card ?E = card E + card J"
    using E J by (subst card_Un_disjoint) (auto simp: card_cartesian_product)
  moreover have "card (cols_done st ?m) = card (cols_done st m) + card J"
    unfolding C using J by (subst card_Un_disjoint) (auto simp: cols_done_def)
  ultimately have "card ?E + 1 = card (rows_done st ?m) + card (cols_done st ?m)" using a R by simp
  moreover have "?E \<subseteq> cells st" using E(1) J(1) i by (auto simp: cells_def J_def)
  moreover have "\<forall>(k, j)\<in>?E. k \<in> rows_done st ?m \<and> j \<in> cols_done st ?m \<and> m_u ?m ! k + m_v ?m ! j = cost st ! k ! j"
    using E(2) J(3) i by (fastforce simp: R C u v)
  moreover have "set (m_v1 ?m) \<subseteq> cols_done st ?m" "v_cfound ?m + length (m_v1 ?m) + length (m_v0 ?m) = dsize st"
    using a sum_length_filter_compl[of "\<lambda>j. is_x st ! i ! j" "m_v0 m"] unfolding C
    by (auto simp: mark_cols_def Let_def set_fold_if length_fold_if J_def)
  moreover have "set (m_u1 ?m) \<subseteq> rows_done st ?m" "u_cfound ?m + length (m_u1 ?m) + length (m_u0 ?m) = ssize st"
    using a assms(2) by (auto simp: R u) (simp add: mark_cols_def Let_def)
  moreover have "length (m_v ?m) = dsize st" "distinct (m_v0 ?m)" "set (m_v0 ?m) \<subseteq> {..<dsize st}"
    using a by (auto simp: mark_cols_def Let_def fold_update_nth)
  ultimately show ?thesis using a unfolding marked_def u by blast
qed

lemma mark_folds_marked:
  "marked st E m \<Longrightarrow> m_v1 m = js \<Longrightarrow> \<exists>E'. marked st E' (fold (mark_rows st) js m)"
  "marked st E m \<Longrightarrow> m_u1 m = ks \<Longrightarrow> \<exists>E'. marked st E' (fold (mark_cols st) ks m)"
proof -
  show "marked st E m \<Longrightarrow> m_v1 m = js \<Longrightarrow> \<exists>E'. marked st E' (fold (mark_rows st) js m)"
  proof (induction js arbitrary: m E)
    case (Cons j js)
    then obtain E' where "marked st E' (mark_rows st j m)" using mark_rows_marked by blast
    then show ?case using Cons.IH Cons.prems by (simp add: mark_rows_v1)
  qed auto
  show "marked st E m \<Longrightarrow> m_u1 m = ks \<Longrightarrow> \<exists>E'. marked st E' (fold (mark_cols st) ks m)"
  proof (induction ks arbitrary: m E)
    case (Cons j js)
    then obtain E' where "marked st E' (mark_cols st j m)" using mark_cols_marked by blast
    then show ?case using Cons.IH Cons.prems by (simp add: mark_cols_u1)
  qed auto
qed

lemma mark_round_marked: "marked st E m \<Longrightarrow> mark_round st m = (b, m') \<Longrightarrow> \<exists>E'. marked st E' m'"
  using mark_folds_marked by (fastforce simp: mark_round_def Let_def split: if_splits)

lemma find_basic_marked:
  "find_basic st m = Some m' \<Longrightarrow> marked st E m
    \<Longrightarrow> \<exists>E'. marked st E' m' \<and> \<not> (u_cfound m' < ssize st \<or> v_cfound m' < dsize st)"
proof (induction st m arbitrary: E rule: find_basic.induct)
  case (1 st m)
  show ?case
  proof (cases "u_cfound m < ssize st \<or> v_cfound m < dsize st")
    case True
    obtain b m1 where r: "mark_round st m = (b, m1)" by fastforce
    with 1(2) True have "b" "find_basic st m1 = Some m'"
      by (auto simp: find_basic.simps[of st m] split: if_splits)
    then show ?thesis using 1(1)[OF True r[symmetric]] mark_round_marked[OF 1(3) r] by auto
  next
    case False
    then show ?thesis using 1(2,3) by (auto simp: find_basic.simps[of st m])
  qed
qed

section \<open>The potentials\<close>

definition tight :: "EMDState \<Rightarrow> bool" where
  "tight st \<longleftrightarrow> (\<forall>(i, j)\<in>cells st. e_u st ! i + e_v st ! j = cost st ! i ! j)"

lemma emdFindBasicVariables_tight:
  assumes "emdFindBasicVariables st = Some st'" "1 < ssize st" "0 < dsize st" "length (e_u st) = ssize st" "length (e_v st) = dsize st"
    and "card (cells st) = ssize st + dsize st - 1"
  shows "tight st'" "st' = st\<lparr>e_u := e_u st', e_v := e_v st'\<rparr>" "length (e_u st') = ssize st" "length (e_v st') = dsize st"
proof -
  let ?m = "\<lparr>m_u = e_u st, m_v = (e_v st)[0 := 0], m_u0 = [0..<ssize st], m_u1 = [], m_v0 = [1..<dsize st], m_v1 = [0],
             u_cfound = 0, v_cfound = 0\<rparr>"
  obtain m where m: "find_basic st ?m = Some m" "st' = st\<lparr>e_u := m_u m, e_v := m_v m\<rparr>"
    using assms(1,2) by (auto simp: emdFindBasicVariables_def Let_def)
  have "cols_done st ?m = {0}" "rows_done st ?m = {}" using assms(3) by (auto simp: cols_done_def rows_done_def)
  then have "marked st {} ?m" using assms by (auto simp: marked_def)
  from find_basic_marked[OF m(1) this] obtain E where E: "marked st E m" "ssize st \<le> u_cfound m" "dsize st \<le> v_cfound m" by auto
  then have "length (m_u0 m) = 0" "length (m_v0 m) = 0" unfolding marked_def by linarith+
  then have e: "m_u0 m = []" "m_v0 m = []" by simp_all
  then have "card E + 1 = ssize st + dsize st" using E(1) by (simp add: marked_def rows_done_def cols_done_def)
  then have "card E = card (cells st)" using assms(6) by linarith
  moreover have "E \<subseteq> cells st" using E(1) by (simp add: marked_def)
  ultimately have "E = cells st" using card_subset_eq[OF finite_cells] by blast
  then show "tight st'" using E(1) by (auto simp: tight_def marked_def m(2) cells_def)
  show "st' = st\<lparr>e_u := e_u st', e_v := e_v st'\<rparr>" "length (e_u st') = ssize st" "length (e_v st') = dsize st"
    using E(1) by (simp_all add: m(2) marked_def)
qed

end
