(* ===== verification/NBody_EMDOptimal.thy ===== *)
theory NBody_EMDOptimal
  imports NBody_EMDPotential
begin

text \<open>
  The optimality test and the iterations: the reduced costs bound the cost of every plan with the same
  sums from below, a round never makes the plan more expensive, and the loop keeps the basis.
\<close>

section \<open>The test\<close>

definition reduced :: "EMDState \<Rightarrow> nat \<Rightarrow> nat \<Rightarrow> real" where
  "reduced st i j = cost st ! i ! j - e_u st ! i - e_v st ! j"

lemma emdIsOptimal_min:
  assumes "emdIsOptimal st = (d, st')"
  shows "\<And>i j. i < ssize st \<Longrightarrow> j < dsize st \<Longrightarrow> (i, j) \<notin> cells st \<Longrightarrow> d \<le> reduced st i j"
    and "d \<le> EMD_INF"
    and "\<exists>i j. st' = st\<lparr>e_x := (e_x st)[enter_x st := (e_x st ! enter_x st)\<lparr>x_i := i, x_j := j\<rparr>]\<rparr>
          \<and> (d < EMD_INF \<longrightarrow> i < ssize st \<and> j < dsize st \<and> (i, j) \<notin> cells st \<and> d = reduced st i j)"
proof -
  let ?all = "filter (\<lambda>(i, j). \<not> is_x st ! i ! j) (List.product [0..<ssize st] [0..<dsize st])"
  let ?upd = "\<lambda>x (d, c). if d > (case x of (i, j) \<Rightarrow> reduced st i j) then ((case x of (i, j) \<Rightarrow> reduced st i j), x) else (d, c)"
  have one: "scan_reduced st i j = (\<lambda>z. if (case (i, j) of (i, j) \<Rightarrow> \<not> is_x st ! i ! j) then ?upd (i, j) z else z)" for i j
    by (rule ext) (auto simp: scan_reduced_def reduced_def Let_def)
  have "fold (\<lambda>i. fold (scan_reduced st i) [0..<dsize st]) [0..<ssize st] (EMD_INF, 0, 0) = fold ?upd ?all (EMD_INF, (0, 0))"
    unfolding fold_product one fold_when[symmetric] by (intro fold_cong) auto
  then obtain i j where f: "fold ?upd ?all (EMD_INF, (0, 0)) = (d, (i, j))"
    and st': "st' = st\<lparr>e_x := (e_x st)[enter_x st := (e_x st ! enter_x st)\<lparr>x_i := i, x_j := j\<rparr>]\<rparr>"
    using assms by (auto simp: emdIsOptimal_def Let_def split: prod.splits)
  have all: "set ?all = {(i, j). i < ssize st \<and> j < dsize st \<and> (i, j) \<notin> cells st}" by (auto simp: cells_def)
  note m = fold_first_min[of "\<lambda>(i, j). reduced st i j" "\<lambda>x. x", OF f, unfolded all]
  show "d \<le> EMD_INF" using m by simp
  show "d \<le> reduced st i j" if "i < ssize st" "j < dsize st" "(i, j) \<notin> cells st" for i j using m that by auto
  show "\<exists>i j. st' = st\<lparr>e_x := (e_x st)[enter_x st := (e_x st ! enter_x st)\<lparr>x_i := i, x_j := j\<rparr>]\<rparr>
          \<and> (d < EMD_INF \<longrightarrow> i < ssize st \<and> j < dsize st \<and> (i, j) \<notin> cells st \<and> d = reduced st i j)"
    using m st' by (intro exI[of _ i] exI[of _ j]) auto
qed

section \<open>The cost of a plan\<close>

definition nodes_used :: "EMDState \<Rightarrow> nat set" where
  "nodes_used st = {..<end_x st} - {enter_x st}"

definition plan_cost :: "nat set \<Rightarrow> EMDState \<Rightarrow> real" where
  "plan_cost A st = (\<Sum>k\<in>A. val_of st k * cost st ! x_i (e_x st ! k) ! x_j (e_x st ! k))"

text \<open>Another plan for the same sums.\<close>

definition same_margins :: "EMDState \<Rightarrow> (nat \<Rightarrow> nat \<Rightarrow> real) \<Rightarrow> bool" where
  "same_margins st y \<longleftrightarrow> (\<forall>i < ssize st. (\<Sum>j < dsize st. y i j) = row_sum st i) \<and> (\<forall>j < dsize st. (\<Sum>i < ssize st. y i j) = col_sum st j)"

lemma sum_by_row:
  assumes "basis A st"
  shows "(\<Sum>k\<in>A. h (x_i (e_x st ! k)) * val_of st k) = (\<Sum>i < ssize st. h i * row_sum st i)"
    and "(\<Sum>k\<in>A. g (x_j (e_x st ! k)) * val_of st k) = (\<Sum>j < dsize st. g j * col_sum st j)"
proof -
  note b = basisD[OF assms] basis_finite[OF assms]
  have "(\<Sum>i < ssize st. h i * row_sum st i) = (\<Sum>i < ssize st. \<Sum>k | k \<in> A \<and> x_i (e_x st ! k) = i. h (x_i (e_x st ! k)) * val_of st k)"
    using row_sum_set[OF assms] by (intro sum.cong) (auto simp: sum_distrib_left)
  also have "\<dots> = (\<Sum>k\<in>A. h (x_i (e_x st ! k)) * val_of st k)"
    using b by (intro sum.group) auto
  finally show "(\<Sum>k\<in>A. h (x_i (e_x st ! k)) * val_of st k) = (\<Sum>i < ssize st. h i * row_sum st i)" ..
  have "(\<Sum>j < dsize st. g j * col_sum st j) = (\<Sum>j < dsize st. \<Sum>k | k \<in> A \<and> x_j (e_x st ! k) = j. g (x_j (e_x st ! k)) * val_of st k)"
    using col_sum_set[OF assms] by (intro sum.cong) (auto simp: sum_distrib_left)
  also have "\<dots> = (\<Sum>k\<in>A. g (x_j (e_x st ! k)) * val_of st k)"
    using b by (intro sum.group) auto
  finally show "(\<Sum>k\<in>A. g (x_j (e_x st ! k)) * val_of st k) = (\<Sum>j < dsize st. g j * col_sum st j)" ..
qed

lemma cost_by_potentials:
  assumes "basis A st"
    and "\<And>k. k \<in> A \<Longrightarrow> cost st ! x_i (e_x st ! k) ! x_j (e_x st ! k)
           = us ! x_i (e_x st ! k) + vs ! x_j (e_x st ! k) + (if k = e then d else 0)"
  shows "plan_cost A st = (\<Sum>i < ssize st. us ! i * row_sum st i) + (\<Sum>j < dsize st. vs ! j * col_sum st j)
           + (if e \<in> A then d * val_of st e else 0)"
proof -
  have "plan_cost A st = (\<Sum>k\<in>A. us ! x_i (e_x st ! k) * val_of st k + vs ! x_j (e_x st ! k) * val_of st k
      + (if k = e then d * val_of st e else 0))"
    unfolding plan_cost_def using assms(2) by (intro sum.cong) (auto simp: algebra_simps)
  then show ?thesis unfolding sum.distrib sum_by_row[OF assms(1)] using basis_finite[OF assms(1)] by (simp add: sum.delta)
qed

lemma tight_cost:
  assumes "basis A st" "tight st"
  shows "plan_cost A st = (\<Sum>i < ssize st. e_u st ! i * row_sum st i) + (\<Sum>j < dsize st. e_v st ! j * col_sum st j)"
proof -
  have "cost st ! x_i (e_x st ! k) ! x_j (e_x st ! k)
      = e_u st ! x_i (e_x st ! k) + e_v st ! x_j (e_x st ! k) + (if k = 0 then 0 else 0)" if "k \<in> A" for k
    using assms(2) basisD(9)[OF assms(1)] that by (auto simp: tight_def)
  from cost_by_potentials[OF assms(1) this] show ?thesis by simp
qed

lemma weak_duality:
  assumes "basis A st" "tight st" "\<And>i j. i < ssize st \<Longrightarrow> j < dsize st \<Longrightarrow> (i, j) \<notin> cells st \<Longrightarrow> - eps \<le> reduced st i j"
    and "0 \<le> eps" "\<And>i j. i < ssize st \<Longrightarrow> j < dsize st \<Longrightarrow> 0 \<le> y i j" "same_margins st y"
  shows "plan_cost A st \<le> (\<Sum>i < ssize st. \<Sum>j < dsize st. y i j * cost st ! i ! j) + eps * (\<Sum>i < ssize st. \<Sum>j < dsize st. y i j)"
proof -
  have r: "- eps \<le> reduced st i j" if "i < ssize st" "j < dsize st" for i j
    using assms(3)[OF that] assms(2,4) that by (cases "(i, j) \<in> cells st") (auto simp: tight_def reduced_def)
  have "(\<Sum>i < ssize st. e_u st ! i * row_sum st i) = (\<Sum>i < ssize st. \<Sum>j < dsize st. e_u st ! i * y i j)"
    using assms(6) by (intro sum.cong) (auto simp: same_margins_def simp flip: sum_distrib_left)
  moreover have "(\<Sum>j < dsize st. e_v st ! j * col_sum st j) = (\<Sum>i < ssize st. \<Sum>j < dsize st. e_v st ! j * y i j)"
    using assms(6) by (subst sum.swap, intro sum.cong) (auto simp: same_margins_def simp flip: sum_distrib_left)
  ultimately have "plan_cost A st = (\<Sum>i < ssize st. \<Sum>j < dsize st. e_u st ! i * y i j + e_v st ! j * y i j)"
    using tight_cost[OF assms(1,2)] by (simp add: sum.distrib)
  also have "\<dots> \<le> (\<Sum>i < ssize st. \<Sum>j < dsize st. y i j * cost st ! i ! j + eps * y i j)"
  proof (intro sum_mono)
    fix i j assume ij: "i \<in> {..<ssize st}" "j \<in> {..<dsize st}"
    then have "0 \<le> y i j * (cost st ! i ! j - e_u st ! i - e_v st ! j + eps)"
      using r[of i j] assms(5)[of i j] by (intro mult_nonneg_nonneg) (auto simp: reduced_def)
    then show "e_u st ! i * y i j + e_v st ! j * y i j \<le> y i j * cost st ! i ! j + eps * y i j"
      by (simp add: algebra_simps)
  qed
  finally show ?thesis by (simp add: sum.distrib sum_distrib_left)
qed

end
