(* ===== verification/NBody_EMDIterate.thy ===== *)
theory NBody_EMDIterate
  imports NBody_EMDOptimal
begin

text \<open>
  The loop of \<open>emdIterateSolution\<close>: every round that makes a new solution keeps the basis, all sums of
  the plan and its sign, and does not make it more expensive; the result is checked by the test.
\<close>

section \<open>Rounds\<close>

definition emd_ok :: "EMDState \<Rightarrow> bool" where
  "emd_ok st \<longleftrightarrow> basis (nodes_used st) st \<and> enter_x st < end_x st \<and> end_x st \<le> length (e_x st) \<and> end_x st = ssize st + dsize st
     \<and> 1 < ssize st \<and> 1 < dsize st \<and> length (e_u st) = ssize st \<and> length (e_v st) = dsize st"

definition pivot :: "EMDState \<Rightarrow> EMDState \<Rightarrow> bool" where
  "pivot st st' \<longleftrightarrow> (\<exists>st1 d st2. emdFindBasicVariables st = Some st1 \<and> emdIsOptimal st1 = (d, st2)
     \<and> d \<noteq> EMD_INF \<and> d < - (EMD_EPS * max_cost st2) \<and> emdNewSolution st2 = Some (True, st'))"

definition passes_test :: "EMDState \<Rightarrow> bool" where
  "passes_test st \<longleftrightarrow> tight st \<and> (\<forall>i < ssize st. \<forall>j < dsize st. (i, j) \<notin> cells st \<longrightarrow> - (EMD_EPS * max_cost st) \<le> reduced st i j)"

text \<open>What does not change when only potentials and the place of the node that enters are written.\<close>

definition same_plan :: "EMDState \<Rightarrow> EMDState \<Rightarrow> bool" where
  "same_plan st st' \<longleftrightarrow> same_problem st st' \<and> rows_x st' = rows_x st \<and> cols_x st' = cols_x st \<and> is_x st' = is_x st
     \<and> enter_x st' = enter_x st \<and> (\<forall>k. k \<noteq> enter_x st \<longrightarrow> e_x st' ! k = e_x st ! k)
     \<and> length (e_u st') = length (e_u st) \<and> length (e_v st') = length (e_v st)"

lemma cells_same: "same_plan st st' \<Longrightarrow> cells st' = cells st"
  by (simp add: cells_def same_plan_def same_problem_def)

lemma same_plan_ok:
  assumes "same_plan st st'" "emd_ok st"
  shows "emd_ok st'" "same_sums st st'" "nodes_used st' = nodes_used st"
    "plan_cost (nodes_used st') st' = plan_cost (nodes_used st) st" "nonneg_plan (nodes_used st') st' = nonneg_plan (nodes_used st) st"
proof -
  note p = assms(1)[unfolded same_plan_def same_problem_def]
  show u: "nodes_used st' = nodes_used st" using p by (simp add: nodes_used_def)
  have k: "k \<in> nodes_used st \<Longrightarrow> e_x st' ! k = e_x st ! k" for k using p by (simp add: nodes_used_def)
  have b: "basis (nodes_used st) st" using assms(2) by (simp add: emd_ok_def)
  have b': "basis (nodes_used st) st'" by (rule basis_frame[OF b]) (use p k in auto)
  then show "emd_ok st'" using p assms(2) by (simp add: emd_ok_def u)
  have "row_sum st' i = row_sum st i" if "i < ssize st" for i
    using row_sum_set[OF b that] row_sum_set[OF b', of i] p that by (auto simp: k intro!: sum.cong)
  moreover have "col_sum st' j = col_sum st j" if "j < dsize st" for j
    using col_sum_set[OF b that] col_sum_set[OF b', of j] p that by (auto simp: k intro!: sum.cong)
  ultimately show "same_sums st st'" by (simp add: same_sums_def)
  show "plan_cost (nodes_used st') st' = plan_cost (nodes_used st) st" "nonneg_plan (nodes_used st') st' = nonneg_plan (nodes_used st) st"
    using p k by (auto simp: plan_cost_def nonneg_plan_def u intro!: sum.cong)
qed

lemma emd_ok_tree:
  assumes "emd_ok st" shows "card (cells st) = ssize st + dsize st - 1"
proof -
  have b: "basis (nodes_used st) st" using assms by (simp add: emd_ok_def)
  have "card (cells st) = card (nodes_used st)" unfolding basisD(9)[OF b] by (rule card_image[OF basisD(8)[OF b]])
  also have "\<dots> = ssize st + dsize st - 1" using assms by (simp add: emd_ok_def nodes_used_def)
  finally show ?thesis .
qed

lemma find_same_plan:
  assumes "emd_ok st" "emdFindBasicVariables st = Some st1"
  shows "same_plan st st1" "tight st1"
proof -
  note f = emdFindBasicVariables_tight[OF assms(2) _ _ _ _ emd_ok_tree[OF assms(1)]]
  have "tight st1 \<and> st1 = st\<lparr>e_u := e_u st1, e_v := e_v st1\<rparr> \<and> length (e_u st1) = ssize st \<and> length (e_v st1) = dsize st"
    using f assms(1) by (simp add: emd_ok_def)
  moreover from this obtain us vs where "st1 = st\<lparr>e_u := us, e_v := vs\<rparr>" by blast
  ultimately show "same_plan st st1" "tight st1" using assms(1) by (simp_all add: same_plan_def same_problem_def emd_ok_def)
qed

lemma test_same_plan:
  assumes "emdIsOptimal st = (d, st')" shows "same_plan st st'"
proof -
  obtain i j where "st' = st\<lparr>e_x := (e_x st)[enter_x st := (e_x st ! enter_x st)\<lparr>x_i := i, x_j := j\<rparr>]\<rparr>"
    using emdIsOptimal_min(3)[OF assms] by blast
  then show ?thesis by (simp add: same_plan_def same_problem_def)
qed

lemma potentials_test: "emdIsOptimal st = (d, st') \<Longrightarrow> e_u st' = e_u st \<and> e_v st' = e_v st"
  using emdIsOptimal_min(3) by fastforce

lemma tight_test: "emdIsOptimal st = (d, st') \<Longrightarrow> tight st \<Longrightarrow> tight st'"
  using test_same_plan[of st d st'] cells_same[of st st'] potentials_test[of st d st']
  by (simp add: tight_def same_plan_def same_problem_def)

lemma test_ready:
  assumes "emd_ok st" "emdIsOptimal st = (d, st')" "d \<noteq> EMD_INF"
  shows "ready_to_enter (nodes_used st) st'" "d = reduced st' (x_i (e_x st' ! enter_x st')) (x_j (e_x st' ! enter_x st'))"
proof -
  have d: "d < EMD_INF" using emdIsOptimal_min(2)[OF assms(2)] assms(3) by simp
  then obtain i j where e: "st' = st\<lparr>e_x := (e_x st)[enter_x st := (e_x st ! enter_x st)\<lparr>x_i := i, x_j := j\<rparr>]\<rparr>"
    and ij: "i < ssize st" "j < dsize st" "(i, j) \<notin> cells st" "d = reduced st i j"
    using emdIsOptimal_min(3)[OF assms(2)] by blast
  have l: "enter_x st < length (e_x st)" using assms(1) by (simp add: emd_ok_def)
  have s: "same_plan st st'" by (rule test_same_plan[OF assms(2)])
  have "basis (nodes_used st) st'" using same_plan_ok(1,3)[OF s assms(1)] by (simp add: emd_ok_def)
  then show "ready_to_enter (nodes_used st) st'" using ij l cells_same[OF s] by (simp add: ready_to_enter_def e nodes_used_def)
  show "d = reduced st' (x_i (e_x st' ! enter_x st')) (x_j (e_x st' ! enter_x st'))"
    using ij(4) l by (simp add: e reduced_def)
qed

lemma same_sums_trans: "same_sums st st' \<Longrightarrow> same_sums st' st'' \<Longrightarrow> same_problem st st' \<Longrightarrow> same_sums st st''"
  by (simp add: same_sums_def same_problem_def)

lemma same_problem_trans: "same_problem st st' \<Longrightarrow> same_problem st' st'' \<Longrightarrow> same_problem st st''"
  by (simp add: same_problem_def)

definition no_worse :: "EMDState \<Rightarrow> EMDState \<Rightarrow> bool" where
  "no_worse st st' \<longleftrightarrow> same_problem st st' \<and> same_sums st st'
     \<and> (nonneg_plan (nodes_used st) st \<longrightarrow> nonneg_plan (nodes_used st') st' \<and> plan_cost (nodes_used st') st' \<le> plan_cost (nodes_used st) st)"

lemma no_worse_trans: "no_worse st st' \<Longrightarrow> no_worse st' st'' \<Longrightarrow> no_worse st st''"
  using same_sums_trans same_problem_trans unfolding no_worse_def by (meson order_trans)

lemma same_plan_no_worse: "same_plan st st' \<Longrightarrow> emd_ok st \<Longrightarrow> no_worse st st'"
  using same_plan_ok(2-5)[of st st'] unfolding no_worse_def same_plan_def by (metis order_refl)

lemma new_solution_no_worse:
  assumes "emd_ok st" "tight st" "emdIsOptimal st = (d, st')" "d \<noteq> EMD_INF" "d \<le> 0" "emdNewSolution st' = Some (True, st'')"
  shows "emd_ok st''" "no_worse st' st''"
proof -
  let ?e = "enter_x st'"
  have sp: "same_plan st st'" by (rule test_same_plan[OF assms(3)])
  note ok' = same_plan_ok[OF sp assms(1)]
  have r: "ready_to_enter (nodes_used st') st'" using test_ready(1)[OF assms(1,3,4)] ok'(3) by simp
  from emdNewSolution_step[OF r assms(6)] obtain k where k: "k \<in> insert ?e (nodes_used st')" "enter_x st'' = k"
    "basis (insert ?e (nodes_used st') - {k}) st''" "same_problem st' st''" "same_sums st' st''"
    "nonneg_plan (nodes_used st') st' \<Longrightarrow> nonneg_plan (insert ?e (nodes_used st') - {k}) st''"
    "\<And>x. cell_of st'' x = cell_of st' x" "e_u st'' = e_u st'" "e_v st'' = e_v st'" by metis
  have u: "nodes_used st'' = insert ?e (nodes_used st') - {k}"
    using k(1,2,4) ok'(1) by (auto simp: nodes_used_def same_problem_def emd_ok_def)
  have kb: "k < end_x st'" using k(1) ok'(1) by (auto simp: nodes_used_def emd_ok_def)
  show "emd_ok st''" using k(2,3,4,8,9) ok'(1) u kb by (simp add: emd_ok_def same_problem_def)
  have t: "tight st'" by (rule tight_test[OF assms(3,2)])
  have b': "basis (nodes_used st') st'" using ok'(1) by (simp add: emd_ok_def)
  have p: "ssize st'' = ssize st'" "dsize st'' = dsize st'" "cost st'' = cost st'" using k(4) by (simp_all add: same_problem_def)
  have c: "cost st'' ! x_i (e_x st'' ! x) ! x_j (e_x st'' ! x)
      = e_u st' ! x_i (e_x st'' ! x) + e_v st' ! x_j (e_x st'' ! x) + (if x = ?e then d else 0)" if "x \<in> nodes_used st''" for x
  proof (cases "x = ?e")
    case True
    then show ?thesis using k(7)[of x] test_ready(2)[OF assms(1,3,4)] by (simp add: p reduced_def)
  next
    case False
    then have "cell_of st' x \<in> cells st'" using that u basisD(9)[OF b'] by auto
    then show ?thesis using t k(7)[of x] False by (auto simp: tight_def p)
  qed
  have "plan_cost (nodes_used st'') st'' = plan_cost (nodes_used st') st' + (if ?e \<in> nodes_used st'' then d * val_of st'' ?e else 0)"
    using cost_by_potentials[OF k(3)[folded u] c] k(5) tight_cost[OF b' t] by (simp add: p same_sums_def)
  moreover have "?e \<in> nodes_used st'' \<Longrightarrow> nonneg_plan (nodes_used st'') st'' \<Longrightarrow> d * val_of st'' ?e \<le> 0"
    using assms(5) by (auto simp: nonneg_plan_def intro: mult_nonpos_nonneg)
  ultimately show "no_worse st' st''" using k(4,5,6) unfolding no_worse_def u by auto
qed

lemma pivot_no_worse:
  assumes "pivot st st'" "emd_ok st" "0 \<le> max_cost st"
  shows "emd_ok st'" "no_worse st st'"
proof -
  obtain st1 d st2 where p: "emdFindBasicVariables st = Some st1" "emdIsOptimal st1 = (d, st2)" "d \<noteq> EMD_INF"
    "d < - (EMD_EPS * max_cost st2)" "emdNewSolution st2 = Some (True, st')"
    using assms(1) by (auto simp: pivot_def)
  note f = find_same_plan[OF assms(2) p(1)]
  have ok1: "emd_ok st1" by (rule same_plan_ok(1)[OF f(1) assms(2)])
  note s2 = test_same_plan[OF p(2)]
  have "max_cost st2 = max_cost st" using f(1) s2 by (simp add: same_plan_def same_problem_def)
  moreover have "0 \<le> EMD_EPS * max_cost st" using assms(3) by (simp add: EMD_EPS_def)
  ultimately have d: "d \<le> 0" using p(4) by simp
  note n = new_solution_no_worse[OF ok1 f(2) p(2,3) d p(5)]
  show "emd_ok st'" by (rule n(1))
  show "no_worse st st'"
    using no_worse_trans[OF same_plan_no_worse[OF f(1) assms(2)] no_worse_trans[OF same_plan_no_worse[OF s2 ok1] n(2)]] .
qed

section \<open>The loop\<close>

text \<open>How the loop ends with result 0.\<close>

lemma iterate_solution_ends:
  assumes "iterate_solution n st = Some (0, st')" "emd_ok st" "0 \<le> max_cost st"
  shows "emd_ok st' \<and> no_worse st st' \<and> (passes_test st' \<or> emdFindBasicVariables st' = None \<or> (pivot ^^ n) st st')"
  using assms
proof (induction n arbitrary: st)
  case 0
  then show ?case by (auto simp: no_worse_def same_problem_def same_sums_def)
next
  case (Suc n)
  show ?case
  proof (cases "emdFindBasicVariables st")
    case None
    then show ?thesis using Suc.prems by (auto simp: no_worse_def same_problem_def same_sums_def)
  next
    case (Some st1)
    note f = find_same_plan[OF Suc.prems(2) Some]
    have ok1: "emd_ok st1" by (rule same_plan_ok(1)[OF f(1) Suc.prems(2)])
    obtain d st2 where t: "emdIsOptimal st1 = (d, st2)" by fastforce
    note s2 = test_same_plan[OF t]
    have n2: "no_worse st st2"
      by (rule no_worse_trans[OF same_plan_no_worse[OF f(1) Suc.prems(2)] same_plan_no_worse[OF s2 ok1]])
    have d: "d \<noteq> EMD_INF" using Suc.prems(1) Some t by auto
    show ?thesis
    proof (cases "d \<ge> - (EMD_EPS * max_cost st2)")
      case True
      then have e: "st' = st2" using Suc.prems(1) Some t d by simp
      have "passes_test st2"
        using emdIsOptimal_min(1)[OF t] True tight_test[OF t f(2)] cells_same[OF s2] s2 potentials_test[OF t]
        by (fastforce simp: passes_test_def same_plan_def same_problem_def reduced_def)
      then show ?thesis using e n2 same_plan_ok(1)[OF s2 ok1] by simp
    next
      case False
      then obtain st3 where n: "emdNewSolution st2 = Some (True, st3)" "iterate_solution n st3 = Some (0, st')"
        using Suc.prems(1) Some t d by (auto simp: bind_eq_Some_conv split: if_splits)
      then have p: "pivot st st3" using Some t d False by (auto simp: pivot_def)
      note w = pivot_no_worse[OF p Suc.prems(2,3)]
      have "max_cost st3 = max_cost st" using w(2) by (simp add: no_worse_def same_problem_def)
      then have "emd_ok st' \<and> no_worse st3 st' \<and> (passes_test st' \<or> emdFindBasicVariables st' = None \<or> (pivot ^^ n) st3 st')"
        using Suc.IH[OF n(2) w(1)] Suc.prems(3) by simp
      moreover have "(pivot ^^ n) st3 st' \<Longrightarrow> (pivot ^^ Suc n) st st'" by (rule relpowp_Suc_I2[where P = pivot, OF p])
      ultimately show ?thesis using no_worse_trans[OF w(2)] by blast
    qed
  qed
qed

end
