(* ===== verification/NBody_EMDRussel.thy ===== *)
theory NBody_EMDRussel
  imports NBody_EMDIterate
begin

text \<open>
  Russel's method: the updates of the maxima never change anything, and the first plan is a basis with
  one cell less than rows and columns that ships every supply.
\<close>

section \<open>Maxima\<close>

lemma max_from_fold:
  fixes f :: "nat \<Rightarrow> real"
  shows "fold (\<lambda>j mx. if mx < f j then f j else mx) js m0 = fold (\<lambda>j mx. max mx (f j)) js m0"
  by (intro fold_cong) (auto simp: max_def)

lemma fold_max_eq: "fold (\<lambda>j mx. max mx (f j)) js (m0 :: real) = Max (insert m0 (f ` set js))"
proof (induction js arbitrary: m0)
  case (Cons j js)
  have "Max (insert (max m0 (f j)) (f ` set js)) = Max (insert m0 (insert (f j) (f ` set js)))"
    by (cases "set js = {}") (simp_all add: Max_insert max.assoc)
  then show ?case using Cons by simp
qed simp

lemma max_from_eq: "max_from f js = Max (insert (- EMD_INF) (f ` set js))"
  unfolding max_from_def max_from_fold fold_max_eq ..

lemma max_from_ge: "j \<in> set js \<Longrightarrow> f j \<le> max_from f js"
  unfolding max_from_eq by (intro Max_ge) auto

lemma max_from_attained:
  assumes "j \<in> set js" "\<And>k. k \<in> set js \<Longrightarrow> f k \<le> f j" "- EMD_INF \<le> f j"
  shows "max_from f js = f j"
  unfolding max_from_eq using assms by (intro Max_eqI) auto

section \<open>The updates are void\<close>

definition maxima :: "EMDState \<Rightarrow> bool" where
  "maxima st \<longleftrightarrow> length (e_u st) = ssize st \<and> length (e_v st) = dsize st
     \<and> (\<forall>i < ssize st. \<forall>j < dsize st. 0 \<le> cost st ! i ! j \<and> cost st ! i ! j \<le> e_u st ! i \<and> cost st ! i ! j \<le> e_v st ! j)"

lemma fold_id: "(\<And>x. x \<in> set xs \<Longrightarrow> f x z = z) \<Longrightarrow> fold f xs z = z"
  by (induction xs) auto

lemma set_cell_same: "set_cell i j (m ! i ! j) m = m"
  by (simp add: set_cell_def)

lemma fold_add_zero: "fold (\<lambda>i m. set_cell i j (m ! i ! j + (0::real)) m) us z = z" "fold (\<lambda>j m. set_cell i j (m ! i ! j + (0::real)) m) vs z = z"
  by (rule fold_id, simp add: set_cell_same)+

lemma same_fields: "st\<lparr>e_v := (e_v st)[j := e_v st ! j]\<rparr> = st" "st\<lparr>e_u := (e_u st)[j := e_u st ! j]\<rparr> = st"
  "st\<lparr>e_delta := e_delta st\<rparr> = st" for st :: EMDState
  by simp_all

lemma update_columns_void:
  assumes "maxima st" "min_i \<in> set us" "set us \<subseteq> {..<ssize st}" "set vs \<subseteq> {..<dsize st}"
  shows "update_columns min_i us vs st = st"
  unfolding update_columns_def
proof (rule fold_id)
  fix j assume j: "j \<in> set vs"
  show "(if e_v st ! j = cost st ! min_i ! j
       then let max_val = max_from (\<lambda>i. cost st ! i ! j) us; diff = max_val - e_v st ! j; st = st\<lparr>e_v := (e_v st)[j := max_val]\<rparr>
            in if \<bar>diff\<bar> < EMD_EPS * max_cost st
               then st\<lparr>e_delta := fold (\<lambda>i m. set_cell i j (m ! i ! j + diff) m) us (e_delta st)\<rparr> else st
       else st) = st"
  proof (cases "e_v st ! j = cost st ! min_i ! j")
    case True
    have "j < dsize st" "min_i < ssize st" using j assms(2,3,4) by auto
    then have "- EMD_INF \<le> cost st ! min_i ! j" using assms(1) by (auto simp: maxima_def EMD_INF_def intro: order_trans[of _ 0])
    moreover have "cost st ! k ! j \<le> cost st ! min_i ! j" if "k \<in> set us" for k
      using that assms(1,3) \<open>j < dsize st\<close> unfolding True[symmetric] by (auto simp: maxima_def)
    ultimately have "max_from (\<lambda>i. cost st ! i ! j) us = e_v st ! j"
      unfolding True using assms(2) by (intro max_from_attained)
    then show ?thesis by (simp only: Let_def same_fields diff_self fold_add_zero if_cancel)
  qed simp
qed

lemma update_rows_void:
  assumes "maxima st" "min_j \<in> set vs" "set us \<subseteq> {..<ssize st}" "set vs \<subseteq> {..<dsize st}"
  shows "update_rows min_j us vs st = st"
  unfolding update_rows_def
proof (rule fold_id)
  fix i assume i: "i \<in> set us"
  show "(if e_u st ! i = cost st ! i ! min_j
       then let max_val = max_from (\<lambda>j. cost st ! i ! j) vs; diff = max_val - e_u st ! i; st = st\<lparr>e_u := (e_u st)[i := max_val]\<rparr>
            in if \<bar>diff\<bar> < EMD_EPS * max_cost st
               then st\<lparr>e_delta := fold (\<lambda>j m. set_cell i j (m ! i ! j + diff) m) vs (e_delta st)\<rparr> else st
       else st) = st"
  proof (cases "e_u st ! i = cost st ! i ! min_j")
    case True
    have "i < ssize st" "min_j < dsize st" using i assms(2,3,4) by auto
    then have "- EMD_INF \<le> cost st ! i ! min_j" using assms(1) by (auto simp: maxima_def EMD_INF_def intro: order_trans[of _ 0])
    moreover have "cost st ! i ! k \<le> cost st ! i ! min_j" if "k \<in> set vs" for k
      using that assms(1,4) \<open>i < ssize st\<close> unfolding True[symmetric] by (auto simp: maxima_def)
    ultimately have "max_from (\<lambda>j. cost st ! i ! j) vs = e_u st ! i"
      unfolding True using assms(2) by (intro max_from_attained)
    then show ?thesis by (simp only: Let_def same_fields diff_self fold_add_zero if_cancel)
  qed simp
qed

section \<open>One cell more\<close>

lemma add_fields:
  assumes "emdAddBasicVariable i j (st, us, vs) = (st', us', vs')"
  defines "temp \<equiv> (if e_s st ! i < e_d st ! j + e_weight st * EMD_EPS then e_s st ! i else e_d st ! j)"
  shows "e_s st' = (e_s st)[i := e_s st ! i - temp]" "e_d st' = (e_d st)[j := e_d st ! j - temp]"
    "is_x st' = set_cell i j True (is_x st)" "e_x st' = (e_x st)[end_x st := \<lparr>x_val = temp, x_i = i, x_j = j\<rparr>]"
    "rows_x st' = (rows_x st)[i := end_x st # rows_x st ! i]" "cols_x st' = (cols_x st)[j := end_x st # cols_x st ! j]"
    "end_x st' = Suc (end_x st)" "ssize st' = ssize st" "dsize st' = dsize st" "cost st' = cost st" "e_weight st' = e_weight st"
    "max_cost st' = max_cost st" "e_u st' = e_u st" "e_v st' = e_v st" "e_delta st' = e_delta st"
    "idx1 st' = idx1 st" "idx2 st' = idx2 st"
    "(us', vs') = (if e_s st' ! i = 0 \<and> length us > 1 then (remove1 i us, vs) else (us, remove1 j vs))"
  using assms(1) unfolding temp_def emdAddBasicVariable_def Let_def
  by (auto split: if_splits simp: list_update_id)

lemma add_basis:
  assumes "emdAddBasicVariable i j (st, us, vs) = (st', us', vs')" "basis {..<end_x st} st" "end_x st < length (e_x st)"
    and "i < ssize st" "j < dsize st" "(i, j) \<notin> cells st"
  defines "temp \<equiv> (if e_s st ! i < e_d st ! j + e_weight st * EMD_EPS then e_s st ! i else e_d st ! j)"
  shows "basis {..<end_x st'} st'" "cells st' = insert (i, j) (cells st)"
    "\<And>i'. i' < ssize st \<Longrightarrow> row_sum st' i' = row_sum st i' + (if i' = i then temp else 0)"
    "\<And>j'. j' < dsize st \<Longrightarrow> col_sum st' j' = col_sum st j' + (if j' = j then temp else 0)"
proof -
  note f = add_fields[OF assms(1), folded temp_def]
  define k where "k = end_x st"
  define sta where "sta = st\<lparr>e_x := (e_x st)[k := \<lparr>x_val = temp, x_i = i, x_j = j\<rparr>], enter_x := k\<rparr>"
  note bd = basisD[OF assms(2)]
  have b: "basis {..<k} sta"
    by (rule basis_frame[OF assms(2)[folded k_def]]) (auto simp: sta_def)
  have c: "cells sta = cells st" by (simp add: cells_def sta_def)
  have r: "ready_to_enter {..<k} sta"
    using b assms(3-6) unfolding ready_to_enter_def c by (simp add: sta_def k_def)
  note e = enter_node_basis(1)[OF r]
  have eq: "rows_x (enter_node sta) = rows_x st'" "cols_x (enter_node sta) = cols_x st'" "is_x (enter_node sta) = is_x st'"
    using assms(3) by (simp_all add: enter_node_def sta_def Let_def f k_def)
  have c2: "cell_of (enter_node sta) x = cell_of st' x" for x
    using assms(3) by (simp add: enter_node_def sta_def Let_def f k_def)
  have "enter_x sta = k" by (simp add: sta_def)
  with e have b0: "basis (insert k {..<k}) (enter_node sta)" by simp
  have sz: "ssize st' = ssize (enter_node sta)" "dsize st' = dsize (enter_node sta)" "length (e_x st') = length (e_x (enter_node sta))"
    by (simp_all add: enter_node_fields) (simp_all add: sta_def f)
  have "basis (insert k {..<k}) st'"
    by (rule basis_frame[OF b0 sz(1,2) eq[symmetric] sz(3) c2[symmetric]])
  then show "basis {..<end_x st'} st'" by (simp add: f(7) k_def lessThan_Suc)
  have "cells st' = cells (st\<lparr>is_x := set_cell i j True (is_x st)\<rparr>)" by (simp add: cells_def f)
  then show "cells st' = insert (i, j) (cells st)"
    using cells_set[of st i j True] bd assms(4,5) by simp
  have nk: "k \<notin> set (rows_x st ! i')" if "i' < ssize st" for i' using bd(5)[OF that] by (auto simp: k_def)
  have nk': "k \<notin> set (cols_x st ! j')" if "j' < dsize st" for j' using bd(7)[OF that] by (auto simp: k_def)
  show "row_sum st' i' = row_sum st i' + (if i' = i then temp else 0)" if "i' < ssize st" for i'
    using nk[OF that] bd(10) assms(3,4) that
    by (auto simp: row_sum_def f nth_list_update k_def intro!: arg_cong[where f = sum_list] map_cong)
  show "col_sum st' j' = col_sum st j' + (if j' = j then temp else 0)" if "j' < dsize st" for j'
    using nk'[OF that] bd(11) assms(3,5) that
    by (auto simp: col_sum_def f nth_list_update k_def intro!: arg_cong[where f = sum_list] map_cong)
qed

section \<open>The invariant of Russel's method\<close>

definition shipping :: "EMDState \<Rightarrow> nat list \<Rightarrow> nat list \<Rightarrow> bool" where
  "shipping st us vs \<longleftrightarrow> (\<forall>i\<in>set us. 0 < e_s st ! i) \<and> (\<forall>j < dsize st. j \<notin> set vs \<longrightarrow> e_d st ! j = 0)
     \<and> (vs = [] \<longrightarrow> (\<exists>i\<in>set us. e_weight st * EMD_EPS \<le> e_s st ! i))"

definition shipped :: "EMDState \<Rightarrow> nat list \<Rightarrow> bool" where
  "shipped st us \<longleftrightarrow> length us = 1 \<and> (\<forall>i\<in>set us. e_s st ! i = 0)"

definition russel_inv :: "real list \<Rightarrow> real list \<Rightarrow> EMDState \<Rightarrow> nat list \<Rightarrow> nat list \<Rightarrow> bool" where
  "russel_inv s d st us vs \<longleftrightarrow> maxima st \<and> (\<forall>i < ssize st. \<forall>j < dsize st. e_delta st ! i ! j < EMD_INF)
     \<and> distinct us \<and> set us \<subseteq> {..<ssize st} \<and> us \<noteq> [] \<and> distinct vs \<and> set vs \<subseteq> {..<dsize st}
     \<and> end_x st + length us + length vs = ssize st + dsize st \<and> length (e_x st) = ssize st + dsize st
     \<and> basis {..<end_x st} st \<and> (\<forall>(i, j)\<in>cells st. i \<notin> set us \<or> j \<notin> set vs)
     \<and> length (e_s st) = ssize st \<and> length (e_d st) = dsize st
     \<and> (\<forall>i < ssize st. row_sum st i + e_s st ! i = s ! i) \<and> (\<forall>j < dsize st. col_sum st j + e_d st ! j = d ! j)
     \<and> 0 < e_weight st \<and> (\<forall>j < dsize st. - (e_weight st * EMD_EPS) < e_d st ! j)
     \<and> (\<forall>i < ssize st. i \<notin> set us \<longrightarrow> e_s st ! i = 0) \<and> (shipping st us vs \<or> shipped st us)"

lemma russel_invD:
  assumes "russel_inv s d st us vs"
  shows "maxima st" "\<And>i j. i < ssize st \<Longrightarrow> j < dsize st \<Longrightarrow> e_delta st ! i ! j < EMD_INF"
    "distinct us" "set us \<subseteq> {..<ssize st}" "us \<noteq> []" "distinct vs" "set vs \<subseteq> {..<dsize st}"
    "end_x st + length us + length vs = ssize st + dsize st" "length (e_x st) = ssize st + dsize st"
    "basis {..<end_x st} st" "\<And>i j. (i, j) \<in> cells st \<Longrightarrow> i \<notin> set us \<or> j \<notin> set vs"
    "length (e_s st) = ssize st" "length (e_d st) = dsize st"
    "\<And>i. i < ssize st \<Longrightarrow> row_sum st i + e_s st ! i = s ! i" "\<And>j. j < dsize st \<Longrightarrow> col_sum st j + e_d st ! j = d ! j"
    "0 < e_weight st" "\<And>j. j < dsize st \<Longrightarrow> - (e_weight st * EMD_EPS) < e_d st ! j"
    "\<And>i. i < ssize st \<Longrightarrow> i \<notin> set us \<Longrightarrow> e_s st ! i = 0" "shipping st us vs \<or> shipped st us"
  using assms unfolding russel_inv_def by blast+

text \<open>The step on supplies and demands.\<close>

lemma add_amounts:
  assumes "emdAddBasicVariable i j (st, us, vs) = (st', us', vs')" "russel_inv s d st us vs" "i \<in> set us" "j \<in> set vs"
  shows "\<forall>j < dsize st. - (e_weight st * EMD_EPS) < e_d st' ! j"
    "\<forall>i < ssize st. i \<notin> set us' \<longrightarrow> e_s st' ! i = 0" "shipping st' us' vs' \<or> shipped st' us'"
    "us' \<noteq> []" "distinct us'" "distinct vs'" "set us' \<subseteq> set us" "set vs' \<subseteq> set vs"
    "Suc (length us' + length vs') = length us + length vs" "i \<notin> set us' \<or> j \<notin> set vs'"
proof -
  note f = add_fields[OF assms(1)]
  note a = assms(2)[unfolded russel_inv_def]
  let ?tol = "e_weight st * EMD_EPS"
  have tol: "0 < ?tol" using a by (simp add: EMD_EPS_def)
  have ij: "i < ssize st" "j < dsize st" "i < length (e_s st)" "j < length (e_d st)" using a assms(3,4) by auto
  show lists: "us' \<noteq> []" "distinct us'" "distinct vs'" "set us' \<subseteq> set us" "set vs' \<subseteq> set vs"
    "Suc (length us' + length vs') = length us + length vs" "i \<notin> set us' \<or> j \<notin> set vs'"
    using f(18) a assms(3,4) length_pos_if_in_set[OF assms(3)] length_pos_if_in_set[OF assms(4)]
    by (auto simp: length_remove1 distinct_remove1 set_remove1_eq split: if_splits dest: arg_cong[where f = length])
  have s': "e_s st' ! i' = (if i' = i then (if e_s st ! i < e_d st ! j + ?tol then 0 else e_s st ! i - e_d st ! j) else e_s st ! i')" for i'
    using ij by (auto simp: f nth_list_update)
  have d': "e_d st' ! j' = (if j' = j \<and> \<not> e_s st ! i < e_d st ! j + ?tol then 0 else if j' = j then e_d st ! j - e_s st ! i else e_d st ! j')" for j'
    using ij by (auto simp: f nth_list_update)
  have dj: "- ?tol < e_d st ! j'" if "j' < dsize st" for j' using a that by simp
  then show "\<forall>j < dsize st. - ?tol < e_d st' ! j" using tol by (auto simp: d')
  have zero: "e_s st' ! i = 0 \<longleftrightarrow> e_s st ! i < e_d st ! j + ?tol" using tol s'[of i] by auto
  show "\<forall>i < ssize st. i \<notin> set us' \<longrightarrow> e_s st' ! i = 0"
  proof (intro allI impI)
    fix i' assume i': "i' < ssize st" "i' \<notin> set us'"
    show "e_s st' ! i' = 0"
    proof (cases "i' = i")
      case True
      then show ?thesis using f(18) assms(3) i' by (auto split: if_splits)
    next
      case False
      then have "i' \<notin> set us" using f(18) i' by (auto split: if_splits simp: in_set_remove1)
      then show ?thesis using a i' False by (simp add: f)
    qed
  qed
  show "shipping st' us' vs' \<or> shipped st' us'"
  proof (cases "shipped st us")
    case True
    then have us: "us = [i]" "e_s st ! i = 0" using assms(3) by (auto simp: shipped_def length_Suc_conv)
    then have "e_s st ! i < e_d st ! j + ?tol" using dj[OF ij(2)] by linarith
    then have "e_s st' ! i = 0" using zero by simp
    then show ?thesis using f(18) us by (auto simp: shipped_def)
  next
    case False
    then have sh: "shipping st us vs" using a by simp
    show ?thesis
    proof (cases "e_s st' ! i = 0")
      case z: True
      show ?thesis
      proof (cases "length us > 1")
        case True
        then have "us' = remove1 i us" "vs' = vs" using f(18) z by auto
        then have "shipping st' us' vs'" using sh a assms(4) s' d' by (auto simp: shipping_def set_remove1_eq f)
        then show ?thesis ..
      next
        case False
        then have "us = [i]" using assms(3) by (cases us) auto
        then show ?thesis using f(18) z by (auto simp: shipped_def)
      qed
    next
      case nz: False
      then have e: "us' = us" "vs' = remove1 j vs" using f(18) by auto
      have n: "\<not> e_s st ! i < e_d st ! j + ?tol" using nz zero by simp
      then have "?tol \<le> e_s st' ! i" using s'[of i] by simp
      then have "shipping st' us' vs'"
        using sh a assms(3) n s' d' tol ij unfolding e by (auto simp: shipping_def set_remove1_eq f)
      then show ?thesis ..
    qed
  qed
qed

section \<open>The loop\<close>

lemma min_delta_cell_some:
  assumes "us \<noteq> []" "vs \<noteq> []" "\<And>i j. i \<in> set us \<Longrightarrow> j \<in> set vs \<Longrightarrow> e_delta st ! i ! j < EMD_INF"
  obtains e i j where "min_delta_cell st us vs = (e, Some (i, j))" "i \<in> set us" "j \<in> set vs"
proof -
  let ?f = "\<lambda>(i, j). e_delta st ! i ! j"
  have one: "(\<lambda>(i, j). scan_cell st i j) = (\<lambda>x (d, c). if d > ?f x then (?f x, Some x) else (d, c))"
    by (intro ext) (auto simp: scan_cell_def split: prod.splits)
  obtain e c where m: "min_delta_cell st us vs = (e, c)" by fastforce
  have "fold (\<lambda>x (d, c). if d > ?f x then (?f x, Some x) else (d, c)) (List.product us vs) (EMD_INF, None) = (e, c)"
    using m unfolding min_delta_cell_def fold_product one .
  note f = fold_first_min[OF this]
  have "(hd us, hd vs) \<in> set (List.product us vs)" using assms(1,2) by simp
  then have "e < EMD_INF" using f assms(3)[of "hd us" "hd vs"] assms(1,2) by fastforce
  then obtain x where "c = Some x" using f by auto
  then show ?thesis using that[of e "fst x" "snd x"] m min_delta_cell_in[of st us vs e "fst x" "snd x"] by simp
qed

definition russel_frame :: "EMDState \<Rightarrow> EMDState \<Rightarrow> bool" where
  "russel_frame st st' \<longleftrightarrow> ssize st' = ssize st \<and> dsize st' = dsize st \<and> cost st' = cost st \<and> max_cost st' = max_cost st
     \<and> idx1 st' = idx1 st \<and> idx2 st' = idx2 st \<and> e_weight st' = e_weight st"

text \<open>The maxima and the differences stay what they were at the start.\<close>

definition same_deltas :: "EMDState \<Rightarrow> EMDState \<Rightarrow> bool" where
  "same_deltas st st' \<longleftrightarrow> e_u st' = e_u st \<and> e_v st' = e_v st \<and> e_delta st' = e_delta st"

lemma russel_round_inv:
  assumes "russel_inv s d st us vs" "vs \<noteq> []"
  obtains st' us' vs' where "russel_round (st, us, vs) = Some (st', us', vs')" "russel_inv s d st' us' vs'"
    "Suc (length us' + length vs') = length us + length vs" "russel_frame st st'" "same_deltas st st'"
    "\<exists>i j. (\<exists>e. min_delta_cell st us vs = (e, Some (i, j))) \<and> emdAddBasicVariable i j (st, us, vs) = (st', us', vs')"
proof -
  note a = russel_invD[OF assms(1)]
  note mx = a(1,5,4,7)
  have "e_delta st ! i ! j < EMD_INF" if "i \<in> set us" "j \<in> set vs" for i j using a(2,4,7) that by blast
  from min_delta_cell_some[OF mx(2) assms(2) this] obtain e i j where c: "min_delta_cell st us vs = (e, Some (i, j))"
    and ij: "i \<in> set us" "j \<in> set vs" by blast
  obtain st' us' vs' where ad: "emdAddBasicVariable i j (st, us, vs) = (st', us', vs')" using prod_cases3 by blast
  note f = add_fields[OF ad] and am = add_amounts[OF ad assms(1) ij]
  have b: "basis {..<end_x st} st" "end_x st < length (e_x st)" "i < ssize st" "j < dsize st" "(i, j) \<notin> cells st"
    using a(4,7,8,9,10,11) ij am(9) by auto
  note ab = add_basis[OF ad b]
  have mx': "maxima st'" using mx(1) by (simp add: maxima_def f)
  have sub: "set us' \<subseteq> {..<ssize st'}" "set vs' \<subseteq> {..<dsize st'}" using am(7,8) mx(3,4) f by auto
  have r: "russel_round (st, us, vs) = Some (st', us', vs')"
  proof (cases "i \<in> set us'")
    case True
    then show ?thesis using update_columns_void[OF mx' True sub] by (simp add: russel_round_def c ad)
  next
    case False
    then have "us' = remove1 i us" "vs' = vs" using f(18) ij(1) by (auto split: if_splits)
    then have "j \<in> set vs'" using ij by simp
    then show ?thesis using update_rows_void[OF mx' _ sub] False by (simp add: russel_round_def c ad)
  qed
  note lens = a(12,13)
  have rs: "row_sum st' i' + e_s st' ! i' = s ! i'" if "i' < ssize st" for i'
  proof -
    have "row_sum st i' + e_s st ! i' = s ! i'" by (rule a(14)[OF that])
    then show ?thesis using ab(3)[OF that] that lens by (cases "i' = i") (simp_all add: f)
  qed
  have cs: "col_sum st' j' + e_d st' ! j' = d ! j'" if "j' < dsize st" for j'
  proof -
    have "col_sum st j' + e_d st ! j' = d ! j'" by (rule a(15)[OF that])
    then show ?thesis using ab(4)[OF that] that lens by (cases "j' = j") (simp_all add: f)
  qed
  have cl: "\<forall>(i, j)\<in>cells st'. i \<notin> set us' \<or> j \<notin> set vs'" using a(11) am(7,8,10) unfolding ab(2) by blast
  have dl: "\<forall>i < ssize st'. \<forall>j < dsize st'. e_delta st' ! i ! j < EMD_INF" using a(2) by (simp add: f)
  have num: "end_x st' + length us' + length vs' = ssize st' + dsize st'" "length (e_x st') = ssize st' + dsize st'"
    "0 < e_weight st'" using am(9) a(8,9,16) by (simp_all add: f)
  have "russel_inv s d st' us' vs'"
    unfolding russel_inv_def using mx' dl am(4,5,6) sub num ab(1) cl lens rs cs am(1,2,3)
    by (intro conjI) (simp_all add: f(1,2,8,9,11))
  moreover have "russel_frame st st'" "same_deltas st st'" by (simp_all add: russel_frame_def same_deltas_def f)
  ultimately show ?thesis using that[OF r] am(9) c ad by blast
qed

lemma russel_frame_trans: "russel_frame st st' \<Longrightarrow> russel_frame st' st'' \<Longrightarrow> russel_frame st st''"
  by (simp add: russel_frame_def)

lemma min_delta_cell_Nil: "min_delta_cell st us [] = (EMD_INF, None)"
proof -
  have "fold (\<lambda>i. fold (scan_cell st i) []) us z = z" for z by (induction us arbitrary: z) simp_all
  then show ?thesis unfolding min_delta_cell_def .
qed

lemma russel_loop_inv:
  "russel_inv s d st us vs \<Longrightarrow> \<exists>us'. russel_inv s d (russel_loop (st, us, vs)) us' [] \<and> russel_frame st (russel_loop (st, us, vs))
    \<and> same_deltas st (russel_loop (st, us, vs))"
proof (induction "length us + length vs" arbitrary: st us vs)
  case 0
  then show ?case by (simp add: russel_inv_def)
next
  case (Suc n)
  show ?case
  proof (cases "vs = []")
    case True
    then have "russel_loop (st, us, vs) = st" by (simp add: russel_loop.simps russel_round_def min_delta_cell_Nil)
    then show ?thesis using Suc.prems True by (auto simp: russel_frame_def same_deltas_def)
  next
    case False
    from russel_round_inv[OF Suc.prems False] obtain st' us' vs' where r: "russel_round (st, us, vs) = Some (st', us', vs')"
      "russel_inv s d st' us' vs'" "Suc (length us' + length vs') = length us + length vs" "russel_frame st st'" "same_deltas st st'" by metis
    have "us' \<noteq> []" using r(2) by (simp add: russel_inv_def)
    then have l: "russel_loop (st, us, vs) = russel_loop (st', us', vs')" using r(1) by (subst russel_loop.simps) simp
    have "n = length us' + length vs'" using r(3) Suc.hyps(2) by simp
    from Suc.hyps(1)[OF this r(2)] show ?thesis unfolding l using russel_frame_trans[OF r(4)] r(5) unfolding same_deltas_def by metis
  qed
qed

section \<open>What the first plan ships\<close>

lemma total_flow: "basis A st \<Longrightarrow> (\<Sum>i < ssize st. row_sum st i) = (\<Sum>j < dsize st. col_sum st j)"
  using sum_by_row(1)[of A st "\<lambda>_. 1"] sum_by_row(2)[of A st "\<lambda>_. 1"] by simp

lemma russel_final:
  assumes "russel_inv s d st us []" "(\<Sum>i < ssize st. s ! i) - (\<Sum>j < dsize st. d ! j) < e_weight st * EMD_EPS"
  shows "end_x st = ssize st + dsize st - 1" "\<And>i. i < ssize st \<Longrightarrow> row_sum st i = s ! i"
    "\<And>j. j < dsize st \<Longrightarrow> col_sum st j < d ! j + e_weight st * EMD_EPS"
    "(\<Sum>j < dsize st. col_sum st j) = (\<Sum>i < ssize st. s ! i)" "0 < ssize st" "0 < dsize st \<or> ssize st = 1"
proof -
  note a = russel_invD[OF assms(1)]
  note t = total_flow[OF a(10)]
  have "(\<Sum>i < ssize st. s ! i) = (\<Sum>i < ssize st. row_sum st i + e_s st ! i)" using a(14) by (intro sum.cong) auto
  moreover have "(\<Sum>j < dsize st. d ! j) = (\<Sum>j < dsize st. col_sum st j + e_d st ! j)" using a(15) by (intro sum.cong) auto
  ultimately have diff: "(\<Sum>i < ssize st. s ! i) - (\<Sum>j < dsize st. d ! j) = (\<Sum>i < ssize st. e_s st ! i) - (\<Sum>j < dsize st. e_d st ! j)"
    using t by (simp add: sum.distrib)
  note us = a(4,18)
  have "\<not> shipping st us []"
  proof
    assume s: "shipping st us []"
    then obtain i where i: "i \<in> set us" "e_weight st * EMD_EPS \<le> e_s st ! i" by (auto simp: shipping_def)
    have "0 \<le> e_s st ! k" if "k < ssize st" for k using s us(2)[OF that] by (cases "k \<in> set us") (auto simp: shipping_def)
    then have "e_s st ! i \<le> (\<Sum>i < ssize st. e_s st ! i)" using i(1) us(1) by (intro member_le_sum) auto
    moreover have "(\<Sum>j < dsize st. e_d st ! j) = 0" using s by (simp add: shipping_def)
    ultimately show False using i(2) diff assms(2) by linarith
  qed
  then have sh: "shipped st us" using a(19) by blast
  then have z: "e_s st ! i = 0" if "i < ssize st" for i using us(2)[OF that] by (cases "i \<in> set us") (auto simp: shipped_def)
  show r: "row_sum st i = s ! i" if "i < ssize st" for i
  proof -
    show ?thesis using a(14)[OF that] z[OF that] by simp
  qed
  show "col_sum st j < d ! j + e_weight st * EMD_EPS" if "j < dsize st" for j
    using a(15,17)[OF that] by linarith
  show "(\<Sum>j < dsize st. col_sum st j) = (\<Sum>i < ssize st. s ! i)" using t r by simp
  show e: "end_x st = ssize st + dsize st - 1" using sh a(8) by (simp add: shipped_def)
  obtain i where "us = [i]" using sh by (auto simp: shipped_def length_Suc_conv)
  then show "0 < ssize st" using us(1) by auto
  show "0 < dsize st \<or> ssize st = 1" using a(10) e \<open>0 < ssize st\<close> basisD(3)[of "{..<end_x st}" st 0] by (cases "ssize st = 1") auto
qed

end
