(* ===== verification/NBody_EMDMain.thy ===== *)
theory NBody_EMDMain
  imports NBody_EMDRussel
begin

text \<open>
  The earth mover's distance as a whole: what the signatures become, the first plan of \<open>emdInitEMD\<close>,
  and the plan that \<open>emdIterateSolution\<close> leaves.
\<close>

section \<open>Signatures\<close>

definition weights_of :: "WeightPos list \<Rightarrow> real list" where
  "weights_of ws = map w_weight (filter (\<lambda>w. w_weight w > 0) ws)"

definition balanced :: "WeightPos list \<Rightarrow> WeightPos list \<Rightarrow> bool" where
  "balanced s1 s2 \<longleftrightarrow> \<bar>sum_list (weights_of s1) - sum_list (weights_of s2)\<bar> < EMD_EPS * sum_list (weights_of s1)"

text \<open>The lighter signature gets one more entry for what is missing.\<close>

definition supplies :: "WeightPos list \<Rightarrow> WeightPos list \<Rightarrow> real list" where
  "supplies s1 s2 = (let diff = sum_list (weights_of s1) - sum_list (weights_of s2)
     in if \<not> balanced s1 s2 \<and> diff < 0 then weights_of s1 @ [- diff] else weights_of s1)"

definition demands :: "WeightPos list \<Rightarrow> WeightPos list \<Rightarrow> real list" where
  "demands s1 s2 = (let diff = sum_list (weights_of s1) - sum_list (weights_of s2)
     in if \<not> balanced s1 s2 \<and> \<not> diff < 0 then weights_of s2 @ [diff] else weights_of s2)"

lemma collect_weights_Some:
  "collect_weights i ws = Some (s, ids) \<Longrightarrow> s = weights_of ws \<and> length ids = length s"
  by (induction i ws arbitrary: s ids rule: collect_weights.induct) (auto simp: weights_of_def split: if_splits)

lemma weights_of_pos: "x \<in> set (weights_of ws) \<Longrightarrow> 0 < x"
  by (auto simp: weights_of_def)

lemma sum_list_pos: "xs \<noteq> [] \<Longrightarrow> (\<And>x. x \<in> set xs \<Longrightarrow> 0 < x) \<Longrightarrow> 0 < sum_list (xs :: real list)"
proof (induction xs)
  case (Cons x xs)
  then show ?case by (cases "xs = []") (auto intro: add_pos_pos)
qed simp

lemma weights_of_sum: "weights_of ws \<noteq> [] \<Longrightarrow> 0 < sum_list (weights_of ws)"
  by (rule sum_list_pos) (auto simp: weights_of_def)

lemma sum_list_atLeast: "(\<Sum>i < length xs. xs ! i) = sum_list (xs :: real list)"
  by (simp add: sum_list_sum_nth atLeast0LessThan)

text \<open>Supplies and demands are positive, and the supplies exceed the demands by less than the tolerance.\<close>

lemma supplies_demands:
  assumes "weights_of s1 \<noteq> []" "weights_of s2 \<noteq> []"
  defines "w \<equiv> max (sum_list (weights_of s1)) (sum_list (weights_of s2))"
  shows "supplies s1 s2 \<noteq> []" "demands s1 s2 \<noteq> []" "x \<in> set (supplies s1 s2) \<Longrightarrow> 0 < x" "x \<in> set (demands s1 s2) \<Longrightarrow> 0 < x"
    "0 < w" "sum_list (supplies s1 s2) - sum_list (demands s1 s2) < w * EMD_EPS"
proof -
  have pos: "0 < sum_list (weights_of s1)" "0 < sum_list (weights_of s2)" using weights_of_sum assms by auto
  have eps: "0 < EMD_EPS" by (simp add: EMD_EPS_def)
  show "supplies s1 s2 \<noteq> []" "demands s1 s2 \<noteq> []" using assms by (auto simp: supplies_def demands_def Let_def)
  have eq: "sum_list (weights_of s1) = sum_list (weights_of s2) \<Longrightarrow> balanced s1 s2"
    using pos eps by (simp add: balanced_def)
  show "x \<in> set (supplies s1 s2) \<Longrightarrow> 0 < x" "x \<in> set (demands s1 s2) \<Longrightarrow> 0 < x"
    using weights_of_pos eq by (fastforce simp: supplies_def demands_def Let_def split: if_splits)+
  show w: "0 < w" using pos by (simp add: w_def)
  show "sum_list (supplies s1 s2) - sum_list (demands s1 s2) < w * EMD_EPS"
  proof (cases "balanced s1 s2")
    case True
    then have "sum_list (weights_of s1) - sum_list (weights_of s2) < EMD_EPS * sum_list (weights_of s1)" by (simp add: balanced_def abs_less_iff)
    also have "\<dots> \<le> w * EMD_EPS" using eps by (simp add: w_def mult.commute)
    finally show ?thesis using True by (simp add: supplies_def demands_def)
  next
    case False
    then have "sum_list (supplies s1 s2) = sum_list (demands s1 s2)" by (simp add: supplies_def demands_def Let_def)
    then show ?thesis using w eps by simp
  qed
qed

section \<open>The first plan\<close>

lemma emdRussel_inv:
  assumes "end_x st = 0" "length (e_x st) = ssize st + dsize st" "is_x st = replicate (ssize st) (replicate (dsize st) False)"
    "rows_x st = replicate (ssize st) []" "cols_x st = replicate (dsize st) []" "length (e_s st) = ssize st" "length (e_d st) = dsize st"
    "0 < ssize st" "0 < dsize st" "\<And>x. x \<in> set (e_s st) \<Longrightarrow> 0 < x" "\<And>x. x \<in> set (e_d st) \<Longrightarrow> 0 < x"
    "\<And>i j. i < ssize st \<Longrightarrow> j < dsize st \<Longrightarrow> 0 \<le> cost st ! i ! j" "0 < e_weight st"
  shows "\<exists>us. russel_inv (e_s st) (e_d st) (emdRussel st) us [] \<and> russel_frame st (emdRussel st)"
    "e_u (emdRussel st) = map (\<lambda>i. max_from (\<lambda>j. cost st ! i ! j) [0..<dsize st]) [0..<ssize st]"
    "e_v (emdRussel st) = map (\<lambda>j. max_from (\<lambda>i. cost st ! i ! j) [0..<ssize st]) [0..<dsize st]"
    "i < ssize st \<Longrightarrow> j < dsize st \<Longrightarrow>
      e_delta (emdRussel st) ! i ! j = cost st ! i ! j - e_u (emdRussel st) ! i - e_v (emdRussel st) ! j"
proof -
  define st1 where "st1 = st\<lparr>e_v := map (\<lambda>j. max_from (\<lambda>i. cost st ! i ! j) [0..<ssize st]) [0..<dsize st],
                  e_u := map (\<lambda>i. max_from (\<lambda>j. cost st ! i ! j) [0..<dsize st]) [0..<ssize st]\<rparr>"
  define st2 where "st2 = st1\<lparr>e_delta := map (\<lambda>i. map (\<lambda>j. cost st1 ! i ! j - e_u st1 ! i - e_v st1 ! j) [0..<dsize st]) [0..<ssize st]\<rparr>"
  have r: "emdRussel st = russel_loop (st2, [0..<ssize st], [0..<dsize st])"
    by (simp add: emdRussel_def Let_def st1_def st2_def)
  have f: "ssize st2 = ssize st" "dsize st2 = dsize st" "cost st2 = cost st" "end_x st2 = 0" "e_x st2 = e_x st" "is_x st2 = is_x st"
    "rows_x st2 = rows_x st" "cols_x st2 = cols_x st" "e_s st2 = e_s st" "e_d st2 = e_d st" "e_weight st2 = e_weight st"
    by (simp_all add: st1_def st2_def assms(1))
  have uv: "cost st ! i ! j \<le> e_u st2 ! i \<and> cost st ! i ! j \<le> e_v st2 ! j" if "i < ssize st" "j < dsize st" for i j
    using that max_from_ge[of j "[0..<dsize st]" "\<lambda>j. cost st ! i ! j"] max_from_ge[of i "[0..<ssize st]" "\<lambda>i. cost st ! i ! j"]
    by (simp add: st1_def st2_def)
  have mx: "maxima st2" using uv assms(12) by (simp add: maxima_def f) (simp add: st1_def st2_def)
  have "e_delta st2 ! i ! j < EMD_INF" if "i < ssize st" "j < dsize st" for i j
  proof -
    have "e_delta st2 ! i ! j = cost st ! i ! j - e_u st2 ! i - e_v st2 ! j" using that by (simp add: st1_def st2_def)
    also have "\<dots> \<le> 0" using uv[OF that] assms(12)[OF that] by linarith
    finally show ?thesis by (simp add: EMD_INF_def)
  qed
  moreover have c: "cells st2 = {}" using assms(3) by (auto simp: cells_def f)
  moreover have "basis {} st2" using assms(3-5) c by (simp add: basis_def f)
  moreover have "row_sum st2 i = 0" if "i < ssize st" for i using that assms(4) by (simp add: row_sum_def f)
  moreover have "col_sum st2 j = 0" if "j < dsize st" for j using that assms(5) by (simp add: col_sum_def f)
  moreover have "0 < e_s st ! i" if "i < ssize st" for i using that assms(6,10) nth_mem by metis
  moreover have dp: "0 < e_d st ! j" if "j < dsize st" for j using that assms(7,11) nth_mem by metis
  moreover have "- (e_weight st * EMD_EPS) < e_d st ! j" if "j < dsize st" for j
    using dp[OF that] assms(13) by (auto simp: EMD_EPS_def intro: less_trans[of _ 0])
  ultimately have "russel_inv (e_s st) (e_d st) st2 [0..<ssize st] [0..<dsize st]"
    using mx assms(1,2,6-9,13) by (auto simp: russel_inv_def f shipping_def)
  from russel_loop_inv[OF this] obtain us where l: "russel_inv (e_s st) (e_d st) (emdRussel st) us []"
    "russel_frame st2 (emdRussel st)" "same_deltas st2 (emdRussel st)" unfolding r by blast
  show "\<exists>us. russel_inv (e_s st) (e_d st) (emdRussel st) us [] \<and> russel_frame st (emdRussel st)"
    using l(1,2) by (auto simp: russel_frame_def st2_def st1_def)
  show "e_u (emdRussel st) = map (\<lambda>i. max_from (\<lambda>j. cost st ! i ! j) [0..<dsize st]) [0..<ssize st]"
    "e_v (emdRussel st) = map (\<lambda>j. max_from (\<lambda>i. cost st ! i ! j) [0..<ssize st]) [0..<dsize st]"
    using l(3) by (simp_all add: same_deltas_def st2_def st1_def)
  show "i < ssize st \<Longrightarrow> j < dsize st \<Longrightarrow>
      e_delta (emdRussel st) ! i ! j = cost st ! i ! j - e_u (emdRussel st) ! i - e_v (emdRussel st) ! j"
    using l(3) by (simp add: same_deltas_def st2_def st1_def)
qed

definition free_dummies :: "EMDState \<Rightarrow> bool" where
  "free_dummies st \<longleftrightarrow> (\<forall>i < ssize st. \<forall>j < dsize st. idx1 st ! i < 0 \<or> idx2 st ! j < 0 \<longrightarrow> cost st ! i ! j = 0)"

lemma fold_increasing: "(\<And>x z. (z :: real) \<le> f x z) \<Longrightarrow> z \<le> fold f xs z"
proof (induction xs arbitrary: z)
  case (Cons x xs)
  have "z \<le> f x z" by (rule Cons.prems)
  also have "\<dots> \<le> fold f xs (f x z)" by (rule Cons.IH[OF Cons.prems])
  finally show ?case by simp
qed simp

text \<open>What holds of the state that \<open>emdInitEMD\<close> leaves.\<close>

definition first_plan :: "WeightPos list \<Rightarrow> WeightPos list \<Rightarrow> EMDState \<Rightarrow> bool" where
  "first_plan s1 s2 st \<longleftrightarrow> ssize st = length (supplies s1 s2) \<and> dsize st = length (demands s1 s2)
     \<and> e_weight st = max (sum_list (weights_of s1)) (sum_list (weights_of s2))
     \<and> (\<forall>i < ssize st. row_sum st i = supplies s1 s2 ! i)
     \<and> (\<forall>j < dsize st. col_sum st j < demands s1 s2 ! j + e_weight st * EMD_EPS)
     \<and> (\<Sum>j < dsize st. col_sum st j) = sum_list (supplies s1 s2)"

definition start_state :: "WeightPos list \<Rightarrow> WeightPos list \<Rightarrow> int list \<Rightarrow> int list \<Rightarrow> real list list \<Rightarrow> real \<Rightarrow> EMDState" where
  "start_state s1 s2 ids1 ids2 costs mc = \<lparr>ssize = length (supplies s1 s2), dsize = length (demands s1 s2), cost = costs,
            e_x = replicate (length (supplies s1 s2) + length (demands s1 s2)) \<lparr>x_val = 0, x_i = 0, x_j = 0\<rparr>, end_x = 0, enter_x = 0,
            is_x = replicate (length (supplies s1 s2)) (replicate (length (demands s1 s2)) False),
            rows_x = replicate (length (supplies s1 s2)) [], cols_x = replicate (length (demands s1 s2)) [],
            e_u = replicate (length (supplies s1 s2)) 0, e_v = replicate (length (demands s1 s2)) 0, idx1 = ids1, idx2 = ids2,
            e_s = supplies s1 s2, e_d = demands s1 s2,
            e_delta = replicate (length (supplies s1 s2)) (replicate (length (demands s1 s2)) 0),
            e_weight = max (sum_list (weights_of s1)) (sum_list (weights_of s2)), max_cost = mc\<rparr>"

lemma emdInitEMD_state:
  assumes "emdInitEMD s1 s2 f lb = (0, Some st, lb')"
  obtains ids1 ids2 costs mc st0 where "weights_of s1 \<noteq> []" "weights_of s2 \<noteq> []"
    "st0 = start_state s1 s2 ids1 ids2 costs mc"
    "st = (emdRussel st0)\<lparr>enter_x := end_x (emdRussel st0), end_x := Suc (end_x (emdRussel st0))\<rparr>"
    "length ids1 = length (supplies s1 s2)" "length ids2 = length (demands s1 s2)" "0 \<le> mc"
    "costs = map (\<lambda>ci. map (\<lambda>cj. if ci < 0 \<or> cj < 0 then 0 else f (place (s1 ! nat ci)) (place (s2 ! nat cj))) ids2) ids1"
proof -
  obtain s i1 d i2 where cw: "collect_weights 0 s1 = Some (s, i1)" "collect_weights 0 s2 = Some (d, i2)"
    using assms by (fastforce simp: emdInitEMD_def split: option.splits)
  have sd: "s = weights_of s1" "d = weights_of s2" "length i1 = length s" "length i2 = length d"
    using collect_weights_Some[OF cw(1)] collect_weights_Some[OF cw(2)] by auto
  let ?diff = "sum_list (weights_of s1) - sum_list (weights_of s2)"
  define ids1 where "ids1 = (if \<not> balanced s1 s2 \<and> ?diff < 0 then i1 @ [-1] else i1)"
  define ids2 where "ids2 = (if \<not> balanced s1 s2 \<and> \<not> ?diff < 0 then i2 @ [-1] else i2)"
  define costs where "costs = map (\<lambda>ci. map (\<lambda>cj. if ci < 0 \<or> cj < 0 then 0 else f (place (s1 ! nat ci)) (place (s2 ! nat cj))) ids2) ids1"
  define mc where "mc = fold (\<lambda>c mx. fold (\<lambda>val mx. if mx < val then val else mx) c mx) costs 0"
  have mc: "0 \<le> mc" unfolding mc_def by (intro fold_increasing) auto
  have ne: "weights_of s1 \<noteq> []" "weights_of s2 \<noteq> []"
    using assms unfolding emdInitEMD_def cw sd[symmetric] by (auto split: if_splits)
  have bal: "(\<not> \<bar>?diff\<bar> \<ge> EMD_EPS * sum_list (weights_of s1)) = balanced s1 s2" by (auto simp: balanced_def)
  have ws: "(if sum_list (weights_of s2) < sum_list (weights_of s1) then sum_list (weights_of s1) else sum_list (weights_of s2))
      = max (sum_list (weights_of s1)) (sum_list (weights_of s2))" by (simp add: max_def)
  have sup: "(if \<not> balanced s1 s2 \<and> ?diff < 0 then (weights_of s1 @ [- ?diff], i1 @ [-1]) else (weights_of s1, i1)) = (supplies s1 s2, ids1)"
    by (simp add: supplies_def ids1_def Let_def)
  have dem: "(if \<not> balanced s1 s2 \<and> \<not> ?diff < 0 then (weights_of s2 @ [?diff], i2 @ [-1]) else (weights_of s2, i2)) = (demands s1 s2, ids2)"
    by (simp add: demands_def ids2_def Let_def)
  define st0 where "st0 = start_state s1 s2 ids1 ids2 costs mc"
  note e = assms[unfolded emdInitEMD_def cw option.case prod.case sd(1,2) Let_def bal sup dem ws, folded costs_def, folded mc_def,
      folded start_state_def, folded st0_def]
  show ?thesis
  proof (rule that[OF ne st0_def])
    show "st = (emdRussel st0)\<lparr>enter_x := end_x (emdRussel st0), end_x := Suc (end_x (emdRussel st0))\<rparr>"
      using e ne by (auto split: if_splits)
    show "length ids1 = length (supplies s1 s2)" "length ids2 = length (demands s1 s2)"
      using sd by (simp_all add: ids1_def ids2_def supplies_def demands_def Let_def)
  qed (simp_all add: mc costs_def)
qed

lemma emdInitEMD_facts:
  assumes "emdInitEMD s1 s2 f lb = (0, Some st, lb')" "\<And>x y. 0 \<le> f x y"
  shows "basis (nodes_used st) st" "card (cells st) = ssize st + dsize st - 1" "first_plan s1 s2 st" "free_dummies st" "0 \<le> max_cost st"
    "enter_x st < end_x st" "end_x st = ssize st + dsize st" "end_x st = length (e_x st)"
    "length (e_u st) = ssize st" "length (e_v st) = dsize st"
    "i < ssize st \<Longrightarrow> e_u st ! i = max_from (\<lambda>j. cost st ! i ! j) [0..<dsize st]"
    "j < dsize st \<Longrightarrow> e_v st ! j = max_from (\<lambda>i. cost st ! i ! j) [0..<ssize st]"
    "i < ssize st \<Longrightarrow> j < dsize st \<Longrightarrow> e_delta st ! i ! j = cost st ! i ! j - e_u st ! i - e_v st ! j"
proof -
  from emdInitEMD_state[OF assms(1)] obtain ids1 ids2 costs mc st0 where ne: "weights_of s1 \<noteq> []" "weights_of s2 \<noteq> []"
    and st0: "st0 = start_state s1 s2 ids1 ids2 costs mc"
    and st: "st = (emdRussel st0)\<lparr>enter_x := end_x (emdRussel st0), end_x := Suc (end_x (emdRussel st0))\<rparr>"
    and ids: "length ids1 = length (supplies s1 s2)" "length ids2 = length (demands s1 s2)" "0 \<le> mc"
    and costs: "costs = map (\<lambda>ci. map (\<lambda>cj. if ci < 0 \<or> cj < 0 then 0 else f (place (s1 ! nat ci)) (place (s2 ! nat cj))) ids2) ids1" .
  note sd = supplies_demands[OF ne]
  have c: "0 \<le> cost st0 ! i ! j" "ids1 ! i < 0 \<or> ids2 ! j < 0 \<Longrightarrow> cost st0 ! i ! j = 0" if "i < ssize st0" "j < dsize st0" for i j
    using that ids assms(2) by (auto simp: st0 start_state_def costs)
  have pos: "0 < ssize st0" "0 < dsize st0" "0 < e_weight st0" using sd by (simp_all add: st0 start_state_def)
  from pos obtain us where inv: "russel_inv (e_s st0) (e_d st0) (emdRussel st0) us []" "russel_frame st0 (emdRussel st0)"
    using emdRussel_inv(1)[of st0] c sd(3,4) by (auto simp: st0 start_state_def)
  define fin where "fin = emdRussel st0"
  have fr: "ssize fin = ssize st0" "dsize fin = dsize st0" "cost fin = cost st0" "max_cost fin = max_cost st0"
    "idx1 fin = idx1 st0" "idx2 fin = idx2 st0" "e_weight fin = e_weight st0"
    using inv(2) by (simp_all add: russel_frame_def fin_def)
  note iv = russel_invD[OF inv(1), folded fin_def]
  have "(\<Sum>i < ssize fin. e_s st0 ! i) - (\<Sum>j < dsize fin. e_d st0 ! j) < e_weight fin * EMD_EPS"
    using sd(6) by (simp add: fr st0 start_state_def sum_list_atLeast)
  note rf = russel_final[OF inv(1)[folded fin_def] this]
  have st': "st = fin\<lparr>enter_x := end_x fin, end_x := Suc (end_x fin)\<rparr>" using st by (simp add: fin_def)
  have fresh: "end_x st0 = 0" "length (e_x st0) = ssize st0 + dsize st0" "is_x st0 = replicate (ssize st0) (replicate (dsize st0) False)"
    "rows_x st0 = replicate (ssize st0) []" "cols_x st0 = replicate (dsize st0) []" "length (e_s st0) = ssize st0" "length (e_d st0) = dsize st0"
    "\<And>x. x \<in> set (e_s st0) \<Longrightarrow> 0 < x" "\<And>x. x \<in> set (e_d st0) \<Longrightarrow> 0 < x"
    using sd(3,4) by (simp_all add: st0 start_state_def)
  note dl = emdRussel_inv(2-4)[OF fresh(1-7) pos(1,2) fresh(8,9) c(1) pos(3), folded fin_def]
  show "i < ssize st \<Longrightarrow> e_u st ! i = max_from (\<lambda>j. cost st ! i ! j) [0..<dsize st]"
    "j < dsize st \<Longrightarrow> e_v st ! j = max_from (\<lambda>i. cost st ! i ! j) [0..<ssize st]"
    "i < ssize st \<Longrightarrow> j < dsize st \<Longrightarrow> e_delta st ! i ! j = cost st ! i ! j - e_u st ! i - e_v st ! j"
    using dl by (simp_all add: st' fr)
  have u: "nodes_used st = {..<end_x fin}" by (auto simp: nodes_used_def st')
  show "basis (nodes_used st) st" unfolding u by (rule basis_frame[OF iv(10)]) (simp_all add: st')
  have e: "Suc (end_x fin) = ssize fin + dsize fin" using rf(1,5) by simp
  then show "end_x st = ssize st + dsize st" "end_x st = length (e_x st)" "enter_x st < end_x st" using iv(9) by (simp_all add: st')
  have "card (cells st) = card {..<end_x fin}"
    using card_image[OF basisD(8)[OF iv(10)]] basisD(9)[OF iv(10)] by (simp add: cells_def st')
  then show "card (cells st) = ssize st + dsize st - 1" using rf(1) by (simp add: st')
  show "length (e_u st) = ssize st" "length (e_v st) = dsize st" using iv(1) by (simp_all add: maxima_def st')
  show "0 \<le> max_cost st" using ids(3) by (simp add: st' fr) (simp add: st0 start_state_def)
  show "free_dummies st" using c(2) by (auto simp: free_dummies_def st' fr) (auto simp: st0 start_state_def)
  have "row_sum st i = row_sum fin i" "col_sum st i = col_sum fin i" for i by (simp_all add: row_sum_def col_sum_def st')
  moreover have "(\<Sum>j < dsize fin. col_sum fin j) = sum_list (supplies s1 s2)"
    using rf(4) by (simp add: fr(1)) (simp add: st0 start_state_def sum_list_atLeast)
  moreover have "row_sum fin i = supplies s1 s2 ! i" if "i < ssize fin" for i using rf(2)[OF that] by (simp add: st0 start_state_def)
  moreover have "col_sum fin j < demands s1 s2 ! j + e_weight fin * EMD_EPS" if "j < dsize fin" for j
    using rf(3)[OF that] by (simp add: st0 start_state_def)
  ultimately show "first_plan s1 s2 st"
    unfolding first_plan_def by (simp add: st') (simp add: fr st0 start_state_def)
qed

section \<open>The cost of the flow\<close>

lemma fold_skip_sum:
  "fold (\<lambda>k t. if k = e then t else if P k then t + h k else t) [0..<n] (0 :: real) = (\<Sum>k \<in> {..<n} - {e}. if P k then h k else 0)"
proof (induction n)
  case (Suc n)
  have "{..<Suc n} - {e} = (if n = e then {..<n} - {e} else insert n ({..<n} - {e}))" by (auto simp: lessThan_Suc)
  moreover have "{..<e} - {e} = {..<e}" by auto
  ultimately show ?case using Suc by (cases "n = e") simp_all
qed simp

lemma emdComputeTotalFlow_cost:
  assumes "basis (nodes_used st) st" "free_dummies st"
  shows "emdComputeTotalFlow st = plan_cost (nodes_used st) st"
  unfolding emdComputeTotalFlow_def Let_def plan_cost_def nodes_used_def fold_skip_sum
proof (rule sum.cong[OF refl])
  fix k assume "k \<in> {..<end_x st} - {enter_x st}"
  then have "x_i (e_x st ! k) < ssize st" "x_j (e_x st ! k) < dsize st" using basisD(2,3)[OF assms(1)] by (auto simp: nodes_used_def)
  then have "\<not> (0 \<le> idx1 st ! x_i (e_x st ! k) \<and> 0 \<le> idx2 st ! x_j (e_x st ! k)) \<Longrightarrow> cost st ! x_i (e_x st ! k) ! x_j (e_x st ! k) = 0"
    using assms(2) by (auto simp: free_dummies_def)
  then show "(if 0 \<le> idx1 st ! x_i (e_x st ! k) \<and> 0 \<le> idx2 st ! x_j (e_x st ! k)
      then val_of st k * cost st ! x_i (e_x st ! k) ! x_j (e_x st ! k) else 0)
    = val_of st k * cost st ! x_i (e_x st ! k) ! x_j (e_x st ! k)" by auto
qed

section \<open>The theorems\<close>

text \<open>The first plan. When \<open>emdInitEMD\<close> sets up a problem its plan is a basis with one cell
  less than rows and columns; it ships every supply exactly, and no demand gets more than the
  tolerance above what it asks for.\<close>

theorem emdInitEMD_first_plan:
  assumes "emdInitEMD signature1 signature2 dist_func lower_bound = (0, Some st, lb)" "\<And>x y. 0 \<le> dist_func x y"
  shows "basis (nodes_used st) st \<and> card (cells st) = ssize st + dsize st - 1
    \<and> ssize st = length (supplies signature1 signature2) \<and> dsize st = length (demands signature1 signature2)
    \<and> (\<forall>i < ssize st. row_sum st i = supplies signature1 signature2 ! i)
    \<and> (\<forall>j < dsize st. col_sum st j < demands signature1 signature2 ! j + e_weight st * EMD_EPS)
    \<and> (\<Sum>j < dsize st. col_sum st j) = sum_list (supplies signature1 signature2)"
  using emdInitEMD_facts(1-3)[OF assms] unfolding first_plan_def by blast

text \<open>C31: The updates of Russel's method never change anything: when the first plan is made the maxima of
  rows and columns and the differences are still those of the whole table of costs.\<close>

theorem emdRussel_deltas_fixed:
  assumes "emdInitEMD signature1 signature2 dist_func lower_bound = (0, Some st, lb)" "\<And>x y. 0 \<le> dist_func x y"
  shows "\<forall>i < ssize st. \<forall>j < dsize st. e_u st ! i = max_from (\<lambda>j. cost st ! i ! j) [0..<dsize st]
    \<and> e_v st ! j = max_from (\<lambda>i. cost st ! i ! j) [0..<ssize st]
    \<and> e_delta st ! i ! j = cost st ! i ! j - e_u st ! i - e_v st ! j"
  using emdInitEMD_facts(11-13)[OF assms] by blast

text \<open>C6: A round that makes a new solution, when the search for a loop has found one and \<open>emdNewSolution\<close> has
  returned with an improvement, keeps the basis and all row and column sums of the plan. If no amount of the
  plan was negative before the round, none is negative after it, and the plan is not more expensive.\<close>

theorem emdNewSolution_keeps_margins:
  assumes "emd_ok st" "0 \<le> max_cost st" "emdFindBasicVariables st = Some st1" "emdIsOptimal st1 = (min_delta, st2)"
    and "min_delta < - (EMD_EPS * max_cost st2)" "emdNewSolution st2 = Some (True, st')"
  shows "emd_ok st' \<and> (\<forall>i < ssize st. row_sum st' i = row_sum st i) \<and> (\<forall>j < dsize st. col_sum st' j = col_sum st j)
    \<and> (nonneg_plan (nodes_used st) st \<longrightarrow> nonneg_plan (nodes_used st') st' \<and> plan_cost (nodes_used st') st' \<le> plan_cost (nodes_used st) st)"
proof -
  have s: "max_cost st2 = max_cost st"
    using find_same_plan(1)[OF assms(1,3)] test_same_plan[OF assms(4)] by (simp add: same_plan_def same_problem_def)
  have "0 \<le> EMD_EPS * max_cost st" using assms(2) by (simp add: EMD_EPS_def)
  then have "min_delta \<noteq> EMD_INF" using assms(5) unfolding s by (auto simp: EMD_INF_def)
  then have "pivot st st'" using assms by (auto simp: pivot_def)
  from pivot_no_worse[OF this assms(1,2)] show ?thesis by (simp add: no_worse_def same_sums_def)
qed

text \<open>C5: What result 0 of \<open>emdIterateSolution\<close> means for a problem that \<open>emdInitEMD\<close> has set up: the
  plan still ships the same amounts, and no other plan with the same sums is cheaper by more than the
  tolerance, unless no potentials were found or all iterations were used up. If no amount of the first plan
  is negative, none of the last is, and the last plan is not more expensive. (The first plan may have an
  amount that is negative within \<open>EMD_EPS\<close>, since \<open>emdInitEMD\<close> takes sums as equal up to that; then a round
  may make the plan dearer.)\<close>

theorem emdIterateSolution_optimal:
  assumes "emdInitEMD signature1 signature2 dist_func lower_bound = (0, Some st, lb)" "\<And>x y. 0 \<le> dist_func x y"
    and "1 < ssize st" "1 < dsize st" "emdIterateSolution st = Some (0, st')"
  shows "basis (nodes_used st') st' \<and> same_sums st st'
    \<and> (nonneg_plan (nodes_used st) st \<longrightarrow> nonneg_plan (nodes_used st') st' \<and> emdComputeTotalFlow st' \<le> emdComputeTotalFlow st)
    \<and> (emdFindBasicVariables st' = None \<or> (pivot ^^ (MAX_ITERATIONS - 1)) st st'
       \<or> (\<forall>y. (\<forall>i j. 0 \<le> y i j) \<and> same_margins st' y
            \<longrightarrow> emdComputeTotalFlow st' \<le> (\<Sum>i < ssize st. \<Sum>j < dsize st. y i j * cost st ! i ! j)
                  + EMD_EPS * max_cost st * (\<Sum>i < ssize st. \<Sum>j < dsize st. y i j)))"
proof -
  note i = emdInitEMD_facts[OF assms(1,2)]
  have ok: "emd_ok st" using i assms(3,4) by (simp add: emd_ok_def)
  have "iterate_solution (MAX_ITERATIONS - 1) st = Some (0, st')" using assms(3-5) by (simp add: emdIterateSolution_def)
  from iterate_solution_ends[OF this ok i(5)] have e: "emd_ok st'" "no_worse st st'"
    "passes_test st' \<or> emdFindBasicVariables st' = None \<or> (pivot ^^ (MAX_ITERATIONS - 1)) st st'" by auto
  have p: "ssize st' = ssize st" "dsize st' = dsize st" "cost st' = cost st" "max_cost st' = max_cost st"
    "idx1 st' = idx1 st" "idx2 st' = idx2 st" using e(2) by (simp_all add: no_worse_def same_problem_def)
  have b: "basis (nodes_used st') st'" using e(1) by (simp add: emd_ok_def)
  have f: "emdComputeTotalFlow st' = plan_cost (nodes_used st') st'"
    using i(4) by (intro emdComputeTotalFlow_cost[OF b]) (simp add: free_dummies_def p)
  have f0: "emdComputeTotalFlow st = plan_cost (nodes_used st) st" by (rule emdComputeTotalFlow_cost[OF i(1,4)])
  have eps: "0 \<le> EMD_EPS * max_cost st" using i(5) by (simp add: EMD_EPS_def)
  have "emdComputeTotalFlow st' \<le> (\<Sum>i < ssize st. \<Sum>j < dsize st. y i j * cost st ! i ! j)
      + EMD_EPS * max_cost st * (\<Sum>i < ssize st. \<Sum>j < dsize st. y i j)"
    if "passes_test st'" "\<forall>i j. 0 \<le> y i j" "same_margins st' y" for y
    using weak_duality[OF b, of "EMD_EPS * max_cost st" y] that eps unfolding passes_test_def f p by blast
  then show ?thesis using b e(2,3) unfolding f f0 no_worse_def by blast
qed

text \<open>An example that takes a round: the first plan costs 5, the next one 3.\<close>

definition sample_signature1 :: "WeightPos list" where
  "sample_signature1 = [\<lparr>w_weight = 1, w_lambda = 0, w_beta = 0\<rparr>, \<lparr>w_weight = 2, w_lambda = 2, w_beta = 0\<rparr>]"
definition sample_signature2 :: "WeightPos list" where
  "sample_signature2 = [\<lparr>w_weight = 1, w_lambda = 3, w_beta = 0\<rparr>, \<lparr>w_weight = 2, w_lambda = 1, w_beta = 0\<rparr>]"

definition sample :: "(real \<times> nat \<times> nat) list \<Rightarrow> nat \<Rightarrow> bool list list \<Rightarrow> nat list list \<Rightarrow> nat list list \<Rightarrow> real list \<Rightarrow> real list \<Rightarrow> EMDState" where
  "sample xs k b rs cs u v = \<lparr>ssize = 2, dsize = 2, cost = [[3, 1], [1, 1]],
     e_x = map (\<lambda>(x, i, j). \<lparr>x_val = x, x_i = i, x_j = j\<rparr>) xs,
     end_x = 4, enter_x = k, is_x = b, rows_x = rs, cols_x = cs, e_u = u, e_v = v, idx1 = [0, 1], idx2 = [0, 1],
     e_s = [0, 0], e_d = [0, 0], e_delta = [[- 3, - 3], [- 3, - 1]], e_weight = 3, max_cost = 3\<rparr>"

text \<open>The state at the start, with potentials, with the place of the node that enters, after the round, and
  at the end.\<close>

abbreviation "sample0 \<equiv> sample [(1, 0, 0), (0, 1, 0), (2, 1, 1), (0, 0, 0)] 3 [[True, False], [True, True]] [[0], [2, 1]] [[1, 0], [2]] [3, 1] [3, 1]"
abbreviation "sample1 \<equiv> sample [(1, 0, 0), (0, 1, 0), (2, 1, 1), (0, 0, 0)] 3 [[True, False], [True, True]] [[0], [2, 1]] [[1, 0], [2]] [3, 1] [0, 0]"
abbreviation "sample2 \<equiv> sample [(1, 0, 0), (0, 1, 0), (2, 1, 1), (0, 0, 1)] 3 [[True, False], [True, True]] [[0], [2, 1]] [[1, 0], [2]] [3, 1] [0, 0]"
abbreviation "sample3 \<equiv> sample [(0, 0, 0), (1, 1, 0), (1, 1, 1), (1, 0, 1)] 0 [[False, True], [True, True]] [[3], [2, 1]] [[1], [3, 2]] [3, 1] [0, 0]"
abbreviation "sample4 \<equiv> sample [(0, 0, 0), (1, 1, 0), (1, 1, 1), (1, 0, 1)] 0 [[False, True], [True, True]] [[3], [2, 1]] [[1], [3, 2]] [1, 1] [0, 0]"

lemma sample_init: "emdInitEMD sample_signature1 sample_signature2 (emdDistL1 2) None = (0, Some sample0, None)"
  by code_simp

lemma sample_rounds:
  "emdFindBasicVariables sample0 = Some sample1" "emdIsOptimal sample1 = (-2, sample2)" "emdNewSolution sample2 = Some (True, sample3)"
  "emdFindBasicVariables sample3 = Some sample4" "emdIsOptimal sample4 = (2, sample4)"
  by code_simp+

lemma sample_fields:
  "ssize (sample xs k b rs cs us vs) = 2" "dsize (sample xs k b rs cs us vs) = 2" "max_cost (sample xs k b rs cs us vs) = 3"
  by (simp_all add: sample_def)

lemma sample_iterate: "emdIterateSolution sample0 = Some (0, sample4)"
proof -
  have "iterate_solution (Suc n) sample3 = Some (0, sample4)" for n
    unfolding iterate_solution.simps sample_rounds option.case Let_def prod.case by (simp add: sample_fields EMD_INF_def EMD_EPS_def)
  then have it: "iterate_solution (Suc (Suc n)) sample0 = Some (0, sample4)" for n
    unfolding iterate_solution.simps(2)[of "Suc n"] sample_rounds option.case Let_def prod.case bind.bind_lunit
    by (simp only: sample_fields) (simp add: EMD_INF_def EMD_EPS_def)
  have n: "MAX_ITERATIONS - 1 = Suc (Suc 2497)" by (simp add: MAX_ITERATIONS_def)
  show ?thesis unfolding emdIterateSolution_def sample_fields n by (subst if_P) (simp, rule it)
qed

lemma emdDistL1_nonneg: "0 \<le> emdDistL1 n x y"
  unfolding emdDistL1_def Let_def by (intro fold_increasing) simp

theorem emdInitEMD_first_plan_witness:
  "emdInitEMD sample_signature1 sample_signature2 (emdDistL1 2) None = (0, Some sample0, None)
    \<and> row_sum sample0 1 = 2 \<and> card (cells sample0) = 3"
proof -
  have "supplies sample_signature1 sample_signature2 ! 1 = 2" by code_simp
  then show ?thesis
    using emdInitEMD_first_plan[OF sample_init emdDistL1_nonneg] sample_init by (simp add: sample_fields)
qed

theorem emdRussel_deltas_fixed_witness:
  "emdInitEMD sample_signature1 sample_signature2 (emdDistL1 2) None = (0, Some sample0, None)
    \<and> e_delta sample0 ! 0 ! 1 = cost sample0 ! 0 ! 1 - e_u sample0 ! 0 - e_v sample0 ! 1"
  using emdRussel_deltas_fixed[OF sample_init emdDistL1_nonneg] sample_init by (simp add: sample_fields)

lemma sample_ok: "emd_ok sample0"
  using emdInitEMD_facts[OF sample_init emdDistL1_nonneg] by (simp add: emd_ok_def sample_fields)

theorem emdNewSolution_keeps_margins_witness:
  "emd_ok sample0 \<and> emdNewSolution sample2 = Some (True, sample3) \<and> emd_ok sample3 \<and> row_sum sample3 0 = row_sum sample0 0"
proof -
  have "(-2 :: real) < - (EMD_EPS * max_cost sample2)" by (simp add: sample_fields EMD_EPS_def)
  from emdNewSolution_keeps_margins[OF sample_ok _ sample_rounds(1,2) this sample_rounds(3)]
  show ?thesis using sample_ok sample_rounds(3) by (simp add: sample_fields)
qed

theorem emdIterateSolution_optimal_witness:
  "emdIterateSolution sample0 = Some (0, sample4) \<and> same_sums sample0 sample4
    \<and> emdComputeTotalFlow sample4 \<le> emdComputeTotalFlow sample0 \<and> emdComputeTotalFlow sample0 = 5"
proof -
  have "nonneg_plan (nodes_used sample0) sample0"
    by (auto simp: nonneg_plan_def nodes_used_def sample_def lessThan_def less_Suc_eq numeral_eq_Suc)
  moreover have "emdComputeTotalFlow sample0 = 5" by code_simp
  ultimately show ?thesis
    using emdIterateSolution_optimal[OF sample_init emdDistL1_nonneg _ _ sample_iterate] sample_iterate by (simp add: sample_fields)
qed

end
