(* ===== verification/NBody_Likelihood.thy ===== *)
theory NBody_Likelihood
  imports NBody_Histogram NBody_EMD NBody_More
begin

text \<open>
  The likelihood of a simulated histogram: the gamma functions and the cost and value terms of
  \<open>nbody_mass.c\<close>, the chi-square family of \<open>nbody_chisq.c\<close>, the earth mover's distance of histograms
  (\<open>nbMatchEMD\<close>), and what \<open>nbody_likelihood.c\<close> makes of them. Numbers are of type \<open>dbl\<close>, since the code
  looks at infinities and at NaN. \<open>None\<close> is a call of \<open>mw_fail\<close>, a read outside of an array or through a
  null pointer, and a loop that does not end.
\<close>

section \<open>Functions of the C library\<close>

fun dexp :: "dbl \<Rightarrow> dbl" where
  "dexp (Fin a) = Fin (exp a)"
| "dexp PInf = PInf"
| "dexp NInf = Fin 0"
| "dexp NaN = NaN"

text \<open>\<open>round\<close> goes to the nearest integer, halves away from zero.\<close>

definition round_away :: "real \<Rightarrow> int" where
  "round_away x = (if 0 \<le> x then \<lfloor>x + 1 / 2\<rfloor> else \<lceil>x - 1 / 2\<rceil>)"

fun dround :: "dbl \<Rightarrow> dbl" where
  "dround (Fin a) = Fin (of_int (round_away a))"
| "dround x = x"

fun dfmax :: "dbl \<Rightarrow> dbl \<Rightarrow> dbl" where
  "dfmax NaN y = y"
| "dfmax x NaN = x"
| "dfmax x y = (if x < y then y else x)"

definition dsqr :: "dbl \<Rightarrow> dbl" where
  "dsqr x = x * x"

text \<open>Conversion to \<open>unsigned int\<close>; C leaves open what a value that is not finite becomes, here 0.\<close>

definition duint :: "dbl \<Rightarrow> nat" where
  "duint x = to_uint (dval x)"

section \<open>Binomial probabilities\<close>

definition factorial :: "int \<Rightarrow> real" where
  "factorial n = fold (\<lambda>counter result. result + ln (real counter)) (List.rev [1..<Suc (nat n)]) 0"

text \<open>The loop variable and the bound are converted to \<open>unsigned int\<close>.\<close>

definition choose_c :: "int \<Rightarrow> int \<Rightarrow> dbl" where
  "choose_c n c =
     fold (\<lambda>i result. result + dlog (Fin (real i))) [nat ((n - c + 1) mod 2 ^ 32)..<Suc (nat (n mod 2 ^ 32))] (Fin 0)
       - Fin (factorial c)"

definition probability_match :: "int \<Rightarrow> real \<Rightarrow> real \<Rightarrow> dbl" where
  "probability_match n ktmp pobs =
     (let k = round_away ktmp;
          result = choose_c n k;
          result = result + Fin (of_int k) * dlog (Fin pobs);
          result = result + Fin (of_int (n - k)) * dlog (Fin (1 - pobs))
      in dexp result)"

section \<open>Gamma functions\<close>

definition gamma_coeff :: "real list" where
  "gamma_coeff =
    [57.1562356658629235, -59.5979603554754912,
     14.1360979747417471, -0.491913816097620199, 0.339946499848118887 / 10 ^ 4,
     0.465236289270485756 / 10 ^ 4, -0.983744753048795646 / 10 ^ 4, 0.158088703224912494 / 10 ^ 3,
     -0.210264441724104883 / 10 ^ 3, 0.217439618115212643 / 10 ^ 3, -0.164318106536763890 / 10 ^ 3,
     0.844182239838527433 / 10 ^ 4, -0.261908384015814087 / 10 ^ 4, 0.368991826595316234 / 10 ^ 5]"

definition GammaFunc :: "real \<Rightarrow> dbl" where
  "GammaFunc z =
     (let g = 4.7421875;
          x = z;
          tmp = x + g + 0.5;
          tmp = Fin (x + 0.5) * dlog (Fin tmp) - Fin tmp;
          A_g = fst (fold (\<lambda>c (A_g, y). (A_g + Fin c / Fin (y + 1), y + 1)) gamma_coeff (Fin 0.999999999999997092, z));
          tmp = tmp + dlog (Fin 2.5066282746310005 * A_g / Fin x)
      in dexp tmp)"

definition shift_factorial :: "real \<Rightarrow> real \<Rightarrow> dbl" where
  "shift_factorial z n =
     dexp (fold (\<lambda>counter result. result + dlog (Fin (z + real counter))) (List.rev [1..<Suc (nat (trunc_int n))]) (Fin 0))"

partial_function (option) series_loop :: "real \<Rightarrow> real \<Rightarrow> real \<Rightarrow> real \<Rightarrow> dbl \<Rightarrow> dbl option" where
  "series_loop a x ap pow_x s =
     (let ap = ap + 1;
          pow_x = pow_x * x;
          del = Fin pow_x / (Fin a * shift_factorial a ap);
          s = s + del
      in if \<bar>del\<bar> < \<bar>s\<bar> * Fin (1 / 10 ^ 15) then Some (s * dexp (Fin (- x) + Fin a * dlog (Fin x)))
         else series_loop a x ap pow_x s)"

definition series_approx :: "real \<Rightarrow> real \<Rightarrow> dbl option" where
  "series_approx a x = series_loop a x 0 1 (Fin 1 / Fin a)"

definition IncompleteGammaFunc :: "real \<Rightarrow> real \<Rightarrow> dbl option" where
  "IncompleteGammaFunc a x =
     (let gam = GammaFunc a
      in if x = 0 then Some gam else map_option (\<lambda>s. gam - s) (series_approx a x))"

section \<open>Cost of the mass and likelihood of the values\<close>

definition bins_of :: "NBodyHistogram \<Rightarrow> nat" where
  "bins_of h = nh_lambdaBins h * nh_betaBins h"

definition nbCostComponent :: "NBodyHistogram \<Rightarrow> NBodyHistogram \<Rightarrow> dbl" where
  "nbCostComponent data histogram =
     (let nbins = bins_of data;
          n = Fin (real (nh_totalSimulated histogram));
          nSim_uncut = Fin (real (nh_totalNum histogram));
          nData = Fin (real (nh_totalNum data));
          histMass = nh_massPerParticle histogram;
          dataMass = nh_massPerParticle data
      in if nh_lambdaBins data \<noteq> nh_lambdaBins histogram \<or> nh_betaBins data \<noteq> nh_betaBins histogram then NaN
         else if nh_totalNum histogram = 0 \<or> nh_totalNum data = 0 then PInf
         else if histMass \<le> Fin 0 \<or> dataMass \<le> Fin 0 then NaN
         else
           let (nSim, nDataVariance) =
                 fold (\<lambda>i (nSim, nDataVariance).
                   if h_useBin (nh_data data ! i) = 0
                   then (nSim - dround (h_variable (nh_data histogram ! i) * nSim_uncut), nDataVariance)
                   else (nSim, nDataVariance + dsqr (h_err (nh_data data ! i) * nData))) [0..<nbins] (nSim_uncut, Fin 0);
               p = nSim / n;
               num = - dsqr (dataMass * nData - histMass * nSim);
               denom = Fin 2 * (dsqr dataMass * nDataVariance + dsqr histMass * nSim * p * (Fin 1 - p));
               CostComponent = num / denom
           in - CostComponent)"

text \<open>Reads of bins are checked against the length of the array.\<close>

definition bin_at :: "NBodyHistogram \<Rightarrow> nat \<Rightarrow> HistData option" where
  "bin_at h i = (if i < length (nh_data h) then Some (nh_data h ! i) else None)"

definition sigma_term :: "HistData \<Rightarrow> HistData \<Rightarrow> dbl \<Rightarrow> dbl" where
  "sigma_term d h s =
     (if h_err d > Fin 0
      then if h_err h > Fin 0 then s + dsqr (h_variable d - h_variable h) / (dsqr (h_err d) + dsqr (h_err h)) else s + Fin 25
      else s)"

definition over_bins :: "(HistData \<Rightarrow> HistData \<Rightarrow> dbl \<Rightarrow> dbl option) \<Rightarrow> NBodyHistogram \<Rightarrow> NBodyHistogram \<Rightarrow> nat \<Rightarrow> dbl option" where
  "over_bins f data histogram nbins =
     fold (\<lambda>i acc. Option.bind acc (\<lambda>s. Option.bind (bin_at data i) (\<lambda>d.
             if h_useBin d \<noteq> 0 then Option.bind (bin_at histogram i) (\<lambda>h. f d h s) else Some s))) [0..<nbins] (Some (Fin 0))"

definition nbLikelihood :: "NBodyHistogram \<Rightarrow> NBodyHistogram \<Rightarrow> dbl option" where
  "nbLikelihood data histogram =
     map_option (\<lambda>Nsigma_sq. Nsigma_sq / Fin 2)
       (over_bins (\<lambda>d h s. Some (sigma_term d h s)) data histogram (bins_of data))"

section \<open>The chi-square family\<close>

definition M_2PI :: real where "M_2PI = 2 * pi"

definition nbSahaTerm :: "dbl \<Rightarrow> dbl \<Rightarrow> dbl" where
  "nbSahaTerm m s =
     (if \<bar>m\<bar> < Fin (1 / 10 ^ 10) \<or> \<bar>s\<bar> < Fin (1 / 10 ^ 10) then Fin 0
      else Fin (-0.5) * dlog (Fin M_2PI) + (m + s + Fin 0.5) * dlog (m + s) - (m + Fin 0.5) * dlog m - (s + Fin 0.5) * dlog s)"

definition nbPoissonTerm :: "dbl \<Rightarrow> dbl \<Rightarrow> dbl" where
  "nbPoissonTerm f y =
     (if \<bar>f\<bar> < Fin (1 / 10 ^ 10) \<or> \<bar>y\<bar> < Fin (1 / 10 ^ 10) then Fin 2 * f
      else Fin 2 * ((f - y) - y * dlog (f / y)))"

definition nbKullbackLeiblerTerm :: "dbl \<Rightarrow> dbl \<Rightarrow> dbl" where
  "nbKullbackLeiblerTerm h k =
     (if \<bar>h\<bar> < Fin (1 / 10 ^ 10) \<or> \<bar>k\<bar> < Fin (1 / 10 ^ 10) then Fin 0
      else let m = (h + k) / Fin 2 in h * dlog (h / m) + k * dlog (k / m))"

definition nbChisqAlt :: "dbl \<Rightarrow> dbl \<Rightarrow> dbl" where
  "nbChisqAlt p q = Fin 0.5 * dsqr (p - q) / (p + q)"

datatype NBodyLikelihoodMethod =
  NBODY_INVALID_METHOD | NBODY_EMD | NBODY_ORIG_CHISQ | NBODY_ORIG_ALT | NBODY_CHISQ_ALT | NBODY_POISSON
| NBODY_KOLMOGOROV | NBODY_KULLBACK_LEIBLER | NBODY_SAHA

definition chisq_bin :: "NBodyLikelihoodMethod \<Rightarrow> dbl \<Rightarrow> dbl \<Rightarrow> dbl \<Rightarrow> HistData \<Rightarrow> HistData \<Rightarrow> dbl \<Rightarrow> dbl option" where
  "chisq_bin method scale effTotalNum totalSimulated d h chiSq =
     (let n = h_variable h; err = h_err d
      in case method of
           NBODY_ORIG_CHISQ \<Rightarrow> Some (chiSq + dsqr ((h_variable d - n / effTotalNum) / err))
         | NBODY_ORIG_ALT \<Rightarrow>
             let simErr = nbNormalizedHistogramError (duint (h_variable h)) effTotalNum totalSimulated;
                 err = dsqrt (dsqr err + dsqr simErr)
             in Some (chiSq + dsqr ((h_variable d - n / effTotalNum) / err))
         | NBODY_CHISQ_ALT \<Rightarrow> Some (chiSq + nbChisqAlt (h_variable d) (n / effTotalNum))
         | NBODY_POISSON \<Rightarrow> Some (chiSq + nbPoissonTerm (h_variable d) (n / effTotalNum))
         | NBODY_KOLMOGOROV \<Rightarrow> Some (dfmax chiSq \<bar>h_variable d - n / effTotalNum\<bar>)
         | NBODY_KULLBACK_LEIBLER \<Rightarrow> Some (chiSq + nbKullbackLeiblerTerm (h_variable d) (n / effTotalNum))
         | NBODY_SAHA \<Rightarrow> Some (chiSq + nbSahaTerm n (scale * h_variable d))
         | _ \<Rightarrow> None)"

text \<open>The number of bins is the product of the two numbers of bins in lambda.\<close>

definition nbCalcChisq :: "NBodyHistogram \<Rightarrow> NBodyHistogram \<Rightarrow> NBodyLikelihoodMethod \<Rightarrow> dbl option" where
  "nbCalcChisq data histogram method =
     (let nBin = nh_lambdaBins data * nh_lambdaBins histogram;
          scale = (if method = NBODY_SAHA then Fin (real (nh_totalNum data)) else Fin 1)
      in if \<not> nh_hasRawCounts histogram then Some NaN
         else if method = NBODY_SAHA \<and> (nh_totalNum data = 0 \<or> nh_totalNum histogram = 0) then Some NaN
         else if nh_totalNum histogram = 0 then Some PInf
         else
           let effTotalNum = Fin (real (unat (nbCorrectTotalNumberInHistogram histogram data)))
           in over_bins (chisq_bin method scale effTotalNum (Fin (real (nh_totalSimulated histogram)))) data histogram nBin)"

section \<open>The earth mover's distance of two histograms\<close>

definition nbWorstCaseEMD :: "NBodyHistogram \<Rightarrow> dbl" where
  "nbWorstCaseEMD hist = Fin DEFAULT_WORST_CASE"

text \<open>The simulated bodies in bins that are used; the subtraction is on 32 bits.\<close>

definition counted_bodies :: "NBodyHistogram \<Rightarrow> NBodyHistogram \<Rightarrow> 32 word" where
  "counted_bodies data hist =
     fold (\<lambda>i nSim. if h_useBin (nh_data data ! i) = 0
                 then nSim - of_nat (duint (dround (h_variable (nh_data hist ! i) * Fin (real (nh_totalNum hist))))) else nSim)
       [0..<bins_of data] (of_nat (nh_totalNum hist))"

text \<open>
  The signatures for \<open>emdCalc\<close>. It is modelled on exact reals, so what is put into a signature is taken
  as finite: a bin of the model has a count over a total that is not zero.
\<close>

definition emd_point :: "bool \<Rightarrow> dbl \<Rightarrow> HistData \<Rightarrow> WeightPos" where
  "emd_point used weight h =
     (if used then \<lparr>w_weight = dval weight, w_lambda = dval (h_lambda h), w_beta = dval (h_beta h)\<rparr>
      else \<lparr>w_weight = 0, w_lambda = 0, w_beta = 0\<rparr>)"

definition nbMatchEMD :: "MainStruct \<Rightarrow> MainStruct \<Rightarrow> dbl option" where
  "nbMatchEMD data histogram =
     (let first_data = the (histograms data ! 0); first_hist = the (histograms histogram ! 0);
          bins = bins_of first_data;
          nSim_uncut = real (nh_totalNum first_hist);
          nSim = counted_bodies first_data first_hist;
          nData = nh_totalNum first_data;
          histMass = nh_massPerParticle first_hist; dataMass = nh_massPerParticle first_data
      in if nh_lambdaBins first_data \<noteq> nh_lambdaBins first_hist \<or> nh_betaBins first_data \<noteq> nh_betaBins first_hist then Some NaN
         else if nSim = 0 \<or> nData = 0 then Some PInf
         else if histMass \<le> Fin 0 \<or> dataMass \<le> Fin 0 then Some NaN
         else
           let u = (\<lambda>i. h_useBin (nh_data first_data ! i) \<noteq> 0);
               dat = map (\<lambda>i. emd_point (u i) (h_variable (nh_data first_data ! i)) (nh_data first_data ! i)) [0..<bins];
               hist = map (\<lambda>i. emd_point (u i) (h_variable (nh_data first_hist ! i) * Fin nSim_uncut / Fin (1 * real (unat nSim)))
                             (nh_data first_hist ! i)) [0..<bins]
           in map_option (\<lambda>emd.
                let emd = emd * Fin (10 ^ 9);
                    emd = dround emd;
                    emd = emd * Fin (1 / 10 ^ 9)
                in if emd > Fin 50 then NaN
                   else
                     let EMDComponent = Fin 1 - emd / Fin 50;
                         likelihood = Fin 300 * dlog EMDComponent
                     in - likelihood) (emdCalc dat hist None))"

section \<open>The likelihood\<close>

text \<open>One of the five terms on values: nothing when it is not asked for; without the values the whole
  result is NaN, which is \<open>Inl\<close> here. \<open>checked\<close> says whether the code looks at the flags of the files first.\<close>

definition value_term :: "bool \<Rightarrow> bool \<Rightarrow> nat \<Rightarrow> nat \<Rightarrow> MainStruct \<Rightarrow> MainStruct \<Rightarrow> dbl \<Rightarrow> (unit + dbl \<times> dbl) option" where
  "value_term wanted checked flag k data histogram likelihood =
     (if \<not> wanted then Some (Inr (likelihood, NaN))
      else if checked \<and> (\<not> usage data ! flag \<or> \<not> usage histogram ! flag) then Some (Inl ())
      else case (histograms data ! k, histograms histogram ! k) of
             (Some d, Some h) \<Rightarrow> map_option (\<lambda>c. Inr (likelihood + c, c)) (nbLikelihood d h)
           | _ \<Rightarrow> None)"

text \<open>Going on after a term: the early return ends the calculation.\<close>

definition and_then :: "(unit + dbl \<times> dbl) option \<Rightarrow> (dbl \<Rightarrow> dbl \<Rightarrow> 'r option) \<Rightarrow> 'r \<Rightarrow> 'r option" where
  "and_then r go nan =
     Option.bind r (\<lambda>r. case r of Inl _ \<Rightarrow> Some nan | Inr (likelihood, c) \<Rightarrow> go likelihood c)"

definition nbMatchHistogramFiles :: "(string \<Rightarrow> MainStruct option) \<Rightarrow> string \<Rightarrow> string
    \<Rightarrow> bool \<Rightarrow> bool \<Rightarrow> bool \<Rightarrow> bool \<Rightarrow> bool \<Rightarrow> dbl option" where
  "nbMatchHistogramFiles nbReadHistogram datHist matchHist use_veldisp use_betadisp use_betacomp use_vlos use_dist =
     (case (nbReadHistogram datHist, nbReadHistogram matchHist) of
        (Some dat, Some match) \<Rightarrow>
          Option.bind (nbMatchEMD dat match) (\<lambda>emd.
            let cost_component = nbCostComponent (the (histograms dat ! 0)) (the (histograms match ! 0))
            in and_then (value_term use_betadisp False 1 1 dat match (emd + cost_component)) (\<lambda>likelihood _.
               and_then (value_term use_veldisp False 2 2 dat match likelihood) (\<lambda>likelihood _.
               and_then (value_term use_betacomp True 4 3 dat match likelihood) (\<lambda>likelihood _.
               and_then (value_term use_vlos True 3 4 dat match likelihood) (\<lambda>likelihood _.
               and_then (value_term use_dist True 5 5 dat match likelihood) (\<lambda>likelihood _. Some likelihood)
               NaN) NaN) NaN) NaN) NaN)
      | _ \<Rightarrow> Some NaN)"

text \<open>The likelihood of a state with its parts: total, geometry, cost, beta dispersion, velocity
  dispersion, beta, line-of-sight velocity, distance.\<close>

definition nbSystemLikelihood :: "NBodyState \<Rightarrow> MainStruct \<Rightarrow> MainStruct \<Rightarrow> NBodyLikelihoodMethod \<Rightarrow> dbl list option" where
  "nbSystemLikelihood st data histogram method =
     (let d0 = the (histograms data ! 0); h0 = the (histograms histogram ! 0); NANArray = replicate 8 NaN
      in if nh_lambdaBins d0 \<noteq> nh_lambdaBins h0 then Some NANArray
         else if method = NBODY_EMD \<and> real (nh_totalNum h0) < 0.0001 * real (nbody st)
         then Some ([nbWorstCaseEMD h0, nbWorstCaseEMD h0] @ replicate 6 (Fin 0))
         else
           Option.bind (if method = NBODY_EMD then nbMatchEMD data histogram else nbCalcChisq d0 h0 method) (\<lambda>geometry.
             let cost_component = nbCostComponent d0 h0
             in and_then (value_term (st_useBetaDisp st) False 1 1 data histogram (geometry + cost_component)) (\<lambda>likelihood bdisp.
                and_then (value_term (st_useVelDisp st) False 2 2 data histogram likelihood) (\<lambda>likelihood vdisp.
                and_then (value_term (st_useVlos st) True 3 3 data histogram likelihood) (\<lambda>likelihood vlos.
                and_then (value_term (st_useBetaComp st) True 4 4 data histogram likelihood) (\<lambda>likelihood beta.
                and_then (value_term (st_useDist st) True 5 5 data histogram likelihood) (\<lambda>likelihood distance.
                  Some [likelihood, geometry, cost_component, bdisp, vdisp, beta, vlos, distance])
                NANArray) NANArray) NANArray) NANArray) NANArray))"

end
