(* ===== verification/NBody_LikeTerms.thy ===== *)
theory NBody_LikeTerms
  imports NBody_Likelihood
begin

text \<open>
  The terms of the likelihood: sums over the bins that are used, the terms on values, the cost of the
  mass, and the chi-square family.
\<close>

section \<open>Sums over bins\<close>

definition bin_used :: "NBodyHistogram \<Rightarrow> nat \<Rightarrow> bool" where
  "bin_used data i \<longleftrightarrow> h_useBin (nh_data data ! i) \<noteq> 0"

lemma over_bins_sum:
  assumes "n \<le> length (nh_data data)" "n \<le> length (nh_data hist)"
    and "\<And>i x. i < n \<Longrightarrow> bin_used data i \<Longrightarrow> f (nh_data data ! i) (nh_data hist ! i) (Fin x) = Some (Fin (x + t i))"
  shows "over_bins f data hist n = Some (Fin (\<Sum>i<n. if bin_used data i then t i else 0))"
proof -
  have "fold (\<lambda>i acc. Option.bind acc (\<lambda>s. Option.bind (bin_at data i) (\<lambda>d.
           if h_useBin d \<noteq> 0 then Option.bind (bin_at hist i) (\<lambda>h. f d h s) else Some s))) [0..<m] (Some (Fin 0))
      = Some (Fin (\<Sum>i<m. if bin_used data i then t i else 0))" if "m \<le> n" for m
    using that
  proof (induction m)
    case (Suc m)
    then have "m < n" by simp
    then show ?case using Suc assms by (auto simp: bin_at_def bin_used_def)
  qed simp
  then show ?thesis by (simp add: over_bins_def)
qed

lemma used_sum_zero_iff:
  assumes "\<And>i. i < n \<Longrightarrow> bin_used data i \<Longrightarrow> 0 \<le> (t i :: real)"
  shows "0 \<le> (\<Sum>i<n. if bin_used data i then t i else 0)"
    and "(\<Sum>i<n. if bin_used data i then t i else 0) = 0 \<longleftrightarrow> (\<forall>i<n. bin_used data i \<longrightarrow> t i = 0)"
proof -
  show "0 \<le> (\<Sum>i<n. if bin_used data i then t i else 0)" using assms by (intro sum_nonneg) auto
  have "(\<Sum>i<n. if bin_used data i then t i else 0) = 0 \<longleftrightarrow> (\<forall>i\<in>{..<n}. (if bin_used data i then t i else 0) = 0)"
    using assms by (intro sum_nonneg_eq_0_iff) auto
  then show "(\<Sum>i<n. if bin_used data i then t i else 0) = 0 \<longleftrightarrow> (\<forall>i<n. bin_used data i \<longrightarrow> t i = 0)" by auto
qed

section \<open>The likelihood of the values\<close>

definition comparable :: "NBodyHistogram \<Rightarrow> NBodyHistogram \<Rightarrow> bool" where
  "comparable data hist \<longleftrightarrow> bins_of data \<le> length (nh_data data) \<and> bins_of data \<le> length (nh_data hist)
     \<and> (\<forall>i < bins_of data. bin_used data i \<longrightarrow>
          isfinite (h_variable (nh_data data ! i)) \<and> isfinite (h_err (nh_data data ! i))
        \<and> isfinite (h_variable (nh_data hist ! i)) \<and> isfinite (h_err (nh_data hist ! i)))"

definition bin_value :: "NBodyHistogram \<Rightarrow> nat \<Rightarrow> real" where
  "bin_value h i = dval (h_variable (nh_data h ! i))"

definition bin_error :: "NBodyHistogram \<Rightarrow> nat \<Rightarrow> real" where
  "bin_error h i = dval (h_err (nh_data h ! i))"

lemma comparable_Fin:
  assumes "comparable data hist" "i < bins_of data" "bin_used data i"
  shows "h_variable (nh_data data ! i) = Fin (bin_value data i)" "h_err (nh_data data ! i) = Fin (bin_error data i)"
    "h_variable (nh_data hist ! i) = Fin (bin_value hist i)" "h_err (nh_data hist ! i) = Fin (bin_error hist i)"
  using assms by (auto simp: comparable_def bin_value_def bin_error_def isfinite_Fin_dval)

definition deviation :: "NBodyHistogram \<Rightarrow> NBodyHistogram \<Rightarrow> nat \<Rightarrow> real" where
  "deviation data hist i =
     (if bin_error data i > 0
      then if bin_error hist i > 0
           then (bin_value data i - bin_value hist i)\<^sup>2 / ((bin_error data i)\<^sup>2 + (bin_error hist i)\<^sup>2) else 25
      else 0)"

lemma nbLikelihood_sum:
  assumes "comparable data hist"
  shows "nbLikelihood data hist = Some (Fin ((\<Sum>i<bins_of data. if bin_used data i then deviation data hist i else 0) / 2))"
proof -
  have "Some (sigma_term (nh_data data ! i) (nh_data hist ! i) (Fin x)) = Some (Fin (x + deviation data hist i))"
    if "i < bins_of data" "bin_used data i" for i x
    using comparable_Fin[OF assms that]
    by (auto simp: sigma_term_def deviation_def dsqr_def power2_eq_square sum_power2_eq_zero_iff[unfolded power2_eq_square])
  then have "over_bins (\<lambda>d h s. Some (sigma_term d h s)) data hist (bins_of data)
      = Some (Fin (\<Sum>i<bins_of data. if bin_used data i then deviation data hist i else 0))"
    using assms by (intro over_bins_sum) (auto simp: comparable_def)
  then show ?thesis by (simp add: nbLikelihood_def)
qed

text \<open>The likelihood of values is a finite number that is at least zero, and it is zero exactly
  when in every bin that is used and has a positive error of the data the histogram has a positive error
  as well and the same value.\<close>

theorem nbLikelihood_zero_iff:
  assumes "comparable data hist"
  shows "\<exists>l. nbLikelihood data hist = Some (Fin l) \<and> 0 \<le> l
    \<and> (l = 0 \<longleftrightarrow> (\<forall>i < bins_of data. bin_used data i \<and> bin_error data i > 0
                  \<longrightarrow> bin_error hist i > 0 \<and> bin_value hist i = bin_value data i))"
proof -
  have n: "0 \<le> deviation data hist i" for i by (simp add: deviation_def)
  have z: "deviation data hist i = 0 \<longleftrightarrow> (bin_error data i > 0 \<longrightarrow> bin_error hist i > 0 \<and> bin_value hist i = bin_value data i)" for i
    by (auto simp: deviation_def sum_power2_eq_zero_iff)
  let ?s = "\<Sum>i<bins_of data. if bin_used data i then deviation data hist i else 0"
  have s: "0 \<le> ?s" "?s = 0 \<longleftrightarrow> (\<forall>i < bins_of data. bin_used data i \<longrightarrow> deviation data hist i = 0)"
    by (rule used_sum_zero_iff, rule n)+
  have "?s / 2 = 0 \<longleftrightarrow> ?s = 0" "0 \<le> ?s / 2" using s(1) by simp_all
  then show ?thesis using s unfolding z nbLikelihood_sum[OF assms] by (intro exI[of _ "?s / 2"]) blast
qed

section \<open>Chi-square terms\<close>

lemma ln_term_pos:
  fixes u :: real
  assumes "0 < u" shows "0 \<le> u - 1 - ln u" "u - 1 - ln u = 0 \<longleftrightarrow> u = 1"
  using ln_le_minus_one[OF assms] ln_eq_minus_one[OF assms] by auto

lemma dlog_pos: "0 < x \<Longrightarrow> dlog (Fin x) = Fin (ln x)"
  by simp

lemma nbPoissonTerm_zero_iff:
  assumes "1 / 10 ^ 10 \<le> f" "1 / 10 ^ 10 \<le> (y :: real)"
  shows "\<exists>t. nbPoissonTerm (Fin f) (Fin y) = Fin t \<and> 0 \<le> t \<and> (t = 0 \<longleftrightarrow> f = y)"
proof -
  have p: "0 < f" "0 < y" using assms by (auto intro: less_le_trans[rotated])
  have e: "2 * ((f - y) - y * ln (f / y)) = 2 * (y * (f / y - 1 - ln (f / y)))" using p by (simp add: algebra_simps)
  have "\<not> \<bar>f\<bar> < 1 / 10 ^ 10" "\<not> \<bar>y\<bar> < 1 / 10 ^ 10" using assms by auto
  then have "nbPoissonTerm (Fin f) (Fin y) = Fin 2 * ((Fin f - Fin y) - Fin y * dlog (Fin f / Fin y))"
    by (simp add: nbPoissonTerm_def)
  moreover have "Fin f / Fin y = Fin (f / y)" using p by simp
  moreover note dlog_pos[OF divide_pos_pos[OF p]]
  ultimately have "nbPoissonTerm (Fin f) (Fin y) = Fin (2 * ((f - y) - y * ln (f / y)))"
    by (simp only: times_dbl.simps minus_dbl_simps)
  moreover have "0 \<le> 2 * ((f - y) - y * ln (f / y))" "2 * ((f - y) - y * ln (f / y)) = 0 \<longleftrightarrow> f = y"
    unfolding e using ln_term_pos[of "f / y"] p by (auto simp: divide_eq_1_iff)
  ultimately show ?thesis by blast
qed

lemma ln_quotient_bound:
  fixes h m :: real
  assumes "0 < h" "0 < m" shows "h - m \<le> h * ln (h / m)" "h * ln (h / m) = h - m \<longleftrightarrow> h = m"
proof -
  have e: "h * ln (h / m) - (h - m) = h * (m / h - 1 - ln (m / h))" using assms by (simp add: ln_div algebra_simps)
  show "h - m \<le> h * ln (h / m)" using ln_term_pos(1)[of "m / h"] assms e by (smt (verit) divide_pos_pos mult_nonneg_nonneg)
  have "h * ln (h / m) = h - m \<longleftrightarrow> m / h - 1 - ln (m / h) = 0" using e assms by auto
  then show "h * ln (h / m) = h - m \<longleftrightarrow> h = m" using ln_term_pos(2)[of "m / h"] assms by (auto simp: divide_eq_1_iff)
qed

lemma nbKullbackLeiblerTerm_zero_iff:
  assumes "1 / 10 ^ 10 \<le> h" "1 / 10 ^ 10 \<le> (k :: real)"
  shows "\<exists>t. nbKullbackLeiblerTerm (Fin h) (Fin k) = Fin t \<and> 0 \<le> t \<and> (t = 0 \<longleftrightarrow> h = k)"
proof -
  have p: "0 < h" "0 < k" "0 < (h + k) / 2" using assms by (auto intro: less_le_trans[rotated])
  let ?m = "(h + k) / 2"
  have "\<not> \<bar>h\<bar> < 1 / 10 ^ 10" "\<not> \<bar>k\<bar> < 1 / 10 ^ 10" using assms by auto
  then have "nbKullbackLeiblerTerm (Fin h) (Fin k) = Fin h * dlog (Fin h / Fin ?m) + Fin k * dlog (Fin k / Fin ?m)"
    by (simp add: nbKullbackLeiblerTerm_def Let_def)
  moreover have "Fin h / Fin ?m = Fin (h / ?m)" "Fin k / Fin ?m = Fin (k / ?m)" using p by simp_all
  moreover note dlog_pos[OF divide_pos_pos[OF p(1,3)]] dlog_pos[OF divide_pos_pos[OF p(2,3)]]
  ultimately have "nbKullbackLeiblerTerm (Fin h) (Fin k) = Fin (h * ln (h / ?m) + k * ln (k / ?m))"
    by (simp only: times_dbl.simps plus_dbl.simps)
  moreover have "0 \<le> h * ln (h / ?m) + k * ln (k / ?m)"
    using ln_quotient_bound(1)[OF p(1,3)] ln_quotient_bound(1)[OF p(2,3)] by (simp add: field_simps)
  moreover have "h * ln (h / ?m) + k * ln (k / ?m) = 0 \<longleftrightarrow> h = k"
  proof
    assume "h * ln (h / ?m) + k * ln (k / ?m) = 0"
    then have "h * ln (h / ?m) = h - ?m"
      using ln_quotient_bound(1)[OF p(1,3)] ln_quotient_bound(1)[OF p(2,3)] by (simp add: field_simps)
    then have "h = ?m" using ln_quotient_bound(2)[OF p(1,3)] by blast
    then show "h = k" by (simp add: field_simps)
  next
    assume "h = k"
    then show "h * ln (h / ?m) + k * ln (k / ?m) = 0" using p by simp
  qed
  ultimately show ?thesis by blast
qed

lemma nbChisqAlt_zero_iff:
  assumes "0 < p" "0 < (q :: real)"
  shows "\<exists>t. nbChisqAlt (Fin p) (Fin q) = Fin t \<and> 0 \<le> t \<and> (t = 0 \<longleftrightarrow> p = q)"
  using assms by (auto simp: nbChisqAlt_def dsqr_def)

text \<open>The chi-square, alternative chi-square, Poisson and Kullback-Leibler comparisons are at
  least zero, and zero exactly when in every used bin the datum is the value of the histogram divided by
  the corrected total number. The bins looked at are as many as the product of the two numbers of bins in
  lambda.\<close>

theorem nbCalcChisq_zero_iff:
  assumes "nbins = nh_lambdaBins data * nh_lambdaBins hist" "nbins \<le> length (nh_data data)" "nbins \<le> length (nh_data hist)"
    and "nh_hasRawCounts hist" "nh_totalNum hist \<noteq> 0" "tot = real (unat (nbCorrectTotalNumberInHistogram hist data))" "tot \<noteq> 0"
    and "method \<in> {NBODY_ORIG_CHISQ, NBODY_CHISQ_ALT, NBODY_POISSON, NBODY_KULLBACK_LEIBLER}"
    and "\<And>i. i < nbins \<Longrightarrow> bin_used data i \<Longrightarrow> \<exists>v e w. h_variable (nh_data data ! i) = Fin v \<and> h_err (nh_data data ! i) = Fin e
        \<and> h_variable (nh_data hist ! i) = Fin w \<and> e \<noteq> 0 \<and> 1 / 10 ^ 10 \<le> v \<and> 1 / 10 ^ 10 \<le> w / tot"
  shows "\<exists>c. nbCalcChisq data hist method = Some (Fin c) \<and> 0 \<le> c
    \<and> (c = 0 \<longleftrightarrow> (\<forall>i < nbins. bin_used data i \<longrightarrow> bin_value data i = bin_value hist i / tot))"
proof -
  let ?f = "chisq_bin method (Fin 1) (Fin tot) (Fin (real (nh_totalSimulated hist)))"
  have "\<exists>t. 0 \<le> t \<and> (t = 0 \<longleftrightarrow> bin_value data i = bin_value hist i / tot)
      \<and> (\<forall>x. ?f (nh_data data ! i) (nh_data hist ! i) (Fin x) = Some (Fin (x + t)))" if i: "i < nbins" "bin_used data i" for i
  proof -
    obtain v e w where b: "h_variable (nh_data data ! i) = Fin v" "h_err (nh_data data ! i) = Fin e"
      "h_variable (nh_data hist ! i) = Fin w" "e \<noteq> 0" "1 / 10 ^ 10 \<le> v" "1 / 10 ^ 10 \<le> w / tot"
      using assms(9)[OF i] by blast
    have "(0 :: real) < 1 / 10 ^ 10" by simp
    note p = less_le_trans[OF this b(5)] less_le_trans[OF this b(6)]
    have w: "bin_value data i = v" "bin_value hist i = w" using b by (simp_all add: bin_value_def)
    have f: "\<And>t. (\<And>x. ?f (nh_data data ! i) (nh_data hist ! i) (Fin x) = Some (Fin x + Fin t))
        \<Longrightarrow> \<forall>x. ?f (nh_data data ! i) (nh_data hist ! i) (Fin x) = Some (Fin (x + t))" by simp
    consider "method = NBODY_ORIG_CHISQ" | "method = NBODY_CHISQ_ALT" | "method = NBODY_POISSON" | "method = NBODY_KULLBACK_LEIBLER"
      using assms(8) by blast
    then show ?thesis
    proof cases
      case 1
      let ?t = "(v - w / tot) / e"
      have "0 \<le> ?t * ?t" "?t * ?t = 0 \<longleftrightarrow> v = w / tot" using b(4) by simp_all
      moreover have "\<forall>x. ?f (nh_data data ! i) (nh_data hist ! i) (Fin x) = Some (Fin (x + ?t * ?t))"
        using b assms(7) by (simp add: chisq_bin_def 1 dsqr_def Let_def)
      ultimately show ?thesis unfolding w by blast
    next
      case 2
      then show ?thesis using nbChisqAlt_zero_iff[OF p] b assms(7) unfolding w by (auto simp: chisq_bin_def Let_def)
    next
      case 3
      then show ?thesis using nbPoissonTerm_zero_iff[OF b(5,6)] b assms(7) unfolding w by (auto simp: chisq_bin_def Let_def)
    next
      case 4
      then show ?thesis using nbKullbackLeiblerTerm_zero_iff[OF b(5,6)] b assms(7) unfolding w by (auto simp: chisq_bin_def Let_def)
    qed
  qed
  then obtain t where t: "\<And>i. i < nbins \<Longrightarrow> bin_used data i \<Longrightarrow> 0 \<le> t i \<and> (t i = 0 \<longleftrightarrow> bin_value data i = bin_value hist i / tot)
      \<and> (\<forall>x. ?f (nh_data data ! i) (nh_data hist ! i) (Fin x) = Some (Fin (x + t i)))" by metis
  have "over_bins ?f data hist nbins = Some (Fin (\<Sum>i<nbins. if bin_used data i then t i else 0))"
    using t by (intro over_bins_sum[OF assms(2,3)]) blast
  moreover have "nbCalcChisq data hist method = over_bins ?f data hist nbins"
    using assms(4-6,8) by (auto simp: nbCalcChisq_def Let_def simp flip: assms(1))
  moreover have "0 \<le> (\<Sum>i<nbins. if bin_used data i then t i else 0)"
    "(\<Sum>i<nbins. if bin_used data i then t i else 0) = 0 \<longleftrightarrow> (\<forall>i<nbins. bin_used data i \<longrightarrow> t i = 0)"
    by (rule used_sum_zero_iff, use t in blast)+
  moreover have "(\<forall>i<nbins. bin_used data i \<longrightarrow> t i = 0)
      \<longleftrightarrow> (\<forall>i<nbins. bin_used data i \<longrightarrow> bin_value data i = bin_value hist i / tot)" using t by blast
  ultimately show ?thesis by metis
qed

section \<open>The cost of the mass\<close>

lemma round_away_of_nat: "round_away (real n) = int n"
  by (simp add: round_away_def floor_eq_iff)

definition fraction_of :: "NBodyHistogram \<Rightarrow> nat \<Rightarrow> bool" where
  "fraction_of hist i \<longleftrightarrow> h_variable (nh_data hist ! i) = Fin (real (h_rawCount (nh_data hist ! i)) / real (nh_totalNum hist))"

text \<open>The bodies of the histogram in the bins that the data use.\<close>

definition bodies_used :: "NBodyHistogram \<Rightarrow> NBodyHistogram \<Rightarrow> real" where
  "bodies_used data hist = real (nh_totalNum hist)
     - (\<Sum>i<bins_of data. if bin_used data i then 0 else real (h_rawCount (nh_data hist ! i)))"

definition data_variance :: "NBodyHistogram \<Rightarrow> real" where
  "data_variance data = (\<Sum>i<bins_of data. if bin_used data i then (bin_error data i * real (nh_totalNum data))\<^sup>2 else 0)"

lemma cost_fold:
  assumes "nh_totalNum hist \<noteq> 0"
    and "\<And>i. i < n \<Longrightarrow> \<not> bin_used data i \<Longrightarrow> fraction_of hist i"
    and "\<And>i. i < n \<Longrightarrow> bin_used data i \<Longrightarrow> h_err (nh_data data ! i) = Fin (bin_error data i)"
  shows "fold (\<lambda>i (nSim, nDataVariance).
           if h_useBin (nh_data data ! i) = 0
           then (nSim - dround (h_variable (nh_data hist ! i) * Fin (real (nh_totalNum hist))), nDataVariance)
           else (nSim, nDataVariance + dsqr (h_err (nh_data data ! i) * Fin (real (nh_totalNum data))))) [0..<n] (Fin a, Fin b)
    = (Fin (a - (\<Sum>i<n. if bin_used data i then 0 else real (h_rawCount (nh_data hist ! i)))),
       Fin (b + (\<Sum>i<n. if bin_used data i then (bin_error data i * real (nh_totalNum data))\<^sup>2 else 0)))"
  using assms(2,3)
proof (induction n)
  case (Suc n)
  have ih: "\<And>i. i < n \<Longrightarrow> \<not> bin_used data i \<Longrightarrow> fraction_of hist i"
    "\<And>i. i < n \<Longrightarrow> bin_used data i \<Longrightarrow> h_err (nh_data data ! i) = Fin (bin_error data i)" using Suc.prems by auto
  show ?case
  proof (cases "bin_used data n")
    case True
    then show ?thesis using Suc.IH[OF ih] Suc.prems(2)[of n]
      by (simp add: bin_used_def dsqr_def power2_eq_square)
  next
    case False
    then have "fraction_of hist n" using Suc.prems(1)[of n] by simp
    then show ?thesis using Suc.IH[OF ih] False assms(1)
      by (simp add: bin_used_def fraction_of_def round_away_of_nat)
  qed
qed simp

text \<open>The cost of the mass against a histogram of the simulation: at least zero, and zero exactly
  when the mass of the data is the mass of the simulated bodies in the bins that the data use. Without
  bodies it is infinite, and NaN when sizes differ or a mass is not positive.\<close>

theorem nbCostComponent_zero_iff:
  assumes "nh_lambdaBins data = nh_lambdaBins hist" "nh_betaBins data = nh_betaBins hist"
    and "nh_totalNum hist \<noteq> 0" "nh_totalNum data \<noteq> 0" "nh_massPerParticle data = Fin dm" "nh_massPerParticle hist = Fin hm"
    and "0 < dm" "0 < hm" "bodies_used data hist \<le> real (nh_totalSimulated hist)" "0 \<le> bodies_used data hist"
    and "\<And>i. i < bins_of data \<Longrightarrow> \<not> bin_used data i \<Longrightarrow> fraction_of hist i"
    and "\<And>i. i < bins_of data \<Longrightarrow> bin_used data i \<Longrightarrow> h_err (nh_data data ! i) = Fin (bin_error data i)"
    and "nh_totalSimulated hist \<noteq> 0" "0 < data_variance data"
  shows "\<exists>c. nbCostComponent data hist = Fin c \<and> 0 \<le> c
    \<and> (c = 0 \<longleftrightarrow> dm * real (nh_totalNum data) = hm * bodies_used data hist)"
proof -
  let ?ns = "bodies_used data hist" and ?n = "real (nh_totalSimulated hist)" and ?nd = "real (nh_totalNum data)"
  let ?p = "?ns / ?n"
  have fold: "fold (\<lambda>i (nSim, nDataVariance).
           if h_useBin (nh_data data ! i) = 0
           then (nSim - dround (h_variable (nh_data hist ! i) * Fin (real (nh_totalNum hist))), nDataVariance)
           else (nSim, nDataVariance + dsqr (h_err (nh_data data ! i) * Fin ?nd))) [0..<bins_of data] (Fin (real (nh_totalNum hist)), Fin 0)
    = (Fin ?ns, Fin (data_variance data))"
    using cost_fold[OF assms(3,11,12)] by (simp add: bodies_used_def data_variance_def)
  let ?d = "2 * (dm * dm * data_variance data + hm * hm * ?ns * ?p * (1 - ?p))"
  have "0 < dm * dm * data_variance data" using assms(7,14) by simp
  moreover have "0 \<le> hm * hm * ?ns * ?p * (1 - ?p)"
    using assms(8,9,10,13) by (intro mult_nonneg_nonneg) auto
  ultimately have d: "0 < ?d" by (rule mult_pos_pos[OF zero_less_numeral add_pos_nonneg])
  have "nbCostComponent data hist = Fin ((dm * ?nd - hm * ?ns)\<^sup>2 / ?d)"
    using assms(1-8,13) d unfolding nbCostComponent_def Let_def
    by (simp add: fold dsqr_def power2_eq_square)
  moreover have "0 \<le> (dm * ?nd - hm * ?ns)\<^sup>2 / ?d" using d by simp
  moreover have "(dm * ?nd - hm * ?ns)\<^sup>2 / ?d = 0 \<longleftrightarrow> dm * ?nd = hm * ?ns" using d by auto
  ultimately show ?thesis by blast
qed

end
