(* ===== verification/NBody_LikeMain.thy ===== *)
theory NBody_LikeMain
  imports NBody_LikeTerms NBody_State
begin

text \<open>
  Binomial probabilities, the loop of the incomplete gamma function, and the two ways to the likelihood
  of two histograms: from files and from the state of a run.
\<close>

section \<open>Binomial probabilities\<close>

lemma fold_dlog:
  assumes "m \<le> n"
  shows "fold (\<lambda>i r. r + dlog (Fin (real i))) [Suc m..<Suc n] (Fin s) = Fin (s + ln (fact n) - ln (fact m))"
  using assms
proof (induction n rule: dec_induct)
  case (step n)
  have "ln (fact (Suc n) :: real) = ln (real (Suc n)) + ln (fact n)"
    unfolding fact_Suc by (subst ln_mult) auto
  then show ?case using step by (simp add: upt_Suc_append del: fact_Suc)
qed simp

lemma factorial_ln_fact: "factorial (int k) = ln (fact k)"
proof -
  have s: "fold (\<lambda>c r. r + f c) xs (z :: real) = z + sum_list (map f xs)" for f :: "nat \<Rightarrow> real" and xs z
    by (induction xs arbitrary: z) simp_all
  have "sum_list (map (\<lambda>c. ln (real c)) [1..<Suc k]) = ln (fact k)"
  proof (induction k)
    case (Suc k)
    have "ln (fact (Suc k) :: real) = ln (real (Suc k)) + ln (fact k)" unfolding fact_Suc by (subst ln_mult) auto
    then show ?case using Suc by (simp add: upt_Suc_append del: fact_Suc upt_Suc)
  qed simp
  then show ?thesis by (simp add: factorial_def s rev_map[symmetric] del: upt_Suc)
qed

lemma choose_c_binomial:
  assumes "k \<le> n" "n < 2 ^ 31"
  shows "choose_c (int n) (int k) = Fin (ln (real (n choose k)))"
proof -
  have i: "nat ((int n - int k + 1) mod 2 ^ 32) = Suc (n - k)" "nat (int n mod 2 ^ 32) = n" using assms by (auto simp: of_nat_diff)
  have "choose_c (int n) (int k) = Fin (ln (fact n) - ln (fact (n - k)) - ln (fact k))"
    unfolding choose_c_def i fold_dlog[OF diff_le_self] factorial_ln_fact by simp
  moreover have "real (n choose k) = fact n / (fact k * fact (n - k))" using assms(1) by (simp add: binomial_fact)
  then have "ln (real (n choose k)) = ln (fact n) - (ln (fact k) + ln (fact (n - k)))"
    by (simp add: ln_div ln_mult)
  ultimately show ?thesis by simp
qed

text \<open>\<open>probability_match\<close>, which works with logarithms of factorials, is the binomial probability of
  seeing k of n at probability p.\<close>

theorem probability_match_binomial:
  assumes "k \<le> n" "n < 2 ^ 31" "0 < p" "p < 1" "\<bar>x - real k\<bar> < 1 / 2"
  shows "probability_match (int n) x p = Fin (real (n choose k) * p ^ k * (1 - p) ^ (n - k))"
proof -
  have d: "x - real k < 1 / 2" "real k - x < 1 / 2" using assms(5) by linarith+
  have r: "round_away x = int k"
  proof (cases "0 \<le> x")
    case True
    then have "\<lfloor>x + 1 / 2\<rfloor> = int k" using d by (intro floor_unique; simp; linarith)
    then show ?thesis using True by (simp add: round_away_def)
  next
    case False
    then have k: "k = 0" using d by (cases k) auto
    then have "\<lceil>x - 1 / 2\<rceil> = 0" using False d by (intro ceiling_unique; simp)
    then show ?thesis using False k by (simp add: round_away_def)
  qed
  have pos: "0 < real (n choose k)" using assms(1) by simp
  have e: "exp (ln (real (n choose k)) + real k * ln p + real (n - k) * ln (1 - p))
      = real (n choose k) * p ^ k * (1 - p) ^ (n - k)"
    using assms(3,4) pos by (simp add: exp_add exp_of_nat_mult del: of_nat_diff)
  have i: "int n - int k = int (n - k)" using assms(1) by (simp add: of_nat_diff)
  have l: "dlog (Fin p) = Fin (ln p)" "dlog (Fin (1 - p)) = Fin (ln (1 - p))" using assms(3,4) by simp_all
  show ?thesis
    unfolding probability_match_def r choose_c_binomial[OF assms(1,2)] Let_def i l of_int_of_nat_eq times_dbl.simps plus_dbl.simps dexp.simps e ..
qed

theorem probability_match_binomial_witness: "probability_match 3 (9 / 4) (1 / 2) = Fin (3 / 8)"
proof -
  have "(3 :: nat) choose 2 = 3" by code_simp
  then show ?thesis using probability_match_binomial[of 2 3 "1 / 2" "9 / 4"] by (simp add: power2_eq_square)
qed

section \<open>The incomplete gamma function\<close>

lemma shift_factorial_prod:
  assumes "0 < a"
  shows "shift_factorial a (real n) = Fin (\<Prod>k=1..n. a + real k)"
proof -
  have f: "fold (\<lambda>c r. r + dlog (Fin (a + real c))) xs (Fin z) = Fin (z + (\<Sum>c\<leftarrow>xs. ln (a + real c)))"
    if "\<forall>c\<in>set xs. 0 < c" for xs z
    using that
  proof (induction xs arbitrary: z)
    case (Cons c xs)
    have "0 < a + real c" using assms by (intro add_pos_nonneg) auto
    then have "dlog (Fin (a + real c)) = Fin (ln (a + real c))" by simp
    then show ?case using Cons by (simp del: dlog.simps)
  qed simp
  have "(\<Sum>c\<leftarrow>List.rev [1..<Suc n]. ln (a + real c)) = (\<Sum>k=1..n. ln (a + real k))"
    by (simp only: rev_map[symmetric] sum_list_rev interv_sum_list_conv_sum_set_nat set_upt atLeastLessThanSuc_atLeastAtMost)
  moreover have "exp (\<Sum>k=1..n. ln (a + real k)) = (\<Prod>k=1..n. a + real k)"
    using assms by (subst exp_sum) (auto intro!: prod.cong)
  moreover have tr: "nat (trunc_int (real n)) = n" by (simp add: trunc_int_def)
  moreover have up: "\<forall>c\<in>set (List.rev [1..<Suc n]). 0 < c" by auto
  ultimately show ?thesis unfolding shift_factorial_def tr f[OF up] by (simp only: add_0 dexp.simps)
qed

lemma pochhammer_shift: "pochhammer a (Suc n) = a * (\<Prod>k=1..n. a + real k)" for a :: real
proof (induction n)
  case (Suc n)
  have "pochhammer a (Suc (Suc n)) = pochhammer a (Suc n) * (a + real (Suc n))" by (rule pochhammer_Suc)
  then show ?case unfolding Suc.IH by simp
qed simp

definition gamma_term :: "real \<Rightarrow> real \<Rightarrow> nat \<Rightarrow> real" where
  "gamma_term a x n = x ^ n / pochhammer a (Suc n)"

lemma gamma_term_pos: "0 < a \<Longrightarrow> 0 < x \<Longrightarrow> 0 < gamma_term a x n"
  by (simp add: gamma_term_def pochhammer_pos)

lemma gamma_term_small:
  assumes "0 < a" "0 < x" "0 < (e :: real)" shows "\<exists>n. gamma_term a x n < e"
proof -
  have "(\<lambda>n. x ^ n / fact n) \<longlonglongrightarrow> 0"
    using summable_LIMSEQ_zero[OF summable_exp[of x]] by (simp add: field_simps)
  moreover have "0 < e * a" using assms by simp
  ultimately obtain n where n: "norm (x ^ n / fact n - 0) < e * a" using LIMSEQ_D by blast
  have "(\<Prod>k=1..n. real k) \<le> (\<Prod>k=1..n. a + real k)" using assms by (intro prod_mono) auto
  then have "a * fact n \<le> pochhammer a (Suc n)" unfolding pochhammer_shift using assms by (simp add: fact_prod)
  then have "gamma_term a x n \<le> x ^ n / (a * fact n)"
    unfolding gamma_term_def using assms by (intro divide_left_mono mult_pos_pos pochhammer_pos) auto
  also have "\<dots> = x ^ n / fact n / a" by simp
  also have "\<dots> < e"
  proof (rule pos_divide_less_eq[OF assms(1), THEN iffD2])
    show "x ^ n / fact n < e * a" using n by (simp only: diff_zero real_norm_def abs_less_iff)
  qed
  finally show ?thesis ..
qed

lemma series_step:
  assumes "0 < a" "0 < x"
  shows "series_loop a x (real n) (x ^ n) (Fin s) =
    (if \<bar>gamma_term a x (Suc n)\<bar> < \<bar>s + gamma_term a x (Suc n)\<bar> * (1 / 10 ^ 15)
     then Some (Fin ((s + gamma_term a x (Suc n)) * exp (- x + a * ln x)))
     else series_loop a x (real (Suc n)) (x ^ Suc n) (Fin (s + gamma_term a x (Suc n))))"
proof -
  have p: "0 < (\<Prod>k=1..Suc n. a + real k)" using assms by (intro prod_pos) auto
  have n: "real n + 1 = real (Suc n)" by simp
  have del: "Fin (x ^ n * x) / (Fin a * shift_factorial a (real (Suc n))) = Fin (gamma_term a x (Suc n))"
    unfolding shift_factorial_prod[OF assms(1)] gamma_term_def pochhammer_shift using p assms
    by (simp add: mult.commute del: prod.cl_ivl_Suc)
  show ?thesis
    unfolding series_loop.simps[of a x "real n"] Let_def n del using assms by (simp add: mult.commute)
qed

lemma series_loop_returns:
  assumes "0 < a" "0 < x" "gamma_term a x (Suc N) < 1 / (a * 10 ^ 15)" "n \<le> N"
  shows "\<exists>m. n < m \<and> series_loop a x (real n) (x ^ n) (Fin (\<Sum>k\<le>n. gamma_term a x k)) = Some (Fin ((\<Sum>k\<le>m. gamma_term a x k) * exp (- x + a * ln x)))
    \<and> gamma_term a x m < (\<Sum>k\<le>m. gamma_term a x k) / 10 ^ 15"
  using assms(4)
proof (induction "N - n" arbitrary: n rule: less_induct)
  case less
  let ?s = "\<Sum>k\<le>Suc n. gamma_term a x k"
  note pos = gamma_term_pos[OF assms(1,2)]
  have ge: "1 / a \<le> ?s" "0 < ?s"
  proof -
    have "gamma_term a x 0 \<le> ?s" using pos by (intro member_le_sum) (auto intro: less_imp_le)
    then show "1 / a \<le> ?s" by (simp add: gamma_term_def)
    then show "0 < ?s" using assms(1) by (smt (verit) zero_less_divide_1_iff)
  qed
  have st: "series_loop a x (real n) (x ^ n) (Fin (\<Sum>k\<le>n. gamma_term a x k)) =
    (if gamma_term a x (Suc n) < ?s / 10 ^ 15 then Some (Fin (?s * exp (- x + a * ln x)))
     else series_loop a x (real (Suc n)) (x ^ Suc n) (Fin ?s))"
    using series_step[OF assms(1,2), of n "\<Sum>k\<le>n. gamma_term a x k"] pos[of "Suc n"] ge(2) by simp
  show ?case
  proof (cases "gamma_term a x (Suc n) < ?s / 10 ^ 15")
    case True
    then show ?thesis using st by (intro exI[of _ "Suc n"]) simp
  next
    case False
    have "n \<noteq> N"
    proof
      assume "n = N"
      then have "gamma_term a x (Suc n) < (1 / a) / 10 ^ 15" using assms(3) by simp
      also have "\<dots> \<le> ?s / 10 ^ 15" using ge(1) by (intro divide_right_mono) auto
      finally show False using False by simp
    qed
    then have "N - Suc n < N - n" "Suc n \<le> N" using less.prems by auto
    from less.hyps[OF this] show ?thesis using st False by (auto intro: Suc_lessD)
  qed
qed

text \<open>The loop of \<open>series_approx\<close> always ends for positive arguments, and what it returns is a partial
  sum of the series of the lower incomplete gamma function whose last term is below the tolerance.\<close>

theorem series_approx_returns:
  assumes "0 < a" "0 < x"
  shows "\<exists>m. 1 \<le> m \<and> series_approx a x = Some (Fin ((\<Sum>k\<le>m. x ^ k / pochhammer a (Suc k)) * exp (- x + a * ln x)))
    \<and> x ^ m / pochhammer a (Suc m) < (\<Sum>k\<le>m. x ^ k / pochhammer a (Suc k)) / 10 ^ 15"
proof -
  obtain N where N: "gamma_term a x N < min (1 / (a * 10 ^ 15)) (gamma_term a x 0)"
    using gamma_term_small[OF assms, of "min (1 / (a * 10 ^ 15)) (gamma_term a x 0)"] assms gamma_term_pos[OF assms] by auto
  then obtain M where M: "N = Suc M" by (cases N) auto
  have "series_approx a x = series_loop a x (real 0) (x ^ 0) (Fin (\<Sum>k\<le>0. gamma_term a x k))"
    using assms by (simp add: series_approx_def gamma_term_def)
  then show ?thesis
    using series_loop_returns[OF assms, of M 0] N unfolding M by (auto simp: gamma_term_def Suc_le_eq simp del: power_0)
qed

theorem series_approx_returns_witness:
  "\<exists>m. 1 \<le> m \<and> series_approx 2 1 = Some (Fin ((\<Sum>k\<le>m. 1 ^ k / pochhammer 2 (Suc k)) * exp (- 1 + 2 * ln 1)))"
  using series_approx_returns[of 2 1] by auto

section \<open>From files and from the state\<close>

lemma map_option_and_then:
  "map_option f (and_then r go nan) = and_then r (\<lambda>l c. map_option f (go l c)) (f nan)"
  by (cases r) (auto simp: and_then_def split: sum.splits)

lemma value_term_flag:
  "usage data ! flag = usage data ! flag' \<Longrightarrow> usage histogram ! flag = usage histogram ! flag'
    \<Longrightarrow> value_term w c flag k data histogram = value_term w c flag' k data histogram"
  by (rule ext) (simp add: value_term_def)

text \<open>C26: \<open>nbMatchHistogramFiles\<close> gives the total that \<open>nbSystemLikelihood\<close> gives for the same two
  histograms by the earth mover's distance, but with the switches for the average latitude and the
  average velocity exchanged: asked for the one it compares the other. This is for histograms of as many
  lambda bins, for files in which both averages are in use or both are not (else the flag of the one decides
  on the other), and for enough bodies in the range, since the state reports the worst case otherwise.\<close>

theorem match_files_swapped:
  assumes "nbReadHistogram datHist = Some dat" "nbReadHistogram matchHist = Some hist"
    and "usage dat ! 3 = usage dat ! 4" "usage hist ! 3 = usage hist ! 4"
    and "nh_lambdaBins (the (histograms dat ! 0)) = nh_lambdaBins (the (histograms hist ! 0))"
    and "0.0001 * real (nbody st) \<le> real (nh_totalNum (the (histograms hist ! 0)))"
  shows "nbMatchHistogramFiles nbReadHistogram datHist matchHist
           (st_useVelDisp st) (st_useBetaDisp st) (st_useVlos st) (st_useBetaComp st) (st_useDist st)
    = map_option hd (nbSystemLikelihood st dat hist NBODY_EMD)"
proof -
  have "value_term w True 4 3 dat hist = value_term w True 3 3 dat hist"
    "value_term w True 3 4 dat hist = value_term w True 4 4 dat hist" for w
    using value_term_flag assms(3,4) by metis+
  moreover have "\<not> real (nh_totalNum (the (histograms hist ! 0))) < 0.0001 * real (nbody st)" using assms(6) by simp
  moreover have "hd (replicate 8 NaN) = NaN" by (simp add: numeral_eq_Suc)
  ultimately show ?thesis
    using assms(5) unfolding nbMatchHistogramFiles_def nbSystemLikelihood_def assms(1,2) Let_def
    by (simp only: option.case prod.case if_False if_True simp_thms map_option_bind comp_def map_option_and_then
        option.map list.sel option.inject)
qed

section \<open>Examples\<close>

definition one_bin :: "dbl \<Rightarrow> dbl \<Rightarrow> NBodyHistogram" where
  "one_bin v e = \<lparr>nh_lambdaBins = 1, nh_betaBins = 1, nh_totalNum = 4, nh_totalSimulated = 8, nh_hasRawCounts = True,
     nh_params = \<lparr>hp_phi = 0, hp_theta = 0, hp_psi = 0, lambdaStart = 0, lambdaEnd = 1, lambdaBins = 1, betaStart = 0, betaEnd = 1, betaBins = 1\<rparr>,
     nh_massPerParticle = Fin 1,
     nh_data = [\<lparr>h_useBin = 1, h_rawCount = 4, h_lambda = Fin 0, h_beta = Fin 0, h_variable = v, h_err = e, h_sum = 0, h_sq_sum = 0,
                 h_outliersRemoved = 0\<rparr>]\<rparr>"

definition one_bins :: "dbl \<Rightarrow> MainStruct" where
  "one_bins v = \<lparr>usage = replicate 6 True, histograms = replicate 6 (Some (one_bin v (Fin 1)))\<rparr>"

lemma one_bin_simps:
  "nh_lambdaBins (one_bin v e) = 1" "nh_betaBins (one_bin v e) = 1" "bins_of (one_bin v e) = 1" "nh_totalNum (one_bin v e) = 4"
  "nh_totalSimulated (one_bin v e) = 8" "nh_hasRawCounts (one_bin v e)" "nh_massPerParticle (one_bin v e) = Fin 1"
  "length (nh_data (one_bin v e)) = 1"
  "h_variable (nh_data (one_bin v e) ! 0) = v" "h_err (nh_data (one_bin v e) ! 0) = e" "h_rawCount (nh_data (one_bin v e) ! 0) = 4"
  "h_useBin (nh_data (one_bin v e) ! 0) = 1"
  by (auto simp: one_bin_def bins_of_def bin_used_def)

lemma one_bin_used: "bin_used (one_bin v e) 0"
  by (simp add: bin_used_def one_bin_simps)

theorem nbLikelihood_zero_iff_witness:
  "\<exists>l. nbLikelihood (one_bin (Fin 2) (Fin 1)) (one_bin (Fin 3) (Fin 1)) = Some (Fin l) \<and> 0 < l"
proof -
  have c: "comparable (one_bin (Fin 2) (Fin 1)) (one_bin (Fin 3) (Fin 1))"
    by (simp add: comparable_def one_bin_simps(3,8,9,10))
  show ?thesis
    using nbLikelihood_zero_iff[OF c] one_bin_used[of "Fin 2" "Fin 1"] by (force simp: one_bin_simps(3,9,10) bin_value_def bin_error_def)
qed

theorem nbCalcChisq_zero_iff_witness:
  "nbCalcChisq (one_bin (Fin 1) (Fin 1)) (one_bin (Fin 4) (Fin 1)) NBODY_POISSON = Some (Fin 0)"
proof -
  have w: "nbCorrectTotalNumberInHistogram (one_bin (Fin 4) (Fin 1)) (one_bin (Fin 1) (Fin 1)) = (4 :: 32 word)"
    unfolding nbCorrectTotalNumberInHistogram_def Let_def one_bin_simps(1,2,4) by (simp add: one_bin_simps(12))
  have "\<exists>c. nbCalcChisq (one_bin (Fin 1) (Fin 1)) (one_bin (Fin 4) (Fin 1)) NBODY_POISSON = Some (Fin c) \<and> 0 \<le> c
    \<and> (c = 0 \<longleftrightarrow> (\<forall>i < 1. bin_used (one_bin (Fin 1) (Fin 1)) i \<longrightarrow> bin_value (one_bin (Fin 1) (Fin 1)) i = bin_value (one_bin (Fin 4) (Fin 1)) i / 4))"
    by (rule nbCalcChisq_zero_iff) (simp_all add: one_bin_simps w)
  then show ?thesis by (auto simp: bin_value_def one_bin_simps(9))
qed

theorem nbCostComponent_zero_iff_witness:
  "nbCostComponent (one_bin (Fin 1) (Fin 1)) (one_bin (Fin 1) (Fin 1)) = Fin 0"
proof -
  have u: "bodies_used (one_bin (Fin 1) (Fin 1)) (one_bin (Fin 1) (Fin 1)) = 4"
    by (simp add: bodies_used_def one_bin_simps(3,4) one_bin_used)
  have v: "0 < data_variance (one_bin (Fin 1) (Fin 1))"
    by (simp add: data_variance_def one_bin_simps(3,4,10) one_bin_used bin_error_def)
  have "\<exists>c. nbCostComponent (one_bin (Fin 1) (Fin 1)) (one_bin (Fin 1) (Fin 1)) = Fin c \<and> 0 \<le> c
    \<and> (c = 0 \<longleftrightarrow> 1 * real (nh_totalNum (one_bin (Fin 1) (Fin 1))) = 1 * bodies_used (one_bin (Fin 1) (Fin 1)) (one_bin (Fin 1) (Fin 1)))"
    by (rule nbCostComponent_zero_iff)
      (simp_all add: one_bin_simps(1-8,10) u v one_bin_used bin_error_def)
  then show ?thesis by (auto simp: u one_bin_simps(4))
qed

text \<open>The switches in action: the run differs from the data in the average velocities (histogram 3) alone, and
  only the average latitude (histogram 4) is asked for. The state compares the latitudes and finds no
  difference; from the files the velocities are compared.\<close>

definition value_bins :: "dbl \<Rightarrow> MainStruct" where
  "value_bins v = \<lparr>usage = replicate 6 True,
     histograms = map (\<lambda>v. Some (one_bin v (Fin 1))) [Fin 1, Fin 1, Fin 1, v, Fin 1, Fin 1]\<rparr>"

definition sample_files :: "string \<Rightarrow> MainStruct option" where
  "sample_files f = Some (value_bins (if f = ''data'' then Fin 1 else Fin 3))"

definition latitude_state :: NBodyState where
  "latitude_state = EMPTY_NBODYSTATE\<lparr>st_useBetaComp := True\<rparr>"

definition unit_point :: WeightPos where
  "unit_point = \<lparr>w_weight = 1, w_lambda = 0, w_beta = 0\<rparr>"

definition unit_problem :: EMDState where
  "unit_problem = the (fst (snd (emdInitEMD [unit_point] [unit_point] (\<lambda>_ _. 0) None)))"

lemma unit_emdCalc: "emdCalc [unit_point] [unit_point] None = Some (Fin 0)"
proof -
  have "emdDistL2 2 (place unit_point) (place unit_point) = 0"
    by (simp add: emdDistL2_def place_def unit_point_def Let_def numeral_2_eq_2)
  then have "emdInitEMD [unit_point] [unit_point] (emdDistL2 2) None = emdInitEMD [unit_point] [unit_point] (\<lambda>_ _. 0) None"
    by (simp add: emdInitEMD_def Let_def split: option.split)
  moreover have "emdInitEMD [unit_point] [unit_point] (\<lambda>_ _. 0) None = (0, Some unit_problem, None)" by code_simp
  moreover have "ssize unit_problem = 1" "emdComputeTotalFlow unit_problem = 0" "e_weight unit_problem = 1"
    by code_simp+
  ultimately show ?thesis by (simp add: emdCalc_def nbMetricDistanceFunction_def emdIterateSolution_def)
qed

lemma value_bins_simps:
  "k < 6 \<Longrightarrow> usage (value_bins v) ! k" "histograms (value_bins v) ! 0 = Some (one_bin (Fin 1) (Fin 1))"
  "histograms (value_bins v) ! 3 = Some (one_bin v (Fin 1))" "histograms (value_bins v) ! 4 = Some (one_bin (Fin 1) (Fin 1))"
  by (simp_all add: value_bins_def)

lemma value_bins_emd: "nbMatchEMD (value_bins v) (value_bins w) = Some (Fin 0)"
proof -
  have c: "unat (counted_bodies (one_bin (Fin 1) (Fin 1)) (one_bin (Fin 1) (Fin 1))) = 4"
    "counted_bodies (one_bin (Fin 1) (Fin 1)) (one_bin (Fin 1) (Fin 1)) \<noteq> 0"
    by (simp_all add: counted_bodies_def one_bin_simps(3,4,12))
  have p: "emd_point True (Fin 1) (nh_data (one_bin (Fin 1) (Fin 1)) ! 0) = unit_point"
    by (simp add: emd_point_def one_bin_def unit_point_def)
  show ?thesis
    unfolding nbMatchEMD_def value_bins_simps option.sel Let_def one_bin_simps(1-4,7) c(1)
    using c(2) p unit_emdCalc by (simp add: one_bin_simps(9,12) round_away_def)
qed

theorem match_files_swapped_witness:
  "nbMatchHistogramFiles sample_files ''data'' ''run'' False False False True False
     = map_option hd (nbSystemLikelihood latitude_state (value_bins (Fin 1)) (value_bins (Fin 3)) NBODY_EMD)
   \<and> nbMatchHistogramFiles sample_files ''data'' ''run'' False False True False False
     \<noteq> map_option hd (nbSystemLikelihood latitude_state (value_bins (Fin 1)) (value_bins (Fin 3)) NBODY_EMD)"
proof -
  let ?d = "value_bins (Fin 1)" and ?h = "value_bins (Fin 3)"
  have f: "sample_files ''data'' = Some ?d" "sample_files ''run'' = Some ?h" by (simp_all add: sample_files_def)
  have st: "st_useVelDisp latitude_state = False" "st_useBetaDisp latitude_state = False" "st_useVlos latitude_state = False"
    "st_useBetaComp latitude_state = True" "st_useDist latitude_state = False" "nbody latitude_state = 0"
    by (simp_all add: latitude_state_def EMPTY_NBODYSTATE_def)
  have u: "usage ?d ! 3 = usage ?d ! 4" "usage ?h ! 3 = usage ?h ! 4" by (simp_all add: value_bins_simps)
  have l: "nh_lambdaBins (the (histograms ?d ! 0)) = nh_lambdaBins (the (histograms ?h ! 0))"
    and n: "0.0001 * real (nbody latitude_state) \<le> real (nh_totalNum (the (histograms ?h ! 0)))"
    by (simp_all add: value_bins_simps st)
  have 1: "nbMatchHistogramFiles sample_files ''data'' ''run'' False False False True False
     = map_option hd (nbSystemLikelihood latitude_state ?d ?h NBODY_EMD)"
    using match_files_swapped[OF f u l n] unfolding st .
  have cost: "nbCostComponent (one_bin (Fin 1) (Fin 1)) (one_bin (Fin 1) (Fin 1)) = Fin 0"
    by (simp add: nbCostComponent_def Let_def one_bin_simps dsqr_def)
  have k: "nbLikelihood (one_bin (Fin 1) (Fin 1)) (one_bin (Fin x) (Fin 1)) = Some (Fin (sqr (1 - x) / 4))" for x
    by (simp add: nbLikelihood_def over_bins_def sigma_term_def one_bin_simps bin_at_def dsqr_def)
  have "nbMatchHistogramFiles sample_files ''data'' ''run'' False False False True False = Some (Fin 0)"
    unfolding nbMatchHistogramFiles_def f option.case prod.case value_bins_emd Let_def
    by (simp add: value_bins_simps cost value_term_def and_then_def k)
  moreover have "nbMatchHistogramFiles sample_files ''data'' ''run'' False False True False False = Some (Fin 1)"
    unfolding nbMatchHistogramFiles_def f option.case prod.case value_bins_emd Let_def
    by (simp add: value_bins_simps cost value_term_def and_then_def k)
  ultimately show ?thesis unfolding 1[symmetric] by simp
qed

end
