(* ===== verification/MW_Double.thy ===== *)
theory MW_Double
  imports MW_Vectors MW_Float
begin

text \<open>
  Numerals and powers for \<open>dbl\<close>, for the components that compute with infinities and NaN (the
  profiles and the sampling of dwarf galaxies, the estimate of operations).
\<close>

instantiation dbl :: comm_monoid_add
begin

instance
proof
  fix a b c :: dbl
  show "a + b + c = a + (b + c)" by (rule dbl_add_assoc)
  show "a + b = b + a" by (rule dbl_add_comm)
  show "0 + a = a" by (cases a) (simp_all add: zero_dbl_def)
qed

end

instantiation dbl :: numeral
begin

definition one_dbl where "1 = Fin 1"

instance ..

end

lemma numeral_Fin: "(numeral k :: dbl) = Fin (numeral k)"
  by (induction k) (simp_all only: numeral.simps one_dbl_def plus_dbl.simps)

lemmas dbl_consts = numeral_Fin one_dbl_def zero_dbl_def

lemma dbl_pow_class [simp]: "Fin a * Fin b = Fin (a * b)" "Fin a + Fin b = Fin (a + b)"
  "- Fin a = Fin (- a)"
  by simp_all

lemma Fin_div [simp]: "b \<noteq> 0 \<Longrightarrow> Fin a / Fin b = Fin (a / b)"
  by simp

text \<open>
  \<open>pow\<close> of the C library with its special cases; zero has no sign here, and an infinite negative
  base with an exponent that is no integer or is even is read like the positive one.
\<close>

fun dpow :: "dbl \<Rightarrow> dbl \<Rightarrow> dbl" where
  "dpow (Fin a) (Fin y) =
     (if y = 0 then 1
      else if a = 0 then (if y < 0 then PInf else 0)
      else if a < 0 \<and> y \<noteq> of_int \<lfloor>y\<rfloor> then NaN
      else Fin (mw_pow a y))"
| "dpow (Fin a) PInf = (if \<bar>a\<bar> = 1 then 1 else if \<bar>a\<bar> < 1 then 0 else PInf)"
| "dpow (Fin a) NInf = (if \<bar>a\<bar> = 1 then 1 else if \<bar>a\<bar> < 1 then PInf else 0)"
| "dpow (Fin a) NaN = (if a = 1 then 1 else NaN)"
| "dpow PInf (Fin y) = (if y = 0 then 1 else if y < 0 then 0 else PInf)"
| "dpow NInf (Fin y) =
     (if y = 0 then 1 else if y < 0 then 0
      else if y = of_int \<lfloor>y\<rfloor> \<and> odd \<lfloor>y\<rfloor> then NInf else PInf)"
| "dpow PInf PInf = PInf"
| "dpow PInf NInf = 0"
| "dpow NInf PInf = PInf"
| "dpow NInf NInf = 0"
| "dpow NaN (Fin y) = (if y = 0 then 1 else NaN)"
| "dpow _ _ = NaN"

lemma mw_pow_pos: "0 < x \<Longrightarrow> mw_pow x y = x powr y"
proof (cases "y = of_int \<lfloor>y\<rfloor>")
  case True
  assume x: "0 < x"
  have "x powr y = x powr of_int \<lfloor>y\<rfloor>" using True by simp
  also have "\<dots> = power_int x \<lfloor>y\<rfloor>" using x by (simp add: powr_real_of_int')
  finally show ?thesis using True by (simp add: mw_pow_def)
qed (simp add: mw_pow_def)

lemma dpow_pos: "0 < a \<Longrightarrow> dpow (Fin a) (Fin y) = Fin (a powr y)"
  by (simp add: mw_pow_pos one_dbl_def)

lemma dlog_ln: "0 < a \<Longrightarrow> dlog (Fin a) = Fin (ln a)"
  by simp

text \<open>\<open>isinf\<close> of the C library; \<open>isnan\<close> is in MW_Float.\<close>

definition isinf :: "dbl \<Rightarrow> bool" where
  "isinf x \<longleftrightarrow> x = PInf \<or> x = NInf"

lemma isinf_simps [simp]: "\<not> isinf (Fin a)" "isinf PInf" "isinf NInf" "\<not> isinf NaN"
  by (simp_all add: isinf_def)

lemma finite_cases: "\<not> isinf x \<and> \<not> isnan x \<longleftrightarrow> (\<exists>a. x = Fin a)"
  by (cases x) auto

text \<open>The scalar macros of \<open>milkyway_math_supplemental.h\<close> at this type.\<close>

definition dinv :: "dbl \<Rightarrow> dbl" where
  "dinv x = 1 / x"

definition dfifth :: "dbl \<Rightarrow> dbl" where
  "dfifth x = x * x * x * x * x"

definition dminusfivehalves :: "dbl \<Rightarrow> dbl" where
  "dminusfivehalves x = dinv (dsqrt (dfifth x))"

definition minushalf :: "dbl \<Rightarrow> dbl" where
  "minushalf x = dinv (dsqrt x)"

lemma dinv_Fin: "x \<noteq> 0 \<Longrightarrow> dinv (Fin x) = Fin (1 / x)"
  by (simp add: dinv_def one_dbl_def)

lemma dsqrt_Fin: "0 \<le> x \<Longrightarrow> dsqrt (Fin x) = Fin (sqrt x)"
  by simp

lemma dminusfivehalves_Fin: "0 < x \<Longrightarrow> dminusfivehalves (Fin x) = Fin (1 / (x\<^sup>2 * sqrt x))"
proof -
  assume x: "0 < x"
  then have "sqrt (x * x * x * x * x) = x\<^sup>2 * sqrt x"
    by (simp add: real_sqrt_mult power2_eq_square)
  moreover have "\<not> x * x * x * x * x < 0" using x by (simp add: mult_less_0_iff zero_less_mult_iff)
  ultimately show ?thesis using x
    by (simp add: dminusfivehalves_def dfifth_def dinv_Fin)
qed

end
