(* ===== verification/NBody_Util.thy ===== *)
theory NBody_Util
  imports NBody_Types MW_Double
begin

text \<open>
  \<open>nbody_util.c\<close>: the corrected time step, centres of mass and momentum, and the estimates of the
  work (\<open>nbReportTreeIncest\<close> is in NBody_Grav). The estimate of the operations is over \<open>dbl\<close>,
  because without quadrupoles it divides by zero. Its formula is negative for small systems, and
  \<open>worstFlops\<close> is there to lift it: what it subtracts is exactly the minimum of the formula.
\<close>

definition nbCorrectTimestep :: "real \<Rightarrow> real \<Rightarrow> real" where
  "nbCorrectTimestep T dt = (let nSteps = of_int \<lceil>T / dt\<rceil> in T / nSteps)"

text \<open>The three sums of weighted components and the sum of the masses, as Kahan sums.\<close>

type_synonym weighted_sums = "Kahan \<times> Kahan \<times> Kahan \<times> Kahan"

definition add_weighted :: "(Body \<Rightarrow> mwvector) \<Rightarrow> Body \<Rightarrow> weighted_sums \<Rightarrow> weighted_sums" where
  "add_weighted f b = (\<lambda>(px, py, pz, m).
     let tmp = mw_mulvs (f b) (b_mass b)
     in (KAHAN_ADD px (X tmp), KAHAN_ADD py (Y tmp), KAHAN_ADD pz (Z tmp), KAHAN_ADD m (b_mass b)))"

definition weighted_centre :: "(Body \<Rightarrow> mwvector) \<Rightarrow> ('b NBodyState_scheme) \<Rightarrow> mwvector \<times> real" where
  "weighted_centre f st =
     (let (px, py, pz, m) = fold (\<lambda>i. add_weighted f (bodytab st ! i)) [0..<nbody st]
            (ZERO_KAHAN, ZERO_KAHAN, ZERO_KAHAN, ZERO_KAHAN)
      in (\<lparr>X = ksum px / ksum m, Y = ksum py / ksum m, Z = ksum pz / ksum m\<rparr>, ksum m))"

text \<open>The second component is \<open>W(cm)\<close>, the total mass.\<close>

definition nbCenterOfMass :: "('b NBodyState_scheme) \<Rightarrow> mwvector \<times> real" where
  "nbCenterOfMass st = weighted_centre b_pos st"

definition nbCenterOfMom :: "('b NBodyState_scheme) \<Rightarrow> mwvector \<times> real" where
  "nbCenterOfMom st = weighted_centre b_vel st"

text \<open>The literals \<open>M_E\<close> and \<open>M_PI\<close> are read as e and pi.\<close>

definition log8 :: "dbl \<Rightarrow> dbl" where
  "log8 x = dlog x / dlog 8"

definition worstFlops :: "dbl \<Rightarrow> dbl \<Rightarrow> dbl \<Rightarrow> dbl" where
  "worstFlops cQ d f =
     (let a = dpow 2 (3 - 3 * d / cQ);
          b = (cQ - d) * dlog 8;
          c = cQ * dlog (dpow 8 (1 - d / cQ))
      in - a * sqr f * (cQ + b - c) / (Fin (exp 1) * dlog 8))"

definition nbEstimateNumberFlops :: "dbl NBodyCtx \<Rightarrow> int \<Rightarrow> dbl" where
  "nbEstimateNumberFlops ctx nbods =
     (let n = Fin (of_int nbods);
          nSteps = timeEvolve ctx / timestep ctx;
          cQ = (if useQuad ctx then 50 else 0);
          d = 13;
          f = 28 * Fin pi / (3 * cube (theta ctx));
          f = (if criterion ctx \<noteq> BH86 then f * 3 else f);
          quadTerm = cQ * n * f * (log8 (n / f) - 1);
          baseTerm = d * n * f
      in nSteps * (quadTerm + baseTerm - worstFlops cQ d f))"

definition nbEstimateTime :: "dbl NBodyCtx \<Rightarrow> int \<Rightarrow> dbl \<Rightarrow> dbl" where
  "nbEstimateTime ctx nbods flops =
     (let factor = Fin (205 / 100); efficiency = Fin (95 / 100);
          nflop = nbEstimateNumberFlops ctx nbods
      in factor * nflop / (efficiency * flops))"

section \<open>Time step and centres\<close>

lemma nbCorrectTimestep_exact:
  assumes "0 < T" "0 < dt"
  shows "of_int \<lceil>T / dt\<rceil> * nbCorrectTimestep T dt = T" "nbCorrectTimestep T dt \<le> dt"
proof -
  have q: "0 < T / dt" using assms by simp
  then have c: "(0::real) < of_int \<lceil>T / dt\<rceil>" by simp
  then show "of_int \<lceil>T / dt\<rceil> * nbCorrectTimestep T dt = T"
    by (simp add: nbCorrectTimestep_def del: of_int_0_less_iff zero_less_ceiling)
  have "T / dt \<le> of_int \<lceil>T / dt\<rceil>" by (rule le_of_int_ceiling)
  then show "nbCorrectTimestep T dt \<le> dt"
    using c assms by (simp add: nbCorrectTimestep_def divide_le_eq mult.commute del: le_of_int_ceiling)
qed

lemma add_weighted_fold:
  "fold (\<lambda>i. add_weighted f (bs ! i)) js
     (\<lparr>ksum = x, correction = 0\<rparr>, \<lparr>ksum = y, correction = 0\<rparr>,
      \<lparr>ksum = z, correction = 0\<rparr>, \<lparr>ksum = m, correction = 0\<rparr>)
   = (\<lparr>ksum = x + (\<Sum>i\<leftarrow>js. b_mass (bs ! i) * X (f (bs ! i))), correction = 0\<rparr>,
      \<lparr>ksum = y + (\<Sum>i\<leftarrow>js. b_mass (bs ! i) * Y (f (bs ! i))), correction = 0\<rparr>,
      \<lparr>ksum = z + (\<Sum>i\<leftarrow>js. b_mass (bs ! i) * Z (f (bs ! i))), correction = 0\<rparr>,
      \<lparr>ksum = m + (\<Sum>i\<leftarrow>js. b_mass (bs ! i)), correction = 0\<rparr>)"
  by (induction js arbitrary: x y z m)
     (simp_all add: add_weighted_def kahan_add_exact mw_mulvs_def)

lemma weighted_centre_mean:
  fixes st :: "'b NBodyState_scheme"
  defines "ms \<equiv> map (\<lambda>i. b_mass (bodytab st ! i)) [0..<nbody st]"
  shows "weighted_centre f st =
    (\<lparr>X = (\<Sum>i\<leftarrow>[0..<nbody st]. b_mass (bodytab st ! i) * X (f (bodytab st ! i))) / sum_list ms,
      Y = (\<Sum>i\<leftarrow>[0..<nbody st]. b_mass (bodytab st ! i) * Y (f (bodytab st ! i))) / sum_list ms,
      Z = (\<Sum>i\<leftarrow>[0..<nbody st]. b_mass (bodytab st ! i) * Z (f (bodytab st ! i))) / sum_list ms\<rparr>,
     sum_list ms)"
  by (simp add: weighted_centre_def ZERO_KAHAN_def add_weighted_fold ms_def)

section \<open>The estimate of the operations\<close>

text \<open>The tangent of the exponential at a suitable point bounds \<open>x ln x\<close> from below.\<close>

lemma xlnx_tangent:
  fixes x k :: real
  assumes "0 < x"
  shows "0 \<le> x * (ln x - k) + exp (k - 1)"
proof -
  have "1 + (k - 1 - ln x) \<le> exp (k - 1 - ln x)" by (rule exp_ge_add_one_self)
  also have "exp (k - 1 - ln x) = exp (k - 1) / x" using assms by (simp add: exp_diff)
  finally have "x * (k - ln x) \<le> exp (k - 1)" using assms by (simp add: field_simps)
  then show ?thesis by (simp add: algebra_simps)
qed

lemma powr_eight: "(8::real) powr y = exp (y * ln 8)" and two_powr_thrice: "(2::real) powr (3 * y) = exp (y * ln 8)"
proof -
  show "(8::real) powr y = exp (y * ln 8)" by (simp add: powr_def)
  have "ln (8::real) = ln (2 ^ 3)" by simp
  also have "\<dots> = 3 * ln 2" by (subst ln_realpow) simp_all
  finally show "(2::real) powr (3 * y) = exp (y * ln 8)" by (simp add: powr_def)
qed

lemma worstFlops_value:
  assumes "cQ \<noteq> 0"
  shows "worstFlops (Fin cQ) (Fin d) (Fin f) =
    Fin (- (f\<^sup>2 * cQ * exp ((1 - d / cQ) * ln 8 - 1) / ln 8))"
proof -
  have l: "0 < ln (8::real)" by simp
  have a: "dpow 2 (3 - 3 * Fin d / Fin cQ) = Fin (exp ((1 - d / cQ) * ln 8))"
    using assms two_powr_thrice[of "1 - d / cQ"] dpow_pos[of 2 "3 - 3 * d / cQ"]
    by (simp add: dbl_consts algebra_simps del: dpow.simps)
  have c: "dlog (dpow 8 (1 - Fin d / Fin cQ)) = Fin ((1 - d / cQ) * ln 8)"
    using assms dpow_pos[of 8 "1 - d / cQ"]
    by (simp add: dbl_consts powr_eight del: dpow.simps)
  have "cQ * ((1 - d / cQ) * ln 8) = (cQ - d) * ln 8"
    using assms by (simp add: algebra_simps)
  then have "cQ + (cQ - d) * ln 8 - cQ * ((1 - d / cQ) * ln 8) = cQ" by simp
  then show ?thesis
    using l assms unfolding worstFlops_def Let_def a c
    by (simp add: dbl_consts exp_diff exp_add power2_eq_square algebra_simps)
qed

lemma flops_formula_nonneg:
  fixes n f d cQ :: real
  assumes "0 < n" "0 < f" "0 < cQ"
  shows "0 \<le> cQ * n * f * (ln (n / f) / ln 8 - 1) + d * n * f
            + f\<^sup>2 * cQ * exp ((1 - d / cQ) * ln 8 - 1) / ln 8"
proof -
  define x where "x = n / f"
  have x: "0 < x" "n = x * f" using assms by (simp_all add: x_def)
  define k where "k = (1 - d / cQ) * ln 8"
  have l: "0 < ln (8::real)" by simp
  have "cQ * n * f * (ln (n / f) / ln 8 - 1) + d * n * f + f\<^sup>2 * cQ * exp (k - 1) / ln 8
      = (f\<^sup>2 * cQ / ln 8) * (x * (ln x - k) + exp (k - 1))"
    using assms l x by (simp add: k_def field_simps power2_eq_square)
  moreover have "0 \<le> (f\<^sup>2 * cQ / ln 8) * (x * (ln x - k) + exp (k - 1))"
    using xlnx_tangent[OF x(1), of k] assms l by simp
  ultimately show ?thesis by (simp add: k_def)
qed
text \<open>Without quadrupoles the estimate of the number of operations is NaN for every number of
  bodies, since \<open>worstFlops\<close> multiplies zero by the logarithm of zero; with quadrupoles it is a
  finite number that is never negative, whatever the number of bodies, because the term
  \<open>worstFlops\<close> is exactly the minimum of the formula.\<close>

theorem nbEstimateNumberFlops_cases:
  assumes "timeEvolve ctx = Fin T" "timestep ctx = Fin dt" "theta ctx = Fin th"
    and "0 \<le> T" "0 < dt" "0 < th" "0 < n"
  shows "if useQuad ctx
         then \<exists>e. nbEstimateNumberFlops ctx n = Fin e \<and> 0 \<le> e
         else nbEstimateNumberFlops ctx n = NaN"
proof (cases "useQuad ctx")
  case False
  have "worstFlops 0 13 f = NaN" for f
    by (simp add: worstFlops_def dbl_consts Let_def minus_dbl_def)
  then show ?thesis using False by (simp add: nbEstimateNumberFlops_def Let_def)
next
  case True
  define f where "f = (if criterion ctx \<noteq> BH86 then 28 * pi / (3 * cube th) * 3 else 28 * pi / (3 * cube th))"
  have f: "0 < f" using assms by (simp add: f_def)
  have fd: "(let f = 28 * Fin pi / (3 * cube (theta ctx))
             in if criterion ctx \<noteq> BH86 then f * 3 else f) = Fin f"
    using assms by (simp add: f_def dbl_consts)
  define g where "g = 50 * real_of_int n * f * (ln (real_of_int n / f) / ln 8 - 1) + 13 * real_of_int n * f
            + f\<^sup>2 * 50 * exp ((1 - 13 / 50) * ln 8 - 1) / ln 8"
  have g: "0 \<le> g"
    using flops_formula_nonneg[of "real_of_int n" f 50 13] f assms by (simp add: g_def)
  have "nbEstimateNumberFlops ctx n = Fin (T / dt * g)"
  proof -
    have nf: "0 < real_of_int n / f" using f assms by simp
    have "log8 (Fin (real_of_int n) / Fin f) = Fin (ln (real_of_int n / f) / ln 8)"
      using nf f assms(7) dlog_ln[OF nf] by (simp add: log8_def dbl_consts del: dlog.simps) (simp add: dlog_ln)
    moreover have "nbEstimateNumberFlops ctx n =
        Fin T / Fin dt * (50 * Fin (real_of_int n) * Fin f * (log8 (Fin (real_of_int n) / Fin f) - 1)
          + 13 * Fin (real_of_int n) * Fin f - worstFlops 50 13 (Fin f))"
      using True assms(1,2) fd unfolding nbEstimateNumberFlops_def Let_def by simp
    ultimately show ?thesis
      using assms worstFlops_value[of 50 13 f] by (simp add: dbl_consts g_def)
  qed
  moreover have "0 \<le> T / dt * g" using assms g by simp
  ultimately show ?thesis using True by simp
qed

definition sample_ctx :: "bool \<Rightarrow> dbl NBodyCtx" where
  "sample_ctx q =
     \<lparr>eps2 = Fin (0), theta = Fin 1, timestep = Fin 1, timeEvolve = Fin 4, timeBack = Fin (0), treeRSize = Fin (4),
      sunGCDist = Fin (8), ctx_b = Fin (53.5), ctx_r = Fin (28.6), ctx_vx = Fin (-156), ctx_vy = Fin (79), ctx_vz = Fin (107),
      criterion = BH86, potentialType = EXTERNAL_POTENTIAL_DEFAULT,
      Nstep_control = False, useBestLike = False, useVelDisp = False, useBetaDisp = True,
      useBetaComp = False, useVlos = False, useDist = False, MultiOutput = False,
      OutputLB = False, useQuad = q, allowIncest = False, quietErrors = False,
      BestLikeStart = Fin (0.95), OutputFreq = Fin (1000), BetaSigma = Fin (2.5), VelSigma = Fin (2.5),
      DistSigma = Fin (2.5), IterMax = Fin (6), BetaCorrect = Fin (1.111), VelCorrect = Fin (1.111),
      DistCorrect = Fin (1.111), LMC = False, LMCmass = Fin (0), LMCscale = Fin (0), LMCDynaFric = False,
      coulomb_log = Fin (0), calibrationRuns = 0,
      Ntsteps = Fin 900, checkpointT = 0, nStep = 0,
      pot = EMPTY_POTENTIAL\<rparr>"

theorem nbEstimateNumberFlops_cases_witness:
  "nbEstimateNumberFlops (sample_ctx False) 100 = NaN \<and>
   (\<exists>e. nbEstimateNumberFlops (sample_ctx True) 1 = Fin e \<and> 0 \<le> e)"
  using nbEstimateNumberFlops_cases[of "sample_ctx False" 4 1 1 100]
    nbEstimateNumberFlops_cases[of "sample_ctx True" 4 1 1 1]
  by (simp add: sample_ctx_def)

end
