(* ===== verification/MW_Random.thy ===== *)
theory MW_Random
  imports NBody_Types MW_Double
begin

text \<open>
  The random numbers: the generator \<open>dSFMT\<close> (the standard C branch of \<open>dSFMT.c\<close> and \<open>dSFMT.h\<close> with
  the parameters for the exponent 19937, which the build sets) and the draws of \<open>milkyway_util\<close> that
  are made from it. The 128 bit blocks are pairs of words of 64 bits; a double is read from the bits
  of its word, as the code does by its unions.
\<close>

section \<open>Parameters and state\<close>

definition DSFMT_N :: nat where "DSFMT_N = (19937 - 128) div 104 + 1"
definition DSFMT_N64 :: nat where "DSFMT_N64 = DSFMT_N * 2"
definition DSFMT_POS1 :: nat where "DSFMT_POS1 = 117"
definition DSFMT_SL1 :: nat where "DSFMT_SL1 = 19"
definition DSFMT_SR :: nat where "DSFMT_SR = 12"
definition DSFMT_MSK1 :: "64 word" where "DSFMT_MSK1 = 0x000ffafffffffb3f"
definition DSFMT_MSK2 :: "64 word" where "DSFMT_MSK2 = 0x000ffdfffc90fffd"
definition DSFMT_FIX1 :: "64 word" where "DSFMT_FIX1 = 0x90014964b32f4329"
definition DSFMT_FIX2 :: "64 word" where "DSFMT_FIX2 = 0x3b8d12ac548a7c7a"
definition DSFMT_PCV1 :: "64 word" where "DSFMT_PCV1 = 0x3d84e1ac0dc82880"
definition DSFMT_PCV2 :: "64 word" where "DSFMT_PCV2 = 0x0000000000000001"
definition DSFMT_LOW_MASK :: "64 word" where "DSFMT_LOW_MASK = 0x000FFFFFFFFFFFFF"
definition DSFMT_HIGH_CONST :: "64 word" where "DSFMT_HIGH_CONST = 0x3FF0000000000000"

lemmas dsfmt_params = DSFMT_N_def DSFMT_N64_def DSFMT_POS1_def DSFMT_SL1_def DSFMT_SR_def
  DSFMT_MSK1_def DSFMT_MSK2_def DSFMT_FIX1_def DSFMT_FIX2_def DSFMT_PCV1_def DSFMT_PCV2_def
  DSFMT_LOW_MASK_def DSFMT_HIGH_CONST_def

type_synonym w128_t = "64 word \<times> 64 word"

record dsfmt_t =
  status :: "w128_t list"
  idx :: nat

text \<open>The word \<open>psfmt64[i]\<close> of the state, and an IEEE double from its bits.\<close>

definition word_at :: "w128_t list \<Rightarrow> nat \<Rightarrow> 64 word" where
  "word_at st i = (if even i then fst (st ! (i div 2)) else snd (st ! (i div 2)))"

definition double_of_bits :: "64 word \<Rightarrow> dbl" where
  "double_of_bits w =
     (let s = (if bit w 63 then -1 else 1 :: real);
          e = unat (drop_bit 52 w AND 0x7FF);
          m = real (unat (take_bit 52 w))
      in if e = 2047 then (if m = 0 then (if bit w 63 then NInf else PInf) else NaN)
         else if e = 0 then Fin (s * (m / 2 ^ 52) / 2 ^ 1022)
         else Fin (s * (1 + m / 2 ^ 52) * 2 powr (real e - 1023)))"

section \<open>The generator\<close>

text \<open>The result and the new value of \<open>lung\<close>.\<close>

definition do_recursion :: "w128_t \<Rightarrow> w128_t \<Rightarrow> w128_t \<Rightarrow> w128_t \<times> w128_t" where
  "do_recursion a b lung =
     (let t0 = fst a; t1 = snd a; L0 = fst lung; L1 = snd lung;
          u0 = push_bit DSFMT_SL1 t0 XOR drop_bit 32 L1 XOR push_bit 32 L1 XOR fst b;
          u1 = push_bit DSFMT_SL1 t1 XOR drop_bit 32 L0 XOR push_bit 32 L0 XOR snd b;
          r0 = drop_bit DSFMT_SR u0 XOR (u0 AND DSFMT_MSK1) XOR t0;
          r1 = drop_bit DSFMT_SR u1 XOR (u1 AND DSFMT_MSK2) XOR t1
      in ((r0, r1), (u0, u1)))"

definition gen_rand_step :: "(nat \<Rightarrow> nat) \<Rightarrow> nat \<Rightarrow> w128_t list \<times> w128_t \<Rightarrow> w128_t list \<times> w128_t" where
  "gen_rand_step partner i = (\<lambda>(st, lung).
     let (r, lung') = do_recursion (st ! i) (st ! partner i) lung in (st[i := r], lung'))"

definition dsfmt_gen_rand_all :: "dsfmt_t \<Rightarrow> dsfmt_t" where
  "dsfmt_gen_rand_all d =
     (let lung = status d ! DSFMT_N;
          p = gen_rand_step (\<lambda>_. DSFMT_POS1) 0 (status d, lung);
          p = fold (gen_rand_step (\<lambda>i. i + DSFMT_POS1)) [1..<DSFMT_N - DSFMT_POS1] p;
          p = fold (gen_rand_step (\<lambda>i. i + DSFMT_POS1 - DSFMT_N)) [DSFMT_N - DSFMT_POS1..<DSFMT_N] p
      in d\<lparr>status := (fst p)[DSFMT_N := snd p]\<rparr>)"

text \<open>The refill that every draw starts with, and the draws.\<close>

definition refill :: "dsfmt_t \<Rightarrow> dsfmt_t" where
  "refill d = (if DSFMT_N64 \<le> idx d then (dsfmt_gen_rand_all d)\<lparr>idx := 0\<rparr> else d)"

definition dsfmt_genrand_uint32 :: "dsfmt_t \<Rightarrow> 32 word \<times> dsfmt_t" where
  "dsfmt_genrand_uint32 d =
     (let d = refill d
      in (ucast (word_at (status d) (idx d) AND 0xffffffff), d\<lparr>idx := idx d + 1\<rparr>))"

definition dsfmt_genrand_close1_open2 :: "dsfmt_t \<Rightarrow> dbl \<times> dsfmt_t" where
  "dsfmt_genrand_close1_open2 d =
     (let d = refill d in (double_of_bits (word_at (status d) (idx d)), d\<lparr>idx := idx d + 1\<rparr>))"

definition dsfmt_genrand_close_open :: "dsfmt_t \<Rightarrow> dbl \<times> dsfmt_t" where
  "dsfmt_genrand_close_open d =
     (let (r, d') = dsfmt_genrand_close1_open2 d in (r - 1, d'))"

definition dsfmt_genrand_open_close :: "dsfmt_t \<Rightarrow> dbl \<times> dsfmt_t" where
  "dsfmt_genrand_open_close d =
     (let (r, d') = dsfmt_genrand_close1_open2 d in (2 - r, d'))"

definition dsfmt_genrand_open_open :: "dsfmt_t \<Rightarrow> dbl \<times> dsfmt_t" where
  "dsfmt_genrand_open_open d =
     (let d = refill d
      in (double_of_bits (word_at (status d) (idx d) OR 1) - 1, d\<lparr>idx := idx d + 1\<rparr>))"

section \<open>Initialisation\<close>

text \<open>The array of 32 bit words that overlays the state, on a little-endian machine.\<close>

definition seed_word :: "32 word \<Rightarrow> nat \<Rightarrow> 32 word" where
  "seed_word prev i = 1812433253 * (prev XOR drop_bit 30 prev) + of_nat i"

definition seed_words :: "32 word \<Rightarrow> 32 word list" where
  "seed_words seed =
     fold (\<lambda>i ws. ws @ [seed_word (ws ! (i - 1)) i]) [1..<(DSFMT_N + 1) * 4] [seed]"

definition u64_of :: "32 word list \<Rightarrow> nat \<Rightarrow> 64 word" where
  "u64_of ws i = ucast (ws ! (2 * i)) OR push_bit 32 (ucast (ws ! (2 * i + 1)))"

definition initial_mask_word :: "64 word \<Rightarrow> 64 word" where
  "initial_mask_word w = (w AND DSFMT_LOW_MASK) OR DSFMT_HIGH_CONST"

definition initial_mask :: "w128_t list \<Rightarrow> w128_t list" where
  "initial_mask st =
     map (map_prod initial_mask_word initial_mask_word) (take DSFMT_N st) @ drop DSFMT_N st"

definition parity64 :: "64 word \<Rightarrow> 64 word" where
  "parity64 w = fold (\<lambda>i x. x XOR drop_bit i x) [32, 16, 8, 4, 2, 1] w AND 1"

definition certified :: "w128_t \<Rightarrow> 64 word" where
  "certified p = parity64 (((fst p XOR DSFMT_FIX1) AND DSFMT_PCV1) XOR ((snd p XOR DSFMT_FIX2) AND DSFMT_PCV2))"

definition period_certification :: "w128_t list \<Rightarrow> w128_t list" where
  "period_certification st =
     (if certified (st ! DSFMT_N) = 1 then st
      else st[DSFMT_N := (fst (st ! DSFMT_N), snd (st ! DSFMT_N) XOR 1)])"

definition dsfmt_init_gen_rand :: "32 word \<Rightarrow> dsfmt_t" where
  "dsfmt_init_gen_rand seed =
     (let ws = seed_words seed;
          st = map (\<lambda>k. (u64_of ws (2 * k), u64_of ws (2 * k + 1))) [0..<DSFMT_N + 1]
      in \<lparr>status = period_certification (initial_mask st), idx = DSFMT_N64\<rparr>)"

section \<open>The draws of the program\<close>

text \<open>
  The value of a draw is finite in every state that the initialisation makes (below), so the
  program's reals are the reals under it.
\<close>

definition mwXrandom :: "dsfmt_t \<Rightarrow> real \<Rightarrow> real \<Rightarrow> real \<times> dsfmt_t" where
  "mwXrandom d xl xh =
     (let (u, d') = dsfmt_genrand_open_open d in (xl + (xh - xl) * dval u, d'))"

definition mwUnitRandom :: "dsfmt_t \<Rightarrow> real \<times> dsfmt_t" where
  "mwUnitRandom d = mwXrandom d (-1) 1"

definition mwRandomUnitPoint :: "dsfmt_t \<Rightarrow> mwvector \<times> dsfmt_t" where
  "mwRandomUnitPoint d =
     (let (x, d) = mwUnitRandom d; (y, d) = mwUnitRandom d; (z, d) = mwUnitRandom d
      in (\<lparr>X = x, Y = y, Z = z\<rparr>, d))"

definition mwRandomPoint :: "dsfmt_t \<Rightarrow> real \<Rightarrow> mwvector \<times> dsfmt_t" where
  "mwRandomPoint d s = (let (v, d') = mwRandomUnitPoint d in (mw_incmulvs v s, d'))"

text \<open>\<open>mw_normalize\<close> divides by the length.\<close>

definition mwRandomUnitVector :: "dsfmt_t \<Rightarrow> mwvector \<times> dsfmt_t" where
  "mwRandomUnitVector d = (let (v, d') = mwRandomUnitPoint d in (mw_incdivs v (mw_length v), d'))"

definition mwRandomVector :: "dsfmt_t \<Rightarrow> real \<Rightarrow> mwvector \<times> dsfmt_t" where
  "mwRandomVector d r = (let (v, d') = mwRandomUnitVector d in (mw_incmulvs v r, d'))"

section \<open>Rejection\<close>

text \<open>A loop \<open>do x = draw(state); while (!ok(x));\<close>. It may run for ever.\<close>

partial_function (option) reject :: "('s \<Rightarrow> 'a \<times> 's) \<Rightarrow> ('a \<Rightarrow> bool) \<Rightarrow> 's \<Rightarrow> ('a \<times> 's) option" where
  "reject draw ok s = (let (x, s') = draw s in if ok x then Some (x, s') else reject draw ok s')"

declare reject.simps [code]

end
