(* ===== verification/MW_RandomProps.thy ===== *)
theory MW_RandomProps
  imports MW_Random
begin

text \<open>
  What holds of the random numbers. Every word of a state carries the sign and exponent of a double
  in [1, 2), so every draw is finite and inside its interval, and the draws of the open interval have
  an odd numerator over \<open>2 ^ 52\<close>, which keeps the coordinates of a random point away from zero.
  The locale \<open>sampler\<close> is the interface the initial models use: a draw, the states it may be made in,
  and what holds of the value drawn. Drawing until a test accepts is \<open>reject\<close>.
\<close>

section \<open>Words of doubles in [1, 2)\<close>

definition one_two :: "64 word \<Rightarrow> bool" where
  "one_two w \<longleftrightarrow> drop_bit 52 w = 0x3FF"

lemma one_two_value:
  assumes "one_two w"
  shows "double_of_bits w = Fin (1 + real (unat (take_bit 52 w)) / 2 ^ 52)"
proof -
  have "bit w 63 \<longleftrightarrow> bit (drop_bit 52 w) 11" by (simp add: bit_drop_bit_eq)
  then have "\<not> bit w 63" using assms by (simp add: one_two_def)
  then show ?thesis using assms by (simp add: double_of_bits_def one_two_def)
qed

lemma take52_less: "unat (take_bit 52 (w :: 64 word)) < 2 ^ 52"
  using take_bit_nat_less_exp[of 52 "unat w"]
  by (simp add: unsigned_take_bit_eq del: take_bit_nat_less_exp)

lemma one_two_or_1:
  assumes "one_two w"
  shows "one_two (w OR 1)" "odd (unat (take_bit 52 (w OR 1)))"
proof -
  show "one_two (w OR 1)" using assms by (simp add: one_two_def drop_bit_or)
  show "odd (unat (take_bit 52 (w OR 1)))"
    by (simp add: unsigned_take_bit_eq unsigned_or_eq even_or_iff)
qed

lemma one_two_mask: "one_two (initial_mask_word w)"
  by (simp add: one_two_def initial_mask_word_def dsfmt_params drop_bit_or drop_bit_and)

lemma one_two_recursion:
  assumes "one_two (fst a)" "one_two (snd a)"
  shows "one_two (fst (fst (do_recursion a b l)))" "one_two (snd (fst (do_recursion a b l)))"
proof -
  have "drop_bit 52 (drop_bit 12 u) = 0" for u :: "64 word"
    by (rule bit_eqI) (auto simp: bit_drop_bit_eq dest: bit_imp_le_length)
  then show "one_two (fst (fst (do_recursion a b l)))" "one_two (snd (fst (do_recursion a b l)))"
    using assms by (simp_all add: do_recursion_def one_two_def dsfmt_params Let_def drop_bit_xor drop_bit_and)
qed

section \<open>The invariant of the state\<close>

definition good_words :: "w128_t list \<Rightarrow> bool" where
  "good_words st \<longleftrightarrow> length st = DSFMT_N + 1 \<and>
     (\<forall>k < DSFMT_N. one_two (fst (st ! k)) \<and> one_two (snd (st ! k)))"

definition dsfmt_ok :: "dsfmt_t \<Rightarrow> bool" where
  "dsfmt_ok d \<longleftrightarrow> good_words (status d) \<and> idx d \<le> DSFMT_N64"

lemma good_words_update:
  assumes "good_words st" "k = DSFMT_N \<or> one_two (fst r) \<and> one_two (snd r)"
  shows "good_words (st[k := r])"
  using assms by (cases "k < length st") (auto simp: good_words_def nth_list_update list_update_beyond)

lemma good_words_at: "good_words st \<Longrightarrow> i < DSFMT_N64 \<Longrightarrow> one_two (word_at st i)"
  by (auto simp: good_words_def word_at_def DSFMT_N64_def)

lemma gen_rand_step_good:
  assumes "good_words (fst p)" "i < DSFMT_N"
  shows "good_words (fst (gen_rand_step h i p))"
proof -
  obtain st lung where p: "p = (st, lung)" by (cases p)
  have "one_two (fst (st ! i))" "one_two (snd (st ! i))"
    using assms by (auto simp: good_words_def p)
  then show ?thesis
    using assms one_two_recursion[of "st ! i" "st ! h i" lung]
    by (auto simp: gen_rand_step_def p split: prod.splits intro!: good_words_update)
qed

lemma gen_rand_fold_good:
  "good_words (fst p) \<Longrightarrow> \<forall>i \<in> set js. i < DSFMT_N \<Longrightarrow>
   good_words (fst (fold (gen_rand_step h) js p))"
  by (induction js arbitrary: p) (simp_all add: gen_rand_step_good)

lemma gen_rand_all_good: "good_words (status d) \<Longrightarrow> good_words (status (dsfmt_gen_rand_all d))"
proof -
  assume g: "good_words (status d)"
  have 0: "0 < DSFMT_N" by (simp add: DSFMT_N_def)
  show ?thesis
    unfolding dsfmt_gen_rand_all_def Let_def
    by (simp, intro good_words_update disjI1 refl gen_rand_fold_good gen_rand_step_good)
       (use g 0 in auto)
qed

lemma refill_ok:
  assumes "dsfmt_ok d"
  shows "good_words (status (refill d))" "idx (refill d) < DSFMT_N64"
    "one_two (word_at (status (refill d)) (idx (refill d)))"
proof -
  show g: "good_words (status (refill d))"
    using assms by (simp add: dsfmt_ok_def refill_def gen_rand_all_good)
  show i: "idx (refill d) < DSFMT_N64"
    using assms by (simp add: dsfmt_ok_def refill_def DSFMT_N64_def DSFMT_N_def)
  show "one_two (word_at (status (refill d)) (idx (refill d)))"
    by (rule good_words_at[OF g i])
qed

lemma initial_mask_good:
  assumes "length st = DSFMT_N + 1"
  shows "good_words (initial_mask st)"
  using assms by (auto simp: good_words_def initial_mask_def nth_append one_two_mask fst_map_prod snd_map_prod)

lemma period_certification_good: "good_words st \<Longrightarrow> good_words (period_certification st)"
  by (auto simp: period_certification_def intro: good_words_update)

lemma init_ok: "dsfmt_ok (dsfmt_init_gen_rand seed)"
  by (simp add: dsfmt_init_gen_rand_def Let_def dsfmt_ok_def period_certification_good initial_mask_good)

section \<open>The draws\<close>

lemma open_open_draw:
  assumes "dsfmt_ok d"
  obtains m d' where "dsfmt_genrand_open_open d = (Fin (real m / 2 ^ 52), d')" "dsfmt_ok d'"
    "odd m" "0 < m" "m < 2 ^ 52"
proof -
  define w where "w = word_at (status (refill d)) (idx (refill d))"
  define m where "m = unat (take_bit 52 (w OR 1))"
  have w: "one_two w" using refill_ok[OF assms] by (simp add: w_def)
  have "dsfmt_genrand_open_open d = (Fin (real m / 2 ^ 52), (refill d)\<lparr>idx := idx (refill d) + 1\<rparr>)"
    using one_two_value[OF one_two_or_1(1)[OF w]]
    by (simp add: dsfmt_genrand_open_open_def Let_def w_def[symmetric] m_def dbl_consts)
  moreover have "dsfmt_ok ((refill d)\<lparr>idx := idx (refill d) + 1\<rparr>)"
    using refill_ok[OF assms] by (simp add: dsfmt_ok_def)
  moreover have "odd m" using one_two_or_1(2)[OF w] by (simp add: m_def)
  moreover have "0 < m" using \<open>odd m\<close> by (cases m) auto
  moreover have "m < 2 ^ 52" unfolding m_def by (rule take52_less)
  ultimately show ?thesis using that by blast
qed

lemma close1_open2_draw:
  assumes "dsfmt_ok d"
  obtains x d' where "dsfmt_genrand_close1_open2 d = (Fin x, d')" "dsfmt_ok d'" "1 \<le> x" "x < 2"
proof -
  define w where "w = word_at (status (refill d)) (idx (refill d))"
  define n where "n = unat (take_bit 52 w)"
  have w: "one_two w" using refill_ok[OF assms] by (simp add: w_def)
  have "dsfmt_genrand_close1_open2 d = (Fin (1 + real n / 2 ^ 52), (refill d)\<lparr>idx := idx (refill d) + 1\<rparr>)"
    using one_two_value[OF w] by (simp add: dsfmt_genrand_close1_open2_def Let_def w_def[symmetric] n_def)
  moreover have "dsfmt_ok ((refill d)\<lparr>idx := idx (refill d) + 1\<rparr>)"
    using refill_ok[OF assms] by (simp add: dsfmt_ok_def)
  moreover have "1 \<le> 1 + real n / 2 ^ 52" by simp
  moreover have "n < 2 ^ 52" unfolding n_def by (rule take52_less)
  then have "real n < 2 ^ 52" by (metis of_nat_less_iff of_nat_numeral of_nat_power)
  then have "1 + real n / 2 ^ 52 < 2" by simp
  ultimately show ?thesis using that by blast
qed

lemma close_open_draw:
  assumes "dsfmt_ok d"
  obtains x d' where "dsfmt_genrand_close_open d = (Fin x, d')" "dsfmt_ok d'" "0 \<le> x" "x < 1"
proof -
  obtain y d' where "dsfmt_genrand_close1_open2 d = (Fin y, d')" "dsfmt_ok d'" "1 \<le> y" "y < 2"
    by (rule close1_open2_draw[OF assms])
  then show ?thesis using that[of "y - 1" d']
    by (simp add: dsfmt_genrand_close_open_def dbl_consts)
qed


lemma mwXrandom_draw:
  assumes "dsfmt_ok d" "a < b"
  obtains x d' where "mwXrandom d a b = (x, d')" "dsfmt_ok d'" "a < x" "x < b"
proof -
  obtain m d' where m: "dsfmt_genrand_open_open d = (Fin (real m / 2 ^ 52), d')" "dsfmt_ok d'"
      "0 < m" "m < 2 ^ 52"
    by (rule open_open_draw[OF assms(1)])
  define u where "u = real m / 2 ^ 52"
  have "real m < 2 ^ 52" using m(4) by (metis of_nat_less_iff of_nat_numeral of_nat_power)
  then have u: "0 < u" "u < 1" using m(3) by (simp_all add: u_def)
  have "mwXrandom d a b = (a + (b - a) * u, d')"
    using m(1) by (simp add: mwXrandom_def u_def)
  moreover have "a < a + (b - a) * u" using u assms(2) by simp
  moreover have "(b - a) * u < (b - a) * 1" using u assms(2) by (intro mult_strict_left_mono) simp_all
  then have "a + (b - a) * u < b" by simp
  ultimately show ?thesis using that m(2) by blast
qed

text \<open>A coordinate of a random point is \<open>2 m / 2 ^ 52 - 1\<close> with \<open>m\<close> odd, so it is never zero.\<close>

lemma mwUnitRandom_draw:
  assumes "dsfmt_ok d"
  obtains x d' where "mwUnitRandom d = (x, d')" "dsfmt_ok d'" "- 1 < x" "x < 1" "x \<noteq> 0"
proof -
  obtain m d' where m: "dsfmt_genrand_open_open d = (Fin (real m / 2 ^ 52), d')" "dsfmt_ok d'"
      "odd m" "0 < m" "m < 2 ^ 52"
    by (rule open_open_draw[OF assms])
  define x where "x = - 1 + 2 * (real m / 2 ^ 52)"
  have "mwUnitRandom d = (x, d')"
    using m(1) by (simp add: mwUnitRandom_def mwXrandom_def x_def)
  moreover have "real m < 2 ^ 52" using m(5) by (metis of_nat_less_iff of_nat_numeral of_nat_power)
  moreover have "x \<noteq> 0"
  proof
    assume "x = 0"
    then have "real m = real (2 ^ 51)" by (simp add: x_def field_simps)
    then have "m = 2 ^ 51" by (simp only: of_nat_eq_iff)
    then show False using m(3) by simp
  qed
  ultimately show ?thesis using that m(2,4) by (simp add: x_def)
qed

text \<open>All draws change the state alike, so a theorem about a sequence of draws of one kind is one about any
  sequence.\<close>

lemma draws_same_state:
  "snd (dsfmt_genrand_close1_open2 d) = snd (dsfmt_genrand_open_open d)"
  "snd (dsfmt_genrand_close_open d) = snd (dsfmt_genrand_open_open d)"
  "snd (dsfmt_genrand_open_close d) = snd (dsfmt_genrand_open_open d)"
  "snd (dsfmt_genrand_uint32 d) = snd (dsfmt_genrand_open_open d)"
  by (simp_all add: dsfmt_genrand_close1_open2_def dsfmt_genrand_close_open_def
      dsfmt_genrand_open_close_def dsfmt_genrand_uint32_def dsfmt_genrand_open_open_def Let_def)

text \<open>C35: no initialisation and no number of draws ever leads to a draw outside the open unit interval:
  the bits of every word of the state stay those of a double in [1, 2), whatever the seed and however
  often the state is refilled.\<close>

theorem draws_in_open_interval:
  "\<exists>u. fst (dsfmt_genrand_open_open (((snd \<circ> dsfmt_genrand_open_open) ^^ n) (dsfmt_init_gen_rand seed))) = Fin u
     \<and> 0 < u \<and> u < 1"
proof -
  have ok: "dsfmt_ok (((snd \<circ> dsfmt_genrand_open_open) ^^ n) (dsfmt_init_gen_rand seed))"
  proof (induction n)
    case (Suc n)
    then show ?case using open_open_draw[OF Suc.IH] by (metis comp_apply funpow.simps(2) snd_conv)
  qed (simp add: init_ok)
  then obtain m d' where m: "dsfmt_genrand_open_open (((snd \<circ> dsfmt_genrand_open_open) ^^ n) (dsfmt_init_gen_rand seed))
      = (Fin (real m / 2 ^ 52), d')" "0 < m" "m < 2 ^ 52"
    by (rule open_open_draw)
  have "real m < 2 ^ 52" using m(3) by (metis of_nat_less_iff of_nat_numeral of_nat_power)
  then show ?thesis using m(1,2) by (intro exI[of _ "real m / 2 ^ 52"]) simp
qed

section \<open>Certification of the period\<close>

lemma parity64_xor: "parity64 (a XOR b) = parity64 a XOR parity64 b"
  by (simp add: parity64_def drop_bit_xor xor.assoc xor.left_commute bit.conj_xor_distrib2)

lemma parity64_bit: "parity64 a = 0 \<or> parity64 a = 1"
  by (simp add: parity64_def and_one_eq mod2_eq_if)

lemma certified_flip:
  "certified (a, b XOR 1) = certified (a, b) XOR 1"
proof -
  have "((b XOR 1) XOR DSFMT_FIX2) AND DSFMT_PCV2 = ((b XOR DSFMT_FIX2) AND DSFMT_PCV2) XOR 1"
    by (simp add: DSFMT_PCV2_def bit.conj_xor_distrib2 xor.assoc xor.commute xor.left_commute)
  then show ?thesis
    by (simp add: certified_def xor.assoc[symmetric] parity64_xor) (simp add: parity64_def)
qed

text \<open>Whatever the words of the state are, after \<open>period_certification\<close> the block that is kept
  outside the array of results passes the test that guarantees the period, and the words of the array
  are as they were.\<close>

theorem period_certification_certifies:
  assumes "length st = DSFMT_N + 1"
  shows "certified (period_certification st ! DSFMT_N) = 1
    \<and> take DSFMT_N (period_certification st) = take DSFMT_N st"
proof (cases "certified (st ! DSFMT_N) = 1")
  case False
  then have "certified (st ! DSFMT_N) = 0"
    using parity64_bit by (auto simp: certified_def)
  then have "certified (fst (st ! DSFMT_N), snd (st ! DSFMT_N) XOR 1) = 1"
    by (simp add: certified_flip)
  then show ?thesis using False assms by (simp add: period_certification_def)
qed (simp add: period_certification_def)

theorem period_certification_certifies_witness:
  "certified (period_certification (replicate (DSFMT_N + 1) (0, 0)) ! DSFMT_N) = 1"
  using period_certification_certifies[of "replicate (DSFMT_N + 1) (0, 0)"] by simp

section \<open>Drawing until accepted\<close>

text \<open>The n-th draw, counted from 0.\<close>

definition nth_draw :: "('s \<Rightarrow> 'a \<times> 's) \<Rightarrow> nat \<Rightarrow> 's \<Rightarrow> 'a" where
  "nth_draw draw n s = fst (draw (((snd \<circ> draw) ^^ n) s))"

lemma nth_draw_0 [simp]: "nth_draw draw 0 s = fst (draw s)"
  and nth_draw_Suc: "nth_draw draw (Suc n) s = nth_draw draw n (snd (draw s))"
  by (simp_all add: nth_draw_def funpow_swap1)

lemma reject_accept: "draw s = (x, s') \<Longrightarrow> ok x \<Longrightarrow> reject draw ok s = Some (x, s')"
  and reject_next: "draw s = (x, s') \<Longrightarrow> \<not> ok x \<Longrightarrow> reject draw ok s = reject draw ok s'"
  by (subst reject.simps, simp)+

lemma reject_finds:
  "ok (nth_draw draw n s) \<Longrightarrow> \<exists>y. reject draw ok s = Some y"
proof (induction n arbitrary: s)
  case 0
  then show ?case by (cases "draw s") (simp add: reject_accept)
next
  case (Suc n)
  obtain x s' where d: "draw s = (x, s')" by (cases "draw s")
  show ?case
  proof (cases "ok x")
    case True
    then show ?thesis using d by (simp add: reject_accept)
  next
    case False
    then show ?thesis using d Suc by (simp add: reject_next nth_draw_Suc)
  qed
qed

lemma reject_only_draws:
  "reject draw ok s = Some y \<Longrightarrow> \<exists>n. fst y = nth_draw draw n s \<and> ok (fst y) \<and> snd y = ((snd \<circ> draw) ^^ Suc n) s"
proof (induction rule: reject.raw_induct[rotated 1, consumes 1])
  case (1 rec draw ok s y)
  obtain x s' where d: "draw s = (x, s')" by (cases "draw s")
  show ?case
  proof (cases "ok x")
    case True
    then show ?thesis using 1(2) d by (intro exI[of _ 0]) auto
  next
    case False
    then have "rec draw ok s' = Some y" using 1(2) d by simp
    from 1(1)[OF this] obtain n where n: "fst y = nth_draw draw n s'" "ok (fst y)"
      "snd y = ((snd \<circ> draw) ^^ Suc n) s'" by blast
    then show ?thesis using d
      by (intro exI[of _ "Suc n"]) (simp add: nth_draw_Suc funpow_Suc_right o_def del: funpow.simps)
  qed
qed

lemma reject_returns_iff:
  "(\<exists>y. reject draw ok s = Some y) \<longleftrightarrow> (\<exists>n. ok (nth_draw draw n s))"
proof
  assume "\<exists>y. reject draw ok s = Some y"
  then obtain y where "reject draw ok s = Some y" by blast
  from reject_only_draws[OF this] show "\<exists>n. ok (nth_draw draw n s)" by metis
next
  assume "\<exists>n. ok (nth_draw draw n s)"
  then show "\<exists>y. reject draw ok s = Some y" using reject_finds[of ok draw _ s] by blast
qed

text \<open>A source of draws: the states it may be used in, and what holds of the values drawn.\<close>

locale sampler =
  fixes draw :: "'s \<Rightarrow> 'a \<times> 's" and good :: "'s \<Rightarrow> bool" and Q :: "'a \<Rightarrow> bool"
  assumes draw_good: "good s \<Longrightarrow> good (snd (draw s))"
    and draw_value: "good s \<Longrightarrow> Q (fst (draw s))"
begin

lemma states_good: "good s \<Longrightarrow> good (((snd \<circ> draw) ^^ n) s)"
  by (induction n) (simp_all add: draw_good)

lemma nth_value: "good s \<Longrightarrow> Q (nth_draw draw n s)"
  unfolding nth_draw_def by (rule draw_value, rule states_good)

lemma rejected:
  assumes "good s" "reject draw ok s = Some (x, s')"
  shows "ok x" "Q x" "good s'"
proof -
  obtain n where "x = nth_draw draw n s" "ok x" "s' = ((snd \<circ> draw) ^^ Suc n) s"
    using reject_only_draws[OF assms(2)] by auto
  then show "ok x" "Q x" "good s'"
    using nth_value[OF assms(1)] states_good[OF assms(1)] by metis+
qed

end

interpretation unit: sampler mwUnitRandom dsfmt_ok "\<lambda>x. - 1 < x \<and> x < 1 \<and> x \<noteq> 0"
proof
  fix d :: dsfmt_t
  assume "dsfmt_ok d"
  then obtain x d' where "mwUnitRandom d = (x, d')" "dsfmt_ok d'" "- 1 < x" "x < 1" "x \<noteq> 0"
    by (rule mwUnitRandom_draw)
  then show "dsfmt_ok (snd (mwUnitRandom d))"
    "- 1 < fst (mwUnitRandom d) \<and> fst (mwUnitRandom d) < 1 \<and> fst (mwUnitRandom d) \<noteq> 0" by simp_all
qed

definition in_cube :: "mwvector \<Rightarrow> bool" where
  "in_cube v \<longleftrightarrow> (\<forall>c \<in> {X v, Y v, Z v}. - 1 < c \<and> c < 1 \<and> c \<noteq> 0)"

lemma in_cube_nonzero: "in_cube v \<Longrightarrow> 0 < mw_sqrv v"
proof -
  assume "in_cube v"
  then have "Z v \<noteq> 0" by (simp add: in_cube_def)
  then have "0 < sqr (Z v)" by (auto simp: zero_less_mult_iff)
  moreover have "0 \<le> sqr (X v)" "0 \<le> sqr (Y v)" by simp_all
  ultimately show ?thesis unfolding mw_sqrv_def by linarith
qed

interpretation point: sampler mwRandomUnitPoint dsfmt_ok in_cube
proof
  fix d :: dsfmt_t
  assume d: "dsfmt_ok d"
  obtain x d1 where 1: "mwUnitRandom d = (x, d1)" by (cases "mwUnitRandom d")
  obtain y d2 where 2: "mwUnitRandom d1 = (y, d2)" by (cases "mwUnitRandom d1")
  obtain z d3 where 3: "mwUnitRandom d2 = (z, d3)" by (cases "mwUnitRandom d2")
  have "dsfmt_ok d1" "dsfmt_ok d2" "dsfmt_ok d3"
    using unit.draw_good d 1 2 3 by (metis snd_conv)+
  moreover have "- 1 < c \<and> c < 1 \<and> c \<noteq> 0" if "c \<in> {x, y, z}" for c
    using that unit.draw_value[OF d] unit.draw_value[OF \<open>dsfmt_ok d1\<close>] unit.draw_value[OF \<open>dsfmt_ok d2\<close>] 1 2 3
    by auto
  ultimately show "dsfmt_ok (snd (mwRandomUnitPoint d))" "in_cube (fst (mwRandomUnitPoint d))"
    by (simp_all add: mwRandomUnitPoint_def 1 2 3 in_cube_def)
qed

end
