(* ===== verification/NBody_Models.thy ===== *)
theory NBody_Models
  imports MW_RandomProps "HOL-Library.Monad_Syntax"
begin

text \<open>
  The single-component initial models: \<open>nbody_plummer.c\<close>, \<open>nbody_nfw.c\<close> and \<open>nbody_hernq.c\<close>. A model
  draws bodies one after the other; the table of bodies it hands to Lua is a list. \<open>None\<close> is a loop that
  does not end. Radii that may become infinite are of type \<open>dbl\<close>, the \<open>do ... while\<close> loops are \<open>reject\<close>.
  The two functions \<open>nfwPickShell\<close> and \<open>hernqPickShell\<close> have the body of \<open>pickShell\<close>, and so have the
  functions \<open>nfwSelectFromG\<close> and \<open>hernqSelectFromG\<close>, which nothing calls, that of \<open>plummerSelectFromG\<close>.
\<close>

section \<open>Points on a sphere\<close>

definition pickShell :: "dsfmt_t \<Rightarrow> real \<Rightarrow> (mwvector \<times> dsfmt_t) option" where
  "pickShell d rad =
     do { (vec, d) \<leftarrow> reject mwRandomUnitPoint (\<lambda>vec. \<not> mw_sqrv vec > 1) d;
          let rsq = mw_sqrv vec;
          let rsc = rad / sqrt rsq;
          Some (mw_incmulvs vec rsc, d) }"

definition nfwPickShell :: "dsfmt_t \<Rightarrow> real \<Rightarrow> (mwvector \<times> dsfmt_t) option" where
  "nfwPickShell = pickShell"

definition hernqPickShell :: "dsfmt_t \<Rightarrow> real \<Rightarrow> (mwvector \<times> dsfmt_t) option" where
  "hernqPickShell = pickShell"

section \<open>Plummer\<close>

definition plummerRandomR :: "dsfmt_t \<Rightarrow> dbl \<times> dsfmt_t" where
  "plummerRandomR d =
     (let (rnd, d) = dsfmt_genrand_close_open d
      in (1 / dsqrt (dpow rnd (- 2 / 3) - 1), d))"

definition draw_from_G :: "dsfmt_t \<Rightarrow> (real \<times> real) \<times> dsfmt_t" where
  "draw_from_G d =
     (let (x, d) = mwXrandom d 0 1; (y, d) = mwXrandom d 0 (1 / 10) in ((x, y), d))"

definition plummerSelectFromG :: "dsfmt_t \<Rightarrow> (real \<times> dsfmt_t) option" where
  "plummerSelectFromG d =
     do { ((x, y), d) \<leftarrow> reject draw_from_G (\<lambda>(x, y). \<not> y > sqr x * mw_pow (1 - sqr x) (7 / 2)) d;
          Some (x, d) }"

definition plummerRandomV :: "dsfmt_t \<Rightarrow> real \<Rightarrow> (real \<times> dsfmt_t) option" where
  "plummerRandomV d r =
     do { (x, d) \<leftarrow> plummerSelectFromG d;
          let v = sqrt 2 * x / sqrt (sqrt (1 + sqr r));
          Some (v, d) }"

definition plummerBodyPosition :: "dsfmt_t \<Rightarrow> mwvector \<Rightarrow> real \<Rightarrow> real \<Rightarrow> (mwvector \<times> dsfmt_t) option" where
  "plummerBodyPosition d rshift rsc r =
     do { (pos, d) \<leftarrow> pickShell d (rsc * r);
          Some (mw_incaddv pos rshift, d) }"

definition plummerBodyVelocity :: "dsfmt_t \<Rightarrow> mwvector \<Rightarrow> real \<Rightarrow> real \<Rightarrow> (mwvector \<times> dsfmt_t) option" where
  "plummerBodyVelocity d vshift vsc r =
     do { (v, d) \<leftarrow> plummerRandomV d r;
          (vel, d) \<leftarrow> pickShell d (vsc * v);
          Some (mw_incaddv vel vshift, d) }"

text \<open>The loop over the bodies: each is made by the given function, from its number and the generator.\<close>

primrec model_bodies :: "(nat \<Rightarrow> 's \<Rightarrow> ('b \<times> 's) option) \<Rightarrow> nat list \<Rightarrow> 's \<Rightarrow> ('b list \<times> 's) option" where
  "model_bodies mk [] s = Some ([], s)"
| "model_bodies mk (i # js) s =
     do { (b, s) \<leftarrow> mk i s;
          (bs, s) \<leftarrow> model_bodies mk js s;
          Some (b # bs, s) }"

definition plummer_body :: "real \<Rightarrow> bool \<Rightarrow> mwvector \<Rightarrow> mwvector \<Rightarrow> real \<Rightarrow> real \<Rightarrow> nat \<Rightarrow> dsfmt_t
    \<Rightarrow> (Body \<times> dsfmt_t) option" where
  "plummer_body bmass ignore rShift vShift radiusScale velScale i d =
     do { (r, d) \<leftarrow> reject plummerRandomR (\<lambda>r. \<not> isinf r) d;
          (p, d) \<leftarrow> plummerBodyPosition d rShift radiusScale (dval r);
          (v, d) \<leftarrow> plummerBodyVelocity d vShift velScale (dval r);
          Some (\<lparr>b_pos = p, b_vel = v, b_mass = bmass, b_type = BODY ignore, b_id = i + 1, b_next = None\<rparr>, d) }"

definition nbGeneratePlummerCore :: "dsfmt_t \<Rightarrow> nat \<Rightarrow> real \<Rightarrow> bool \<Rightarrow> mwvector \<Rightarrow> mwvector \<Rightarrow> real
    \<Rightarrow> (Body list \<times> dsfmt_t) option" where
  "nbGeneratePlummerCore prng nbods mass ignore rShift vShift radiusScale =
     (let velScale = sqrt (mass / radiusScale)
      in model_bodies (plummer_body (mass / real nbods) ignore rShift vShift radiusScale velScale) [0..<nbods] prng)"

section \<open>NFW\<close>

text \<open>
  One corner differs from the code: a first radius of exactly 0 (a draw of 0) makes \<open>nfwCalculateV\<close>
  divide 0 by 0, which is NaN in C and 0 here.
\<close>

definition nfwMassInsideRadius :: "real \<Rightarrow> real \<Rightarrow> real \<Rightarrow> real" where
  "nfwMassInsideRadius radius rho_0 R_S =
     (let mass = 4 * pi * rho_0 * cube radius
      in mass * (ln ((R_S + radius) / R_S) - radius / (R_S + radius)))"

text \<open>The search for the radius that holds a mass; \<open>inside\<close> gives the mass inside a radius.\<close>

partial_function (option) next_radius :: "(real \<Rightarrow> bool) \<Rightarrow> real \<Rightarrow> real option" where
  "next_radius enough test_radius =
     (if enough test_radius then Some test_radius else next_radius enough (test_radius + 1 / 10000))"

definition nfwNextRadius :: "real \<Rightarrow> real \<Rightarrow> real \<Rightarrow> real \<Rightarrow> real option" where
  "nfwNextRadius start_radius goal_mass rho_0 R_S =
     next_radius (\<lambda>r. nfwMassInsideRadius r rho_0 R_S \<ge> goal_mass) start_radius"

definition nfwRandomR :: "dsfmt_t \<Rightarrow> real \<Rightarrow> real \<Rightarrow> dbl \<times> dsfmt_t" where
  "nfwRandomR d startradius endradius =
     (let (rnd, d) = dsfmt_genrand_close_open d
      in ((Fin endradius - Fin startradius) * rnd + Fin startradius, d))"

definition nfwCalculateV :: "real \<Rightarrow> real \<Rightarrow> real \<Rightarrow> real" where
  "nfwCalculateV r rho_0 R_S = sqrt (nfwMassInsideRadius r rho_0 R_S / r)"

definition nfwBodyPosition :: "dsfmt_t \<Rightarrow> mwvector \<Rightarrow> real \<Rightarrow> real \<Rightarrow> (mwvector \<times> dsfmt_t) option" where
  "nfwBodyPosition d rshift rsc r =
     do { (pos, d) \<leftarrow> nfwPickShell d (rsc * r); Some (mw_incaddv pos rshift, d) }"

definition nfwBodyVelocity :: "dsfmt_t \<Rightarrow> mwvector \<Rightarrow> real \<Rightarrow> real \<Rightarrow> real \<Rightarrow> (mwvector \<times> dsfmt_t) option" where
  "nfwBodyVelocity d vshift r rho_0 R_S =
     (let v = nfwCalculateV r rho_0 R_S
      in do { (vel, d) \<leftarrow> nfwPickShell d v; Some (mw_incaddv vel vshift, d) })"

text \<open>The loop carries the generator, the radius and the mass reached; the field \<open>id\<close> is never set.\<close>

definition nfw_body :: "real \<Rightarrow> bool \<Rightarrow> mwvector \<Rightarrow> mwvector \<Rightarrow> real \<Rightarrow> real \<Rightarrow> real \<Rightarrow> nat
    \<Rightarrow> dsfmt_t \<times> real \<times> real \<Rightarrow> (Body \<times> dsfmt_t \<times> real \<times> real) option" where
  "nfw_body bmass ignore rShift vShift rho_0 R_S massEpsilon i = (\<lambda>(d, radius, totalMass).
     do { endradius \<leftarrow> nfwNextRadius radius (totalMass + massEpsilon) rho_0 R_S;
          (r, d) \<leftarrow> reject (\<lambda>d. nfwRandomR d radius endradius) (\<lambda>r. \<not> isinf r) d;
          (p, d) \<leftarrow> nfwBodyPosition d rShift 1 (dval r);
          (v, d) \<leftarrow> nfwBodyVelocity d vShift (dval r) rho_0 R_S;
          Some (\<lparr>b_pos = p, b_vel = v, b_mass = bmass, b_type = BODY ignore, b_id = 0, b_next = None\<rparr>,
                d, endradius, totalMass + massEpsilon) })"

definition nbGenerateNFWCore :: "dsfmt_t \<Rightarrow> nat \<Rightarrow> real \<Rightarrow> bool \<Rightarrow> mwvector \<Rightarrow> mwvector \<Rightarrow> real \<Rightarrow> real
    \<Rightarrow> (Body list \<times> dsfmt_t) option" where
  "nbGenerateNFWCore prng nbods mass ignore rShift vShift rho_0 R_S =
     (let massEpsilon = mass / real nbods
      in do { (bs, d, _) \<leftarrow> model_bodies (nfw_body (mass / real nbods) ignore rShift vShift rho_0 R_S massEpsilon)
                [0..<nbods] (prng, 0, 1 / 2 * massEpsilon);
              Some (bs, d) })"

section \<open>Hernquist\<close>

definition hernqMassInsideRadius :: "dbl \<Rightarrow> dbl \<Rightarrow> dbl \<Rightarrow> dbl \<Rightarrow> dbl" where
  "hernqMassInsideRadius radius radius_scale a mass =
     (let radius = radius / radius_scale
      in mass * radius * radius / ((a + radius) * (a + radius)))"

definition hernqNextRadius :: "real \<Rightarrow> dbl \<Rightarrow> dbl \<Rightarrow> dbl \<Rightarrow> dbl \<Rightarrow> real option" where
  "hernqNextRadius startRadius goalMass radius a mass =
     next_radius (\<lambda>r. goalMass \<le> hernqMassInsideRadius (Fin r) radius a mass) startRadius"

definition hernqCalculateV :: "dbl \<Rightarrow> dbl \<Rightarrow> dbl \<Rightarrow> dbl \<Rightarrow> dbl" where
  "hernqCalculateV r radius a mass = dsqrt (hernqMassInsideRadius r radius a mass / r)"

definition hernqBodyPosition :: "dsfmt_t \<Rightarrow> mwvector \<Rightarrow> real \<Rightarrow> real \<Rightarrow> (mwvector \<times> dsfmt_t) option" where
  "hernqBodyPosition d rshift rsc r =
     do { (pos, d) \<leftarrow> hernqPickShell d (rsc * r); Some (mw_incaddv pos rshift, d) }"

definition hernqBodyVelocity :: "dsfmt_t \<Rightarrow> mwvector \<Rightarrow> real \<Rightarrow> real \<Rightarrow> real \<Rightarrow> real \<Rightarrow> (mwvector \<times> dsfmt_t) option" where
  "hernqBodyVelocity d vshift r radius a mass =
     (let v = dval (hernqCalculateV (Fin r) (Fin radius) (Fin a) (Fin mass))
      in do { (vel, d) \<leftarrow> hernqPickShell d v; Some (mw_incaddv vel vshift, d) })"

text \<open>\<open>hernqRandomR\<close> has the body of \<open>nfwRandomR\<close>.\<close>

definition hernqRandomR :: "dsfmt_t \<Rightarrow> real \<Rightarrow> real \<Rightarrow> dbl \<times> dsfmt_t" where
  "hernqRandomR = nfwRandomR"

definition hernq_body :: "real \<Rightarrow> bool \<Rightarrow> mwvector \<Rightarrow> mwvector \<Rightarrow> real \<Rightarrow> real \<Rightarrow> real \<Rightarrow> real \<Rightarrow> nat
    \<Rightarrow> dsfmt_t \<times> real \<times> real \<Rightarrow> (Body \<times> dsfmt_t \<times> real \<times> real) option" where
  "hernq_body bmass ignore rShift vShift radius_scale a mass massEpsilon i = (\<lambda>(d, radius, totalMass).
     do { endradius \<leftarrow> hernqNextRadius radius (Fin (totalMass + massEpsilon)) (Fin radius) (Fin a) (Fin mass);
          (r, d) \<leftarrow> reject (\<lambda>d. hernqRandomR d radius endradius) (\<lambda>r. \<not> isinf r) d;
          (p, d) \<leftarrow> hernqBodyPosition d rShift 1 (dval r);
          (v, d) \<leftarrow> hernqBodyVelocity d vShift (dval r) radius_scale a mass;
          Some (\<lparr>b_pos = p, b_vel = v, b_mass = bmass, b_type = BODY ignore, b_id = 0, b_next = None\<rparr>,
                d, endradius, totalMass + massEpsilon) })"

definition nbGenerateHernqCore :: "dsfmt_t \<Rightarrow> nat \<Rightarrow> real \<Rightarrow> bool \<Rightarrow> mwvector \<Rightarrow> mwvector \<Rightarrow> real \<Rightarrow> real
    \<Rightarrow> (Body list \<times> dsfmt_t) option" where
  "nbGenerateHernqCore prng nbods mass ignore rShift vShift radius_scale a =
     (let massEpsilon = mass / real nbods
      in do { (bs, d, _) \<leftarrow> model_bodies (hernq_body (mass / real nbods) ignore rShift vShift radius_scale a mass massEpsilon)
                [0..<nbods] (prng, 0, 1 / 2 * massEpsilon);
              Some (bs, d) })"

end
