(* ===== verification/NBody_ModelProps.thy ===== *)
theory NBody_ModelProps
  imports NBody_Models
begin

text \<open>
  What holds of the single-component models: a point picked on a shell lies on it and is found as soon
  as a draw falls into the unit ball; Plummer radii are the inverse of the enclosed mass and all
  Plummer bodies are bound; the search for NFW radii ends at the first grid point that holds the mass;
  the Hernquist model never returns.
\<close>

lemma bind_Some_prodE:
  assumes "Option.bind m f = Some y"
  obtains a b where "m = Some (a, b)" "f (a, b) = Some y"
  using assms by (cases m) auto

section \<open>Shells\<close>

lemma pickShell_found:
  assumes "dsfmt_ok d" "pickShell d rad = Some (v, d')"
  shows "mw_absv v = \<bar>rad\<bar>" "dsfmt_ok d'"
proof -
  obtain w where w: "reject mwRandomUnitPoint (\<lambda>vec. \<not> mw_sqrv vec > 1) d = Some (w, d')"
    "v = mw_incmulvs w (rad / sqrt (mw_sqrv w))"
    using assms(2) by (auto simp: pickShell_def elim!: bind_Some_prodE)
  note r = point.rejected[OF assms(1) w(1)]
  then show "dsfmt_ok d'" by simp
  have p: "0 < mw_sqrv w" using in_cube_nonzero r(2) by blast
  then have "mw_absv v = \<bar>rad / sqrt (mw_sqrv w)\<bar> * sqrt (mw_sqrv w)"
    unfolding w(2) mw_incmulvs_eq by (subst mw_absv_mulvs) (simp add: mw_absv_def)
  then show "mw_absv v = \<bar>rad\<bar>" using p by (simp add: abs_divide)
qed

text \<open>C33: \<open>pickShell\<close> returns exactly when one of the points it would draw lies in the unit ball, however
  late, and then its result has exactly the length asked for and the generator is still sound: the
  scaling never divides by zero.\<close>

theorem pickShell_returns:
  assumes "dsfmt_ok d"
  shows "if \<exists>n. mw_sqrv (nth_draw mwRandomUnitPoint n d) \<le> 1
         then \<exists>v d'. pickShell d rad = Some (v, d') \<and> mw_absv v = \<bar>rad\<bar> \<and> dsfmt_ok d'
         else pickShell d rad = None"
proof (cases "\<exists>n. mw_sqrv (nth_draw mwRandomUnitPoint n d) \<le> 1")
  case True
  then have "\<exists>n. \<not> mw_sqrv (nth_draw mwRandomUnitPoint n d) > 1" by (simp add: not_less)
  then obtain w d' where "reject mwRandomUnitPoint (\<lambda>vec. \<not> mw_sqrv vec > 1) d = Some (w, d')"
    using reject_returns_iff[of mwRandomUnitPoint "\<lambda>vec. \<not> mw_sqrv vec > 1" d] by fast
  then obtain v where "pickShell d rad = Some (v, d')" by (simp add: pickShell_def)
  then show ?thesis using True pickShell_found[OF assms] by auto
next
  case False
  then have "reject mwRandomUnitPoint (\<lambda>vec. \<not> mw_sqrv vec > 1) d = None"
    using reject_returns_iff[of mwRandomUnitPoint "\<lambda>vec. \<not> mw_sqrv vec > 1" d]
    by (metis not_less not_None_eq)
  then show ?thesis using False by (simp add: pickShell_def)
qed

section \<open>Plummer\<close>

lemma plummer_radius:
  fixes u :: real
  assumes "0 \<le> u" "u < 1"
  obtains r where "1 / dsqrt (dpow (Fin u) (- 2 / 3) - 1) = Fin r" "0 \<le> r" "(r / sqrt (1 + r\<^sup>2)) ^ 3 = u"
proof (cases "u = 0")
  case True
  then have "1 / dsqrt (dpow (Fin u) (- 2 / 3) - 1) = Fin 0" by (simp add: dbl_consts minus_dbl_def)
  then show ?thesis using that[of 0] True by simp
next
  case False
  then have u: "0 < u" using assms by simp
  define w where "w = u powr (- 2 / 3)"
  have "u powr 0 < w" unfolding w_def using u assms(2) by (intro powr_less_mono') simp_all
  then have w: "1 < w" using u by simp
  define r where "r = 1 / sqrt (w - 1)"
  have "dpow (Fin u) (- 2 / 3) = Fin w"
    using dpow_pos[OF u, of "- 2 / 3"] by (simp add: dbl_consts w_def)
  then have r: "1 / dsqrt (dpow (Fin u) (- 2 / 3) - 1) = Fin r"
    using w by (simp add: dbl_consts r_def)
  have "r\<^sup>2 = 1 / (w - 1)" using w by (simp add: r_def power_divide)
  then have "1 + r\<^sup>2 = w / (w - 1)" using w by (simp add: field_simps)
  then have "sqrt (1 + r\<^sup>2) = sqrt w / sqrt (w - 1)" by (simp add: real_sqrt_divide)
  then have "r / sqrt (1 + r\<^sup>2) = 1 / sqrt w" using w by (simp add: r_def)
  also have "1 / sqrt w = u powr (1 / 3)"
    using u by (simp add: w_def powr_half_sqrt[symmetric] powr_powr powr_minus_divide[symmetric])
  finally have "(r / sqrt (1 + r\<^sup>2)) ^ 3 = u"
    using u by (simp add: powr_powr powr_realpow[symmetric] powr_power)
  then show ?thesis using that r w by (simp add: r_def)
qed

text \<open>A Plummer radius is drawn by inverting the mass profile: the fraction of the mass of a Plummer
  sphere inside the radius, in units of the scale length, is exactly the random number drawn. The
  radius is always finite, so the loop that guards against an infinite one never repeats in exact
  arithmetic.\<close>

theorem plummerRandomR_inverts_mass:
  assumes "dsfmt_ok d"
  shows "\<exists>u r. fst (dsfmt_genrand_close_open d) = Fin u \<and> reject plummerRandomR (\<lambda>r. \<not> isinf r) d = Some (Fin r, snd (plummerRandomR d))
    \<and> 0 \<le> r \<and> (r / sqrt (1 + r\<^sup>2)) ^ 3 = u"
proof -
  obtain u d' where u: "dsfmt_genrand_close_open d = (Fin u, d')" "0 \<le> u" "u < 1"
    by (rule close_open_draw[OF assms])
  obtain r where r: "1 / dsqrt (dpow (Fin u) (- 2 / 3) - 1) = Fin r" "0 \<le> r" "(r / sqrt (1 + r\<^sup>2)) ^ 3 = u"
    using plummer_radius[OF u(2,3)] .
  have "plummerRandomR d = (Fin r, d')"
    using u(1) r(1) unfolding plummerRandomR_def Let_def by simp
  then show ?thesis using u r reject_accept[of plummerRandomR d "Fin r" d' "\<lambda>r. \<not> isinf r"] by auto
qed

interpretation radii: sampler plummerRandomR dsfmt_ok "\<lambda>r. \<exists>x. r = Fin x \<and> 0 \<le> x"
proof
  fix d :: dsfmt_t
  assume d: "dsfmt_ok d"
  obtain u d' where u: "dsfmt_genrand_close_open d = (Fin u, d')" "dsfmt_ok d'" "0 \<le> u" "u < 1"
    by (rule close_open_draw[OF d])
  obtain r where r: "1 / dsqrt (dpow (Fin u) (- 2 / 3) - 1) = Fin r" "0 \<le> r"
    using plummer_radius[OF u(3,4)] .
  have "plummerRandomR d = (Fin r, d')"
    using u(1) r(1) unfolding plummerRandomR_def Let_def by simp
  then show "dsfmt_ok (snd (plummerRandomR d))" "\<exists>x. fst (plummerRandomR d) = Fin x \<and> 0 \<le> x"
    using u(2) r(2) by simp_all
qed

interpretation pairs: sampler draw_from_G dsfmt_ok "\<lambda>(x, y). 0 < x \<and> x < 1 \<and> 0 < y \<and> y < 1 / 10"
proof
  fix d :: dsfmt_t
  assume d: "dsfmt_ok d"
  obtain x d1 where x: "mwXrandom d 0 1 = (x, d1)" "dsfmt_ok d1" "0 < x" "x < 1"
    by (rule mwXrandom_draw[OF d, of 0 1]) auto
  obtain y d2 where y: "mwXrandom d1 0 (1 / 10) = (y, d2)" "dsfmt_ok d2" "0 < y" "y < 1 / 10"
    by (rule mwXrandom_draw[OF x(2), of 0 "1 / 10"]) auto
  show "dsfmt_ok (snd (draw_from_G d))" "case fst (draw_from_G d) of (x, y) \<Rightarrow> 0 < x \<and> x < 1 \<and> 0 < y \<and> y < 1 / 10"
    using x y by (simp_all add: draw_from_G_def)
qed


text \<open>The rectangle that \<open>plummerSelectFromG\<close> draws its points from covers the whole curve
  \<open>x^2 (1 - x^2)^3.5\<close>, so the rejection method samples that density and not one with its top cut off.\<close>

lemma g_below_envelope:
  assumes "0 < x" "x < 1"
  shows "0 \<le> sqr x * mw_pow (1 - sqr x) (7 / 2) \<and> sqr x * mw_pow (1 - sqr x) (7 / 2) < 1 / 10"
proof -
  define t where "t = sqr x"
  have t: "0 < t" "t < 1" using assms using mult_strict_mono[of x 1 x 1] by (auto simp: t_def)
  define g where "g = t * (1 - t) powr (7 / 2)"
  have "((1 - t) powr (7 / 2))\<^sup>2 = (1 - t) ^ 7"
    using t powr_realpow[of "1 - t" 7] by (simp add: powr_power)
  then have sq: "g\<^sup>2 = t\<^sup>2 * (1 - t) ^ 7" by (simp add: g_def power_mult_distrib)
  have "ln (t * 9 / 2) \<le> t * 9 / 2 - 1" "ln ((1 - t) * 9 / 7) \<le> (1 - t) * 9 / 7 - 1"
    using t by (intro ln_le_minus_one, simp)+
  then have "2 * ln (t * 9 / 2) + 7 * ln ((1 - t) * 9 / 7) \<le> 2 * (t * 9 / 2 - 1) + 7 * ((1 - t) * 9 / 7 - 1)"
    by (intro add_mono mult_left_mono) simp_all
  also have "\<dots> = 0" by (simp add: field_simps)
  finally have "ln ((t * 9 / 2)\<^sup>2 * ((1 - t) * 9 / 7) ^ 7) \<le> 0"
    using t by (simp add: ln_mult ln_realpow)
  then have "(t * 9 / 2)\<^sup>2 * ((1 - t) * 9 / 7) ^ 7 \<le> 1" using t by (simp add: ln_le_zero_iff)
  moreover have "(t * 9 / 2)\<^sup>2 * (y * 9 / 7) ^ 7 = t\<^sup>2 * y ^ 7 / ((2 / 9)\<^sup>2 * (7 / 9) ^ 7)" for y :: real
    by (simp add: power_mult_distrib power_divide)
  ultimately have "t\<^sup>2 * (1 - t) ^ 7 / ((2 / 9)\<^sup>2 * (7 / 9) ^ 7) \<le> 1" by metis
  then have "t\<^sup>2 * (1 - t) ^ 7 \<le> (2 / 9)\<^sup>2 * (7 / 9) ^ 7" by (subst (asm) divide_le_eq_1_pos) simp_all
  also have "(2 / 9)\<^sup>2 * (7 / 9) ^ 7 < (1 / 10 :: real)\<^sup>2" by (simp add: field_simps)
  finally have "g < 1 / 10" using sq power_less_imp_less_base[of g 2 "1 / 10"] by simp
  moreover have "0 \<le> g" using t by (simp add: g_def)
  ultimately show ?thesis using t mw_pow_pos[of "1 - t" "7 / 2"] by (simp add: g_def t_def)
qed


lemma SelectFromG_range:
  assumes "dsfmt_ok d" "plummerSelectFromG d = Some (x, d')"
  shows "0 < x" "x < 1" "dsfmt_ok d'"
proof -
  obtain y where "reject draw_from_G (\<lambda>(x, y). \<not> y > sqr x * mw_pow (1 - sqr x) (7 / 2)) d = Some ((x, y), d')"
    using assms(2) by (auto simp: plummerSelectFromG_def elim!: bind_Some_prodE)
  from pairs.rejected[OF assms(1) this] show "0 < x" "x < 1" "dsfmt_ok d'" by auto
qed

lemma model_bodies_all:
  assumes step: "\<And>i s b s'. I s \<Longrightarrow> mk i s = Some (b, s') \<Longrightarrow> P i b \<and> I s'"
  shows "model_bodies mk js s = Some (bs, s') \<Longrightarrow> I s \<Longrightarrow> list_all2 P js bs \<and> I s'"
proof (induction js arbitrary: s bs)
  case (Cons i js)
  then obtain b s1 bs1 where "mk i s = Some (b, s1)" "model_bodies mk js s1 = Some (bs1, s')" "bs = b # bs1"
    by (auto elim!: bind_Some_prodE)
  then show ?case using step[OF Cons.prems(2)] Cons.IH by auto
qed simp

text \<open>The speed of a body against the speed of escape at its place.\<close>

lemma plummer_speed:
  fixes r x m R :: real
  assumes "0 < m" "0 < R" "0 < x" "x < 1"
  shows "(sqrt (m / R) * (sqrt 2 * x / sqrt (sqrt (1 + sqr r))))\<^sup>2 < 2 * m / sqrt (R\<^sup>2 + (R * r)\<^sup>2)"
proof -
  have p: "0 < 1 + sqr r" using add_pos_nonneg[of 1 "sqr r"] by simp
  have "R\<^sup>2 + (R * r)\<^sup>2 = R\<^sup>2 * (1 + sqr r)" by (simp add: power2_eq_square algebra_simps)
  then have e: "sqrt (R\<^sup>2 + (R * r)\<^sup>2) = R * sqrt (1 + sqr r)"
    using assms(2) by (simp add: real_sqrt_mult)
  have "(sqrt (m / R) * (sqrt 2 * x / sqrt (sqrt (1 + sqr r))))\<^sup>2
      = m / R * (2 * x\<^sup>2 / sqrt (1 + sqr r))"
    using assms p by (simp add: power_mult_distrib power_divide)
  also have "\<dots> = x\<^sup>2 * (2 * m / (R * sqrt (1 + sqr r)))" by simp
  also have "\<dots> < 1 * (2 * m / (R * sqrt (1 + sqr r)))"
    using assms p by (intro mult_strict_right_mono) (simp_all add: power_less_one_iff abs_square_less_1)
  finally show ?thesis by (simp add: e)
qed

lemma plummer_body_bound:
  assumes "dsfmt_ok d" "0 < m" "0 < R"
    and "plummer_body bm ignore rs vs R (sqrt (m / R)) i d = Some (b, d')"
  shows "b_id b = i + 1 \<and> b_mass b = bm \<and> b_type b = BODY ignore \<and>
    (mw_absv (mw_subv (b_vel b) vs))\<^sup>2 < 2 * m / sqrt (R\<^sup>2 + (mw_absv (mw_subv (b_pos b) rs))\<^sup>2)
    \<and> dsfmt_ok d'"
proof -
  obtain r d1 p d2 v d3 where r: "reject plummerRandomR (\<lambda>r. \<not> isinf r) d = Some (r, d1)"
    and p: "plummerBodyPosition d1 rs R (dval r) = Some (p, d2)"
    and v: "plummerBodyVelocity d2 vs (sqrt (m / R)) (dval r) = Some (v, d')"
    and b: "b = \<lparr>b_pos = p, b_vel = v, b_mass = bm, b_type = BODY ignore, b_id = i + 1, b_next = None\<rparr>"
    using assms(4) by (auto simp: plummer_body_def elim!: bind_Some_prodE)
  note d1 = radii.rejected[OF assms(1) r]
  obtain w where w: "pickShell d1 (R * dval r) = Some (w, d2)" "p = mw_addv w rs"
    using p by (auto simp: plummerBodyPosition_def elim!: bind_Some_prodE)
  note s = pickShell_found[OF d1(3) w(1)]
  obtain x d4 u where x: "plummerSelectFromG d2 = Some (x, d4)"
    and u: "pickShell d4 (sqrt (m / R) * (sqrt 2 * x / sqrt (sqrt (1 + sqr (dval r))))) = Some (u, d')" "v = mw_addv u vs"
    using v by (auto simp: plummerBodyVelocity_def plummerRandomV_def elim!: bind_Some_prodE)
  note x' = SelectFromG_range[OF s(2) x]
  note t = pickShell_found[OF x'(3) u(1)]
  have "mw_subv p rs = w" "mw_subv v vs = u" by (simp_all add: w(2) u(2) vec_defs)
  moreover have "(mw_absv u)\<^sup>2 < 2 * m / sqrt (R\<^sup>2 + (mw_absv w)\<^sup>2)"
    unfolding t(1) s(1) power2_abs by (rule plummer_speed[OF assms(2,3) x'(1,2)])
  ultimately show ?thesis using t(2) by (simp add: b)
qed

text \<open>C32: every body of a Plummer model is bound to it. Whatever the generator draws, when the model is
  returned it has the bodies asked for, numbered from 1 and of equal mass, and each of them is slower
  than the escape speed of the Plummer sphere at its distance from the centre.\<close>

theorem plummer_bodies_bound:
  assumes "dsfmt_ok d" "0 < mass" "0 < R"
    and "nbGeneratePlummerCore d n mass ignore rShift vShift R = Some (bs, d')"
  shows "dsfmt_ok d' \<and> length bs = n \<and> (\<forall>i < n. b_id (bs ! i) = i + 1 \<and> b_mass (bs ! i) = mass / real n \<and>
    (mw_absv (mw_subv (b_vel (bs ! i)) vShift))\<^sup>2
      < 2 * mass / sqrt (R\<^sup>2 + (mw_absv (mw_subv (b_pos (bs ! i)) rShift))\<^sup>2))"
proof -
  define P where "P = (\<lambda>i (b :: Body). b_id b = i + 1 \<and> b_mass b = mass / real n \<and> b_type b = BODY ignore \<and>
    (mw_absv (mw_subv (b_vel b) vShift))\<^sup>2 < 2 * mass / sqrt (R\<^sup>2 + (mw_absv (mw_subv (b_pos b) rShift))\<^sup>2))"
  let ?mk = "plummer_body (mass / real n) ignore rShift vShift R (sqrt (mass / R))"
  have "model_bodies ?mk [0..<n] d = Some (bs, d')"
    using assms(4) by (simp add: nbGeneratePlummerCore_def)
  moreover have "P i b \<and> dsfmt_ok s'" if "dsfmt_ok s" "?mk i s = Some (b, s')" for i s b s'
    using plummer_body_bound[OF that(1) assms(2,3) that(2)] by (simp add: P_def)
  ultimately have "list_all2 P [0..<n] bs \<and> dsfmt_ok d'"
    using model_bodies_all[of dsfmt_ok ?mk P "[0..<n]" d bs d'] assms(1) by blast
  then show ?thesis by (auto simp: list_all2_conv_all_nth P_def)
qed


section \<open>NFW\<close>

lemma next_radius_found:
  assumes "enough (s + real k / 10000)"
  shows "\<exists>k. next_radius enough s = Some (s + real k / 10000) \<and> enough (s + real k / 10000)
    \<and> (\<forall>j < k. \<not> enough (s + real j / 10000))"
  using assms
proof (induction k arbitrary: s)
  case 0
  then show ?case by (intro exI[of _ 0]) (simp add: next_radius.simps)
next
  case (Suc k)
  show ?case
  proof (cases "enough s")
    case True
    then show ?thesis by (intro exI[of _ 0]) (simp add: next_radius.simps)
  next
    case False
    have sh: "s + 1 / 10000 + real j / 10000 = s + real (Suc j) / 10000" for j by (simp add: field_simps)
    obtain k' where k: "next_radius enough (s + 1 / 10000) = Some (s + real (Suc k') / 10000)"
      "enough (s + real (Suc k') / 10000)" "\<forall>j < k'. \<not> enough (s + real (Suc j) / 10000)"
      using Suc.IH[of "s + 1 / 10000"] Suc.prems unfolding sh by blast
    have "\<not> enough (s + real j / 10000)" if "j < Suc k'" for j
      using that k(3) False by (cases j) auto
    then show ?thesis using k False
      by (intro exI[of _ "Suc k'"]) (simp add: next_radius.simps[of enough s])
  qed
qed

lemma nfw_mass_large:
  assumes "0 < rho_0" "0 < R_S" "3 * R_S \<le> r" "1 \<le> r"
  shows "rho_0 * r \<le> nfwMassInsideRadius r rho_0 R_S"
proof -
  have q: "4 \<le> (R_S + r) / R_S" using assms by (simp add: field_simps)
  have "1 \<le> ln (3 :: real)" using exp_le by (subst ln_ge_iff) auto
  moreover have "ln (3 / 4 :: real) \<le> - 1 / 4" using ln_le_minus_one[of "3 / 4 :: real"] by simp
  moreover have "ln (3 / 4 :: real) = ln 3 - ln 4" by (subst ln_div) simp_all
  moreover have "ln 4 \<le> ln ((R_S + r) / R_S)" using q by (subst ln_le_cancel_iff) auto
  moreover have "r / (R_S + r) \<le> 1" using assms by simp
  ultimately have h: "1 / 4 \<le> ln ((R_S + r) / R_S) - r / (R_S + r)" by linarith
  have "r * 1 \<le> r * (r * r)" using assms mult_mono[of 1 r 1 r] by (intro mult_left_mono) auto
  then have "rho_0 * r \<le> rho_0 * cube r" using assms by (simp add: mult.assoc)
  also have "rho_0 * cube r * 1 \<le> rho_0 * cube r * (4 * pi / 4)"
    using assms pi_ge_two by (intro mult_left_mono) auto
  also have "rho_0 * cube r * (4 * pi / 4) = 4 * pi * rho_0 * cube r * (1 / 4)" by simp
  also have "\<dots> \<le> 4 * pi * rho_0 * cube r * (ln ((R_S + r) / R_S) - r / (R_S + r))"
    using assms h by (intro mult_left_mono) auto
  finally show ?thesis by (simp add: nfwMassInsideRadius_def)
qed

text \<open>The mass in the code has the cube of the radius where the NFW profile has that of the scale radius.\<close>

lemma nfw_mass_factor:
  assumes "R_S \<noteq> 0"
  shows "nfwMassInsideRadius r rho_0 R_S
    = (r / R_S) ^ 3 * (4 * pi * rho_0 * R_S ^ 3 * (ln ((R_S + r) / R_S) - r / (R_S + r)))"
  using assms by (simp add: nfwMassInsideRadius_def power3_eq_cube field_simps)

text \<open>The unbounded search for the next radius ends for every mass that is asked for, since the mass
  inside a radius grows without limit, and it returns the first point of its grid that holds the mass.\<close>

theorem nfwNextRadius_ends:
  assumes "0 < rho_0" "0 < R_S"
  shows "\<exists>k. nfwNextRadius start goal rho_0 R_S = Some (start + real k / 10000)
    \<and> goal \<le> nfwMassInsideRadius (start + real k / 10000) rho_0 R_S
    \<and> (\<forall>j < k. nfwMassInsideRadius (start + real j / 10000) rho_0 R_S < goal)"
proof -
  define b where "b = max (3 * R_S) (max 1 (goal / rho_0))"
  obtain k where "(b - start) * 10000 \<le> real k" using real_arch_simple by blast
  then have r: "b \<le> start + real k / 10000" by simp
  then have l: "3 * R_S \<le> start + real k / 10000" "1 \<le> start + real k / 10000" "goal / rho_0 \<le> start + real k / 10000"
    by (simp_all add: b_def)
  from l(3) have "goal \<le> rho_0 * (start + real k / 10000)"
    using assms(1) by (simp add: pos_divide_le_eq mult.commute)
  with nfw_mass_large[OF assms l(1,2)] have "nfwMassInsideRadius (start + real k / 10000) rho_0 R_S \<ge> goal" by linarith
  from next_radius_found[of "\<lambda>r. nfwMassInsideRadius r rho_0 R_S \<ge> goal", OF this]
  show ?thesis by (auto simp: nfwNextRadius_def not_le)
qed

theorem nfwNextRadius_ends_witness:
  "\<exists>k. nfwNextRadius 0 1000 2 5 = Some (0 + real k / 10000)"
  using nfwNextRadius_ends[of 2 5 0 1000] by auto

section \<open>Hernquist\<close>

lemma hernq_mass_NaN:
  assumes "0 \<le> r"
  shows "hernqMassInsideRadius (Fin r) (Fin 0) (Fin a) (Fin mass) = NaN"
  using assms by (auto simp: hernqMassInsideRadius_def Let_def)

lemma next_radius_never:
  assumes "next_radius enough r = Some y" "\<And>r. 0 \<le> r \<Longrightarrow> \<not> enough r"
  shows "r < 0"
  using assms
proof (induction rule: next_radius.raw_induct[rotated 1, consumes 1])
  case (1 loop enough r y)
  show ?case
  proof (rule ccontr)
    assume r: "\<not> r < 0"
    then have "\<not> enough r" using 1(3) by simp
    then have "loop enough (r + 1 / 10000) = Some y" using 1(2) by simp
    from 1(1)[OF this 1(3)] show False using r by simp
  qed
qed

text \<open>C34: \<open>nbGenerateHernqCore\<close> passes the running radius, which starts at 0, for the scale of the radius.
  The mass inside any radius is then NaN, the search for the first radius never ends, and the model is
  returned for no parameters, unless no body is asked for.\<close>

theorem hernquist_never_returns:
  "nbGenerateHernqCore prng n mass ignore rShift vShift radius_scale a =
     (if n = 0 then Some ([], prng) else None)"
proof (cases n)
  case (Suc m)
  have "hernqNextRadius 0 goal (Fin 0) (Fin a) (Fin mass) = None" for goal
  proof (cases "hernqNextRadius 0 goal (Fin 0) (Fin a) (Fin mass)")
    case (Some y)
    then have "(0::real) < 0"
      unfolding hernqNextRadius_def by (rule next_radius_never) (simp add: hernq_mass_NaN)
    then show ?thesis by simp
  qed
  moreover have "[0..<n] = 0 # [1..<n]" using Suc by (simp add: upt_conv_Cons)
  ultimately show ?thesis
    using Suc by (simp add: nbGenerateHernqCore_def hernq_body_def Let_def del: upt_Suc)
qed (simp add: nbGenerateHernqCore_def Let_def)

section \<open>A generator whose draws are known\<close>

text \<open>All words of the state are the same, the double just above 1.5; no refill happens for 382 draws.\<close>

definition sample_rng :: "nat \<Rightarrow> dsfmt_t" where
  "sample_rng i = \<lparr>status = replicate (DSFMT_N + 1) (0x3FF8000000000001, 0x3FF8000000000001), idx = i\<rparr>"

definition sample_u :: real where
  "sample_u = 1 / 2 + 1 / 2 ^ 52"

lemma sample_word:
  "i < 382 \<Longrightarrow> word_at (status (refill (sample_rng i))) (idx (refill (sample_rng i))) = 0x3FF8000000000001"
  by (simp add: sample_rng_def refill_def word_at_def dsfmt_params nth_replicate del: replicate_Suc)

lemma sample_bits:
  "double_of_bits (0x3FF8000000000001) = Fin (1 + sample_u)"
  "double_of_bits (0x3FF8000000000001 OR 1) = Fin (1 + sample_u)"
proof -
  have t: "take_bit 52 (0x3FF8000000000001 :: 64 word) = 0x8000000000001"
    "one_two (0x3FF8000000000001)" by (simp_all add: one_two_def)
  show "double_of_bits (0x3FF8000000000001) = Fin (1 + sample_u)"
    using one_two_value[OF t(2)] unfolding t(1) by (simp add: sample_u_def)
  moreover have "(0x3FF8000000000001 :: 64 word) OR 1 = 0x3FF8000000000001" by simp
  ultimately show "double_of_bits (0x3FF8000000000001 OR 1) = Fin (1 + sample_u)" by simp
qed

lemma sample_rng_ok: "i \<le> 382 \<Longrightarrow> dsfmt_ok (sample_rng i)"
  by (simp add: dsfmt_ok_def good_words_def sample_rng_def one_two_def DSFMT_N64_def DSFMT_N_def
      del: replicate_Suc)

lemma sample_next: "i < 382 \<Longrightarrow> (refill (sample_rng i))\<lparr>idx := idx (refill (sample_rng i)) + 1\<rparr> = sample_rng (i + 1)"
  by (simp add: sample_rng_def refill_def DSFMT_N64_def DSFMT_N_def)

lemma sample_draws:
  assumes "i < 382"
  shows "dsfmt_genrand_open_open (sample_rng i) = (Fin sample_u, sample_rng (i + 1))"
    "dsfmt_genrand_close_open (sample_rng i) = (Fin sample_u, sample_rng (i + 1))"
  using sample_word[OF assms] sample_next[OF assms] sample_bits
  by (simp_all add: dsfmt_genrand_open_open_def dsfmt_genrand_close_open_def dsfmt_genrand_close1_open2_def
      Let_def dbl_consts)

lemma sample_u_range: "0 < sample_u" "sample_u < 1" "1 / 2 \<le> sample_u" "sample_u\<^sup>2 \<le> 3 / 10"
  by (simp_all add: sample_u_def power2_eq_square field_simps)

lemma sample_xrandom: "i < 382 \<Longrightarrow> mwXrandom (sample_rng i) a b = (a + (b - a) * sample_u, sample_rng (i + 1))"
  by (simp add: mwXrandom_def sample_draws)

lemma sample_point:
  assumes "i + 2 < 382"
  shows "mwRandomUnitPoint (sample_rng i) = (\<lparr>X = 1 / 2 ^ 51, Y = 1 / 2 ^ 51, Z = 1 / 2 ^ 51\<rparr>, sample_rng (i + 3))"
  using assms by (simp add: mwRandomUnitPoint_def mwUnitRandom_def sample_xrandom numeral_3_eq_3) (simp add: sample_u_def)

lemma sample_shell:
  assumes "i + 2 < 382"
  shows "\<exists>v. pickShell (sample_rng i) rad = Some (v, sample_rng (i + 3))"
proof -
  have "reject mwRandomUnitPoint (\<lambda>vec. \<not> mw_sqrv vec > 1) (sample_rng i)
      = Some (\<lparr>X = 1 / 2 ^ 51, Y = 1 / 2 ^ 51, Z = 1 / 2 ^ 51\<rparr>, sample_rng (i + 3))"
    by (rule reject_accept) (rule sample_point[OF assms], simp add: vec_defs)
  then show ?thesis by (simp add: pickShell_def)
qed

lemma sample_G:
  assumes "i + 1 < 382"
  shows "plummerSelectFromG (sample_rng i) = Some (sample_u, sample_rng (i + 2))"
proof -
  note u = sample_u_range
  have p: "0 < 1 - sqr sample_u" using u(4) by (simp add: power2_eq_square)
  have "(7 / 10) ^ 4 \<le> (1 - sqr sample_u) ^ 4"
    using u(4) by (intro power_mono) (simp_all add: power2_eq_square)
  also have "(1 - sqr sample_u) ^ 4 = (1 - sqr sample_u) powr 4"
    using p powr_realpow[of "1 - sqr sample_u" 4] by simp
  also have "\<dots> \<le> (1 - sqr sample_u) powr (7 / 2)"
    using p by (intro powr_mono') (simp_all)
  finally have "1 / 5 \<le> (1 - sqr sample_u) powr (7 / 2)" by (simp add: field_simps)
  then have "sqr sample_u * (1 / 5) \<le> sqr sample_u * mw_pow (1 - sqr sample_u) (7 / 2)"
    using p by (intro mult_left_mono) (simp_all add: mw_pow_pos)
  moreover have "sample_u / 10 \<le> sqr sample_u * (1 / 5)"
    using u mult_left_mono[of "1 / 2" sample_u sample_u] by simp
  ultimately have "\<not> sample_u / 10 > sqr sample_u * mw_pow (1 - sqr sample_u) (7 / 2)" by linarith
  moreover have "draw_from_G (sample_rng i) = ((sample_u, sample_u / 10), sample_rng (i + 2))"
    using assms by (simp add: draw_from_G_def sample_xrandom)
  ultimately show ?thesis by (simp add: plummerSelectFromG_def reject_accept)
qed

lemma sample_plummer:
  "\<exists>b d. nbGeneratePlummerCore (sample_rng 0) 1 mass ignore rs vs R = Some ([b], d)"
proof -
  obtain r where r: "1 / dsqrt (dpow (Fin sample_u) (- 2 / 3) - 1) = Fin r"
    using plummer_radius[of sample_u] sample_u_range by (metis less_imp_le)
  have "plummerRandomR (sample_rng 0) = (Fin r, sample_rng 1)"
    using r unfolding plummerRandomR_def by (simp add: sample_draws)
  then have 1: "reject plummerRandomR (\<lambda>r. \<not> isinf r) (sample_rng 0) = Some (Fin r, sample_rng 1)"
    by (rule reject_accept) simp
  obtain v where v: "pickShell (sample_rng 1) (R * r) = Some (v, sample_rng 4)"
    using sample_shell[of 1] by auto
  have g: "plummerSelectFromG (sample_rng 4) = Some (sample_u, sample_rng 6)"
    using sample_G[of 4] by simp
  obtain w where w: "pickShell (sample_rng 6) (sqrt (mass / R) * (sqrt 2 * sample_u / sqrt (sqrt (1 + sqr r))))
      = Some (w, sample_rng 9)"
    using sample_shell[of 6] by auto
  have "plummer_body mass ignore rs vs R (sqrt (mass / R)) 0 (sample_rng 0) =
    Some (\<lparr>b_pos = mw_incaddv v rs, b_vel = mw_incaddv w vs, b_mass = mass, b_type = BODY ignore,
           b_id = 1, b_next = None\<rparr>, sample_rng 9)"
    unfolding plummer_body_def plummerBodyPosition_def plummerBodyVelocity_def plummerRandomV_def
    by (simp only: 1 v g w bind.bind_lunit prod.case dval.simps Let_def) simp
  then show ?thesis by (simp add: nbGeneratePlummerCore_def)
qed

theorem plummer_bodies_bound_witness:
  "\<exists>b d. nbGeneratePlummerCore (sample_rng 0) 1 12 False ZERO_VECTOR ZERO_VECTOR 2 = Some ([b], d) \<and>
     (mw_absv (b_vel b))\<^sup>2 < 24 / sqrt (4 + (mw_absv (b_pos b))\<^sup>2)"
proof -
  obtain b d where b: "nbGeneratePlummerCore (sample_rng 0) 1 12 False ZERO_VECTOR ZERO_VECTOR 2 = Some ([b], d)"
    using sample_plummer by blast
  have "mw_subv v ZERO_VECTOR = v" for v by (simp add: vec_defs)
  then show ?thesis using plummer_bodies_bound[OF sample_rng_ok _ _ b] b by simp
qed

theorem pickShell_returns_witness:
  "\<exists>v d'. pickShell (sample_rng 0) (- 3) = Some (v, d') \<and> mw_absv v = 3"
proof -
  have "mw_sqrv (nth_draw mwRandomUnitPoint 0 (sample_rng 0)) \<le> 1"
    using sample_point[of 0] by (simp add: vec_defs)
  then have "\<exists>n. mw_sqrv (nth_draw mwRandomUnitPoint n (sample_rng 0)) \<le> 1" by blast
  then show ?thesis using pickShell_returns[OF sample_rng_ok[of 0], of "- 3"] by auto
qed

theorem plummerRandomR_inverts_mass_witness:
  "\<exists>r d. reject plummerRandomR (\<lambda>r. \<not> isinf r) (sample_rng 0) = Some (Fin r, d) \<and> (r / sqrt (1 + r\<^sup>2)) ^ 3 = sample_u"
  using plummerRandomR_inverts_mass[OF sample_rng_ok[of 0]] by (auto simp: sample_draws)

end
