(* ===== verification/NBody_Dwarf.thy ===== *)
theory NBody_Dwarf
  imports NBody_Types MW_Double
begin

text \<open>
  The profiles of dwarf galaxies, \<open>nbody_dwarf_potential.c\<close>, over \<open>dbl\<close>: at the centre the densities and
  the NFW potential are not finite, and the code that samples from them looks for that. \<open>None\<close> is
  \<open>mw_fail\<close>. The potentials are the negated ones. The Einasto profile is switched off in the code.
\<close>

definition plummer_den :: "dbl Dwarf \<Rightarrow> dbl \<Rightarrow> dbl" where
  "plummer_den model r =
     (let mass = dw_mass model; rscale = dw_scaleLength model
      in 3 / (4 * Fin pi) * (mass / cube rscale) * dminusfivehalves (1 + sqr (r / rscale)))"

definition plummer_pot :: "dbl Dwarf \<Rightarrow> dbl \<Rightarrow> dbl" where
  "plummer_pot model r =
     (let mass = dw_mass model; rscale = dw_scaleLength model
      in mass / dsqrt (sqr r + sqr rscale))"

definition nfw_den :: "dbl Dwarf \<Rightarrow> dbl \<Rightarrow> dbl" where
  "nfw_den model r =
     (let rscale = dw_scaleLength model; p0 = dw_p0 model; R = r / rscale
      in p0 * dinv R * dinv (sqr (1 + R)))"

definition nfw_pot :: "dbl Dwarf \<Rightarrow> dbl \<Rightarrow> dbl" where
  "nfw_pot model r =
     (let rscale = dw_scaleLength model; p0 = dw_p0 model; R = r / rscale
      in 4 * Fin pi * sqr rscale * p0 * dinv R * dlog (1 + R))"

definition gen_hern_den :: "dbl Dwarf \<Rightarrow> dbl \<Rightarrow> dbl" where
  "gen_hern_den model r =
     (let mass = dw_mass model; rscale = dw_scaleLength model
      in dinv (2 * Fin pi) * mass * rscale / (r * cube (r + rscale)))"

definition gen_hern_pot :: "dbl Dwarf \<Rightarrow> dbl \<Rightarrow> dbl" where
  "gen_hern_pot model r =
     (let mass = dw_mass model; rscale = dw_scaleLength model in mass / (r + rscale))"

definition get_potential :: "dbl Dwarf \<Rightarrow> dbl \<Rightarrow> dbl option" where
  "get_potential model r = (case dw_type model of
       Plummer \<Rightarrow> Some (plummer_pot model r)
     | NFW \<Rightarrow> Some (nfw_pot model r)
     | General_Hernquist \<Rightarrow> Some (gen_hern_pot model r)
     | _ \<Rightarrow> None)"

definition get_density :: "dbl Dwarf \<Rightarrow> dbl \<Rightarrow> dbl option" where
  "get_density model r = (case dw_type model of
       Plummer \<Rightarrow> Some (plummer_den model r)
     | NFW \<Rightarrow> Some (nfw_den model r)
     | General_Hernquist \<Rightarrow> Some (gen_hern_den model r)
     | _ \<Rightarrow> None)"

section \<open>Finite parameters\<close>

text \<open>A component with finite parameters, of a type that is known, as it comes out of the Lua file.\<close>

definition dwarf_of :: "dwarf_t \<Rightarrow> real \<Rightarrow> real \<Rightarrow> real \<Rightarrow> dbl Dwarf" where
  "dwarf_of t m a p0 = \<lparr>dw_type = t, dw_mass = Fin m, dw_scaleLength = Fin a, dw_n = Fin 0,
                         dw_p0 = Fin p0, dw_r200 = Fin 0\<rparr>"

definition known_type :: "dwarf_t \<Rightarrow> bool" where
  "known_type t \<longleftrightarrow> t \<in> {Plummer, NFW, General_Hernquist}"

lemma known_typeE:
  assumes "known_type t"
  obtains "t = Plummer" | "t = NFW" | "t = General_Hernquist"
  using assms by (auto simp: known_type_def)

text \<open>What the profiles are for positive radii.\<close>

fun psi :: "dwarf_t \<Rightarrow> real \<Rightarrow> real \<Rightarrow> real \<Rightarrow> real \<Rightarrow> real" where
  "psi Plummer m a p0 r = m / sqrt (r\<^sup>2 + a\<^sup>2)"
| "psi NFW m a p0 r = 4 * pi * a ^ 3 * p0 * (ln (1 + r / a) / r)"
| "psi General_Hernquist m a p0 r = m / (r + a)"
| "psi _ m a p0 r = 0"

fun rho :: "dwarf_t \<Rightarrow> real \<Rightarrow> real \<Rightarrow> real \<Rightarrow> real \<Rightarrow> real" where
  "rho Plummer m a p0 r = 3 * m * a\<^sup>2 / (4 * pi * ((r\<^sup>2 + a\<^sup>2)\<^sup>2 * sqrt (r\<^sup>2 + a\<^sup>2)))"
| "rho NFW m a p0 r = p0 * a ^ 3 / (r * (r + a)\<^sup>2)"
| "rho General_Hernquist m a p0 r = m * a / (2 * pi * r * (r + a) ^ 3)"
| "rho _ m a p0 r = 0"

lemma get_potential_psi:
  assumes "known_type t" "0 < a" "0 < r"
  shows "get_potential (dwarf_of t m a p0) (Fin r) = Some (Fin (psi t m a p0 r))"
proof -
  have s: "0 < r\<^sup>2 + a\<^sup>2" using assms by (simp add: add_pos_pos)
  then have "\<not> sqr r + sqr a < 0" "sqrt (sqr r + sqr a) \<noteq> 0"
    using assms(2) by (simp_all add: power2_eq_square)
  moreover have "0 < 1 + r / a" using assms by (simp add: add_pos_pos)
  ultimately show ?thesis using assms(2,3)
    by (rule_tac known_typeE[OF assms(1)])
       (simp_all add: get_potential_def plummer_pot_def nfw_pot_def gen_hern_pot_def dwarf_of_def
          dbl_consts dlog_ln dinv_Fin power2_eq_square power3_eq_cube del: dlog.simps)
qed

lemma get_density_rho:
  assumes "known_type t" "0 < a" "0 < r"
  shows "get_density (dwarf_of t m a p0) (Fin r) = Some (Fin (rho t m a p0 r))"
  using assms(1)
proof (cases rule: known_typeE)
  case 1
  have q: "0 < 1 + sqr (r / a)" using add_pos_nonneg[of 1 "sqr (r / a)"] by simp
  have e: "1 + sqr (r / a) = (r\<^sup>2 + a\<^sup>2) / a\<^sup>2"
    using assms(2) by (simp add: field_simps power2_eq_square)
  have sq: "sqrt (1 + sqr (r / a)) = sqrt (r\<^sup>2 + a\<^sup>2) / a"
    using assms(2) by (simp only: e real_sqrt_divide) simp
  have "3 / (4 * pi) * (m / cube a) * (1 / ((S / a\<^sup>2)\<^sup>2 * (Q / a))) = 3 * m * a\<^sup>2 / (4 * pi * (S\<^sup>2 * Q))" for S Q
    using assms(2) by (simp add: power2_eq_square)
  then have "3 / (4 * pi) * (m / cube a) * (1 / ((1 + sqr (r / a))\<^sup>2 * sqrt (1 + sqr (r / a))))
      = rho Plummer m a p0 r"
    unfolding sq by (simp only: e rho.simps)
  moreover have "get_density (dwarf_of t m a p0) (Fin r) =
    Some (Fin (3 / (4 * pi) * (m / cube a) * (1 / ((1 + sqr (r / a))\<^sup>2 * sqrt (1 + sqr (r / a))))))"
    using 1 assms dminusfivehalves_Fin[OF q]
    by (simp add: get_density_def plummer_den_def dwarf_of_def dbl_consts)
  ultimately show ?thesis using 1 by simp
next
  case 2
  have q: "1 + r / a \<noteq> 0" "r / a \<noteq> 0" using assms add_pos_pos[of 1 "r / a"] by simp_all
  have "get_density (dwarf_of t m a p0) (Fin r) = Some (Fin (p0 * (1 / (r / a)) * (1 / sqr (1 + r / a))))"
    using 2 assms q by (simp add: get_density_def nfw_den_def dwarf_of_def dbl_consts dinv_Fin)
  also have "p0 * (1 / (r / a)) * (1 / sqr (1 + r / a)) = rho NFW m a p0 r"
    using assms by (simp add: field_simps power2_eq_square power3_eq_cube)
  finally show ?thesis using 2 by simp
next
  case 3
  then show ?thesis using assms
    by (simp add: get_density_def gen_hern_den_def dwarf_of_def dbl_consts dinv_Fin power3_eq_cube)
qed


section \<open>Density and potential\<close>

lemma psi_deriv:
  assumes "known_type t" "0 < a" "0 < r"
  shows "(psi t m a p0 has_real_derivative
     (case t of Plummer \<Rightarrow> - m * r / ((r\<^sup>2 + a\<^sup>2) * sqrt (r\<^sup>2 + a\<^sup>2))
      | NFW \<Rightarrow> 4 * pi * a ^ 3 * p0 * (1 / (r * (r + a)) - ln (1 + r / a) / r\<^sup>2)
      | _ \<Rightarrow> - m / (r + a)\<^sup>2)) (at r)"
  using assms(1)
proof (cases rule: known_typeE)
  case 1
  have s: "0 < r\<^sup>2 + a\<^sup>2" using assms by (simp add: add_pos_pos)
  have "((\<lambda>r. m / sqrt (r\<^sup>2 + a\<^sup>2)) has_real_derivative
      - (m * (2 * r * (inverse (sqrt (r\<^sup>2 + a\<^sup>2)) / 2)) / (sqrt (r\<^sup>2 + a\<^sup>2) * sqrt (r\<^sup>2 + a\<^sup>2)))) (at r)"
    using s by (auto intro!: derivative_eq_intros)
  moreover have "- (m * (2 * r * (inverse (sqrt (r\<^sup>2 + a\<^sup>2)) / 2)) / (sqrt (r\<^sup>2 + a\<^sup>2) * sqrt (r\<^sup>2 + a\<^sup>2)))
      = - m * r / ((r\<^sup>2 + a\<^sup>2) * sqrt (r\<^sup>2 + a\<^sup>2))"
    using s by (simp add: field_simps)
  moreover have "psi Plummer m a p0 = (\<lambda>r. m / sqrt (r\<^sup>2 + a\<^sup>2))" by (rule ext) simp
  ultimately show ?thesis using 1 by simp
next
  case 2
  have s: "0 < 1 + r / a" using assms by (simp add: add_pos_pos)
  have "((\<lambda>r. 4 * pi * a ^ 3 * p0 * (ln (1 + r / a) / r)) has_real_derivative
      4 * pi * a ^ 3 * p0 * ((1 / a / (1 + r / a) * r - ln (1 + r / a)) / (r * r))) (at r)"
    using assms s by (auto intro!: derivative_eq_intros simp: field_simps)
  moreover have "(1 / a / (1 + r / a) * r - ln (1 + r / a)) / (r * r) = 1 / (r * (r + a)) - ln (1 + r / a) / r\<^sup>2"
  proof -
    have "1 / a / (1 + r / a) = 1 / (r + a)" using assms s by (simp add: field_simps)
    moreover have "(1 / t * r - L) / (r * r) = 1 / (r * t) - L / r\<^sup>2" if "t \<noteq> 0" for t L :: real
      using assms(3) that by (simp add: power2_eq_square field_simps)
    moreover have "r + a \<noteq> 0" using assms by simp
    ultimately show ?thesis by metis
  qed
  moreover have "psi NFW m a p0 = (\<lambda>r. 4 * pi * a ^ 3 * p0 * (ln (1 + r / a) / r))" by (rule ext) simp
  ultimately show ?thesis unfolding 2 dwarf_t.case by (simp only:)
next
  case 3
  have "((\<lambda>r. m / (r + a)) has_real_derivative - (m / ((r + a) * (r + a)))) (at r)"
    using assms by (auto intro!: derivative_eq_intros)
  moreover have "psi General_Hernquist m a p0 = (\<lambda>r. m / (r + a))" by (rule ext) simp
  ultimately show ?thesis using 3 by (simp add: power2_eq_square)
qed

text \<open>The mass inside a radius, as the potential implies it.\<close>

fun inside_mass :: "dwarf_t \<Rightarrow> real \<Rightarrow> real \<Rightarrow> real \<Rightarrow> real \<Rightarrow> real" where
  "inside_mass Plummer m a p0 r = m * r ^ 3 / ((r\<^sup>2 + a\<^sup>2) * sqrt (r\<^sup>2 + a\<^sup>2))"
| "inside_mass NFW m a p0 r = 4 * pi * a ^ 3 * p0 * (ln (1 + r / a) - r / (r + a))"
| "inside_mass _ m a p0 r = m * r\<^sup>2 / (r + a)\<^sup>2"

lemma inside_fun:
  "inside_mass Plummer m a p0 = (\<lambda>r. m * r ^ 3 / ((r\<^sup>2 + a\<^sup>2) * sqrt (r\<^sup>2 + a\<^sup>2)))"
  "inside_mass NFW m a p0 = (\<lambda>r. 4 * pi * a ^ 3 * p0 * (ln (1 + r / a) - r / (r + a)))"
  "inside_mass General_Hernquist m a p0 = (\<lambda>r. m * r\<^sup>2 / (r + a)\<^sup>2)"
  by (rule ext, simp)+

lemma psi_inside:
  assumes "known_type t" "0 < a" "0 < x"
  shows "(psi t m a p0 has_real_derivative - inside_mass t m a p0 x / x\<^sup>2) (at x)"
proof -
  have "(case t of Plummer \<Rightarrow> - m * x / ((x\<^sup>2 + a\<^sup>2) * sqrt (x\<^sup>2 + a\<^sup>2))
    | NFW \<Rightarrow> 4 * pi * a ^ 3 * p0 * (1 / (x * (x + a)) - ln (1 + x / a) / x\<^sup>2)
    | _ \<Rightarrow> - m / (x + a)\<^sup>2) = - inside_mass t m a p0 x / x\<^sup>2"
    using assms(1)
  proof (cases rule: known_typeE)
    case 1
    show ?thesis using assms(3) by (simp add: 1 power2_eq_square power3_eq_cube)
  next
    case 2
    have "k * (1 / (x * s) - L / x\<^sup>2) = - (k * (L - x / s)) / x\<^sup>2" if "s \<noteq> 0" for k L s
      using assms(3) that by (simp add: power2_eq_square field_simps)
    moreover have "x + a \<noteq> 0" using assms(3) assms(2) by simp
    ultimately show ?thesis unfolding 2 dwarf_t.case inside_mass.simps by blast
  next
    case 3
    show ?thesis using assms(3) by (simp add: 3)
  qed
  then show ?thesis using psi_deriv[OF assms, of m p0] by simp
qed

lemma inside_mass_deriv:
  assumes "known_type t" "0 < a" "0 < r"
  shows "(inside_mass t m a p0 has_real_derivative 4 * pi * r\<^sup>2 * rho t m a p0 r) (at r)"
  using assms(1)
proof (cases rule: known_typeE)
  case 1
  define q where "q = sqrt (r\<^sup>2 + a\<^sup>2)"
  have s: "0 < r\<^sup>2 + a\<^sup>2" "0 < q" "q * q = r\<^sup>2 + a\<^sup>2" using assms by (simp_all add: q_def add_pos_pos)
  have d1: "((\<lambda>r. r\<^sup>2 + a\<^sup>2) has_real_derivative 2 * r) (at r)"
    by (auto intro!: derivative_eq_intros)
  have d2: "((\<lambda>r. sqrt (r\<^sup>2 + a\<^sup>2)) has_real_derivative inverse q / 2 * (2 * r)) (at r)"
    using DERIV_chain2[OF DERIV_real_sqrt[OF s(1)] d1] by (simp only: q_def)
  have "2 * r * q + inverse q / 2 * (2 * r) * (r\<^sup>2 + a\<^sup>2) = 3 * r * q"
    using s(2) by (simp add: s(3)[symmetric])
  then have "((\<lambda>r. (r\<^sup>2 + a\<^sup>2) * sqrt (r\<^sup>2 + a\<^sup>2)) has_real_derivative 3 * r * q) (at r)"
    using DERIV_mult[OF d1 d2] by (simp only: q_def[symmetric])
  moreover have "((\<lambda>r. m * r ^ 3) has_real_derivative m * (3 * r\<^sup>2)) (at r)"
    by (auto intro!: derivative_eq_intros)
  ultimately have "((\<lambda>r. m * r ^ 3 / ((r\<^sup>2 + a\<^sup>2) * sqrt (r\<^sup>2 + a\<^sup>2))) has_real_derivative
    (m * (3 * r\<^sup>2) * ((r\<^sup>2 + a\<^sup>2) * q) - m * r ^ 3 * (3 * r * q)) / (((r\<^sup>2 + a\<^sup>2) * q) * ((r\<^sup>2 + a\<^sup>2) * q))) (at r)"
    unfolding q_def using s(1) by (intro DERIV_divide) auto
  moreover have "(m * (3 * r\<^sup>2) * ((r\<^sup>2 + a\<^sup>2) * q) - m * r ^ 3 * (3 * r * q)) / (((r\<^sup>2 + a\<^sup>2) * q) * ((r\<^sup>2 + a\<^sup>2) * q))
      = 4 * pi * r\<^sup>2 * rho Plummer m a p0 r"
  proof -
    have n: "m * (3 * r\<^sup>2) * ((r\<^sup>2 + a\<^sup>2) * q) - m * r ^ 3 * (3 * r * q) = 3 * m * r\<^sup>2 * a\<^sup>2 * q"
      by (simp add: algebra_simps power2_eq_square power3_eq_cube)
    have r: "4 * pi * r\<^sup>2 * rho Plummer m a p0 r = 3 * m * r\<^sup>2 * a\<^sup>2 / ((r\<^sup>2 + a\<^sup>2)\<^sup>2 * q)"
      by (simp add: q_def mult_ac)
    have "n * q / ((S * q) * (S * q)) = n / (S\<^sup>2 * q)" for n S
      using s(2) by (simp add: power2_eq_square)
    then show ?thesis unfolding n r .
  qed
  ultimately show ?thesis by (simp add: 1 inside_fun)
next
  case 2
  have s: "0 < 1 + r / a" using assms by (simp add: add_pos_pos)
  have "((\<lambda>r. 4 * pi * a ^ 3 * p0 * (ln (1 + r / a) - r / (r + a))) has_real_derivative
      4 * pi * a ^ 3 * p0 * (1 / a / (1 + r / a) - (r + a - r) / ((r + a) * (r + a)))) (at r)"
    using assms s by (auto intro!: derivative_eq_intros simp: field_simps)
  moreover have "4 * pi * a ^ 3 * p0 * (1 / a / (1 + r / a) - (r + a - r) / ((r + a) * (r + a)))
      = 4 * pi * r\<^sup>2 * rho NFW m a p0 r"
  proof -
    have t: "1 / a / (1 + r / a) = 1 / (r + a)" using assms s by (simp add: field_simps)
    have "1 / t - (t - r) / (t * t) = r / t\<^sup>2" if "t \<noteq> 0" for t :: real
      using that by (simp add: field_simps power2_eq_square)
    from this[of "r + a"] have "1 / (r + a) - (r + a - r) / ((r + a) * (r + a)) = r / (r + a)\<^sup>2"
      using assms by simp
    then show ?thesis unfolding t using assms by (simp add: power2_eq_square)
  qed
  ultimately show ?thesis by (simp add: 2 inside_fun)
next
  case 3
  have "((\<lambda>r. m * r\<^sup>2 / (r + a)\<^sup>2) has_real_derivative
      (m * (2 * r) * (r + a)\<^sup>2 - m * r\<^sup>2 * (2 * (r + a))) / ((r + a)\<^sup>2 * (r + a)\<^sup>2)) (at r)"
    using assms by (auto intro!: derivative_eq_intros)
  moreover have "(m * (2 * r) * (r + a)\<^sup>2 - m * r\<^sup>2 * (2 * (r + a))) / ((r + a)\<^sup>2 * (r + a)\<^sup>2)
      = 4 * pi * r\<^sup>2 * rho General_Hernquist m a p0 r"
  proof -
    have "(m * (2 * r) * t\<^sup>2 - m * r\<^sup>2 * (2 * t)) / (t\<^sup>2 * t\<^sup>2) = 2 * m * r * (t - r) / t ^ 3" if "t \<noteq> 0" for t :: real
      using that by (simp add: field_simps power2_eq_square power3_eq_cube)
    from this[of "r + a"] have "(m * (2 * r) * (r + a)\<^sup>2 - m * r\<^sup>2 * (2 * (r + a))) / ((r + a)\<^sup>2 * (r + a)\<^sup>2)
        = 2 * m * r * a / (r + a) ^ 3"
      using assms by simp
    also have "\<dots> = 4 * pi * r\<^sup>2 * rho General_Hernquist m a p0 r"
      using assms by (simp add: power2_eq_square)
    finally show ?thesis .
  qed
  ultimately show ?thesis by (simp add: 3 inside_fun)
qed

text \<open>C36: for each profile the density is the source of the potential. With \<open>psi\<close> the negated potential
  that \<open>get_potential\<close> gives, \<open>- r^2 psi'(r)\<close> is the mass inside \<open>r\<close>, and it grows at the rate \<open>4 pi r^2\<close>
  times what \<open>get_density\<close> gives: Poisson's equation for a spherical system, with G = 1.\<close>

theorem dwarf_density_sources_potential:
  assumes "known_type t" "0 < a" "0 < r"
  shows "\<exists>psi rho inside.
     (\<forall>x > 0. get_potential (dwarf_of t m a p0) (Fin x) = Some (Fin (psi x))
            \<and> (psi has_real_derivative - inside x / x\<^sup>2) (at x))
     \<and> get_density (dwarf_of t m a p0) (Fin r) = Some (Fin (rho r))
     \<and> (inside has_real_derivative 4 * pi * r\<^sup>2 * rho r) (at r)"
proof -
  have "get_potential (dwarf_of t m a p0) (Fin x) = Some (Fin (psi t m a p0 x))
      \<and> (psi t m a p0 has_real_derivative - inside_mass t m a p0 x / x\<^sup>2) (at x)" if "0 < x" for x
    using psi_inside[OF assms(1,2) that] get_potential_psi[OF assms(1,2) that] by blast
  then show ?thesis using inside_mass_deriv[OF assms] get_density_rho[OF assms] by blast
qed

theorem dwarf_density_sources_potential_witness:
  "\<exists>psi (rho :: real \<Rightarrow> real) inside.
     get_potential (dwarf_of NFW 1 2 3) (Fin 5) = Some (Fin (psi 5))
     \<and> (psi has_real_derivative - inside 5 / 5\<^sup>2) (at 5)
     \<and> get_density (dwarf_of NFW 1 2 3) (Fin 5) = Some (Fin (rho 5))
     \<and> (inside has_real_derivative 4 * pi * 5\<^sup>2 * rho 5) (at 5)"
proof -
  have "known_type NFW" by (simp add: known_type_def)
  from dwarf_density_sources_potential[OF this, of 2 5 1 3]
  obtain psi inside and rho :: "real \<Rightarrow> real" where
    1: "\<forall>x > 0. get_potential (dwarf_of NFW 1 2 3) (Fin x) = Some (Fin (psi x))
            \<and> (psi has_real_derivative - inside x / x\<^sup>2) (at x)"
    and 2: "get_density (dwarf_of NFW 1 2 3) (Fin 5) = Some (Fin (rho 5))"
    "(inside has_real_derivative 4 * pi * 5\<^sup>2 * rho 5) (at 5)" by auto
  from spec[OF 1, of 5] have "get_potential (dwarf_of NFW 1 2 3) (Fin 5) = Some (Fin (psi 5))"
    "(psi has_real_derivative - inside 5 / 5\<^sup>2) (at 5)" by simp_all
  with 2 show ?thesis by blast
qed

end
