(* ===== verification/NBody_Numeric.thy ===== *)
theory NBody_Numeric
  imports MW_Double
begin

text \<open>
  The numerical routines of \<open>nbody_mixeddwarf.c\<close>, of which \<open>nbody_isotropic.c\<close> has a copy that differs in
  two constants of the quadrature: stencils for derivatives, Gaussian quadrature, golden section and
  bisection. The function pointer with its arguments is a function on \<open>dbl\<close>. All loops have a counter
  that bounds them, as in the code.
\<close>

section \<open>Derivatives\<close>

definition first_derivative :: "(dbl \<Rightarrow> dbl) \<Rightarrow> dbl \<Rightarrow> dbl" where
  "first_derivative func x =
     (let h = 1 / 1000;
          p1 = 1 * func (x - 2 * h);
          p2 = - 8 * func (x - h);
          p3 = - 1 * func (x + 2 * h);
          p4 = 8 * func (x + h);
          denom = dinv (12 * h)
      in (p1 + p2 + p3 + p4) * denom)"

definition second_derivative :: "(dbl \<Rightarrow> dbl) \<Rightarrow> dbl \<Rightarrow> dbl" where
  "second_derivative func x =
     (let h = 1 / 1000;
          p1 = - 1 * func (x + 2 * h);
          p2 = 16 * func (x + h);
          p3 = - 30 * func x;
          p4 = 16 * func (x - h);
          p5 = - 1 * func (x - 2 * h);
          denom = dinv (12 * h * h)
      in (p1 + p2 + p3 + p4 + p5) * denom)"

section \<open>Quadrature\<close>

text \<open>The three terms of the Gauss rule on the panel from \<open>lowerg\<close> to \<open>upperg\<close>, added to \<open>intv\<close>.\<close>

definition gauss_panel :: "(dbl \<Rightarrow> dbl) \<Rightarrow> dbl \<Rightarrow> dbl \<Rightarrow> dbl \<Rightarrow> dbl" where
  "gauss_panel func lowerg upperg intv =
     (let coef2 = (lowerg + upperg) / 2;
          coef1 = (upperg - lowerg) / 2;
          c1 = 55555555555 / 100000000000;
          c2 = 88888888888 / 100000000000;
          c3 = 55555555555 / 100000000000;
          x1 = - 77459666924 / 100000000000;
          x3 = 77459666924 / 100000000000;
          x1n = coef1 * x1 + coef2;
          x2n = coef2;
          x3n = coef1 * x3 + coef2
      in intv + c1 * func x1n * coef1 + c2 * func x2n * coef1 + c3 * func x3n * coef1)"

text \<open>\<open>Ng\<close> is the number of panels beyond the benchmark.\<close>

function gauss_loop :: "(dbl \<Rightarrow> dbl) \<Rightarrow> dbl \<Rightarrow> dbl \<Rightarrow> dbl \<Rightarrow> dbl \<Rightarrow> dbl \<Rightarrow> nat \<Rightarrow> dbl \<Rightarrow> dbl \<Rightarrow> dbl \<Rightarrow> dbl \<Rightarrow> dbl" where
  "gauss_loop func lower upper b benchmark Ng counter intv lowerg upperg hg =
     (let intv = gauss_panel func lowerg upperg intv;
          lowerg = upperg;
          upperg = upperg + hg;
          hg = (if lowerg > benchmark then (b - benchmark) / Ng else hg)
      in if (if upper > lower then lowerg \<ge> upper else if lower > upper then lowerg \<ge> lower else False)
         then intv
         else if counter > 100000 then intv
         else gauss_loop func lower upper b benchmark Ng (counter + 1) intv lowerg upperg hg)"
  by pat_completeness auto
termination by (relation "measure (\<lambda>(_, _, _, _, _, _, counter, _). 100002 - counter)") auto

declare gauss_loop.simps [simp del]

definition gauss_quad_with :: "dbl \<Rightarrow> dbl \<Rightarrow> (dbl \<Rightarrow> dbl) \<Rightarrow> dbl \<Rightarrow> dbl \<Rightarrow> dbl" where
  "gauss_quad_with ratio Ng func lower upper =
     (let (a, b) = (if lower > upper then (upper, lower) else (lower, upper));
          benchmark = ratio * a;
          hg = (benchmark - a) / 100;
          intv = gauss_loop func lower upper b benchmark Ng 0 0 a (a + hg) hg
      in if lower > upper then intv * - 1 else intv)"

definition gauss_quad :: "(dbl \<Rightarrow> dbl) \<Rightarrow> dbl \<Rightarrow> dbl \<Rightarrow> dbl" where
  "gauss_quad = gauss_quad_with (3 / 2) 10"

section \<open>Maximum\<close>

fun golden_loop :: "(dbl \<Rightarrow> dbl) \<Rightarrow> dbl \<Rightarrow> nat \<Rightarrow> dbl \<Rightarrow> dbl \<Rightarrow> dbl \<Rightarrow> dbl \<Rightarrow> dbl \<Rightarrow> dbl \<Rightarrow> dbl" where
  "golden_loop profile tolerance fuel x0 x1 x2 x3 profile_x1 profile_x2 =
     (let RATIO = 61803399 / 100000000; RATIO_COMPLEMENT = 1 - RATIO;
          result = (if profile_x1 < profile_x2 then - profile_x1 else - profile_x2)
      in if \<not> \<bar>x3 - x0\<bar> > tolerance * (\<bar>x1\<bar> + \<bar>x2\<bar>) then result
         else if profile_x2 < profile_x1
         then let x0 = x1; x1 = x2; x2 = RATIO * x2 + RATIO_COMPLEMENT * x3;
                  profile_x1 = profile_x2; profile_x2 = - profile x2
              in (case fuel of 0 \<Rightarrow> if profile_x1 < profile_x2 then - profile_x1 else - profile_x2
                  | Suc fuel \<Rightarrow> golden_loop profile tolerance fuel x0 x1 x2 x3 profile_x1 profile_x2)
         else let x3 = x2; x2 = x1; x1 = RATIO * x1 + RATIO_COMPLEMENT * x0;
                  profile_x2 = profile_x1; profile_x1 = - profile x1
              in (case fuel of 0 \<Rightarrow> if profile_x1 < profile_x2 then - profile_x1 else - profile_x2
                  | Suc fuel \<Rightarrow> golden_loop profile tolerance fuel x0 x1 x2 x3 profile_x1 profile_x2))"

declare golden_loop.simps [simp del]

text \<open>The loop breaks when its counter exceeds \<open>limit\<close>, after \<open>limit + 1\<close> rounds.\<close>

definition max_finder :: "(dbl \<Rightarrow> dbl) \<Rightarrow> dbl \<Rightarrow> dbl \<Rightarrow> dbl \<Rightarrow> nat \<Rightarrow> dbl \<Rightarrow> dbl" where
  "max_finder profile a b c limit tolerance =
     (let RATIO = 61803399 / 100000000; RATIO_COMPLEMENT = 1 - RATIO;
          x0 = a; x3 = c;
          (x1, x2) = (if \<bar>b - c\<bar> > \<bar>b - a\<bar> then (b, b + RATIO_COMPLEMENT * (c - b))
                      else (b - RATIO_COMPLEMENT * (b - a), b))
      in golden_loop profile tolerance limit x0 x1 x2 x3 (- profile x1) (- profile x2))"

section \<open>Root\<close>

text \<open>The bisection; the middle and its value are what the last round left.\<close>

function bisect :: "(dbl \<Rightarrow> dbl) \<Rightarrow> dbl \<Rightarrow> nat \<Rightarrow> dbl \<Rightarrow> dbl \<Rightarrow> dbl \<Rightarrow> dbl \<Rightarrow> dbl" where
  "bisect func function_value counter new_lower new_upper mid_point mid_point_funcval =
     (if \<bar>mid_point_funcval\<bar> > 1 / 10000
      then let mid_point = (new_lower + new_upper) / 2;
               mid_point_funcval = func mid_point - function_value;
               (new_lower, new_upper) = (if mid_point_funcval < 0 then (mid_point, new_upper)
                                         else (new_lower, mid_point));
               counter = counter + 1
           in if counter > 10000 then mid_point
              else bisect func function_value counter new_lower new_upper mid_point mid_point_funcval
      else mid_point)"
  by pat_completeness auto
termination by (relation "measure (\<lambda>(_, _, counter, _). 10001 - counter)") auto

declare bisect.simps [simp del]

definition interval_point :: "(dbl \<Rightarrow> dbl) \<Rightarrow> dbl \<Rightarrow> dbl \<Rightarrow> dbl \<Rightarrow> nat \<Rightarrow> dbl \<times> dbl" where
  "interval_point func function_value lower_bound upper_bound i =
     (let interval_bound = (upper_bound - lower_bound) * Fin (real i) / 4 + lower_bound;
          value = func interval_bound - function_value
      in if isnan value
         then let interval_bound = interval_bound + 1 / 10000
              in (interval_bound, func interval_bound - function_value)
         else (interval_bound, value))"

text \<open>The search over the intervals with a change of sign; 0 is returned when there is none.\<close>

fun scan_intervals :: "(dbl \<Rightarrow> dbl) \<Rightarrow> dbl \<Rightarrow> (dbl \<times> dbl) list \<Rightarrow> dbl" where
  "scan_intervals func function_value ((x, vx) # (y, vy) # rest) =
     (if vx < 0 \<and> vy > 0 then bisect func function_value 0 x y 0 1
      else if vx > 0 \<and> vy < 0 then bisect func function_value 0 y x 0 1
      else scan_intervals func function_value ((y, vy) # rest))"
| "scan_intervals func function_value _ = 0"

definition root_finder :: "(dbl \<Rightarrow> dbl) \<Rightarrow> dbl \<Rightarrow> dbl \<Rightarrow> dbl \<Rightarrow> dbl" where
  "root_finder func function_value lower_bound upper_bound =
     scan_intervals func function_value
       (map (interval_point func function_value lower_bound upper_bound) [0..<5])"

end
