(* ===== verification/NBody_NumericProps.thy ===== *)
theory NBody_NumericProps
  imports NBody_Numeric
begin

text \<open>
  What the numerical routines compute on functions with finite values: the stencils are exact on
  quartics, the bisection ends within its tolerance of a root it has a change of sign for, and the
  quadrature covers its interval with 102 narrow and 10 wide panels, the last one beyond the end.
\<close>

section \<open>Stencils\<close>

definition quartic :: "real \<Rightarrow> real \<Rightarrow> real \<Rightarrow> real \<Rightarrow> real \<Rightarrow> real \<Rightarrow> real" where
  "quartic a b c d e x = a + b * x + c * x\<^sup>2 + d * x ^ 3 + e * x ^ 4"

lemma quartic_stencils:
  fixes h :: real
  shows "quartic a b c d e (x - 2 * h) - 8 * quartic a b c d e (x - h) - quartic a b c d e (x + 2 * h)
      + 8 * quartic a b c d e (x + h) = (12 * h) * (b + 2 * c * x + 3 * d * x\<^sup>2 + 4 * e * x ^ 3)"
    "- quartic a b c d e (x + 2 * h) + 16 * quartic a b c d e (x + h) - 30 * quartic a b c d e x
      + 16 * quartic a b c d e (x - h) - quartic a b c d e (x - 2 * h)
      = (12 * h * h) * (2 * c + 6 * d * x + 12 * e * x\<^sup>2)"
  by (simp_all add: quartic_def power2_eq_square power3_eq_cube power4_eq_xxxx algebra_simps)

lemma derivatives_quartic:
  assumes f: "\<And>x. func (Fin x) = Fin (quartic a b c d e x)"
  shows "first_derivative func (Fin x) = Fin (b + 2 * c * x + 3 * d * x\<^sup>2 + 4 * e * x ^ 3)"
    "second_derivative func (Fin x) = Fin (2 * c + 6 * d * x + 12 * e * x\<^sup>2)"
proof -
  let ?q = "quartic a b c d e"
  have "first_derivative func (Fin x) = Fin ((?q (x - 2 * h) - 8 * ?q (x - h) - ?q (x + 2 * h) + 8 * ?q (x + h)) * (1 / (12 * h)))"
    if "h = 1 / 1000" for h :: real
    by (simp add: first_derivative_def f dbl_consts dinv_Fin that)
  from this[OF refl] show "first_derivative func (Fin x) = Fin (b + 2 * c * x + 3 * d * x\<^sup>2 + 4 * e * x ^ 3)"
    unfolding quartic_stencils by simp
  have "second_derivative func (Fin x) = Fin ((- ?q (x + 2 * h) + 16 * ?q (x + h) - 30 * ?q x + 16 * ?q (x - h) - ?q (x - 2 * h))
      * (1 / (12 * h * h)))"
    if "h = 1 / 1000" for h :: real
    by (simp add: second_derivative_def f dbl_consts dinv_Fin that)
  from this[OF refl] show "second_derivative func (Fin x) = Fin (2 * c + 6 * d * x + 12 * e * x\<^sup>2)"
    unfolding quartic_stencils by simp
qed

section \<open>Bisection\<close>

lemma bisect_step:
  assumes "func (Fin ((lo + hi) / 2)) = Fin y" "1 / 10000 < \<bar>fv\<bar>"
  shows "bisect func (Fin v) c (Fin lo) (Fin hi) mid (Fin fv) =
    (if 10000 \<le> c then Fin ((lo + hi) / 2)
     else if y < v then bisect func (Fin v) (c + 1) (Fin ((lo + hi) / 2)) (Fin hi) (Fin ((lo + hi) / 2)) (Fin (y - v))
     else bisect func (Fin v) (c + 1) (Fin lo) (Fin ((lo + hi) / 2)) (Fin ((lo + hi) / 2)) (Fin (y - v)))"
  using assms by (subst bisect.simps) (simp add: dbl_consts Let_def)

lemma bisect_done: "\<bar>fv\<bar> \<le> 1 / 10000 \<Longrightarrow> bisect func v c lo hi mid (Fin fv) = mid"
  by (subst bisect.simps) (simp add: dbl_consts)

lemma bisect_accurate:
  fixes g :: "real \<Rightarrow> real"
  assumes fin: "\<And>x. lb \<le> x \<Longrightarrow> x \<le> ub \<Longrightarrow> func (Fin x) = Fin (g x)"
    and lip: "\<And>x y. lb \<le> x \<Longrightarrow> x \<le> ub \<Longrightarrow> lb \<le> y \<Longrightarrow> y \<le> ub \<Longrightarrow> \<bar>g x - g y\<bar> \<le> L * \<bar>x - y\<bar>"
    and "lb \<le> lo" "lo \<le> ub" "lb \<le> hi" "hi \<le> ub" "g lo \<le> v" "v \<le> g hi" "c \<le> 10000"
    and "L * \<bar>hi - lo\<bar> \<le> 2 ^ (10001 - c) / 10000" "1 / 10000 < \<bar>fv\<bar>"
  shows "\<exists>x. bisect func (Fin v) c (Fin lo) (Fin hi) mid (Fin fv) = Fin x \<and> lb \<le> x \<and> x \<le> ub \<and> \<bar>g x - v\<bar> \<le> 1 / 10000"
  using assms(3-)
proof (induction "10000 - c" arbitrary: c lo hi mid fv)
  case 0
  define m where "m = (lo + hi) / 2"
  have m: "lb \<le> m" "m \<le> ub" "\<bar>m - lo\<bar> = \<bar>hi - lo\<bar> / 2" "\<bar>m - hi\<bar> = \<bar>hi - lo\<bar> / 2"
    using 0 by (simp_all add: m_def abs_if field_simps)
  have "\<bar>g m - v\<bar> \<le> max \<bar>g m - g lo\<bar> \<bar>g m - g hi\<bar>" using 0 by (simp add: abs_if max_def)
  also have "\<dots> \<le> L * \<bar>hi - lo\<bar> / 2"
    using lip[of m lo] lip[of m hi] m 0 by (auto simp: m max_def)
  also have "\<dots> \<le> 1 / 10000" using 0 by simp
  finally have "\<bar>g m - v\<bar> \<le> 1 / 10000" .
  moreover have "bisect func (Fin v) c (Fin lo) (Fin hi) mid (Fin fv) = Fin m"
    using 0 bisect_step[where func=func and lo=lo and hi=hi and y="g m" and fv=fv and v=v and c=c and mid=mid]
      fin[OF m(1,2)] by (simp add: m_def)
  ultimately show ?case using m by blast
next
  case (Suc k)
  define m where "m = (lo + hi) / 2"
  have c: "c < 10000" "k = 10000 - (c + 1)" using Suc(2) by simp_all
  have m: "lb \<le> m" "m \<le> ub" "\<bar>m - lo\<bar> = \<bar>hi - lo\<bar> / 2" "\<bar>hi - m\<bar> = \<bar>hi - lo\<bar> / 2"
    using Suc.prems by (simp_all add: m_def abs_if field_simps)
  have "(2 :: real) ^ (10001 - c) = 2 * 2 ^ (10001 - (c + 1))"
    using c(1) by (metis Suc_diff_Suc Suc_eq_plus1 less_SucI numeral_plus_one power_Suc semiring_norm(5) Suc_numeral)
  then have w: "L * (\<bar>hi - lo\<bar> / 2) \<le> 2 ^ (10001 - (c + 1)) / 10000"
    using Suc.prems(8) by simp
  have w1: "L * \<bar>hi - m\<bar> \<le> 2 ^ (10001 - (c + 1)) / 10000" and w2: "L * \<bar>m - lo\<bar> \<le> 2 ^ (10001 - (c + 1)) / 10000"
    using w by (simp_all only: m(3,4))
  have step: "bisect func (Fin v) c (Fin lo) (Fin hi) mid (Fin fv) =
    (if g m < v then bisect func (Fin v) (c + 1) (Fin m) (Fin hi) (Fin m) (Fin (g m - v))
     else bisect func (Fin v) (c + 1) (Fin lo) (Fin m) (Fin m) (Fin (g m - v)))"
    using bisect_step[where func=func and lo=lo and hi=hi and y="g m" and fv=fv and v=v and c=c and mid=mid]
      fin[OF m(1,2)] Suc.prems(9) c(1) by (simp add: m_def)
  show ?case
  proof (cases "\<bar>g m - v\<bar> \<le> 1 / 10000")
    case True
    have "bisect func (Fin v) c (Fin lo) (Fin hi) mid (Fin fv) = Fin m"
      using step unfolding bisect_done[OF True] by simp
    then show ?thesis using True m by blast
  next
    case False
    then have F: "1 / 10000 < \<bar>g m - v\<bar>" by simp
    show ?thesis
    proof (cases "g m < v")
      case True
      have "\<exists>x. bisect func (Fin v) (c + 1) (Fin m) (Fin hi) (Fin m) (Fin (g m - v)) = Fin x
          \<and> lb \<le> x \<and> x \<le> ub \<and> \<bar>g x - v\<bar> \<le> 1 / 10000"
        by (rule Suc.hyps(1)[OF c(2)]) (use Suc.prems m(1,2) w1 F True c(1) in \<open>simp_all only: order_less_imp_le Suc_leI Suc_eq_plus1[symmetric]\<close>)
      then show ?thesis using step True by simp
    next
      case f: False
      have "\<exists>x. bisect func (Fin v) (c + 1) (Fin lo) (Fin m) (Fin m) (Fin (g m - v)) = Fin x
          \<and> lb \<le> x \<and> x \<le> ub \<and> \<bar>g x - v\<bar> \<le> 1 / 10000"
        by (rule Suc.hyps(1)[OF c(2)]) (use Suc.prems m(1,2) w2 F f c(1) in \<open>simp_all only: not_less Suc_leI Suc_eq_plus1[symmetric]\<close>)
      then show ?thesis using step f by simp
    qed
  qed
qed


definition grid_point :: "real \<Rightarrow> real \<Rightarrow> nat \<Rightarrow> real" where
  "grid_point lb ub i = (ub - lb) * real i / 4 + lb"

lemma grid_point_in: "lb < ub \<Longrightarrow> i \<le> 4 \<Longrightarrow> lb \<le> grid_point lb ub i \<and> grid_point lb ub i \<le> ub"
proof
  assume "lb < ub" "i \<le> 4"
  then show "lb \<le> grid_point lb ub i" by (simp add: grid_point_def)
  have "(ub - lb) * real i \<le> (ub - lb) * 4" using \<open>lb < ub\<close> \<open>i \<le> 4\<close> by (intro mult_left_mono) simp_all
  then show "grid_point lb ub i \<le> ub" by (simp add: grid_point_def)
qed

text \<open>The first of four intervals with property \<open>C\<close> decides.\<close>

lemma first_interval:
  fixes s :: "nat \<Rightarrow> 'r"
  assumes step: "\<And>i. i < 4 \<Longrightarrow> if C i then good (s i) else s i = s (i + 1)" and last: "s 4 = z"
  shows "if \<exists>i < 4. C i then good (s 0) else s 0 = z"
proof -
  have "if \<exists>i. n \<le> i \<and> i < 4 \<and> C i then good (s n) else s n = z" if "n \<le> 4" for n
    using that
  proof (induction "4 - n" arbitrary: n)
    case 0
    then have "n = 4" by simp
    moreover from this have "\<not> (\<exists>i. n \<le> i \<and> i < 4 \<and> C i)" by linarith
    ultimately show ?case using last by (subst if_not_P) simp_all
  next
    case (Suc k)
    then have n: "n < 4" "k = 4 - (n + 1)" "n + 1 \<le> 4" by simp_all
    have "(\<exists>i. n \<le> i \<and> i < 4 \<and> C i) \<longleftrightarrow> C n \<or> (\<exists>i. n + 1 \<le> i \<and> i < 4 \<and> C i)"
      using n(1) by (metis Suc_eq_plus1 Suc_leD le_antisym not_less_eq_eq order_refl)
    then show ?case using step[OF n(1)] Suc.hyps(1)[OF n(2,3)] by (smt (verit))
  qed
  from this[of 0] show ?thesis by simp
qed

text \<open>Bisection inside the interval of the search.\<close>

lemma bisect_inside:
  fixes g :: "real \<Rightarrow> real"
  assumes fin: "\<And>x. lb \<le> x \<Longrightarrow> x \<le> ub \<Longrightarrow> func (Fin x) = Fin (g x)"
    and lip: "\<And>x y. lb \<le> x \<Longrightarrow> x \<le> ub \<Longrightarrow> lb \<le> y \<Longrightarrow> y \<le> ub \<Longrightarrow> \<bar>g x - g y\<bar> \<le> L * \<bar>x - y\<bar>"
    and big: "0 \<le> L" "L * (ub - lb) \<le> 2 ^ 10000 / 10000"
    and xy: "lb \<le> x" "x \<le> ub" "lb \<le> y" "y \<le> ub" "g x - v < 0" "0 < g y - v"
  shows "\<exists>z. bisect func (Fin v) 0 (Fin x) (Fin y) 0 1 = Fin z \<and> lb \<le> z \<and> z \<le> ub \<and> \<bar>g z - v\<bar> \<le> 1 / 10000"
proof -
  have "L * \<bar>y - x\<bar> \<le> L * (ub - lb)" using xy big by (intro mult_left_mono) auto
  also have "\<dots> \<le> 2 ^ 10000 / 10000" by (rule big(2))
  also have "\<dots> \<le> 2 ^ (10001 - 0) / 10000" by (intro divide_right_mono power_increasing) simp_all
  finally have w: "L * \<bar>y - x\<bar> \<le> 2 ^ (10001 - 0) / 10000" .
  show ?thesis unfolding one_dbl_def
    by (rule bisect_accurate[OF fin lip xy(1-4) _ _ _ w]) (use xy(5,6) in simp_all)
qed

text \<open>C39: \<open>root_finder\<close> on a function with finite values and a Lipschitz constant that is not astronomic.
  When the value is crossed between two neighbouring points of its grid of five, the result is a point
  of the interval where the function is within 1/10000 of the value: the bisection ends by its
  tolerance and not by its counter. When no two neighbours lie on opposite sides, the result is 0;
  this includes a root that lies exactly on a point of the grid, which is never found.\<close>

theorem root_finder_accurate:
  fixes g :: "real \<Rightarrow> real"
  assumes fin: "\<And>x. lb \<le> x \<Longrightarrow> x \<le> ub \<Longrightarrow> func (Fin x) = Fin (g x)"
    and lip: "\<And>x y. lb \<le> x \<Longrightarrow> x \<le> ub \<Longrightarrow> lb \<le> y \<Longrightarrow> y \<le> ub \<Longrightarrow> \<bar>g x - g y\<bar> \<le> L * \<bar>x - y\<bar>"
    and b: "lb < ub" and big: "0 \<le> L" "L * (ub - lb) \<le> 2 ^ 10000 / 10000"
  shows "if \<exists>i < 4. (g (grid_point lb ub i) - v) * (g (grid_point lb ub (i + 1)) - v) < 0
         then \<exists>x. root_finder func (Fin v) (Fin lb) (Fin ub) = Fin x \<and> lb \<le> x \<and> x \<le> ub \<and> \<bar>g x - v\<bar> \<le> 1 / 10000
         else root_finder func (Fin v) (Fin lb) (Fin ub) = 0"
proof -
  let ?p = "grid_point lb ub"
  define good where "good = (\<lambda>r. \<exists>x. r = Fin x \<and> lb \<le> x \<and> x \<le> ub \<and> \<bar>g x - v\<bar> \<le> 1 / 10000)"
  have point: "interval_point func (Fin v) (Fin lb) (Fin ub) i = (Fin (?p i), Fin (g (?p i) - v))" if "i \<le> 4" for i
    using fin[of "?p i"] grid_point_in[OF b that] by (simp add: interval_point_def dbl_consts grid_point_def)
  have bis: "good (bisect func (Fin v) 0 (Fin x) (Fin y) 0 1)"
    if "lb \<le> x" "x \<le> ub" "lb \<le> y" "y \<le> ub" "g x - v < 0" "0 < g y - v" for x y
    unfolding good_def by (rule bisect_inside[OF fin lip big that])
  define pt where "pt = (\<lambda>i. (Fin (?p i), Fin (g (?p i) - v)))"
  define scan where "scan = (\<lambda>i. scan_intervals func (Fin v) (map pt [i..<5]))"
  let ?change = "\<lambda>i. (g (?p i) - v) * (g (?p (i + 1)) - v) < 0"
  have step: "if ?change i then good (scan i) else scan i = scan (i + 1)" if i: "i < 4" for i
  proof -
    have "[i..<5] = i # (i + 1) # [i + 2..<5]" using i by (simp add: upt_conv_Cons)
    moreover have "[i + 1..<5] = (i + 1) # [i + 2..<5]" using i by (simp add: upt_conv_Cons)
    ultimately have "scan i = (if g (?p i) - v < 0 \<and> 0 < g (?p (i + 1)) - v
        then bisect func (Fin v) 0 (Fin (?p i)) (Fin (?p (i + 1))) 0 1
        else if 0 < g (?p i) - v \<and> g (?p (i + 1)) - v < 0
        then bisect func (Fin v) 0 (Fin (?p (i + 1))) (Fin (?p i)) 0 1 else scan (i + 1))"
      by (simp add: scan_def pt_def zero_dbl_def)
    then show ?thesis
      using bis[of "?p i" "?p (i + 1)"] bis[of "?p (i + 1)" "?p i"] grid_point_in[OF b, of i] grid_point_in[OF b, of "i + 1"] i
      by (auto simp: mult_less_0_iff)
  qed
  have "scan 4 = 0" by (simp add: scan_def pt_def upt_conv_Cons)
  with step have "if \<exists>i < 4. ?change i then good (scan 0) else scan 0 = 0"
    by (rule first_interval[where C = ?change and s = scan])
  moreover have "root_finder func (Fin v) (Fin lb) (Fin ub) = scan 0"
  proof -
    have "map (interval_point func (Fin v) (Fin lb) (Fin ub)) [0..<5] = map pt [0..<5]"
      using point by (auto simp: pt_def)
    then show ?thesis by (simp only: root_finder_def scan_def)
  qed
  ultimately show ?thesis unfolding good_def by (simp only:)
qed

theorem root_finder_accurate_witness:
  "\<exists>x. root_finder (\<lambda>x. 10 - x) (Fin 3) (Fin 0) (Fin 20) = Fin x \<and> \<bar>7 - x\<bar> \<le> 1 / 10000"
proof -
  have "if \<exists>i < 4. (10 - grid_point 0 20 i - 3) * (10 - grid_point 0 20 (i + 1) - 3) < 0
    then \<exists>x. root_finder (\<lambda>x. 10 - x) (Fin 3) (Fin 0) (Fin 20) = Fin x \<and> 0 \<le> x \<and> x \<le> 20 \<and> \<bar>10 - x - 3\<bar> \<le> 1 / 10000
    else root_finder (\<lambda>x. 10 - x) (Fin 3) (Fin 0) (Fin 20) = 0"
  proof (rule root_finder_accurate[where L = 1])
    have "1 * (20 - 0) \<le> (2 :: real) ^ 20 / 10000" by simp
    also have "\<dots> \<le> 2 ^ 10000 / 10000" by (intro divide_right_mono power_increasing) simp_all
    finally show "1 * (20 - 0) \<le> (2 :: real) ^ 10000 / 10000" .
  qed (simp_all add: dbl_consts abs_if)
  moreover have "(10 - grid_point 0 20 1 - 3) * (10 - grid_point 0 20 (1 + 1) - 3) < 0"
    by (simp add: grid_point_def)
  then have "\<exists>i < 4. (10 - grid_point 0 20 i - 3) * (10 - grid_point 0 20 (i + 1) - 3) < 0"
    by (intro exI[of _ 1]) simp
  ultimately obtain x where "root_finder (\<lambda>x. 10 - x) (Fin 3) (Fin 0) (Fin 20) = Fin x" "\<bar>10 - x - 3\<bar> \<le> 1 / 10000"
    by auto
  then show ?thesis by (intro exI[of _ x]) simp
qed


section \<open>Quadrature\<close>

text \<open>One panel of the rule, on reals.\<close>

definition panel :: "(real \<Rightarrow> real) \<Rightarrow> real \<Rightarrow> real \<Rightarrow> real" where
  "panel g l u =
     (let c = (l + u) / 2; w = (u - l) / 2; x = 77459666924 / 10 ^ 11
      in 55555555555 / 10 ^ 11 * g (c - w * x) * w + 88888888888 / 10 ^ 11 * g c * w
         + 55555555555 / 10 ^ 11 * g (c + w * x) * w)"

lemma panel_const: "panel (\<lambda>_. k) l u = k * (u - l) * (199999999998 / 200000000000)"
  by (simp add: panel_def field_simps)

lemma gauss_panel_real:
  assumes fin: "\<And>x. 0 < x \<Longrightarrow> func (Fin x) = Fin (g x)" and lu: "0 < l" "l < u"
  shows "gauss_panel func (Fin l) (Fin u) (Fin I) = Fin (I + panel g l u)"
proof -
  define c w x where "c = (l + u) / 2" and "w = (u - l) / 2" and "x = (77459666924 / 100000000000 :: real)"
  have w: "0 < w" "w < c" using lu by (simp_all add: c_def w_def)
  have "w * x \<le> w * 1" using w unfolding x_def by (intro mult_left_mono) simp_all
  then have pos: "0 < c - w * x" using w by linarith
  have pos': "0 < c" "0 < c + w * x" using w by (simp_all add: x_def add_pos_pos)
  have e: "(Fin l + Fin u) / 2 = Fin c" "(Fin u - Fin l) / 2 = Fin w" "77459666924 / 100000000000 = Fin x"
    by (simp_all add: dbl_consts c_def w_def x_def)
  have f: "func (Fin w * - Fin x + Fin c) = Fin (g (c - w * x))" "func (Fin w * Fin x + Fin c) = Fin (g (c + w * x))"
    "func (Fin c) = Fin (g c)"
    using fin[OF pos] fin[OF pos'(1)] fin[OF pos'(2)] by (simp_all add: add.commute)
  have m: "- 77459666924 / 100000000000 = - Fin x" by (simp add: dbl_consts x_def)
  show ?thesis
    unfolding gauss_panel_def Let_def e m f panel_def c_def[symmetric] w_def[symmetric]
    by (simp add: dbl_consts x_def)
qed

lemma gauss_loop_step:
  assumes fin: "\<And>x. 0 < x \<Longrightarrow> func (Fin x) = Fin (g x)" and lu: "0 < l" "l < u" and "up < lo" "Ng \<noteq> 0"
  shows "gauss_loop func (Fin lo) (Fin up) (Fin b) (Fin bm) (Fin Ng) k (Fin I) (Fin l) (Fin u) (Fin h) =
    (if lo \<le> u \<or> 100000 < k then Fin (I + panel g l u)
     else gauss_loop func (Fin lo) (Fin up) (Fin b) (Fin bm) (Fin Ng) (k + 1) (Fin (I + panel g l u)) (Fin u) (Fin (u + h))
            (Fin (if bm < u then (b - bm) / Ng else h)))"
  using assms by (subst gauss_loop.simps) (simp add: gauss_panel_real[where func = func and g = g] Let_def)

definition panels :: "(real \<Rightarrow> real) \<Rightarrow> real \<Rightarrow> real \<Rightarrow> nat \<Rightarrow> real" where
  "panels g x h n = (\<Sum>k<n. panel g (x + real k * h) (x + real (k + 1) * h))"

lemma panels_Suc: "panels g x h (Suc n) = panels g x h n + panel g (x + real n * h) (x + real (n + 1) * h)"
  by (simp add: panels_def)

text \<open>A stretch of the loop over panels of equal width.\<close>

lemma gauss_loop_run:
  assumes fin: "\<And>x. 0 < x \<Longrightarrow> func (Fin x) = Fin (g x)" and x: "0 < x" "0 < h" "up < lo" "Ng \<noteq> 0"
    and inside: "x + real n * h < lo" "k + n \<le> 100000"
    and width: "x + real n * h \<le> bm \<or> bm < x \<and> (b - bm) / Ng = h"
  shows "gauss_loop func (Fin lo) (Fin up) (Fin b) (Fin bm) (Fin Ng) k (Fin J) (Fin x) (Fin (x + h)) (Fin h)
    = gauss_loop func (Fin lo) (Fin up) (Fin b) (Fin bm) (Fin Ng) (k + n) (Fin (J + panels g x h n))
        (Fin (x + real n * h)) (Fin (x + real (n + 1) * h)) (Fin h)"
  using inside width
proof (induction n)
  case (Suc n)
  let ?u = "x + real (n + 1) * h"
  let ?L = "gauss_loop func (Fin lo) (Fin up) (Fin b) (Fin bm) (Fin Ng)"
  have p: "0 < x + real n * h" "x + real n * h < ?u" using x by (simp_all add: add_pos_nonneg algebra_simps)
  have "0 \<le> real n * h" using x by simp
  then have u: "?u < lo" "k + n \<le> 100000" "\<not> 100000 < k + n" "x + real n * h \<le> bm \<or> bm < x \<and> (b - bm) / Ng = h"
    "x + real n * h < lo" "?u \<le> bm \<or> bm < ?u \<and> (b - bm) / Ng = h"
    using Suc.prems x by (auto simp: algebra_simps)
  have w: "(if bm < ?u then (b - bm) / Ng else h) = h" using u(6) by auto
  have "?L k (Fin J) (Fin x) (Fin (x + h)) (Fin h) = ?L (k + n) (Fin (J + panels g x h n)) (Fin (x + real n * h)) (Fin ?u) (Fin h)"
    by (rule Suc.IH[OF u(5,2,4)])
  also have "\<dots> = ?L (k + n + 1) (Fin (J + panels g x h n + panel g (x + real n * h) ?u)) (Fin ?u) (Fin (?u + h)) (Fin h)"
    using gauss_loop_step[where func = func and g = g, OF fin p x(3,4), of b bm "k + n" "J + panels g x h n" h] u(1,3)
    unfolding w by (simp only: not_le[symmetric] if_False simp_thms)
  also have "?u + h = x + real (Suc n + 1) * h" by (simp add: algebra_simps)
  finally show ?case by (simp add: panels_Suc add.assoc)
qed (simp add: panels_def)

text \<open>The quadrature as \<open>dist_fun\<close> calls it, from ten times a radius \<open>a\<close> down to \<open>a\<close>. In exact arithmetic
  it ends by its own test and not by the counter, after 112 panels of the three-point rule: 102 of width
  \<open>a / 200\<close> from \<open>a\<close> on and 10 of width \<open>0.85 a\<close> up to \<open>10.01 a\<close>, a little beyond the limit of the
  integral.\<close>

theorem gauss_quad_panels:
  fixes g :: "real \<Rightarrow> real"
  assumes fin: "\<And>x. 0 < x \<Longrightarrow> func (Fin x) = Fin (g x)" and a: "0 < a"
  shows "gauss_quad func (Fin (10 * a)) (Fin a) = Fin (-
    (panels g a (a / 200) 102 + panels g (1.51 * a) (0.85 * a) 10))"
proof -
  define h H s where "h = a / 200" and "H = 0.85 * a" and "s = 1.51 * a"
  have h: "0 < h" "a + 102 * h = s" "0 < H" "0 < s" using a by (simp_all add: h_def H_def s_def)
  let ?loop = "gauss_loop func (Fin (10 * a)) (Fin a) (Fin (10 * a)) (Fin (1.5 * a)) (Fin 10)"
  note step = gauss_loop_step[where func = func and g = g and up = a and lo = "10 * a" and Ng = 10
      and b = "10 * a" and bm = "1.5 * a"]
  note run = gauss_loop_run[where func = func and g = g and up = a and lo = "10 * a" and Ng = 10
      and b = "10 * a" and bm = "1.5 * a"]
  have narrow: "?loop 0 (Fin 0) (Fin a) (Fin (a + h)) (Fin h)
      = ?loop 100 (Fin (panels g a h 100)) (Fin (a + real 100 * h)) (Fin (a + real (100 + 1) * h)) (Fin h)"
    using run[OF fin, of a h 100 0 0] a h by (simp add: h_def)
  have wide: "?loop 102 (Fin J) (Fin s) (Fin (s + H)) (Fin H)
      = ?loop 111 (Fin (J + panels g s H 9)) (Fin (s + real 9 * H)) (Fin (s + real (9 + 1) * H)) (Fin H)" for J
    using run[OF fin, of s H 9 102 J] a h by (simp add: H_def s_def)
  have ends: "?loop 111 (Fin J) (Fin (s + real 9 * H)) (Fin (s + real (9 + 1) * H)) (Fin H)
      = Fin (J + panel g (s + real 9 * H) (s + real (9 + 1) * H))" for J
  proof -
    have "0 < s + real 9 * H" "s + real 9 * H < s + real (9 + 1) * H" "10 * a \<le> s + real (9 + 1) * H"
      using h a by (simp_all add: s_def H_def)
    then show ?thesis using step[OF fin, of "s + real 9 * H" "s + real (9 + 1) * H"] a by simp
  qed
  have turn: "?loop 100 (Fin J) (Fin (a + real 100 * h)) (Fin (a + real (100 + 1) * h)) (Fin h)
      = ?loop 102 (Fin (J + panel g (a + real 100 * h) (a + real (100 + 1) * h)
            + panel g (a + real 101 * h) (a + real (101 + 1) * h))) (Fin s) (Fin (s + H)) (Fin H)" for J
  proof -
    have u: "0 < a + real 100 * h" "a + real 100 * h < a + real (100 + 1) * h"
      "a + real (100 + 1) * h < 10 * a" "1.5 * a < a + real (100 + 1) * h"
      "0 < a + real 101 * h" "a + real 101 * h < a + real (101 + 1) * h"
      "a + real (101 + 1) * h < 10 * a" "1.5 * a < a + real (101 + 1) * h"
      using a by (simp_all add: h_def)
    have e: "a + real (100 + 1) * h + h = a + real (101 + 1) * h" "a + real (101 + 1) * h = s"
      "real (100 + 1) = real 101" "(10 * a - 1.5 * a) / 10 = H"
      using h(2) by (simp_all add: H_def)
    have "?loop 100 (Fin J) (Fin (a + real 100 * h)) (Fin (a + real (100 + 1) * h)) (Fin h)
        = ?loop 101 (Fin (J + panel g (a + real 100 * h) (a + real (100 + 1) * h)))
            (Fin (a + real (100 + 1) * h)) (Fin (a + real (101 + 1) * h)) (Fin H)"
      using step[OF fin u(1,2), of 100 J h] u(3,4) a unfolding e(1,4) by (simp add: not_le)
    also have "\<dots> = ?loop 102 (Fin (J + panel g (a + real 100 * h) (a + real (100 + 1) * h)
            + panel g (a + real 101 * h) (a + real (101 + 1) * h))) (Fin (a + real (101 + 1) * h))
            (Fin (a + real (101 + 1) * h + H)) (Fin H)"
      using step[OF fin u(5,6), of 101 _ H] u(7,8) a unfolding e(3,4) by (simp add: not_le)
    finally show ?thesis unfolding e(2) .
  qed
  have "gauss_quad func (Fin (10 * a)) (Fin a) = - ?loop 0 (Fin 0) (Fin a) (Fin (a + h)) (Fin h)"
  proof -
    have m: "x * Fin (- 1) = - x" for x :: dbl by (cases x) simp_all
    show ?thesis using a unfolding gauss_quad_def gauss_quad_with_def by (simp add: Let_def dbl_consts h_def m)
  qed
  moreover have "panels g a h 102 = panels g a h 100 + panel g (a + real 100 * h) (a + real (100 + 1) * h)
      + panel g (a + real 101 * h) (a + real (101 + 1) * h)"
    using panels_Suc[of g a h 100] panels_Suc[of g a h 101] by simp
  ultimately show ?thesis
    using panels_Suc[of g s H 9] unfolding narrow turn wide ends h_def[symmetric] H_def[symmetric] s_def[symmetric]
    by simp
qed

theorem gauss_quad_panels_witness:
  "gauss_quad (\<lambda>_. 1) (Fin 20) (Fin 2) = Fin (- (18.02 * (199999999998 / 200000000000)))"
proof -
  have p: "panel (\<lambda>_. 1) (x + real k * d) (x + real (k + 1) * d) = d * (199999999998 / 200000000000)" for x d k
    unfolding panel_const by (simp add: algebra_simps)
  have "gauss_quad (\<lambda>_. 1) (Fin (10 * 2)) (Fin 2)
    = Fin (- (panels (\<lambda>_. 1) 2 (2 / 200) 102 + panels (\<lambda>_. 1) (1.51 * 2) (0.85 * 2) 10))"
    by (rule gauss_quad_panels) (simp_all add: one_dbl_def)
  then show ?thesis unfolding panels_def p by simp
qed

end
