(* ===== verification/NBody_MixedDwarf.thy ===== *)
theory NBody_MixedDwarf
  imports NBody_Models NBody_Dwarf NBody_Numeric
begin

text \<open>
  The model of a dwarf galaxy of light and dark matter, \<open>nbody_mixeddwarf.c\<close>: radii by rejection from the
  density of each component, speeds by rejection from Eddington's distribution function, which is
  integrated numerically for each trial, and the shift of each component to its place on the orbit.
  Every loop but the choice of a direction has a counter. \<open>exit\<close> and \<open>mw_fail\<close> are \<open>None\<close>.
  The types of the components are tested once, at the start: for others than the three known ones the
  code goes on with bounds that were never set, up to the \<open>mw_fail\<close> of the first density.
\<close>

section \<open>Potential, density and the distribution function\<close>

definition potential :: "dbl Dwarf \<Rightarrow> dbl Dwarf \<Rightarrow> dbl \<Rightarrow> dbl" where
  "potential comp1 comp2 r = the (get_potential comp1 r) + the (get_potential comp2 r)"

definition density :: "dbl Dwarf \<Rightarrow> dbl Dwarf \<Rightarrow> dbl \<Rightarrow> dbl" where
  "density comp1 comp2 r = the (get_density comp1 r) + the (get_density comp2 r)"

text \<open>The integrand, \<open>fun\<close> in the code, for given potential and density.\<close>

definition eddington :: "(dbl \<Rightarrow> dbl) \<Rightarrow> (dbl \<Rightarrow> dbl) \<Rightarrow> dbl \<Rightarrow> dbl \<Rightarrow> dbl" where
  "eddington pt den energy ri =
     (let first_deriv_psi = first_derivative pt ri;
          first_deriv_density = first_derivative den ri;
          second_deriv_psi = second_derivative pt ri;
          second_deriv_density = second_derivative den ri;
          first_deriv_psi = (if feq first_deriv_psi 0 then 1 / 1000000 else first_deriv_psi);
          dsqden_dpsisq = second_deriv_density * dinv first_deriv_psi
                          - first_deriv_density * second_deriv_psi * dinv (sqr first_deriv_psi);
          diff = \<bar>energy - pt ri\<bar>;
          denominator = (if \<not> feq diff 0 then minushalf diff
                         else minushalf \<bar>energy - pt (ri + 1 / 10000)\<bar>)
      in dsqden_dpsisq * denominator)"

definition fun_integrand :: "dbl Dwarf \<Rightarrow> dbl Dwarf \<Rightarrow> dbl \<Rightarrow> dbl \<Rightarrow> dbl" where
  "fun_integrand comp1 comp2 energy = eddington (potential comp1 comp2) (density comp1 comp2) energy"

text \<open>The hundred retries repeat the same computation with the same outcome.\<close>

definition accepted :: "dbl \<Rightarrow> bool" where
  "accepted x \<longleftrightarrow> \<not> isinf x \<and> \<not> feq x 0 \<and> \<not> isnan x"

definition find_upperlimit_r :: "dbl Dwarf \<Rightarrow> dbl Dwarf \<Rightarrow> dbl \<Rightarrow> dbl \<Rightarrow> dbl \<Rightarrow> dbl" where
  "find_upperlimit_r comp1 comp2 energy search_range r =
     (let upperlimit_r = root_finder (potential comp1 comp2) energy 0 search_range
      in \<bar>if accepted upperlimit_r then upperlimit_r else r\<bar>)"

text \<open>The search range grows until the potential at its end is below the energy, 102 times at most.\<close>

fun widen :: "(dbl \<Rightarrow> dbl) \<Rightarrow> dbl \<Rightarrow> dbl \<Rightarrow> nat \<Rightarrow> dbl \<Rightarrow> dbl" where
  "widen pt energy dflt fuel search_range =
     (if pt search_range > energy
      then (case fuel of 0 \<Rightarrow> dflt | Suc fuel \<Rightarrow> widen pt energy dflt fuel (100 * search_range))
      else search_range)"

declare widen.simps [simp del]

definition dist_fun :: "dbl Dwarf \<Rightarrow> dbl Dwarf \<Rightarrow> dbl \<Rightarrow> dbl \<Rightarrow> dbl" where
  "dist_fun comp1 comp2 r v =
     (let mass_d = dw_mass comp2; rscale_l = dw_scaleLength comp1; rscale_d = dw_scaleLength comp2;
          cons = 3582244801567226 / 100000000000000000;
          energy = potential comp1 comp2 r - 1 / 2 * v * v;
          search_range = 20 * dsqrt \<bar>sqr (mass_d / energy) - sqr rscale_d\<bar>;
          search_range = widen (potential comp1 comp2) energy (100 * (rscale_l + rscale_d)) 101 search_range;
          upperlimit_r = find_upperlimit_r comp1 comp2 energy search_range r;
          lowerlimit_r = 10 * upperlimit_r
      in v * v * cons * gauss_quad (fun_integrand comp1 comp2 energy) lowerlimit_r upperlimit_r)"

section \<open>Sampling\<close>

text \<open>Rejection with a counter: 0 is returned after 1002 trials.\<close>

primrec trials :: "nat \<Rightarrow> (dsfmt_t \<Rightarrow> (dbl \<times> bool) \<times> dsfmt_t) \<Rightarrow> dsfmt_t \<Rightarrow> dbl \<times> dsfmt_t" where
  "trials 0 trial d = (let ((x, ok), d) = trial d in if ok then (x, d) else (0, d))"
| "trials (Suc n) trial d = (let ((x, ok), d) = trial d in if ok then (x, d) else trials n trial d)"

definition r_trial :: "(dbl \<Rightarrow> dbl) \<Rightarrow> dbl \<Rightarrow> dbl \<Rightarrow> dsfmt_t \<Rightarrow> (dbl \<times> bool) \<times> dsfmt_t" where
  "r_trial den rho_max bound d =
     (let (x, d) = mwXrandom d 0 1; r = Fin x * bound;
          (u, d) = mwXrandom d 0 1;
          val = r * r * den r
      in ((r, val / rho_max > Fin u), d))"

definition r_mag :: "dbl Dwarf \<Rightarrow> dbl \<Rightarrow> dbl \<Rightarrow> dsfmt_t \<Rightarrow> dbl \<times> dsfmt_t" where
  "r_mag cmp rho_max bound d = trials 1001 (r_trial (\<lambda>r. the (get_density cmp r)) rho_max bound) d"

definition v_trial :: "(dbl \<Rightarrow> dbl) \<Rightarrow> dbl \<Rightarrow> dbl \<Rightarrow> dsfmt_t \<Rightarrow> (dbl \<times> bool) \<times> dsfmt_t" where
  "v_trial dfun v_esc dist_max d =
     (let (x, d) = mwXrandom d 0 1; v = Fin x * v_esc;
          (u, d) = mwXrandom d 0 1
      in ((v, \<bar>dfun v / dist_max\<bar> > Fin u), d))"

definition vel_mag :: "dbl Dwarf \<Rightarrow> dbl Dwarf \<Rightarrow> dbl \<Rightarrow> dsfmt_t \<Rightarrow> dbl \<times> dsfmt_t" where
  "vel_mag comp1 comp2 r d =
     (let v_esc = 99 / 100 * dsqrt \<bar>2 * potential comp1 comp2 r\<bar>;
          dist_max = max_finder (dist_fun comp1 comp2 r) 0 (1 / 2 * v_esc) v_esc 10 (1 / 100)
      in trials 1001 (v_trial (dist_fun comp1 comp2 r) v_esc dist_max) d)"

text \<open>\<open>get_components\<close> has the body of \<open>pickShell\<close>.\<close>

definition get_components :: "dsfmt_t \<Rightarrow> real \<Rightarrow> (mwvector \<times> dsfmt_t) option" where
  "get_components = pickShell"

section \<open>The table of bodies\<close>

text \<open>The seven arrays of coordinates, velocities and masses are one list of rows.\<close>

type_synonym body_row = "mwvector \<times> mwvector \<times> real"

definition add_row :: "body_row list \<Rightarrow> nat \<Rightarrow> mwvector \<times> mwvector \<Rightarrow> mwvector \<times> mwvector" where
  "add_row rows i = (\<lambda>(cm, cmv). case rows ! i of (p, v, m) \<Rightarrow>
     (mw_addv cm (mw_mulvs p m), mw_addv cmv (mw_mulvs v m)))"

definition shift_row :: "mwvector \<Rightarrow> mwvector \<Rightarrow> mwvector \<Rightarrow> mwvector \<Rightarrow> nat \<Rightarrow> body_row list \<Rightarrow> body_row list" where
  "shift_row cm cmv rShift vShift i rows = (case rows ! i of (p, v, m) \<Rightarrow>
     rows[i := (mw_addv (mw_subv p cm) rShift, mw_addv (mw_subv v cmv) vShift, m)])"

definition cm_correction_by_comp :: "body_row list \<Rightarrow> mwvector \<Rightarrow> mwvector \<Rightarrow> real \<Rightarrow> nat \<Rightarrow> nat \<Rightarrow> body_row list" where
  "cm_correction_by_comp rows rShift vShift comp_mass compStart compEnd =
     (let (cm, cmv) = fold (add_row rows) [compStart..<compEnd] (ZERO_VECTOR, ZERO_VECTOR);
          cm = mw_divvs cm comp_mass;
          cmv = mw_divvs cmv comp_mass
      in fold (shift_row cm cmv rShift vShift) [compStart..<compEnd] rows)"

text \<open>
  \<open>vol_pcrit\<close> is the product its comment says; the literal is that product to 57 digits.
\<close>

definition pcrit :: real where
  "pcrit = 679087369829744220469326744094105320596648627735869652 / 10 ^ 57"

definition vol_pcrit :: real where
  "vol_pcrit = 200 * pcrit * (4 * pi / 3)"

fun dcbrt :: "dbl \<Rightarrow> dbl" where
  "dcbrt (Fin x) = Fin (NthRoot.root 3 x)"
| "dcbrt x = x"

definition set_p0 :: "dbl Dwarf \<Rightarrow> dbl Dwarf" where
  "set_p0 cmp =
     (let mass = dw_mass cmp; rscale = dw_scaleLength cmp;
          r200 = dcbrt (mass / Fin vol_pcrit);
          c = r200 / rscale;
          term = dlog (1 + c) - c / (1 + c);
          p0 = 200 * cube c * Fin pcrit / (3 * term)
      in cmp\<lparr>dw_r200 := r200, dw_p0 := p0\<rparr>)"

definition get_extra_nfw_mass :: "dbl Dwarf \<Rightarrow> dbl \<Rightarrow> dbl Dwarf" where
  "get_extra_nfw_mass cmp bound =
     (let rs = dw_scaleLength cmp; r = bound;
          m = 4 * Fin pi * dw_p0 cmp * cube rs * (dlog ((rs + r) / rs) - r / (rs + r))
      in cmp\<lparr>dw_mass := m\<rparr>)"

text \<open>The radius inside which a component is sampled; an NFW component takes the mass inside it.\<close>

definition sampling_bound :: "dbl \<Rightarrow> dbl \<Rightarrow> dbl Dwarf \<Rightarrow> dbl \<times> dbl Dwarf" where
  "sampling_bound rscale_l rscale_d cmp = (case dw_type cmp of
       NFW \<Rightarrow> let bound = 5 * dw_r200 cmp in (bound, get_extra_nfw_mass cmp bound)
     | _ \<Rightarrow> (50 * (rscale_l + rscale_d), cmp))"

text \<open>The maximum of \<open>r^2 rho\<close>, at the radius where calculus puts it.\<close>

definition peak_radius :: "dbl Dwarf \<Rightarrow> dbl" where
  "peak_radius cmp = (let rscale = dw_scaleLength cmp in case dw_type cmp of
       Plummer \<Rightarrow> dsqrt (2 / 3) * rscale
     | NFW \<Rightarrow> rscale
     | _ \<Rightarrow> rscale / 2)"

definition rho_max :: "dbl Dwarf \<Rightarrow> dbl" where
  "rho_max cmp = (let rm = peak_radius cmp in sqr rm * the (get_density cmp rm))"

text \<open>Drawing again when the outcome is not finite or is zero; the process ends after 1002 times.\<close>

primrec retry :: "nat \<Rightarrow> (dsfmt_t \<Rightarrow> dbl \<times> dsfmt_t) \<Rightarrow> dsfmt_t \<Rightarrow> (real \<times> dsfmt_t) option" where
  "retry 0 draw d = (let (x, d) = draw d in if accepted x then Some (dval x, d) else None)"
| "retry (Suc n) draw d = (let (x, d) = draw d in if accepted x then Some (dval x, d) else retry n draw d)"

definition mixed_row :: "dbl Dwarf \<Rightarrow> dbl Dwarf \<Rightarrow> dbl \<Rightarrow> dbl \<Rightarrow> nat \<Rightarrow> real \<Rightarrow> real \<Rightarrow> nat \<Rightarrow> dsfmt_t
    \<Rightarrow> (body_row \<times> dsfmt_t) option" where
  "mixed_row comp1 comp2 bound1 bound2 half_bodies mass_light mass_dark i d =
     do { (r, d) \<leftarrow> retry 1001 (if i < half_bodies then r_mag comp1 (rho_max comp1) bound1
                                else r_mag comp2 (rho_max comp2) bound2) d;
          (v, d) \<leftarrow> retry 1001 (vel_mag comp1 comp2 (Fin r)) d;
          (vel, d) \<leftarrow> get_components d v;
          (pos, d) \<leftarrow> get_components d r;
          Some ((pos, vel, if i < half_bodies then mass_light else mass_dark), d) }"

text \<open>
  Up to the two corrections: the rows, the generator and the two components as they are left. The
  components belong to the caller, and their fields \<open>p0\<close>, \<open>r200\<close> and for NFW \<open>mass\<close> stay changed.
\<close>

definition mixed_rows :: "dsfmt_t \<Rightarrow> nat \<Rightarrow> dbl Dwarf \<Rightarrow> dbl Dwarf \<Rightarrow> mwvector \<Rightarrow> mwvector
    \<Rightarrow> (body_row list \<times> dsfmt_t \<times> dbl Dwarf \<times> dbl Dwarf) option" where
  "mixed_rows prng nbods comp1 comp2 rShift vShift =
     (let rscale_l = dw_scaleLength comp1; rscale_d = dw_scaleLength comp2;
          (bound1, comp1) = sampling_bound rscale_l rscale_d (set_p0 comp1);
          (bound2, comp2) = sampling_bound rscale_l rscale_d (set_p0 comp2);
          mass_l = dval (dw_mass comp1); mass_d = dval (dw_mass comp2);
          half_bodies = nbods div 2;
          mass_light_particle = mass_l / (1 / 2 * real nbods);
          mass_dark_particle = mass_d / (1 / 2 * real nbods)
      in if known_type (dw_type comp1) \<and> known_type (dw_type comp2)
         then do { (rows, d) \<leftarrow> model_bodies (mixed_row comp1 comp2 bound1 bound2 half_bodies
                       mass_light_particle mass_dark_particle) [0..<nbods] prng;
                   let rows = cm_correction_by_comp rows rShift vShift mass_l 0 half_bodies;
                   let rows = cm_correction_by_comp rows rShift vShift mass_d half_bodies nbods;
                   Some (rows, d, comp1, comp2) }
         else None)"

definition body_of_row :: "nat \<Rightarrow> body_row list \<Rightarrow> nat \<Rightarrow> Body" where
  "body_of_row half_bodies rows i = (case rows ! i of (p, v, m) \<Rightarrow>
     \<lparr>b_pos = p, b_vel = v, b_mass = m, b_type = BODY (\<not> i < half_bodies), b_id = i + 1, b_next = None\<rparr>)"

definition nbGenerateMixedDwarfCore :: "dsfmt_t \<Rightarrow> nat \<Rightarrow> dbl Dwarf \<Rightarrow> dbl Dwarf \<Rightarrow> mwvector \<Rightarrow> mwvector
    \<Rightarrow> (Body list \<times> dsfmt_t \<times> dbl Dwarf \<times> dbl Dwarf) option" where
  "nbGenerateMixedDwarfCore prng nbods comp1 comp2 rShift vShift =
     do { (rows, d, comp1, comp2) \<leftarrow> mixed_rows prng nbods comp1 comp2 rShift vShift;
          Some (map (body_of_row (nbods div 2) rows) [0..<nbods], d, comp1, comp2) }"

text \<open>The copy for the unit tests leaves the columns of the table in arrays of the caller.\<close>

definition nbGenerateMixedDwarfCore_TESTVER :: "dsfmt_t \<Rightarrow> nat \<Rightarrow> dbl Dwarf \<Rightarrow> dbl Dwarf \<Rightarrow> mwvector \<Rightarrow> mwvector
    \<Rightarrow> (mwvector list \<times> mwvector list \<times> real list \<times> dsfmt_t \<times> dbl Dwarf \<times> dbl Dwarf) option" where
  "nbGenerateMixedDwarfCore_TESTVER prng nbods comp1 comp2 rShift vShift =
     do { (rows, d, comp1, comp2) \<leftarrow> mixed_rows prng nbods comp1 comp2 rShift vShift;
          Some (map (\<lambda>i. fst (rows ! i)) [0..<nbods], map (\<lambda>i. fst (snd (rows ! i))) [0..<nbods],
                map (\<lambda>i. snd (snd (rows ! i))) [0..<nbods], d, comp1, comp2) }"

end
