(* ===== verification/NBody_MixedProps.thy ===== *)
theory NBody_MixedProps
  imports NBody_MixedDwarf NBody_ModelProps NBody_NumericProps
begin

text \<open>
  What holds of the two-component dwarf: the rejection of radii has its envelope above the curve, the
  density scale of an NFW component fits its mass, and the corrections put each component on its place.
\<close>

section \<open>The envelope of the radii\<close>

lemma weighted_am_gm:
  fixes p q :: real
  assumes "0 < p" "0 < q" "p + q = 1"
  shows "p\<^sup>2 * q ^ 3 \<le> (2 / 5)\<^sup>2 * (3 / 5) ^ 3"
proof -
  have "ln (p * (5 / 2)) \<le> p * (5 / 2) - 1" "ln (q * (5 / 3)) \<le> q * (5 / 3) - 1"
    using assms by (intro ln_le_minus_one, simp)+
  then have "2 * ln (p * (5 / 2)) + 3 * ln (q * (5 / 3)) \<le> 2 * (p * (5 / 2) - 1) + 3 * (q * (5 / 3) - 1)"
    by (intro add_mono mult_left_mono) simp_all
  also have "\<dots> = 0" using assms(3) by (simp add: algebra_simps)
  finally have "ln ((p * (5 / 2))\<^sup>2 * (q * (5 / 3)) ^ 3) \<le> 0"
    using assms by (simp add: ln_mult ln_realpow)
  then have "(p * (5 / 2))\<^sup>2 * (q * (5 / 3)) ^ 3 \<le> 1" using assms by (simp add: ln_le_zero_iff)
  then show ?thesis by (simp add: power_mult_distrib power_divide)
qed

lemma plummer_peak:
  fixes r a :: real
  assumes "0 < r" "0 < a"
  shows "r\<^sup>2 / ((r\<^sup>2 + a\<^sup>2)\<^sup>2 * sqrt (r\<^sup>2 + a\<^sup>2))
    \<le> (2 / 3 * a\<^sup>2) / ((2 / 3 * a\<^sup>2 + a\<^sup>2)\<^sup>2 * sqrt (2 / 3 * a\<^sup>2 + a\<^sup>2))"
proof -
  define f where "f = (\<lambda>y. y / ((y + a\<^sup>2)\<^sup>2 * sqrt (y + a\<^sup>2)))"
  have sq: "(f y)\<^sup>2 = (y / (y + a\<^sup>2))\<^sup>2 * (a\<^sup>2 / (y + a\<^sup>2)) ^ 3 / (a\<^sup>2) ^ 3" if "0 < y" for y
  proof -
    have p: "0 < y + a\<^sup>2" using that by (simp add: add_pos_nonneg)
    have "(f y)\<^sup>2 = y\<^sup>2 / ((S\<^sup>2)\<^sup>2 * S)" if "S = y + a\<^sup>2" for S
      using p that by (simp add: f_def power_divide power_mult_distrib)
    from this[OF refl] show ?thesis
      using p assms(2) by (simp add: power_divide power2_eq_square power3_eq_cube)
  qed
  have pos: "0 < a\<^sup>2" "0 < r\<^sup>2" using assms by simp_all
  have rp: "0 < r\<^sup>2 + a\<^sup>2" by (rule add_pos_pos[OF pos(2,1)])
  have "(r\<^sup>2 / (r\<^sup>2 + a\<^sup>2))\<^sup>2 * (a\<^sup>2 / (r\<^sup>2 + a\<^sup>2)) ^ 3 \<le> (2 / 5)\<^sup>2 * (3 / 5) ^ 3"
    using pos rp by (intro weighted_am_gm) (simp_all add: add_divide_distrib[symmetric])
  moreover have "(2 / 3 * a\<^sup>2) / (2 / 3 * a\<^sup>2 + a\<^sup>2) = 2 / 5" "a\<^sup>2 / (2 / 3 * a\<^sup>2 + a\<^sup>2) = 3 / 5"
    using pos by (simp_all add: field_simps)
  ultimately have "(f (r\<^sup>2))\<^sup>2 \<le> (f (2 / 3 * a\<^sup>2))\<^sup>2"
    using sq[of "r\<^sup>2"] sq[of "2 / 3 * a\<^sup>2"] pos by (simp add: divide_right_mono)
  moreover have "0 \<le> f (2 / 3 * a\<^sup>2)" using pos by (simp add: f_def)
  ultimately have "f (r\<^sup>2) \<le> f (2 / 3 * a\<^sup>2)" by (rule power2_le_imp_le)
  then show ?thesis by (simp add: f_def)
qed

lemma hernquist_peak:
  fixes r a :: real
  assumes "0 < r" "0 < a"
  shows "r / (r + a) ^ 3 \<le> (a / 2) / (a / 2 + a) ^ 3"
proof -
  have "0 \<le> (r - a / 2)\<^sup>2 * (4 * r + 16 * a)" using assms by simp
  also have "\<dots> = 4 * (r + a) ^ 3 - 27 * r * a\<^sup>2"
    by (simp add: power2_eq_square power3_eq_cube algebra_simps)
  finally have "27 * r * a\<^sup>2 \<le> 4 * (r + a) ^ 3" by simp
  then have "r / (r + a) ^ 3 \<le> 4 / (27 * a\<^sup>2)" using assms by (simp add: field_simps)
  also have "4 / (27 * a\<^sup>2) = (a / 2) / (a / 2 + a) ^ 3"
    using assms by (simp add: field_simps power2_eq_square power3_eq_cube)
  finally show ?thesis .
qed

lemma nfw_peak:
  fixes r a :: real
  assumes "0 < r" "0 < a"
  shows "r / (r + a)\<^sup>2 \<le> a / (a + a)\<^sup>2"
proof -
  have "0 \<le> (r - a)\<^sup>2" by simp
  then have "4 * (r * a) \<le> (r + a)\<^sup>2" by (simp add: power2_eq_square algebra_simps)
  then have "r / (r + a)\<^sup>2 \<le> 1 / (4 * a)" using assms by (simp add: field_simps)
  also have "1 / (4 * a) = a / (a + a)\<^sup>2" using assms by (simp add: power2_eq_square)
  finally show ?thesis .
qed

lemma rho_peak:
  assumes "known_type t" "0 < a" "0 \<le> m" "0 \<le> p0" "0 < r"
  defines "r0 \<equiv> (case t of Plummer \<Rightarrow> sqrt (2 / 3) * a | NFW \<Rightarrow> a | _ \<Rightarrow> a / 2)"
  shows "0 < r0" "r * r * rho t m a p0 r \<le> r0 * r0 * rho t m a p0 r0"
proof -
  show "0 < r0" using assms by (auto simp: r0_def known_type_def)
  show "r * r * rho t m a p0 r \<le> r0 * r0 * rho t m a p0 r0"
    using assms(1)
  proof (cases rule: known_typeE)
    case 1
    have e: "x * x * rho Plummer m a p0 x = (3 * m * a\<^sup>2 / (4 * pi)) * (x\<^sup>2 / ((x\<^sup>2 + a\<^sup>2)\<^sup>2 * sqrt (x\<^sup>2 + a\<^sup>2)))" for x
      by (simp add: power2_eq_square)
    have r0: "r0\<^sup>2 = 2 / 3 * a\<^sup>2" by (simp add: 1 r0_def power_mult_distrib)
    show ?thesis unfolding 1 e r0 using plummer_peak[OF assms(5,2)] assms by (intro mult_left_mono) simp_all
  next
    case 2
    have e: "x * x * rho NFW m a p0 x = p0 * a ^ 3 * (x / (x + a)\<^sup>2)" if "0 < x" for x
      using that by simp
    show ?thesis unfolding 2 e[OF assms(5)] e[OF \<open>0 < r0\<close>]
      using nfw_peak[OF assms(5,2)] assms 2 by (intro mult_left_mono) (simp_all add: r0_def)
  next
    case 3
    have e: "x * x * rho General_Hernquist m a p0 x = m * a / (2 * pi) * (x / (x + a) ^ 3)" if "0 < x" for x
      using that by (simp add: ac_simps)
    show ?thesis unfolding 3 e[OF assms(5)] e[OF \<open>0 < r0\<close>]
      using hernquist_peak[OF assms(5,2)] assms 3 by (intro mult_left_mono) (simp_all add: r0_def)
  qed
qed

text \<open>C38: the rejection sampling of radii is sound. For every profile the constant \<open>rho_max\<close> that
  \<open>r_mag\<close> divides by is the maximum of \<open>r^2 rho(r)\<close>: no radius would have to be accepted with a
  probability above 1, and at the radius the code takes the probability is 1.\<close>

theorem rejection_envelope:
  assumes "known_type t" "0 < a" "0 \<le> m" "0 \<le> p0" "0 < r"
  shows "\<exists>d M r0. get_density (dwarf_of t m a p0) (Fin r) = Some (Fin d) \<and> rho_max (dwarf_of t m a p0) = Fin M
    \<and> r * r * d \<le> M \<and> peak_radius (dwarf_of t m a p0) = Fin r0 \<and> 0 < r0
    \<and> get_density (dwarf_of t m a p0) (Fin r0) = Some (Fin (M / (r0 * r0)))"
proof -
  define r0 where "r0 = (case t of Plummer \<Rightarrow> sqrt (2 / 3) * a | NFW \<Rightarrow> a | _ \<Rightarrow> a / 2)"
  note peak = rho_peak[OF assms, folded r0_def]
  have pr: "peak_radius (dwarf_of t m a p0) = Fin r0"
    using assms(1) by (cases rule: known_typeE) (simp_all add: peak_radius_def dwarf_of_def r0_def dbl_consts)
  note den = get_density_rho[OF assms(1,2)]
  have "rho_max (dwarf_of t m a p0) = Fin (r0 * r0 * rho t m a p0 r0)"
    by (simp add: rho_max_def pr den[OF peak(1)])
  then show ?thesis using pr peak den[OF assms(5), of m p0] den[OF peak(1), of m p0] by auto
qed

theorem rejection_envelope_witness:
  "\<exists>d M. get_density (dwarf_of Plummer 12 2 0) (Fin 5) = Some (Fin d) \<and> rho_max (dwarf_of Plummer 12 2 0) = Fin M
    \<and> 5 * 5 * d \<le> M"
  using rejection_envelope[of Plummer 2 12 0 5] by (auto simp: known_type_def)

section \<open>The mass of an NFW component\<close>

definition nfw_h :: "real \<Rightarrow> real" where
  "nfw_h c = ln (1 + c) - c / (1 + c)"

lemma nfw_h_pos: "0 < c \<Longrightarrow> 0 < nfw_h c"
proof -
  assume c: "0 < c"
  have "ln (1 / (1 + c)) \<le> 1 / (1 + c) - 1" "ln (1 / (1 + c)) \<noteq> 1 / (1 + c) - 1"
    using c ln_eq_minus_one[of "1 / (1 + c)"] by (auto intro!: ln_le_minus_one)
  moreover have "1 / (1 + c) - 1 = - (c / (1 + c))" using c by (simp add: field_simps)
  ultimately show ?thesis using c by (simp add: nfw_h_def ln_div)
qed

lemma nfw_h_less: "0 < c \<Longrightarrow> nfw_h c < nfw_h (5 * c)"
proof -
  assume c: "0 < c"
  have "ln ((1 + c) / (1 + 5 * c)) \<le> (1 + c) / (1 + 5 * c) - 1" using c by (intro ln_le_minus_one) simp
  moreover have "(1 + c) / (1 + 5 * c) - 1 = - (4 * c / (1 + 5 * c))" using c by (simp add: field_simps)
  moreover have "5 * c / (1 + 5 * c) - c / (1 + c) = 4 * c / (1 + 5 * c) / (1 + c)" using c by (simp add: field_simps)
  moreover have "x / (1 + c) < x" if "0 < x" for x using c that by (simp add: divide_less_eq)
  from this[of "4 * c / (1 + 5 * c)"] have "4 * c / (1 + 5 * c) / (1 + c) < 4 * c / (1 + 5 * c)" using c by simp
  ultimately show ?thesis using c by (simp add: nfw_h_def ln_div)
qed

lemma set_p0_real:
  assumes "0 < m" "0 < a"
  obtains R p where "0 < R" "vol_pcrit * R ^ 3 = m"
    "set_p0 (dwarf_of t m a q) = (dwarf_of t m a q)\<lparr>dw_r200 := Fin R, dw_p0 := Fin p\<rparr>"
    "4 * pi * p * a ^ 3 * nfw_h (R / a) = m"
proof -
  have v: "0 < vol_pcrit" "0 < pcrit" by (simp_all add: vol_pcrit_def pcrit_def)
  define R where "R = NthRoot.root 3 (m / vol_pcrit)"
  have R: "0 < R" "R ^ 3 = m / vol_pcrit" using assms v by (simp_all add: R_def)
  define p where "p = 200 * (R / a) ^ 3 * pcrit / (3 * nfw_h (R / a))"
  have h: "0 < nfw_h (R / a)" using R assms by (intro nfw_h_pos) simp
  have c: "0 < 1 + R / a" using R assms by (simp add: add_pos_pos)
  have "set_p0 (dwarf_of t m a q) = (dwarf_of t m a q)\<lparr>dw_r200 := Fin R, dw_p0 := Fin p\<rparr>"
  proof -
    define C where "C = R / a"
    have C: "0 < C" "0 < nfw_h C" using R assms h by (simp_all add: C_def)
    have "dcbrt (Fin m / Fin vol_pcrit) = Fin R" "Fin R / Fin a = Fin C" using v assms by (simp_all add: R_def C_def)
    moreover have "dlog (1 + Fin C) - Fin C / (1 + Fin C) = Fin (nfw_h C)"
      using C(1) by (simp add: dbl_consts dlog_ln nfw_h_def)
    moreover have "200 * cube (Fin C) * Fin pcrit / (3 * Fin (nfw_h C)) = Fin p"
      using C(2) by (simp add: dbl_consts p_def C_def[symmetric] power3_eq_cube)
    ultimately show ?thesis by (simp add: set_p0_def dwarf_of_def Let_def)
  qed
  moreover have "4 * pi * p * a ^ 3 * nfw_h (R / a) = m"
  proof -
    have "4 * pi * p * a ^ 3 * nfw_h (R / a) = 200 * pcrit * (4 * pi / 3) * R ^ 3"
      using h assms by (simp add: p_def power_divide)
    also have "\<dots> = vol_pcrit * R ^ 3" by (simp only: vol_pcrit_def)
    also have "\<dots> = m" using v R(2) by simp
    finally show ?thesis .
  qed
  ultimately show ?thesis using that R v by simp
qed

lemma extra_mass_real:
  assumes "0 < a" "0 \<le> r"
  shows "get_extra_nfw_mass ((dwarf_of t m a q)\<lparr>dw_r200 := R, dw_p0 := Fin p\<rparr>) (Fin r)
    = (dwarf_of t m a q)\<lparr>dw_r200 := R, dw_p0 := Fin p, dw_mass := Fin (4 * pi * p * a ^ 3 * nfw_h (r / a))\<rparr>"
proof -
  have e: "(a + r) / a = 1 + r / a" "r / (a + r) = (r / a) / (1 + r / a)" "0 < a + r" "0 < 1 + r / a"
    using assms by (simp_all add: field_simps add_pos_nonneg)
  then show ?thesis
    using assms by (simp add: get_extra_nfw_mass_def dwarf_of_def Let_def dbl_consts dlog_ln nfw_h_def power3_eq_cube)
qed

text \<open>The mass of an NFW component. \<open>set_p0\<close> takes the mass as the one inside \<open>r200\<close>, the radius
  inside which the mean density is 200 times critical: with the scale density it stores, the enclosed
  mass at \<open>r200\<close> is the mass it was given. The generator samples out to \<open>5 r200\<close> and overwrites the mass
  of the caller's component with the larger one inside that radius.\<close>

theorem nfw_mass_of_bound:
  assumes "0 < m" "0 < a"
  shows "\<exists>R m'. 0 < R \<and> vol_pcrit * R ^ 3 = m \<and> dw_r200 (set_p0 (dwarf_of NFW m a q)) = Fin R
    \<and> dw_mass (get_extra_nfw_mass (set_p0 (dwarf_of NFW m a q)) (Fin R)) = Fin m
    \<and> sampling_bound l d (set_p0 (dwarf_of NFW m a q)) = (Fin (5 * R), (set_p0 (dwarf_of NFW m a q))\<lparr>dw_mass := Fin m'\<rparr>)
    \<and> m < m' \<and> m' * (ln (1 + R / a) - (R / a) / (1 + R / a))
       = m * (ln (1 + 5 * R / a) - (5 * R / a) / (1 + 5 * R / a))"
proof -
  obtain R p where R: "0 < R" "vol_pcrit * R ^ 3 = m"
    and s: "set_p0 (dwarf_of NFW m a q) = (dwarf_of NFW m a q)\<lparr>dw_r200 := Fin R, dw_p0 := Fin p\<rparr>"
    and p: "4 * pi * p * a ^ 3 * nfw_h (R / a) = m"
    using set_p0_real[OF assms] .
  define m' where "m' = 4 * pi * p * a ^ 3 * nfw_h (5 * R / a)"
  have h: "0 < nfw_h (R / a)" "nfw_h (R / a) < nfw_h (5 * R / a)"
    using nfw_h_pos[of "R / a"] nfw_h_less[of "R / a"] R assms by simp_all
  have "0 < (4 * pi * p * a ^ 3) * nfw_h (R / a)" using p assms by simp
  then have "0 < 4 * pi * p * a ^ 3" using h(1) by (simp only: zero_less_mult_pos2)
  then have "m < m'" unfolding m'_def p[symmetric] using h(2) by (intro mult_strict_left_mono) simp_all
  moreover have "m' * nfw_h (R / a) = m * nfw_h (5 * R / a)" unfolding p[symmetric] m'_def by simp
  moreover have "sampling_bound l d (set_p0 (dwarf_of NFW m a q))
      = (Fin (5 * R), (set_p0 (dwarf_of NFW m a q))\<lparr>dw_mass := Fin m'\<rparr>)"
    unfolding s using extra_mass_real[where r = "5 * R" and a = a] R assms
    by (simp add: sampling_bound_def m'_def dwarf_of_def dbl_consts Let_def)
  moreover have "dw_mass (get_extra_nfw_mass (set_p0 (dwarf_of NFW m a q)) (Fin R)) = Fin m"
    unfolding s using extra_mass_real[where r = R and a = a] R assms p by simp
  ultimately show ?thesis using R s unfolding nfw_h_def by (intro exI[of _ R] exI[of _ m']) simp
qed

theorem nfw_mass_of_bound_witness:
  "\<exists>m'. dw_mass (snd (sampling_bound 1 1 (set_p0 (dwarf_of NFW 12 2 0)))) = Fin m' \<and> 12 < m'"
  using nfw_mass_of_bound[of 12 2 0 1 1] by auto

section \<open>The place of a component\<close>

definition row_mass :: "body_row \<Rightarrow> real" where
  "row_mass b = snd (snd b)"

lemma fold_list_update_nth:
  assumes "distinct js" "\<forall>i \<in> set js. i < length xs"
  shows "length (fold (\<lambda>i xs. xs[i := f (xs ! i)]) js xs) = length xs"
    "j < length xs \<Longrightarrow> fold (\<lambda>i xs. xs[i := f (xs ! i)]) js xs ! j = (if j \<in> set js then f (xs ! j) else xs ! j)"
  using assms by (induction js arbitrary: xs) (auto simp: nth_list_update)

lemma fold_add_row:
  "fold (add_row rows) js (cm, cmv) =
    (mw_addv cm (mw_vec (\<Sum>i\<leftarrow>js. row_mass (rows ! i) * X (fst (rows ! i)))
                        (\<Sum>i\<leftarrow>js. row_mass (rows ! i) * Y (fst (rows ! i)))
                        (\<Sum>i\<leftarrow>js. row_mass (rows ! i) * Z (fst (rows ! i)))),
     mw_addv cmv (mw_vec (\<Sum>i\<leftarrow>js. row_mass (rows ! i) * X (fst (snd (rows ! i))))
                         (\<Sum>i\<leftarrow>js. row_mass (rows ! i) * Y (fst (snd (rows ! i))))
                         (\<Sum>i\<leftarrow>js. row_mass (rows ! i) * Z (fst (snd (rows ! i))))))"
  by (induction js arbitrary: cm cmv) (auto simp: add_row_def row_mass_def mw_vec_def vec_defs split: prod.splits)

lemma cm_correction_nth:
  fixes s e :: nat and M :: real
  assumes "e \<le> length rows"
  defines "cm \<equiv> mw_divvs (fst (fold (add_row rows) [s..<e] (ZERO_VECTOR, ZERO_VECTOR))) M"
    and "cmv \<equiv> mw_divvs (snd (fold (add_row rows) [s..<e] (ZERO_VECTOR, ZERO_VECTOR))) M"
  shows "length (cm_correction_by_comp rows R V M s e) = length rows"
    "j < length rows \<Longrightarrow> cm_correction_by_comp rows R V M s e ! j =
      (if s \<le> j \<and> j < e then (mw_addv (mw_subv (fst (rows ! j)) cm) R,
         mw_addv (mw_subv (fst (snd (rows ! j))) cmv) V, row_mass (rows ! j)) else rows ! j)"
proof -
  let ?f = "\<lambda>(p, v, m). (mw_addv (mw_subv p cm) R, mw_addv (mw_subv v cmv) V, m)"
  have "shift_row cm cmv R V = (\<lambda>i xs. xs[i := ?f (xs ! i)])"
    by (auto simp: shift_row_def fun_eq_iff split: prod.splits)
  then have "cm_correction_by_comp rows R V M s e = fold (\<lambda>i xs. xs[i := ?f (xs ! i)]) [s..<e] rows"
    by (simp add: cm_correction_by_comp_def cm_def cmv_def split_beta)
  moreover have d: "distinct [s..<e]" "\<forall>i \<in> set [s..<e]. i < length rows" using assms(1) by auto
  note fold_list_update_nth[OF d, where f = ?f]
  ultimately show "length (cm_correction_by_comp rows R V M s e) = length rows"
    "j < length rows \<Longrightarrow> cm_correction_by_comp rows R V M s e ! j =
      (if s \<le> j \<and> j < e then (mw_addv (mw_subv (fst (rows ! j)) cm) R,
         mw_addv (mw_subv (fst (snd (rows ! j))) cmv) V, row_mass (rows ! j)) else rows ! j)"
    by (simp_all add: split_beta row_mass_def)
qed

text \<open>The mean of a coordinate after the correction, for each of the six.\<close>

lemma moment_shift:
  fixes m q q' :: "nat \<Rightarrow> real"
  assumes "\<And>i. i \<in> I \<Longrightarrow> q' i = q i - (\<Sum>i\<in>I. m i * q i) / M + c" "M = sum m I" "M \<noteq> 0"
  shows "(\<Sum>i\<in>I. m i * q' i) = M * c"
proof -
  let ?A = "\<Sum>i\<in>I. m i * q i"
  have "(\<Sum>i\<in>I. m i * q' i) = (\<Sum>i\<in>I. m i * q i + m i * (c - ?A / M))"
  proof (intro sum.cong refl)
    fix i assume "i \<in> I"
    show "m i * q' i = m i * q i + m i * (c - ?A / M)"
      unfolding assms(1)[OF \<open>i \<in> I\<close>] by (simp add: ring_distribs)
  qed
  also have "\<dots> = ?A + M * (c - ?A / M)" by (simp add: sum.distrib sum_distrib_right[symmetric] assms(2))
  finally show ?thesis using assms(3) by (simp add: algebra_simps)
qed

lemma sum_list_upt: "(\<Sum>i\<leftarrow>[s..<e]. f i) = (\<Sum>i\<in>{s..<e}. f i)"
  by (simp add: sum_list_distinct_conv_sum_set)

text \<open>The correction touches the rows of the component only and no mass, moves the component rigidly, and puts
  its centre of mass on \<open>rShift\<close> and its mean velocity on \<open>vShift\<close> when \<open>comp_mass\<close> is its mass.\<close>

lemma cm_correction_rows:
  fixes rows :: "body_row list" and R V :: mwvector and s e :: nat
  assumes e: "e \<le> length rows" and M: "(\<Sum>i\<in>{s..<e}. snd (snd (rows ! i))) = M" "M \<noteq> 0"
  defines "rows' \<equiv> cm_correction_by_comp rows R V M s e"
  defines "mass \<equiv> \<lambda>i. snd (snd (rows' ! i))" and "pos \<equiv> \<lambda>i. fst (rows' ! i)" and "vel \<equiv> \<lambda>i. fst (snd (rows' ! i))"
  shows "length rows' = length rows \<and> map (\<lambda>(p, v, m). m) rows' = map (\<lambda>(p, v, m). m) rows
    \<and> (\<forall>j < length rows. s \<le> j \<and> j < e \<or> rows' ! j = rows ! j)
    \<and> (\<forall>i\<in>{s..<e}. \<forall>j\<in>{s..<e}. mw_subv (pos i) (pos j) = mw_subv (fst (rows ! i)) (fst (rows ! j))
         \<and> mw_subv (vel i) (vel j) = mw_subv (fst (snd (rows ! i))) (fst (snd (rows ! j))))
    \<and> (\<Sum>i\<in>{s..<e}. mass i) = M
    \<and> (\<Sum>i\<in>{s..<e}. mass i * X (pos i)) = M * X R \<and> (\<Sum>i\<in>{s..<e}. mass i * Y (pos i)) = M * Y R
    \<and> (\<Sum>i\<in>{s..<e}. mass i * Z (pos i)) = M * Z R \<and> (\<Sum>i\<in>{s..<e}. mass i * X (vel i)) = M * X V
    \<and> (\<Sum>i\<in>{s..<e}. mass i * Y (vel i)) = M * Y V \<and> (\<Sum>i\<in>{s..<e}. mass i * Z (vel i)) = M * Z V"
proof -
  note nth = cm_correction_nth(2)[OF e, of _ R V M s, folded rows'_def]
  have len: "length rows' = length rows" unfolding rows'_def by (rule cm_correction_nth(1)[OF e])
  define cm where "cm = mw_divvs (fst (fold (add_row rows) [s..<e] (ZERO_VECTOR, ZERO_VECTOR))) M"
  define cmv where "cmv = mw_divvs (snd (fold (add_row rows) [s..<e] (ZERO_VECTOR, ZERO_VECTOR))) M"
  note nth = nth[folded cm_def cmv_def]
  let ?I = "{s..<e}"
  let ?m = "\<lambda>i. row_mass (rows ! i)"
  have inside: "pos i = mw_addv (mw_subv (fst (rows ! i)) cm) R" "vel i = mw_addv (mw_subv (fst (snd (rows ! i))) cmv) V"
    "mass i = ?m i" if "i \<in> ?I" for i
    using nth[of i] that e by (simp_all add: pos_def vel_def mass_def)
  have masses: "map (\<lambda>(p, v, m). m) rows' = map (\<lambda>(p, v, m). m) rows"
    using len nth by (auto intro!: nth_equalityI simp: split_beta row_mass_def)
  have cms: "cm = mw_vec ((\<Sum>i\<in>?I. ?m i * X (fst (rows ! i))) / M) ((\<Sum>i\<in>?I. ?m i * Y (fst (rows ! i))) / M)
      ((\<Sum>i\<in>?I. ?m i * Z (fst (rows ! i))) / M)"
    "cmv = mw_vec ((\<Sum>i\<in>?I. ?m i * X (fst (snd (rows ! i)))) / M) ((\<Sum>i\<in>?I. ?m i * Y (fst (snd (rows ! i)))) / M)
      ((\<Sum>i\<in>?I. ?m i * Z (fst (snd (rows ! i)))) / M)"
    by (simp_all add: cm_def cmv_def fold_add_row sum_list_upt mw_vec_def vec_defs)
  have tot: "M = sum ?m ?I" using M(1) by (simp add: row_mass_def)
  have moment: "(\<Sum>i\<in>?I. mass i * q' i) = M * c"
    if "\<And>i. i \<in> ?I \<Longrightarrow> q' i = q i - (\<Sum>i\<in>?I. ?m i * q i) / M + c" for q q' c
  proof -
    have "(\<Sum>i\<in>?I. mass i * q' i) = (\<Sum>i\<in>?I. ?m i * q' i)" by (intro sum.cong) (simp_all add: inside)
    then show ?thesis using moment_shift[OF that tot M(2)] by simp
  qed
  have co: "X (mw_addv (mw_subv p b) c) = X p - X b + X c" "Y (mw_addv (mw_subv p b) c) = Y p - Y b + Y c"
    "Z (mw_addv (mw_subv p b) c) = Z p - Z b + Z c" for p b c
    by (simp_all add: vec_defs)
  have rigid: "mw_subv (mw_addv (mw_subv p b) c) (mw_addv (mw_subv p' b) c) = mw_subv p p'" for p p' b c
    by (simp add: vec_defs)
  have mom: "(\<Sum>i\<in>?I. mass i * X (pos i)) = M * X R" "(\<Sum>i\<in>?I. mass i * Y (pos i)) = M * Y R"
    "(\<Sum>i\<in>?I. mass i * Z (pos i)) = M * Z R" "(\<Sum>i\<in>?I. mass i * X (vel i)) = M * X V"
    "(\<Sum>i\<in>?I. mass i * Y (vel i)) = M * Y V" "(\<Sum>i\<in>?I. mass i * Z (vel i)) = M * Z V"
    by (rule moment, simp add: inside co cms mw_vec_def)+
  have "(\<Sum>i\<in>?I. mass i) = M" using tot by (simp add: inside)
  then show ?thesis using len masses nth mom rigid by (simp add: inside)
qed

section \<open>The whole galaxy\<close>

lemma mixed_rows_masses:
  assumes "mixed_rows prng n c1 c2 R V = Some (rows, d, c1', c2')"
  defines "ml \<equiv> dval (dw_mass c1') / (1 / 2 * real n)" and "md \<equiv> dval (dw_mass c2') / (1 / 2 * real n)"
  shows "\<exists>rows0. length rows0 = n \<and> (\<forall>i < n. snd (snd (rows0 ! i)) = (if i < n div 2 then ml else md))
    \<and> rows = cm_correction_by_comp (cm_correction_by_comp rows0 R V (dval (dw_mass c1')) 0 (n div 2))
                R V (dval (dw_mass c2')) (n div 2) n"
proof -
  obtain b1 b2 rows0 where mb: "model_bodies (mixed_row c1' c2' b1 b2 (n div 2) ml md) [0..<n] prng = Some (rows0, d)"
    and rows: "rows = cm_correction_by_comp (cm_correction_by_comp rows0 R V (dval (dw_mass c1')) 0 (n div 2))
                R V (dval (dw_mass c2')) (n div 2) n"
    using assms(1) unfolding ml_def md_def mixed_rows_def Let_def
    by (auto simp: split_beta split: prod.splits if_splits elim!: bind_Some_prodE)
  let ?P = "\<lambda>i (b :: body_row). snd (snd b) = (if i < n div 2 then ml else md)"
  have "?P i b \<and> True" if "mixed_row c1' c2' b1 b2 (n div 2) ml md i s = Some (b, s')" for i s b s'
    using that by (auto simp: mixed_row_def elim!: bind_Some_prodE)
  then have "list_all2 ?P [0..<n] rows0 \<and> True"
    using model_bodies_all[of "\<lambda>_. True" _ ?P, OF _ mb] by blast
  then show ?thesis using rows by (intro exI[of _ rows0]) (auto simp: list_all2_conv_all_nth)
qed

text \<open>The bodies with indices in \<open>I\<close> have mass \<open>M\<close>, their centre at \<open>R\<close> and the mean velocity \<open>V\<close>.\<close>

definition placed :: "Body list \<Rightarrow> nat set \<Rightarrow> real \<Rightarrow> mwvector \<Rightarrow> mwvector \<Rightarrow> bool" where
  "placed bs I M R V \<longleftrightarrow> (\<Sum>i\<in>I. b_mass (bs ! i)) = M
     \<and> (\<Sum>i\<in>I. b_mass (bs ! i) * X (b_pos (bs ! i))) = M * X R
     \<and> (\<Sum>i\<in>I. b_mass (bs ! i) * Y (b_pos (bs ! i))) = M * Y R
     \<and> (\<Sum>i\<in>I. b_mass (bs ! i) * Z (b_pos (bs ! i))) = M * Z R
     \<and> (\<Sum>i\<in>I. b_mass (bs ! i) * X (b_vel (bs ! i))) = M * X V
     \<and> (\<Sum>i\<in>I. b_mass (bs ! i) * Y (b_vel (bs ! i))) = M * Y V
     \<and> (\<Sum>i\<in>I. b_mass (bs ! i) * Z (b_vel (bs ! i))) = M * Z V"

lemma placed_rows:
  assumes "\<And>i. i \<in> {s..<e} \<Longrightarrow> bs ! i = body_of_row h rows i \<and> rows ! i = cm_correction_by_comp rows0 R V M s e ! i"
    and "e \<le> length rows0" "(\<Sum>i\<in>{s..<e}. snd (snd (rows0 ! i))) = M" "M \<noteq> 0"
  shows "placed bs {s..<e} M R V"
proof -
  have b: "b_mass (bs ! i) = snd (snd (cm_correction_by_comp rows0 R V M s e ! i))"
    "b_pos (bs ! i) = fst (cm_correction_by_comp rows0 R V M s e ! i)"
    "b_vel (bs ! i) = fst (snd (cm_correction_by_comp rows0 R V M s e ! i))" if "i \<in> {s..<e}" for i
    using assms(1)[OF that] by (simp_all add: body_of_row_def split: prod.splits)
  show ?thesis
    unfolding placed_def using cm_correction_rows[OF assms(2-4), of R V] by (simp add: b)
qed

text \<open>C37: the end of the generator of a galaxy of two components, after the bodies have been drawn. However
  the rows were drawn, with half of the bodies light and half dark and the mass of each component shared out
  evenly: after the corrections of both components each of them has its mass, its centre of mass on the
  place and its mean velocity on the velocity that the caller asked for; within a component the corrections
  change no distance vector and no relative velocity. The bodies made of the rows are light in the first half
  and dark in the second, numbered from 1.\<close>

theorem mixed_components_placed:
  fixes R V :: mwvector
  assumes "length rows = 2 * k" "0 < k" "M1 \<noteq> 0" "M2 \<noteq> 0"
    and "\<forall>i < k. row_mass (rows ! i) = M1 / real k" "\<forall>i \<in> {k..<2 * k}. row_mass (rows ! i) = M2 / real k"
  defines "rows' \<equiv> cm_correction_by_comp (cm_correction_by_comp rows R V M1 0 k) R V M2 k (2 * k)"
  defines "bs \<equiv> map (body_of_row k rows') [0..<2 * k]"
  shows "placed bs {0..<k} M1 R V \<and> placed bs {k..<2 * k} M2 R V
    \<and> (\<forall>i < 2 * k. b_mass (bs ! i) = row_mass (rows ! i) \<and> b_id (bs ! i) = i + 1 \<and> b_type (bs ! i) = BODY (k \<le> i))
    \<and> (\<forall>i < 2 * k. \<forall>j < 2 * k. (i < k) = (j < k)
         \<longrightarrow> mw_subv (b_pos (bs ! i)) (b_pos (bs ! j)) = mw_subv (fst (rows ! i)) (fst (rows ! j))
           \<and> mw_subv (b_vel (bs ! i)) (b_vel (bs ! j)) = mw_subv (fst (snd (rows ! i))) (fst (snd (rows ! j))))"
proof -
  define rows1 where "rows1 = cm_correction_by_comp rows R V M1 0 k"
  have r': "rows' = cm_correction_by_comp rows1 R V M2 k (2 * k)" by (simp add: rows'_def rows1_def)
  have le: "k \<le> length rows" using assms(1) by simp
  note n1 = cm_correction_nth[OF le, where R = R and V = V and M = M1 and s = 0, folded rows1_def]
  have le1: "2 * k \<le> length rows1" using n1(1) assms(1) by simp
  note n2 = cm_correction_nth[OF le1, where R = R and V = V and M = M2 and s = k, folded r']
  have m1: "row_mass (rows1 ! i) = row_mass (rows ! i)" if "i < 2 * k" for i
    using n1(2)[of i] that assms(1) by (simp add: row_mass_def)
  have m2: "row_mass (rows' ! i) = row_mass (rows ! i)" if "i < 2 * k" for i
    using n2(2)[of i] that n1(1) assms(1) m1[OF that] by (simp add: row_mass_def)
  have "(\<Sum>i\<in>{0..<k}. row_mass (rows ! i)) = (\<Sum>i\<in>{0..<k}. M1 / real k)"
    using assms(5) by (intro sum.cong) simp_all
  then have s1: "(\<Sum>i\<in>{0..<k}. snd (snd (rows ! i))) = M1" using assms(2) by (simp add: row_mass_def)
  have "(\<Sum>i\<in>{k..<2 * k}. row_mass (rows1 ! i)) = (\<Sum>i\<in>{k..<2 * k}. M2 / real k)"
    using assms(6) m1 by (intro sum.cong) simp_all
  then have s2: "(\<Sum>i\<in>{k..<2 * k}. snd (snd (rows1 ! i))) = M2" using assms(2) by (simp add: row_mass_def)
  have "placed bs {0..<k} M1 R V"
    using placed_rows[OF _ le s1 assms(3), of bs k rows'] n2(2) n1(1) assms(1) by (simp add: bs_def rows1_def)
  moreover have "placed bs {k..<2 * k} M2 R V"
    using placed_rows[OF _ le1 s2 assms(4), of bs k rows'] by (simp add: bs_def r')
  moreover have "b_mass (bs ! i) = row_mass (rows ! i) \<and> b_id (bs ! i) = i + 1 \<and> b_type (bs ! i) = BODY (k \<le> i)"
    if "i < 2 * k" for i
    using m2[OF that] that by (simp add: bs_def body_of_row_def row_mass_def split_beta not_less)
  moreover have "mw_subv (b_pos (bs ! i)) (b_pos (bs ! j)) = mw_subv (fst (rows ! i)) (fst (rows ! j))
      \<and> mw_subv (b_vel (bs ! i)) (b_vel (bs ! j)) = mw_subv (fst (snd (rows ! i))) (fst (snd (rows ! j)))"
    if "i < 2 * k" "j < 2 * k" "(i < k) = (j < k)" for i j
  proof -
    have rigid: "mw_subv (mw_addv (mw_subv p b) c) (mw_addv (mw_subv p' b) c) = mw_subv p p'" for p p' b c
      by (simp add: vec_defs)
    have b: "b_pos (bs ! l) = fst (rows' ! l)" "b_vel (bs ! l) = fst (snd (rows' ! l))" if "l < 2 * k" for l
      using that by (simp_all add: bs_def body_of_row_def split_beta)
    show ?thesis
      using that n2(2)[of i] n2(2)[of j] n1(1) n1(2)[of i] n1(2)[of j] assms(1) by (cases "i < k") (simp_all add: b rigid)
  qed
  ultimately show ?thesis by blast
qed

definition sample_rows :: "body_row list" where
  "sample_rows = [(mw_vec 1 0 0, mw_vec 0 1 0, 6), (mw_vec 3 4 0, ZERO_VECTOR, 6),
                  (mw_vec 0 0 7, mw_vec 2 2 2, 10), (mw_vec 5 5 5, mw_vec 0 0 9, 10)]"

theorem mixed_components_placed_witness:
  "let bs = map (body_of_row 2 (cm_correction_by_comp
        (cm_correction_by_comp sample_rows (mw_vec 1 2 3) (mw_vec 4 5 6) 12 0 2) (mw_vec 1 2 3) (mw_vec 4 5 6) 20 2 4)) [0..<4]
   in placed bs {0..<2} 12 (mw_vec 1 2 3) (mw_vec 4 5 6) \<and> placed bs {2..<4} 20 (mw_vec 1 2 3) (mw_vec 4 5 6)
      \<and> b_type (bs ! 3) = BODY True"
proof -
  have "length sample_rows = 2 * 2" "\<forall>i < 2. row_mass (sample_rows ! i) = 12 / real 2"
    "\<forall>i \<in> {2..<2 * 2}. row_mass (sample_rows ! i) = 20 / real 2"
    by (auto simp: sample_rows_def row_mass_def less_Suc_eq numeral_eq_Suc)
  note placed = mixed_components_placed[OF this(1) _ _ _ this(2,3), of "mw_vec 1 2 3" "mw_vec 4 5 6"]
  show ?thesis using placed by (simp add: Let_def)
qed

text \<open>So whenever the generator returns, the galaxy consists of light bodies and dark ones, with their shares of
  the masses, and for an even number of bodies its components are where the caller asked for them.\<close>

theorem mixed_dwarf_placed:
  "case nbGenerateMixedDwarfCore prng n comp1 comp2 rShift vShift of None \<Rightarrow> True
   | Some (bs, d, c1, c2) \<Rightarrow>
       length bs = n \<and>
       (\<forall>i < n. b_id (bs ! i) = i + 1 \<and> b_type (bs ! i) = BODY (n div 2 \<le> i)
          \<and> b_mass (bs ! i) = dval (dw_mass (if i < n div 2 then c1 else c2)) / (real n / 2)) \<and>
       (odd n \<or> n = 0 \<or>
          (dval (dw_mass c1) = 0 \<or> placed bs {0..<n div 2} (dval (dw_mass c1)) rShift vShift) \<and>
          (dval (dw_mass c2) = 0 \<or> placed bs {n div 2..<n} (dval (dw_mass c2)) rShift vShift))"
proof (cases "nbGenerateMixedDwarfCore prng n comp1 comp2 rShift vShift")
  case (Some res)
  obtain bs d c1 c2 where res: "res = (bs, d, c1, c2)" by (cases res)
  define M1 M2 where "M1 = dval (dw_mass c1)" and "M2 = dval (dw_mass c2)"
  let ?k = "n div 2"
  obtain rows where rows: "mixed_rows prng n comp1 comp2 rShift vShift = Some (rows, d, c1, c2)"
    and bs: "bs = map (body_of_row ?k rows) [0..<n]"
    using Some res by (auto simp: nbGenerateMixedDwarfCore_def elim!: bind_Some_prodE)
  obtain rows0 where len: "length rows0 = n"
    and m': "\<forall>i < n. snd (snd (rows0 ! i)) = (if i < ?k then M1 / (1 / 2 * real n) else M2 / (1 / 2 * real n))"
    and corr: "rows = cm_correction_by_comp (cm_correction_by_comp rows0 rShift vShift M1 0 ?k) rShift vShift M2 ?k n"
    using mixed_rows_masses[OF rows, folded M1_def M2_def] by blast
  have m: "snd (snd (rows0 ! i)) = (if i < ?k then M1 else M2) / (1 / 2 * real n)" if "i < n" for i
    using m' that by simp
  define rows1 where "rows1 = cm_correction_by_comp rows0 rShift vShift M1 0 ?k"
  have le: "?k \<le> length rows0" by (simp add: len)
  note first = cm_correction_nth[OF le, where R = rShift and V = vShift and M = M1 and s = 0, folded rows1_def]
  have le1: "n \<le> length rows1" using first(1) len by simp
  note second = cm_correction_nth[OF le1, where R = rShift and V = vShift and M = M2 and s = ?k, folded corr[folded rows1_def]]
  have m1: "snd (snd (rows1 ! i)) = snd (snd (rows0 ! i))" if "i < n" for i
    using first(2)[of i] that len by (simp add: row_mass_def)
  have mass: "snd (snd (rows ! i)) = (if i < ?k then M1 else M2) / (1 / 2 * real n)" if "i < n" for i
    using second(2)[of i] that first(1) len m1[OF that] m[OF that] by (simp add: row_mass_def)
  have all: "\<forall>i < n. b_id (bs ! i) = i + 1 \<and> b_type (bs ! i) = BODY (?k \<le> i)
      \<and> b_mass (bs ! i) = dval (dw_mass (if i < ?k then c1 else c2)) / (real n / 2)"
    using mass by (simp add: bs body_of_row_def M1_def[symmetric] M2_def[symmetric] not_less split_beta)
  have "(M1 = 0 \<or> placed bs {0..<?k} M1 rShift vShift) \<and> (M2 = 0 \<or> placed bs {?k..<n} M2 rShift vShift)"
    if "even n" "n \<noteq> 0"
  proof -
    have n: "real n = 2 * real ?k" "0 < ?k" using that by (auto elim!: evenE)
    have "(\<Sum>i\<in>{0..<?k}. snd (snd (rows0 ! i))) = (\<Sum>i\<in>{0..<?k}. M1 / real ?k)"
      using m n by (intro sum.cong) simp_all
    then have s1: "(\<Sum>i\<in>{0..<?k}. snd (snd (rows0 ! i))) = M1" using n by simp
    have "(\<Sum>i\<in>{?k..<n}. snd (snd (rows1 ! i))) = (\<Sum>i\<in>{?k..<n}. M2 / real ?k)"
      using m m1 n by (intro sum.cong) simp_all
    moreover have "real (n - ?k) = real ?k" using n by linarith
    ultimately have s2: "(\<Sum>i\<in>{?k..<n}. snd (snd (rows1 ! i))) = M2" using n by simp
    have "placed bs {0..<?k} M1 rShift vShift" if "M1 \<noteq> 0"
      using placed_rows[OF _ le s1 that, of bs ?k rows] second(2) first(1) len by (simp add: bs rows1_def)
    moreover have "placed bs {?k..<n} M2 rShift vShift" if "M2 \<noteq> 0"
      using placed_rows[OF _ le1 s2 that, of bs ?k rows] by (simp add: bs corr rows1_def)
    ultimately show ?thesis by blast
  qed
  then show ?thesis using Some all by (auto simp: res bs M1_def[symmetric] M2_def[symmetric])
qed simp

end
