(* ===== verification/NBody_Isotropic.thy ===== *)
theory NBody_Isotropic
  imports NBody_MixedDwarf
begin

text \<open>
  The older model of two Plummer spheres, \<open>nbody_isotropic.c\<close>. It samples as \<open>nbody_mixeddwarf.c\<close> does, with
  other constants in the quadrature, the highest density by golden section, directions by angles, and
  one correction for all bodies. The array \<open>args\<close> is four arguments. Routines that the file repeats
  word for word (derivatives, golden section, the integrand) are those of NBody_Numeric and
  NBody_MixedDwarf.
\<close>

section \<open>Two Plummer spheres\<close>

definition iso_potential :: "dbl \<Rightarrow> dbl \<Rightarrow> dbl \<Rightarrow> dbl \<Rightarrow> dbl \<Rightarrow> dbl" where
  "iso_potential mass_l mass_d rscale_l rscale_d r =
     (let potential_light = mass_l / dsqrt (sqr r + sqr rscale_l);
          potential_dark = mass_d / dsqrt (sqr r + sqr rscale_d);
          potential_result = - (potential_light + potential_dark)
      in - potential_result)"

definition iso_density :: "dbl \<Rightarrow> dbl \<Rightarrow> dbl \<Rightarrow> dbl \<Rightarrow> dbl \<Rightarrow> dbl" where
  "iso_density mass_l mass_d rscale_l rscale_d r =
     (let rscale_lCube = cube rscale_l;
          rscale_dCube = cube rscale_d;
          density_light = mass_l / rscale_lCube * dminusfivehalves (1 + sqr r / sqr rscale_l);
          density_dark = mass_d / rscale_dCube * dminusfivehalves (1 + sqr r / sqr rscale_d)
      in 3 / (4 * Fin pi) * (density_light + density_dark))"

definition profile_rho :: "dbl \<Rightarrow> dbl \<Rightarrow> dbl \<Rightarrow> dbl \<Rightarrow> dbl \<Rightarrow> dbl" where
  "profile_rho mass_l mass_d rscale_l rscale_d r = r * r * iso_density mass_l mass_d rscale_l rscale_d r"

section \<open>The numerical routines\<close>

definition iso_gauss_quad :: "(dbl \<Rightarrow> dbl) \<Rightarrow> dbl \<Rightarrow> dbl \<Rightarrow> dbl" where
  "iso_gauss_quad = gauss_quad_with (6 / 5) 20"

text \<open>Without the shift of a point with value NaN.\<close>

definition iso_interval_point :: "(dbl \<Rightarrow> dbl) \<Rightarrow> dbl \<Rightarrow> dbl \<Rightarrow> dbl \<Rightarrow> nat \<Rightarrow> dbl \<times> dbl" where
  "iso_interval_point func function_value lower_bound upper_bound i =
     (let interval_bound = (upper_bound - lower_bound) * Fin (real i) / 4 + lower_bound
      in (interval_bound, func interval_bound - function_value))"

definition iso_root_finder :: "(dbl \<Rightarrow> dbl) \<Rightarrow> dbl \<Rightarrow> dbl \<Rightarrow> dbl \<Rightarrow> dbl" where
  "iso_root_finder func function_value lower_bound upper_bound =
     scan_intervals func function_value
       (map (iso_interval_point func function_value lower_bound upper_bound) [0..<5])"

definition iso_fun :: "dbl \<Rightarrow> dbl \<Rightarrow> dbl \<Rightarrow> dbl \<Rightarrow> dbl \<Rightarrow> dbl \<Rightarrow> dbl" where
  "iso_fun mass_l mass_d rscale_l rscale_d energy =
     eddington (iso_potential mass_l mass_d rscale_l rscale_d) (iso_density mass_l mass_d rscale_l rscale_d) energy"

definition iso_find_upperlimit_r :: "(dbl \<Rightarrow> dbl) \<Rightarrow> dbl \<Rightarrow> dbl \<Rightarrow> dbl \<Rightarrow> dbl" where
  "iso_find_upperlimit_r pt energy search_range r =
     (let upperlimit_r = iso_root_finder pt energy 0 search_range
      in \<bar>if accepted upperlimit_r then upperlimit_r else r\<bar>)"

definition iso_dist_fun :: "dbl \<Rightarrow> dbl \<Rightarrow> dbl \<Rightarrow> dbl \<Rightarrow> dbl \<Rightarrow> dbl \<Rightarrow> dbl" where
  "iso_dist_fun mass_l mass_d rscale_l rscale_d r v =
     (let pt = iso_potential mass_l mass_d rscale_l rscale_d;
          c = 3582244801567226 / 100000000000000000;
          energy = pt r - 1 / 2 * v * v;
          search_range = 20 * dsqrt \<bar>sqr (mass_d / energy) - sqr rscale_d\<bar>;
          search_range = widen pt energy (100 * (rscale_l + rscale_d)) 101 search_range;
          upperlimit_r = iso_find_upperlimit_r pt energy search_range r;
          lowerlimit_r = 5 * upperlimit_r
      in v * v * c * iso_gauss_quad (iso_fun mass_l mass_d rscale_l rscale_d energy) lowerlimit_r upperlimit_r)"

section \<open>Sampling\<close>

definition iso_r_trial :: "(dbl \<Rightarrow> dbl) \<Rightarrow> dbl \<Rightarrow> real \<Rightarrow> dsfmt_t \<Rightarrow> (dbl \<times> bool) \<times> dsfmt_t" where
  "iso_r_trial den dmax bound d =
     (let (x, d) = mwXrandom d 0 bound; r = Fin x;
          (u, d) = mwXrandom d 0 1;
          val = r * r * den r
      in ((r, val / dmax > Fin u), d))"

definition iso_r_mag :: "(dbl \<Rightarrow> dbl) \<Rightarrow> dbl \<Rightarrow> real \<Rightarrow> dsfmt_t \<Rightarrow> dbl \<times> dsfmt_t" where
  "iso_r_mag den dmax bound d = trials 1001 (iso_r_trial den dmax bound) d"

definition iso_vel_mag :: "dbl \<Rightarrow> dbl \<Rightarrow> dbl \<Rightarrow> dbl \<Rightarrow> dbl \<Rightarrow> dsfmt_t \<Rightarrow> dbl \<times> dsfmt_t" where
  "iso_vel_mag mass_l mass_d rscale_l rscale_d r d =
     (let v_esc = dsqrt \<bar>2 * iso_potential mass_l mass_d rscale_l rscale_d r\<bar>;
          dfun = iso_dist_fun mass_l mass_d rscale_l rscale_d r;
          dist_max = max_finder dfun 0 (1 / 2 * v_esc) v_esc 10 (1 / 100)
      in trials 1001 (v_trial dfun v_esc dist_max) d)"

definition iso_get_components :: "dsfmt_t \<Rightarrow> real \<Rightarrow> mwvector \<times> dsfmt_t" where
  "iso_get_components d rad =
     (let (c, d) = mwXrandom d (- 1) 1; theta = arccos c;
          (u, d) = mwXrandom d 0 1; phi = u * 2 * pi
      in (\<lparr>X = rad * sin theta * cos phi, Y = rad * sin theta * sin phi, Z = rad * cos theta\<rparr>, d))"

text \<open>The body is that of \<open>cm_correction_by_comp\<close> with the loops from 0 to \<open>nbody\<close>.\<close>

definition cm_correction :: "body_row list \<Rightarrow> mwvector \<Rightarrow> mwvector \<Rightarrow> real \<Rightarrow> nat \<Rightarrow> body_row list" where
  "cm_correction rows rShift vShift dwarf_mass nbods = cm_correction_by_comp rows rShift vShift dwarf_mass 0 nbods"

definition isotropic_row :: "real \<Rightarrow> real \<Rightarrow> real \<Rightarrow> real \<Rightarrow> nat \<Rightarrow> nat \<Rightarrow> dsfmt_t \<Rightarrow> (body_row \<times> dsfmt_t) option" where
  "isotropic_row mass_l mass_d rscale_l rscale_d nbods i d =
     (let bound = 50 * (rscale_l + rscale_d);
          half_bodies = nbods div 2;
          mass_light_particle = mass_l / (1 / 2 * real nbods);
          mass_dark_particle = mass_d / (1 / 2 * real nbods);
          ml = Fin mass_l; md = Fin mass_d; rl = Fin rscale_l; rd = Fin rscale_d;
          rho_max_light = max_finder (profile_rho ml 0 rl rd) 0 rl (2 * rl) 20 (1 / 10000);
          rho_max_dark = max_finder (profile_rho 0 md rl rd) 0 rd (2 * rd) 20 (1 / 10000)
      in do { (r, d) \<leftarrow> retry 1001 (if i < half_bodies then iso_r_mag (iso_density ml 0 rl rd) rho_max_light bound
                                    else iso_r_mag (iso_density 0 md rl rd) rho_max_dark bound) d;
              (v, d) \<leftarrow> retry 1001 (iso_vel_mag ml md rl rd (Fin r)) d;
              let (vel, d) = iso_get_components d v;
              let (pos, d) = iso_get_components d r;
              Some ((pos, vel, if i < half_bodies then mass_light_particle else mass_dark_particle), d) })"

definition nbGenerateIsotropicCore :: "dsfmt_t \<Rightarrow> nat \<Rightarrow> real \<Rightarrow> real \<Rightarrow> mwvector \<Rightarrow> mwvector \<Rightarrow> real \<Rightarrow> real
    \<Rightarrow> (Body list \<times> dsfmt_t) option" where
  "nbGenerateIsotropicCore prng nbods mass1 mass2 rShift vShift radiusScale1 radiusScale2 =
     do { (rows, d) \<leftarrow> model_bodies (isotropic_row mass1 mass2 radiusScale1 radiusScale2 nbods) [0..<nbods] prng;
          let rows = cm_correction rows rShift vShift (mass1 + mass2) nbods;
          Some (map (body_of_row (nbods div 2) rows) [0..<nbods], d) }"

end
