(* ===== verification/NBody_IsotropicProps.thy ===== *)
theory NBody_IsotropicProps
  imports NBody_Isotropic NBody_MixedProps
begin

text \<open>
  The older model against the general one: the same potential, density and integrand for two Plummer
  spheres, and one correction that places the whole galaxy, not each component.
\<close>

section \<open>The profile\<close>

lemma sqr_quotient: "0 < a \<Longrightarrow> sqr (r / Fin a) = sqr r / sqr (Fin a)"
  by (cases r) (simp_all add: zero_less_mult_iff)

lemma plummer_term_finite:
  assumes "0 < a" "r \<noteq> NaN"
  obtains k where "dminusfivehalves (1 + sqr r / sqr (Fin a)) = Fin k"
proof (cases r)
  case (Fin x)
  have "0 < 1 + sqr x / sqr a" by (intro add_pos_nonneg) simp_all
  then show ?thesis using assms(1) Fin that by (simp add: dminusfivehalves_Fin one_dbl_def)
qed (use assms that in \<open>simp_all add: dminusfivehalves_def dfifth_def dinv_def one_dbl_def\<close>)

lemma potential_two_plummers:
  "potential (dwarf_of Plummer ml al q) (dwarf_of Plummer md ad q') = iso_potential (Fin ml) (Fin md) (Fin al) (Fin ad)"
proof
  fix r
  have m: "- (- x) = x" for x :: dbl by (cases x) simp_all
  show "potential (dwarf_of Plummer ml al q) (dwarf_of Plummer md ad q') r = iso_potential (Fin ml) (Fin md) (Fin al) (Fin ad) r"
    by (simp add: potential_def iso_potential_def get_potential_def plummer_pot_def dwarf_of_def Let_def m)
qed

lemma density_two_plummers:
  assumes "0 < al" "0 < ad"
  shows "density (dwarf_of Plummer ml al q) (dwarf_of Plummer md ad q') = iso_density (Fin ml) (Fin md) (Fin al) (Fin ad)"
proof
  fix r
  show "density (dwarf_of Plummer ml al q) (dwarf_of Plummer md ad q') r = iso_density (Fin ml) (Fin md) (Fin al) (Fin ad) r"
  proof (cases "r = NaN")
    case True
    then show ?thesis using assms
      by (simp add: density_def iso_density_def get_density_def plummer_den_def dwarf_of_def dminusfivehalves_def
          dfifth_def dinv_def one_dbl_def dbl_consts)
  next
    case False
    obtain k where k: "dminusfivehalves (1 + sqr r / sqr (Fin al)) = Fin k" using plummer_term_finite[OF assms(1) False] .
    obtain k' where k': "dminusfivehalves (1 + sqr r / sqr (Fin ad)) = Fin k'" using plummer_term_finite[OF assms(2) False] .
    have sc: "dw_scaleLength (dwarf_of t m a p) = Fin a" "dw_mass (dwarf_of t m a p) = Fin m"
      "dw_type (dwarf_of t m a p) = t" for t m a p by (simp_all add: dwarf_of_def)
    have den: "plummer_den (dwarf_of Plummer m a p) r
        = 3 / (4 * Fin pi) * (Fin m / cube (Fin a)) * dminusfivehalves (1 + sqr r / sqr (Fin a))" if "0 < a" for m a p
      by (simp only: plummer_den_def sc Let_def sqr_quotient[OF that])
    have "density (dwarf_of Plummer ml al q) (dwarf_of Plummer md ad q') r
        = 3 / (4 * Fin pi) * (Fin ml / cube (Fin al)) * Fin k + 3 / (4 * Fin pi) * (Fin md / cube (Fin ad)) * Fin k'"
      by (simp only: density_def get_density_def sc den[OF assms(1)] den[OF assms(2)] k k' dwarf_t.case option.sel)
    also have "\<dots> = 3 / (4 * Fin pi) * (Fin ml / cube (Fin al) * Fin k + Fin md / cube (Fin ad) * Fin k')"
      using assms by (simp add: dbl_consts algebra_simps)
    finally show ?thesis by (simp only: iso_density_def Let_def k k')
  qed
qed

text \<open>For two Plummer spheres the two generators of dwarf galaxies sample the same physics: potential,
  density and the integrand of the distribution function of \<open>nbody_isotropic.c\<close> are those of
  \<open>nbody_mixeddwarf.c\<close> with two components of type Plummer, at every argument, infinities and NaN
  included.\<close>

theorem isotropic_is_two_plummers:
  assumes "0 < al" "0 < ad"
  shows "potential (dwarf_of Plummer ml al q) (dwarf_of Plummer md ad q') = iso_potential (Fin ml) (Fin md) (Fin al) (Fin ad)
    \<and> density (dwarf_of Plummer ml al q) (dwarf_of Plummer md ad q') = iso_density (Fin ml) (Fin md) (Fin al) (Fin ad)
    \<and> fun_integrand (dwarf_of Plummer ml al q) (dwarf_of Plummer md ad q') = iso_fun (Fin ml) (Fin md) (Fin al) (Fin ad)"
  by (simp add: fun_eq_iff fun_integrand_def iso_fun_def potential_two_plummers density_two_plummers[OF assms])

theorem isotropic_is_two_plummers_witness:
  "density (dwarf_of Plummer 1 2 0) (dwarf_of Plummer 3 4 0) 5 = iso_density (Fin 1) (Fin 3) (Fin 2) (Fin 4) 5"
  using isotropic_is_two_plummers[of 2 4 1 0 3 0] by simp

section \<open>The place of the galaxy\<close>

text \<open>C50: the isotropic model. The first half of the bodies is light, the rest dark, each with its share.
  For an even number of bodies and masses that do not cancel, the galaxy as a whole has the mass of both
  components, its centre of mass on the place and its mean velocity on the velocity asked for.\<close>

theorem isotropic_dwarf_placed:
  "case nbGenerateIsotropicCore prng n mass1 mass2 rShift vShift radiusScale1 radiusScale2 of None \<Rightarrow> True
   | Some (bs, d) \<Rightarrow>
       length bs = n \<and>
       (\<forall>i < n. b_id (bs ! i) = i + 1 \<and> b_type (bs ! i) = BODY (n div 2 \<le> i)
          \<and> b_mass (bs ! i) = (if i < n div 2 then mass1 else mass2) / (real n / 2)) \<and>
       (odd n \<or> n = 0 \<or> mass1 + mass2 = 0 \<or> placed bs {0..<n} (mass1 + mass2) rShift vShift)"
proof (cases "nbGenerateIsotropicCore prng n mass1 mass2 rShift vShift radiusScale1 radiusScale2")
  case (Some res)
  obtain bs d where res: "res = (bs, d)" by (cases res)
  let ?k = "n div 2"
  let ?m = "\<lambda>i. (if i < ?k then mass1 / (1 / 2 * real n) else mass2 / (1 / 2 * real n))"
  obtain rows0 where mb: "model_bodies (isotropic_row mass1 mass2 radiusScale1 radiusScale2 n) [0..<n] prng = Some (rows0, d)"
    and bs: "bs = map (body_of_row ?k (cm_correction_by_comp rows0 rShift vShift (mass1 + mass2) 0 n)) [0..<n]"
    using Some res by (auto simp: nbGenerateIsotropicCore_def cm_correction_def elim!: bind_Some_prodE)
  let ?P = "\<lambda>i (b :: body_row). snd (snd b) = ?m i"
  have "?P i b \<and> True" if "isotropic_row mass1 mass2 radiusScale1 radiusScale2 n i s = Some (b, s')" for i s b s'
    using that by (auto simp: isotropic_row_def Let_def split: prod.splits elim!: bind_Some_prodE)
  then have "list_all2 ?P [0..<n] rows0 \<and> True"
    using model_bodies_all[of "\<lambda>_. True" _ ?P, OF _ mb] by blast
  then have len: "length rows0 = n" and m: "\<And>i. i < n \<Longrightarrow> snd (snd (rows0 ! i)) = ?m i"
    by (auto simp: list_all2_conv_all_nth)
  have le: "n \<le> length rows0" by (simp add: len)
  define rows where "rows = cm_correction_by_comp rows0 rShift vShift (mass1 + mass2) 0 n"
  note corr = cm_correction_nth[OF le, where R = rShift and V = vShift and M = "mass1 + mass2" and s = 0, folded rows_def]
  have mass: "snd (snd (rows ! i)) = ?m i" if "i < n" for i
    using corr(2)[of i] m[OF that] that len by (simp add: row_mass_def)
  have "placed bs {0..<n} (mass1 + mass2) rShift vShift" if "even n" "n \<noteq> 0" "mass1 + mass2 \<noteq> 0"
  proof -
    have n: "real n = 2 * real ?k" "0 < ?k" "?k \<le> n" using that by (auto elim!: evenE)
    have "(\<Sum>i\<in>{0..<n}. snd (snd (rows0 ! i))) = (\<Sum>i\<in>{0..<n}. ?m i)" using m by (intro sum.cong) simp_all
    also have "\<dots> = (\<Sum>i\<in>{0..<?k}. ?m i) + (\<Sum>i\<in>{?k..<n}. ?m i)" by (rule sum.atLeastLessThan_concat[symmetric]) (use n in simp_all)
    also have "\<dots> = (\<Sum>i\<in>{0..<?k}. mass1 / real ?k) + (\<Sum>i\<in>{?k..<n}. mass2 / real ?k)"
      using n by (intro arg_cong2[of _ _ _ _ "(+)"] sum.cong) simp_all
    also have "real (n - ?k) = real ?k" using n by linarith
    then have "(\<Sum>i\<in>{0..<?k}. mass1 / real ?k) + (\<Sum>i\<in>{?k..<n}. mass2 / real ?k) = mass1 + mass2" using n by simp
    finally have s: "(\<Sum>i\<in>{0..<n}. snd (snd (rows0 ! i))) = mass1 + mass2" .
    show ?thesis using placed_rows[OF _ le s that(3), of bs ?k rows] by (simp add: bs rows_def)
  qed
  moreover have "\<forall>i < n. b_id (bs ! i) = i + 1 \<and> b_type (bs ! i) = BODY (?k \<le> i)
      \<and> b_mass (bs ! i) = (if i < ?k then mass1 else mass2) / (real n / 2)"
    using mass by (simp add: bs rows_def[symmetric] body_of_row_def not_less split_beta)
  ultimately show ?thesis using Some by (auto simp: res bs)
qed simp

end
