(* ===== verification/NBody_Virial.thy ===== *)
theory NBody_Virial
  imports NBody_Params MW_Double
begin

text \<open>
  The virial radius of two Plummer spheres (\<open>nbody_virial.c\<close>) and what the Lua files calculate from it and
  beside it, the softening length and a time step (\<open>nbody_lua_models.c\<close>). \<open>mw_fail\<close> is \<open>None\<close>. The number of
  bodies is taken as positive and the masses as not cancelling; for others the powers and quotients of
  the code are not finite.
\<close>

section \<open>Definitions\<close>

definition nbDwarfDensity :: "real \<Rightarrow> real \<Rightarrow> real \<Rightarrow> real \<Rightarrow> real \<Rightarrow> real" where
  "nbDwarfDensity r a_b a_d M_b M_d =
     (let b_comp = M_b / mw_pow a_b 3 * mw_pow (1 + r * r / a_b / a_b) (- 5 / 2);
          d_comp = M_d / mw_pow a_d 3 * mw_pow (1 + r * r / a_d / a_d) (- 5 / 2)
      in 3 / 4 / pi * (b_comp + d_comp))"

definition nbDwarfIntegral :: "real \<Rightarrow> real \<Rightarrow> real \<Rightarrow> real \<Rightarrow> real \<Rightarrow> real" where
  "nbDwarfIntegral r a_b a_d M_b M_d =
     (let b_comp = M_b / a_b * r * r * mw_pow (1 + r * r / a_b / a_b) (- 1 / 2);
          d_comp = M_d / a_d * r * r * mw_pow (1 + r * r / a_d / a_d) (- 1 / 2)
      in 1 / 4 / pi * (b_comp + d_comp))"

definition virial_weight :: "real list" where
  "virial_weight = [2369268850561891 / 10 ^ 16, 4786286704993665 / 10 ^ 16, 5688888888888889 / 10 ^ 16,
     4786286704993665 / 10 ^ 16, 2369268850561891 / 10 ^ 16]"

definition virial_point :: "real list" where
  "virial_point = [- 9061798459386640 / 10 ^ 16, - 5384693101056831 / 10 ^ 16, 0,
     5384693101056831 / 10 ^ 16, 9061798459386640 / 10 ^ 16]"

text \<open>The two loops, over \<open>n\<close> panels and the five points of each.\<close>

definition virial_integral :: "nat \<Rightarrow> real \<Rightarrow> real \<Rightarrow> real \<Rightarrow> real \<Rightarrow> real \<Rightarrow> real" where
  "virial_integral n width a_b a_d M_b M_d =
     fold (\<lambda>i1 integral1.
         let a1 = real i1 * width; b1 = real (i1 + 1) * width
         in fold (\<lambda>j1 integral1.
               let r1 = width * (virial_point ! j1) / 2 + (a1 + b1) / 2
               in integral1 + (virial_weight ! j1) * nbDwarfDensity r1 a_b a_d M_b M_d
                                * nbDwarfIntegral r1 a_b a_d M_b M_d * width / 2) [0..<5] integral1)
       [0..<n] 0"

definition nbCalculateVirial :: "real \<Rightarrow> real \<Rightarrow> real \<Rightarrow> real \<Rightarrow> real option" where
  "nbCalculateVirial a_b a_d M_b M_d =
     (let M_tot = M_b + M_d;
          n = 100000;
          upperlimit = (if a_b > a_d then 1000 * a_b else 1000 * a_d);
          width = (upperlimit - 0) / (real n * 1)
      in if a_b \<le> 0 \<or> a_d \<le> 0 then None
         else if M_b < 0 \<or> M_d < 0 then None
         else if M_b = 0 \<and> M_d = 0 then None
         else Some (M_tot * M_tot / 16 / pi / pi / virial_integral n width a_b a_d M_b M_d))"

definition nbCalculateTimestep :: "real \<Rightarrow> real \<Rightarrow> real" where
  "nbCalculateTimestep mass r0 = sqr (1 / 10) * sqrt (4 * pi / 3 * cube r0 / mass)"

definition nbCalculateEps2 :: "real \<Rightarrow> real \<Rightarrow> real \<Rightarrow> real \<Rightarrow> real \<Rightarrow> real option" where
  "nbCalculateEps2 nbods a_b a_d M_b M_d =
     (let beta = 1
      in case nbCalculateVirial a_b a_d M_b M_d of
           None \<Rightarrow> None
         | Some r_v \<Rightarrow>
             let eps = r_v * (98 / 100) * mw_pow nbods (- 26 / 100);
                 eps2 = sqr eps / beta
             in Some (if eps2 \<le> REAL_EPSILON then REAL_EPSILON else eps2))"

definition nbCalculateEps2_OLD :: "real \<Rightarrow> real \<Rightarrow> real \<Rightarrow> real \<Rightarrow> real \<Rightarrow> real" where
  "nbCalculateEps2_OLD nbods a_b a_d M_b M_d =
     (let a = (M_b * a_b + M_d * a_d) / (M_b + M_d);
          eps = a / 10 / sqrt nbods;
          eps2 = sqr eps
      in if eps2 \<le> REAL_EPSILON then REAL_EPSILON else eps2)"

section \<open>The quadrature\<close>

lemma fold_sum2:
  "fold (\<lambda>i z. fold (\<lambda>j z. z + f i j) js z) is' z = z + (\<Sum>i\<leftarrow>is'. \<Sum>j\<leftarrow>js. (f i j :: real))"
proof -
  have inner: "fold (\<lambda>j z. z + g j) js z = z + (\<Sum>j\<leftarrow>js. g j)" for g :: "'b \<Rightarrow> real" and z
    by (induction js arbitrary: z) simp_all
  show ?thesis unfolding inner by (induction is' arbitrary: z) simp_all
qed

definition virial_term :: "real \<Rightarrow> real \<Rightarrow> real \<Rightarrow> real \<Rightarrow> real \<Rightarrow> nat \<Rightarrow> nat \<Rightarrow> real" where
  "virial_term width a_b a_d M_b M_d i1 j1 =
     (let r1 = width * (virial_point ! j1) / 2 + (real i1 * width + real (i1 + 1) * width) / 2
      in (virial_weight ! j1) * nbDwarfDensity r1 a_b a_d M_b M_d * nbDwarfIntegral r1 a_b a_d M_b M_d * width / 2)"

lemma virial_integral_sum:
  "virial_integral n width a_b a_d M_b M_d = (\<Sum>i\<leftarrow>[0..<n]. \<Sum>j\<leftarrow>[0..<5]. virial_term width a_b a_d M_b M_d i j)"
  using fold_sum2[of "virial_term width a_b a_d M_b M_d" "[0..<5]" "[0..<n]" 0]
  unfolding virial_integral_def virial_term_def Let_def by simp

lemma density_pos:
  assumes "0 < a_b" "0 < a_d" "0 \<le> M_b" "0 \<le> M_d" "M_b \<noteq> 0 \<or> M_d \<noteq> 0" "0 < r"
  shows "0 < nbDwarfDensity r a_b a_d M_b M_d" "0 < nbDwarfIntegral r a_b a_d M_b M_d"
proof -
  have p: "0 < 1 + r * r / a / a" if "0 < a" for a using that by (intro add_pos_nonneg) simp_all
  have h: "0 < M_b * u + M_d * v" if "0 < u" "0 < v" for u v
    using assms(3-5) that by (cases "M_b = 0") (simp_all add: add_pos_nonneg)
  have w: "0 < M_b / x * u + M_d / y * v" "0 < M_b / x * r * r * u + M_d / y * r * r * v"
    if "0 < u" "0 < v" "0 < x" "0 < y" for u v x y
    using h[of "u / x" "v / y"] h[of "r * r * u / x" "r * r * v / y"] that assms(6) by (simp_all add: mult.assoc)
  have q: "0 < mw_pow x y" if "0 < x" for x y using that by (simp add: mw_pow_pos)
  have c: "0 < 3 / 4 / pi" "0 < 1 / 4 / pi" by simp_all
  note prems = assms(1,2) p[OF assms(1)] p[OF assms(2)]
  show "0 < nbDwarfDensity r a_b a_d M_b M_d"
    unfolding nbDwarfDensity_def Let_def by (rule mult_pos_pos[OF c(1) w(1)]; intro q prems)
  show "0 < nbDwarfIntegral r a_b a_d M_b M_d"
    unfolding nbDwarfIntegral_def Let_def by (rule mult_pos_pos[OF c(2) w(2)]; intro q prems)
qed

lemma density_scale:
  assumes "0 < k" "0 < a_b" "0 < a_d"
  shows "nbDwarfDensity (k * r) (k * a_b) (k * a_d) (c * M_b) (c * M_d) = c / k ^ 3 * nbDwarfDensity r a_b a_d M_b M_d"
    "nbDwarfIntegral (k * r) (k * a_b) (k * a_d) (c * M_b) (c * M_d) = c * k * nbDwarfIntegral r a_b a_d M_b M_d"
proof -
  have q: "k * r * (k * r) / (k * a) / (k * a) = r * r / a / a" for a using assms(1) by simp
  show "nbDwarfDensity (k * r) (k * a_b) (k * a_d) (c * M_b) (c * M_d) = c / k ^ 3 * nbDwarfDensity r a_b a_d M_b M_d"
    "nbDwarfIntegral (k * r) (k * a_b) (k * a_d) (c * M_b) (c * M_d) = c * k * nbDwarfIntegral r a_b a_d M_b M_d"
    unfolding nbDwarfDensity_def nbDwarfIntegral_def Let_def q using assms(1)
    by (simp_all add: power_mult_distrib algebra_simps)
qed

lemma virial_integral_scale:
  assumes "0 < k" "0 < a_b" "0 < a_d"
  shows "virial_integral n (k * width) (k * a_b) (k * a_d) (c * M_b) (c * M_d)
    = c\<^sup>2 / k * virial_integral n width a_b a_d M_b M_d"
proof -
  have "virial_term (k * width) (k * a_b) (k * a_d) (c * M_b) (c * M_d) i j
      = c\<^sup>2 / k * virial_term width a_b a_d M_b M_d i j" for i j
  proof -
    define r where "r = width * (virial_point ! j) / 2 + (real i * width + real (i + 1) * width) / 2"
    have "k * width * (virial_point ! j) / 2 + (real i * (k * width) + real (i + 1) * (k * width)) / 2 = k * r"
      by (simp add: r_def algebra_simps)
    then show ?thesis unfolding virial_term_def Let_def r_def[symmetric] using assms
      by (simp add: density_scale[OF assms] power2_eq_square power3_eq_cube)
  qed
  then show ?thesis by (simp only: virial_integral_sum sum_list_const_mult)
qed

lemma virial_integral_pos:
  assumes "0 < a_b" "0 < a_d" "0 \<le> M_b" "0 \<le> M_d" "M_b \<noteq> 0 \<or> M_d \<noteq> 0" "0 < width" "0 < n"
  shows "0 < virial_integral n width a_b a_d M_b M_d"
proof -
  have t: "0 < virial_term width a_b a_d M_b M_d i j" if "j < 5" for i j
  proof -
    have "j = 0 \<or> j = 1 \<or> j = 2 \<or> j = 3 \<or> j = 4" using that by linarith
    then have wp: "- 1 < virial_point ! j" "0 < virial_weight ! j"
      by (auto simp: virial_point_def virial_weight_def)
    define r where "r = width * (virial_point ! j) / 2 + (real i * width + real (i + 1) * width) / 2"
    have "r = width * ((virial_point ! j) + 1 + 2 * real i) / 2" by (simp add: r_def algebra_simps)
    moreover have "0 < width * ((virial_point ! j) + 1 + 2 * real i)" using wp(1) assms(6) by (intro mult_pos_pos) simp_all
    ultimately have "0 < r" by simp
    then show ?thesis unfolding virial_term_def Let_def r_def[symmetric]
      using density_pos[OF assms(1-5)] wp(2) assms(6) by simp
  qed
  have "0 < (\<Sum>i\<leftarrow>is'. f i)" if "is' \<noteq> []" "\<And>i. 0 < f i" for is' :: "nat list" and f :: "nat \<Rightarrow> real"
    using that by (induction is' rule: list_nonempty_induct) (simp_all add: add_pos_pos)
  moreover have "0 < (\<Sum>j\<leftarrow>[0..<5]. virial_term width a_b a_d M_b M_d i j)" for i
    using t by (simp add: upt_conv_Cons add_pos_pos)
  ultimately show ?thesis using assms(7) by (simp add: virial_integral_sum)
qed

lemma virial_term_swap: "virial_term width a_d a_b M_d M_b i j = virial_term width a_b a_d M_b M_d i j"
  by (simp add: virial_term_def nbDwarfDensity_def nbDwarfIntegral_def Let_def add.commute)

section \<open>The radius and the softening length\<close>

text \<open>C40: the virial radius is a length of the galaxy. It is refused for scale radii that are not positive,
  for negative masses and when both are 0, and is positive otherwise; stretching both scale radii
  stretches it alike while a factor on the masses leaves it, and it does not matter which component is
  named first.\<close>

theorem virial_radius_laws:
  assumes "0 < k" "0 < c"
  shows "(case nbCalculateVirial a_b a_d M_b M_d of
        None \<Rightarrow> a_b \<le> 0 \<or> a_d \<le> 0 \<or> M_b < 0 \<or> M_d < 0 \<or> M_b = 0 \<and> M_d = 0
      | Some R \<Rightarrow> 0 < a_b \<and> 0 < a_d \<and> 0 \<le> M_b \<and> 0 \<le> M_d \<and> 0 < M_b + M_d \<and> 0 < R)
    \<and> nbCalculateVirial (k * a_b) (k * a_d) (c * M_b) (c * M_d) = map_option ((*) k) (nbCalculateVirial a_b a_d M_b M_d)
    \<and> nbCalculateVirial a_d a_b M_d M_b = nbCalculateVirial a_b a_d M_b M_d"
proof (cases "a_b \<le> 0 \<or> a_d \<le> 0 \<or> M_b < 0 \<or> M_d < 0 \<or> M_b = 0 \<and> M_d = 0")
  case True
  have N: "nbCalculateVirial a b m m' = None" if "a \<le> 0 \<or> b \<le> 0 \<or> m < 0 \<or> m' < 0 \<or> m = 0 \<and> m' = 0" for a b m m'
    using that unfolding nbCalculateVirial_def Let_def by auto
  have "c * x < 0 \<longleftrightarrow> x < 0" "c * x = 0 \<longleftrightarrow> x = 0" "k * x \<le> 0 \<longleftrightarrow> x \<le> 0" for x
    using assms by (simp_all add: mult_less_0_iff mult_le_0_iff)
  then have "nbCalculateVirial (k * a_b) (k * a_d) (c * M_b) (c * M_d) = None" using True by (intro N) simp
  moreover have "nbCalculateVirial a_d a_b M_d M_b = None" using True by (intro N) blast
  ultimately show ?thesis using True N[OF True] by simp
next
  case False
  then have p: "0 < a_b" "0 < a_d" "0 \<le> M_b" "0 \<le> M_d" "M_b \<noteq> 0 \<or> M_d \<noteq> 0" by auto
  then have M: "0 < M_b + M_d" by auto
  define W where "W a b = ((if a > b then 1000 * a else 1000 * b) - 0) / (real 100000 * 1)" for a b :: real
  define I where "I = virial_integral 100000 (W a_b a_d) a_b a_d M_b M_d"
  have val: "nbCalculateVirial a b m m' = Some ((m + m') * (m + m') / 16 / pi / pi / virial_integral 100000 (W a b) a b m m')"
    if "0 < a" "0 < b" "0 \<le> m" "0 \<le> m'" "m \<noteq> 0 \<or> m' \<noteq> 0" for a b m m'
    using that unfolding nbCalculateVirial_def Let_def W_def by auto
  have "0 < W a_b a_d" using p by (simp add: W_def)
  then have I: "0 < I" unfolding I_def by (intro virial_integral_pos p) simp_all
  have R: "nbCalculateVirial a_b a_d M_b M_d = Some ((M_b + M_d)\<^sup>2 / (16 * pi * pi * I))"
    using val[OF p] by (simp add: I_def power2_eq_square)
  have "W (k * a_b) (k * a_d) = k * W a_b a_d" using assms by (simp add: W_def)
  then have "virial_integral 100000 (W (k * a_b) (k * a_d)) (k * a_b) (k * a_d) (c * M_b) (c * M_d) = c\<^sup>2 / k * I"
    using virial_integral_scale[OF assms(1) p(1,2)] by (simp add: I_def)
  then have "nbCalculateVirial (k * a_b) (k * a_d) (c * M_b) (c * M_d)
      = Some ((c * (M_b + M_d))\<^sup>2 / (16 * pi * pi * (c\<^sup>2 / k * I)))"
    using val[of "k * a_b" "k * a_d" "c * M_b" "c * M_d"] p assms by (simp add: power2_eq_square distrib_left)
  also have "(c * (M_b + M_d))\<^sup>2 / (16 * pi * pi * (c\<^sup>2 / k * I)) = k * ((M_b + M_d)\<^sup>2 / (16 * pi * pi * I))"
    using assms I by (simp add: power_mult_distrib ac_simps)
  finally have scaled: "nbCalculateVirial (k * a_b) (k * a_d) (c * M_b) (c * M_d)
      = map_option ((*) k) (nbCalculateVirial a_b a_d M_b M_d)"
    by (simp add: R)
  have "W a_d a_b = W a_b a_d" by (simp add: W_def)
  then have "nbCalculateVirial a_d a_b M_d M_b = nbCalculateVirial a_b a_d M_b M_d"
    using val[of a_d a_b M_d M_b] val[OF p] p by (auto simp: virial_integral_sum virial_term_swap add.commute)
  then show ?thesis using scaled p M I by (simp add: R)
qed

theorem virial_radius_laws_witness:
  "nbCalculateVirial (2 * 1) (2 * 3) (5 * 1) (5 * 4) = map_option ((*) 2) (nbCalculateVirial 1 3 1 4)
    \<and> nbCalculateVirial 3 1 4 1 = nbCalculateVirial 1 3 1 4"
  by (rule virial_radius_laws[of 2 5 1 3 1 4, THEN conjunct2]) simp_all

end
