(* ===== verification/Sep_Types.thy ===== *)
theory Sep_Types
  imports MW_Double
begin

text \<open>
  The second program of the repository, the separation application (\<open>src/separation\<close>): it fits stellar
  streams to star counts in a wedge of the sky. This theory has its structs and constants
  (\<open>separation_types.h\<close>, \<open>separation_constants.h\<close>, \<open>separation_utils.h\<close>) and the compensated sums at type
  \<open>dbl\<close>: the sums of logarithms may become infinite. Coordinates and parameters are exact reals.
\<close>

section \<open>Constants\<close>

definition SEPARATION_EPS :: real where "SEPARATION_EPS = 1 / 10 ^ 15"
definition LEGENDRE_EPS :: real where "LEGENDRE_EPS = 3 / 10 ^ 11"
definition stdev :: real where "stdev = 6 / 10"
definition absm :: real where "absm = 42 / 10"
definition SIGMA_LIMIT :: real where "SIGMA_LIMIT = 1 / 10000"
definition stripeSeparation :: real where "stripeSeparation = 25 / 10"
definition surveyCenterRa :: real where "surveyCenterRa = 185"
definition surveyCenterDec :: real where "surveyCenterDec = 325 / 10"
definition surveyCenterDec_rad :: real where "surveyCenterDec_rad = d2r surveyCenterDec"
definition NODE_GC_COORDS :: real where "NODE_GC_COORDS = surveyCenterRa - 90"
definition NODE_GC_COORDS_RAD :: real where "NODE_GC_COORDS_RAD = d2r NODE_GC_COORDS"
definition const_sun_r0 :: real where "const_sun_r0 = 85 / 10"
definition MAX_CONVOLVE :: nat where "MAX_CONVOLVE = 256"

section \<open>Structs\<close>

record LB =
  lb_l :: real
  lb_b :: real

record NuId =
  nu_nu :: real
  nu_id :: real

record StreamGauss =
  sg_dx :: "real list"
  sg_W :: "real list"

record StreamParameters =
  sp_epsilon :: real
  sp_mu :: real
  sp_r :: real
  sp_theta :: real
  sp_phi :: real
  sp_sigma :: real
  sp_epsilonExp :: real

record Streams =
  st_parameters :: "StreamParameters list"
  st_sumExpWeights :: real

record BackgroundParameters =
  bp_innerPower :: real
  bp_q :: real
  bp_outerPower :: real
  bp_epsilon :: real
  bp_a :: real
  bp_b :: real
  bp_c :: real

record RPrime =
  rp_irv :: real
  rp_rPrime :: real

record RConsts =
  rc_irv_reff_xr_rp3 :: real
  rc_gPrime :: real
  rc_coeff :: real
  rc_stdev_r :: real
  rc_eps :: real

record RPoints =
  r_point :: real
  qw_r3_N :: real

record LBTrig =
  lCosBCos :: real
  lSinBCos :: real
  bSin :: real

record StreamConstants =
  sc_a :: mwvector
  sc_c :: mwvector
  sc_sigma_sq2_inv :: real
  sc_large_sigma :: bool

record IntegralArea =
  ia_r_min :: real
  ia_r_step_size :: real
  ia_nu_min :: real
  ia_nu_step_size :: real
  ia_mu_min :: real
  ia_mu_step_size :: real
  ia_r_steps :: nat
  ia_nu_steps :: nat
  ia_mu_steps :: nat

datatype background_profile = SLOW_HERNQUIST | FAST_HERNQUIST | BROKEN_POWER_LAW

record AstronomyParameters =
  ap_currentWU :: nat
  ap_m_sun_r0 :: real
  ap_q_inv_sqr :: real
  ap_r0 :: real
  ap_convolve :: nat
  ap_number_streams :: nat
  ap_background_profile :: background_profile
  ap_aux_bg_profile :: bool
  ap_innerPower :: real
  ap_outerPower :: real
  ap_alpha_delta3 :: real
  ap_bg_a :: real
  ap_bg_b :: real
  ap_bg_c :: real
  ap_wedge :: int
  ap_sun_r0 :: real
  ap_q :: real
  ap_modfit :: bool
  ap_number_integrals :: nat
  ap_background_weight :: real
  ap_thick_disk_weight :: real

text \<open>A completed integral, and the results.\<close>

record Cut =
  bgIntegral :: dbl
  streamIntegrals :: "dbl list"

record SeparationResults =
  likelihood_value :: dbl
  backgroundIntegral :: dbl
  backgroundLikelihood :: dbl
  res_streamIntegrals :: "dbl list"
  streamLikelihoods :: "dbl list"

record StreamStats =
  ss_q :: nat
  ss_nstars :: dbl
  ss_sprob :: dbl
  ss_psg :: dbl
  ss_epsilon_s :: real

section \<open>Exponential and logarithm, compensated sums\<close>

fun dlog10 :: "dbl \<Rightarrow> dbl" where
  "dlog10 (Fin a) = (if a < 0 then NaN else if a = 0 then NInf else Fin (log 10 a))"
| "dlog10 PInf = PInf"
| "dlog10 _ = NaN"

record DKahan =
  dk_sum :: dbl
  dk_correction :: dbl

definition ZERO_DKAHAN :: DKahan where
  "ZERO_DKAHAN = \<lparr>dk_sum = 0, dk_correction = 0\<rparr>"

definition DKAHAN_ADD :: "DKahan \<Rightarrow> dbl \<Rightarrow> DKahan" where
  "DKAHAN_ADD k item =
     (let y = item - dk_correction k; t = dk_sum k + y
      in \<lparr>dk_sum = t, dk_correction = (t - dk_sum k) - y\<rparr>)"

definition DKAHAN_REDUCTION :: "DKahan \<Rightarrow> DKahan \<Rightarrow> DKahan" where
  "DKAHAN_REDUCTION inOut in1 =
     (let correctedNextTerm = dk_sum in1 + (dk_correction in1 + dk_correction inOut);
          newSum = dk_sum inOut + correctedNextTerm
      in \<lparr>dk_sum = newSum, dk_correction = correctedNextTerm - (newSum - dk_sum inOut)\<rparr>)"

definition kfin :: "real \<Rightarrow> DKahan" where
  "kfin x = \<lparr>dk_sum = Fin x, dk_correction = Fin 0\<rparr>"

lemma kfin_sel [simp]: "dk_sum (kfin x) = Fin x" "dk_correction (kfin x) = Fin 0"
  by (simp_all add: kfin_def)

lemma zero_kfin: "ZERO_DKAHAN = kfin 0"
  by (simp add: ZERO_DKAHAN_def kfin_def zero_dbl_def)

lemma dkahan_add_fin [simp]: "DKAHAN_ADD (kfin x) (Fin y) = kfin (x + y)"
  by (simp add: DKAHAN_ADD_def kfin_def Let_def)

lemma dkahan_fold_fin: "fold (\<lambda>y k. DKAHAN_ADD k (Fin (f y))) ys (kfin x) = kfin (x + (\<Sum>y\<leftarrow>ys. f y))"
  by (induction ys arbitrary: x) (simp_all add: add.assoc)

text \<open>An infinite item leaves a correction that is not a number, and it spreads to the sum.\<close>

lemma dkahan_add_NInf: "DKAHAN_ADD (kfin x) NInf = \<lparr>dk_sum = NInf, dk_correction = NaN\<rparr>"
  by (simp add: DKAHAN_ADD_def kfin_def Let_def minus_dbl_def)

lemma dkahan_add_bad: "dk_correction k = NaN \<Longrightarrow> DKAHAN_ADD k y = \<lparr>dk_sum = NaN, dk_correction = NaN\<rparr>"
  by (simp add: DKAHAN_ADD_def Let_def minus_dbl_def)

end
