(* ===== verification/Sep_Coordinates.thy ===== *)
theory Sep_Coordinates
  imports Sep_Types NBody_Coordinates
begin

text \<open>
  \<open>coordinates.c\<close> of the separation application: heliocentric, survey and stripe coordinates. The
  accessors L, B, R of the C code are the fields X, Y, Z.
\<close>

section \<open>Definitions\<close>

type_synonym mwmatrix = "mwvector \<times> mwvector \<times> mwvector"

definition mw_mulmv :: "mwmatrix \<Rightarrow> mwvector \<Rightarrow> mwvector" where
  "mw_mulmv m a = (case m of (m0, m1, m2) \<Rightarrow> \<lparr>X = mw_dotv m0 a, Y = mw_dotv m1 a, Z = mw_dotv m2 a\<rparr>)"

definition lbr2xyz :: "AstronomyParameters \<Rightarrow> mwvector \<Rightarrow> mwvector" where
  "lbr2xyz ap lbr =
     (let bsin = sin (d2r (Y lbr)); bcos = cos (d2r (Y lbr));
          lsin = sin (d2r (X lbr)); lcos = cos (d2r (X lbr));
          z = Z lbr * bsin;
          zp = Z lbr * bcos;
          d = sqrt (sqr (ap_sun_r0 ap) + sqr zp - 2 * ap_sun_r0 ap * zp * lcos);
          x = (sqr zp - sqr (ap_sun_r0 ap) - sqr d) / (2 * ap_sun_r0 ap)
      in \<lparr>X = x, Y = zp * lsin, Z = z\<rparr>)"

definition xyz2lbr :: "AstronomyParameters \<Rightarrow> mwvector \<Rightarrow> mwvector" where
  "xyz2lbr ap xyz =
     (let xsun = X xyz + ap_sun_r0 ap;
          tmp = sqr xsun + sqr (Y xyz);
          l = r2d (mw_atan2 (Y xyz) xsun);
          b = r2d (mw_atan2 (Z xyz) (sqrt tmp));
          r = sqrt (tmp + sqr (Z xyz))
      in \<lparr>X = if l < 0 then l + 360 else l, Y = b, Z = r\<rparr>)"

text \<open>\<open>calcG\<close> of \<open>r_points.c\<close>, for positive distances.\<close>

definition calcG :: "real \<Rightarrow> real" where
  "calcG coords = 5 * (log 10 (1000 * coords) - 1) + absm"

definition xyz2lbg :: "AstronomyParameters \<Rightarrow> mwvector \<Rightarrow> real \<Rightarrow> mwvector" where
  "xyz2lbg ap point offset =
     (let lbg = xyz2lbr ap point; g = calcG (Z lbg) - offset in lbg\<lparr>Z := g\<rparr>)"

definition xyz_mag :: "AstronomyParameters \<Rightarrow> mwvector \<Rightarrow> real \<Rightarrow> mwvector" where
  "xyz_mag ap point offset = lbr2xyz ap (xyz2lbg ap point offset)"

definition cartesianToSpherical :: "mwvector \<Rightarrow> LB" where
  "cartesianToSpherical v =
     (let r = sqrt (sqr (X v) + sqr (Y v))
      in \<lparr>lb_l = if \<bar>r\<bar> \<ge> SEPARATION_EPS then mw_atan2 (Y v) (X v) else 0,
          lb_b = if \<bar>Z v\<bar> \<ge> SEPARATION_EPS then mw_atan2 (Z v) r else 0\<rparr>)"

text \<open>\<open>RADec\<close> is a pair of right ascension and declination.\<close>

definition raDecToCartesian :: "real \<times> real \<Rightarrow> mwvector" where
  "raDecToCartesian raDec = (case raDec of (ra, dec) \<Rightarrow>
     \<lparr>X = cos ra * cos dec, Y = sin ra * cos dec, Z = sin dec\<rparr>)"

definition rmat :: mwmatrix where
  "rmat = (mw_vec (- 54875539726 / 10 ^ 12) (- 873437108010 / 10 ^ 12) (- 483834985808 / 10 ^ 12),
           mw_vec (494109453312 / 10 ^ 12) (- 444829589425 / 10 ^ 12) (746982251810 / 10 ^ 12),
           mw_vec (- 867666135858 / 10 ^ 12) (- 198076386122 / 10 ^ 12) (455983795705 / 10 ^ 12))"

definition lbToXyz :: "LB \<Rightarrow> mwvector" where
  "lbToXyz lb = \<lparr>X = cos (lb_l lb) * cos (lb_b lb), Y = sin (lb_l lb) * cos (lb_b lb), Z = sin (lb_b lb)\<rparr>"

definition xyzToRADec :: "real \<Rightarrow> real \<Rightarrow> real \<Rightarrow> real \<times> real" where
  "xyzToRADec x y z = (mw_atan2 y x + NODE_GC_COORDS_RAD, arcsin z)"

definition surveyToRADec :: "real \<Rightarrow> real \<Rightarrow> real \<times> real" where
  "surveyToRADec slong slat =
     (let etaPole = surveyCenterDec_rad;
          x = - sin slong;
          y = cos (slat + etaPole) * cos slong;
          z = sin (slat + etaPole) * cos slong
      in xyzToRADec x y z)"

definition surveyToLB :: "real \<Rightarrow> real \<Rightarrow> LB" where
  "surveyToLB slong slat =
     (let raDec = surveyToRADec slong slat;
          v1 = raDecToCartesian raDec;
          v2 = mw_mulmv rmat v1
      in cartesianToSpherical v2)"

definition atEtaFromStripeNumber_rad :: "int \<Rightarrow> real" where
  "atEtaFromStripeNumber_rad wedge =
     of_int wedge * d2r stripeSeparation - d2r (575 / 10) - (if wedge > 46 then pi else 0)"

definition atEtaFromStripeNumber_deg :: "int \<Rightarrow> real" where
  "atEtaFromStripeNumber_deg wedge =
     of_int wedge * stripeSeparation - 575 / 10 - (if wedge > 46 then 180 else 0)"

definition stripe_normal :: "int \<Rightarrow> mwvector" where
  "stripe_normal wedge =
     (let eta = atEtaFromStripeNumber_rad wedge in lbToXyz (surveyToLB 0 (pi / 2 + eta)))"

definition lbr2d :: "LB \<Rightarrow> LB" where
  "lbr2d lb = \<lparr>lb_l = r2d (lb_l lb), lb_b = r2d (lb_b lb)\<rparr>"

text \<open>The first part of \<open>gc2lb\<close>: the equatorial direction of a point of a stripe.\<close>

definition gc2equatorial :: "int \<Rightarrow> real \<Rightarrow> real \<Rightarrow> mwvector" where
  "gc2equatorial wedge mu nu =
     (let sinnu = sin (d2r nu); cosnu = cos (d2r nu);
          munode = mu - NODE_GC_COORDS;
          sinmunode = sin (d2r munode); cosmunode = cos (d2r munode);
          x_1_2 = cosmunode * cosnu;
          y_2 = sinmunode * cosnu;
          wedge_eta = atEtaFromStripeNumber_rad wedge;
          wedge_incl = wedge_eta + d2r surveyCenterDec;
          sininc = sin wedge_incl; cosinc = cos wedge_incl;
          y_1 = y_2 * cosinc - sinnu * sininc;
          z_1 = y_2 * sininc + sinnu * cosinc
      in case xyzToRADec x_1_2 y_1 z_1 of (ra, dec) \<Rightarrow>
           let sinra = sin ra; cosra = cos ra; cosdec = cos dec
           in \<lparr>X = cosra * cosdec, Y = sinra * cosdec, Z = z_1\<rparr>)"

definition gc2lb :: "int \<Rightarrow> real \<Rightarrow> real \<Rightarrow> LB" where
  "gc2lb wedge mu nu = lbr2d (cartesianToSpherical (mw_mulmv rmat (gc2equatorial wedge mu nu)))"

definition xyz2cyl :: "mwvector \<Rightarrow> mwvector" where
  "xyz2cyl xyz =
     (let r = sqrt (sqr (X xyz) + sqr (Y xyz)) in \<lparr>X = r, Y = arccos (X xyz / r), Z = Z xyz\<rparr>)"

text \<open>\<open>lb_trig\<close> of \<open>integrals.c\<close> and \<open>lbr2xyz_2\<close> of \<open>probabilities.c\<close>.\<close>

definition lb_trig :: "LB \<Rightarrow> LBTrig" where
  "lb_trig lb =
     (let ls = sin (d2r (lb_l lb)); lc = cos (d2r (lb_l lb));
          bs = sin (d2r (lb_b lb)); bCos = cos (d2r (lb_b lb))
      in \<lparr>lCosBCos = lc * bCos, lSinBCos = ls * bCos, bSin = bs\<rparr>)"

definition lbr2xyz_2 :: "AstronomyParameters \<Rightarrow> real \<Rightarrow> LBTrig \<Rightarrow> mwvector" where
  "lbr2xyz_2 ap rPoint lbt =
     \<lparr>X = rPoint * lCosBCos lbt + ap_m_sun_r0 ap, Y = rPoint * lSinBCos lbt, Z = rPoint * bSin lbt\<rparr>"

section \<open>Heliocentric coordinates\<close>

lemma lbr2xyz_simple:
  assumes "ap_sun_r0 ap \<noteq> 0"
  shows "lbr2xyz ap lbr = \<lparr>X = Z lbr * cos (d2r (Y lbr)) * cos (d2r (X lbr)) - ap_sun_r0 ap,
    Y = Z lbr * cos (d2r (Y lbr)) * sin (d2r (X lbr)), Z = Z lbr * sin (d2r (Y lbr))\<rparr>"
proof -
  define zp s c where "zp = Z lbr * cos (d2r (Y lbr))" and "s = ap_sun_r0 ap" and "c = cos (d2r (X lbr))"
  have "0 \<le> (s - zp * c)\<^sup>2 + zp\<^sup>2 * (1 - c\<^sup>2)"
    by (intro add_nonneg_nonneg mult_nonneg_nonneg) (simp_all add: c_def abs_square_le_1)
  also have "\<dots> = s * s + zp * zp - 2 * s * zp * c" by (simp add: power2_eq_square algebra_simps)
  finally have "sqrt (s * s + zp * zp - 2 * s * zp * c) * sqrt (s * s + zp * zp - 2 * s * zp * c)
      = s * s + zp * zp - 2 * s * zp * c" by simp
  moreover have "(zp * zp - s * s - (s * s + zp * zp - 2 * s * zp * c)) / (2 * s) = zp * c - s"
    using assms by (simp add: s_def field_simps)
  ultimately show ?thesis
    unfolding lbr2xyz_def Let_def zp_def[symmetric] s_def[symmetric] c_def[symmetric] by simp
qed

text \<open>The coordinates of the two programs and of the inner loop agree. For a Sun off the centre
  \<open>lbr2xyz\<close>, which goes by the law of cosines, is the conversion of the n-body program, the short form
  \<open>lbr2xyz_2\<close> with the precomputed products of \<open>lb_trig\<close> is the same map, and \<open>xyz2lbr\<close> is the n-body
  program's inverse, so that converting a point off the vertical through the Sun there and back
  gives the point.\<close>

theorem heliocentric_agree:
  assumes "ap_sun_r0 ap \<noteq> 0" "ap_m_sun_r0 ap = - ap_sun_r0 ap"
  shows "lbr2xyz ap lbr = lbrToCartesian lbr (ap_sun_r0 ap)
    \<and> lbr2xyz_2 ap (Z lbr) (lb_trig \<lparr>lb_l = X lbr, lb_b = Y lbr\<rparr>) = lbr2xyz ap lbr
    \<and> xyz2lbr ap p = cartesianToLbr p (ap_sun_r0 ap)
    \<and> (X p + ap_sun_r0 ap = 0 \<and> Y p = 0 \<or> lbr2xyz ap (xyz2lbr ap p) = p)"
proof -
  have a: "lbr2xyz ap lbr = lbrToCartesian lbr (ap_sun_r0 ap)" for lbr
    by (simp add: lbr2xyz_simple[OF assms(1)] lbrToCartesian_def lbrToCartesian_aux_def mult.commute mult.left_commute)
  have "r2d x < 0 \<longleftrightarrow> x < 0" for x by (simp add: r2d_def divide_less_0_iff mult_less_0_iff)
  moreover have "r2d (x + 2 * pi) = r2d x + 360" for x by (simp add: r2d_def field_simps)
  ultimately have b: "xyz2lbr ap p = cartesianToLbr p (ap_sun_r0 ap)"
    by (simp add: xyz2lbr_def cartesianToLbr_def cartesianToLbr_rad_def Let_def)
  show ?thesis
    using a b lbr_polar[of p "ap_sun_r0 ap"] assms(2)
    by (auto simp: lbr2xyz_2_def lb_trig_def Let_def lbr2xyz_simple[OF assms(1)] a lbrToCartesian_def
        cartesianToLbr_def lbrToCartesian_aux_def mult.assoc mult.commute mult.left_commute intro!: mwvector_eqI)
qed

definition sample_ap :: AstronomyParameters where
  "sample_ap = \<lparr>ap_currentWU = 0, ap_m_sun_r0 = - (85 / 10), ap_q_inv_sqr = 1, ap_r0 = 12, ap_convolve = 2,
     ap_number_streams = 1, ap_background_profile = FAST_HERNQUIST, ap_aux_bg_profile = False,
     ap_innerPower = 1, ap_outerPower = 1, ap_alpha_delta3 = 3, ap_bg_a = 0, ap_bg_b = 0, ap_bg_c = 0,
     ap_wedge = 10, ap_sun_r0 = 85 / 10, ap_q = 1, ap_modfit = False, ap_number_integrals = 1,
     ap_background_weight = 1 / 2, ap_thick_disk_weight = 1 / 2\<rparr>"

lemma sample_ap_sun: "ap_sun_r0 sample_ap = 17 / 2" "ap_m_sun_r0 sample_ap = - (17 / 2)"
  by (simp_all add: sample_ap_def)

theorem heliocentric_agree_witness:
  "lbr2xyz sample_ap (xyz2lbr sample_ap (mw_vec 1 2 3)) = mw_vec 1 2 3"
  using heliocentric_agree[of sample_ap ZERO_VECTOR "mw_vec 1 2 3"] by (auto simp: sample_ap_sun mw_vec_def)

section \<open>Stripes\<close>

text \<open>A direction of length 1 goes through right ascension and declination unchanged, but for the turn by
  the node of the great circles.\<close>

definition turn_node :: "mwvector \<Rightarrow> mwvector" where
  "turn_node v = (let c = cos NODE_GC_COORDS_RAD; s = sin NODE_GC_COORDS_RAD
     in \<lparr>X = X v * c - Y v * s, Y = X v * s + Y v * c, Z = Z v\<rparr>)"

lemma raDec_turn:
  assumes "x\<^sup>2 + y\<^sup>2 + z\<^sup>2 = 1"
  shows "raDecToCartesian (xyzToRADec x y z) = turn_node \<lparr>X = x, Y = y, Z = z\<rparr>"
proof -
  have z: "\<bar>z\<bar> \<le> 1" "sqrt (1 - z\<^sup>2) = sqrt (x\<^sup>2 + y\<^sup>2)"
    using assms by (auto simp: abs_square_le_1[symmetric] intro: arg_cong[where f = sqrt])
      (use sum_power2_ge_zero[of x y] in linarith)
  then have c: "cos (arcsin z) = sqrt (x\<^sup>2 + y\<^sup>2)" by (simp add: cos_arcsin abs_le_iff)
  have p: "sqrt (x\<^sup>2 + y\<^sup>2) * cos (mw_atan2 y x) = x" "sqrt (x\<^sup>2 + y\<^sup>2) * sin (mw_atan2 y x) = y"
    using atan2_polar[where x = x and y = y] by simp_all
  have "cos (A + N) * r = r * cos A * cos N - r * sin A * sin N"
    "sin (A + N) * r = r * cos A * sin N + r * sin A * cos N" for A N r :: real
    by (simp_all add: cos_add sin_add algebra_simps)
  from this[of "mw_atan2 y x" NODE_GC_COORDS_RAD "sqrt (x\<^sup>2 + y\<^sup>2)"]
  have "cos (mw_atan2 y x + NODE_GC_COORDS_RAD) * sqrt (x\<^sup>2 + y\<^sup>2) = x * cos NODE_GC_COORDS_RAD - y * sin NODE_GC_COORDS_RAD"
    "sin (mw_atan2 y x + NODE_GC_COORDS_RAD) * sqrt (x\<^sup>2 + y\<^sup>2) = x * sin NODE_GC_COORDS_RAD + y * cos NODE_GC_COORDS_RAD"
    unfolding p by simp_all
  then show ?thesis
    using z by (simp add: raDecToCartesian_def xyzToRADec_def turn_node_def Let_def c abs_le_iff)
qed

lemma turn_node_dot: "mw_dotv (turn_node u) (turn_node v) = mw_dotv u v"
proof -
  define c s where "c = cos NODE_GC_COORDS_RAD" and "s = sin NODE_GC_COORDS_RAD"
  have "c\<^sup>2 + s\<^sup>2 = 1" by (simp add: c_def s_def)
  then show ?thesis
    by (simp add: turn_node_def vec_defs c_def[symmetric] s_def[symmetric] Let_def) algebra
qed

text \<open>The inclination of a stripe.\<close>

definition stripe_incl :: "int \<Rightarrow> real" where
  "stripe_incl wedge = atEtaFromStripeNumber_rad wedge + d2r surveyCenterDec"

lemma gc2equatorial_turn:
  "gc2equatorial wedge mu nu =
    (let a = d2r (mu - NODE_GC_COORDS); n = d2r nu; i = stripe_incl wedge
     in turn_node \<lparr>X = cos a * cos n, Y = sin a * cos n * cos i - sin n * sin i, Z = sin a * cos n * sin i + sin n * cos i\<rparr>)"
proof -
  define a n i where "a = d2r (mu - NODE_GC_COORDS)" and "n = d2r nu" and "i = stripe_incl wedge"
  define x y z where "x = cos a * cos n" and "y = sin a * cos n * cos i - sin n * sin i"
    and "z = sin a * cos n * sin i + sin n * cos i"
  have "(cos a)\<^sup>2 + (sin a)\<^sup>2 = 1" "(cos n)\<^sup>2 + (sin n)\<^sup>2 = 1" "(cos i)\<^sup>2 + (sin i)\<^sup>2 = 1" by simp_all
  then have l: "x\<^sup>2 + y\<^sup>2 + z\<^sup>2 = 1" unfolding x_def y_def z_def by algebra
  then have z: "- 1 \<le> z" "z \<le> 1"
    using abs_square_le_1[of z] sum_power2_ge_zero[of x y] by (auto simp: abs_le_iff)
  have "gc2equatorial wedge mu nu = raDecToCartesian (xyzToRADec x y z)"
    using z by (simp add: gc2equatorial_def raDecToCartesian_def xyzToRADec_def Let_def a_def n_def i_def x_def y_def z_def
        stripe_incl_def)
  then show ?thesis using raDec_turn[OF l] by (simp add: x_def y_def z_def a_def n_def i_def Let_def)
qed

lemma stripe_pole_turn:
  "raDecToCartesian (surveyToRADec 0 (pi / 2 + atEtaFromStripeNumber_rad wedge))
    = turn_node \<lparr>X = 0, Y = - sin (stripe_incl wedge), Z = cos (stripe_incl wedge)\<rparr>"
proof -
  have e: "pi / 2 + atEtaFromStripeNumber_rad wedge + surveyCenterDec_rad = stripe_incl wedge + pi / 2"
    by (simp add: stripe_incl_def surveyCenterDec_rad_def)
  then have "surveyToRADec 0 (pi / 2 + atEtaFromStripeNumber_rad wedge)
      = xyzToRADec 0 (- sin (stripe_incl wedge)) (cos (stripe_incl wedge))"
    unfolding surveyToRADec_def Let_def e by (simp add: cos_add sin_add)
  then show ?thesis by (simp add: raDec_turn)
qed

text \<open>C20: the stripes are great circles. \<open>stripe_normal\<close> and \<open>gc2lb\<close> turn an equatorial direction by the
  same matrix into galactic coordinates; the direction \<open>gc2lb\<close> starts from has length 1, and its
  component along the direction \<open>stripe_normal\<close> starts from is the sine of \<open>nu\<close> for every \<open>mu\<close>: \<open>nu\<close> is
  the angular distance from the great circle of the stripe.\<close>

theorem stripe_great_circle:
  "\<exists>e n. gc2lb wedge mu nu = lbr2d (cartesianToSpherical (mw_mulmv rmat e))
    \<and> stripe_normal wedge = lbToXyz (cartesianToSpherical (mw_mulmv rmat n))
    \<and> mw_sqrv e = 1 \<and> mw_sqrv n = 1 \<and> mw_dotv e n = sin (d2r nu)"
proof (intro exI conjI)
  let ?e = "gc2equatorial wedge mu nu"
  let ?n = "raDecToCartesian (surveyToRADec 0 (pi / 2 + atEtaFromStripeNumber_rad wedge))"
  define a n i where "a = d2r (mu - NODE_GC_COORDS)" and "n = d2r nu" and "i = stripe_incl wedge"
  have t: "(cos a)\<^sup>2 + (sin a)\<^sup>2 = 1" "(cos n)\<^sup>2 + (sin n)\<^sup>2 = 1" "(cos i)\<^sup>2 + (sin i)\<^sup>2 = 1" by simp_all
  note e = gc2equatorial_turn[of wedge mu nu, folded a_def n_def i_def, unfolded Let_def]
  show "gc2lb wedge mu nu = lbr2d (cartesianToSpherical (mw_mulmv rmat ?e))" by (rule gc2lb_def)
  show "stripe_normal wedge = lbToXyz (cartesianToSpherical (mw_mulmv rmat ?n))"
    by (simp add: stripe_normal_def surveyToLB_def Let_def)
  let ?y = "sin a * cos n * cos i - sin n * sin i"
  let ?z = "sin a * cos n * sin i + sin n * cos i"
  have "?z * ?z + (?y * ?y + cos a * cos n * (cos a * cos n)) = 1" using t by algebra
  then show "mw_sqrv ?e = 1" unfolding e mw_sqrv_dot turn_node_dot by (simp only: mw_dotv_def mwvector.simps)
  have "cos i * cos i + (- sin i * - sin i + 0 * 0) = 1" using t(3) by algebra
  then show "mw_sqrv ?n = 1" unfolding stripe_pole_turn mw_sqrv_dot turn_node_dot i_def[symmetric]
    by (simp only: mw_dotv_def mwvector.simps)
  have "?z * cos i + (?y * - sin i + cos a * cos n * 0) = sin n" using t(3) by algebra
  then show "mw_dotv ?e ?n = sin (d2r nu)"
    unfolding e stripe_pole_turn turn_node_dot i_def[symmetric] n_def[symmetric] by (simp only: mw_dotv_def mwvector.simps)
qed

end
