(* ===== verification/Sep_Points.thy ===== *)
theory Sep_Points
  imports Sep_Coordinates "HOL-Library.Monad_Syntax"
begin

text \<open>
  \<open>r_points.c\<close>, \<open>calculated_constants.c\<close> and \<open>gauss_legendre.c\<close>: the points of the integration in
  distance and magnitude, and the constants that are calculated from the parameters.
\<close>

section \<open>Distances and magnitudes\<close>

definition mw_exp10 :: "real \<Rightarrow> real" where
  "mw_exp10 x = 10 powr x"

definition distance_magnitude :: "real \<Rightarrow> real" where
  "distance_magnitude m = mw_exp10 ((m - 142 / 10) * (2 / 10))"

definition calcRPrime :: "IntegralArea \<Rightarrow> nat \<Rightarrow> RPrime" where
  "calcRPrime ia r_step =
     (let log_r = ia_r_min ia + real r_step * ia_r_step_size ia;
          r = distance_magnitude log_r;
          next_r = distance_magnitude (log_r + ia_r_step_size ia)
      in \<lparr>rp_irv = d2r ((cube next_r - cube r) * (1 / 3) * ia_mu_step_size ia), rp_rPrime = 1 / 2 * (next_r + r)\<rparr>)"

definition calcReffXrRp3 :: "real \<Rightarrow> real \<Rightarrow> real" where
  "calcReffXrRp3 coords gPrime =
     (let exp_result = exp (16171 / 10000 * (gPrime - 235877 / 10000));
          reff_value = 9402 / 10000 / (exp_result + 1);
          rPrime3 = cube coords
      in reff_value / rPrime3)"

definition calc_r_point :: "real \<Rightarrow> real \<Rightarrow> RConsts \<Rightarrow> AstronomyParameters \<Rightarrow> RPoints" where
  "calc_r_point dx qgaus_W rc ap =
     (let stdev_i = stdev;
          g = rc_gPrime rc - dx;
          stdev_i = (if ap_modfit ap then (if dx \<le> 0 then 36 / 100 else rc_stdev_r rc) else stdev_i);
          r_pt = distance_magnitude g;
          r3 = cube r_pt;
          exponent = sqr (g - rc_gPrime rc) * mw_inv (2 * sqr stdev_i);
          N = rc_coeff rc * exp (- exponent)
      in \<lparr>r_point = r_pt, qw_r3_N = qgaus_W * r3 * N * rc_eps rc\<rparr>)"

text \<open>The curve fit of the modified turnoff distribution, and the part that \<open>calcRConstsLik\<close> and
  \<open>calcRConstsInt\<close> have in common.\<close>

definition curve_ay :: "real list" where
  "curve_ay = [561945007 / 10 ^ 6, - 167343282 / 10 ^ 7, 109325822 / 10 ^ 9, 134993610 / 10 ^ 11,
     - 142044161 / 10 ^ 13, 0, 0, 0]"

definition curve_ar :: "real list" where
  "curve_ar = [855878159 / 10 ^ 8, - 104891551 / 10 ^ 7, 351630757 / 10 ^ 8, - 229741062 / 10 ^ 9,
     672278105 / 10 ^ 11, - 101910181 / 10 ^ 12, 782787167 / 10 ^ 15, - 241452056 / 10 ^ 17]"

definition curve_eps :: "real \<Rightarrow> real" where
  "curve_eps tempr =
     (let c = (\<lambda>k. curve_ay ! k + curve_ar ! k)
      in (c 0 + c 1 * tempr + c 2 * sqr tempr + c 3 * cube tempr + c 4 * tempr ^ 4 + c 5 * tempr ^ 5
          + c 6 * tempr ^ 6 + c 7 * tempr ^ 7) / 532)"

definition rconsts_of :: "AstronomyParameters \<Rightarrow> real \<Rightarrow> real \<Rightarrow> RConsts" where
  "rconsts_of ap gPrime irv_reff_xr_rp3 =
     (let tempr = distance_magnitude gPrime;
          stdev_r = (if ap_modfit ap then 52 / 100 * mw_inv (1 + exp (12 - tempr)) + 76 / 100 else stdev);
          stdev_o = (if ap_modfit ap then 1 / 2 * (36 / 100 + stdev_r) else stdev_r);
          eps = (if ap_modfit ap then curve_eps tempr else 1)
      in \<lparr>rc_irv_reff_xr_rp3 = irv_reff_xr_rp3, rc_gPrime = gPrime, rc_coeff = 1 / (stdev_o * sqrt (2 * pi)),
          rc_stdev_r = stdev_r, rc_eps = eps\<rparr>)"

definition calcRConstsLik :: "real \<Rightarrow> AstronomyParameters \<Rightarrow> RConsts" where
  "calcRConstsLik coords ap = rconsts_of ap (calcG coords) 0"

definition calcRConstsInt :: "RPrime \<Rightarrow> AstronomyParameters \<Rightarrow> RConsts" where
  "calcRConstsInt rp ap =
     (let gPrime = calcG (rp_rPrime rp)
      in rconsts_of ap gPrime (rp_irv rp * calcReffXrRp3 (rp_rPrime rp) gPrime))"

definition setSplitRPoints :: "AstronomyParameters \<Rightarrow> StreamGauss \<Rightarrow> RConsts \<Rightarrow> real list \<times> real list" where
  "setSplitRPoints ap sg rc =
     (let rPts = map (\<lambda>i. calc_r_point (sg_dx sg ! i) (sg_W sg ! i) rc ap) [0..<ap_convolve ap]
      in (map r_point rPts, map qw_r3_N rPts))"

text \<open>In the order of the processor, step by step in the distance; the transposed order is for OpenCL.\<close>

definition precalculateRPts :: "AstronomyParameters \<Rightarrow> IntegralArea \<Rightarrow> StreamGauss \<Rightarrow> RPoints list \<times> RConsts list" where
  "precalculateRPts ap ia sg =
     (let rc = map (\<lambda>i. calcRConstsInt (calcRPrime ia i) ap) [0..<ia_r_steps ia]
      in (concat (map (\<lambda>i. map (\<lambda>j. calc_r_point (sg_dx sg ! j) (sg_W sg ! j) (rc ! i) ap) [0..<ap_convolve ap])
                    [0..<ia_r_steps ia]), rc))"

section \<open>Gauss-Legendre quadrature\<close>

text \<open>The values of the Legendre polynomials of degree \<open>n\<close> and \<open>n - 1\<close> by their recurrence.\<close>

definition legendre :: "nat \<Rightarrow> real \<Rightarrow> real \<times> real" where
  "legendre n z = fold (\<lambda>j (p1, p2). (((2 * real j - 1) * z * p1 - (real j - 1) * p2) / real j, p1)) [1..<n + 1] (1, 0)"

definition legendre_step :: "nat \<Rightarrow> real \<Rightarrow> real \<times> real" where
  "legendre_step n z =
     (case legendre n z of (p1, p2) \<Rightarrow>
        let pp = real n * (z * p1 - p2) / (z * z - 1) in (z - p1 / pp, pp))"

partial_function (option) legendre_root :: "nat \<Rightarrow> real \<Rightarrow> (real \<times> real) option" where
  "legendre_root n z1 =
     (let (z, pp) = legendre_step n z1
      in if \<bar>z - z1\<bar> > LEGENDRE_EPS then legendre_root n z else Some (z, pp))"

definition legendre_pair :: "real \<Rightarrow> real \<Rightarrow> nat \<Rightarrow> nat \<Rightarrow> real list \<times> real list \<Rightarrow> (real list \<times> real list) option" where
  "legendre_pair x1 x2 n i arrays =
     (let xm = 1 / 2 * (x2 + x1); xl = 1 / 2 * (x2 - x1); (x, w) = arrays
      in do { (z, pp) \<leftarrow> legendre_root n (cos (pi * (real i - 1 / 4) / (real n + 1 / 2)));
              let x = x[i - 1 := xm - xl * z, n - i := xm + xl * z];
              let wi = 2 * xl / ((1 - z * z) * pp * pp);
              Some (x, w[i - 1 := wi, n - i := wi]) })"

primrec legendre_pairs :: "real \<Rightarrow> real \<Rightarrow> nat \<Rightarrow> nat list \<Rightarrow> real list \<times> real list \<Rightarrow> (real list \<times> real list) option" where
  "legendre_pairs x1 x2 n [] arrays = Some arrays"
| "legendre_pairs x1 x2 n (i # js) arrays =
     do { arrays \<leftarrow> legendre_pair x1 x2 n i arrays; legendre_pairs x1 x2 n js arrays }"

definition gaussLegendre :: "real \<Rightarrow> real \<Rightarrow> nat \<Rightarrow> (real list \<times> real list) option" where
  "gaussLegendre x1 x2 n = legendre_pairs x1 x2 n [1..<(n + 1) div 2 + 1] (replicate n 0, replicate n 0)"

definition getStreamGauss :: "nat \<Rightarrow> StreamGauss option" where
  "getStreamGauss convolve =
     do { (qgaus_X, qgaus_W) \<leftarrow> gaussLegendre (- 1) 1 convolve;
          Some \<lparr>sg_dx = map (\<lambda>x. 3 * stdev * x) qgaus_X, sg_W = qgaus_W\<rparr> }"

section \<open>Constants from the parameters\<close>

definition streamA :: "StreamParameters \<Rightarrow> mwvector" where
  "streamA p = \<lparr>X = sin (sp_theta p) * cos (sp_phi p), Y = sin (sp_theta p) * sin (sp_phi p), Z = cos (sp_theta p)\<rparr>"

definition streamC :: "AstronomyParameters \<Rightarrow> int \<Rightarrow> real \<Rightarrow> real \<Rightarrow> mwvector" where
  "streamC ap wedge mu r = (let lb = gc2lb wedge mu 0 in lbr2xyz ap \<lparr>X = lb_l lb, Y = lb_b lb, Z = r\<rparr>)"

text \<open>\<open>True\<close> is the return value 1, an error.\<close>

definition setAstronomyParameters :: "AstronomyParameters \<Rightarrow> BackgroundParameters \<Rightarrow> bool \<times> AstronomyParameters" where
  "setAstronomyParameters ap bgp =
     (let ap = ap\<lparr>ap_innerPower := bp_innerPower bgp, ap_q := bp_q bgp, ap_r0 := 12,
                  ap_outerPower := bp_outerPower bgp, ap_q_inv_sqr := mw_inv (sqr (bp_q bgp)),
                  ap_aux_bg_profile := (bp_a bgp \<noteq> 0 \<or> bp_b bgp \<noteq> 0 \<or> bp_c bgp \<noteq> 0),
                  ap_bg_a := bp_a bgp, ap_bg_b := bp_b bgp, ap_bg_c := bp_c bgp\<rparr>
      in if ap_convolve ap = 0 \<or> ap_convolve ap > MAX_CONVOLVE \<or> odd (ap_convolve ap) then (True, ap)
         else if bp_epsilon bgp < 0 \<or> bp_epsilon bgp > 1 then (True, ap)
         else let ap = ap\<lparr>ap_background_weight := bp_epsilon bgp, ap_thick_disk_weight := 1 - bp_epsilon bgp\<rparr>;
                  ap = (if ap_background_profile ap \<noteq> BROKEN_POWER_LAW
                        then ap\<lparr>ap_alpha_delta3 := 3 - ap_innerPower ap + ap_outerPower ap,
                                ap_background_profile := (if ap_innerPower ap = 1 \<and> ap_outerPower ap = 1
                                                          then FAST_HERNQUIST else SLOW_HERNQUIST)\<rparr>
                        else ap\<lparr>ap_alpha_delta3 := ap_outerPower ap - ap_innerPower ap\<rparr>)
              in (False, ap\<lparr>ap_sun_r0 := const_sun_r0, ap_m_sun_r0 := - const_sun_r0\<rparr>))"

definition setExpStreamWeights :: "Streams \<Rightarrow> Streams" where
  "setExpStreamWeights streams =
     (let ps = map (\<lambda>p. p\<lparr>sp_epsilonExp := exp (sp_epsilon p)\<rparr>) (st_parameters streams)
      in \<lparr>st_parameters = ps, st_sumExpWeights = fold (\<lambda>p s. s + sp_epsilonExp p) ps 1 * (1 / 1000)\<rparr>)"

definition streamConstants_of :: "AstronomyParameters \<Rightarrow> StreamParameters \<Rightarrow> StreamConstants" where
  "streamConstants_of ap p =
     (let stream_sigma = sp_sigma p; sigma_sq2 = 2 * sqr stream_sigma
      in \<lparr>sc_a = streamA p, sc_c = streamC ap (ap_wedge ap) (sp_mu p) (sp_r p),
          sc_sigma_sq2_inv = 1 / sigma_sq2,
          sc_large_sigma = (stream_sigma > SIGMA_LIMIT \<or> stream_sigma < - SIGMA_LIMIT)\<rparr>)"

definition getStreamConstants :: "AstronomyParameters \<Rightarrow> Streams \<Rightarrow> StreamConstants list option" where
  "getStreamConstants ap streams =
     (if \<exists>p \<in> set (st_parameters streams). sp_sigma p = 0 then None
      else Some (map (streamConstants_of ap) (st_parameters streams)))"

definition calcNuStep :: "IntegralArea \<Rightarrow> nat \<Rightarrow> NuId" where
  "calcNuStep ia nu_step =
     (let nu = ia_nu_min ia + real nu_step * ia_nu_step_size ia;
          tmp1 = d2r (90 - nu - ia_nu_step_size ia);
          tmp2 = d2r (90 - nu)
      in \<lparr>nu_nu = nu + 1 / 2 * ia_nu_step_size ia, nu_id = cos tmp1 - cos tmp2\<rparr>)"

definition prepareNuConstants :: "nat \<Rightarrow> real \<Rightarrow> real \<Rightarrow> NuId list" where
  "prepareNuConstants nu_steps nu_step_size nu_min =
     map (\<lambda>i. let nu = nu_min + real i * nu_step_size;
                 tmp1 = d2r (90 - nu - nu_step_size); tmp2 = d2r (90 - nu)
             in \<lparr>nu_nu = nu + 1 / 2 * nu_step_size, nu_id = cos tmp1 - cos tmp2\<rparr>) [0..<nu_steps]"

section \<open>What they are good for\<close>

lemma distance_calcG: "0 < r \<Longrightarrow> distance_magnitude (calcG r) = r"
  and calcG_distance: "calcG (distance_magnitude g) = g"
proof -
  assume r: "0 < r"
  have "log 10 1000 = (3 :: real)" using log_nat_power[of 10 10 3] by simp
  then have "(calcG r - 142 / 10) * (2 / 10) = log 10 r"
    using r by (simp add: calcG_def absm_def log_mult)
  then show "distance_magnitude (calcG r) = r" using r by (simp add: distance_magnitude_def mw_exp10_def)
next
  have "log 10 1000 = (3 :: real)" using log_nat_power[of 10 10 3] by simp
  then show "calcG (distance_magnitude g) = g"
    by (simp add: calcG_def distance_magnitude_def mw_exp10_def absm_def log_mult diff_divide_distrib)
qed

lemma sum_steps: "(\<Sum>i<n. F (a + real i * h + h) - F (a + real i * h)) = F (a + real n * h) - (F a :: real)"
  by (induction n) (simp_all add: algebra_simps)

text \<open>C21: the conversion of magnitudes to kiloparsecs is undone by the one back, and the weights of the
  cells of an integral add up to the volume of the region exactly: over all steps in \<open>nu\<close>, \<open>mu\<close> and
  magnitude the products of \<open>id\<close> and \<open>irv\<close> give the volume between two spheres, two meridians and two
  parallels.\<close>

theorem integral_tiles_volume:
  "(\<forall>g. calcG (distance_magnitude g) = g) \<and>
   (\<Sum>i < ia_nu_steps ia. \<Sum>j < ia_mu_steps ia. \<Sum>k < ia_r_steps ia. nu_id (calcNuStep ia i) * rp_irv (calcRPrime ia k))
    = (sin (d2r (ia_nu_min ia + real (ia_nu_steps ia) * ia_nu_step_size ia)) - sin (d2r (ia_nu_min ia)))
      * d2r (real (ia_mu_steps ia) * ia_mu_step_size ia)
      * (distance_magnitude (ia_r_min ia + real (ia_r_steps ia) * ia_r_step_size ia) ^ 3
         - distance_magnitude (ia_r_min ia) ^ 3) / 3"
proof -
  have c: "cos (d2r (90 - x)) = sin (d2r x)" for x
    by (simp add: d2r_def cos_diff diff_divide_distrib left_diff_distrib)
  have "nu_id (calcNuStep ia i) = sin (d2r (ia_nu_min ia + real i * ia_nu_step_size ia + ia_nu_step_size ia))
      - sin (d2r (ia_nu_min ia + real i * ia_nu_step_size ia))" for i
    using c[of "ia_nu_min ia + real i * ia_nu_step_size ia"] c[of "ia_nu_min ia + real i * ia_nu_step_size ia + ia_nu_step_size ia"]
    by (simp add: calcNuStep_def Let_def diff_diff_eq)
  then have nu: "(\<Sum>i < ia_nu_steps ia. nu_id (calcNuStep ia i))
      = sin (d2r (ia_nu_min ia + real (ia_nu_steps ia) * ia_nu_step_size ia)) - sin (d2r (ia_nu_min ia))"
    using sum_steps[where F = "\<lambda>x. sin (d2r x)"] by simp
  let ?D = "\<lambda>x. d2r (ia_mu_step_size ia) / 3 * distance_magnitude x ^ 3"
  have "rp_irv (calcRPrime ia k) = ?D (ia_r_min ia + real k * ia_r_step_size ia + ia_r_step_size ia)
      - ?D (ia_r_min ia + real k * ia_r_step_size ia)" for k
    by (simp add: calcRPrime_def Let_def d2r_def power3_eq_cube field_simps)
  then have r: "(\<Sum>k < ia_r_steps ia. rp_irv (calcRPrime ia k))
      = ?D (ia_r_min ia + real (ia_r_steps ia) * ia_r_step_size ia) - ?D (ia_r_min ia)"
    using sum_steps[where F = ?D] by simp
  have "(\<Sum>i < ia_nu_steps ia. \<Sum>j < ia_mu_steps ia. \<Sum>k < ia_r_steps ia. nu_id (calcNuStep ia i) * rp_irv (calcRPrime ia k))
      = (\<Sum>i < ia_nu_steps ia. nu_id (calcNuStep ia i)) * (real (ia_mu_steps ia) * (\<Sum>k < ia_r_steps ia. rp_irv (calcRPrime ia k)))"
    by (simp add: sum_distrib_left[symmetric] sum_distrib_right[symmetric] algebra_simps)
  also have "real (ia_mu_steps ia) * (\<Sum>k < ia_r_steps ia. rp_irv (calcRPrime ia k))
      = d2r (real (ia_mu_steps ia) * ia_mu_step_size ia)
      * (distance_magnitude (ia_r_min ia + real (ia_r_steps ia) * ia_r_step_size ia) ^ 3
         - distance_magnitude (ia_r_min ia) ^ 3) / 3"
    unfolding r by (simp add: d2r_def field_simps)
  finally show ?thesis unfolding nu by (simp add: calcG_distance mult.assoc)
qed

end
