(* ===== verification/Sep_Probabilities.thy ===== *)
theory Sep_Probabilities
  imports Sep_Points
begin

text \<open>
  \<open>probabilities.c\<close> and the choice among its functions in \<open>probabilities_dispatch.c\<close>: the probabilities
  of the background and of each stream at one direction, summed over the points of the convolution
  in distance. The densities of the background, singular in the centre of the galaxy, are of type
  \<open>dbl\<close>. The variants with vector instructions compute the same sums and are left out.
\<close>

section \<open>Definitions\<close>

definition streamIncrement :: "StreamConstants \<Rightarrow> mwvector \<Rightarrow> real" where
  "streamIncrement sc xyz =
     (let xyzs = mw_subv xyz (sc_c sc);
          dotted = mw_dotv (sc_a sc) xyzs;
          xyzs = mw_subv xyzs (mw_mulvs (sc_a sc) dotted);
          xyz_norm = mw_sqrv xyzs
      in exp (- xyz_norm * sc_sigma_sq2_inv sc))"

definition streamSums :: "real list \<Rightarrow> StreamConstants list \<Rightarrow> mwvector \<Rightarrow> real \<Rightarrow> nat \<Rightarrow> real list" where
  "streamSums st_probs sc xyz qw nstreams =
     map (\<lambda>i. st_probs ! i + qw * streamIncrement (sc ! i) xyz) [0..<nstreams]"

definition hernquist_prob_fast :: "AstronomyParameters \<Rightarrow> real \<Rightarrow> real \<Rightarrow> dbl" where
  "hernquist_prob_fast ap qw rg =
     (let rs = rg + ap_r0 ap in Fin qw / (Fin rg * cube (Fin rs)))"

definition hernquist_prob_slow :: "AstronomyParameters \<Rightarrow> real \<Rightarrow> real \<Rightarrow> dbl" where
  "hernquist_prob_slow ap qw rg =
     (let rs = rg + ap_r0 ap
      in Fin qw / (dpow (Fin rg) (Fin (ap_innerPower ap)) * dpow (Fin rs) (Fin (ap_alpha_delta3 ap))))"

definition disk_prob_thick :: "real \<Rightarrow> mwvector \<Rightarrow> real" where
  "disk_prob_thick qw rtz =
     (let ls = - 285714286 / 10 ^ 9; hs = - 1428571429 / 10 ^ 9
      in qw * exp (X rtz * ls + \<bar>Z rtz\<bar> * hs))"

definition broken_power_law_prob :: "AstronomyParameters \<Rightarrow> real \<Rightarrow> real \<Rightarrow> dbl" where
  "broken_power_law_prob ap qw rg =
     (let n = ap_innerPower ap + (if rg \<ge> ap_r0 ap then 1 else 0) * ap_alpha_delta3 ap
      in Fin qw * dpow (Fin (ap_sun_r0 ap) / Fin rg) (Fin n))"

definition rg_calc :: "AstronomyParameters \<Rightarrow> mwvector \<Rightarrow> real" where
  "rg_calc ap xyz =
     (let tmp = sqr (X xyz);
          tmp = Y xyz * Y xyz + tmp;
          tmp = ap_q_inv_sqr ap * sqr (Z xyz) + tmp
      in sqrt tmp)"

definition aux_prob :: "AstronomyParameters \<Rightarrow> real \<Rightarrow> real \<Rightarrow> real" where
  "aux_prob ap qw r_in_mag = qw * (ap_bg_a ap * sqr r_in_mag + ap_bg_b ap * r_in_mag + ap_bg_c ap)"

text \<open>The loop of all three functions, over the points of the convolution; \<open>add_bg\<close> is what an iteration
  adds to the background.\<close>

definition convolve_sums :: "AstronomyParameters \<Rightarrow> StreamConstants list \<Rightarrow> real list \<Rightarrow> real list \<Rightarrow> LBTrig \<Rightarrow> real
    \<Rightarrow> (nat \<Rightarrow> mwvector \<Rightarrow> dbl \<Rightarrow> dbl) \<Rightarrow> dbl \<times> dbl list" where
  "convolve_sums ap sc rs qws lbt reff_xr_rp3 add_bg =
     (let n = ap_number_streams ap;
          (bg_prob, streamTmps) = fold (\<lambda>i (bg_prob, streamTmps).
              let xyz = lbr2xyz_2 ap (rs ! i) lbt
              in (add_bg i xyz bg_prob, streamSums streamTmps sc xyz (qws ! i) n)) [0..<ap_convolve ap] (0, replicate n 0)
      in (bg_prob * Fin reff_xr_rp3, map (\<lambda>s. Fin (s * reff_xr_rp3)) streamTmps))"

type_synonym probability_func =
  "AstronomyParameters \<Rightarrow> StreamConstants list \<Rightarrow> real list \<Rightarrow> real list \<Rightarrow> real list \<Rightarrow> LBTrig \<Rightarrow> real \<Rightarrow> real \<Rightarrow> dbl \<times> dbl list"

definition probabilities_fast_hprob :: probability_func where
  "probabilities_fast_hprob ap sc dxs rs qws lbt gPrime reff_xr_rp3 =
     convolve_sums ap sc rs qws lbt reff_xr_rp3 (\<lambda>i xyz bg_prob.
       let rtz = xyz2cyl xyz; rg = rg_calc ap xyz;
           h_prob = Fin (ap_background_weight ap) * hernquist_prob_fast ap (qws ! i) rg
                    + Fin (ap_thick_disk_weight ap * disk_prob_thick (qws ! i) rtz);
           h_prob = (if ap_aux_bg_profile ap
                     then let g = gPrime + dxs ! i in h_prob + Fin (ap_background_weight ap * aux_prob ap (qws ! i) g)
                     else h_prob)
       in bg_prob + h_prob)"

definition probabilities_slow_hprob :: probability_func where
  "probabilities_slow_hprob ap sc dxs rs qws lbt gPrime reff_xr_rp3 =
     convolve_sums ap sc rs qws lbt reff_xr_rp3 (\<lambda>i xyz bg_prob.
       let rtz = xyz2cyl xyz; rg = rg_calc ap xyz;
           bg_prob = bg_prob + (Fin (ap_background_weight ap) * hernquist_prob_slow ap (qws ! i) rg
                    + Fin (ap_thick_disk_weight ap * disk_prob_thick (qws ! i) rtz))
       in if ap_aux_bg_profile ap
          then let g = gPrime + dxs ! i in bg_prob + Fin (ap_background_weight ap * aux_prob ap (qws ! i) g)
          else bg_prob)"

definition probabilities_broken_power_law :: probability_func where
  "probabilities_broken_power_law ap sc dxs rs qws lbt gPrime reff_xr_rp3 =
     convolve_sums ap sc rs qws lbt reff_xr_rp3 (\<lambda>i xyz bg_prob.
       let rg = rg_calc ap xyz in bg_prob + broken_power_law_prob ap (qws ! i) rg)"

fun selectStandardFunction :: "background_profile \<Rightarrow> probability_func" where
  "selectStandardFunction SLOW_HERNQUIST = probabilities_slow_hprob"
| "selectStandardFunction FAST_HERNQUIST = probabilities_fast_hprob"
| "selectStandardFunction BROKEN_POWER_LAW = probabilities_broken_power_law"

section \<open>The fast and the slow form\<close>

lemma hernquist_fast_slow:
  assumes "ap_innerPower ap = 1" "ap_alpha_delta3 ap = 3" "0 \<le> rg" "0 < ap_r0 ap"
  shows "hernquist_prob_fast ap qw rg = hernquist_prob_slow ap qw rg"
proof -
  have "dpow (Fin rg) (Fin 1) = Fin rg" using assms(3) by (simp add: zero_dbl_def)
  moreover have "dpow (Fin (rg + ap_r0 ap)) (Fin 3) = cube (Fin (rg + ap_r0 ap))"
    using assms(3,4) by (simp add: power3_eq_cube)
  ultimately show ?thesis by (simp only: hernquist_prob_fast_def hernquist_prob_slow_def Let_def assms(1,2))
qed

text \<open>C22: the choice of the fast form is sound. Whenever \<open>setAstronomyParameters\<close> accepts the background
  and the standard function it leads to is the fast Hernquist one, that function gives the same
  probabilities as the slow one with general exponents, on every argument; the exponents chosen are
  those of the Hernquist profile, and the weights of halo and disk add up to 1.\<close>

theorem fast_hernquist_sound:
  assumes "setAstronomyParameters ap0 bgp = (False, ap)" "ap_background_profile ap = FAST_HERNQUIST"
    "ap_background_profile ap0 \<noteq> BROKEN_POWER_LAW"
  shows "selectStandardFunction (ap_background_profile ap) ap sc dxs rs qws lbt gPrime reff
      = probabilities_slow_hprob ap sc dxs rs qws lbt gPrime reff
    \<and> ap_innerPower ap = 1 \<and> ap_alpha_delta3 ap = 3
    \<and> ap_background_weight ap + ap_thick_disk_weight ap = 1 \<and> 0 \<le> ap_background_weight ap \<and> 0 \<le> ap_thick_disk_weight ap"
proof -
  have e: "ap_innerPower ap = 1" "ap_alpha_delta3 ap = 3" "0 < ap_r0 ap"
    "ap_background_weight ap + ap_thick_disk_weight ap = 1" "0 \<le> ap_background_weight ap" "0 \<le> ap_thick_disk_weight ap"
    using assms by (auto simp: setAstronomyParameters_def Let_def split: if_splits)
  have q: "ap_q_inv_sqr ap = 1 / sqr (ap_q ap)"
    using assms by (auto simp: setAstronomyParameters_def Let_def mw_inv_def split: if_splits)
  then have rg: "0 \<le> rg_calc ap xyz" for xyz
    by (simp add: rg_calc_def Let_def)
  have "selectStandardFunction (ap_background_profile ap) ap sc dxs rs qws lbt gPrime reff
      = probabilities_slow_hprob ap sc dxs rs qws lbt gPrime reff"
    unfolding assms(2) selectStandardFunction.simps probabilities_fast_hprob_def probabilities_slow_hprob_def
    by (cases "ap_aux_bg_profile ap") (simp_all add: hernquist_fast_slow[OF e(1,2) rg e(3)] Let_def dbl_add_assoc)
  then show ?thesis using e by simp
qed

theorem fast_hernquist_sound_witness:
  "ap_innerPower (snd (setAstronomyParameters sample_ap
       \<lparr>bp_innerPower = 1, bp_q = 1, bp_outerPower = 1, bp_epsilon = 1 / 4, bp_a = 0, bp_b = 0, bp_c = 1\<rparr>)) = 1"
  using fast_hernquist_sound[of sample_ap
      "\<lparr>bp_innerPower = 1, bp_q = 1, bp_outerPower = 1, bp_epsilon = 1 / 4, bp_a = 0, bp_b = 0, bp_c = 1\<rparr>"
      "snd (setAstronomyParameters sample_ap
       \<lparr>bp_innerPower = 1, bp_q = 1, bp_outerPower = 1, bp_epsilon = 1 / 4, bp_a = 0, bp_b = 0, bp_c = 1\<rparr>)"]
  by (simp add: setAstronomyParameters_def sample_ap_def Let_def MAX_CONVOLVE_def)

section \<open>The profile of a stream\<close>

lemma streamA_unit: "mw_dotv (streamA p) (streamA p) = 1"
proof -
  have "(sin (sp_theta p))\<^sup>2 + (cos (sp_theta p))\<^sup>2 = 1" "(sin (sp_phi p))\<^sup>2 + (cos (sp_phi p))\<^sup>2 = 1" by simp_all
  then have "cos (sp_theta p) * cos (sp_theta p) + (sin (sp_theta p) * sin (sp_phi p) * (sin (sp_theta p) * sin (sp_phi p))
      + sin (sp_theta p) * cos (sp_phi p) * (sin (sp_theta p) * cos (sp_phi p))) = 1"
    by algebra
  then show ?thesis by (simp add: streamA_def mw_dotv_def)
qed

text \<open>The square of the distance from a line.\<close>

lemma foot_of_perpendicular:
  assumes "mw_dotv a a = 1"
  shows "mw_sqrv (mw_subv v (mw_mulvs a t)) = mw_sqrv (mw_subv v (mw_mulvs a (mw_dotv a v))) + (t - mw_dotv a v)\<^sup>2"
  using assms unfolding mw_sqrv_def mw_subv_def mw_mulvs_def mw_dotv_def mwvector.simps by algebra

text \<open>C23: the density of a stream falls off with the distance from its axis as a Gaussian. For a point at
  distance \<open>d\<close> from the line through the centre of the stream in its direction the increment is
  \<open>exp (- d^2 / (2 sigma^2))\<close>.\<close>

theorem stream_is_gaussian_tube:
  assumes "getStreamConstants ap streams = Some sc" "i < List.length (st_parameters streams)"
  shows "\<exists>d. 0 \<le> d \<and> streamIncrement (sc ! i) xyz = exp (- d\<^sup>2 / (2 * (sp_sigma (st_parameters streams ! i))\<^sup>2))
    \<and> (\<exists>t. d = mw_distv xyz (mw_addv (sc_c (sc ! i)) (mw_mulvs (sc_a (sc ! i)) t)))
    \<and> (\<forall>t. d \<le> mw_distv xyz (mw_addv (sc_c (sc ! i)) (mw_mulvs (sc_a (sc ! i)) t)))"
proof -
  define p where "p = st_parameters streams ! i"
  have s: "sc ! i = streamConstants_of ap p"
    using assms by (auto simp: getStreamConstants_def p_def split: if_splits)
  define a c where "a = sc_a (sc ! i)" and "c = sc_c (sc ! i)"
  have a: "mw_dotv a a = 1" by (simp add: a_def s streamConstants_of_def Let_def streamA_unit)
  define v where "v = mw_subv xyz c"
  define d where "d = sqrt (mw_sqrv (mw_subv v (mw_mulvs a (mw_dotv a v))))"
  have dist: "mw_distv xyz (mw_addv c (mw_mulvs a t)) = sqrt (mw_sqrv (mw_subv v (mw_mulvs a t)))" for t
    by (simp add: mw_distv_subv mw_absv_def v_def vec_defs diff_diff_eq)
  have "mw_sqrv (mw_subv v (mw_mulvs a (mw_dotv a v))) = d\<^sup>2" by (simp add: d_def mw_sqrv_nonneg)
  then have "streamIncrement (sc ! i) xyz = exp (- d\<^sup>2 / (2 * (sp_sigma p)\<^sup>2))"
    unfolding streamIncrement_def Let_def a_def[symmetric] c_def[symmetric] v_def[symmetric]
    by (simp add: s streamConstants_of_def Let_def power2_eq_square)
  moreover have "d \<le> mw_distv xyz (mw_addv c (mw_mulvs a t))" for t
    unfolding dist d_def foot_of_perpendicular[OF a, of v t] by simp
  moreover have "d = mw_distv xyz (mw_addv c (mw_mulvs a (mw_dotv a v)))" by (simp add: dist d_def)
  moreover have "0 \<le> d" by (simp add: d_def mw_sqrv_nonneg)
  ultimately show ?thesis unfolding a_def c_def p_def by blast
qed

definition sample_streams :: Streams where
  "sample_streams = \<lparr>st_parameters = [\<lparr>sp_epsilon = 0, sp_mu = 200, sp_r = 20, sp_theta = 1, sp_phi = 2, sp_sigma = 3,
     sp_epsilonExp = 1\<rparr>], st_sumExpWeights = 2 / 1000\<rparr>"

theorem stream_is_gaussian_tube_witness:
  "\<exists>d. streamIncrement (streamConstants_of sample_ap (st_parameters sample_streams ! 0)) ZERO_VECTOR = exp (- d\<^sup>2 / 18)"
  using stream_is_gaussian_tube[of sample_ap sample_streams "map (streamConstants_of sample_ap) (st_parameters sample_streams)"
      0 ZERO_VECTOR]
  by (auto simp: getStreamConstants_def sample_streams_def)

end
