(* ===== verification/Sep_Integral.thy ===== *)
theory Sep_Integral
  imports Sep_Probabilities
begin

text \<open>
  \<open>evaluation_state.c\<close>, \<open>integrals.c\<close> and the integrals of \<open>evaluation.c\<close>: the state of an evaluation, its
  checkpoints, and the sums over stripes, steps along the stripe and distances. The function for the
  probabilities, a global pointer in the code, is an argument; so are the clock and the outcome of
  writing a file. A checkpoint file is a list of typed items; \<open>mw_fail\<close> is \<open>None\<close>.
\<close>

section \<open>State\<close>

record EvaluationState =
  es_currentWU :: nat
  es_WUPrinted :: bool
  es_cuts :: "Cut list"
  es_cut :: nat
  es_nu_step :: nat
  es_mu_step :: nat
  es_bgSum :: DKahan
  es_streamSums :: "DKahan list"
  es_bgSumCheckpoint :: DKahan
  es_streamSumsCheckpoint :: "DKahan list"
  es_bgTmp :: dbl
  es_streamTmps :: "dbl list"
  es_lastCheckpointNuStep :: nat
  es_current_calc_probs :: nat
  es_currentCut :: nat
  es_numberCuts :: nat
  es_numberStreams :: nat

definition integralsAreDone :: "EvaluationState \<Rightarrow> bool" where
  "integralsAreDone es \<longleftrightarrow> es_currentCut es \<ge> es_numberCuts es"

definition initializeCut :: "nat \<Rightarrow> Cut" where
  "initializeCut number_streams = \<lparr>bgIntegral = 0, streamIntegrals = replicate number_streams 0\<rparr>"

definition newEvaluationState :: "AstronomyParameters \<Rightarrow> EvaluationState" where
  "newEvaluationState ap =
     \<lparr>es_currentWU = ap_currentWU ap, es_WUPrinted = False,
      es_cuts = replicate (ap_number_integrals ap) (initializeCut (ap_number_streams ap)), es_cut = 0,
      es_nu_step = 0, es_mu_step = 0, es_bgSum = ZERO_DKAHAN,
      es_streamSums = replicate (ap_number_streams ap) ZERO_DKAHAN, es_bgSumCheckpoint = ZERO_DKAHAN,
      es_streamSumsCheckpoint = replicate (ap_number_streams ap) ZERO_DKAHAN, es_bgTmp = 0,
      es_streamTmps = replicate (ap_number_streams ap) 0, es_lastCheckpointNuStep = 0,
      es_current_calc_probs = 0, es_currentCut = 0, es_numberCuts = ap_number_integrals ap,
      es_numberStreams = ap_number_streams ap\<rparr>"

definition clearEvaluationStateTmpSums :: "EvaluationState \<Rightarrow> EvaluationState" where
  "clearEvaluationStateTmpSums es =
     es\<lparr>es_bgSum := ZERO_DKAHAN, es_streamSums := map (\<lambda>_. ZERO_DKAHAN) [0..<es_numberStreams es]\<rparr>"

definition addTmpCheckpointSums :: "EvaluationState \<Rightarrow> EvaluationState" where
  "addTmpCheckpointSums es =
     es\<lparr>es_bgSum := DKAHAN_REDUCTION (es_bgSum es) (es_bgSumCheckpoint es),
        es_streamSums := map (\<lambda>i. DKAHAN_REDUCTION (es_streamSums es ! i) (es_streamSumsCheckpoint es ! i)) [0..<es_numberStreams es],
        es_bgSumCheckpoint := ZERO_DKAHAN,
        es_streamSumsCheckpoint := map (\<lambda>_. ZERO_DKAHAN) [0..<es_numberStreams es]\<rparr>"

section \<open>Checkpoints\<close>

datatype checkpoint_item = TextI string | VersionI "int \<times> int" | NatI nat | BoolI bool
  | KahanI DKahan | KahansI "DKahan list" | RealI dbl | RealsI "dbl list"

type_synonym sep_checkpoint_file = "checkpoint_item list"

definition checkpoint_header :: string where "checkpoint_header = ''separation_checkpoint''"
definition checkpoint_tail :: string where "checkpoint_tail = ''end_checkpoint''"

definition versionMismatch :: "int \<times> int \<Rightarrow> int \<times> int \<Rightarrow> bool" where
  "versionMismatch ver v \<longleftrightarrow> fst v \<noteq> fst ver \<or> snd v \<noteq> snd ver"

definition writeState :: "int \<times> int \<Rightarrow> EvaluationState \<Rightarrow> sep_checkpoint_file" where
  "writeState ver es =
     [TextI checkpoint_header, VersionI ver, NatI (es_currentWU es), BoolI (es_WUPrinted es), NatI (es_currentCut es),
      NatI (es_nu_step es), NatI (es_mu_step es), KahanI (es_bgSum es), KahansI (es_streamSums es),
      NatI (es_lastCheckpointNuStep es), KahanI (es_bgSumCheckpoint es), KahansI (es_streamSumsCheckpoint es)]
     @ concat (map (\<lambda>c. [RealI (bgIntegral c), RealsI (streamIntegrals c)]) (es_cuts es))
     @ [TextI checkpoint_tail]"

text \<open>Reading fails without the right header, version, sizes or tail. The state that a failed reading
  leaves behind is not used any more.\<close>

fun readText where "readText (TextI t # f) = Some (t, f)" | "readText _ = None"
fun readVersion where "readVersion (VersionI v # f) = Some (v, f)" | "readVersion _ = None"
fun readNat where "readNat (NatI n # f) = Some (n, f)" | "readNat _ = None"
fun readBool where "readBool (BoolI b # f) = Some (b, f)" | "readBool _ = None"
fun readKahan where "readKahan (KahanI k # f) = Some (k, f)" | "readKahan _ = None"
fun readReal where "readReal (RealI x # f) = Some (x, f)" | "readReal _ = None"

fun readKahans :: "nat \<Rightarrow> sep_checkpoint_file \<Rightarrow> (DKahan list \<times> sep_checkpoint_file) option" where
  "readKahans n (KahansI ks # f) = (if List.length ks = n then Some (ks, f) else None)"
| "readKahans n _ = None"

fun readReals :: "nat \<Rightarrow> sep_checkpoint_file \<Rightarrow> (dbl list \<times> sep_checkpoint_file) option" where
  "readReals n (RealsI xs # f) = (if List.length xs = n then Some (xs, f) else None)"
| "readReals n _ = None"

primrec readCuts :: "nat \<Rightarrow> nat \<Rightarrow> sep_checkpoint_file \<Rightarrow> (Cut list \<times> sep_checkpoint_file) option" where
  "readCuts n 0 f = Some ([], f)"
| "readCuts n (Suc k) f =
     do { (bg, f) \<leftarrow> readReal f;
          (ss, f) \<leftarrow> readReals n f;
          (cs, f) \<leftarrow> readCuts n k f;
          Some (\<lparr>bgIntegral = bg, streamIntegrals = ss\<rparr> # cs, f) }"

definition readState :: "int \<times> int \<Rightarrow> sep_checkpoint_file \<Rightarrow> EvaluationState \<Rightarrow> EvaluationState option" where
  "readState ver f es =
     do { (h, f) \<leftarrow> readText f;
          (if h \<noteq> checkpoint_header then None else Some ());
          (v, f) \<leftarrow> readVersion f;
          (if versionMismatch ver v then None else Some ());
          (wu, f) \<leftarrow> readNat f;
          (printed, f) \<leftarrow> readBool f;
          (cc, f) \<leftarrow> readNat f;
          (nu, f) \<leftarrow> readNat f;
          (mu, f) \<leftarrow> readNat f;
          (bg, f) \<leftarrow> readKahan f;
          (ss, f) \<leftarrow> readKahans (es_numberStreams es) f;
          (lastNu, f) \<leftarrow> readNat f;
          (bgC, f) \<leftarrow> readKahan f;
          (ssC, f) \<leftarrow> readKahans (es_numberStreams es) f;
          (cs, f) \<leftarrow> readCuts (es_numberStreams es) (es_numberCuts es) f;
          (t, f) \<leftarrow> readText f;
          if t \<noteq> checkpoint_tail then None
          else Some (es\<lparr>es_currentWU := wu, es_WUPrinted := printed, es_currentCut := cc, es_nu_step := nu,
                        es_mu_step := mu, es_bgSum := bg, es_streamSums := ss, es_lastCheckpointNuStep := lastNu,
                        es_bgSumCheckpoint := bgC, es_streamSumsCheckpoint := ssC, es_cuts := cs\<rparr>) }"

definition readCheckpoint :: "int \<times> int \<Rightarrow> sep_checkpoint_file \<Rightarrow> EvaluationState \<Rightarrow> EvaluationState option" where
  "readCheckpoint ver file es = map_option addTmpCheckpointSums (readState ver file es)"

text \<open>The world: how often the clock was asked and a file written, and the checkpoint files written, the
  newest first: the first one is the file on disk.\<close>

datatype write_outcome = Written | OpenFails | RenameFails

record SepEnv =
  env_version :: "int \<times> int"
  env_due :: "nat \<Rightarrow> bool"
  env_write :: "nat \<Rightarrow> write_outcome"

record SepWorld =
  sw_calls :: nat
  sw_writes :: nat
  sw_files :: "sep_checkpoint_file list"

definition writeCheckpoint :: "SepEnv \<Rightarrow> EvaluationState \<times> SepWorld \<Rightarrow> bool \<times> EvaluationState \<times> SepWorld" where
  "writeCheckpoint env = (\<lambda>(es, w0).
     let w = w0\<lparr>sw_writes := sw_writes w0 + 1\<rparr>
     in case env_write env (sw_writes w0) of
       OpenFails \<Rightarrow> (True, es, w)
     | RenameFails \<Rightarrow> (True, es\<lparr>es_lastCheckpointNuStep := es_nu_step es\<rparr>, w)
     | Written \<Rightarrow> let es = es\<lparr>es_lastCheckpointNuStep := es_nu_step es\<rparr>
                  in (False, es, w\<lparr>sw_files := writeState (env_version env) es # sw_files w\<rparr>))"

definition doBoincCheckpoint :: "SepEnv \<Rightarrow> EvaluationState \<times> SepWorld \<Rightarrow> (EvaluationState \<times> SepWorld) option" where
  "doBoincCheckpoint env = (\<lambda>(es, w).
     let w = w\<lparr>sw_calls := sw_calls w + 1\<rparr>
     in if env_due env (sw_calls w)
        then case writeCheckpoint env (es, w) of (failed, es, w) \<Rightarrow> if failed then None else Some (es, w)
        else Some (es, w))"

section \<open>Sums\<close>

text \<open>What the loops of one integral share.\<close>

record Integrand =
  in_pf :: probability_func
  in_ap :: AstronomyParameters
  in_ia :: IntegralArea
  in_sc :: "StreamConstants list"
  in_dx :: "real list"
  in_rc :: "RConsts list"
  in_rPoints :: "real list"
  in_qw :: "real list"

definition initRPoints :: "probability_func \<Rightarrow> AstronomyParameters \<Rightarrow> IntegralArea \<Rightarrow> StreamConstants list \<Rightarrow> StreamGauss \<Rightarrow> Integrand" where
  "initRPoints pf ap ia sc sg =
     (case precalculateRPts ap ia sg of (rPts, rc) \<Rightarrow>
        \<lparr>in_pf = pf, in_ap = ap, in_ia = ia, in_sc = sc, in_dx = sg_dx sg, in_rc = rc,
         in_rPoints = map r_point rPts, in_qw = map qw_r3_N rPts\<rparr>)"

definition sumProbs :: "EvaluationState \<Rightarrow> EvaluationState" where
  "sumProbs es =
     es\<lparr>es_bgSum := DKAHAN_ADD (es_bgSum es) (es_bgTmp es),
        es_streamSums := map (\<lambda>i. DKAHAN_ADD (es_streamSums es ! i) (es_streamTmps es ! i)) [0..<es_numberStreams es]\<rparr>"

definition probabilities_at :: "Integrand \<Rightarrow> LBTrig \<Rightarrow> real \<Rightarrow> nat \<Rightarrow> dbl \<times> dbl list" where
  "probabilities_at c lbt nid r_step =
     (let reff_xr_rp3 = nid * rc_irv_reff_xr_rp3 (in_rc c ! r_step); n = ap_convolve (in_ap c)
      in in_pf c (in_ap c) (in_sc c) (in_dx c) (take n (drop (r_step * n) (in_rPoints c)))
           (take n (drop (r_step * n) (in_qw c))) lbt (rc_gPrime (in_rc c ! r_step)) reff_xr_rp3)"

definition r_sum :: "Integrand \<Rightarrow> LBTrig \<Rightarrow> real \<Rightarrow> EvaluationState \<Rightarrow> EvaluationState" where
  "r_sum c lbt nid es = fold (\<lambda>r_step es.
     case probabilities_at c lbt nid r_step of (bg, ss) \<Rightarrow> sumProbs (es\<lparr>es_bgTmp := bg, es_streamTmps := ss\<rparr>))
     [0..<ia_r_steps (in_ia c)] es"

definition mu_step_sums :: "Integrand \<Rightarrow> NuId \<Rightarrow> EvaluationState \<Rightarrow> EvaluationState" where
  "mu_step_sums c nuid es =
     (let mu = ia_mu_min (in_ia c) + (real (es_mu_step es) + 1 / 2) * ia_mu_step_size (in_ia c);
          lb = gc2lb (ap_wedge (in_ap c)) mu (nu_nu nuid);
          lbt = lb_trig lb
      in r_sum c lbt (nu_id nuid) es)"

lemma fold_frame: "(\<And>x s. f (g x s) = f s) \<Longrightarrow> f (fold g xs s) = f s"
  by (induction xs arbitrary: s) simp_all

lemma r_sum_frame [frame_simps]:
  "es_mu_step (r_sum c lbt nid es) = es_mu_step es" "es_nu_step (r_sum c lbt nid es) = es_nu_step es"
  "es_numberStreams (r_sum c lbt nid es) = es_numberStreams es" "es_numberCuts (r_sum c lbt nid es) = es_numberCuts es"
  "es_cuts (r_sum c lbt nid es) = es_cuts es" "es_cut (r_sum c lbt nid es) = es_cut es"
  "es_currentCut (r_sum c lbt nid es) = es_currentCut es" "es_bgSumCheckpoint (r_sum c lbt nid es) = es_bgSumCheckpoint es"
  "es_streamSumsCheckpoint (r_sum c lbt nid es) = es_streamSumsCheckpoint es"
  "es_WUPrinted (r_sum c lbt nid es) = es_WUPrinted es" "es_currentWU (r_sum c lbt nid es) = es_currentWU es"
  unfolding r_sum_def by (rule fold_frame; simp add: sumProbs_def split_beta)+

lemma mu_step_sums_frame [frame_simps]:
  "es_mu_step (mu_step_sums c nuid es) = es_mu_step es" "es_nu_step (mu_step_sums c nuid es) = es_nu_step es"
  "es_numberStreams (mu_step_sums c nuid es) = es_numberStreams es" "es_numberCuts (mu_step_sums c nuid es) = es_numberCuts es"
  "es_cuts (mu_step_sums c nuid es) = es_cuts es" "es_cut (mu_step_sums c nuid es) = es_cut es"
  "es_currentCut (mu_step_sums c nuid es) = es_currentCut es" "es_bgSumCheckpoint (mu_step_sums c nuid es) = es_bgSumCheckpoint es"
  "es_streamSumsCheckpoint (mu_step_sums c nuid es) = es_streamSumsCheckpoint es"
  "es_WUPrinted (mu_step_sums c nuid es) = es_WUPrinted es" "es_currentWU (mu_step_sums c nuid es) = es_currentWU es"
  by (simp_all add: mu_step_sums_def Let_def frame_simps)

lemma doBoincCheckpoint_frame:
  assumes "doBoincCheckpoint env (es, w) = Some (es', w')"
  shows "\<exists>k. es' = es\<lparr>es_lastCheckpointNuStep := k\<rparr>"
    "sw_files w' = sw_files w \<or> sw_files w' = writeState (env_version env) es' # sw_files w"
proof -
  have "es\<lparr>es_lastCheckpointNuStep := es_lastCheckpointNuStep es\<rparr> = es" by simp
  then show "\<exists>k. es' = es\<lparr>es_lastCheckpointNuStep := k\<rparr>"
    "sw_files w' = sw_files w \<or> sw_files w' = writeState (env_version env) es' # sw_files w"
    using assms by (auto simp: doBoincCheckpoint_def writeCheckpoint_def Let_def
        split: if_splits prod.splits write_outcome.splits intro: exI[of _ "es_nu_step es"] exI[of _ "es_lastCheckpointNuStep es"])
qed

function mu_sum :: "SepEnv \<Rightarrow> Integrand \<Rightarrow> NuId \<Rightarrow> EvaluationState \<times> SepWorld \<Rightarrow> (EvaluationState \<times> SepWorld) option" where
  "mu_sum env c nuid (es, w) =
     (if es_mu_step es < ia_mu_steps (in_ia c)
      then case doBoincCheckpoint env (es, w) of
             None \<Rightarrow> None
           | Some (es, w) \<Rightarrow> mu_sum env c nuid ((mu_step_sums c nuid es)\<lparr>es_mu_step := es_mu_step es + 1\<rparr>, w)
      else Some (es\<lparr>es_mu_step := 0\<rparr>, w))"
  by pat_completeness auto
termination
proof (relation "measure (\<lambda>(_, c, _, es, _). ia_mu_steps (in_ia c) - es_mu_step es)")
  fix env and c :: Integrand and nuid and es :: EvaluationState and w x and es' :: EvaluationState and w'
  assume "es_mu_step es < ia_mu_steps (in_ia c)" "doBoincCheckpoint env (es, w) = Some x" "(es', w') = x"
  then show "((env, c, nuid, (mu_step_sums c nuid es')\<lparr>es_mu_step := es_mu_step es' + 1\<rparr>, w'), env, c, nuid, es, w)
      \<in> measure (\<lambda>(_, c, _, es, _). ia_mu_steps (in_ia c) - es_mu_step es)"
    using doBoincCheckpoint_frame(1)[of env es w es' w'] by auto
qed simp

declare mu_sum.simps [simp del]

text \<open>What the sums leave alone.\<close>

definition same_frame :: "EvaluationState \<Rightarrow> EvaluationState \<Rightarrow> bool" where
  "same_frame es es' \<longleftrightarrow> es_numberStreams es' = es_numberStreams es \<and> es_numberCuts es' = es_numberCuts es
     \<and> es_cuts es' = es_cuts es \<and> es_cut es' = es_cut es \<and> es_currentCut es' = es_currentCut es
     \<and> es_bgSumCheckpoint es' = es_bgSumCheckpoint es \<and> es_streamSumsCheckpoint es' = es_streamSumsCheckpoint es
     \<and> es_WUPrinted es' = es_WUPrinted es \<and> es_currentWU es' = es_currentWU es"

lemma mu_sum_frame:
  "mu_sum env c nuid (es, w) = Some (es', w') \<Longrightarrow> same_frame es es' \<and> es_nu_step es' = es_nu_step es \<and> es_mu_step es' = 0"
proof (induction env c nuid "(es, w)" arbitrary: es w rule: mu_sum.induct)
  case (1 env c nuid es w)
  show ?case
  proof (cases "es_mu_step es < ia_mu_steps (in_ia c)")
    case True
    then obtain es1 w1 where d: "doBoincCheckpoint env (es, w) = Some (es1, w1)"
      using "1.prems" by (auto simp: mu_sum.simps[of env c nuid es w] split: option.splits)
    then have "mu_sum env c nuid ((mu_step_sums c nuid es1)\<lparr>es_mu_step := es_mu_step es1 + 1\<rparr>, w1) = Some (es', w')"
      using "1.prems" True by (simp add: mu_sum.simps[of env c nuid es w])
    with "1.hyps"[OF True d refl] obtain "same_frame ((mu_step_sums c nuid es1)\<lparr>es_mu_step := es_mu_step es1 + 1\<rparr>) es'"
      "es_nu_step es' = es_nu_step (mu_step_sums c nuid es1)" "es_mu_step es' = 0" by auto
    then show ?thesis using doBoincCheckpoint_frame(1)[OF d] by (auto simp: same_frame_def frame_simps)
  next
    case False
    then show ?thesis using "1.prems" by (auto simp: mu_sum.simps[of env c nuid es w] same_frame_def)
  qed
qed

function nuSum :: "SepEnv \<Rightarrow> Integrand \<Rightarrow> EvaluationState \<times> SepWorld \<Rightarrow> (EvaluationState \<times> SepWorld) option" where
  "nuSum env c (es, w) =
     (if es_nu_step es < ia_nu_steps (in_ia c)
      then let nuid = calcNuStep (in_ia c) (es_nu_step es)
           in case mu_sum env c nuid (es, w) of
                None \<Rightarrow> None
              | Some (es, w) \<Rightarrow> nuSum env c (es\<lparr>es_nu_step := es_nu_step es + 1\<rparr>, w)
      else Some (es\<lparr>es_nu_step := 0\<rparr>, w))"
  by pat_completeness auto
termination
proof (relation "measure (\<lambda>(_, c, es, _). ia_nu_steps (in_ia c) - es_nu_step es)")
  fix env and c :: Integrand and es :: EvaluationState and w nuid x and es' :: EvaluationState and w'
  assume "es_nu_step es < ia_nu_steps (in_ia c)" "nuid = calcNuStep (in_ia c) (es_nu_step es)"
    "mu_sum env c nuid (es, w) = Some x" "(es', w') = x"
  then show "((env, c, es'\<lparr>es_nu_step := es_nu_step es' + 1\<rparr>, w'), env, c, es, w)
      \<in> measure (\<lambda>(_, c, es, _). ia_nu_steps (in_ia c) - es_nu_step es)"
    using mu_sum_frame[of env c nuid es w es' w'] by auto
qed simp

declare nuSum.simps [simp del]

lemma nuSum_frame:
  "nuSum env c (es, w) = Some (es', w') \<Longrightarrow> same_frame es es' \<and> es_nu_step es' = 0"
proof (induction env c "(es, w)" arbitrary: es w rule: nuSum.induct)
  case (1 env c es w)
  show ?case
  proof (cases "es_nu_step es < ia_nu_steps (in_ia c)")
    case True
    let ?nuid = "calcNuStep (in_ia c) (es_nu_step es)"
    obtain es1 w1 where d: "mu_sum env c ?nuid (es, w) = Some (es1, w1)"
      using "1.prems" True by (auto simp: nuSum.simps[of env c es w] Let_def split: option.splits)
    then have "nuSum env c (es1\<lparr>es_nu_step := es_nu_step es1 + 1\<rparr>, w1) = Some (es', w')"
      using "1.prems" True by (simp add: nuSum.simps[of env c es w])
    with "1.hyps"[OF True refl d refl] have "same_frame (es1\<lparr>es_nu_step := es_nu_step es1 + 1\<rparr>) es' \<and> es_nu_step es' = 0" .
    then show ?thesis using mu_sum_frame[OF d] by (auto simp: same_frame_def)
  next
    case False
    then show ?thesis using "1.prems" by (auto simp: nuSum.simps[of env c es w] same_frame_def)
  qed
qed

definition separationIntegralGetSums :: "EvaluationState \<Rightarrow> EvaluationState" where
  "separationIntegralGetSums es =
     es\<lparr>es_cuts := (es_cuts es)[es_cut es := \<lparr>bgIntegral = dk_sum (es_bgSum es),
          streamIntegrals = map (\<lambda>i. dk_sum (es_streamSums es ! i)) [0..<es_numberStreams es]\<rparr>]\<rparr>"

definition integrate :: "SepEnv \<Rightarrow> probability_func \<Rightarrow> AstronomyParameters \<Rightarrow> IntegralArea \<Rightarrow> StreamConstants list \<Rightarrow> StreamGauss
    \<Rightarrow> EvaluationState \<times> SepWorld \<Rightarrow> (bool \<times> EvaluationState \<times> SepWorld) option" where
  "integrate env pf ap ia sc sg = (\<lambda>(es, w).
     if ap_q ap = 0
     then Some (True, es\<lparr>es_cuts := (es_cuts es)[es_cut es := (es_cuts es ! es_cut es)
            \<lparr>bgIntegral := Fin (- 1 * real (ia_nu_steps ia) * real (ia_mu_steps ia) * real (ia_r_steps ia))\<rparr>]\<rparr>, w)
     else case nuSum env (initRPoints pf ap ia sc sg) (es, w) of
            None \<Rightarrow> None
          | Some (es, w) \<Rightarrow> Some (False, separationIntegralGetSums es, w))"

section \<open>All integrals\<close>

definition completedIntegralProgress :: "IntegralArea list \<Rightarrow> EvaluationState \<Rightarrow> nat" where
  "completedIntegralProgress ias es =
     fold (\<lambda>i n. n + ia_r_steps (ias ! i) * ia_mu_steps (ias ! i) * ia_nu_steps (ias ! i)) [0..<es_currentCut es] 0"

definition cleanStreamIntegrals :: "StreamConstants list \<Rightarrow> nat \<Rightarrow> dbl list \<Rightarrow> dbl list" where
  "cleanStreamIntegrals sc number_streams xs =
     map (\<lambda>i. if \<not> sc_large_sigma (sc ! i) then 0 else xs ! i) [0..<number_streams]"

lemma integrate_frame:
  assumes "integrate env pf ap ia sc sg (es, w) = Some (rc, es', w')"
  shows "es_currentCut es' = es_currentCut es \<and> es_numberCuts es' = es_numberCuts es
    \<and> es_numberStreams es' = es_numberStreams es \<and> es_cut es' = es_cut es"
  using assms nuSum_frame[of env "initRPoints pf ap ia sc sg" es w]
  by (auto simp: integrate_def separationIntegralGetSums_def same_frame_def split: if_splits option.splits)

function calculateIntegrals :: "SepEnv \<Rightarrow> probability_func \<Rightarrow> AstronomyParameters \<Rightarrow> IntegralArea list \<Rightarrow> StreamConstants list
    \<Rightarrow> StreamGauss \<Rightarrow> EvaluationState \<times> SepWorld \<Rightarrow> (bool \<times> EvaluationState \<times> SepWorld) option" where
  "calculateIntegrals env pf ap ias sc sg (es, w) =
     (if es_currentCut es < es_numberCuts es
      then let ia = ias ! es_currentCut es;
               es1 = es\<lparr>es_cut := es_currentCut es\<rparr>;
               es2 = es1\<lparr>es_current_calc_probs := completedIntegralProgress ias es1\<rparr>
           in case integrate env pf ap ia sc sg (es2, w) of
                None \<Rightarrow> None
              | Some (rc, es, w) \<Rightarrow>
                  (let k = es_cut es; cut = es_cuts es ! k
                   in if rc \<or> isnan (bgIntegral cut) then Some (True, es, w)
                      else let es = es\<lparr>es_cuts := (es_cuts es)[k := cut
                                        \<lparr>streamIntegrals := cleanStreamIntegrals sc (ap_number_streams ap) (streamIntegrals cut)\<rparr>]\<rparr>;
                               es = clearEvaluationStateTmpSums es
                           in calculateIntegrals env pf ap ias sc sg (es\<lparr>es_currentCut := es_currentCut es + 1\<rparr>, w))
      else Some (False, es, w))"
  by pat_completeness auto
termination
  by (relation "measure (\<lambda>(_, _, _, _, _, _, es, _). es_numberCuts es - es_currentCut es)")
    (auto simp: clearEvaluationStateTmpSums_def dest!: integrate_frame)

declare calculateIntegrals.simps [simp del]

text \<open>The area left after the cuts are taken out of the first integral.\<close>

definition getFinalIntegrals :: "EvaluationState \<Rightarrow> nat \<Rightarrow> nat \<Rightarrow> dbl \<times> dbl list" where
  "getFinalIntegrals es number_streams number_integrals =
     (let c0 = es_cuts es ! 0
      in fold (\<lambda>i (bg, ss). let c = es_cuts es ! i
                  in (bg - bgIntegral c, map (\<lambda>j. ss ! j - streamIntegrals c ! j) [0..<number_streams]))
           [1..<number_integrals] (bgIntegral c0, map (\<lambda>j. streamIntegrals c0 ! j) [0..<number_streams]))"

end
