(* ===== verification/Sep_IntegralProps.thy ===== *)
theory Sep_IntegralProps
  imports Sep_Integral
begin

text \<open>
  The integrals are the sums over their cells, and an evaluation that is interrupted and resumed from
  any of its checkpoints comes to the same integrals.
\<close>

section \<open>The sums over the cells\<close>

text \<open>The probabilities at a cell, and what is summed of them.\<close>

definition cell_probs :: "Integrand \<Rightarrow> nat \<Rightarrow> nat \<Rightarrow> nat \<Rightarrow> dbl \<times> dbl list" where
  "cell_probs c i j r =
     (let ia = in_ia c; nuid = calcNuStep ia i;
          lb = gc2lb (ap_wedge (in_ap c)) (ia_mu_min ia + (real j + 1 / 2) * ia_mu_step_size ia) (nu_nu nuid)
      in probabilities_at c (lb_trig lb) (nu_id nuid) r)"

definition finite_cells :: "nat \<Rightarrow> Integrand \<Rightarrow> bool" where
  "finite_cells n c \<longleftrightarrow> (\<forall>i < ia_nu_steps (in_ia c). \<forall>j < ia_mu_steps (in_ia c). \<forall>r < ia_r_steps (in_ia c).
     \<exists>b ss. cell_probs c i j r = (Fin b, map Fin ss) \<and> List.length ss = n)"

definition bg_at :: "Integrand \<Rightarrow> nat \<Rightarrow> nat \<Rightarrow> nat \<Rightarrow> real" where
  "bg_at c i j r = dval (fst (cell_probs c i j r))"

definition stream_at :: "Integrand \<Rightarrow> nat \<Rightarrow> nat \<Rightarrow> nat \<Rightarrow> nat \<Rightarrow> real" where
  "stream_at c k i j r = dval (snd (cell_probs c i j r) ! k)"

text \<open>The sum over the cells before a position, and over all.\<close>

definition sum_before :: "Integrand \<Rightarrow> (nat \<Rightarrow> nat \<Rightarrow> nat \<Rightarrow> real) \<Rightarrow> nat \<Rightarrow> nat \<Rightarrow> real" where
  "sum_before c f nu mu = (\<Sum>i<nu. \<Sum>j<ia_mu_steps (in_ia c). \<Sum>r<ia_r_steps (in_ia c). f i j r)
     + (\<Sum>j<mu. \<Sum>r<ia_r_steps (in_ia c). f nu j r)"

definition sum_cells :: "Integrand \<Rightarrow> (nat \<Rightarrow> nat \<Rightarrow> nat \<Rightarrow> real) \<Rightarrow> real" where
  "sum_cells c f = (\<Sum>i<ia_nu_steps (in_ia c). \<Sum>j<ia_mu_steps (in_ia c). \<Sum>r<ia_r_steps (in_ia c). f i j r)"

lemma sum_before_steps:
  "sum_before c f 0 0 = 0"
  "sum_before c f nu (Suc mu) = sum_before c f nu mu + (\<Sum>r<ia_r_steps (in_ia c). f nu mu r)"
  "sum_before c f (Suc nu) 0 = sum_before c f nu (ia_mu_steps (in_ia c))"
  "sum_before c f (ia_nu_steps (in_ia c)) 0 = sum_cells c f"
  by (simp_all add: sum_before_def sum_cells_def)

definition sums_at :: "nat \<Rightarrow> Integrand \<Rightarrow> EvaluationState \<Rightarrow> bool" where
  "sums_at n c es \<longleftrightarrow> es_numberStreams es = n
     \<and> es_bgSum es = kfin (sum_before c (bg_at c) (es_nu_step es) (es_mu_step es))
     \<and> es_streamSums es = map (\<lambda>k. kfin (sum_before c (stream_at c k) (es_nu_step es) (es_mu_step es))) [0..<n]"

lemma r_sum_fin:
  assumes "\<And>r. r < R \<Longrightarrow> probabilities_at c lbt nid r = (Fin (b r), map Fin (ss r)) \<and> List.length (ss r) = n"
    and "es_numberStreams es = n" "es_bgSum es = kfin x" "es_streamSums es = map (\<lambda>k. kfin (y k)) [0..<n]"
  defines "es' \<equiv> fold (\<lambda>r es. case probabilities_at c lbt nid r of (bg, ss) \<Rightarrow>
      sumProbs (es\<lparr>es_bgTmp := bg, es_streamTmps := ss\<rparr>)) [0..<R] es"
  shows "es_bgSum es' = kfin (x + (\<Sum>r<R. b r))"
    "es_streamSums es' = map (\<lambda>k. kfin (y k + (\<Sum>r<R. ss r ! k))) [0..<n]" "es_numberStreams es' = n"
proof -
  have "es_bgSum es' = kfin (x + (\<Sum>r<R. b r))
    \<and> es_streamSums es' = map (\<lambda>k. kfin (y k + (\<Sum>r<R. ss r ! k))) [0..<n] \<and> es_numberStreams es' = n"
    using assms(1) unfolding es'_def
  proof (induction R)
    case 0
    then show ?case using assms by simp
  next
    case (Suc R)
    then show ?case by (auto simp: sumProbs_def add.assoc intro!: nth_equalityI)
  qed
  then show "es_bgSum es' = kfin (x + (\<Sum>r<R. b r))"
    "es_streamSums es' = map (\<lambda>k. kfin (y k + (\<Sum>r<R. ss r ! k))) [0..<n]" "es_numberStreams es' = n" by auto
qed

lemma mu_step_sums_at:
  assumes "finite_cells n c" "sums_at n c es" "es_nu_step es < ia_nu_steps (in_ia c)" "es_mu_step es < ia_mu_steps (in_ia c)"
  shows "sums_at n c ((mu_step_sums c (calcNuStep (in_ia c) (es_nu_step es)) es)\<lparr>es_mu_step := es_mu_step es + 1\<rparr>)"
proof -
  let ?nu = "es_nu_step es" and ?mu = "es_mu_step es" and ?R = "ia_r_steps (in_ia c)"
  have "\<exists>b ss. cell_probs c ?nu ?mu r = (Fin b, map Fin ss) \<and> List.length ss = n" if "r < ?R" for r
    using assms(1,3,4) that unfolding finite_cells_def by blast
  then obtain b ss where bs: "\<And>r. r < ?R \<Longrightarrow> cell_probs c ?nu ?mu r = (Fin (b r), map Fin (ss r)) \<and> List.length (ss r) = n"
    by metis
  define lbt where "lbt = lb_trig (gc2lb (ap_wedge (in_ap c)) (ia_mu_min (in_ia c) + (real ?mu + 1 / 2) * ia_mu_step_size (in_ia c))
      (nu_nu (calcNuStep (in_ia c) ?nu)))"
  have probs: "probabilities_at c lbt (nu_id (calcNuStep (in_ia c) ?nu)) r = cell_probs c ?nu ?mu r" for r
    by (simp add: cell_probs_def lbt_def Let_def)
  have e: "mu_step_sums c (calcNuStep (in_ia c) ?nu) es = r_sum c lbt (nu_id (calcNuStep (in_ia c) ?nu)) es"
    by (simp add: mu_step_sums_def lbt_def Let_def)
  have at: "es_numberStreams es = n" "es_bgSum es = kfin (sum_before c (bg_at c) ?nu ?mu)"
    "es_streamSums es = map (\<lambda>k. kfin (sum_before c (stream_at c k) ?nu ?mu)) [0..<n]"
    using assms(2) by (simp_all add: sums_at_def)
  have r: "es_bgSum (mu_step_sums c (calcNuStep (in_ia c) ?nu) es) = kfin (sum_before c (bg_at c) ?nu ?mu + (\<Sum>r<?R. b r))"
    "es_streamSums (mu_step_sums c (calcNuStep (in_ia c) ?nu) es)
      = map (\<lambda>k. kfin (sum_before c (stream_at c k) ?nu ?mu + (\<Sum>r<?R. ss r ! k))) [0..<n]"
    unfolding e r_sum_def by (rule r_sum_fin[where b = b and ss = ss, OF _ at]; simp add: probs bs)+
  have sb: "(\<Sum>r<?R. b r) = (\<Sum>r<?R. bg_at c ?nu ?mu r)" using bs by (intro sum.cong) (simp_all add: bg_at_def)
  have ss: "(\<Sum>r<?R. ss r ! k) = (\<Sum>r<?R. stream_at c k ?nu ?mu r)" if "k < n" for k
    using bs that by (intro sum.cong) (simp_all add: stream_at_def)
  show ?thesis unfolding sums_at_def
    using r sb ss at(1) by (auto simp: sum_before_steps frame_simps)
qed

section \<open>One integral\<close>

text \<open>A checkpoint file of a state inside the sums of an integral.\<close>

definition saved_in :: "nat \<Rightarrow> Integrand \<Rightarrow> int \<times> int \<Rightarrow> EvaluationState \<Rightarrow> sep_checkpoint_file \<Rightarrow> bool" where
  "saved_in n c ver es F \<longleftrightarrow> (\<exists>es1. F = writeState ver es1 \<and> sums_at n c es1 \<and> es_nu_step es1 < ia_nu_steps (in_ia c)
     \<and> es_mu_step es1 < ia_mu_steps (in_ia c) \<and> same_frame es es1)"

lemma same_frame_refl [simp]: "same_frame es es" and same_frame_trans: "same_frame a b \<Longrightarrow> same_frame b c \<Longrightarrow> same_frame a c"
  by (simp_all add: same_frame_def)

lemma saved_in_frame: "same_frame es es' \<Longrightarrow> saved_in n c ver es' F \<Longrightarrow> saved_in n c ver es F"
  unfolding saved_in_def using same_frame_trans by blast

lemma doBoincCheckpoint_writes:
  assumes "\<And>k. env_write env k = Written"
  obtains k w' where "doBoincCheckpoint env (es, w) = Some (es\<lparr>es_lastCheckpointNuStep := k\<rparr>, w')"
    "set (sw_files w') \<subseteq> insert (writeState (env_version env) (es\<lparr>es_lastCheckpointNuStep := k\<rparr>)) (set (sw_files w))"
proof (cases "env_due env (sw_calls w + 1)")
  case True
  then show ?thesis using that[of "es_nu_step es"] assms by (auto simp: doBoincCheckpoint_def writeCheckpoint_def Let_def)
next
  case False
  have "es\<lparr>es_lastCheckpointNuStep := es_lastCheckpointNuStep es\<rparr> = es" by simp
  then show ?thesis using that[of "es_lastCheckpointNuStep es" "w\<lparr>sw_calls := sw_calls w + 1\<rparr>"] False
    by (auto simp: doBoincCheckpoint_def Let_def)
qed

lemma sums_at_last [simp]: "sums_at n c (es\<lparr>es_lastCheckpointNuStep := k\<rparr>) = sums_at n c es"
  by (simp add: sums_at_def)

lemma mu_sum_at:
  assumes fin: "finite_cells n c" and writes: "\<And>k. env_write env k = Written"
  shows "sums_at n c es \<Longrightarrow> es_nu_step es < ia_nu_steps (in_ia c) \<Longrightarrow> es_mu_step es \<le> ia_mu_steps (in_ia c) \<Longrightarrow>
    \<exists>es' w'. mu_sum env c (calcNuStep (in_ia c) (es_nu_step es)) (es, w) = Some (es', w')
      \<and> sums_at n c (es'\<lparr>es_nu_step := es_nu_step es + 1\<rparr>) \<and> es_mu_step es' = 0 \<and> es_nu_step es' = es_nu_step es \<and> same_frame es es'
      \<and> (\<forall>F \<in> set (sw_files w'). F \<in> set (sw_files w) \<or> saved_in n c (env_version env) es F)"
proof (induction "ia_mu_steps (in_ia c) - es_mu_step es" arbitrary: es w)
  case 0
  then have mu: "es_mu_step es = ia_mu_steps (in_ia c)" by simp
  then have "mu_sum env c (calcNuStep (in_ia c) (es_nu_step es)) (es, w) = Some (es\<lparr>es_mu_step := 0\<rparr>, w)"
    by (simp add: mu_sum.simps)
  moreover have "sums_at n c (es\<lparr>es_mu_step := 0, es_nu_step := es_nu_step es + 1\<rparr>)"
    using 0(2) mu by (simp add: sums_at_def sum_before_steps)
  ultimately show ?case by (auto simp: same_frame_def)
next
  case (Suc m)
  then have mu: "es_mu_step es < ia_mu_steps (in_ia c)" by simp
  let ?nuid = "calcNuStep (in_ia c) (es_nu_step es)"
  obtain k w1 where d: "doBoincCheckpoint env (es, w) = Some (es\<lparr>es_lastCheckpointNuStep := k\<rparr>, w1)"
    and files: "set (sw_files w1) \<subseteq> insert (writeState (env_version env) (es\<lparr>es_lastCheckpointNuStep := k\<rparr>)) (set (sw_files w))"
    using doBoincCheckpoint_writes[OF writes] .
  define es1 where "es1 = es\<lparr>es_lastCheckpointNuStep := k\<rparr>"
  define es2 where "es2 = (mu_step_sums c ?nuid es1)\<lparr>es_mu_step := es_mu_step es1 + 1\<rparr>"
  have es1: "sums_at n c es1" "es_nu_step es1 = es_nu_step es" "es_mu_step es1 = es_mu_step es" "same_frame es es1"
    using Suc.prems by (simp_all add: es1_def same_frame_def)
  have at: "sums_at n c es2"
    using mu_step_sums_at[OF fin es1(1)] Suc.prems(2) mu es1(2,3) by (simp add: es2_def)
  have es2: "es_nu_step es2 = es_nu_step es" "es_mu_step es2 = es_mu_step es + 1" "same_frame es es2"
    using es1 by (simp_all add: es2_def frame_simps same_frame_def)
  obtain es' w' where run: "mu_sum env c ?nuid (es2, w1) = Some (es', w')"
    and post: "sums_at n c (es'\<lparr>es_nu_step := es_nu_step es + 1\<rparr>)" "es_mu_step es' = 0" "es_nu_step es' = es_nu_step es" "same_frame es2 es'"
    and new: "\<forall>F \<in> set (sw_files w'). F \<in> set (sw_files w1) \<or> saved_in n c (env_version env) es2 F"
  proof -
    have "m = ia_mu_steps (in_ia c) - es_mu_step es2" using Suc.hyps(2) es2(2) by simp
    moreover have "es_nu_step es2 < ia_nu_steps (in_ia c)" "es_mu_step es2 \<le> ia_mu_steps (in_ia c)"
      using Suc.prems(2) mu es2 by simp_all
    ultimately show thesis using Suc.hyps(1)[of es2 w1] at that unfolding es2(1) by blast
  qed
  have "mu_sum env c ?nuid (es, w) = Some (es', w')"
    using mu run d by (simp add: mu_sum.simps[of env c ?nuid es w] es1_def es2_def)
  moreover have "saved_in n c (env_version env) es (writeState (env_version env) es1)"
    unfolding saved_in_def using es1 Suc.prems(2) mu by auto
  moreover have "F \<in> set (sw_files w) \<or> saved_in n c (env_version env) es F" if "F \<in> set (sw_files w')" for F
    using that new files[folded es1_def] saved_in_frame[OF es2(3), of n c "env_version env" F] calculation(2) by blast
  ultimately show ?case using post same_frame_trans[OF es2(3)] by blast
qed

lemma nuSum_at:
  assumes fin: "finite_cells n c" and writes: "\<And>k. env_write env k = Written"
  shows "sums_at n c es \<Longrightarrow> es_nu_step es < ia_nu_steps (in_ia c) \<and> es_mu_step es \<le> ia_mu_steps (in_ia c)
      \<or> es_nu_step es = ia_nu_steps (in_ia c) \<and> es_mu_step es = 0 \<Longrightarrow>
    \<exists>es' w'. nuSum env c (es, w) = Some (es', w')
      \<and> es_bgSum es' = kfin (sum_cells c (bg_at c)) \<and> es_streamSums es' = map (\<lambda>k. kfin (sum_cells c (stream_at c k))) [0..<n]
      \<and> es_nu_step es' = 0 \<and> es_mu_step es' = 0 \<and> same_frame es es'
      \<and> (\<forall>F \<in> set (sw_files w'). F \<in> set (sw_files w) \<or> saved_in n c (env_version env) es F)"
proof (induction "ia_nu_steps (in_ia c) - es_nu_step es" arbitrary: es w)
  case 0
  then have p: "es_nu_step es = ia_nu_steps (in_ia c)" "es_mu_step es = 0" by auto
  then have "nuSum env c (es, w) = Some (es\<lparr>es_nu_step := 0\<rparr>, w)" by (simp add: nuSum.simps)
  then show ?case using 0(2) p by (simp add: sums_at_def sum_before_steps same_frame_def)
next
  case (Suc m)
  then have nu: "es_nu_step es < ia_nu_steps (in_ia c)" "es_mu_step es \<le> ia_mu_steps (in_ia c)" by auto
  let ?nuid = "calcNuStep (in_ia c) (es_nu_step es)"
  obtain es1 w1 where mu: "mu_sum env c ?nuid (es, w) = Some (es1, w1)"
    and at: "sums_at n c (es1\<lparr>es_nu_step := es_nu_step es + 1\<rparr>)" "es_mu_step es1 = 0" "es_nu_step es1 = es_nu_step es" "same_frame es es1"
    and files: "\<forall>F \<in> set (sw_files w1). F \<in> set (sw_files w) \<or> saved_in n c (env_version env) es F"
    using mu_sum_at[OF fin writes Suc.prems(1) nu] by blast
  define es2 where "es2 = es1\<lparr>es_nu_step := es_nu_step es + 1\<rparr>"
  have fr: "same_frame es es2" using at(4) by (simp add: es2_def same_frame_def)
  have "es_nu_step es2 < ia_nu_steps (in_ia c) \<and> es_mu_step es2 \<le> ia_mu_steps (in_ia c)
      \<or> es_nu_step es2 = ia_nu_steps (in_ia c) \<and> es_mu_step es2 = 0"
    using at(2) nu(1) by (auto simp: es2_def)
  moreover have "sums_at n c es2" using at(1) by (simp add: es2_def)
  moreover have "m = ia_nu_steps (in_ia c) - es_nu_step es2" using Suc.hyps(2) by (simp add: es2_def)
  ultimately obtain es' w' where run: "nuSum env c (es2, w1) = Some (es', w')"
    and post: "es_bgSum es' = kfin (sum_cells c (bg_at c))" "es_streamSums es' = map (\<lambda>k. kfin (sum_cells c (stream_at c k))) [0..<n]"
      "es_nu_step es' = 0" "es_mu_step es' = 0" "same_frame es2 es'"
    and new: "\<forall>F \<in> set (sw_files w'). F \<in> set (sw_files w1) \<or> saved_in n c (env_version env) es2 F"
    using Suc.hyps(1)[of es2 w1] by blast
  have "nuSum env c (es, w) = Some (es', w')"
    using nu(1) mu run at(3) by (simp add: nuSum.simps[of env c es w] es2_def)
  then show ?case using post new files saved_in_frame[OF fr] same_frame_trans[OF fr] by blast
qed

section \<open>All integrals, and their checkpoints\<close>

definition final_cut :: "Integrand \<Rightarrow> Cut" where
  "final_cut c = \<lparr>bgIntegral = Fin (sum_cells c (bg_at c)),
     streamIntegrals = map (\<lambda>k. if sc_large_sigma (in_sc c ! k) then Fin (sum_cells c (stream_at c k)) else 0)
       [0..<ap_number_streams (in_ap c)]\<rparr>"

text \<open>A state of an evaluation on its way: the cuts before the current one are done, and the sums are
  those of the cells before the position in the current one.\<close>

definition progress :: "Integrand list \<Rightarrow> nat \<Rightarrow> nat \<Rightarrow> EvaluationState \<Rightarrow> bool" where
  "progress cs n wu es \<longleftrightarrow> \<not> es_WUPrinted es \<and> es_currentWU es = wu \<and> es_numberStreams es = n \<and> es_numberCuts es = List.length cs \<and> List.length (es_cuts es) = List.length cs
     \<and> es_currentCut es \<le> List.length cs \<and> (\<forall>k < es_currentCut es. es_cuts es ! k = final_cut (cs ! k))
     \<and> (\<forall>c \<in> set (es_cuts es). List.length (streamIntegrals c) = n)
     \<and> es_bgSumCheckpoint es = ZERO_DKAHAN \<and> es_streamSumsCheckpoint es = replicate n ZERO_DKAHAN
     \<and> (if es_currentCut es < List.length cs
        then sums_at n (cs ! es_currentCut es) es
             \<and> (es_nu_step es < ia_nu_steps (in_ia (cs ! es_currentCut es)) \<and> es_mu_step es \<le> ia_mu_steps (in_ia (cs ! es_currentCut es))
                \<or> es_nu_step es = ia_nu_steps (in_ia (cs ! es_currentCut es)) \<and> es_mu_step es = 0)
        else es_bgSum es = ZERO_DKAHAN \<and> es_streamSums es = replicate n ZERO_DKAHAN)"

lemma replicate_map: "replicate n x = map (\<lambda>_. x) [0..<n]"
  by (simp add: map_replicate_const)

lemma dkahan_reduction_zero: "DKAHAN_REDUCTION (kfin x) ZERO_DKAHAN = kfin x"
  by (simp add: DKAHAN_REDUCTION_def zero_kfin Let_def kfin_def)

lemma progress_start:
  assumes "ap_number_integrals ap = List.length cs"
  shows "progress cs (ap_number_streams ap) (ap_currentWU ap) (newEvaluationState ap)"
  using assms
  by (auto simp: progress_def newEvaluationState_def initializeCut_def sums_at_def sum_before_steps zero_kfin replicate_map)

lemma readCuts_writes:
  "\<forall>c \<in> set cs. List.length (streamIntegrals c) = n \<Longrightarrow>
   readCuts n (List.length cs) (concat (map (\<lambda>c. [RealI (bgIntegral c), RealsI (streamIntegrals c)]) cs) @ f) = Some (cs, f)"
  by (induction cs) auto

lemma progress_finite:
  assumes "progress cs n wu es"
  obtains x ys where "es_bgSum es = kfin x" "es_streamSums es = map (\<lambda>k. kfin (ys k)) [0..<n]"
proof (cases "es_currentCut es < List.length cs")
  case True
  then have "sums_at n (cs ! es_currentCut es) es" using assms by (simp add: progress_def)
  then show ?thesis
    using that[of "sum_before (cs ! es_currentCut es) (bg_at (cs ! es_currentCut es)) (es_nu_step es) (es_mu_step es)"
      "\<lambda>k. sum_before (cs ! es_currentCut es) (stream_at (cs ! es_currentCut es) k) (es_nu_step es) (es_mu_step es)"]
    by (simp add: sums_at_def)
next
  case False
  then show ?thesis using assms that[of 0 "\<lambda>_. 0"] by (auto simp: progress_def zero_kfin replicate_map)
qed

lemma readCheckpoint_progress:
  assumes "progress cs (ap_number_streams ap) (ap_currentWU ap) (es\<lparr>es_WUPrinted := False\<rparr>)" "ap_number_integrals ap = List.length cs"
  shows "\<exists>es'. readCheckpoint ver (writeState ver es) (newEvaluationState ap) = Some es'
    \<and> progress cs (ap_number_streams ap) (ap_currentWU ap) (es'\<lparr>es_WUPrinted := False\<rparr>) \<and> es_WUPrinted es' = es_WUPrinted es"
proof -
  let ?n = "ap_number_streams ap"
  obtain x ys where fin: "es_bgSum es = kfin x" "es_streamSums es = map (\<lambda>k. kfin (ys k)) [0..<?n]"
    using progress_finite[OF assms(1)] by auto
  have es: "es_numberStreams es = ?n" "List.length (es_cuts es) = List.length cs"
    "\<forall>c \<in> set (es_cuts es). List.length (streamIntegrals c) = ?n" "es_bgSumCheckpoint es = ZERO_DKAHAN"
    "es_streamSumsCheckpoint es = replicate ?n ZERO_DKAHAN"
    using assms(1) by (simp_all add: progress_def)
  define es0 where "es0 = (newEvaluationState ap)\<lparr>es_currentWU := es_currentWU es, es_WUPrinted := es_WUPrinted es,
    es_currentCut := es_currentCut es, es_nu_step := es_nu_step es, es_mu_step := es_mu_step es, es_bgSum := es_bgSum es,
    es_streamSums := es_streamSums es, es_lastCheckpointNuStep := es_lastCheckpointNuStep es,
    es_bgSumCheckpoint := ZERO_DKAHAN, es_streamSumsCheckpoint := replicate ?n ZERO_DKAHAN, es_cuts := es_cuts es\<rparr>"
  have "readState ver (writeState ver es) (newEvaluationState ap) = Some es0"
    using readCuts_writes[OF es(3)] es assms(2) fin(2)
    by (simp add: readState_def writeState_def versionMismatch_def newEvaluationState_def es0_def)
  moreover have "addTmpCheckpointSums es0 = es0"
  proof -
    have "map (\<lambda>i. DKAHAN_REDUCTION (es_streamSums es0 ! i) (es_streamSumsCheckpoint es0 ! i)) [0..<?n] = es_streamSums es0"
      using fin by (auto simp: es0_def dkahan_reduction_zero intro!: nth_equalityI)
    then show ?thesis
      using fin by (simp add: addTmpCheckpointSums_def es0_def newEvaluationState_def dkahan_reduction_zero replicate_map[symmetric])
  qed
  moreover have "progress cs ?n (ap_currentWU ap) (es0\<lparr>es_WUPrinted := False\<rparr>)"
    using assms by (auto simp: progress_def sums_at_def es0_def newEvaluationState_def)
  ultimately show ?thesis by (auto simp: readCheckpoint_def es0_def)
qed

lemma saved_in_progress:
  assumes "progress cs n wu es" "es_currentCut es < List.length cs" "saved_in n (cs ! es_currentCut es) ver es F"
  shows "\<exists>es1. F = writeState ver es1 \<and> progress cs n wu es1"
proof -
  obtain es1 where es1: "F = writeState ver es1" "sums_at n (cs ! es_currentCut es) es1"
    "es_nu_step es1 < ia_nu_steps (in_ia (cs ! es_currentCut es))" "es_mu_step es1 < ia_mu_steps (in_ia (cs ! es_currentCut es))"
    "same_frame es es1"
    using assms(3) unfolding saved_in_def by blast
  then have "progress cs n wu es1" using assms(1,2) by (simp add: same_frame_def progress_def)
  then show ?thesis using es1(1) by blast
qed

lemma calculateIntegrals_progress:
  fixes ias :: "IntegralArea list" and pf :: probability_func and ap :: AstronomyParameters
    and sc :: "StreamConstants list" and sg :: StreamGauss
  defines "cs \<equiv> map (\<lambda>ia. initRPoints pf ap ia sc sg) ias"
  assumes q: "ap_q ap \<noteq> 0" and fin: "\<forall>c \<in> set cs. finite_cells (ap_number_streams ap) c"
    and writes: "\<And>k. env_write env k = Written"
  shows "progress cs (ap_number_streams ap) (ap_currentWU ap) es \<Longrightarrow> \<exists>es' w'. calculateIntegrals env pf ap ias sc sg (es, w) = Some (False, es', w')
      \<and> progress cs (ap_number_streams ap) (ap_currentWU ap) es' \<and> es_currentCut es' = List.length cs
      \<and> (\<forall>F \<in> set (sw_files w'). F \<in> set (sw_files w)
           \<or> (\<exists>es1. F = writeState (env_version env) es1 \<and> progress cs (ap_number_streams ap) (ap_currentWU ap) es1))"
proof (induction "List.length cs - es_currentCut es" arbitrary: es w)
  case 0
  then have "es_currentCut es = List.length cs" by (simp add: progress_def)
  moreover have "es_numberCuts es = List.length cs" using 0 by (simp add: progress_def)
  ultimately show ?case using 0(2) by (simp add: calculateIntegrals.simps)
next
  case (Suc m)
  let ?n = "ap_number_streams ap" and ?k = "es_currentCut es"
  define c where "c = cs ! ?k"
  have k: "?k < List.length cs" using Suc.hyps(2) by simp
  then have c: "c = initRPoints pf ap (ias ! ?k) sc sg" "finite_cells ?n c" using fin by (simp_all add: c_def cs_def)
  then have c_sel: "in_sc c = sc" "in_ap c = ap" by (simp_all add: initRPoints_def split_beta)
  define es2 where "es2 = es\<lparr>es_cut := ?k, es_current_calc_probs := completedIntegralProgress ias (es\<lparr>es_cut := ?k\<rparr>)\<rparr>"
  have p2: "progress cs ?n (ap_currentWU ap) es2" "es_currentCut es2 = ?k" "es_cut es2 = ?k"
    using Suc.prems by (auto simp: es2_def progress_def sums_at_def)
  have at: "sums_at ?n c es2" "es_nu_step es2 < ia_nu_steps (in_ia c) \<and> es_mu_step es2 \<le> ia_mu_steps (in_ia c)
      \<or> es_nu_step es2 = ia_nu_steps (in_ia c) \<and> es_mu_step es2 = 0"
    using p2 k by (auto simp: progress_def c_def)
  obtain es3 w3 where run: "nuSum env c (es2, w) = Some (es3, w3)"
    and post: "es_bgSum es3 = kfin (sum_cells c (bg_at c))" "es_streamSums es3 = map (\<lambda>k. kfin (sum_cells c (stream_at c k))) [0..<?n]"
      "es_nu_step es3 = 0" "es_mu_step es3 = 0" "same_frame es2 es3"
    and files: "\<forall>F \<in> set (sw_files w3). F \<in> set (sw_files w) \<or> saved_in ?n c (env_version env) es2 F"
    using nuSum_at[OF c(2) writes at] by blast
  define es4 where "es4 = clearEvaluationStateTmpSums (es3\<lparr>es_cuts := (es_cuts es)[?k := final_cut c]\<rparr>)"
  define es5 where "es5 = es4\<lparr>es_currentCut := ?k + 1\<rparr>"
  have fr: "es_numberStreams es3 = ?n" "es_cuts es3 = es_cuts es" "es_cut es3 = ?k" "es_currentCut es3 = ?k"
    "es_numberCuts es3 = List.length cs" "List.length (es_cuts es) = List.length cs" "es_numberCuts es = List.length cs"
    "es_bgSumCheckpoint es3 = ZERO_DKAHAN" "es_streamSumsCheckpoint es3 = replicate ?n ZERO_DKAHAN"
    "\<not> es_WUPrinted es3" "es_currentWU es3 = ap_currentWU ap"
    using post(5) p2 Suc.prems by (auto simp: same_frame_def progress_def es2_def)
  have int: "integrate env pf ap (ias ! ?k) sc sg (es2, w) = Some (False, separationIntegralGetSums es3, w3)"
    using q run c(1) by (simp add: integrate_def)
  have cut: "es_cuts (separationIntegralGetSums es3) ! ?k = \<lparr>bgIntegral = Fin (sum_cells c (bg_at c)),
      streamIntegrals = map (\<lambda>k. Fin (sum_cells c (stream_at c k))) [0..<?n]\<rparr>"
    using k fr post by (simp add: separationIntegralGetSums_def)
  have clean: "cleanStreamIntegrals sc ?n (map (\<lambda>k. Fin (sum_cells c (stream_at c k))) [0..<?n]) = streamIntegrals (final_cut c)"
    by (auto simp: cleanStreamIntegrals_def final_cut_def c_sel)
  have next_cut: "calculateIntegrals env pf ap ias sc sg (es, w) = calculateIntegrals env pf ap ias sc sg (es5, w3)"
  proof -
    have "es_cut (separationIntegralGetSums es3) = ?k" "es_currentCut (separationIntegralGetSums es3) = ?k"
      using fr by (simp_all add: separationIntegralGetSums_def)
    moreover have "clearEvaluationStateTmpSums ((separationIntegralGetSums es3)\<lparr>es_cuts := (es_cuts (separationIntegralGetSums es3))
        [?k := (es_cuts (separationIntegralGetSums es3) ! ?k)\<lparr>streamIntegrals := streamIntegrals (final_cut c)\<rparr>]\<rparr>) = es4"
      unfolding cut using fr by (simp add: es4_def separationIntegralGetSums_def final_cut_def)
    moreover have "es_currentCut es4 = ?k" using fr by (simp add: es4_def clearEvaluationStateTmpSums_def)
    ultimately show ?thesis
      using k fr int clean cut
      by (simp add: calculateIntegrals.simps[of env pf ap ias sc sg es w] Let_def es2_def[symmetric] es5_def)
  qed
  have p5: "progress cs ?n (ap_currentWU ap) es5"
  proof -
    have "es_bgSum es5 = ZERO_DKAHAN" "es_streamSums es5 = replicate ?n ZERO_DKAHAN" "es_nu_step es5 = 0" "es_mu_step es5 = 0"
      "es_numberStreams es5 = ?n" "es_numberCuts es5 = List.length cs" "es_currentCut es5 = ?k + 1"
      "es_cuts es5 = (es_cuts es)[?k := final_cut c]" "es_bgSumCheckpoint es5 = ZERO_DKAHAN"
      "es_streamSumsCheckpoint es5 = replicate ?n ZERO_DKAHAN" "\<not> es_WUPrinted es5" "es_currentWU es5 = ap_currentWU ap"
      using fr post by (simp_all add: es5_def es4_def clearEvaluationStateTmpSums_def replicate_map)
    moreover have "List.length (streamIntegrals (final_cut c)) = ?n" by (simp add: final_cut_def c_sel)
    moreover have "\<forall>i < ?k. es_cuts es ! i = final_cut (cs ! i)" "\<forall>c \<in> set (es_cuts es). List.length (streamIntegrals c) = ?n"
      using Suc.prems by (simp_all add: progress_def)
    ultimately show ?thesis
      using k fr(6) by (auto simp: progress_def sums_at_def sum_before_steps zero_kfin replicate_map nth_list_update less_Suc_eq
          c_def dest!: set_update_subset_insert[THEN subsetD])
  qed
  obtain es' w' where fin_run: "calculateIntegrals env pf ap ias sc sg (es, w) = Some (False, es', w')"
    "progress cs ?n (ap_currentWU ap) es'" "es_currentCut es' = List.length cs"
    and new: "\<forall>F \<in> set (sw_files w'). F \<in> set (sw_files w3) \<or> (\<exists>es1. F = writeState (env_version env) es1 \<and> progress cs ?n (ap_currentWU ap) es1)"
  proof -
    have "m = List.length cs - es_currentCut es5" using Suc.hyps(2) by (simp add: es5_def)
    then show thesis using Suc.hyps(1)[of es5 w3] p5 that unfolding next_cut by blast
  qed
  moreover have "\<exists>es1. F = writeState (env_version env) es1 \<and> progress cs ?n (ap_currentWU ap) es1" if "saved_in ?n c (env_version env) es2 F" for F
    using saved_in_progress[OF p2(1), of "env_version env" F] that k p2(2) by (simp add: c_def)
  ultimately show ?case using files by blast
qed

lemma progress_cuts:
  assumes "progress cs n wu es" "es_currentCut es = List.length cs"
  shows "es_cuts es = map final_cut cs"
  using assms by (auto simp: progress_def intro!: nth_equalityI)

text \<open>An area of one cell without streams, and a clock that asks for a checkpoint every time.\<close>

definition sample_area :: IntegralArea where
  "sample_area = \<lparr>ia_r_min = 16, ia_r_step_size = 1, ia_nu_min = 0, ia_nu_step_size = 1, ia_mu_min = 0, ia_mu_step_size = 1,
     ia_r_steps = 1, ia_nu_steps = 1, ia_mu_steps = 1\<rparr>"

definition sep_env :: SepEnv where
  "sep_env = \<lparr>env_version = (1, 36), env_due = (\<lambda>_. True), env_write = (\<lambda>_. Written)\<rparr>"

definition flat_ap :: AstronomyParameters where
  "flat_ap = sample_ap\<lparr>ap_background_profile := BROKEN_POWER_LAW, ap_innerPower := 0, ap_alpha_delta3 := 0, ap_number_streams := 0,
     ap_number_integrals := 1, ap_q := 1\<rparr>"

lemma flat_fold:
  "\<exists>r. fold (\<lambda>i (bg_prob, streamTmps). let xyz = lbr2xyz_2 flat_ap (rs ! i) lbt
      in (bg_prob + broken_power_law_prob flat_ap (qws ! i) (rg_calc flat_ap xyz), streamSums streamTmps sc xyz (qws ! i) 0)) xs
      (Fin b, []) = (Fin r, [])"
proof (induction xs arbitrary: b)
  case (Cons i xs)
  have "broken_power_law_prob flat_ap q r = Fin q" for q r
    by (cases "Fin (ap_sun_r0 flat_ap) / Fin r") (simp_all add: broken_power_law_prob_def flat_ap_def one_dbl_def)
  then show ?case using Cons by (simp add: Let_def streamSums_def)
qed simp

lemma flat_cells: "finite_cells 0 (initRPoints probabilities_broken_power_law flat_ap sample_area sc sg)"
proof -
  have "\<exists>b ss. probabilities_broken_power_law flat_ap sc dxs rs qws lbt gPrime reff = (Fin b, map Fin ss) \<and> List.length ss = 0"
    for dxs rs qws lbt gPrime reff
    using flat_fold[of rs lbt qws sc "[0..<ap_convolve flat_ap]" 0]
    by (auto simp: probabilities_broken_power_law_def convolve_sums_def Let_def zero_dbl_def flat_ap_def)
  then show ?thesis
    by (simp add: finite_cells_def cell_probs_def probabilities_at_def Let_def initRPoints_def split_beta)
qed

end
