(* ===== verification/Sep_Likelihood.thy ===== *)
theory Sep_Likelihood
  imports Sep_IntegralProps MW_RandomProps
begin

text \<open>
  \<open>likelihood.c\<close> and \<open>separation_utils.c\<close>: the likelihood of the stars under the fitted streams, and the
  assignment of stars to streams at random. Probabilities and logarithms are of type \<open>dbl\<close>. The state of
  the random numbers, global in the code, is passed on; \<open>mw_panic\<close> is \<open>None\<close>. What the code prints on
  its standard output besides the results is left out.
\<close>

section \<open>Separation of stars\<close>

definition mw_vecangle :: "mwvector \<Rightarrow> mwvector \<Rightarrow> real" where
  "mw_vecangle a b =
     (let anorm = mw_absv a; bnorm = mw_absv b; dot = mw_dotv a b in arccos (dot / (anorm * bnorm)))"

definition mw_normalize :: "mwvector \<Rightarrow> mwvector" where
  "mw_normalize v = (let len = mw_absv v in \<lparr>X = X v / len, Y = Y v / len, Z = Z v / len\<rparr>)"

definition get_transform :: "mwvector \<Rightarrow> mwvector \<Rightarrow> mwmatrix" where
  "get_transform f t =
     (let axis = mw_normalize (mw_crossv f t);
          angle = mw_vecangle f t;
          sin_a = sin (1 / 2 * angle);
          x = X axis * sin_a; y = Y axis * sin_a; z = Z axis * sin_a;
          w = cos (1 / 2 * angle)
      in (\<lparr>X = 1 - 2 * (y * y + z * z), Y = 2 * (x * y - z * w), Z = 2 * (x * z + y * w)\<rparr>,
          \<lparr>X = 2 * (x * y + z * w), Y = 1 - 2 * (x * x + z * z), Z = 2 * (y * z - x * w)\<rparr>,
          \<lparr>X = 2 * (x * z - y * w), Y = 2 * (y * z + x * w), Z = 1 - 2 * (x * x + y * y)\<rparr>))"

definition transform_point :: "AstronomyParameters \<Rightarrow> mwvector \<Rightarrow> mwmatrix \<Rightarrow> mwvector \<Rightarrow> mwvector" where
  "transform_point ap point cmat xsun =
     (let mcutoff = 11; logPoint = xyz_mag ap point mcutoff in mw_mulmv cmat (mw_subv logPoint xsun))"

text \<open>\<open>prob_ok\<close> for a random number \<open>r\<close>: the number of the stream from 1, or 0.\<close>

definition prob_ok_at :: "dbl \<Rightarrow> StreamStats list \<Rightarrow> nat \<Rightarrow> nat option" where
  "prob_ok_at r ss n =
     (let p = (\<lambda>i. ss_sprob (ss ! i)) in
      if n = 1 then Some (if p 0 < r then 0 else 1)
      else if n = 2 then
        let step1 = p 0 + p 1
        in Some (if step1 < r then 0 else if r < p 0 then 1 else if p 0 < r \<and> r \<le> step1 then 2 else 0)
      else if n = 3 then
        let step1 = p 0 + p 1; step2 = p 0 + p 1 + p 2
        in Some (if step2 < r then 0 else if r < p 0 then 1 else if p 0 < r \<and> r \<le> step1 then 2
                 else if step1 < r \<and> r \<le> step2 then 3 else 0)
      else if n = 4 then
        let step1 = p 0 + p 1; step2 = p 0 + p 1 + p 2; step3 = p 0 + p 1 + p 2 + p 3
        in Some (if step3 < r then 0 else if r \<le> p 0 then 1 else if p 0 < r \<and> r \<le> step1 then 2
                 else if step1 < r \<and> r \<le> step2 then 3 else if step2 < r \<and> r \<le> step3 then 4 else 0)
      else None)"

definition prob_ok :: "dsfmt_t \<Rightarrow> StreamStats list \<Rightarrow> nat \<Rightarrow> (nat \<times> dsfmt_t) option" where
  "prob_ok d ss n = (let (r, d) = mwXrandom d 0 1 in map_option (\<lambda>s_ok. (s_ok, d)) (prob_ok_at (Fin r) ss n))"

definition get_stream_bg_weight_consts :: "StreamStats list \<Rightarrow> Streams \<Rightarrow> real \<times> StreamStats list" where
  "get_stream_bg_weight_consts ss streams =
     (let ps = st_parameters streams;
          denom = fold (\<lambda>p denom. denom + exp (sp_epsilon p)) ps 1
      in (1 / denom, map (\<lambda>i. (ss ! i)\<lparr>ss_epsilon_s := exp (sp_epsilon (ps ! i)) / denom\<rparr>) [0..<List.length ps]))"

definition twoPanelSeparation :: "AstronomyParameters \<Rightarrow> SeparationResults \<Rightarrow> StreamStats list \<Rightarrow> dbl list \<Rightarrow> dbl \<Rightarrow> real
    \<Rightarrow> StreamStats list" where
  "twoPanelSeparation ap results ss st_probs bg_prob epsilon_b =
     (let n = ap_number_streams ap;
          pbx = Fin epsilon_b * bg_prob / backgroundIntegral results;
          psg = map (\<lambda>i. Fin (ss_epsilon_s (ss ! i)) * st_probs ! i / res_streamIntegrals results ! i) [0..<n];
          psgSum = fold (\<lambda>i s. s + psg ! i) [0..<n] 0;
          sprob = map (\<lambda>i. psg ! i / (psgSum + pbx)) [0..<n]
      in map (\<lambda>i. (ss ! i)\<lparr>ss_psg := psg ! i, ss_sprob := sprob ! i, ss_nstars := ss_nstars (ss ! i) + sprob ! i\<rparr>) [0..<n])"

text \<open>A line of the output of \<open>separation\<close>: the stream and the transformed point.\<close>

definition separation :: "AstronomyParameters \<Rightarrow> SeparationResults \<Rightarrow> mwmatrix \<Rightarrow> StreamStats list \<Rightarrow> dbl list \<Rightarrow> dbl \<Rightarrow> real
    \<Rightarrow> mwvector \<Rightarrow> dsfmt_t \<Rightarrow> (StreamStats list \<times> dsfmt_t \<times> nat \<times> mwvector) option" where
  "separation ap results cmatrix ss st_probs bg_prob epsilon_b current_star_point d =
     (let xsun = \<lparr>X = ap_m_sun_r0 ap, Y = 0, Z = 0\<rparr>;
          ss = twoPanelSeparation ap results ss st_probs bg_prob epsilon_b
      in do { (s_ok, d) \<leftarrow> prob_ok d ss (ap_number_streams ap);
              let ss = (if s_ok \<ge> 1 then ss[s_ok - 1 := (ss ! (s_ok - 1))\<lparr>ss_q := ss_q (ss ! (s_ok - 1)) + 1\<rparr>] else ss);
              let starxyz = lbr2xyz ap current_star_point;
              let starxyzTransform = transform_point ap starxyz cmatrix xsun;
              Some (ss, d, s_ok, starxyzTransform) })"

section \<open>Likelihood\<close>

definition mw_cmpnzero_muleps :: "dbl \<Rightarrow> real \<Rightarrow> bool" where
  "mw_cmpnzero_muleps x eps \<longleftrightarrow> \<bar>x\<bar> * Fin eps \<le> \<bar>x\<bar>"

definition probability_log :: "dbl \<Rightarrow> real \<Rightarrow> dbl" where
  "probability_log bg sum_exp_weights =
     (if \<bar>bg\<bar> < Fin SEPARATION_EPS then Fin (- 238) else dlog10 (bg / Fin sum_exp_weights))"

text \<open>The probability of the star, that of the background for the separation, and the state.\<close>

definition likelihood_probability :: "probability_func \<Rightarrow> AstronomyParameters \<Rightarrow> StreamConstants list \<Rightarrow> Streams \<Rightarrow> real list
    \<Rightarrow> real list \<Rightarrow> real list \<Rightarrow> LBTrig \<Rightarrow> real \<Rightarrow> real \<Rightarrow> SeparationResults \<Rightarrow> EvaluationState \<Rightarrow> dbl \<times> dbl \<times> EvaluationState" where
  "likelihood_probability pf ap sc streams dxs r_points qws lbt gPrime reff_xr_rp3 results es =
     (let es = (if ap_q ap = 0 then es\<lparr>es_bgTmp := Fin (- 1)\<rparr>
                else case pf ap sc dxs r_points qws lbt gPrime reff_xr_rp3 of
                       (bg, ss) \<Rightarrow> es\<lparr>es_bgTmp := bg, es_streamTmps := ss\<rparr>);
          bgProb = es_bgTmp es;
          bgTmp = es_bgTmp es / backgroundIntegral results;
          streamOnly = map (\<lambda>i. es_streamTmps es ! i / res_streamIntegrals results ! i
                                  * Fin (sp_epsilonExp (st_parameters streams ! i))) [0..<ap_number_streams ap];
          starProb = fold (\<lambda>i s. s + streamOnly ! i) [0..<ap_number_streams ap] bgTmp;
          es = es\<lparr>es_streamSums := map (\<lambda>i. DKAHAN_ADD (es_streamSums es ! i)
                     (probability_log (streamOnly ! i) (st_sumExpWeights streams))) [0..<ap_number_streams ap]\<rparr>;
          bgTmp = probability_log bgTmp (st_sumExpWeights streams)
      in (starProb / Fin (st_sumExpWeights streams), bgProb,
          es\<lparr>es_bgTmp := bgTmp, es_bgSum := DKAHAN_ADD (es_bgSum es) bgTmp\<rparr>))"

definition calculateLikelihood :: "DKahan \<Rightarrow> nat \<Rightarrow> nat \<Rightarrow> dbl" where
  "calculateLikelihood k nStars badJacobians =
     (dk_sum k + dk_correction k) / Fin (real (nStars - badJacobians)) - Fin 3"

definition calculateLikelihoods :: "SeparationResults \<Rightarrow> DKahan \<Rightarrow> DKahan \<Rightarrow> DKahan list \<Rightarrow> nat \<Rightarrow> nat \<Rightarrow> nat \<Rightarrow> SeparationResults" where
  "calculateLikelihoods results prob bgOnly streamOnly nStars nStreams badJacobians =
     results\<lparr>backgroundLikelihood := calculateLikelihood bgOnly nStars 0,
             streamLikelihoods := map (\<lambda>i. calculateLikelihood (streamOnly ! i) nStars 0) [0..<nStreams],
             likelihood_value := calculateLikelihood prob nStars badJacobians\<rparr>"

definition setSeparationConstants :: "AstronomyParameters \<Rightarrow> mwmatrix" where
  "setSeparationConstants ap =
     (let dnormal = stripe_normal (ap_wedge ap); dortho = mw_vec 0 0 1 in get_transform dnormal dortho)"

text \<open>What the loop over the stars keeps; the lines written are in reverse.\<close>

record LikelihoodLoop =
  ll_es :: EvaluationState
  ll_prob :: DKahan
  ll_num_zero :: nat
  ll_ss :: "StreamStats list"
  ll_dsfmt :: dsfmt_t
  ll_lines :: "(nat \<times> mwvector) list"

text \<open>One star, without the separation.\<close>

definition likelihood_star :: "probability_func \<Rightarrow> AstronomyParameters \<Rightarrow> StreamConstants list \<Rightarrow> Streams \<Rightarrow> StreamGauss
    \<Rightarrow> SeparationResults \<Rightarrow> mwvector \<Rightarrow> LikelihoodLoop \<Rightarrow> dbl \<times> LikelihoodLoop" where
  "likelihood_star pf ap sc streams sg results point s =
     (let rc = calcRConstsLik (Z point) ap;
          (r_points, qws) = setSplitRPoints ap sg rc;
          reff_xr_rp3 = calcReffXrRp3 (Z point) (rc_gPrime rc);
          lbt = lb_trig \<lparr>lb_l = X point, lb_b = Y point\<rparr>;
          (star_prob, bgProb, es) = likelihood_probability pf ap sc streams (sg_dx sg) r_points qws lbt (rc_gPrime rc)
                                      reff_xr_rp3 results (ll_es s);
          s = s\<lparr>ll_es := es\<rparr>
      in (bgProb,
          if mw_cmpnzero_muleps star_prob SEPARATION_EPS
          then s\<lparr>ll_prob := DKAHAN_ADD (ll_prob s) (dlog10 star_prob)\<rparr>
          else s\<lparr>ll_num_zero := ll_num_zero s + 1, ll_prob := (ll_prob s)\<lparr>dk_sum := dk_sum (ll_prob s) - Fin 238\<rparr>\<rparr>))"

primrec likelihood_stars :: "probability_func \<Rightarrow> AstronomyParameters \<Rightarrow> StreamConstants list \<Rightarrow> Streams \<Rightarrow> StreamGauss
    \<Rightarrow> SeparationResults \<Rightarrow> (real \<times> mwmatrix) option \<Rightarrow> mwvector list \<Rightarrow> LikelihoodLoop \<Rightarrow> LikelihoodLoop option" where
  "likelihood_stars pf ap sc streams sg results sep [] s = Some s"
| "likelihood_stars pf ap sc streams sg results sep (point # stars) s =
     (let (bgProb, s) = likelihood_star pf ap sc streams sg results point s
      in case sep of
           None \<Rightarrow> likelihood_stars pf ap sc streams sg results sep stars s
         | Some (epsilon_b, cmatrix) \<Rightarrow>
             do { (ss, d, line) \<leftarrow> separation ap results cmatrix (ll_ss s) (es_streamTmps (ll_es s)) bgProb epsilon_b point (ll_dsfmt s);
                  likelihood_stars pf ap sc streams sg results sep stars
                    (s\<lparr>ll_ss := ss, ll_dsfmt := d, ll_lines := line # ll_lines s\<rparr>) })"

definition likelihood_sum :: "probability_func \<Rightarrow> SeparationResults \<Rightarrow> AstronomyParameters \<Rightarrow> mwvector list \<Rightarrow> StreamConstants list
    \<Rightarrow> Streams \<Rightarrow> StreamGauss \<Rightarrow> EvaluationState \<Rightarrow> bool \<Rightarrow> StreamStats list \<Rightarrow> dsfmt_t
    \<Rightarrow> (SeparationResults \<times> dsfmt_t \<times> (nat \<times> mwvector) list) option" where
  "likelihood_sum pf results ap stars sc streams sg es do_separation ss d =
     (let (epsilon_b, ss) = (if do_separation then get_stream_bg_weight_consts ss streams else (0, ss));
          sep = (if do_separation then Some (epsilon_b, setSeparationConstants ap) else None)
      in do { s \<leftarrow> likelihood_stars pf ap sc streams sg results sep stars
                 \<lparr>ll_es = es, ll_prob = ZERO_DKAHAN, ll_num_zero = 0, ll_ss = ss, ll_dsfmt = d, ll_lines = []\<rparr>;
              Some (calculateLikelihoods results (ll_prob s) (es_bgSum (ll_es s)) (es_streamSums (ll_es s))
                      (List.length stars) (List.length (st_parameters streams)) 0, ll_dsfmt s, List.rev (ll_lines s)) })"

definition newStreamStats :: "nat \<Rightarrow> StreamStats list" where
  "newStreamStats number_streams =
     replicate number_streams \<lparr>ss_q = 0, ss_nstars = 0, ss_sprob = 0, ss_psg = 0, ss_epsilon_s = 0\<rparr>"

text \<open>\<open>file_opens\<close> is the outcome of opening the output of the separation; \<open>True\<close> in the result is an error.\<close>

definition likelihood :: "probability_func \<Rightarrow> SeparationResults \<Rightarrow> AstronomyParameters \<Rightarrow> mwvector list \<Rightarrow> StreamConstants list
    \<Rightarrow> Streams \<Rightarrow> StreamGauss \<Rightarrow> bool \<Rightarrow> bool \<Rightarrow> dsfmt_t
    \<Rightarrow> (bool \<times> SeparationResults \<times> dsfmt_t \<times> (nat \<times> mwvector) list) option" where
  "likelihood pf results ap stars sc streams sg do_separation file_opens d =
     (if do_separation \<and> \<not> file_opens then Some (True, results, d, [])
      else let ss = (if do_separation then newStreamStats (List.length (st_parameters streams)) else [])
           in map_option (\<lambda>r. (False, r)) (likelihood_sum pf results ap stars sc streams sg (newEvaluationState ap) do_separation ss d))"

section \<open>Results\<close>

definition newSeparationResults :: "nat \<Rightarrow> SeparationResults" where
  "newSeparationResults numberStreams =
     \<lparr>likelihood_value = NaN, backgroundIntegral = NaN, backgroundLikelihood = NaN,
      res_streamIntegrals = replicate numberStreams NaN, streamLikelihoods = replicate numberStreams NaN\<rparr>"

definition checkSeparationResults :: "SeparationResults \<Rightarrow> nat \<Rightarrow> bool" where
  "checkSeparationResults results numberStreams \<longleftrightarrow>
     \<not> isfinite (likelihood_value results) \<or> \<not> isfinite (backgroundIntegral results) \<or> \<not> isfinite (backgroundLikelihood results)
     \<or> (\<exists>i < numberStreams. \<not> isfinite (res_streamIntegrals results ! i) \<or> \<not> isfinite (streamLikelihoods results ! i))"

end
