(* ===== verification/Sep_LikelihoodProps.thy ===== *)
theory Sep_LikelihoodProps
  imports Sep_Likelihood
begin

text \<open>
  The likelihood is the mean logarithm of a mixture density, the separation draws each stream with its
  share of that density, a star of probability 0 spoils the result, and the rotation that the separation
  applies to its output turns the one vector into the other.
\<close>

section \<open>Likelihood\<close>

text \<open>The probabilities at a star.\<close>

definition star_probs :: "probability_func \<Rightarrow> AstronomyParameters \<Rightarrow> StreamConstants list \<Rightarrow> StreamGauss \<Rightarrow> mwvector \<Rightarrow> dbl \<times> dbl list" where
  "star_probs pf ap sc sg point =
     (let rc = calcRConstsLik (Z point) ap; pts = setSplitRPoints ap sg rc
      in pf ap sc (sg_dx sg) (fst pts) (snd pts) (lb_trig \<lparr>lb_l = X point, lb_b = Y point\<rparr>) (rc_gPrime rc)
           (calcReffXrRp3 (Z point) (rc_gPrime rc)))"

text \<open>The density at a star: the sum over background and streams, each over its integral and weighted.\<close>

definition mixture :: "Streams \<Rightarrow> real \<Rightarrow> real list \<Rightarrow> real \<Rightarrow> real list \<Rightarrow> real" where
  "mixture streams B Is b ss =
     (let (epsilon_b, stats) = get_stream_bg_weight_consts (newStreamStats (List.length (st_parameters streams))) streams
      in epsilon_b * b / B + (\<Sum>i<List.length (st_parameters streams). ss_epsilon_s (stats ! i) * ss ! i / Is ! i))"

lemma fold_plus_sum: "fold (\<lambda>p d. d + f p) ps (x :: real) = x + (\<Sum>i<List.length ps. f (ps ! i))"
proof -
  have "fold (\<lambda>p d. d + f p) ps x = x + sum_list (map f ps)" for x by (induction ps arbitrary: x) simp_all
  then show ?thesis by (simp add: sum_list_sum_nth atLeast0LessThan)
qed

lemma fold_dbl_sum: "(\<And>i. i < n \<Longrightarrow> g i = Fin (f i)) \<Longrightarrow> fold (\<lambda>i s. s + g i) [0..<n] (Fin x) = Fin (x + (\<Sum>i<n. f i))"
  by (induction n) (simp_all add: add.assoc)

lemma sum_of_weights:
  "st_sumExpWeights (setExpStreamWeights streams) = (1 + (\<Sum>i<List.length (st_parameters streams). exp (sp_epsilon (st_parameters streams ! i)))) / 1000"
  by (simp add: setExpStreamWeights_def Let_def fold_map o_def fold_plus_sum[of "\<lambda>p. exp (sp_epsilon p)"])

lemma weights_pos: "0 < 1 + (\<Sum>i<n. exp (f i) :: real)"
  by (intro add_pos_nonneg sum_nonneg) simp_all

lemma mixture_weights:
  "mixture streams B Is b ss = (b / B + (\<Sum>i<List.length (st_parameters streams). ss ! i / Is ! i * exp (sp_epsilon (st_parameters streams ! i))))
     / (1 + (\<Sum>i<List.length (st_parameters streams). exp (sp_epsilon (st_parameters streams ! i))))"
proof -
  let ?D = "1 + (\<Sum>i<List.length (st_parameters streams). exp (sp_epsilon (st_parameters streams ! i)))"
  have "(\<Sum>i<List.length (st_parameters streams). exp (sp_epsilon (st_parameters streams ! i)) / ?D * ss ! i / Is ! i)
      = (\<Sum>i<List.length (st_parameters streams). ss ! i / Is ! i * exp (sp_epsilon (st_parameters streams ! i))) / ?D"
    unfolding sum_divide_distrib by (intro sum.cong) (simp_all add: mult_ac)
  then show ?thesis
    by (simp add: mixture_def get_stream_bg_weight_consts_def Let_def fold_plus_sum[of "\<lambda>p. exp (sp_epsilon p)"]
        newStreamStats_def add_divide_distrib mult_ac)
qed

lemma likelihood_star_fin:
  assumes "ap_q ap \<noteq> 0" "ap_number_streams ap = List.length (st_parameters streams)"
    and "star_probs pf ap sc sg point = (Fin b, map Fin ss)" "List.length ss = ap_number_streams ap"
    and "backgroundIntegral results = Fin B" "res_streamIntegrals results = map Fin Is" "List.length Is = ap_number_streams ap"
    and "0 < b" "0 < B" "\<And>i. i < List.length ss \<Longrightarrow> 0 \<le> ss ! i \<and> 0 < Is ! i"
    and "ll_prob s = kfin x"
  shows "ll_prob (snd (likelihood_star pf ap sc (setExpStreamWeights streams) sg results point s))
    = kfin (x + (log 10 (mixture streams B Is b ss) + 3))"
proof -
  let ?n = "List.length (st_parameters streams)"
  let ?D = "1 + (\<Sum>i<?n. exp (sp_epsilon (st_parameters streams ! i)))"
  let ?S = "b / B + (\<Sum>i<?n. ss ! i / Is ! i * exp (sp_epsilon (st_parameters streams ! i)))"
  have n: "List.length ss = ?n" "List.length Is = ?n" using assms(2,4,7) by simp_all
  have probs: "pf ap sc (sg_dx sg) (fst (setSplitRPoints ap sg (calcRConstsLik (Z point) ap)))
      (snd (setSplitRPoints ap sg (calcRConstsLik (Z point) ap))) (lb_trig \<lparr>lb_l = X point, lb_b = Y point\<rparr>)
      (rc_gPrime (calcRConstsLik (Z point) ap)) (calcReffXrRp3 (Z point) (rc_gPrime (calcRConstsLik (Z point) ap)))
      = (Fin b, map Fin ss)"
    using assms(3) by (simp add: star_probs_def Let_def)
  have e: "sp_epsilonExp (st_parameters (setExpStreamWeights streams) ! i) = exp (sp_epsilon (st_parameters streams ! i))"
    if "i < ?n" for i
    using that by (simp add: setExpStreamWeights_def Let_def)
  define g where "g = (\<lambda>i. map (\<lambda>i. map Fin ss ! i / map Fin Is ! i * Fin (sp_epsilonExp (st_parameters (setExpStreamWeights streams) ! i))) [0..<?n] ! i)"
  have "g i = Fin (ss ! i / Is ! i * exp (sp_epsilon (st_parameters streams ! i)))" if "i < ?n" for i
    using that n assms(10)[of i] by (simp add: g_def e)
  then have S: "fold (\<lambda>i s. s + g i) [0..<?n] (Fin (b / B)) = Fin ?S" by (rule fold_dbl_sum)
  have D: "0 < ?D" by (rule weights_pos)
  have "0 \<le> (\<Sum>i<?n. ss ! i / Is ! i * exp (sp_epsilon (st_parameters streams ! i)))"
    using assms(10) n by (intro sum_nonneg) (simp add: less_imp_le)
  then have pos: "0 < ?S" using assms(8,9) by (simp add: add_pos_nonneg)
  have m: "?S / (?D / 1000) = mixture streams B Is b ss * 1000" using D by (simp add: mixture_weights)
  have mpos: "0 < mixture streams B Is b ss" using pos D by (simp add: mixture_weights)
  have "log 10 1000 = (3 :: real)" using log_nat_power[of 10 10 3] by simp
  then have l: "dlog10 (Fin ?S / Fin (?D / 1000)) = Fin (log 10 (mixture streams B Is b ss) + 3)"
    using D m mpos by (simp add: log_mult)
  have muleps: "mw_cmpnzero_muleps (Fin z) SEPARATION_EPS" for z
    by (simp add: mw_cmpnzero_muleps_def SEPARATION_EPS_def mult_left_le)
  have fin: "Fin ?S / Fin (?D / 1000) = Fin (?S / (?D / 1000))" using D by simp
  show ?thesis
    using assms(1,2,5,6,9,11) S[unfolded g_def] l muleps fin
    by (simp add: likelihood_star_def likelihood_probability_def Let_def split_beta probs sum_of_weights)
qed

text \<open>What is assumed of a star: finite probabilities, that of the background positive.\<close>

definition regular_star :: "probability_func \<Rightarrow> AstronomyParameters \<Rightarrow> StreamConstants list \<Rightarrow> StreamGauss \<Rightarrow> mwvector \<Rightarrow> bool" where
  "regular_star pf ap sc sg point \<longleftrightarrow> (\<exists>b ss. star_probs pf ap sc sg point = (Fin b, map Fin ss)
     \<and> List.length ss = ap_number_streams ap \<and> 0 < b \<and> (\<forall>s \<in> set ss. 0 \<le> s))"

definition star_density :: "probability_func \<Rightarrow> AstronomyParameters \<Rightarrow> StreamConstants list \<Rightarrow> StreamGauss \<Rightarrow> Streams \<Rightarrow> real
    \<Rightarrow> real list \<Rightarrow> mwvector \<Rightarrow> real" where
  "star_density pf ap sc sg streams B Is point =
     (case star_probs pf ap sc sg point of (b, ss) \<Rightarrow> mixture streams B Is (dval b) (map dval ss))"

lemma likelihood_star_density:
  assumes "ap_q ap \<noteq> 0" "ap_number_streams ap = List.length (st_parameters streams)" "regular_star pf ap sc sg point"
    and "backgroundIntegral results = Fin B" "res_streamIntegrals results = map Fin Is" "List.length Is = ap_number_streams ap"
    and "0 < B" "\<forall>I \<in> set Is. 0 < I" "ll_prob s = kfin x"
  shows "ll_prob (snd (likelihood_star pf ap sc (setExpStreamWeights streams) sg results point s))
    = kfin (x + (log 10 (star_density pf ap sc sg streams B Is point) + 3))"
proof -
  obtain b ss where "star_probs pf ap sc sg point = (Fin b, map Fin ss)" "List.length ss = ap_number_streams ap" "0 < b"
    and pos: "\<forall>s \<in> set ss. 0 \<le> s"
    using assms(3) unfolding regular_star_def by blast
  moreover have "0 \<le> ss ! i \<and> 0 < Is ! i" if "i < List.length ss" for i
    using that pos assms(6,8) calculation(2) by simp
  ultimately show ?thesis
    using likelihood_star_fin[OF assms(1,2) _ _ assms(4,5,6) _ assms(7) _ assms(9)]
    by (simp add: star_density_def o_def)
qed

lemma likelihood_stars_density:
  assumes "ap_q ap \<noteq> 0" "ap_number_streams ap = List.length (st_parameters streams)"
    and "backgroundIntegral results = Fin B" "res_streamIntegrals results = map Fin Is" "List.length Is = ap_number_streams ap"
    and "0 < B" "\<forall>I \<in> set Is. 0 < I"
  shows "\<forall>p \<in> set stars. regular_star pf ap sc sg p \<Longrightarrow> ll_prob s = kfin x \<Longrightarrow>
    \<exists>s'. likelihood_stars pf ap sc (setExpStreamWeights streams) sg results None stars s = Some s' \<and> ll_dsfmt s' = ll_dsfmt s
      \<and> ll_lines s' = ll_lines s
      \<and> ll_prob s' = kfin (x + (\<Sum>p\<leftarrow>stars. log 10 (star_density pf ap sc sg streams B Is p) + 3))"
proof (induction stars arbitrary: s x)
  case (Cons p stars)
  define s1 where "s1 = snd (likelihood_star pf ap sc (setExpStreamWeights streams) sg results p s)"
  have "ll_prob s1 = kfin (x + (log 10 (star_density pf ap sc sg streams B Is p) + 3))"
    unfolding s1_def using Cons.prems by (intro likelihood_star_density[OF assms(1,2) _ assms(3-7)]) simp_all
  moreover have "ll_dsfmt s1 = ll_dsfmt s" "ll_lines s1 = ll_lines s"
    by (simp_all add: s1_def likelihood_star_def Let_def split_beta)
  ultimately show ?case
    using Cons.IH[of s1 "x + (log 10 (star_density pf ap sc sg streams B Is p) + 3)"] Cons.prems(1)
    by (auto simp: split_beta s1_def[symmetric] add.assoc)
qed simp

text \<open>C15: the likelihood is the mean of the logarithms of a normalised mixture. With weights set by
  \<open>setExpStreamWeights\<close> and finite positive integrals, for stars whose probabilities are finite and
  that of the background positive, the search likelihood is the mean over the stars of \<open>log10\<close> of the
  density, in which background and streams enter over their integrals with the weights that
  \<open>get_stream_bg_weight_consts\<close> gives for the separation; those weights add up to 1. The factors of
  1000 in the sum of weights and 3 in the result cancel.\<close>

theorem likelihood_is_mixture:
  assumes "ap_q ap \<noteq> 0" "ap_number_streams ap = List.length (st_parameters streams)"
    and "backgroundIntegral results = Fin B" "res_streamIntegrals results = map Fin Is" "List.length Is = ap_number_streams ap"
    and "0 < B" "\<forall>I \<in> set Is. 0 < I" "stars \<noteq> []" "\<forall>p \<in> set stars. regular_star pf ap sc sg p"
  shows "\<exists>res. likelihood pf results ap stars sc (setExpStreamWeights streams) sg False opened d = Some (False, res, d, [])
    \<and> likelihood_value res = Fin ((\<Sum>p\<leftarrow>stars. log 10 (star_density pf ap sc sg streams B Is p)) / List.length stars)
    \<and> (let (epsilon_b, stats) = get_stream_bg_weight_consts (newStreamStats (List.length (st_parameters streams))) streams
       in epsilon_b + (\<Sum>s\<leftarrow>stats. ss_epsilon_s s) = 1)"
proof -
  obtain s' where s': "likelihood_stars pf ap sc (setExpStreamWeights streams) sg results None stars
      \<lparr>ll_es = newEvaluationState ap, ll_prob = ZERO_DKAHAN, ll_num_zero = 0, ll_ss = [], ll_dsfmt = d, ll_lines = []\<rparr> = Some s'"
    "ll_dsfmt s' = d" "ll_lines s' = []" "ll_prob s' = kfin (\<Sum>p\<leftarrow>stars. log 10 (star_density pf ap sc sg streams B Is p) + 3)"
    using likelihood_stars_density[OF assms(1-7,9), of "\<lparr>ll_es = newEvaluationState ap, ll_prob = ZERO_DKAHAN, ll_num_zero = 0,
        ll_ss = [], ll_dsfmt = d, ll_lines = []\<rparr>" 0]
    by (auto simp: zero_kfin)
  have "(\<Sum>p\<leftarrow>stars. log 10 (star_density pf ap sc sg streams B Is p) + 3)
      = (\<Sum>p\<leftarrow>stars. log 10 (star_density pf ap sc sg streams B Is p)) + 3 * List.length stars"
    by (simp add: sum_list_addf sum_list_const_mult sum_list_triv)
  then have v: "calculateLikelihood (ll_prob s') (List.length stars) 0
      = Fin ((\<Sum>p\<leftarrow>stars. log 10 (star_density pf ap sc sg streams B Is p)) / List.length stars)"
    using assms(8) by (simp add: calculateLikelihood_def s'(4) add_divide_distrib)
  let ?n = "List.length (st_parameters streams)"
  let ?E = "\<Sum>i<?n. exp (sp_epsilon (st_parameters streams ! i))"
  have "1 / (1 + ?E) + (\<Sum>i<?n. exp (sp_epsilon (st_parameters streams ! i)) / (1 + ?E)) = 1"
    using weights_pos[of "\<lambda>i. sp_epsilon (st_parameters streams ! i)" ?n]
    by (simp add: sum_divide_distrib[symmetric] add_divide_distrib[symmetric])
  then have w: "let (epsilon_b, stats) = get_stream_bg_weight_consts (newStreamStats ?n) streams
       in epsilon_b + (\<Sum>s\<leftarrow>stats. ss_epsilon_s s) = 1"
    by (simp add: get_stream_bg_weight_consts_def Let_def fold_plus_sum[of "\<lambda>p. exp (sp_epsilon p)"] o_def
        interv_sum_list_conv_sum_set_nat atLeast0LessThan)
  show ?thesis using s' v w by (simp add: likelihood_def likelihood_sum_def calculateLikelihoods_def)
qed

text \<open>A sample: no streams, a flat background, a quadrature of two equal points.\<close>

definition sample_sg :: "real \<Rightarrow> StreamGauss" where
  "sample_sg W = \<lparr>sg_dx = [0, 0], sg_W = [W, W]\<rparr>"

definition sample_results :: SeparationResults where
  "sample_results = \<lparr>likelihood_value = NaN, backgroundIntegral = Fin 2, backgroundLikelihood = NaN, res_streamIntegrals = [],
     streamLikelihoods = []\<rparr>"

definition no_streams :: Streams where
  "no_streams = \<lparr>st_parameters = [], st_sumExpWeights = 1 / 1000\<rparr>"

lemma flat_star:
  assumes "0 < Z point"
  shows "\<exists>k > 0. star_probs probabilities_broken_power_law flat_ap [] (sample_sg W) point = (Fin (W * k), [])"
proof -
  define rc where "rc = calcRConstsLik (Z point) flat_ap"
  define k where "k = qw_r3_N (calc_r_point 0 1 rc flat_ap)"
  have q: "qw_r3_N (calc_r_point 0 W rc flat_ap) = W * k" by (simp add: k_def calc_r_point_def Let_def flat_ap_def sample_ap_def)
  have "0 < rc_coeff rc" "rc_eps rc = 1"
    by (simp_all add: rc_def calcRConstsLik_def rconsts_of_def Let_def flat_ap_def sample_ap_def stdev_def)
  then have k: "0 < k" by (simp add: k_def calc_r_point_def Let_def flat_ap_def sample_ap_def distance_magnitude_def mw_exp10_def)
  have r: "0 < calcReffXrRp3 (Z point) g" for g
    using assms by (simp add: calcReffXrRp3_def Let_def add_pos_pos)
  have b: "broken_power_law_prob flat_ap q r = Fin q" for q r
    by (cases "Fin (ap_sun_r0 flat_ap) / Fin r") (simp_all add: broken_power_law_prob_def flat_ap_def one_dbl_def)
  have ap: "ap_convolve flat_ap = 2" "ap_number_streams flat_ap = 0" by (simp_all add: flat_ap_def sample_ap_def)
  have "[0..<2::nat] = [0, 1]" by (simp add: upt_rec)
  then have "star_probs probabilities_broken_power_law flat_ap [] (sample_sg W) point
      = (Fin ((W * k + W * k) * calcReffXrRp3 (Z point) (rc_gPrime rc)), [])"
    by (simp add: star_probs_def Let_def probabilities_broken_power_law_def convolve_sums_def b rc_def[symmetric] setSplitRPoints_def
        sample_sg_def q zero_dbl_def streamSums_def ap)
  then show ?thesis using k r[of "rc_gPrime rc"]
    by (intro exI[of _ "2 * k * calcReffXrRp3 (Z point) (rc_gPrime rc)"]) (simp add: algebra_simps)
qed

theorem likelihood_is_mixture_witness:
  "\<exists>res. likelihood probabilities_broken_power_law sample_results flat_ap [mw_vec 0 0 20] [] (setExpStreamWeights no_streams)
     (sample_sg 1) False True (dsfmt_init_gen_rand 42) = Some (False, res, dsfmt_init_gen_rand 42, []) \<and> isfinite (likelihood_value res)"
proof -
  have "regular_star probabilities_broken_power_law flat_ap [] (sample_sg 1) (mw_vec 0 0 20)"
    using flat_star[of "mw_vec 0 0 20" 1] by (auto simp: regular_star_def mw_vec_def flat_ap_def)
  then show ?thesis
    using likelihood_is_mixture[of flat_ap no_streams sample_results 2 "[]" "[mw_vec 0 0 20]" probabilities_broken_power_law "[]"
        "sample_sg 1" True "dsfmt_init_gen_rand 42"]
    by (auto simp: flat_ap_def no_streams_def sample_results_def)
qed

section \<open>A star of probability 0\<close>

lemma dkahan_add_bad_sum:
  assumes "\<not> isfinite (dk_sum k) \<or> \<not> isfinite item"
  shows "\<not> isfinite (dk_sum (DKAHAN_ADD k item))"
proof -
  have "\<not> isfinite (x + (y - z))" if "\<not> isfinite x \<or> \<not> isfinite y" for x y z
    using that by (cases x; cases y; cases z) (auto simp: minus_dbl_def)
  then show ?thesis using assms by (simp add: DKAHAN_ADD_def Let_def)
qed

lemma likelihood_star_bad:
  assumes "\<not> isfinite (dk_sum (ll_prob s))"
  shows "\<not> isfinite (dk_sum (ll_prob (snd (likelihood_star pf ap sc streams sg results p s))))"
proof -
  have "\<not> isfinite (x - Fin a)" if "\<not> isfinite x" for x a using that by (cases x) (auto simp: minus_dbl_def)
  then show ?thesis using assms by (simp add: likelihood_star_def Let_def split_beta dkahan_add_bad_sum)
qed

lemma likelihood_star_zero:
  assumes "ap_q ap \<noteq> 0" "star_probs pf ap sc sg point = (bg, ss)"
    and "fold (\<lambda>i s. s + ss ! i / res_streamIntegrals results ! i * Fin (sp_epsilonExp (st_parameters streams ! i)))
      [0..<ap_number_streams ap] (bg / backgroundIntegral results) = Fin 0" "0 < st_sumExpWeights streams"
  shows "\<not> isfinite (dk_sum (ll_prob (snd (likelihood_star pf ap sc streams sg results point s))))"
proof -
  have f: "fold (\<lambda>i s. s + map h [0..<n] ! i) [0..<n] x = fold (\<lambda>i s. s + h i) [0..<n] x" for h n and x :: dbl
    by (intro fold_cong) simp_all
  have "pf ap sc (sg_dx sg) (fst (setSplitRPoints ap sg (calcRConstsLik (Z point) ap)))
      (snd (setSplitRPoints ap sg (calcRConstsLik (Z point) ap))) (lb_trig \<lparr>lb_l = X point, lb_b = Y point\<rparr>)
      (rc_gPrime (calcRConstsLik (Z point) ap)) (calcReffXrRp3 (Z point) (rc_gPrime (calcRConstsLik (Z point) ap))) = (bg, ss)"
    using assms(2) by (simp add: star_probs_def Let_def)
  then have "ll_prob (snd (likelihood_star pf ap sc streams sg results point s)) = DKAHAN_ADD (ll_prob s) NInf"
    using assms(1,3,4) by (simp add: likelihood_star_def likelihood_probability_def Let_def split_beta f mw_cmpnzero_muleps_def)
  then show ?thesis by (simp add: dkahan_add_bad_sum)
qed

lemma likelihood_stars_bad:
  "likelihood_stars pf ap sc streams sg results sep stars s = Some s' \<Longrightarrow>
   \<not> isfinite (dk_sum (ll_prob s)) \<or> (\<exists>p \<in> set stars. \<forall>s. \<not> isfinite (dk_sum (ll_prob (snd (likelihood_star pf ap sc streams sg results p s)))))
   \<Longrightarrow> \<not> isfinite (dk_sum (ll_prob s'))"
proof (induction stars arbitrary: s)
  case (Cons p stars)
  define s1 where "s1 = snd (likelihood_star pf ap sc streams sg results p s)"
  obtain s2 where s2: "likelihood_stars pf ap sc streams sg results sep stars s2 = Some s'" "ll_prob s2 = ll_prob s1"
    using Cons.prems(1) by (auto simp: split_beta s1_def split: option.splits bind_splits)
  have "\<not> isfinite (dk_sum (ll_prob s)) \<Longrightarrow> \<not> isfinite (dk_sum (ll_prob s1))" unfolding s1_def by (rule likelihood_star_bad)
  then show ?case using Cons.IH[OF s2(1)] Cons.prems(2) s2(2) by (auto simp: s1_def)
qed simp

text \<open>C17: a star of probability 0 makes the likelihood of all stars useless. The test for it compares
  \<open>|x|\<close> with \<open>|x| * eps\<close> and is true of 0 too, so the logarithm, minus infinity, is added instead of
  the floor of -238: the sum is not finite in the end, and the results are taken as failed (which
  sets the likelihood to -999), whatever the other stars are.\<close>

theorem zero_star_spoils_likelihood:
  assumes "ap_q ap \<noteq> 0" "point \<in> set stars" "star_probs pf ap sc sg point = (bg, ss)"
    and "fold (\<lambda>i s. s + ss ! i / res_streamIntegrals results ! i * Fin (sp_epsilonExp (st_parameters streams ! i)))
      [0..<ap_number_streams ap] (bg / backgroundIntegral results) = Fin 0" "0 < st_sumExpWeights streams"
    and "likelihood pf results ap stars sc streams sg do_separation opened d = Some (False, res, d', ls)"
  shows "\<not> isfinite (likelihood_value res) \<and> checkSeparationResults res n"
proof -
  obtain sep s s' where run: "likelihood_stars pf ap sc streams sg results sep stars s = Some s'"
    and res: "likelihood_value res = calculateLikelihood (ll_prob s') (List.length stars) 0"
    using assms(6) by (auto simp: likelihood_def likelihood_sum_def Let_def split_beta calculateLikelihoods_def
        split: if_splits bind_splits)
  have "\<not> isfinite (dk_sum (ll_prob s'))"
    using likelihood_stars_bad[OF run] likelihood_star_zero[OF assms(1,3,4,5)] assms(2) by blast
  moreover have "\<not> isfinite ((x + y) / Fin c - Fin 3)" if "\<not> isfinite x" for x y c
    using that by (cases x; cases y) (auto simp: minus_dbl_def split: if_splits)
  ultimately show ?thesis by (simp add: res calculateLikelihood_def checkSeparationResults_def)
qed

theorem zero_star_spoils_likelihood_witness:
  "\<exists>res d' ls. likelihood probabilities_broken_power_law sample_results flat_ap [mw_vec 0 0 20] [] no_streams (sample_sg 0) False True
     (dsfmt_init_gen_rand 42) = Some (False, res, d', ls) \<and> checkSeparationResults res 0"
proof -
  obtain res d' ls where "likelihood probabilities_broken_power_law sample_results flat_ap [mw_vec 0 0 20] [] no_streams (sample_sg 0)
      False True (dsfmt_init_gen_rand 42) = Some (False, res, d', ls)"
    by (simp add: likelihood_def likelihood_sum_def Let_def split_beta)
  moreover
  have "star_probs probabilities_broken_power_law flat_ap [] (sample_sg 0) (mw_vec 0 0 20) = (Fin 0, [])"
    using flat_star[of "mw_vec 0 0 20" 0] by (auto simp: mw_vec_def)
  ultimately show ?thesis
    using zero_star_spoils_likelihood[of flat_ap "mw_vec 0 0 20" "[mw_vec 0 0 20]" probabilities_broken_power_law "[]" "sample_sg 0"
        "Fin 0" "[]" sample_results no_streams False True "dsfmt_init_gen_rand 42"]
    by (auto simp: flat_ap_def no_streams_def sample_results_def)
qed

section \<open>Separation\<close>

text \<open>The shares of the streams in the density at a star.\<close>

lemma twoPanelSeparation_shares:
  assumes "ap_number_streams ap = n" "List.length stats = n" "List.length ss = n" "List.length Is = n"
    and "backgroundIntegral results = Fin B" "res_streamIntegrals results = map Fin Is" "0 < B" "\<forall>I \<in> set Is. 0 < I"
    and "\<forall>s \<in> set ss. 0 \<le> s" "0 < b" "0 < epsilon_b" "\<forall>s \<in> set stats. 0 \<le> ss_epsilon_s s"
  defines "share \<equiv> \<lambda>i. ss_epsilon_s (stats ! i) * ss ! i / Is ! i"
  defines "density \<equiv> epsilon_b * b / B + (\<Sum>i<n. share i)"
  shows "List.length (twoPanelSeparation ap results stats (map Fin ss) (Fin b) epsilon_b) = n" "0 < density"
    "\<And>i. i < n \<Longrightarrow> ss_sprob (twoPanelSeparation ap results stats (map Fin ss) (Fin b) epsilon_b ! i) = Fin (share i / density)
       \<and> 0 \<le> share i"
proof -
  show "List.length (twoPanelSeparation ap results stats (map Fin ss) (Fin b) epsilon_b) = n"
    using assms(1) by (simp add: twoPanelSeparation_def Let_def)
  have nn: "0 \<le> share i" if "i < n" for i
    using that assms(2,3,4,8,9,12) by (simp add: share_def less_imp_le)
  then have "0 \<le> (\<Sum>i<n. share i)" by (intro sum_nonneg) simp
  then show d: "0 < density" using assms(7,10,11) by (simp add: density_def add_pos_nonneg)
  have f: "fold (\<lambda>i s. s + map h [0..<n] ! i) [0..<n] x = fold (\<lambda>i s. s + h i) [0..<n] x" for h and x :: dbl
    by (intro fold_cong) simp_all
  have g: "Fin (ss_epsilon_s (stats ! i)) * map Fin ss ! i / map Fin Is ! i = Fin (share i)" if "i < n" for i
    using that assms(3,4,8) by (simp add: share_def) (metis less_numeral_extra(3) nth_mem)
  have "fold (\<lambda>i s. s + Fin (ss_epsilon_s (stats ! i)) * map Fin ss ! i / map Fin Is ! i) [0..<n] (Fin 0) = Fin (0 + (\<Sum>i<n. share i))"
    using g by (rule fold_dbl_sum)
  then show "ss_sprob (twoPanelSeparation ap results stats (map Fin ss) (Fin b) epsilon_b ! i) = Fin (share i / density) \<and> 0 \<le> share i"
    if "i < n" for i
    using that nn[OF that] g[OF that] assms(1,5,6,7) d
    by (simp add: twoPanelSeparation_def Let_def f zero_dbl_def density_def add.commute del: divide_dbl_simps)
qed

text \<open>The choice is the interval the random number falls in; it is ambiguous only at the first boundary.\<close>

lemma prob_ok_at_interval:
  assumes "1 \<le> n" "n \<le> 4" "\<And>i. i < n \<Longrightarrow> ss_sprob (ss ! i) = Fin (f i) \<and> 0 \<le> f i" "0 < r" "r \<noteq> f 0"
  shows "\<exists>k \<le> n. prob_ok_at (Fin r) ss n = Some k
    \<and> (if k = 0 then (\<Sum>i<n. f i) < r else (\<Sum>i<k - 1. f i) < r \<and> r \<le> (\<Sum>i<k. f i))"
proof -
  have e: "(\<Sum>i<Suc 0. f i) = f 0" "(\<Sum>i<2. f i) = f 0 + f 1" "(\<Sum>i<3. f i) = f 0 + f 1 + f 2"
    "(\<Sum>i<4. f i) = f 0 + f 1 + f 2 + f 3" "(\<Sum>i<Suc (Suc 0). f i) = f 0 + f 1"
    by (simp_all add: eval_nat_numeral)
  consider "n = 1" | "n = 2" | "n = 3" | "n = 4" using assms(1,2) by linarith
  then show ?thesis
  proof cases
    case 1
    then show ?thesis using assms(3)[of 0] assms(4)
      by (cases "f 0 < r") (auto simp: prob_ok_at_def Let_def e intro: exI[of _ 0] exI[of _ 1])
  next
    case 2
    then have s: "ss_sprob (ss ! 0) = Fin (f 0)" "ss_sprob (ss ! 1) = Fin (f 1)" and p: "0 \<le> f 1" using assms(3) by auto
    consider "f 0 + f 1 < r" | "r < f 0" | "f 0 < r" "r \<le> f 0 + f 1" using assms(5) by linarith
    then show ?thesis
      by cases (use 2 s p assms(4) in \<open>auto simp: prob_ok_at_def Let_def e intro: exI[of _ 0] exI[of _ 1] exI[of _ 2]\<close>)
  next
    case 3
    then have s: "ss_sprob (ss ! 0) = Fin (f 0)" "ss_sprob (ss ! 1) = Fin (f 1)" "ss_sprob (ss ! 2) = Fin (f 2)"
      and p: "0 \<le> f 1" "0 \<le> f 2" using assms(3) by auto
    consider "f 0 + f 1 + f 2 < r" | "r < f 0" | "f 0 < r" "r \<le> f 0 + f 1" | "f 0 + f 1 < r" "r \<le> f 0 + f 1 + f 2"
      using assms(5) by linarith
    then show ?thesis
      by cases (use 3 s p assms(4) in \<open>auto simp: prob_ok_at_def Let_def e intro: exI[of _ 0] exI[of _ 1] exI[of _ 2] exI[of _ 3]\<close>)
  next
    case 4
    then have s: "ss_sprob (ss ! 0) = Fin (f 0)" "ss_sprob (ss ! 1) = Fin (f 1)" "ss_sprob (ss ! 2) = Fin (f 2)"
      "ss_sprob (ss ! 3) = Fin (f 3)" and p: "0 \<le> f 1" "0 \<le> f 2" "0 \<le> f 3" using assms(3) by auto
    consider "f 0 + f 1 + f 2 + f 3 < r" | "r < f 0" | "f 0 < r" "r \<le> f 0 + f 1" | "f 0 + f 1 < r" "r \<le> f 0 + f 1 + f 2"
      | "f 0 + f 1 + f 2 < r" "r \<le> f 0 + f 1 + f 2 + f 3"
      using assms(5) by linarith
    then show ?thesis
      by cases (use 4 s p assms(4) in \<open>auto simp: prob_ok_at_def Let_def e
          intro: exI[of _ 0] exI[of _ 1] exI[of _ 2] exI[of _ 3] exI[of _ 4]\<close>)
  qed
qed

text \<open>C16: the separation gives a star to each stream with the probability of its share. For up to four
  streams, finite probabilities and positive integrals, a star is given to stream \<open>k\<close> when the uniform
  random number lies in the \<open>k\<close>th of consecutive intervals, each as long as the share of its stream
  in the mixture density, and to the background behind the last (a number that is exactly the first
  boundary apart); the shares with that of the background add up to 1, and the counter of the
  chosen stream alone goes up.\<close>

theorem separation_draws_shares:
  assumes "ap_number_streams ap = n" "List.length stats = n" "List.length ss = n" "List.length Is = n" "1 \<le> n" "n \<le> 4"
    and "backgroundIntegral results = Fin B" "res_streamIntegrals results = map Fin Is" "0 < B" "\<forall>I \<in> set Is. 0 < I"
    and "\<forall>s \<in> set ss. 0 \<le> s" "0 < b" "0 < epsilon_b" "\<forall>s \<in> set stats. 0 \<le> ss_epsilon_s s"
    and "density = epsilon_b * b / B + (\<Sum>i<n. ss_epsilon_s (stats ! i) * ss ! i / Is ! i)"
    and "share = (\<lambda>i. ss_epsilon_s (stats ! i) * ss ! i / Is ! i / density)"
    and "mwXrandom d 0 1 = (r, d')" "0 < r" "r \<noteq> share 0"
  shows "(\<Sum>i<n. share i) + epsilon_b * b / B / density = 1
    \<and> (\<exists>stats' k point'. separation ap results cmatrix stats (map Fin ss) (Fin b) epsilon_b point d = Some (stats', d', k, point')
       \<and> k \<le> n \<and> (if k = 0 then (\<Sum>i<n. share i) < r else (\<Sum>i<k - 1. share i) < r \<and> r \<le> (\<Sum>i<k. share i))
       \<and> map ss_q stats' = map (\<lambda>i. ss_q (stats ! i) + (if i + 1 = k then 1 else 0)) [0..<n])"
proof -
  note sh = twoPanelSeparation_shares[OF assms(1-4,7-14)]
  define ts where "ts = twoPanelSeparation ap results stats (map Fin ss) (Fin b) epsilon_b"
  have pos: "0 < density" using sh(2) by (simp add: assms(15))
  have p: "ss_sprob (ts ! i) = Fin (share i) \<and> 0 \<le> share i" if "i < n" for i
  proof -
    have "0 \<le> ss_epsilon_s (stats ! i) * ss ! i / Is ! i" using sh(3)[OF that] by blast
    then have "0 \<le> share i" using pos unfolding assms(16) by (rule divide_nonneg_pos)
    then show ?thesis using sh(3)[OF that] by (simp add: ts_def assms(15,16))
  qed
  have "(\<Sum>i<n. share i) = (\<Sum>i<n. ss_epsilon_s (stats ! i) * ss ! i / Is ! i) / density"
    by (simp only: assms(16) sum_divide_distrib)
  then have "(\<Sum>i<n. share i) + epsilon_b * b / B / density
      = (epsilon_b * b / B + (\<Sum>i<n. ss_epsilon_s (stats ! i) * ss ! i / Is ! i)) / density"
    by (simp only: add_divide_distrib add.commute)
  then have "(\<Sum>i<n. share i) + epsilon_b * b / B / density = density / density" by (simp only: assms(15))
  moreover obtain k where k: "k \<le> n" "prob_ok_at (Fin r) ts n = Some k"
    "if k = 0 then (\<Sum>i<n. share i) < r else (\<Sum>i<k - 1. share i) < r \<and> r \<le> (\<Sum>i<k. share i)"
    using prob_ok_at_interval[of n ts share r] p assms(5,6,18,19) by blast
  define stats' where "stats' = (if k \<ge> 1 then ts[k - 1 := (ts ! (k - 1))\<lparr>ss_q := ss_q (ts ! (k - 1)) + 1\<rparr>] else ts)"
  have "separation ap results cmatrix stats (map Fin ss) (Fin b) epsilon_b point d
      = Some (stats', d', k, transform_point ap (lbr2xyz ap point) cmatrix \<lparr>X = ap_m_sun_r0 ap, Y = 0, Z = 0\<rparr>)"
    using k(2) assms(1,17) by (simp add: separation_def Let_def prob_ok_def ts_def[symmetric] stats'_def)
  moreover have "map ss_q stats' = map (\<lambda>i. ss_q (stats ! i) + (if i + 1 = k then 1 else 0)) [0..<n]"
  proof -
    have "List.length ts = n" "\<And>i. i < n \<Longrightarrow> ss_q (ts ! i) = ss_q (stats ! i)"
      using sh(1) assms(1) by (simp_all add: ts_def twoPanelSeparation_def Let_def)
    then show ?thesis using k(1) by (auto simp: stats'_def nth_list_update intro!: nth_equalityI)
  qed
  ultimately show ?thesis using k(1,3) pos by auto
qed

theorem separation_draws_shares_witness:
  "\<exists>b > 0. \<exists>stats' k point' d'. separation sample_ap (sample_results\<lparr>res_streamIntegrals := [Fin 1]\<rparr>) (setSeparationConstants sample_ap)
     [\<lparr>ss_q = 0, ss_nstars = 0, ss_sprob = 0, ss_psg = 0, ss_epsilon_s = 1 / 2\<rparr>] [Fin 1] (Fin b) (1 / 2) (mw_vec 100 20 15) (dsfmt_init_gen_rand 42)
       = Some (stats', d', k, point')"
proof -
  obtain r d' where r: "mwXrandom (dsfmt_init_gen_rand 42) 0 1 = (r, d')" "0 < r"
    using mwXrandom_draw[OF init_ok, of 0 1] by (metis zero_less_one)
  define b :: real where "b = (if r = 2 / 3 then 2 else 1)"
  have "0 < b" "r \<noteq> 1 / 2 / (1 / 2 * b / 2 + 1 / 2)" by (auto simp: b_def)
  then show ?thesis
    using separation_draws_shares[of sample_ap 1 "[\<lparr>ss_q = 0, ss_nstars = 0, ss_sprob = 0, ss_psg = 0, ss_epsilon_s = 1 / 2\<rparr>]"
        "[1]" "[1]" "sample_results\<lparr>res_streamIntegrals := [Fin 1]\<rparr>" 2 b "1 / 2" "1 / 2 * b / 2 + 1 / 2"
        "\<lambda>i. ss_epsilon_s ([\<lparr>ss_q = 0, ss_nstars = 0, ss_sprob = 0, ss_psg = 0, ss_epsilon_s = 1 / 2\<rparr>] ! i) * [1] ! i / [1] ! i
          / (1 / 2 * b / 2 + 1 / 2)" "dsfmt_init_gen_rand 42" r d' "setSeparationConstants sample_ap" "mw_vec 100 20 15"] r
    by (auto simp: sample_ap_def sample_results_def)
qed

section \<open>The rotation\<close>

text \<open>C19: \<open>get_transform\<close> gives the rotation that turns the direction of its first vector into that of its
  second, whenever they are not parallel, and no length changes under it.\<close>

theorem get_transform_turns:
  assumes "mw_sqrv (mw_crossv f t) \<noteq> 0"
  shows "mw_mulmv (get_transform f t) f = mw_mulvs t (mw_absv f / mw_absv t) \<and> mw_sqrv (mw_mulmv (get_transform f t) v) = mw_sqrv v"
proof -
  define C where "C = mw_crossv f t"
  define len where "len = mw_absv C"
  have lagrange: "mw_sqrv C = mw_sqrv f * mw_sqrv t - (mw_dotv f t)\<^sup>2"
    unfolding C_def mw_sqrv_def mw_crossv_def mw_dotv_def mwvector.simps by algebra
  have len: "len \<noteq> 0" "len\<^sup>2 = mw_sqrv C"
    using assms by (simp_all add: len_def C_def mw_absv_def mw_sqrv_nonneg)
  define a b F where "a = mw_absv f" and "b = mw_absv t" and "F = mw_dotv f t"
  have ab2: "a\<^sup>2 = mw_sqrv f" "b\<^sup>2 = mw_sqrv t" by (simp_all add: a_def b_def mw_absv_def mw_sqrv_nonneg)
  have len2: "len\<^sup>2 = (a * b)\<^sup>2 - F\<^sup>2" by (simp add: len(2) lagrange ab2 F_def power_mult_distrib)
  have "a * b \<noteq> 0"
  proof
    assume "a * b = 0"
    then have "len\<^sup>2 = - F\<^sup>2" using len2 by simp
    then show False using zero_less_power2[of len] zero_le_power2[of F] len(1) by linarith
  qed
  moreover have "0 \<le> a" "0 \<le> b" by (simp_all add: a_def b_def mw_absv_def mw_sqrv_nonneg)
  ultimately have ab: "0 < a * b" "a \<noteq> 0" "b \<noteq> 0" by (auto simp: less_le)
  define \<theta> where "\<theta> = arccos (F / (a * b))"
  have "F\<^sup>2 \<le> (a * b)\<^sup>2" using len2 by (smt (verit) zero_le_power2)
  then have "\<bar>F\<bar> \<le> a * b" using ab(1) by (metis abs_le_square_iff abs_of_pos)
  then have r: "- 1 \<le> F / (a * b)" "F / (a * b) \<le> 1" using ab(1) by (simp_all add: le_divide_eq divide_le_eq)
  have c: "cos \<theta> = F / (a * b)" unfolding \<theta>_def by (rule cos_arccos[OF r])
  have "(sin \<theta>)\<^sup>2 = (len / (a * b))\<^sup>2" 
    using len2 ab by (simp add: sin_squared_eq c power_divide) (simp add: field_simps)
  moreover have "0 \<le> sin \<theta>" unfolding \<theta>_def using arccos_bounded[OF r] by (intro sin_ge_zero) auto
  moreover have "0 \<le> len / (a * b)" using ab(1) by (simp add: len_def mw_absv_def mw_sqrv_nonneg)
  ultimately have s: "sin \<theta> = len / (a * b)" using power2_eq_iff_nonneg by blast
  define w q where "w = cos (1 / 2 * \<theta>)" and "q = sin (1 / 2 * \<theta>) / len"
  have half: "2 * (1 / 2 * \<theta>) = \<theta>" by simp
  have "2 * (sin (1 / 2 * \<theta>))\<^sup>2 = 1 - cos \<theta>" using cos_double[of "1 / 2 * \<theta>"] unfolding half by (simp add: cos_squared_eq)
  then have q2: "2 * (q\<^sup>2 * len\<^sup>2) = 1 - F / (a * b)" using len(1) by (simp add: q_def c power_divide)
  have "2 * w * sin (1 / 2 * \<theta>) = sin \<theta>" using sin_double[of "1 / 2 * \<theta>"] unfolding half by (simp add: w_def)
  then have qw: "2 * w * q = 1 / (a * b)" using len(1) by (simp add: q_def s)
  have unit: "q\<^sup>2 * len\<^sup>2 + w\<^sup>2 = 1" using len(1) by (simp add: q_def w_def power_divide)
  define x y z where "x = X C * q" and "y = Y C * q" and "z = Z C * q"
  have M: "get_transform f t = (\<lparr>X = 1 - 2 * (y * y + z * z), Y = 2 * (x * y - z * w), Z = 2 * (x * z + y * w)\<rparr>,
      \<lparr>X = 2 * (x * y + z * w), Y = 1 - 2 * (x * x + z * z), Z = 2 * (y * z - x * w)\<rparr>,
      \<lparr>X = 2 * (x * z - y * w), Y = 2 * (y * z + x * w), Z = 1 - 2 * (x * x + y * y)\<rparr>)"
    by (simp add: get_transform_def mw_vecangle_def mw_normalize_def Let_def C_def[symmetric] len_def[symmetric] a_def[symmetric]
        b_def[symmetric] F_def[symmetric] \<theta>_def[symmetric] x_def y_def z_def w_def q_def)
  have xyz: "x\<^sup>2 + y\<^sup>2 + z\<^sup>2 + w\<^sup>2 = 1" "2 * (x\<^sup>2 + y\<^sup>2 + z\<^sup>2) = 1 - F / (a * b)"
    using unit q2 unfolding len(2) x_def y_def z_def mw_sqrv_def by algebra+
  have perp: "X C * X f + Y C * Y f + Z C * Z f = 0" unfolding C_def mw_crossv_def mwvector.simps by algebra
  have tx: "Y C * Z f - Z C * Y f = a\<^sup>2 * X t - F * X f" "Z C * X f - X C * Z f = a\<^sup>2 * Y t - F * Y f"
    "X C * Y f - Y C * X f = a\<^sup>2 * Z t - F * Z f"
    unfolding ab2 C_def F_def mw_crossv_def mw_sqrv_def mw_dotv_def mwvector.simps by algebra+
  have "mw_mulmv (get_transform f t) f = mw_mulvs t (a / b)"
  proof -
    define k where "k = 1 / (a * b)"
    have k: "a\<^sup>2 * k = a / b" using ab by (simp add: k_def power2_eq_square)
    have q2': "2 * (x\<^sup>2 + y\<^sup>2 + z\<^sup>2) = 1 - F * k" using xyz(2) by (simp add: k_def)
    have qw': "2 * w * q = k" using qw by (simp add: k_def)
    have "f1 * (2 * (x * y - z * w)) + f0 * (1 - 2 * (y * y + z * z)) + f2 * (2 * (x * z + y * w)) = t0 * (a / b)"
      if "f0 = X f" "f1 = Y f" "f2 = Z f" "t0 = X t" for f0 f1 f2 t0
      using perp tx(1) q2' qw' k that unfolding x_def y_def z_def by algebra
    moreover have "f1 * (1 - 2 * (x * x + z * z)) + f0 * (2 * (x * y + z * w)) + f2 * (2 * (y * z - x * w)) = t0 * (a / b)"
      if "f0 = X f" "f1 = Y f" "f2 = Z f" "t0 = Y t" for f0 f1 f2 t0
      using perp tx(2) q2' qw' k that unfolding x_def y_def z_def by algebra
    moreover have "f1 * (2 * (y * z + x * w)) + f0 * (2 * (x * z - y * w)) + f2 * (1 - 2 * (x * x + y * y)) = t0 * (a / b)"
      if "f0 = X f" "f1 = Y f" "f2 = Z f" "t0 = Z t" for f0 f1 f2 t0
      using perp tx(3) q2' qw' k that unfolding x_def y_def z_def by algebra
    ultimately show ?thesis
      by (simp add: M mw_mulmv_def mw_dotv_def mw_mulvs_def algebra_simps)
  qed
  moreover have "mw_sqrv (mw_mulmv (get_transform f t) v) = mw_sqrv v"
    unfolding M mw_mulmv_def mw_sqrv_def mw_dotv_def prod.case mwvector.simps using xyz(1) by algebra
  ultimately show ?thesis by (simp add: a_def b_def)
qed

theorem get_transform_turns_witness:
  "mw_mulmv (get_transform (mw_vec 3 0 0) (mw_vec 0 0 1)) (mw_vec 3 0 0) = mw_vec 0 0 3"
  using get_transform_turns[of "mw_vec 3 0 0" "mw_vec 0 0 1" ZERO_VECTOR] by (simp add: vec_defs mw_vec_def)

end
