(* ===== verification/Sep_Evaluate.thy ===== *)
theory Sep_Evaluate
  imports Sep_LikelihoodProps
begin

text \<open>
  The rest of \<open>evaluation.c\<close> and \<open>evaluation_state.c\<close>, \<open>setParameters\<close> of \<open>parameters.c\<close> and the loop over the
  work units, \<open>worker\<close> of \<open>separation_main.c\<close>: a work unit is a set of parameters given on the command
  line; one checkpoint file serves all of them. The variants of the probabilities with vector
  instructions or OpenCL are not chosen. \<open>None\<close> is the end of the program by \<open>mw_fail\<close>, \<open>mw_panic\<close> or an
  invalid operation, or an iteration that does not end.
\<close>

section \<open>State\<close>

text \<open>The process: the files, the random numbers, the results printed, and the output of the separation.\<close>

record SepProc =
  pr_world :: SepWorld
  pr_dsfmt :: dsfmt_t
  pr_printed :: "(nat \<times> SeparationResults) list"
  pr_lines :: "(nat \<times> mwvector) list"

text \<open>What is the same for all work units; no stars when their file cannot be read.\<close>

record SepJob =
  job_ias :: "IntegralArea list"
  job_stars :: "mwvector list option"
  job_do_separation :: bool
  job_outfile_opens :: bool
  job_resolveCheckpoint :: bool

section \<open>One evaluation\<close>

text \<open>The first file is the one on disk; \<open>True\<close> is the return value 1.\<close>

definition maybeResume :: "SepEnv \<Rightarrow> EvaluationState \<times> SepWorld \<Rightarrow> bool \<times> EvaluationState \<times> SepWorld" where
  "maybeResume env = (\<lambda>(es, w).
     case sw_files w of
       [] \<Rightarrow> (False, es, w)
     | file # _ \<Rightarrow> (case readCheckpoint (env_version env) file es of
                      None \<Rightarrow> (True, es, w\<lparr>sw_files := []\<rparr>)
                    | Some es \<Rightarrow> (False, es, w)))"

definition finalCheckpoint :: "SepEnv \<Rightarrow> EvaluationState \<times> SepWorld \<Rightarrow> EvaluationState \<times> SepWorld" where
  "finalCheckpoint env s = snd (writeCheckpoint env s)"

text \<open>\<open>evaluate\<close> from the decision whether the integrals are done: first the integrals.\<close>

definition evaluate_integrals :: "SepEnv \<Rightarrow> probability_func \<Rightarrow> AstronomyParameters \<Rightarrow> IntegralArea list \<Rightarrow> StreamConstants list
    \<Rightarrow> StreamGauss \<Rightarrow> bool \<Rightarrow> EvaluationState \<times> SepWorld \<Rightarrow> (bool \<times> EvaluationState \<times> SepWorld) option" where
  "evaluate_integrals env pf ap ias sc sg is_done s =
     (if is_done then Some (False, s)
      else do { (rc, s) \<leftarrow> calculateIntegrals env pf ap ias sc sg s;
                if rc then Some (True, s) else Some (False, finalCheckpoint env s) })"

definition evaluate_from :: "SepEnv \<Rightarrow> SepJob \<Rightarrow> Streams \<Rightarrow> StreamConstants list \<Rightarrow> StreamGauss \<Rightarrow> SeparationResults \<Rightarrow> AstronomyParameters
    \<Rightarrow> bool \<Rightarrow> EvaluationState \<Rightarrow> SepProc \<Rightarrow> (bool \<times> SepProc) option" where
  "evaluate_from env job streams sc sg results ap is_done es pr =
     (let pf = selectStandardFunction (ap_background_profile ap)
      in do {
        (failed, es, w) \<leftarrow> evaluate_integrals env pf ap (job_ias job) sc sg is_done (es, pr_world pr);
        let pr = pr\<lparr>pr_world := w\<rparr>;
        if failed then Some (True, pr)
        else let (bg, ss) = getFinalIntegrals es (ap_number_streams ap) (ap_number_integrals ap);
                 results = results\<lparr>backgroundIntegral := bg, res_streamIntegrals := ss\<rparr>
             in case job_stars job of
                  None \<Rightarrow> Some (True, pr)
                | Some stars \<Rightarrow> do {
                    (rc, results, d, ls) \<leftarrow> likelihood pf results ap stars sc streams sg (job_do_separation job)
                                              (job_outfile_opens job) (pr_dsfmt pr);
                    let results = (if checkSeparationResults results (ap_number_streams ap)
                                   then results\<lparr>likelihood_value := Fin (- 999)\<rparr> else results);
                    let (_, _, w) = writeCheckpoint env (es\<lparr>es_WUPrinted := True\<rparr>, pr_world pr);
                    Some (rc, pr\<lparr>pr_world := w, pr_dsfmt := d, pr_printed := pr_printed pr @ [(ap_currentWU ap, results)],
                              pr_lines := (if job_do_separation job \<and> job_outfile_opens job then ls else pr_lines pr)\<rparr>) } })"

text \<open>The results are the return value, \<open>ap\<close> (its number of the work unit), \<open>*ignoreCheckpoint\<close> and the process.\<close>

definition evaluate :: "SepEnv \<Rightarrow> SepJob \<Rightarrow> Streams \<Rightarrow> StreamConstants list \<Rightarrow> SeparationResults \<Rightarrow> AstronomyParameters \<times> bool \<times> SepProc
    \<Rightarrow> (bool \<times> AstronomyParameters \<times> bool \<times> SepProc) option" where
  "evaluate env job streams sc results = (\<lambda>(ap, ignoreCheckpoint, pr).
     let es = newEvaluationState ap
     in do {
       sg \<leftarrow> getStreamGauss (ap_convolve ap);
       if job_resolveCheckpoint job then Some (True, ap, ignoreCheckpoint, pr)
       else if ignoreCheckpoint
       then do { (rc, pr) \<leftarrow> evaluate_from env job streams sc sg results ap False es pr;
                 Some (rc, ap, ignoreCheckpoint, pr) }
       else case maybeResume env (es, pr_world pr) of
              (failed, es, w) \<Rightarrow>
                (let pr = pr\<lparr>pr_world := w\<rparr>
                 in if failed then Some (True, ap, ignoreCheckpoint, pr)
                    else if es_currentWU es > ap_currentWU ap
                    then Some (False, ap\<lparr>ap_currentWU := es_currentWU es - 1\<rparr>,
                               if es_WUPrinted es then True else ignoreCheckpoint, pr)
                    else if es_WUPrinted es then Some (False, ap, True, pr)
                    else do { (rc, pr) \<leftarrow> evaluate_from env job streams sc sg results ap (integralsAreDone es) es pr;
                              Some (rc, ap, True, pr) }) })"

section \<open>The work units\<close>

text \<open>\<open>numberParameters\<close> is unsigned, so fewer than two wrap around.\<close>

definition setParameters :: "AstronomyParameters \<Rightarrow> BackgroundParameters \<Rightarrow> Streams \<Rightarrow> real list \<Rightarrow> nat
    \<Rightarrow> bool \<times> BackgroundParameters \<times> Streams" where
  "setParameters ap bgp streams parameters numberParameters =
     (let nBGParams = 2; nStreamParams = 6;
          rest = nat ((int numberParameters - 2) mod 2 ^ 32);
          nStream = rest div nStreamParams
      in if nStream \<noteq> ap_number_streams ap then (True, bgp, streams)
         else if rest mod nStreamParams \<noteq> 0 then (True, bgp, streams)
         else (False, bgp\<lparr>bp_epsilon := parameters ! 0, bp_q := parameters ! 1\<rparr>,
               fold (\<lambda>i streams. let idx = nBGParams + i * nStreamParams
                      in streams\<lparr>st_parameters := (st_parameters streams)[i := (st_parameters streams ! i)
                           \<lparr>sp_epsilon := parameters ! (idx + 0), sp_mu := parameters ! (idx + 1), sp_r := parameters ! (idx + 2),
                            sp_theta := parameters ! (idx + 3), sp_phi := parameters ! (idx + 4), sp_sigma := parameters ! (idx + 5)\<rparr>]\<rparr>)
                 [0..<nStream] streams))"

text \<open>The part of the body of the loop before \<open>evaluate\<close>; \<open>None\<close> is \<open>return 1\<close>. No arguments are an empty list.\<close>

definition prepare_unit :: "real list \<Rightarrow> nat \<Rightarrow> AstronomyParameters \<times> BackgroundParameters \<times> Streams
    \<Rightarrow> (AstronomyParameters \<times> BackgroundParameters \<times> Streams \<times> StreamConstants list) option" where
  "prepare_unit numArgs params_per_workunit = (\<lambda>(ap, bgp, streams).
     let (failed, bgp, streams) =
           (if numArgs \<noteq> [] then setParameters ap bgp streams (drop (params_per_workunit * ap_currentWU ap) numArgs) params_per_workunit
            else (False, bgp, streams))
     in if failed then None
        else case setAstronomyParameters ap bgp of
               (rc, ap) \<Rightarrow>
                 if rc then None
                 else let streams = setExpStreamWeights streams
                      in map_option (\<lambda>sc. (ap, bgp, streams, sc)) (getStreamConstants ap streams))"

lemma prepare_unit_currentWU:
  "prepare_unit numArgs ppw (ap, bgp, streams) = Some (ap', bgp', streams', sc) \<Longrightarrow> ap_currentWU ap' = ap_currentWU ap"
  by (auto simp: prepare_unit_def setAstronomyParameters_def Let_def split: prod.splits if_splits)

lemma evaluate_currentWU:
  assumes "evaluate env job streams sc results (ap, ignore, pr) = Some (rc, ap', ignore', pr')"
  shows "ap_currentWU ap \<le> ap_currentWU ap'"
  using assms by (auto simp: evaluate_def Let_def split: bind_splits if_splits prod.splits)

function worker_loop :: "SepEnv \<Rightarrow> SepJob \<Rightarrow> real list \<Rightarrow> nat \<Rightarrow> nat \<Rightarrow> AstronomyParameters \<times> BackgroundParameters \<times> Streams
    \<Rightarrow> bool \<Rightarrow> bool \<Rightarrow> SepProc \<Rightarrow> (bool \<times> SepProc) option" where
  "worker_loop env job numArgs params_per_workunit totalWUs (ap, bgp, streams) ignoreCheckpoint rc pr =
     (if ap_currentWU ap < totalWUs
      then case prepare_unit numArgs params_per_workunit (ap, bgp, streams) of
             None \<Rightarrow> Some (True, pr)
           | Some (ap, bgp, streams, sc) \<Rightarrow>
               (case evaluate env job streams sc (newSeparationResults (ap_number_streams ap)) (ap, ignoreCheckpoint, pr) of
                  None \<Rightarrow> None
                | Some (rc, ap, ignoreCheckpoint, pr) \<Rightarrow>
                    worker_loop env job numArgs params_per_workunit totalWUs (ap\<lparr>ap_currentWU := ap_currentWU ap + 1\<rparr>, bgp, streams)
                      ignoreCheckpoint rc pr)
      else Some (rc, pr))"
  by pat_completeness auto
termination
  by (relation "measure (\<lambda>(_, _, _, _, totalWUs, (ap, _, _), _). totalWUs - ap_currentWU ap)")
    (auto dest!: prepare_unit_currentWU evaluate_currentWU)

declare worker_loop.simps [simp del]

text \<open>The number of work units; a division by 0 with arguments but no number of parameters. \<open>rc0\<close> is the value of
  the uninitialised \<open>rc\<close>.\<close>

definition worker :: "SepEnv \<Rightarrow> SepJob \<Rightarrow> real list \<Rightarrow> nat \<Rightarrow> AstronomyParameters \<times> BackgroundParameters \<times> Streams \<Rightarrow> bool \<Rightarrow> bool
    \<Rightarrow> SepProc \<Rightarrow> (bool \<times> SepProc) option" where
  "worker env job numArgs params_per_workunit start ignoreCheckpoint rc0 pr =
     (case start of (ap, bgp, streams) \<Rightarrow>
        do { totalWUs \<leftarrow> (if numArgs \<noteq> []
                           then if params_per_workunit = 0 then None else Some (List.length numArgs div params_per_workunit)
                           else Some 1);
             worker_loop env job numArgs params_per_workunit totalWUs (ap\<lparr>ap_currentWU := 0\<rparr>, bgp, streams) ignoreCheckpoint rc0 pr })"

end
