(* ===== verification/Sep_EvaluateProps.thy ===== *)
theory Sep_EvaluateProps
  imports Sep_Evaluate
begin

text \<open>
  An evaluation prints the results that its parameters determine, whether or not it was interrupted; a
  finished work unit is recognised, and all but the first one are then done again.
\<close>

section \<open>What an evaluation should print\<close>

text \<open>The results as a function of the parameters, without checkpoints, clock or random numbers.\<close>

definition unit_integrands :: "AstronomyParameters \<Rightarrow> SepJob \<Rightarrow> StreamConstants list \<Rightarrow> StreamGauss \<Rightarrow> Integrand list" where
  "unit_integrands ap job sc sg = map (\<lambda>ia. initRPoints (selectStandardFunction (ap_background_profile ap)) ap ia sc sg) (job_ias job)"

definition final_state :: "AstronomyParameters \<Rightarrow> Integrand list \<Rightarrow> EvaluationState" where
  "final_state ap cs = (newEvaluationState ap)\<lparr>es_cuts := map final_cut cs\<rparr>"

definition unit_results :: "SepJob \<Rightarrow> Streams \<Rightarrow> StreamConstants list \<Rightarrow> StreamGauss \<Rightarrow> SeparationResults \<Rightarrow> AstronomyParameters
    \<Rightarrow> mwvector list \<Rightarrow> SeparationResults option" where
  "unit_results job streams sc sg results ap stars =
     (let (bg, ss) = getFinalIntegrals (final_state ap (unit_integrands ap job sc sg)) (ap_number_streams ap) (ap_number_integrals ap)
      in do { (rc, results, d, ls) \<leftarrow> likelihood (selectStandardFunction (ap_background_profile ap))
                (results\<lparr>backgroundIntegral := bg, res_streamIntegrals := ss\<rparr>) ap stars sc streams sg False False (dsfmt_init_gen_rand 0);
              Some (if checkSeparationResults results (ap_number_streams ap) then results\<lparr>likelihood_value := Fin (- 999)\<rparr>
                    else results) })"

lemma likelihood_stars_dsfmt:
  "\<exists>s'. (\<forall>d. likelihood_stars pf ap sc streams sg results None stars (s\<lparr>ll_dsfmt := d\<rparr>) = Some (s'\<lparr>ll_dsfmt := d\<rparr>)) \<and> ll_lines s' = ll_lines s"
proof (induction stars arbitrary: s)
  case (Cons p stars)
  define s1 where "s1 = snd (likelihood_star pf ap sc streams sg results p s)"
  have "snd (likelihood_star pf ap sc streams sg results p (s\<lparr>ll_dsfmt := d\<rparr>)) = s1\<lparr>ll_dsfmt := d\<rparr>" for d
    by (simp add: s1_def likelihood_star_def Let_def split_beta)
  moreover have "ll_lines s1 = ll_lines s" by (simp add: s1_def likelihood_star_def Let_def split_beta)
  ultimately show ?case using Cons.IH[of s1] by (simp add: split_beta)
qed auto

lemma likelihood_dsfmt:
  obtains R where "\<And>d opened. likelihood pf results ap stars sc streams sg False opened d = Some (False, R, d, [])"
proof -
  let ?s = "\<lparr>ll_es = newEvaluationState ap, ll_prob = ZERO_DKAHAN, ll_num_zero = 0, ll_ss = [], ll_dsfmt = dsfmt_init_gen_rand 0,
    ll_lines = []\<rparr>"
  obtain s' where "\<And>d. likelihood_stars pf ap sc streams sg results None stars (?s\<lparr>ll_dsfmt := d\<rparr>) = Some (s'\<lparr>ll_dsfmt := d\<rparr>)"
    "ll_lines s' = []"
    using likelihood_stars_dsfmt[of pf ap sc streams sg results stars ?s] by auto
  then show ?thesis using that by (simp add: likelihood_def likelihood_sum_def)
qed

lemma getFinalIntegrals_cuts: "es_cuts es = es_cuts es' \<Longrightarrow> getFinalIntegrals es n m = getFinalIntegrals es' n m"
  by (simp add: getFinalIntegrals_def)

section \<open>From a state on its way\<close>

text \<open>A file of the unit: the state it holds is on its way, but for the mark that the results are printed.\<close>

definition unit_file :: "Integrand list \<Rightarrow> AstronomyParameters \<Rightarrow> int \<times> int \<Rightarrow> bool \<Rightarrow> sep_checkpoint_file \<Rightarrow> bool" where
  "unit_file cs ap ver printed F \<longleftrightarrow> (\<exists>es. F = writeState ver es \<and> es_WUPrinted es = printed
     \<and> progress cs (ap_number_streams ap) (ap_currentWU ap) (es\<lparr>es_WUPrinted := False\<rparr>))"

lemma unit_fileI:
  "progress cs (ap_number_streams ap) (ap_currentWU ap) es \<Longrightarrow> unit_file cs ap ver False (writeState ver es)"
proof -
  assume p: "progress cs (ap_number_streams ap) (ap_currentWU ap) es"
  then have "\<not> es_WUPrinted es" "es\<lparr>es_WUPrinted := False\<rparr> = es" by (simp_all add: progress_def)
  then show ?thesis using p unfolding unit_file_def by metis
qed

lemma progress_last [simp]: "progress cs n wu (es\<lparr>es_lastCheckpointNuStep := k\<rparr>) = progress cs n wu es"
  by (simp add: progress_def)

lemma writeCheckpoint_writes:
  assumes "\<forall>k. env_write env k = Written"
  shows "\<exists>w'. writeCheckpoint env (es, w) = (False, es\<lparr>es_lastCheckpointNuStep := es_nu_step es\<rparr>, w')
    \<and> sw_files w' = writeState (env_version env) (es\<lparr>es_lastCheckpointNuStep := es_nu_step es\<rparr>) # sw_files w"
  using assms by (simp add: writeCheckpoint_def Let_def)

lemma calculateIntegrals_unit:
  assumes "ap_q ap \<noteq> 0" "\<forall>c \<in> set (unit_integrands ap job sc sg). finite_cells (ap_number_streams ap) c"
    and "\<forall>k. env_write env k = Written" "progress (unit_integrands ap job sc sg) (ap_number_streams ap) (ap_currentWU ap) es"
  obtains es' w' where "calculateIntegrals env (selectStandardFunction (ap_background_profile ap)) ap (job_ias job) sc sg (es, w) = Some (False, es', w')"
    "progress (unit_integrands ap job sc sg) (ap_number_streams ap) (ap_currentWU ap) es'"
    "es_cuts es' = map final_cut (unit_integrands ap job sc sg)"
    "\<forall>F \<in> set (sw_files w'). F \<in> set (sw_files w) \<or> unit_file (unit_integrands ap job sc sg) ap (env_version env) False F"
proof -
  note cs = unit_integrands_def[of ap job sc sg]
  obtain es' w' where "calculateIntegrals env (selectStandardFunction (ap_background_profile ap)) ap (job_ias job) sc sg (es, w) = Some (False, es', w')"
    and p: "progress (unit_integrands ap job sc sg) (ap_number_streams ap) (ap_currentWU ap) es'"
      "es_currentCut es' = List.length (unit_integrands ap job sc sg)"
    and files: "\<forall>F \<in> set (sw_files w'). F \<in> set (sw_files w) \<or> (\<exists>es1. F = writeState (env_version env) es1
      \<and> progress (unit_integrands ap job sc sg) (ap_number_streams ap) (ap_currentWU ap) es1)"
    using calculateIntegrals_progress[OF assms(1) assms(2)[unfolded cs] assms(3)[rule_format] assms(4)[unfolded cs], of w]
    unfolding cs by blast
  moreover have "\<forall>F \<in> set (sw_files w'). F \<in> set (sw_files w) \<or> unit_file (unit_integrands ap job sc sg) ap (env_version env) False F"
    using files unit_fileI by blast
  ultimately show ?thesis using that progress_cuts[OF p] by blast
qed

lemma evaluate_integrals_unit:
  assumes "ap_q ap \<noteq> 0" "\<forall>c \<in> set (unit_integrands ap job sc sg). finite_cells (ap_number_streams ap) c"
    and "\<forall>k. env_write env k = Written" "progress (unit_integrands ap job sc sg) (ap_number_streams ap) (ap_currentWU ap) es"
    and "is_done \<Longrightarrow> integralsAreDone es"
  shows "\<exists>es1 w1. evaluate_integrals env (selectStandardFunction (ap_background_profile ap)) ap (job_ias job) sc sg is_done (es, w)
        = Some (False, es1, w1)
      \<and> progress (unit_integrands ap job sc sg) (ap_number_streams ap) (ap_currentWU ap) es1
      \<and> es_cuts es1 = map final_cut (unit_integrands ap job sc sg)
      \<and> (\<forall>F \<in> set (sw_files w1). F \<in> set (sw_files w) \<or> unit_file (unit_integrands ap job sc sg) ap (env_version env) False F)"
proof (cases is_done)
  case True
  then have "es_currentCut es = List.length (unit_integrands ap job sc sg)"
    using assms(4,5) by (auto simp: integralsAreDone_def progress_def)
  then show ?thesis using True assms(4) progress_cuts by (auto simp: evaluate_integrals_def)
next
  case False
  let ?cs = "unit_integrands ap job sc sg" and ?n = "ap_number_streams ap" and ?wu = "ap_currentWU ap"
  obtain es1 w1 where run: "calculateIntegrals env (selectStandardFunction (ap_background_profile ap)) ap (job_ias job) sc sg (es, w) = Some (False, es1, w1)"
    and p: "progress ?cs ?n ?wu es1" "es_cuts es1 = map final_cut ?cs"
    and files: "\<forall>F \<in> set (sw_files w1). F \<in> set (sw_files w) \<or> unit_file ?cs ap (env_version env) False F"
    using calculateIntegrals_unit[OF assms(1-4)] .
  define es2 where "es2 = es1\<lparr>es_lastCheckpointNuStep := es_nu_step es1\<rparr>"
  obtain w2 where w2: "writeCheckpoint env (es1, w1) = (False, es2, w2)" "sw_files w2 = writeState (env_version env) es2 # sw_files w1"
    using writeCheckpoint_writes[OF assms(3), of es1 w1] unfolding es2_def by blast
  have p2: "progress ?cs ?n ?wu es2" "es_cuts es2 = map final_cut ?cs" using p by (simp_all add: es2_def)
  moreover have "unit_file ?cs ap (env_version env) False (writeState (env_version env) es2)" using p2(1) by (rule unit_fileI)
  moreover have "evaluate_integrals env (selectStandardFunction (ap_background_profile ap)) ap (job_ias job) sc sg is_done (es, w) = Some (False, es2, w2)"
    using False run w2(1) by (simp add: evaluate_integrals_def finalCheckpoint_def)
  ultimately show ?thesis using files w2(2) by auto
qed

lemma evaluate_from_progress:
  assumes "ap_q ap \<noteq> 0" "\<forall>c \<in> set (unit_integrands ap job sc sg). finite_cells (ap_number_streams ap) c"
    and "\<forall>k. env_write env k = Written" "progress (unit_integrands ap job sc sg) (ap_number_streams ap) (ap_currentWU ap) es"
    and "is_done \<Longrightarrow> integralsAreDone es" "job_stars job = Some stars" "\<not> job_do_separation job"
  shows "\<exists>pr' R F fs. unit_results job streams sc sg results ap stars = Some R
    \<and> evaluate_from env job streams sc sg results ap is_done es pr = Some (False, pr')
    \<and> pr_printed pr' = pr_printed pr @ [(ap_currentWU ap, R)]
    \<and> sw_files (pr_world pr') = F # fs \<and> unit_file (unit_integrands ap job sc sg) ap (env_version env) True F
    \<and> (\<forall>F \<in> set fs. F \<in> set (sw_files (pr_world pr)) \<or> unit_file (unit_integrands ap job sc sg) ap (env_version env) False F)"
proof -
  let ?cs = "unit_integrands ap job sc sg" and ?n = "ap_number_streams ap" and ?wu = "ap_currentWU ap"
  let ?pf = "selectStandardFunction (ap_background_profile ap)"
  obtain es1 w1 where first: "evaluate_integrals env ?pf ap (job_ias job) sc sg is_done (es, pr_world pr) = Some (False, es1, w1)"
    and p1: "progress ?cs ?n ?wu es1" "es_cuts es1 = map final_cut ?cs"
    and files: "\<forall>F \<in> set (sw_files w1). F \<in> set (sw_files (pr_world pr)) \<or> unit_file ?cs ap (env_version env) False F"
    using evaluate_integrals_unit[where w = "pr_world pr", OF assms(1-5)] by blast
  obtain bg ss where fi: "getFinalIntegrals es1 ?n (ap_number_integrals ap) = (bg, ss)" by (cases "getFinalIntegrals es1 ?n (ap_number_integrals ap)")
  then have fi': "getFinalIntegrals (final_state ap ?cs) ?n (ap_number_integrals ap) = (bg, ss)"
    using getFinalIntegrals_cuts[of es1 "final_state ap ?cs"] p1(2) by (simp add: final_state_def)
  define results1 where "results1 = results\<lparr>backgroundIntegral := bg, res_streamIntegrals := ss\<rparr>"
  obtain R0 where R0: "\<And>d opened. likelihood ?pf results1 ap stars sc streams sg False opened d = Some (False, R0, d, [])"
    using likelihood_dsfmt[of ?pf results1 ap stars sc streams sg] by blast
  define R where "R = (if checkSeparationResults R0 ?n then R0\<lparr>likelihood_value := Fin (- 999)\<rparr> else R0)"
  have spec: "unit_results job streams sc sg results ap stars = Some R"
    using R0 by (simp add: unit_results_def fi' results1_def R_def)
  define es2 where "es2 = es1\<lparr>es_WUPrinted := True, es_lastCheckpointNuStep := es_nu_step es1\<rparr>"
  obtain w2 where w2: "writeCheckpoint env (es1\<lparr>es_WUPrinted := True\<rparr>, w1) = (False, es2, w2)"
      "sw_files w2 = writeState (env_version env) es2 # sw_files w1"
    using writeCheckpoint_writes[OF assms(3), of "es1\<lparr>es_WUPrinted := True\<rparr>" w1] by (auto simp: es2_def)
  have "es1\<lparr>es_WUPrinted := False\<rparr> = es1" using p1(1) by (simp add: progress_def)
  moreover have "es2\<lparr>es_WUPrinted := False\<rparr> = (es1\<lparr>es_WUPrinted := False\<rparr>)\<lparr>es_lastCheckpointNuStep := es_nu_step es1\<rparr>"
    by (simp add: es2_def)
  ultimately have "es2\<lparr>es_WUPrinted := False\<rparr> = es1\<lparr>es_lastCheckpointNuStep := es_nu_step es1\<rparr>" by (rule subst)
  then have "progress ?cs ?n ?wu (es2\<lparr>es_WUPrinted := False\<rparr>)" using p1(1) by simp
  then have F: "unit_file ?cs ap (env_version env) True (writeState (env_version env) es2)"
    unfolding unit_file_def by (intro exI[of _ es2]) (simp add: es2_def)
  have "evaluate_from env job streams sc sg results ap is_done es pr = Some (False,
      pr\<lparr>pr_world := w2, pr_printed := pr_printed pr @ [(?wu, R)]\<rparr>)"
    by (simp add: evaluate_from_def Let_def first fi assms(6,7) results1_def[symmetric] R0 w2(1) R_def)
  then show ?thesis using spec w2(2) F files by auto
qed

section \<open>An interrupted evaluation\<close>

lemma unit_file_read:
  assumes "unit_file cs ap ver printed F" "ap_number_integrals ap = List.length cs"
  obtains es where "readCheckpoint ver F (newEvaluationState ap) = Some es" "es_WUPrinted es = printed"
    "es_currentWU es = ap_currentWU ap" "progress cs (ap_number_streams ap) (ap_currentWU ap) (es\<lparr>es_WUPrinted := False\<rparr>)"
proof -
  obtain es0 where es0: "F = writeState ver es0" "es_WUPrinted es0 = printed"
    "progress cs (ap_number_streams ap) (ap_currentWU ap) (es0\<lparr>es_WUPrinted := False\<rparr>)"
    using assms(1) unfolding unit_file_def by blast
  obtain es where es: "readCheckpoint ver (writeState ver es0) (newEvaluationState ap) = Some es"
    "progress cs (ap_number_streams ap) (ap_currentWU ap) (es\<lparr>es_WUPrinted := False\<rparr>)" "es_WUPrinted es = es_WUPrinted es0"
    using readCheckpoint_progress[OF es0(3) assms(2), of ver] by blast
  have "es_currentWU es = ap_currentWU ap" using es(2) by (simp add: progress_def)
  then show thesis using that es es0(1,2) by simp
qed

lemma evaluate_unit_file:
  assumes "ap_q ap \<noteq> 0" "ap_number_integrals ap = List.length (job_ias job)" "getStreamGauss (ap_convolve ap) = Some sg"
    and "\<forall>c \<in> set (unit_integrands ap job sc sg). finite_cells (ap_number_streams ap) c" "\<forall>k. env_write env k = Written"
    and "job_stars job = Some stars" "\<not> job_do_separation job" "\<not> job_resolveCheckpoint job"
    and "sw_files (pr_world pr) = F # fs" "unit_file (unit_integrands ap job sc sg) ap (env_version env) False F"
  shows "\<exists>pr' R. unit_results job streams sc sg results ap stars = Some R
    \<and> evaluate env job streams sc results (ap, False, pr) = Some (False, ap, True, pr')
    \<and> pr_printed pr' = pr_printed pr @ [(ap_currentWU ap, R)]"
proof -
  let ?cs = "unit_integrands ap job sc sg"
  have len: "ap_number_integrals ap = List.length ?cs" using assms(2) by (simp add: unit_integrands_def)
  obtain es where es: "readCheckpoint (env_version env) F (newEvaluationState ap) = Some es" "es_WUPrinted es = False"
    "es_currentWU es = ap_currentWU ap" "progress ?cs (ap_number_streams ap) (ap_currentWU ap) (es\<lparr>es_WUPrinted := False\<rparr>)"
    using unit_file_read[OF assms(10) len] .
  have "es\<lparr>es_WUPrinted := False\<rparr> = es" using es(2) by simp
  then have p: "progress ?cs (ap_number_streams ap) (ap_currentWU ap) es" using es(4) by simp
  have "pr\<lparr>pr_world := pr_world pr\<rparr> = pr" by simp
  then show ?thesis
    using evaluate_from_progress[OF assms(1,4,5) p _ assms(6,7), of "integralsAreDone es" streams results pr] es assms(3,8,9)
    by (auto simp: evaluate_def maybeResume_def)
qed

lemma evaluate_printed_file:
  assumes "getStreamGauss (ap_convolve ap) = Some sg" "\<not> job_resolveCheckpoint job" "sw_files (pr_world pr) = F # fs"
    and "readCheckpoint (env_version env) F (newEvaluationState ap) = Some es" "es_WUPrinted es"
  shows "evaluate env job streams sc results (ap, False, pr)
    = Some (False, ap\<lparr>ap_currentWU := if es_currentWU es > ap_currentWU ap then es_currentWU es - 1 else ap_currentWU ap\<rparr>, True, pr)"
  using assms by (simp add: evaluate_def maybeResume_def)

text \<open>C14: an evaluation prints the results that its parameters determine, however often it is interrupted.
  Started without a checkpoint, with finite probabilities in all cells and files that can be
  written, it prints \<open>unit_results\<close>, a function that knows no checkpoints. Take any file that was on the
  disk on the way, at whatever moments the clock asked for one: a program started anew on it prints
  the same results; and on the last file, written after the printing, it prints nothing more.\<close>

theorem evaluate_resumes:
  assumes "ap_q ap \<noteq> 0" "ap_number_integrals ap = List.length (job_ias job)" "getStreamGauss (ap_convolve ap) = Some sg"
    and "\<forall>c \<in> set (unit_integrands ap job sc sg). finite_cells (ap_number_streams ap) c"
    and "\<forall>k. env_write env k = Written" "\<forall>k. env_write env' k = Written" "env_version env' = env_version env"
    and "job_stars job = Some stars" "\<not> job_do_separation job" "\<not> job_resolveCheckpoint job" "sw_files (pr_world pr) = []"
  shows "\<exists>R pr1 F fs. unit_results job streams sc sg results ap stars = Some R
    \<and> evaluate env job streams sc results (ap, False, pr) = Some (False, ap, True, pr1)
    \<and> pr_printed pr1 = pr_printed pr @ [(ap_currentWU ap, R)] \<and> sw_files (pr_world pr1) = F # fs
    \<and> (\<forall>pr'. sw_files (pr_world pr') = [F] \<longrightarrow> evaluate env' job streams sc results (ap, False, pr') = Some (False, ap, True, pr'))
    \<and> (\<forall>F' \<in> set fs. \<forall>pr'. sw_files (pr_world pr') = [F'] \<longrightarrow> (\<exists>pr2.
          evaluate env' job streams sc results (ap, False, pr') = Some (False, ap, True, pr2)
          \<and> pr_printed pr2 = pr_printed pr' @ [(ap_currentWU ap, R)]))"
proof -
  let ?cs = "unit_integrands ap job sc sg"
  have len: "ap_number_integrals ap = List.length ?cs" using assms(2) by (simp add: unit_integrands_def)
  have p: "progress ?cs (ap_number_streams ap) (ap_currentWU ap) (newEvaluationState ap)" by (rule progress_start[OF len])
  have start: "es_currentWU (newEvaluationState ap) = ap_currentWU ap" "\<not> es_WUPrinted (newEvaluationState ap)"
    by (simp_all add: newEvaluationState_def)
  obtain R pr1 F fs where run: "unit_results job streams sc sg results ap stars = Some R"
    "evaluate_from env job streams sc sg results ap (integralsAreDone (newEvaluationState ap)) (newEvaluationState ap) pr = Some (False, pr1)"
    "pr_printed pr1 = pr_printed pr @ [(ap_currentWU ap, R)]" "sw_files (pr_world pr1) = F # fs"
    and F: "unit_file ?cs ap (env_version env) True F" and fs: "\<forall>F \<in> set fs. unit_file ?cs ap (env_version env) False F"
    using evaluate_from_progress[OF assms(1,4,5) p _ assms(8,9), of "integralsAreDone (newEvaluationState ap)" streams results pr]
      assms(11) by auto
  have "evaluate env job streams sc results (ap, False, pr) = Some (False, ap, True, pr1)"
    using run(2) start assms(3,10,11) by (simp add: evaluate_def maybeResume_def)
  moreover have "evaluate env' job streams sc results (ap, False, pr') = Some (False, ap, True, pr')"
    if "sw_files (pr_world pr') = [F]" for pr'
  proof -
    obtain es where "readCheckpoint (env_version env') F (newEvaluationState ap) = Some es" "es_WUPrinted es" "es_currentWU es = ap_currentWU ap"
      using unit_file_read[OF F len] assms(7) by auto
    then show ?thesis using evaluate_printed_file[OF assms(3,10) that] by simp
  qed
  moreover have "\<exists>pr2. evaluate env' job streams sc results (ap, False, pr') = Some (False, ap, True, pr2)
      \<and> pr_printed pr2 = pr_printed pr' @ [(ap_currentWU ap, R)]"
    if "F' \<in> set fs" "sw_files (pr_world pr') = [F']" for F' pr'
    using evaluate_unit_file[OF assms(1-4,6,8,9,10) that(2), of streams results] fs that(1) run(1) assms(7) by auto
  ultimately show ?thesis using run by blast
qed

section \<open>Finished work units\<close>

text \<open>C18: a finished work unit is done again, unless it is the first. The worker starts with unit 0 on a file
  that says that the results of unit \<open>k\<close> are printed. For \<open>k = 0\<close> it goes on with unit 1; for every other
  \<open>k\<close> it goes on with \<open>k\<close> itself, and ignores checkpoints from there on.\<close>

theorem worker_repeats_finished_unit:
  assumes "ap_currentWU ap = 0" "0 < totalWUs" "prepare_unit numArgs ppw (ap, bgp, streams) = Some (ap1, bgp1, streams1, sc)"
    and "getStreamGauss (ap_convolve ap1) = Some sg" "\<not> job_resolveCheckpoint job" "sw_files (pr_world pr) = F # fs"
    and "readCheckpoint (env_version env) F (newEvaluationState ap1) = Some es" "es_WUPrinted es"
  shows "worker_loop env job numArgs ppw totalWUs (ap, bgp, streams) False rc pr
    = worker_loop env job numArgs ppw totalWUs
        (ap1\<lparr>ap_currentWU := if es_currentWU es = 0 then 1 else es_currentWU es\<rparr>, bgp1, streams1) True False pr"
proof -
  have "ap_currentWU ap1 = 0" using prepare_unit_currentWU[OF assms(3)] assms(1) by simp
  then show ?thesis
    using assms(1-3) evaluate_printed_file[OF assms(4-8), of streams1 sc "newSeparationResults (ap_number_streams ap1)"]
    by (simp add: worker_loop.simps[of env job numArgs ppw totalWUs ap bgp streams])
qed

section \<open>Samples\<close>

text \<open>The quadrature with two points: Newton's iteration halves the distance from the root in every step.\<close>

lemma legendre_step_two:
  assumes "0 < z" "z \<noteq> 1"
  shows "fst (legendre_step 2 z) = (z + 1 / (3 * z)) / 2"
proof -
  have l: "legendre 2 z = ((3 * z * z - 1) / 2, z)"
    by (simp add: legendre_def eval_nat_numeral)
  have "(z * z - 1) \<noteq> 0" using assms square_eq_1_iff[of z] by auto
  then have pp: "real 2 * (z * ((3 * z * z - 1) / 2) - z) / (z * z - 1) = 3 * z"
    by (simp add: field_simps)
  have "fst (legendre_step 2 z) = z - (3 * z * z - 1) / 2 / (3 * z)"
    unfolding legendre_step_def l prod.case pp Let_def by simp
  then show ?thesis using assms(1) by (simp add: field_simps)
qed

lemma newton_two:
  fixes z r :: real
  assumes "0 < z" "r\<^sup>2 = 1 / 3" "0 < r"
  shows "(z + 1 / (3 * z)) / 2 - r = (z - r)\<^sup>2 / (2 * z)"
proof -
  have "1 / (3 * z) = r\<^sup>2 / z" unfolding assms(2) by simp
  then show ?thesis using assms(1) by (simp add: field_simps power2_eq_square)
qed

lemma legendre_root_two:
  assumes "r\<^sup>2 = 1 / 3" "0 < r"
  shows "r \<le> z \<Longrightarrow> z < 1 \<Longrightarrow> z - r \<le> LEGENDRE_EPS * 2 ^ k \<Longrightarrow> \<exists>p. legendre_root 2 z = Some p"
proof (induction k arbitrary: z)
  case (0 z)
  define z' where "z' = fst (legendre_step 2 z)"
  have z: "0 < z" "z \<noteq> 1" using 0 assms(2) by auto
  have e: "z' - r = (z - r)\<^sup>2 / (2 * z)" using newton_two[OF z(1) assms] unfolding z'_def legendre_step_two[OF z] .
  then have "r \<le> z'" using z(1) by (smt (verit) divide_nonneg_pos zero_le_power2)
  moreover have "(z - r) * (z - r) \<le> (z - r) * (2 * z)" using 0(1) assms(2) z(1) by (intro mult_left_mono) auto
  then have "z' - r \<le> z - r" unfolding e using z(1) by (simp add: divide_le_eq power2_eq_square)
  ultimately have "\<not> \<bar>z' - z\<bar> > LEGENDRE_EPS" using 0(3) by simp
  then show ?case by (simp add: legendre_root.simps split_beta z'_def[symmetric])
next
  case (Suc k z)
  define z' where "z' = fst (legendre_step 2 z)"
  have z: "0 < z" "z \<noteq> 1" using Suc.prems assms(2) by auto
  have e: "z' - r = (z - r)\<^sup>2 / (2 * z)" using newton_two[OF z(1) assms] unfolding z'_def legendre_step_two[OF z] .
  then have "r \<le> z'" using z(1) by (smt (verit) divide_nonneg_pos zero_le_power2)
  moreover have "(z - r) * (z - r) \<le> (z - r) * z" using Suc.prems(1) assms(2) z(1) by (intro mult_left_mono) auto
  then have "z' - r \<le> (z - r) / 2" unfolding e using z(1) by (simp add: divide_le_eq power2_eq_square)
  ultimately have "\<exists>p. legendre_root 2 z' = Some p" using Suc.prems by (intro Suc.IH) auto
  then show ?case by (simp add: legendre_root.simps[of 2 z] split_beta z'_def[symmetric])
qed

lemma getStreamGauss_two: "\<exists>sg. getStreamGauss 2 = Some sg"
proof -
  define r :: real where "r = sqrt (1 / 3)"
  have r: "r\<^sup>2 = 1 / 3" "0 < r" "r < 1" unfolding r_def by simp_all
  define z0 where "z0 = cos (pi * (1 - 1 / 4) / (2 + 1 / 2))"
  have "cos (pi / 3) < z0" "z0 < cos 0"
    unfolding z0_def by (rule cos_monotone_0_pi; use pi_gt_zero in \<open>simp add: field_simps\<close>)+
  then have z0: "1 / 2 < z0" "z0 < 1" by (simp_all add: cos_60)
  define z1 where "z1 = fst (legendre_step 2 z0)"
  have z1: "z1 = (z0 + 1 / (3 * z0)) / 2" using z0 by (simp add: z1_def legendre_step_two)
  have a: "r \<le> z1" using newton_two[of z0 r] z0 r z1 by (smt (verit) divide_nonneg_pos zero_le_power2)
  have "z0 * (1 / (3 * z0)) < z0 * 1" using z0 by simp
  then have inv: "1 / (3 * z0) < 1" using z0 by (simp only: mult_less_cancel_left_pos)
  have "(a + b) / 2 < 1" if "a < 1" "b < 1" for a b :: real using that by simp
  from this[OF z0(2) inv] have b: "z1 < 1" by (simp only: z1)
  obtain k where "(z1 - r) / LEGENDRE_EPS < 2 ^ k" using real_arch_pow[of 2 "(z1 - r) / LEGENDRE_EPS"] by auto
  then have c: "z1 - r \<le> LEGENDRE_EPS * 2 ^ k" by (simp add: LEGENDRE_EPS_def divide_less_eq mult.commute)
  have "\<exists>p. legendre_root 2 z1 = Some p" by (rule legendre_root_two[OF r(1,2) a b c])
  then have "\<exists>p. legendre_root 2 z0 = Some p"
    by (cases "\<bar>z1 - z0\<bar> > LEGENDRE_EPS") (simp_all add: legendre_root.simps[of 2 z0] split_beta z1_def[symmetric])
  moreover have "[1..<(2 + 1) div 2 + 1] = [1::nat]" by (simp add: upt_rec)
  ultimately show ?thesis
    by (auto simp: getStreamGauss_def gaussLegendre_def legendre_pair_def Let_def z0_def)
qed

definition sample_job :: SepJob where
  "sample_job = \<lparr>job_ias = [sample_area], job_stars = Some [mw_vec 0 0 20], job_do_separation = False, job_outfile_opens = False,
     job_resolveCheckpoint = False\<rparr>"

definition sample_proc :: SepProc where
  "sample_proc = \<lparr>pr_world = \<lparr>sw_calls = 0, sw_writes = 0, sw_files = []\<rparr>, pr_dsfmt = dsfmt_init_gen_rand 42, pr_printed = [],
     pr_lines = []\<rparr>"

lemma flat_unit:
  "ap_q flat_ap \<noteq> 0" "ap_number_integrals flat_ap = List.length (job_ias sample_job)" "ap_convolve flat_ap = 2"
  "\<forall>c \<in> set (unit_integrands flat_ap sample_job [] sg). finite_cells (ap_number_streams flat_ap) c"
  using flat_cells[of "[]" sg]
  by (simp_all add: unit_integrands_def flat_ap_def sample_ap_def sample_job_def del: One_nat_def)

theorem evaluate_resumes_witness:
  "\<exists>pr R. evaluate sep_env sample_job no_streams [] (newSeparationResults 0) (flat_ap, False, sample_proc) = Some (False, flat_ap, True, pr)
    \<and> pr_printed pr = [(0, R)]"
proof -
  obtain sg where sg: "getStreamGauss 2 = Some sg" using getStreamGauss_two ..
  show ?thesis
    using evaluate_resumes[of flat_ap sample_job sg "[]" sep_env sep_env "[mw_vec 0 0 20]" sample_proc no_streams
        "newSeparationResults 0"] flat_unit sg
    by (auto simp: sep_env_def sample_job_def sample_proc_def flat_ap_def sample_ap_def)
qed

text \<open>The file of a work unit 3 that is finished.\<close>

definition finished_file :: sep_checkpoint_file where
  "finished_file = writeState (1, 36) ((newEvaluationState flat_ap)\<lparr>es_currentWU := 3, es_WUPrinted := True\<rparr>)"

definition flat_bgp :: BackgroundParameters where
  "flat_bgp = \<lparr>bp_innerPower = 0, bp_q = 1, bp_outerPower = 0, bp_epsilon = 1 / 4, bp_a = 0, bp_b = 0, bp_c = 0\<rparr>"

lemma finished_file_read:
  assumes "ap_number_streams ap = 0" "ap_number_integrals ap = 1"
  shows "\<exists>es. readCheckpoint (1, 36) finished_file (newEvaluationState ap) = Some es \<and> es_WUPrinted es \<and> es_currentWU es = 3"
  using assms by (simp add: readCheckpoint_def readState_def finished_file_def writeState_def versionMismatch_def newEvaluationState_def
      initializeCut_def flat_ap_def addTmpCheckpointSums_def)

theorem worker_repeats_finished_unit_witness:
  "\<exists>ap. worker_loop sep_env sample_job [] 0 5 (flat_ap, flat_bgp, no_streams) False False
       (sample_proc\<lparr>pr_world := \<lparr>sw_calls = 0, sw_writes = 0, sw_files = [finished_file]\<rparr>\<rparr>)
     = worker_loop sep_env sample_job [] 0 5 (ap\<lparr>ap_currentWU := 3\<rparr>, flat_bgp, setExpStreamWeights no_streams) True False
       (sample_proc\<lparr>pr_world := \<lparr>sw_calls = 0, sw_writes = 0, sw_files = [finished_file]\<rparr>\<rparr>)"
proof -
  define ap1 where "ap1 = snd (setAstronomyParameters flat_ap flat_bgp)"
  have u: "prepare_unit [] 0 (flat_ap, flat_bgp, no_streams) = Some (ap1, flat_bgp, setExpStreamWeights no_streams, [])"
    by (simp add: prepare_unit_def ap1_def setAstronomyParameters_def Let_def flat_ap_def sample_ap_def flat_bgp_def MAX_CONVOLVE_def
        getStreamConstants_def setExpStreamWeights_def no_streams_def)
  have ap1: "ap_convolve ap1 = 2" "ap_number_streams ap1 = 0" "ap_number_integrals ap1 = 1"
    by (simp_all add: ap1_def setAstronomyParameters_def Let_def flat_ap_def sample_ap_def flat_bgp_def MAX_CONVOLVE_def)
  obtain sg where sg: "getStreamGauss 2 = Some sg" using getStreamGauss_two ..
  obtain es where es: "readCheckpoint (1, 36) finished_file (newEvaluationState ap1) = Some es" "es_WUPrinted es" "es_currentWU es = 3"
    using finished_file_read[OF ap1(2,3)] by blast
  show ?thesis
    using worker_repeats_finished_unit[of flat_ap 5 "[]" 0 flat_bgp no_streams ap1 flat_bgp "setExpStreamWeights no_streams" "[]" sg
        sample_job "sample_proc\<lparr>pr_world := \<lparr>sw_calls = 0, sw_writes = 0, sw_files = [finished_file]\<rparr>\<rparr>" finished_file "[]"
        sep_env es False] u ap1 sg es
    by (auto simp: sep_env_def sample_job_def flat_ap_def sample_ap_def)
qed

end
