(* ===== verification/Spec2Isabelle.thy ===== *)
theory Spec2Isabelle
  imports NBody_RunProps NBody_Params NBody_Density NBody_Coordinates NBody_HistMain NBody_EMDMain NBody_LikeMain
    NBody_Util NBody_ModelProps NBody_Dwarf NBody_NumericProps NBody_MixedProps NBody_IsotropicProps NBody_Virial
    Sep_EvaluateProps
begin

text \<open>
  Verification library of the two programs of Milkyway@Home: the n-body simulation (\<open>src/nbody\<close>) and
  the separation application (\<open>src/separation\<close>).

  The simulation. A context (\<open>NBodyCtx\<close>) and a state (\<open>NBodyState\<close>) are made from a parameter file,
  or read from a checkpoint. \<open>nbRunSystemPlain\<close> makes the steps: \<open>nbStepSystemPlain\<close> advances the
  bodies, and \<open>nbGravMap\<close> fills the accelerations, by the Barnes-Hut tree that \<open>nbMakeTree\<close> builds
  and \<open>nbGravity\<close> walks, or by the pairwise sum \<open>nbGravity_Exact\<close>, each with the pull of the galaxy
  (\<open>nbExtAcceleration\<close>) and of the LMC. After a step the bodies may be counted into histograms on the
  sky (\<open>nbCreateHistogram\<close>), their likelihood against the data taken (\<open>nbSystemLikelihood\<close>, with the earth
  mover's distance \<open>emdCalc\<close>) and compared with the best one, and a checkpoint written. The bodies come from a model of the dwarf galaxy
  (\<open>nbGeneratePlummerCore\<close>, \<open>nbGenerateMixedDwarfCore\<close> and others), placed at a start that is found
  beforehand by integrating the orbit backwards (\<open>nbReverseOrbit\<close>, \<open>nbReverseOrbit_LMC\<close>).

  The separation application fits streams of stars to star counts in a wedge of the sky. For every work
  unit, a set of parameters, \<open>worker\<close> calculates constants and calls \<open>evaluate\<close>: it resumes from the
  checkpoint file if there is one, sums the probabilities of background and streams over all cells of
  the wedge and of the areas cut out of it (\<open>calculateIntegrals\<close>, with a checkpoint whenever the clock asks
  for one), takes the likelihood of the stars (\<open>likelihood\<close>), which may also give each star to a
  stream at random (\<open>separation\<close>), prints the results and marks the file as printed.

  Numbers. Positions, velocities and times are exact reals: what the theorems say of them holds up
  to the rounding of the code. Where the code looks at infinities or at NaN (the validation of
  parameters, the likelihood) numbers are of type \<open>dbl\<close>, reals with the IEEE special values.
  Status codes are words of 32 bits, counters and sizes natural numbers. A call of \<open>mw_fail\<close> and a
  loop that does not end are \<open>None\<close>; the other errors are the codes and flags of the source.

  Theories and what they model:
  \<^item> \<open>MW_Prelude\<close>, \<open>MW_Vectors\<close>, \<open>MW_Float\<close>: shared lemmas; \<open>milkyway_vectors.h\<close> and the scalar macros
    of \<open>milkyway_math_supplemental.h\<close>; IEEE values.
  \<^item> \<open>NBody_Types\<close>: the structs, enums, status codes and defaults of \<open>nbody_types.h\<close>,
    \<open>nbody_potential_types.h\<close>, \<open>nbody_defaults.c\<close>. \<open>NBody_State\<close>: \<open>nbody_types.c\<close>: set-up, clones,
    comparison and sorting of states. \<open>NBody_Params\<close>: \<open>nbody_check_params.c\<close>.
  \<^item> \<open>NBody_Tree\<close>: \<open>nbody_tree.c\<close> on a heap of cells addressed by numbers, every function of the
    construction. The proofs are layered: \<open>NBody_Octree\<close> (the abstract octree and the relation of a
    heap to it), \<open>NBody_TreeInv\<close>, \<open>NBody_TreeBuild\<close> (insertion keeps the relation and ends, with the
    depth of the tree as fuel bounded by the distance of the bodies), \<open>NBody_TreeMass\<close> (centres of
    mass and opening radii), \<open>NBody_TreeThread\<close> (the links Next and More), \<open>NBody_MakeTree\<close>
    (\<open>nbMakeTree\<close> as a whole) and \<open>NBody_More\<close> (quadrupoles).
  \<^item> \<open>NBody_Grav\<close>, \<open>NBody_Force\<close>: \<open>nbody_grav.c\<close>: the walk over the threaded tree, the pairwise sum,
    the incest check; the maps over all bodies and \<open>nbGravMap\<close>, with \<open>nbEvalPotentialClosure\<close> of
    \<open>nbody_lua.c\<close>.
  \<^item> \<open>NBody_Potential\<close>, \<open>NBody_Density\<close>, \<open>NBody_Bessel\<close>, \<open>NBody_Caustic\<close>, \<open>NBody_Friction\<close>: the galaxy:
    \<open>nbody_potential.c\<close>, \<open>nbody_density.c\<close>, \<open>nbody_bessel.c\<close>, \<open>nbody_caustic.c\<close>, \<open>nbody_friction.c\<close>.
  \<^item> \<open>NBody_Leapfrog\<close>: the specification of the integrator: kick, drift, \<open>leap\<close>, momentum and angular
    momentum, and the locales \<open>force_field\<close> (time reversal) and \<open>balanced_field\<close> (conservation).
    \<open>NBody_Step\<close>: the step of \<open>nbody_plain.c\<close>. \<open>NBody_Conserve\<close>: the field of the code interprets the
    locales and the step refines \<open>leap\<close>. \<open>NBody_Dynamics\<close>: runs of many steps.
  \<^item> \<open>NBody_Orbit\<close>, \<open>NBody_LMCShift\<close>: \<open>nbody_orbit_integrator.c\<close>.
  \<^item> \<open>NBody_Checkpoint\<close>: \<open>nbody_checkpoint.c\<close>. \<open>NBody_Run\<close>, \<open>NBody_RunProps\<close>: the run of \<open>nbody_plain.c\<close>.
  \<^item> \<open>NBody_Coordinates\<close>: \<open>nbody_coordinates.c\<close>.
  \<^item> \<open>NBody_Histogram\<close>: creating histograms, of \<open>nbody_histogram.c\<close> and \<open>nbody_mass.c\<close>; the conversion of
    a double to \<open>unsigned int\<close> is written out as \<open>to_uint\<close>. \<open>NBody_HistLoop\<close> (the loop over the bodies),
    \<open>NBody_HistProps\<close> (dispersions and outliers), \<open>NBody_HistMain\<close> (\<open>nbCreateHistogram\<close> as a whole).
  \<^item> \<open>NBody_EMD\<close>: \<open>nbody_emd.c\<close>, a transportation simplex with lists of indices for its linked lists.
    \<open>NBody_EMDBasis\<close>, \<open>NBody_EMDLoop\<close>, \<open>NBody_EMDPlan\<close> (a new solution keeps all sums), \<open>NBody_EMDPotential\<close>
    (the potentials of a basis), \<open>NBody_EMDOptimal\<close> (weak duality), \<open>NBody_EMDIterate\<close> (the iterations),
    \<open>NBody_EMDRussel\<close> (the first plan), \<open>NBody_EMDMain\<close> (from signatures to the result).
  \<^item> \<open>NBody_Likelihood\<close>: \<open>nbody_likelihood.c\<close>, \<open>nbody_chisq.c\<close>, the rest of \<open>nbody_mass.c\<close> and \<open>nbMatchEMD\<close>;
    \<open>NBody_LikeTerms\<close>, \<open>NBody_LikeMain\<close>.
  \<^item> \<open>MW_Double\<close>: numerals and powers for \<open>dbl\<close>. \<open>NBody_Util\<close>: \<open>nbody_util.c\<close>.
  \<^item> \<open>MW_Random\<close>: the generator \<open>dSFMT\<close> on words of 64 bits and the draws of \<open>milkyway_util\<close>; the loops
    that draw until a test accepts are \<open>reject\<close>. \<open>MW_RandomProps\<close>: the invariant of its state, and the locale
    \<open>sampler\<close> between a source of draws and the models that use it.
  \<^item> \<open>NBody_Models\<close>: \<open>nbody_plummer.c\<close>, \<open>nbody_nfw.c\<close>, \<open>nbody_hernq.c\<close>; \<open>NBody_ModelProps\<close>.
    \<open>NBody_Dwarf\<close>: the profiles of \<open>nbody_dwarf_potential.c\<close>. \<open>NBody_Numeric\<close>, \<open>NBody_MixedDwarf\<close>:
    derivatives, quadrature, maximum and root, and the dwarf of two components of
    \<open>nbody_mixeddwarf.c\<close>; \<open>NBody_NumericProps\<close>, \<open>NBody_MixedProps\<close>. \<open>NBody_Isotropic\<close>: the older
    \<open>nbody_isotropic.c\<close>, with \<open>NBody_IsotropicProps\<close>. \<open>NBody_Virial\<close>: \<open>nbody_virial.c\<close> and the
    softening length and time step of \<open>nbody_lua_models.c\<close>.

  \<^item> \<open>Sep_Types\<close>, \<open>Sep_Coordinates\<close>, \<open>Sep_Points\<close>, \<open>Sep_Probabilities\<close>: the data of the separation application,
    \<open>coordinates.c\<close>, \<open>r_points.c\<close> with \<open>calculated_constants.c\<close> and \<open>gauss_legendre.c\<close>, \<open>probabilities.c\<close>.
    \<open>Sep_Integral\<close>: \<open>integrals.c\<close> and the checkpoints of \<open>evaluation_state.c\<close>; \<open>Sep_IntegralProps\<close> has the
    invariant \<open>progress\<close> of a state on its way. \<open>Sep_Likelihood\<close>: \<open>likelihood.c\<close>, \<open>separation_utils.c\<close>;
    \<open>Sep_LikelihoodProps\<close>. \<open>Sep_Evaluate\<close>: \<open>evaluation.c\<close>, \<open>setParameters\<close> and \<open>worker\<close>; \<open>Sep_EvaluateProps\<close>
    has the specification \<open>unit_results\<close> and the resuming.

  What the lemmas show. The tree is right: \<open>nbMakeTree\<close> returns, and unless two bodies coincide up to
  the machine epsilon it gives a threaded octree of exactly the bodies of nonzero mass with the right
  masses and centres of mass, and critical radii that belong to the geometric centre and size of each cell; the walk over it is the recursive descent, and with opening angle 0 the
  pairwise sum. The integrator is right, in the settings of \<open>static_ctx\<close>, where the force depends on
  positions and masses alone (pairwise sums with a positive softening, no LMC, no orbiting bar): the step
  refines an abstract leapfrog, which is reversible
  and conserves momentum and angular momentum; a run is an iterate of it; a resumed run continues
  the interrupted one; the reverse orbit inverts the simulation, one step longer. The galaxy is
  consistent: the halos' accelerations come from the densities the friction uses. Parameters,
  checkpoints and states are accepted exactly when the theorems say. Histograms count the bodies that
  are in their bins, and their dispersions and averages are those of the values that an iterated sigma
  clipping (\<open>clipped\<close>, on lists of values) keeps. The plan of the earth
  mover's distance ships what the signatures say, and when the test accepts it no other plan is cheaper
  by more than the tolerance; the terms of the likelihood vanish exactly where the histograms agree. Random numbers stay inside their interval for
  every seed; the initial models draw what they are meant to draw (Plummer radii by the enclosed mass,
  bound bodies, points exactly on their shells), except that one of them never returns; the dwarfs of two components
  are moved, however they were drawn, to where they were asked to stand, with the masses asked for if the number of bodies is even. The separation application prints what its
  parameters determine, however it is interrupted, except that a finished work unit after the first is
  done again; its likelihood is the mean logarithm of a normalised mixture, unless a star has
  probability 0, and a star goes to a stream with the share of that stream; its cells tile their
  volume, and its coordinates are those of the simulation.

  Loops and fuel. Recursions of fixed depth are \<open>fun\<close>; the loops over Next and More, the loops in
  time and the run are \<open>partial_function (option)\<close>, and that they return is proved. The insertion
  into the tree descends with fuel whose sufficiency is part of \<open>nbMakeTree_correct\<close>. The simplex
  makes at most \<open>MAX_ITERATIONS - 1\<close> rounds, as in the code; its search for a loop is a partial
  function, and what is said of a round holds when the search has returned. The sums of the separation
  application end by measures on the steps left; Newton's iteration for the nodes of the quadrature is
  a partial function that is proved to return for two nodes, and an assumption for more.

  Parameters of the model. How the machine reads a pointer as a double (the quadrupole of a new cell
  lies over its child pointers), the two tables of \<open>nbody_bessel.c\<close> too large for a definition, the
  user's Lua closure, the likelihood the run asks for, reading a histogram file, the clock, sizes of C types and outcomes of system
  calls.

  Not modelled. Reading and printing histograms, and bodies read from a file, are
  left out; the Lua bindings, printing, graphics, OpenCL host code, command line and BOINC
  start-up are glue or output, for both programs, as are the readers of parameter files of the separation
  application; its variants with vector instructions compute the same sums; the viewers and the data tools are other
  programs; lua, popt, libelf, crlibm and OpenPA are third-party code. Parallel loops are
  sequential here: each of them writes one element per iteration and reads no element another
  iteration writes, except for the flags of errors, which are only ever set.
\<close>

end
